(* ===== verification/Prelude.thy ===== *)
theory Prelude
  imports Main "HOL-Library.Char_ord" "HOL-Library.List_Lexorder" "HOL-Library.Code_Target_Nat"
begin

text \<open>
  Shared vocabulary of the development: Python exceptions as values, the two
  result shapes of the model (a raising function returns \<open>exn + 'a\<close>, a
  raising method with state returns a result and the state it leaves), their
  combinators with the rules that open them, and generic lemmas on lists,
  decimal numerals and bounded searches.

  Python text is a \<open>string\<close>: a list of characters, each one a code point below
  256 (Latin-1).  Bytes are the same type under another name.
\<close>

type_synonym bytes = "char list"

section \<open>Exceptions as values\<close>

text \<open>
  The exception classes that the code raises, or that it lets through from the
  standard library.  \<open>ValidationError\<close> is pydantic's, a subclass of
  \<open>ValueError\<close>; \<open>TechnocoreRefusal\<close> is a subclass of \<open>RuntimeError\<close>;
  \<open>HttpError\<close> stands for the transport errors of the HTTP library.
\<close>

datatype exn =
    ValueError string
  | ValidationError string
  | TypeError string
  | KeyError string
  | IndexError string
  | OverflowError string
  | RuntimeError string
  | TechnocoreRefusal int string
  | RateLimited int
  | UncertainWrite string
  | OSError string
  | IntegrityError string
  | AttributeError string
  | HttpError string

fun is_value_error :: "exn \<Rightarrow> bool" where
  "is_value_error (ValueError _) = True"
| "is_value_error (ValidationError _) = True"
| "is_value_error _ = False"

fun is_runtime_error :: "exn \<Rightarrow> bool" where
  "is_runtime_error (RuntimeError _) = True"
| "is_runtime_error (TechnocoreRefusal _ _) = True"
| "is_runtime_error _ = False"

type_synonym 'a result = "exn + 'a"
type_synonym ('s, 'a) op = "'s \<Rightarrow> (exn + 'a) \<times> 's"

named_theorems res_simps \<open>evaluation rules of the result combinators\<close>

section \<open>Raising functions\<close>

definition bindE :: "'a result \<Rightarrow> ('a \<Rightarrow> 'b result) \<Rightarrow> 'b result" where
  "bindE m f = (case m of Inl e \<Rightarrow> Inl e | Inr a \<Rightarrow> f a)"

definition raise_if :: "bool \<Rightarrow> exn \<Rightarrow> 'a result \<Rightarrow> 'a result" where
  "raise_if b e k = (if b then Inl e else k)"

definition of_option :: "exn \<Rightarrow> 'a option \<Rightarrow> 'a result" where
  "of_option e x = (case x of None \<Rightarrow> Inl e | Some a \<Rightarrow> Inr a)"

definition succeeds :: "'a result \<Rightarrow> bool" where
  "succeeds r = (case r of Inl _ \<Rightarrow> False | Inr _ \<Rightarrow> True)"

fun mapE :: "('a \<Rightarrow> 'b result) \<Rightarrow> 'a list \<Rightarrow> 'b list result" where
  "mapE f [] = Inr []"
| "mapE f (x # xs) = bindE (f x) (\<lambda>y. bindE (mapE f xs) (\<lambda>ys. Inr (y # ys)))"

lemma bindE_simps [simp, res_simps]:
  "bindE (Inl e) f = Inl e"
  "bindE (Inr a) f = f a"
  by (simp_all add: bindE_def)

lemma bindE_eq_Inr [simp]:
  "bindE m f = Inr b \<longleftrightarrow> (\<exists>a. m = Inr a \<and> f a = Inr b)"
  by (cases m) simp_all

lemma bindE_eq_Inl:
  "bindE m f = Inl e \<longleftrightarrow> m = Inl e \<or> (\<exists>a. m = Inr a \<and> f a = Inl e)"
  by (cases m) simp_all

lemma bindE_assoc: "bindE (bindE m f) g = bindE m (\<lambda>a. bindE (f a) g)"
  by (cases m) simp_all

lemma raise_if_simps [simp, res_simps]:
  "raise_if True e k = Inl e"
  "raise_if False e k = k"
  by (simp_all add: raise_if_def)

lemma raise_if_eq_Inr [simp]: "raise_if b e k = Inr a \<longleftrightarrow> \<not> b \<and> k = Inr a"
  by (simp add: raise_if_def)

lemma raise_if_eq_Inl: "raise_if b e k = Inl x \<longleftrightarrow> (b \<and> x = e) \<or> (\<not> b \<and> k = Inl x)"
  by (auto simp: raise_if_def)

lemma of_option_simps [simp, res_simps]:
  "of_option e None = Inl e"
  "of_option e (Some a) = Inr a"
  by (simp_all add: of_option_def)

lemma of_option_eq_Inr [simp]: "of_option e x = Inr a \<longleftrightarrow> x = Some a"
  by (cases x) simp_all

lemma succeeds_simps [simp, res_simps]:
  "\<not> succeeds (Inl e)"
  "succeeds (Inr a)"
  by (simp_all add: succeeds_def)

lemma succeeds_iff: "succeeds r \<longleftrightarrow> (\<exists>a. r = Inr a)"
  by (cases r) simp_all

lemma mapE_length: "mapE f xs = Inr ys \<Longrightarrow> length ys = length xs"
  by (induction xs arbitrary: ys) auto

lemma mapE_Inr_iff: "mapE f xs = Inr ys \<longleftrightarrow> list_all2 (\<lambda>x y. f x = Inr y) xs ys"
proof (induction xs arbitrary: ys)
  case (Cons x xs)
  then show ?case by (cases ys) auto
qed auto

lemma mapE_Inr_map: "(\<And>x. x \<in> set xs \<Longrightarrow> f x = Inr (g x)) \<Longrightarrow> mapE f xs = Inr (map g xs)"
  by (induction xs) auto

lemma mapE_all: "mapE f xs = Inr ys \<Longrightarrow> (\<And>x y. f x = Inr y \<Longrightarrow> P y) \<Longrightarrow> list_all P ys"
  by (induction xs arbitrary: ys) auto

section \<open>Raising methods with state\<close>

definition retS :: "'a \<Rightarrow> ('s, 'a) op" where
  "retS a s = (Inr a, s)"

definition raiseS :: "exn \<Rightarrow> ('s, 'a) op" where
  "raiseS e s = (Inl e, s)"

definition bindS :: "('s, 'a) op \<Rightarrow> ('a \<Rightarrow> ('s, 'b) op) \<Rightarrow> ('s, 'b) op" where
  "bindS m f s = (case m s of (Inl e, s') \<Rightarrow> (Inl e, s') | (Inr a, s') \<Rightarrow> f a s')"

definition liftS :: "'a result \<Rightarrow> ('s, 'a) op" where
  "liftS r s = (r, s)"

definition getS :: "('s \<Rightarrow> 'a) \<Rightarrow> ('s, 'a) op" where
  "getS f s = (Inr (f s), s)"

definition putS :: "('s \<Rightarrow> 's) \<Rightarrow> ('s, unit) op" where
  "putS f s = (Inr (), f s)"

definition ifS :: "bool \<Rightarrow> ('s, 'a) op \<Rightarrow> ('s, 'a) op \<Rightarrow> ('s, 'a) op" where
  "ifS b m n = (if b then m else n)"

definition raiseS_if :: "bool \<Rightarrow> exn \<Rightarrow> ('s, 'a) op \<Rightarrow> ('s, 'a) op" where
  "raiseS_if b e k = (if b then raiseS e else k)"

text \<open>\<open>try: m except \<langle>p\<rangle> as e: h e\<close>, the state being what \<open>m\<close> left.\<close>

definition tryS :: "(exn \<Rightarrow> bool) \<Rightarrow> ('s, 'a) op \<Rightarrow> (exn \<Rightarrow> ('s, 'a) op) \<Rightarrow> ('s, 'a) op" where
  "tryS p m h s = (case m s of (Inl e, s') \<Rightarrow> if p e then h e s' else (Inl e, s') | r \<Rightarrow> r)"

text \<open>A database transaction: an exception rolls the state back.\<close>

definition transactionS :: "('s, 'a) op \<Rightarrow> ('s, 'a) op" where
  "transactionS m s = (case m s of (Inl e, _) \<Rightarrow> (Inl e, s) | r \<Rightarrow> r)"

fun mapS :: "('a \<Rightarrow> ('s, 'b) op) \<Rightarrow> 'a list \<Rightarrow> ('s, 'b list) op" where
  "mapS f [] = retS []"
| "mapS f (x # xs) = bindS (f x) (\<lambda>y. bindS (mapS f xs) (\<lambda>ys. retS (y # ys)))"

lemma op_simps [simp, res_simps]:
  "retS a s = (Inr a, s)"
  "raiseS e s = (Inl e, s)"
  "liftS r s = (r, s)"
  "getS g s = (Inr (g s), s)"
  "putS u s = (Inr (), u s)"
  by (simp_all add: retS_def raiseS_def liftS_def getS_def putS_def)

lemma bindS_eq_Inr [simp]:
  "bindS m f s = (Inr b, t) \<longleftrightarrow> (\<exists>a s'. m s = (Inr a, s') \<and> f a s' = (Inr b, t))"
  by (auto simp: bindS_def split: prod.splits sum.splits)

lemma bindS_eq_Inl:
  "bindS m f s = (Inl e, t) \<longleftrightarrow>
     m s = (Inl e, t) \<or> (\<exists>a s'. m s = (Inr a, s') \<and> f a s' = (Inl e, t))"
  by (auto simp: bindS_def split: prod.splits sum.splits)

lemma bindS_cases:
  assumes "bindS m f p = (r, p')"
  obtains e where "m p = (Inl e, p')" "r = Inl e" | a q where "m p = (Inr a, q)" "f a q = (r, p')"
  using assms by (auto simp: bindS_def split: prod.splits sum.splits)

lemma bindS_pair [res_simps]:
  "m s = (Inr a, s') \<Longrightarrow> bindS m f s = f a s'"
  "m s = (Inl e, s') \<Longrightarrow> bindS m f s = (Inl e, s')"
  by (simp_all add: bindS_def)

lemma bindS_basic [simp, res_simps]:
  "bindS (retS a) f = f a"
  "bindS (raiseS e) f = raiseS e"
  "bindS (liftS (Inr a)) f = f a"
  "bindS (liftS (Inl e)) f = raiseS e"
  "bindS (getS g) f s = f (g s) s"
  by (simp_all add: bindS_def fun_eq_iff)

lemma bindS_putS [simp, res_simps]: "bindS (putS u) f s = f () (u s)"
  by (simp add: bindS_def)

lemma bindS_liftS: "bindS (liftS r) f s = (case r of Inl e \<Rightarrow> (Inl e, s) | Inr a \<Rightarrow> f a s)"
  by (simp add: bindS_def split: sum.splits)

lemma ifS_simps [simp, res_simps]:
  "ifS True m n = m"
  "ifS False m n = n"
  by (simp_all add: ifS_def)

lemma raiseS_if_simps [simp, res_simps]:
  "raiseS_if True e k = raiseS e"
  "raiseS_if False e k = k"
  by (simp_all add: raiseS_if_def)

lemma raiseS_if_eq_Inr [simp]: "raiseS_if b e k s = (Inr a, t) \<longleftrightarrow> \<not> b \<and> k s = (Inr a, t)"
  by (simp add: raiseS_if_def)

lemma raiseS_if_eq_Inl:
  "raiseS_if b e k s = (Inl x, t) \<longleftrightarrow> (b \<and> x = e \<and> t = s) \<or> (\<not> b \<and> k s = (Inl x, t))"
  by (auto simp: raiseS_if_def)

lemma transactionS_eq_Inr [simp]: "transactionS m s = (Inr a, t) \<longleftrightarrow> m s = (Inr a, t)"
  by (auto simp: transactionS_def split: prod.splits sum.splits)

lemma transactionS_error: "transactionS m s = (Inl e, t) \<Longrightarrow> t = s"
  by (auto simp: transactionS_def split: prod.splits sum.splits)

subsection \<open>Invariants of methods\<close>

text \<open>
  \<open>preserves I m\<close>: the method keeps the invariant whether it returns or raises.
\<close>

definition preserves :: "('s \<Rightarrow> bool) \<Rightarrow> ('s, 'a) op \<Rightarrow> bool" where
  "preserves I m = (\<forall>s. I s \<longrightarrow> I (snd (m s)))"

named_theorems preserves_intros \<open>rules that build invariants along a method body\<close>

lemma preservesI: "(\<And>s. I s \<Longrightarrow> I (snd (m s))) \<Longrightarrow> preserves I m"
  by (simp add: preserves_def)

lemma preservesD: "preserves I m \<Longrightarrow> I s \<Longrightarrow> I (snd (m s))"
  by (simp add: preserves_def)

lemma preservesE: "preserves I m \<Longrightarrow> m s = (r, t) \<Longrightarrow> I s \<Longrightarrow> I t"
  by (metis preservesD snd_conv)

lemma preserves_basic [preserves_intros]:
  "preserves I (retS a)"
  "preserves I (raiseS e)"
  "preserves I (liftS r)"
  "preserves I (getS g)"
  by (simp_all add: preserves_def)

lemma preserves_bindS [preserves_intros]:
  "preserves I m \<Longrightarrow> (\<And>a. preserves I (f a)) \<Longrightarrow> preserves I (bindS m f)"
proof (rule preservesI)
  fix s assume m: "preserves I m" and f: "\<And>a. preserves I (f a)" and "I s"
  then have "I (snd (m s))" by (simp add: preserves_def)
  with f show "I (snd (bindS m f s))"
    by (auto simp: bindS_def preserves_def split: prod.splits sum.splits)
qed

lemma preserves_ifS [preserves_intros]:
  "(b \<Longrightarrow> preserves I m) \<Longrightarrow> (\<not> b \<Longrightarrow> preserves I n) \<Longrightarrow> preserves I (ifS b m n)"
  by (simp add: ifS_def)

lemma preserves_if [preserves_intros]:
  "(b \<Longrightarrow> preserves I m) \<Longrightarrow> (\<not> b \<Longrightarrow> preserves I n) \<Longrightarrow> preserves I (if b then m else n)"
  by simp

lemma preserves_raiseS_if [preserves_intros]:
  "(\<not> b \<Longrightarrow> preserves I k) \<Longrightarrow> preserves I (raiseS_if b e k)"
  by (simp add: raiseS_if_def preserves_def)

lemma preserves_tryS [preserves_intros]:
  "preserves I m \<Longrightarrow> (\<And>e. preserves I (h e)) \<Longrightarrow> preserves I (tryS p m h)"
  unfolding preserves_def tryS_def
  by (fastforce split: prod.splits sum.splits)

lemma preserves_transactionS [preserves_intros]:
  "preserves I m \<Longrightarrow> preserves I (transactionS m)"
  unfolding preserves_def transactionS_def
  by (fastforce split: prod.splits sum.splits)

lemma preserves_option [preserves_intros]:
  "(x = None \<Longrightarrow> preserves I m) \<Longrightarrow> (\<And>a. x = Some a \<Longrightarrow> preserves I (f a)) \<Longrightarrow>
   preserves I (case x of None \<Rightarrow> m | Some a \<Rightarrow> f a)"
  by (cases x) simp_all

lemma preserves_sum [preserves_intros]:
  "(\<And>e. x = Inl e \<Longrightarrow> preserves I (m e)) \<Longrightarrow> (\<And>a. x = Inr a \<Longrightarrow> preserves I (f a)) \<Longrightarrow>
   preserves I (case x of Inl e \<Rightarrow> m e | Inr a \<Rightarrow> f a)"
  by (cases x) simp_all

lemma preserves_prod [preserves_intros]:
  "(\<And>a b. preserves I (f a b)) \<Longrightarrow> preserves I (case p of (a, b) \<Rightarrow> f a b)"
  by (cases p) simp

lemma preserves_mapS [preserves_intros]:
  "(\<And>x. preserves I (f x)) \<Longrightarrow> preserves I (mapS f xs)"
  by (induction xs) (auto intro!: preserves_intros)

section \<open>Decimal numerals\<close>

definition digit_char :: "nat \<Rightarrow> char" where
  "digit_char d = char_of (48 + d)"

definition digit_value :: "char \<Rightarrow> nat" where
  "digit_value c = of_char c - 48"

definition is_ascii_digit :: "char \<Rightarrow> bool" where
  "is_ascii_digit c = (48 \<le> (of_char c :: nat) \<and> (of_char c :: nat) \<le> 57)"

fun dec_digits :: "nat \<Rightarrow> string" where
  "dec_digits n = (if n < 10 then [digit_char n] else dec_digits (n div 10) @ [digit_char (n mod 10)])"

declare dec_digits.simps [simp del]

definition dec_value :: "string \<Rightarrow> nat" where
  "dec_value s = foldl (\<lambda>a c. 10 * a + digit_value c) 0 s"

text \<open>\<open>str(i)\<close> of an integer.\<close>

definition str_int :: "int \<Rightarrow> string" where
  "str_int i = (if i < 0 then CHR ''-'' # dec_digits (nat (- i)) else dec_digits (nat i))"

lemma of_digit_char: "d < 10 \<Longrightarrow> (of_char (digit_char d) :: nat) = 48 + d"
  by (simp add: digit_char_def)

lemma digit_value_char [simp]: "d < 10 \<Longrightarrow> digit_value (digit_char d) = d"
  by (simp add: digit_value_def of_digit_char)

lemma is_ascii_digit_char [simp]: "d < 10 \<Longrightarrow> is_ascii_digit (digit_char d)"
  by (simp add: is_ascii_digit_def of_digit_char)

lemma dec_digits_nonempty [simp]: "dec_digits n \<noteq> []"
  by (subst dec_digits.simps) simp

lemma dec_digits_digits: "\<forall>c \<in> set (dec_digits n). is_ascii_digit c"
proof (induction n rule: dec_digits.induct)
  case (1 n)
  then show ?case by (subst dec_digits.simps) auto
qed

lemma dec_value_snoc: "dec_value (s @ [c]) = 10 * dec_value s + digit_value c"
  by (simp add: dec_value_def)

lemma dec_value_digits [simp]: "dec_value (dec_digits n) = n"
proof (induction n rule: dec_digits.induct)
  case (1 n)
  then show ?case
    by (subst dec_digits.simps) (auto simp: dec_value_snoc, simp add: dec_value_def)
qed

lemma dec_digits_inj [simp]: "dec_digits m = dec_digits n \<longleftrightarrow> m = n"
  by (metis dec_value_digits)

lemma not_digit [simp]:
  "\<not> is_ascii_digit CHR ''-''" "\<not> is_ascii_digit CHR ''|''" "\<not> is_ascii_digit CHR '':''"
  by (simp_all add: is_ascii_digit_def)

lemma dec_digits_hd: "is_ascii_digit (hd (dec_digits n))"
  using dec_digits_digits [of n] dec_digits_nonempty [of n] hd_in_set by blast

lemma str_int_inj [simp]: "str_int i = str_int j \<longleftrightarrow> i = j"
proof -
  have no: "dec_digits n \<noteq> CHR ''-'' # xs" for n xs
    using dec_digits_hd [of n] by (metis list.sel(1) not_digit(1))
  show ?thesis
    using no no [symmetric] by (auto simp: str_int_def)
qed

section \<open>Splitting at a separator\<close>

text \<open>
  If neither first part contains the separator, equal joins have equal parts:
  the reason why separated payloads are unambiguous.
\<close>

lemma append_sep_inj:
  assumes "c \<notin> set xs" "c \<notin> set xs'" "xs @ c # ys = xs' @ c # ys'"
  shows "xs = xs' \<and> ys = ys'"
  using assms
proof (induction xs arbitrary: xs')
  case Nil
  then show ?case by (cases xs') auto
next
  case (Cons x xs)
  then show ?case by (cases xs') auto
qed

lemma str_int_no_bar: "CHR ''|'' \<notin> set (str_int i)"
  using dec_digits_digits [of "nat i"] dec_digits_digits [of "nat (- i)"]
  by (auto simp: str_int_def split: if_splits)

end
