(* ===== verification/Py_Text.thy ===== *)
theory Py_Text
  imports Prelude
begin

text \<open>
  The operations on \<open>str\<close> and \<open>bytes\<close> that the code uses, on Latin-1 text: the
  Unicode categories and the classification methods are Python's tables
  restricted to code points below 256; \<open>encode()\<close> is UTF-8.
\<close>

definition code :: "char \<Rightarrow> nat" where
  "code c = of_char c"

lemma code_less [simp]: "code c < 256"
  by (simp add: code_def)

lemma code_inj [simp]: "code c = code d \<longleftrightarrow> c = d"
  by (simp add: code_def)

lemma char_of_code [simp]: "char_of (code c) = c"
  by (simp add: code_def)

lemma code_char_of [simp]: "code (char_of n) = n mod 256"
  by (simp add: code_def)

section \<open>Character classes\<close>

definition swept_category :: "char \<Rightarrow> bool" where
  "swept_category c = (code c < 32 \<or> (127 \<le> code c \<and> code c < 160) \<or> code c = 173)"

definition is_space :: "char \<Rightarrow> bool" where
  "is_space c = ((9 \<le> code c \<and> code c \<le> 13) \<or> (28 \<le> code c \<and> code c \<le> 32)
                 \<or> code c = 133 \<or> code c = 160)"

definition is_lower :: "char \<Rightarrow> bool" where
  "is_lower c = ((97 \<le> code c \<and> code c \<le> 122) \<or> code c = 170 \<or> code c = 181 \<or> code c = 186
                 \<or> (223 \<le> code c \<and> code c \<noteq> 247))"

text \<open>\<open>str.isdigit\<close> also accepts the superscripts two, three and one; \<open>int\<close> does not.\<close>

definition is_digit :: "char \<Rightarrow> bool" where
  "is_digit c = ((48 \<le> code c \<and> code c \<le> 57) \<or> code c = 178 \<or> code c = 179 \<or> code c = 185)"

definition str_isdigit :: "string \<Rightarrow> bool" where
  "str_isdigit s = (s \<noteq> [] \<and> list_all is_digit s)"

definition is_lower_hex :: "char \<Rightarrow> bool" where
  "is_lower_hex c = (c \<in> set ''0123456789abcdef'')"

definition lower_hex :: "nat \<Rightarrow> string \<Rightarrow> bool" where
  "lower_hex n s = (length s = n \<and> list_all is_lower_hex s)"

definition lstrip :: "string \<Rightarrow> string" where
  "lstrip s = dropWhile is_space s"

definition rstrip :: "string \<Rightarrow> string" where
  "rstrip s = rev (dropWhile is_space (rev s))"

definition strip :: "string \<Rightarrow> string" where
  "strip s = rstrip (lstrip s)"

fun split_on :: "char \<Rightarrow> string \<Rightarrow> string list" where
  "split_on d [] = [[]]"
| "split_on d (c # cs) = (if c = d then [] # split_on d cs
     else (case split_on d cs of [] \<Rightarrow> [[c]] | p # ps \<Rightarrow> (c # p) # ps))"

text \<open>
  \<open>int(s)\<close> of a text of decimal digits with an optional sign, surrounding blanks
  stripped and single underscores between the digits.
\<close>

definition int_of_text :: "string \<Rightarrow> int result" where
  "int_of_text s = (let t = strip s;
      neg = (t \<noteq> [] \<and> hd t = CHR ''-'');
      body = (if t \<noteq> [] \<and> (hd t = CHR ''-'' \<or> hd t = CHR ''+'') then tl t else t)
    in if list_all (\<lambda>p. p \<noteq> [] \<and> list_all is_ascii_digit p) (split_on CHR ''_'' body)
          \<and> length (filter is_ascii_digit body) \<le> 4300
       then (let n = int (dec_value (filter is_ascii_digit body)) in Inr (if neg then - n else n))
       else Inl (ValueError ''invalid literal for int()''))"

section \<open>Prefixes, suffixes and parts\<close>

definition starts_with :: "string \<Rightarrow> string \<Rightarrow> bool" where
  "starts_with p s = (take (length p) s = p)"

definition ends_with :: "string \<Rightarrow> string \<Rightarrow> bool" where
  "ends_with p s = (length p \<le> length s \<and> drop (length s - length p) s = p)"

definition remove_prefix :: "string \<Rightarrow> string \<Rightarrow> string" where
  "remove_prefix p s = (if starts_with p s then drop (length p) s else s)"

fun contains :: "string \<Rightarrow> string \<Rightarrow> bool" where
  "contains p [] = (p = [])"
| "contains p (c # cs) = (starts_with p (c # cs) \<or> contains p cs)"

fun join :: "string \<Rightarrow> string list \<Rightarrow> string" where
  "join sep [] = []"
| "join sep [x] = x"
| "join sep (x # y # ys) = x @ sep @ join sep (y # ys)"

definition upper_ascii :: "char \<Rightarrow> char" where
  "upper_ascii c = (if 97 \<le> code c \<and> code c \<le> 122 then char_of (code c - 32) else c)"

definition lower_ascii :: "char \<Rightarrow> char" where
  "lower_ascii c = (if 65 \<le> code c \<and> code c \<le> 90 then char_of (code c + 32) else c)"

section \<open>UTF-8\<close>

definition utf8_char :: "char \<Rightarrow> bytes" where
  "utf8_char c = (if code c < 128 then [c]
     else [char_of (192 + code c div 64), char_of (128 + code c mod 64)])"

definition utf8 :: "string \<Rightarrow> bytes" where
  "utf8 s = concat (map utf8_char s)"

text \<open>Decoding: what \<open>bytes.decode()\<close> returns when the text is in Latin-1.\<close>

fun utf8_decode :: "bytes \<Rightarrow> string option" where
  "utf8_decode [] = Some []"
| "utf8_decode (c # cs) =
     (if code c < 128 then map_option (Cons c) (utf8_decode cs)
      else (case cs of [] \<Rightarrow> None
        | d # ds \<Rightarrow> if (code c = 194 \<or> code c = 195) \<and> 128 \<le> code d \<and> code d < 192
             then map_option (Cons (char_of ((code c - 192) * 64 + (code d - 128)))) (utf8_decode ds)
             else None))"

definition is_ascii :: "string \<Rightarrow> bool" where
  "is_ascii s = list_all (\<lambda>c. code c < 128) s"

section \<open>Lemmas\<close>

lemma starts_with_iff: "starts_with p s \<longleftrightarrow> (\<exists>t. s = p @ t)"
  unfolding starts_with_def by (metis append_eq_conv_conj append_take_drop_id)

lemma starts_with_append [simp]: "starts_with p (p @ t)"
  by (simp add: starts_with_def)

lemma remove_prefix_append [simp]: "remove_prefix p (p @ t) = t"
  by (simp add: remove_prefix_def)

lemma length_strip: "length (strip s) \<le> length s"
  using length_dropWhile_le [of is_space s]
    length_dropWhile_le [of is_space "rev (dropWhile is_space s)"]
  by (simp add: strip_def lstrip_def rstrip_def)

lemma set_strip: "set (strip s) \<subseteq> set s"
proof
  fix x assume "x \<in> set (strip s)"
  then have "x \<in> set (rev (dropWhile is_space s))"
    unfolding strip_def lstrip_def rstrip_def set_rev by (metis set_dropWhileD set_rev)
  then show "x \<in> set s" by (simp add: set_dropWhileD)
qed

lemma rstrip_Nil_iff: "rstrip s = [] \<longleftrightarrow> list_all is_space s"
  by (auto simp: rstrip_def dropWhile_eq_Nil_conv list_all_iff)

lemma hd_rstrip: "rstrip s \<noteq> [] \<Longrightarrow> hd (rstrip s) = hd s"
proof (induction s)
  case (Cons c s)
  show ?case
  proof (cases "rstrip s = []")
    case True
    then show ?thesis using Cons.prems
      by (auto simp: rstrip_def dropWhile_append dropWhile_eq_Nil_conv)
  next
    case False
    then show ?thesis by (auto simp: rstrip_def dropWhile_append dropWhile_eq_Nil_conv)
  qed
qed (simp add: rstrip_def)

lemma strip_edges:
  assumes "strip s \<noteq> []"
  shows "\<not> is_space (hd (strip s))" "\<not> is_space (last (strip s))"
proof -
  have l: "lstrip s \<noteq> []" using assms by (auto simp: strip_def rstrip_def)
  then show "\<not> is_space (hd (strip s))"
    using assms hd_dropWhile [of is_space s] by (simp add: strip_def hd_rstrip) (simp add: lstrip_def)
  show "\<not> is_space (last (strip s))"
    using assms hd_dropWhile [of is_space "rev (lstrip s)"]
    by (simp add: strip_def rstrip_def last_rev)
qed

lemma strip_id:
  assumes "s \<noteq> []" "\<not> is_space (hd s)" "\<not> is_space (last s)"
  shows "strip s = s"
proof -
  have "lstrip s = s" using assms by (cases s) (auto simp: lstrip_def)
  moreover have "rstrip s = s" using assms by (cases s rule: rev_cases) (auto simp: rstrip_def)
  ultimately show ?thesis by (simp add: strip_def)
qed

lemma strip_idem [simp]: "strip (strip s) = strip s"
proof (cases "strip s = []")
  case True
  then show ?thesis unfolding True by (simp add: strip_def lstrip_def rstrip_def)
next
  case False
  then show ?thesis using strip_edges [OF False] by (simp add: strip_id)
qed

lemma utf8_simps:
  "utf8 [] = []"
  "utf8 (c # s) = utf8_char c @ utf8 s"
  "utf8 (s @ t) = utf8 s @ utf8 t"
  by (simp_all add: utf8_def)

lemma code_bounds: "code c div 64 < 4" "code c mod 64 < 64"
  using code_less [of c] by (simp_all add: less_mult_imp_div_less)

lemma utf8_decode_utf8 [simp]: "utf8_decode (utf8 s) = Some s"
proof (induction s)
  case (Cons c s)
  show ?case
  proof (cases "code c < 128")
    case True
    then show ?thesis using Cons by (simp add: utf8_char_def utf8_simps)
  next
    case False
    have "code c div 64 = 2 \<or> code c div 64 = 3"
      using False code_less [of c] by linarith
    moreover have "(code c div 64) * 64 + code c mod 64 = code c" by simp
    ultimately show ?thesis using False Cons code_bounds [of c]
      by (auto simp: utf8_char_def utf8_simps)
  qed
qed (simp add: utf8_simps)

lemma utf8_inj [simp]: "utf8 s = utf8 t \<longleftrightarrow> s = t"
  by (metis option.inject utf8_decode_utf8)

lemma utf8_ascii: "is_ascii s \<Longrightarrow> utf8 s = s"
  by (induction s) (auto simp: is_ascii_def utf8_char_def utf8_simps)

lemma split_on_nonempty [simp]: "split_on d s \<noteq> []"
  by (induction s) (auto split: list.splits)

lemma join_split_on: "join [d] (split_on d s) = s"
proof (induction s)
  case (Cons c s)
  then show ?case
  proof (cases "split_on d s")
    case (Cons p ps)
    then show ?thesis using Cons.IH \<open>join [d] (split_on d s) = s\<close> by (cases ps) auto
  qed simp
qed simp

lemma split_on_no_sep: "p \<in> set (split_on d s) \<Longrightarrow> d \<notin> set p"
proof (induction s arbitrary: p)
  case (Cons c s)
  then show ?case by (cases "split_on d s") (auto split: if_splits)
qed simp

lemma lower_hex_code: "is_lower_hex c \<Longrightarrow> code c < 128"
  unfolding is_lower_hex_def by (simp only: list.set insert_iff empty_iff) (elim disjE; simp add: code_def)

lemma lower_hex_ascii: "lower_hex n s \<Longrightarrow> is_ascii s"
  using lower_hex_code by (auto simp: lower_hex_def is_ascii_def list_all_iff)

end
