(* ===== verification/Py_Time.thy ===== *)
theory Py_Time
  imports Py_Text
begin

text \<open>
  \<open>datetime\<close> values: the wall clock in microseconds since 0001-01-01T00:00 and
  the UTC offset in microseconds, \<open>None\<close> for a naive value; the years 1 to 9999
  bound the wall clock, arithmetic outside them raises \<open>OverflowError\<close>.  The
  system time zone, which \<open>astimezone\<close> assumes for a naive value, is UTC.
  \<open>iso_text\<close> is \<open>isoformat()\<close>.  The last section shows that the texts which the
  state store compares in SQL are ordered like the instants they denote.
\<close>

datatype datetime = DT (wall: int) (utc_offset: "int option")

definition us_per_day :: int where "us_per_day = 86400000000"
definition us_per_hour :: int where "us_per_hour = 3600000000"
definition us_per_second :: int where "us_per_second = 1000000"
definition max_day :: int where "max_day = 3652059"
definition max_wall :: int where "max_wall = 315537897600000000"

definition in_range :: "int \<Rightarrow> bool" where
  "in_range w = (0 \<le> w \<and> w < max_wall)"

definition wf_datetime :: "datetime \<Rightarrow> bool" where
  "wf_datetime t = in_range (wall t)"

definition naive :: "datetime \<Rightarrow> bool" where
  "naive t = (utc_offset t = None)"

definition instant :: "datetime \<Rightarrow> int" where
  "instant t = wall t - (case utc_offset t of None \<Rightarrow> 0 | Some z \<Rightarrow> z)"

definition utc_at :: "int \<Rightarrow> datetime" where
  "utc_at w = DT w (Some 0)"

text \<open>\<open>t.astimezone(timezone.utc)\<close>\<close>

definition to_utc :: "datetime \<Rightarrow> datetime result" where
  "to_utc t = (if in_range (instant t) then Inr (utc_at (instant t))
     else Inl (OverflowError ''date value out of range''))"

text \<open>\<open>t + timedelta\<close> and \<open>t - timedelta\<close>, the delta in microseconds.\<close>

definition shift :: "datetime \<Rightarrow> int \<Rightarrow> datetime result" where
  "shift t d = (if in_range (wall t + d) then Inr (DT (wall t + d) (utc_offset t))
     else Inl (OverflowError ''date value out of range''))"

text \<open>\<open>s <= t\<close>: comparing a naive with an aware value raises \<open>TypeError\<close>.\<close>

definition dt_le :: "datetime \<Rightarrow> datetime \<Rightarrow> bool result" where
  "dt_le s t = (if naive s \<noteq> naive t
     then Inl (TypeError ''can't compare offset-naive and offset-aware datetimes'')
     else Inr (instant s \<le> instant t))"

definition day_start :: "datetime \<Rightarrow> datetime" where
  "day_start t = DT (wall t - wall t mod us_per_day) (utc_offset t)"

section \<open>The proleptic Gregorian calendar\<close>

text \<open>Days before the year \<open>y + 1\<close>; a year is counted from 0 here.\<close>

definition days_before :: "nat \<Rightarrow> nat" where
  "days_before p = 365 * p + p div 4 - p div 100 + p div 400"

definition leap_year :: "nat \<Rightarrow> bool" where
  "leap_year y = (4 dvd y \<and> (\<not> 100 dvd y \<or> 400 dvd y))"

lemma century_le: "p div 100 \<le> p div (4::nat)"
  by (rule div_le_mono2) auto

lemma days_before_Suc_eq:
  "int (days_before (Suc p)) = int (days_before p) + 365
     + (if 4 dvd Suc p then 1 else 0) - (if 100 dvd Suc p then 1 else 0) + (if 400 dvd Suc p then 1 else 0)"
  using century_le [of p] century_le [of "Suc p"]
  by (auto simp: days_before_def of_nat_diff div_Suc mod_eq_0_iff_dvd)

lemma dvd_100_4: "100 dvd (n::nat) \<Longrightarrow> 4 dvd n"
  by (rule dvd_trans [of 4 100]) simp_all

lemma dvd_400_100: "400 dvd (n::nat) \<Longrightarrow> 100 dvd n"
  by (rule dvd_trans [of 100 400]) simp_all

lemma days_before_Suc: "days_before p + 365 \<le> days_before (Suc p)"
proof -
  have "int (days_before p) + 365 \<le> int (days_before (Suc p))"
    unfolding days_before_Suc_eq using dvd_100_4 [of "Suc p"] by simp
  then show ?thesis by linarith
qed

lemma days_before_mono: "p \<le> q \<Longrightarrow> days_before p \<le> days_before q"
proof (induction q rule: dec_induct)
  case (step n)
  then show ?case using days_before_Suc [of n] by linarith
qed simp

lemma days_before_ge: "365 * p \<le> days_before p"
proof (induction p)
  case (Suc p)
  then show ?case using days_before_Suc [of p] by simp
qed simp

function year_from :: "nat \<Rightarrow> nat \<Rightarrow> nat" where
  "year_from p d = (if d < days_before (Suc p) then p else year_from (Suc p) d)"
  by pat_completeness auto
termination
proof (relation "measure (\<lambda>(p, d). Suc d - p)")
  fix p d assume "\<not> d < days_before (Suc p)"
  then have "p < d" using days_before_ge [of "Suc p"] by simp
  then show "((Suc p, d), (p, d)) \<in> measure (\<lambda>(p, d). Suc d - p)" by auto
qed simp

declare year_from.simps [simp del]

lemma year_from_bounds:
  "days_before p \<le> d \<Longrightarrow>
   days_before (year_from p d) \<le> d \<and> d < days_before (Suc (year_from p d))"
proof (induction p d rule: year_from.induct)
  case (1 p d)
  then show ?case by (cases "d < days_before (Suc p)") (auto simp: year_from.simps [of p d])
qed

text \<open>The month (from 1) and the day (from 1) of the \<open>r\<close>-th day of a year.\<close>

definition month_lengths :: "nat \<Rightarrow> nat list" where
  "month_lengths y = [31, if leap_year y then 29 else 28, 31, 30, 31, 30, 31, 31, 30, 31, 30, 31]"

fun month_day :: "nat list \<Rightarrow> nat \<Rightarrow> nat \<Rightarrow> nat \<times> nat" where
  "month_day [] m r = (m, Suc r)"
| "month_day (l # ls) m r = (if r < l then (m, Suc r) else month_day ls (Suc m) (r - l))"

definition ymd :: "nat \<Rightarrow> nat \<times> nat \<times> nat" where
  "ymd d = (let p = year_from (d div 366) d in
     (Suc p, month_day (month_lengths (Suc p)) 1 (d - days_before p)))"

definition days_of_ymd :: "nat \<Rightarrow> nat \<Rightarrow> nat \<Rightarrow> nat" where
  "days_of_ymd y m d = days_before (y - 1) + sum_list (take (m - 1) (month_lengths y)) + (d - 1)"

section \<open>\<open>isoformat\<close>\<close>

fun pad :: "nat \<Rightarrow> nat \<Rightarrow> string" where
  "pad 0 n = []"
| "pad (Suc k) n = pad k (n div 10) @ [digit_char (n mod 10)]"

definition date_text :: "nat \<Rightarrow> string" where
  "date_text d = (case ymd d of (y, m, dd) \<Rightarrow> pad 4 y @ ''-'' @ pad 2 m @ ''-'' @ pad 2 dd)"

definition month_text :: "nat \<Rightarrow> string" where
  "month_text d = (case ymd d of (y, m, dd) \<Rightarrow> pad 4 y @ ''-'' @ pad 2 m)"

definition clock_text :: "nat \<Rightarrow> string" where
  "clock_text s = pad 2 (s div 3600) @ '':'' @ pad 2 (s div 60 mod 60) @ '':'' @ pad 2 (s mod 60)"

definition fraction_text :: "nat \<Rightarrow> string" where
  "fraction_text u = (if u = 0 then [] else ''.'' @ pad 6 u)"

definition offset_text :: "int option \<Rightarrow> string" where
  "offset_text z = (case z of None \<Rightarrow> []
     | Some z' \<Rightarrow> (let s = nat (\<bar>z'\<bar> div us_per_second) in
         (if z' < 0 then ''-'' else ''+'') @ pad 2 (s div 3600) @ '':'' @ pad 2 (s div 60 mod 60)
         @ (if s mod 60 = 0 then [] else '':'' @ pad 2 (s mod 60))))"

definition day_no :: "datetime \<Rightarrow> nat" where
  "day_no t = nat (wall t div us_per_day)"

definition second_no :: "datetime \<Rightarrow> nat" where
  "second_no t = nat (wall t mod us_per_day div us_per_second)"

definition micro_no :: "datetime \<Rightarrow> nat" where
  "micro_no t = nat (wall t mod us_per_second)"

definition iso_text :: "datetime \<Rightarrow> string" where
  "iso_text t = date_text (day_no t) @ ''T'' @ clock_text (second_no t)
     @ fraction_text (micro_no t) @ offset_text (utc_offset t)"

text \<open>\<open>isoformat(timespec="seconds")\<close> of a UTC value with the offset written \<open>Z\<close>\<close>

definition iso_seconds_z :: "datetime \<Rightarrow> string" where
  "iso_seconds_z t = date_text (day_no t) @ ''T'' @ clock_text (second_no t) @ ''Z''"

definition utc_iso :: "datetime \<Rightarrow> string result" where
  "utc_iso t = bindE (to_utc t) (\<lambda>u. Inr (iso_text u))"

definition utc_day :: "datetime \<Rightarrow> string result" where
  "utc_day t = bindE (to_utc t) (\<lambda>u. Inr (date_text (day_no u)))"

section \<open>Text order is time order\<close>

lemma append_less_cancel [simp]: "(p @ xs :: string) < p @ ys \<longleftrightarrow> xs < ys"
  by (induction p) auto

lemma less_append:
  "length (xs :: string) = length ys \<Longrightarrow> xs < ys \<Longrightarrow> xs @ zs < ys @ ws"
proof (induction xs ys rule: list_induct2)
  case (Cons x xs y ys)
  then show ?case by (auto simp: Cons_less_Cons)
qed simp

lemma length_pad [simp]: "length (pad k n) = k"
  by (induction k arbitrary: n) auto

lemma digit_char_less: "m < n \<Longrightarrow> n < 10 \<Longrightarrow> digit_char m < digit_char n"
  by (simp add: less_char_def of_digit_char)

lemma pad_less: "m < n \<Longrightarrow> n < 10 ^ k \<Longrightarrow> pad k m < pad k n"
proof (induction k arbitrary: m n)
  case (Suc k)
  show ?case
  proof (cases "m div 10 = n div 10")
    case True
    then have "m mod 10 < n mod 10"
      using Suc.prems(1) by (metis add_less_cancel_left mult_div_mod_eq)
    then show ?thesis using True by (simp add: Cons_less_Cons digit_char_less)
  next
    case False
    then have "m div 10 < n div 10" using Suc.prems(1) by (meson div_le_mono le_neq_implies_less less_imp_le)
    moreover have "n div 10 < 10 ^ k" using Suc.prems(2) by (simp add: less_mult_imp_div_less mult.commute)
    ultimately show ?thesis using Suc.IH by (auto intro: less_append)
  qed
qed simp

lemma month_day_less:
  "r < r' \<Longrightarrow> (case (month_day ls m r, month_day ls m r') of
     ((a, b), (a', b')) \<Rightarrow> a < a' \<or> (a = a' \<and> b < b'))"
proof (induction ls arbitrary: m r r')
  case (Cons l ls)
  have mono: "m \<le> fst (month_day ls m r)" for m r
    by (induction ls arbitrary: m r) (auto, meson Suc_leD)
  show ?case
  proof (cases "r' < l")
    case True
    then show ?thesis using Cons.prems by auto
  next
    case False
    then show ?thesis using Cons.IH [of "r - l" "r' - l" "Suc m"] Cons.prems mono [of "Suc m" "r' - l"]
      by (cases "r < l") (auto split: prod.splits)
  qed
qed simp

lemma year_from_div: "days_before (d div 366) \<le> d"
proof -
  have "days_before p \<le> 366 * p" for p
    using century_le [of p] times_div_less_eq_dividend [of 4 p] times_div_less_eq_dividend [of 400 p]
    unfolding days_before_def by linarith
  then show ?thesis by (meson order_trans times_div_less_eq_dividend)
qed

lemma year_le:
  assumes "d \<le> d'"
  shows "year_from (d div 366) d \<le> year_from (d' div 366) d'"
proof (rule ccontr)
  let ?y = "year_from (d div 366) d" and ?y' = "year_from (d' div 366) d'"
  assume "\<not> ?y \<le> ?y'"
  then have "days_before (Suc ?y') \<le> days_before ?y" by (intro days_before_mono) simp
  then show False
    using year_from_bounds [OF year_from_div, of d] year_from_bounds [OF year_from_div, of d'] assms
    by linarith
qed

lemma ymd_less:
  assumes "d < d'"
  shows "case (ymd d, ymd d') of ((y, m, dd), (y', m', dd')) \<Rightarrow>
    y < y' \<or> (y = y' \<and> (m < m' \<or> (m = m' \<and> dd < dd')))"
proof -
  let ?y = "year_from (d div 366) d" and ?y' = "year_from (d' div 366) d'"
  have y: "?y < ?y' \<or> ?y = ?y'" using year_le [of d d'] assms by auto
  have "d - days_before ?y < d' - days_before ?y" if "?y = ?y'"
    using that assms year_from_bounds [OF year_from_div, of d] by linarith
  then show ?thesis
    using y month_day_less [of "d - days_before ?y" "d' - days_before ?y'" "month_lengths (Suc ?y)" 1]
    by (auto simp: ymd_def Let_def split: prod.splits)
qed

lemma month_day_bounds:
  assumes "list_all (\<lambda>l. l \<le> 31) ls" "r < sum_list ls"
  shows "snd (month_day ls m r) \<le> 31 \<and> fst (month_day ls m r) < m + length ls
    \<and> 1 \<le> snd (month_day ls m r) \<and> m \<le> fst (month_day ls m r)"
  using assms
proof (induction ls arbitrary: m r)
  case (Cons l ls)
  show ?case
  proof (cases "r < l")
    case False
    then have "r - l < sum_list ls" using Cons.prems by auto
    then show ?thesis using Cons.IH [of "r - l" "Suc m"] Cons.prems False by auto
  qed (use Cons.prems in auto)
qed simp

lemma leap_count:
  "(b \<Longrightarrow> a) \<Longrightarrow> (c \<Longrightarrow> b) \<Longrightarrow> (if a \<and> (\<not> b \<or> c) then 1 else 0)
     = (if a then 1 else 0) - (if b then 1 else 0) + (if c then 1 else (0::int))"
  by (cases a; cases b; cases c) simp_all

lemma year_days: "days_before (Suc p) - days_before p = sum_list (month_lengths (Suc p))"
proof -
  have "int (sum_list (month_lengths y)) = 365 + (if leap_year y then 1 else 0)" for y
    by (simp add: month_lengths_def)
  moreover have "(if leap_year y then 1 else 0) = (if 4 dvd y then 1 else 0)
      - (if 100 dvd y then 1 else 0) + (if 400 dvd y then 1 else (0::int))" for y
    unfolding leap_year_def by (rule leap_count) (rule dvd_100_4, assumption, rule dvd_400_100)
  ultimately have "int (days_before (Suc p)) = int (days_before p) + int (sum_list (month_lengths (Suc p)))"
    unfolding days_before_Suc_eq by simp
  then show ?thesis by simp
qed

lemma ymd_bounds:
  assumes "ymd d = (y, m, dd)"
  shows "1 \<le> y" "1 \<le> m" "m \<le> 12" "1 \<le> dd" "dd \<le> 31"
proof -
  let ?y = "year_from (d div 366) d"
  have r: "d - days_before ?y < sum_list (month_lengths (Suc ?y))"
    unfolding year_days [symmetric] using year_from_bounds [OF year_from_div, of d] by linarith
  have "list_all (\<lambda>l. l \<le> 31) (month_lengths (Suc ?y))" by (simp add: month_lengths_def)
  from month_day_bounds [OF this r, of 1] assms
  show "1 \<le> y" "1 \<le> m" "m \<le> 12" "1 \<le> dd" "dd \<le> 31"
    by (auto simp: ymd_def Let_def month_lengths_def)
qed

lemma ymd_year_bound: "d < 3652059 \<Longrightarrow> fst (ymd d) \<le> 9999"
proof (rule ccontr)
  assume "d < 3652059" and "\<not> fst (ymd d) \<le> 9999"
  then have "9999 \<le> year_from (d div 366) d" by (simp add: ymd_def Let_def)
  then have "days_before 9999 \<le> days_before (year_from (d div 366) d)" by (rule days_before_mono)
  also have "\<dots> \<le> d" using year_from_bounds [OF year_from_div] by blast
  finally show False using \<open>d < 3652059\<close> by (simp add: days_before_def)
qed

lemma length_date_text [simp]: "length (date_text d) = 10"
  by (simp add: date_text_def split: prod.splits)

lemma date_text_less:
  assumes "d < d'" "d' < 3652059"
  shows "date_text d < date_text d'"
proof -
  obtain y m dd where a: "ymd d = (y, m, dd)" by (metis prod_cases3)
  obtain y' m' dd' where b: "ymd d' = (y', m', dd')" by (metis prod_cases3)
  have "y < y' \<or> (y = y' \<and> (m < m' \<or> (m = m' \<and> dd < dd')))"
    using ymd_less [OF assms(1)] by (simp add: a b)
  moreover have "y' < 10 ^ 4" using ymd_year_bound [OF assms(2)] by (simp add: b)
  moreover have "m' < 10 ^ 2" "dd' < 10 ^ 2" using ymd_bounds [OF b] by auto
  ultimately have "pad 4 y < pad 4 y' \<or> (y = y' \<and> (pad 2 m < pad 2 m' \<or> (m = m' \<and> pad 2 dd < pad 2 dd')))"
    by (auto intro: pad_less)
  then show ?thesis
    by (elim disjE conjE) (simp_all add: date_text_def a b less_append del: pad.simps)
qed

lemma length_clock_text [simp]: "length (clock_text s) = 8"
  by (simp add: clock_text_def)

lemma div_mod_less:
  "m < n \<Longrightarrow> m div k < n div k \<or> (m div k = n div k \<and> m mod k < n mod (k::nat))"
  by (metis add_less_cancel_left div_le_mono le_neq_implies_less less_imp_le mult_div_mod_eq)

lemma clock_text_less:
  assumes "s < s'" "s' < 86400"
  shows "clock_text s < clock_text s'"
proof -
  let ?h = "s div 3600" and ?m = "s div 60 mod 60" and ?s = "s mod 60"
  let ?h' = "s' div 3600" and ?m' = "s' div 60 mod 60" and ?s' = "s' mod 60"
  have h: "n div 3600 = n div 60 div 60" for n :: nat by (simp add: div_mult2_eq [symmetric])
  have "?h < ?h' \<or> (?h = ?h' \<and> (?m < ?m' \<or> (?m = ?m' \<and> ?s < ?s')))"
    using div_mod_less [OF assms(1), of 60] div_mod_less [of "s div 60" "s' div 60" 60]
    unfolding h by auto
  moreover have "?h' < 10 ^ 2" using assms(2) by (simp add: less_mult_imp_div_less)
  moreover have "n mod 60 < 10 ^ 2" for n :: nat
    using mod_less_divisor [of 60 n] by simp
  then have "?m' < 10 ^ 2" "?s' < 10 ^ 2" by blast+
  ultimately have "pad 2 ?h < pad 2 ?h' \<or> (?h = ?h' \<and> (pad 2 ?m < pad 2 ?m' \<or>
      (?m = ?m' \<and> pad 2 ?s < pad 2 ?s')))"
    by (auto intro: pad_less)
  then show ?thesis
    by (elim disjE conjE) (simp_all add: clock_text_def less_append del: pad.simps)
qed

lemma fraction_text_less:
  assumes "u < u'" "u' < 1000000"
  shows "fraction_text u @ ''+00:00'' < fraction_text u' @ ''+00:00''"
proof -
  have "pad 6 u < pad 6 u'" using assms by (intro pad_less) auto
  then have "pad 6 u @ ''+00:00'' < pad 6 u' @ ''+00:00''" by (intro less_append) auto
  then show ?thesis using assms
    by (auto simp: fraction_text_def Cons_less_Cons less_char_def simp del: pad.simps)
qed

lemma offset_text_utc [simp]: "offset_text (Some 0) = ''+00:00''"
  by code_simp

lemma iso_text_less:
  assumes "in_range w" "in_range w'" "w < w'"
  shows "iso_text (utc_at w) < iso_text (utc_at w')"
proof -
  let ?d = "day_no (utc_at w)" and ?s = "second_no (utc_at w)" and ?u = "micro_no (utc_at w)"
  let ?d' = "day_no (utc_at w')" and ?s' = "second_no (utc_at w')" and ?u' = "micro_no (utc_at w')"
  have w: "0 \<le> w" "w' < 315537897600000000" "0 \<le> w'" using assms by (auto simp: in_range_def max_wall_def)
  have n: "day_no (utc_at v) = nat v div 86400000000"
      "second_no (utc_at v) = nat v mod 86400000000 div 1000000"
      "micro_no (utc_at v) = nat v mod 86400000000 mod 1000000" if "0 \<le> v" for v
    using that by (simp_all add: day_no_def second_no_def micro_no_def utc_at_def us_per_day_def
        us_per_second_def nat_div_distrib nat_mod_distrib mod_mod_cancel)
  have "nat w < nat w'" using assms(3) w by simp
  from div_mod_less [OF this, of 86400000000]
  have "?d < ?d' \<or> (?d = ?d' \<and> (?s < ?s' \<or> (?s = ?s' \<and> ?u < ?u')))"
    using w div_mod_less [of "nat w mod 86400000000" "nat w' mod 86400000000" 1000000]
    by (auto simp: n)
  moreover have "?d' < 3652059" "?s' < 86400" "?u' < 1000000"
    using w by (simp_all add: day_no_def second_no_def micro_no_def utc_at_def us_per_day_def
        us_per_second_def nat_less_iff)
  ultimately have "date_text ?d < date_text ?d' \<or> (?d = ?d' \<and> (clock_text ?s < clock_text ?s' \<or>
      (?s = ?s' \<and> fraction_text ?u @ ''+00:00'' < fraction_text ?u' @ ''+00:00'')))"
    by (auto intro: date_text_less clock_text_less fraction_text_less)
  then show ?thesis
    by (elim disjE conjE) (simp_all add: iso_text_def utc_at_def less_append del: pad.simps)
qed

lemma iso_text_le_iff:
  assumes "in_range w" "in_range w'"
  shows "iso_text (utc_at w) \<le> iso_text (utc_at w') \<longleftrightarrow> w \<le> w'"
  using iso_text_less [OF assms] iso_text_less [OF assms(2,1)]
  by (cases w w' rule: linorder_cases) auto

lemma iso_text_less_iff:
  assumes "in_range w" "in_range w'"
  shows "iso_text (utc_at w) < iso_text (utc_at w') \<longleftrightarrow> w < w'"
  using iso_text_less [OF assms] iso_text_less [OF assms(2,1)]
  by (cases w w' rule: linorder_cases) auto

lemma to_utc_Inr: "to_utc t = Inr u \<longleftrightarrow> in_range (instant t) \<and> u = utc_at (instant t)"
  by (auto simp: to_utc_def)

lemma utc_at_simps [simp]:
  "wall (utc_at w) = w" "utc_offset (utc_at w) = Some 0" "instant (utc_at w) = w" "\<not> naive (utc_at w)"
  by (simp_all add: utc_at_def instant_def naive_def)

definition day_floor :: "int \<Rightarrow> int" where
  "day_floor w = w - w mod us_per_day"

lemma shift_utc [simp]: "shift (utc_at w) d = Inr u \<longleftrightarrow> in_range (w + d) \<and> u = utc_at (w + d)"
  by (auto simp: shift_def utc_at_def)

lemma day_start_utc [simp]: "day_start (utc_at w) = utc_at (day_floor w)"
  by (simp add: day_start_def utc_at_def day_floor_def)

lemma day_floor_le: "day_floor w \<le> w"
  by (simp add: day_floor_def us_per_day_def)

lemma day_floor_range: "in_range w \<Longrightarrow> in_range (day_floor w)"
proof -
  assume w: "in_range w"
  have "day_floor w = w div us_per_day * us_per_day"
    unfolding day_floor_def by (rule minus_mod_eq_div_mult)
  moreover have "0 \<le> w div us_per_day" using w
    by (simp add: in_range_def us_per_day_def pos_imp_zdiv_nonneg_iff)
  ultimately have "0 \<le> day_floor w" by (simp add: us_per_day_def)
  then show "in_range (day_floor w)" using w day_floor_le [of w] by (simp add: in_range_def)
qed

section \<open>\<open>fromisoformat\<close>\<close>

text \<open>
  The texts that \<open>isoformat\<close> writes are read back; the other forms which
  \<open>fromisoformat\<close> accepts never reach the code's own state.
\<close>

definition digits_at :: "nat \<Rightarrow> nat \<Rightarrow> string \<Rightarrow> nat option" where
  "digits_at i n s = (let t = take n (drop i s) in
     if length t = n \<and> list_all is_ascii_digit t then Some (dec_value t) else None)"

definition chars_at :: "(nat \<times> char) list \<Rightarrow> string \<Rightarrow> bool" where
  "chars_at ps s = list_all (\<lambda>(i, c). i < length s \<and> s ! i = c) ps"

definition read_date :: "string \<Rightarrow> nat option" where
  "read_date s = (case (digits_at 0 4 s, digits_at 5 2 s, digits_at 8 2 s) of
     (Some y, Some m, Some d) \<Rightarrow>
       if chars_at [(4, CHR ''-''), (7, CHR ''-'')] s \<and> 1 \<le> y \<and> 1 \<le> m \<and> m \<le> 12 \<and> 1 \<le> d
          \<and> d \<le> month_lengths y ! (m - 1) then Some (days_of_ymd y m d) else None
     | _ \<Rightarrow> None)"

definition read_clock :: "string \<Rightarrow> nat option" where
  "read_clock s = (case (digits_at 0 2 s, digits_at 3 2 s, digits_at 6 2 s) of
     (Some h, Some m, Some c) \<Rightarrow>
       if chars_at [(2, CHR '':''), (5, CHR '':'')] s \<and> h < 24 \<and> m < 60 \<and> c < 60
       then Some (3600 * h + 60 * m + c) else None
     | _ \<Rightarrow> None)"

definition read_fraction :: "string \<Rightarrow> (nat \<times> string) option" where
  "read_fraction s = (if chars_at [(0, CHR ''.'')] s
     then map_option (\<lambda>u. (u, drop 7 s)) (digits_at 1 6 s) else Some (0, s))"

definition read_offset :: "string \<Rightarrow> int option option" where
  "read_offset s = (if s = [] then Some None
     else (case (digits_at 1 2 s, digits_at 4 2 s) of
       (Some h, Some m) \<Rightarrow>
         if length s = 6 \<and> chars_at [(3, CHR '':'')] s \<and> h < 24 \<and> m < 60 \<and> hd s \<in> {CHR ''+'', CHR ''-''}
         then Some (Some ((if hd s = CHR ''-'' then -1 else 1) * int (3600 * h + 60 * m) * us_per_second))
         else None
       | _ \<Rightarrow> None))"

definition from_iso :: "string \<Rightarrow> datetime option" where
  "from_iso s = (case (read_date s, read_clock (drop 11 s), read_fraction (drop 19 s)) of
     (Some d, Some c, Some (u, r)) \<Rightarrow>
       if chars_at [(10, CHR ''T'')] s then (case read_offset r of None \<Rightarrow> None
         | Some z \<Rightarrow> Some (DT (int d * us_per_day + int c * us_per_second + int u) z))
       else None
     | _ \<Rightarrow> None)"

lemma dec_value_pad: "n < 10 ^ k \<Longrightarrow> dec_value (pad k n) = n"
proof (induction k arbitrary: n)
  case (Suc k)
  have "n div 10 < 10 ^ k" using Suc.prems by (simp add: less_mult_imp_div_less mult.commute)
  then show ?case using Suc.IH by (simp add: dec_value_snoc)
qed (simp add: dec_value_def)

lemma pad_digits: "list_all is_ascii_digit (pad k n)"
  by (induction k arbitrary: n) auto

lemma digits_at_pad:
  "length p = i \<Longrightarrow> n < 10 ^ k \<Longrightarrow> digits_at i k (p @ pad k n @ r) = Some n"
  by (simp add: digits_at_def pad_digits dec_value_pad Let_def)

lemma days_of_month_day:
  "r < sum_list ls \<Longrightarrow> (case month_day ls m r of (m', d) \<Rightarrow>
     sum_list (take (m' - m) ls) + (d - 1) = r \<and> d \<le> ls ! (m' - m) \<and> m' - m < length ls \<and> m \<le> m')"
proof (induction ls arbitrary: m r)
  case (Cons l ls)
  show ?case
  proof (cases "r < l")
    case False
    then have "r - l < sum_list ls" using Cons.prems by simp
    note IH = Cons.IH [OF this, of "Suc m"]
    obtain m' d where md: "month_day ls (Suc m) (r - l) = (m', d)" by (cases "month_day ls (Suc m) (r - l)")
    have "Suc m \<le> m'" using IH by (simp add: md)
    then have "m' - m = Suc (m' - Suc m)" by simp
    then show ?thesis using IH False by (simp add: md) linarith
  qed auto
qed simp

lemma days_of_ymd_ymd:
  assumes "ymd d = (y, m, dd)"
  shows "days_of_ymd y m dd = d" "dd \<le> month_lengths y ! (m - 1)"
proof -
  let ?y = "year_from (d div 366) d"
  have r: "d - days_before ?y < sum_list (month_lengths (Suc ?y))"
    unfolding year_days [symmetric] using year_from_bounds [OF year_from_div, of d] by linarith
  have b: "days_before ?y \<le> d" using year_from_bounds [OF year_from_div, of d] by simp
  have y: "y = Suc ?y" and md: "month_day (month_lengths (Suc ?y)) 1 (d - days_before ?y) = (m, dd)"
    using assms by (auto simp: ymd_def Let_def)
  have eq: "sum_list (take (m - 1) (month_lengths y)) + (dd - 1) = d - days_before ?y"
    and "dd \<le> month_lengths y ! (m - 1)"
    using days_of_month_day [OF r, of 1] unfolding md y by simp_all
  then show "dd \<le> month_lengths y ! (m - 1)" by simp
  have "days_of_ymd y m dd = days_before ?y + (sum_list (take (m - 1) (month_lengths y)) + (dd - 1))"
    by (simp add: days_of_ymd_def y)
  then show "days_of_ymd y m dd = d" unfolding eq using b by simp
qed

lemma read_date_text:
  assumes "d < 3652059"
  shows "read_date (date_text d @ r) = Some d"
proof -
  obtain y m dd where y: "ymd d = (y, m, dd)" by (metis prod_cases3)
  have b: "1 \<le> y" "1 \<le> m" "m \<le> 12" "1 \<le> dd" "dd \<le> 31" "y \<le> 9999"
    using ymd_bounds [OF y] ymd_year_bound [OF assms] by (simp_all add: y)
  have t: "date_text d @ r = [] @ pad 4 y @ ''-'' @ pad 2 m @ ''-'' @ pad 2 dd @ r"
    "date_text d @ r = (pad 4 y @ ''-'') @ pad 2 m @ ''-'' @ pad 2 dd @ r"
    "date_text d @ r = (pad 4 y @ ''-'' @ pad 2 m @ ''-'') @ pad 2 dd @ r"
    by (simp_all add: date_text_def y)
  have "digits_at 0 4 (date_text d @ r) = Some y" unfolding t(1) using b by (intro digits_at_pad) auto
  moreover have "digits_at 5 2 (date_text d @ r) = Some m" unfolding t(2) using b by (intro digits_at_pad) auto
  moreover have "digits_at 8 2 (date_text d @ r) = Some dd" unfolding t(3) using b by (intro digits_at_pad) auto
  moreover have "chars_at [(4, CHR ''-''), (7, CHR ''-'')] (date_text d @ r)"
    unfolding t(1) by (simp add: chars_at_def nth_append del: pad.simps)
  ultimately show ?thesis using b days_of_ymd_ymd [OF y] by (simp add: read_date_def)
qed

lemma read_clock_text:
  assumes "s < 86400"
  shows "read_clock (clock_text s @ r) = Some s"
proof -
  let ?h = "s div 3600" and ?m = "s div 60 mod 60" and ?c = "s mod 60"
  have t: "clock_text s @ r = [] @ pad 2 ?h @ '':'' @ pad 2 ?m @ '':'' @ pad 2 ?c @ r"
    "clock_text s @ r = (pad 2 ?h @ '':'') @ pad 2 ?m @ '':'' @ pad 2 ?c @ r"
    "clock_text s @ r = (pad 2 ?h @ '':'' @ pad 2 ?m @ '':'') @ pad 2 ?c @ r"
    by (simp_all add: clock_text_def)
  have b: "?h < 24" "?m < 60" "?c < 60" using assms by (simp_all add: less_mult_imp_div_less)
  have "digits_at 0 2 (clock_text s @ r) = Some ?h" unfolding t(1) using b by (intro digits_at_pad) auto
  moreover have "digits_at 3 2 (clock_text s @ r) = Some ?m" unfolding t(2) using b by (intro digits_at_pad) auto
  moreover have "digits_at 6 2 (clock_text s @ r) = Some ?c" unfolding t(3) using b by (intro digits_at_pad) auto
  moreover have "chars_at [(2, CHR '':''), (5, CHR '':'')] (clock_text s @ r)"
    unfolding t(1) by (simp add: chars_at_def nth_append del: pad.simps)
  moreover have "3600 * ?h + 60 * ?m + ?c = s"
  proof -
    have "s div 3600 = s div 60 div 60" by (simp add: div_mult2_eq [symmetric])
    then show ?thesis using div_mult_mod_eq [of "s div 60" 60] div_mult_mod_eq [of s 60] by linarith
  qed
  ultimately show ?thesis using b by (simp add: read_clock_def)
qed

lemma read_fraction_text:
  assumes "u < 1000000" "r \<noteq> [] \<Longrightarrow> hd r \<noteq> CHR ''.''"
  shows "read_fraction (fraction_text u @ r) = Some (u, r)"
proof (cases "u = 0")
  case True
  then show ?thesis using assms(2) by (cases r) (auto simp: read_fraction_def fraction_text_def chars_at_def)
next
  case False
  then have t: "fraction_text u @ r = ''.'' @ pad 6 u @ r" by (simp add: fraction_text_def)
  have "digits_at 1 6 (''.'' @ pad 6 u @ r) = Some u" using assms(1) by (intro digits_at_pad) auto
  then show ?thesis unfolding t by (simp add: read_fraction_def chars_at_def del: pad.simps)
qed

lemma read_offset_utc: "read_offset ''+00:00'' = Some (Some 0)"
  by code_simp

lemma from_iso_text:
  assumes "in_range w"
  shows "from_iso (iso_text (utc_at w)) = Some (utc_at w)"
proof -
  let ?d = "day_no (utc_at w)" and ?s = "second_no (utc_at w)" and ?u = "micro_no (utc_at w)"
  have w: "0 \<le> w" "w < 315537897600000000" using assms by (auto simp: in_range_def max_wall_def)
  have b: "?d < 3652059" "?s < 86400" "?u < 1000000"
    using w by (simp_all add: day_no_def second_no_def micro_no_def us_per_day_def
        us_per_second_def nat_less_iff)
  have t: "iso_text (utc_at w) = date_text ?d @ ''T'' @ clock_text ?s @ fraction_text ?u @ ''+00:00''"
    by (simp add: iso_text_def)
  have "read_date (iso_text (utc_at w)) = Some ?d" unfolding t by (rule read_date_text [OF b(1)])
  moreover have "read_clock (drop 11 (iso_text (utc_at w))) = Some ?s"
    unfolding t using read_clock_text [OF b(2)] by simp
  moreover have "read_fraction (drop 19 (iso_text (utc_at w))) = Some (?u, ''+00:00'')"
    unfolding t using read_fraction_text [OF b(3), of "''+00:00''"] by simp
  moreover have "chars_at [(10, CHR ''T'')] (iso_text (utc_at w))"
    unfolding t by (simp add: chars_at_def nth_append)
  moreover have "int ?d * us_per_day + int ?s * us_per_second + int ?u = w"
  proof -
    have "w mod 86400000000 mod 1000000 = w mod 1000000" by (rule mod_mod_cancel) simp
    then have "w mod 86400000000 div 1000000 * 1000000 + w mod 1000000 = w mod 86400000000"
      by (metis div_mult_mod_eq)
    moreover have "0 \<le> w div 86400000000" "0 \<le> w mod 86400000000 div 1000000"
      using w by (simp_all add: pos_imp_zdiv_nonneg_iff)
    ultimately show ?thesis using w
      by (simp add: day_no_def second_no_def micro_no_def us_per_day_def us_per_second_def)
        (use div_mult_mod_eq [of w 86400000000] in linarith)
  qed
  ultimately show ?thesis by (simp add: from_iso_def read_offset_utc utc_at_def)
qed

section \<open>Properties\<close>

text \<open>
  The \<open>isoformat()\<close> texts of two UTC instants inside the years 1 to 9999 are ordered, as
  strings, exactly like the instants; so the text comparisons in SQL compare times, also when only
  one of the two texts has a fraction of a second.
\<close>

theorem iso_text_order:
  assumes "in_range v" "in_range w"
  shows "iso_text (utc_at v) \<le> iso_text (utc_at w) \<longleftrightarrow> v \<le> w"
  using assms by (rule iso_text_le_iff)

lemma iso_text_order_witness:
  "iso_text (utc_at 63900000000000000) \<le> iso_text (utc_at 63900000000000001) \<and>
   iso_text (utc_at 63900000000000001) = ''2025-11-29T08:00:00.000001+00:00''"
proof
  show "iso_text (utc_at 63900000000000000) \<le> iso_text (utc_at 63900000000000001)"
    using iso_text_order [of 63900000000000000 63900000000000001]
    by (simp add: in_range_def max_wall_def)
  show "iso_text (utc_at 63900000000000001) = ''2025-11-29T08:00:00.000001+00:00''"
    by code_simp
qed

end
