(* ===== verification/Json.thy ===== *)
theory Json
  imports Py_Time
begin

text \<open>
  Python values that the code serialises, \<open>json.dumps\<close> with \<open>sort_keys=True\<close>
  and the separators \<open>(",", ":")\<close>, and \<open>json.loads\<close>.  A \<open>PDict\<close> keeps its
  insertion order; \<open>PDictOther\<close> is a dict with a non-string key, holding the
  items before the first such key, and from it on every item under \<open>str(key)\<close>.
  A float is its literal text.  The last section proves that \<open>loads\<close> inverts \<open>dumps\<close> up to key order and to the rendering of
  dates and enums.
\<close>

datatype pyval =
    PNone
  | PBool bool
  | PInt int
  | PFloat string
  | PStr string
  | PList "pyval list"
  | PDict "(string \<times> pyval) list"
  | PDictOther "(string \<times> pyval) list" "(string \<times> pyval) list"
  | PDateTime datetime
  | PDate nat
  | PEnum pyval
  | POther string

definition dict_put :: "string \<Rightarrow> 'v \<Rightarrow> (string \<times> 'v) list \<Rightarrow> (string \<times> 'v) list" where
  "dict_put k v kvs = (if k \<in> fst ` set kvs
     then map (\<lambda>(k', v'). if k' = k then (k, v) else (k', v')) kvs
     else kvs @ [(k, v)])"

definition dict_of_pairs :: "(string \<times> 'v) list \<Rightarrow> (string \<times> 'v) list" where
  "dict_of_pairs kvs = foldl (\<lambda>d (k, v). dict_put k v d) [] kvs"

section \<open>Printing\<close>

definition hex_digit :: "nat \<Rightarrow> char" where
  "hex_digit n = (if n < 10 then char_of (48 + n) else char_of (87 + n))"

definition escape_u :: "nat \<Rightarrow> string" where
  "escape_u n = [CHR 0x5C, CHR ''u'', CHR ''0'', CHR ''0'', hex_digit (n div 16), hex_digit (n mod 16)]"

definition escape_char :: "bool \<Rightarrow> char \<Rightarrow> string" where
  "escape_char ensure_ascii c =
     (if c = CHR 0x22 then [CHR 0x5C, CHR 0x22]
      else if c = CHR 0x5C then [CHR 0x5C, CHR 0x5C]
      else if c = CHR 0x0A then [CHR 0x5C, CHR ''n'']
      else if c = CHR 0x0D then [CHR 0x5C, CHR ''r'']
      else if c = CHR 0x09 then [CHR 0x5C, CHR ''t'']
      else if c = CHR 0x0C then [CHR 0x5C, CHR ''f'']
      else if c = CHR 0x08 then [CHR 0x5C, CHR ''b'']
      else if code c < 32 \<or> (ensure_ascii \<and> 127 \<le> code c) then escape_u (code c)
      else [c])"

definition quote :: "bool \<Rightarrow> string \<Rightarrow> string" where
  "quote a s = [CHR 0x22] @ concat (map (escape_char a) s) @ [CHR 0x22]"

text \<open>Python refuses to convert integers of more than 4300 digits to or from text.\<close>

definition max_str_digits :: nat where "max_str_digits = 4300"

definition dumps_int :: "int \<Rightarrow> string result" where
  "dumps_int i = (if length (dec_digits (nat \<bar>i\<bar>)) \<le> max_str_digits then Inr (str_int i)
     else Inl (ValueError ''Exceeds the limit (4300 digits) for integer string conversion''))"

definition dumps_float :: "string \<Rightarrow> string result" where
  "dumps_float r = (if r \<in> {''nan'', ''inf'', ''-inf''}
     then Inl (ValueError ''Out of range float values are not JSON compliant'') else Inr r)"

definition join_list :: "string list result \<Rightarrow> string result" where
  "join_list r = bindE r (\<lambda>ts. Inr (''['' @ join '','' ts @ '']''))"

definition item_text :: "bool \<Rightarrow> string \<times> string result \<Rightarrow> string result" where
  "item_text a kr = bindE (snd kr) (\<lambda>t. Inr (quote a (fst kr) @ '':'' @ t))"

definition join_dict :: "bool \<Rightarrow> (string \<times> string result) list \<Rightarrow> string result" where
  "join_dict a items = bindE (mapE (item_text a) (sort_key fst items))
     (\<lambda>ts. Inr (''{'' @ join '','' ts @ ''}''))"

fun json_default_datetime :: "datetime \<Rightarrow> string result" where
  "json_default_datetime t =
     raise_if (naive t) (ValueError ''naive datetime is not canonical'')
       (bindE (to_utc t) (\<lambda>u. Inr (iso_seconds_z u)))"

fun dumps :: "bool \<Rightarrow> pyval \<Rightarrow> string result"
and dumps_list :: "bool \<Rightarrow> pyval list \<Rightarrow> string list result"
and dumps_items :: "bool \<Rightarrow> (string \<times> pyval) list \<Rightarrow> (string \<times> string result) list" where
  "dumps a PNone = Inr ''null''"
| "dumps a (PBool b) = Inr (if b then ''true'' else ''false'')"
| "dumps a (PInt i) = dumps_int i"
| "dumps a (PFloat r) = dumps_float r"
| "dumps a (PStr s) = Inr (quote a s)"
| "dumps a (PList vs) = join_list (dumps_list a vs)"
| "dumps a (PDict kvs) = join_dict a (dumps_items a kvs)"
| "dumps a (PDictOther kvs rest) = Inl (TypeError ''keys must be str'')"
| "dumps a (PDateTime t) = bindE (json_default_datetime t) (\<lambda>s. Inr (quote a s))"
| "dumps a (PDate d) = Inr (quote a (date_text d))"
| "dumps a (PEnum v) = dumps a v"
| "dumps a (POther n) = Inl (TypeError (''unsupported canonical JSON type: '' @ n))"
| "dumps_list a [] = Inr []"
| "dumps_list a (v # vs) = bindE (dumps a v) (\<lambda>t. bindE (dumps_list a vs) (\<lambda>ts. Inr (t # ts)))"
| "dumps_items a [] = []"
| "dumps_items a ((k, v) # kvs) = (k, dumps a v) # dumps_items a kvs"

section \<open>Parsing\<close>

definition is_ws :: "char \<Rightarrow> bool" where
  "is_ws c = (c \<in> {CHR '' '', CHR 0x09, CHR 0x0A, CHR 0x0D})"

definition skip_ws :: "string \<Rightarrow> string" where
  "skip_ws s = dropWhile is_ws s"

definition hex_value :: "char \<Rightarrow> nat option" where
  "hex_value c = (if is_ascii_digit c then Some (code c - 48)
     else if 97 \<le> code c \<and> code c \<le> 102 then Some (code c - 87)
     else if 65 \<le> code c \<and> code c \<le> 70 then Some (code c - 55) else None)"

definition hex_byte :: "char \<Rightarrow> char \<Rightarrow> char option" where
  "hex_byte a b = (case (hex_value a, hex_value b) of
     (Some x, Some y) \<Rightarrow> Some (char_of (16 * x + y)) | _ \<Rightarrow> None)"

definition simple_escape :: "char \<Rightarrow> char option" where
  "simple_escape e =
     (if e = CHR 0x22 \<or> e = CHR 0x5C \<or> e = CHR ''/'' then Some e
      else if e = CHR ''n'' then Some (CHR 0x0A) else if e = CHR ''r'' then Some (CHR 0x0D)
      else if e = CHR ''t'' then Some (CHR 0x09) else if e = CHR ''f'' then Some (CHR 0x0C)
      else if e = CHR ''b'' then Some (CHR 0x08) else None)"

definition cons_fst :: "char \<Rightarrow> (string \<times> string) option \<Rightarrow> (string \<times> string) option" where
  "cons_fst c r = map_option (\<lambda>(s, rest). (c # s, rest)) r"

text \<open>The characters after an opening quote, up to the closing one.\<close>

fun scan_string :: "string \<Rightarrow> (string \<times> string) option" where
  "scan_string [] = None"
| "scan_string (c # cs) =
     (if c = CHR 0x22 then Some ([], cs)
      else if c = CHR 0x5C then
        (case cs of [] \<Rightarrow> None
         | e # es \<Rightarrow>
           if e = CHR ''u'' then
             (case es of z1 # z2 # a # b # ds \<Rightarrow>
                if z1 = CHR ''0'' \<and> z2 = CHR ''0'' then
                  (case hex_byte a b of None \<Rightarrow> None | Some x \<Rightarrow> cons_fst x (scan_string ds))
                else None
              | _ \<Rightarrow> None)
           else (case simple_escape e of None \<Rightarrow> None | Some x \<Rightarrow> cons_fst x (scan_string es)))
      else if code c < 32 then None
      else cons_fst c (scan_string cs))"

definition span_digits :: "string \<Rightarrow> string \<times> string" where
  "span_digits s = (takeWhile is_ascii_digit s, dropWhile is_ascii_digit s)"

definition scan_fraction :: "string \<Rightarrow> string \<times> string" where
  "scan_fraction s = (case s of c # cs \<Rightarrow>
       (if c = CHR ''.'' \<and> fst (span_digits cs) \<noteq> [] then (c # fst (span_digits cs), snd (span_digits cs))
        else ([], s))
     | [] \<Rightarrow> ([], s))"

definition scan_exponent :: "string \<Rightarrow> string \<times> string" where
  "scan_exponent s = (case s of c # cs \<Rightarrow>
       (let sign = (case cs of d # _ \<Rightarrow> if d = CHR ''-'' \<or> d = CHR ''+'' then [d] else [] | [] \<Rightarrow> []);
            ds = drop (length sign) cs in
        if (c = CHR ''e'' \<or> c = CHR ''E'') \<and> fst (span_digits ds) \<noteq> []
        then (c # sign @ fst (span_digits ds), snd (span_digits ds)) else ([], s))
     | [] \<Rightarrow> ([], s))"

definition scan_int_part :: "string \<Rightarrow> string \<times> string" where
  "scan_int_part s = (if s \<noteq> [] \<and> hd s = CHR ''0'' then (''0'', tl s) else span_digits s)"

definition scan_number :: "string \<Rightarrow> (pyval \<times> string) option" where
  "scan_number s =
     (let neg = (s \<noteq> [] \<and> hd s = CHR ''-''); body = (if neg then tl s else s);
          (ds, r1) = scan_int_part body;
          (fr, r2) = scan_fraction r1; (ex, r3) = scan_exponent r2 in
      if ds = [] then None
      else if fr = [] \<and> ex = [] then
        (if length ds \<le> max_str_digits
         then Some (PInt (if neg then - int (dec_value ds) else int (dec_value ds)), r3) else None)
      else Some (PFloat ((if neg then ''-'' else []) @ ds @ fr @ ex), r3))"

definition scan_word :: "string \<Rightarrow> pyval \<Rightarrow> string \<Rightarrow> (pyval \<times> string) option" where
  "scan_word w v s = (if starts_with w s then Some (v, drop (length w) s) else None)"

definition scan_atom :: "string \<Rightarrow> (pyval \<times> string) option" where
  "scan_atom s = (case s of [] \<Rightarrow> None
     | c # _ \<Rightarrow>
       if c = CHR ''n'' then scan_word ''null'' PNone s
       else if c = CHR ''t'' then scan_word ''true'' (PBool True) s
       else if c = CHR ''f'' then scan_word ''false'' (PBool False) s
       else if c = CHR ''N'' then scan_word ''NaN'' (PFloat ''nan'') s
       else if c = CHR ''I'' then scan_word ''Infinity'' (PFloat ''inf'') s
       else if starts_with ''-Infinity'' s then scan_word ''-Infinity'' (PFloat ''-inf'') s
       else scan_number s)"

fun scan_value :: "nat \<Rightarrow> string \<Rightarrow> (pyval \<times> string) option"
and scan_elems :: "nat \<Rightarrow> string \<Rightarrow> (pyval list \<times> string) option"
and scan_members :: "nat \<Rightarrow> string \<Rightarrow> ((string \<times> pyval) list \<times> string) option" where
  "scan_value 0 s = None"
| "scan_value (Suc n) s = (case s of [] \<Rightarrow> None
     | c # cs \<Rightarrow>
       if c = CHR 0x22 then map_option (\<lambda>(t, r). (PStr t, r)) (scan_string cs)
       else if c = CHR ''['' then
         (case skip_ws cs of [] \<Rightarrow> None
          | d # ds \<Rightarrow> if d = CHR '']'' then Some (PList [], ds)
             else map_option (\<lambda>(vs, r). (PList vs, r)) (scan_elems n (d # ds)))
       else if c = CHR ''{'' then
         (case skip_ws cs of [] \<Rightarrow> None
          | d # ds \<Rightarrow> if d = CHR ''}'' then Some (PDict [], ds)
             else map_option (\<lambda>(kvs, r). (PDict (dict_of_pairs kvs), r)) (scan_members n (d # ds)))
       else scan_atom s)"
| "scan_elems 0 s = None"
| "scan_elems (Suc n) s = (case scan_value n s of None \<Rightarrow> None
     | Some (v, r) \<Rightarrow> (case skip_ws r of [] \<Rightarrow> None
       | d # ds \<Rightarrow> if d = CHR '']'' then Some ([v], ds)
          else if d = CHR '','' then map_option (\<lambda>(vs, r'). (v # vs, r')) (scan_elems n (skip_ws ds))
          else None))"
| "scan_members 0 s = None"
| "scan_members (Suc n) s = (case s of [] \<Rightarrow> None
     | q # qs \<Rightarrow> if q \<noteq> CHR 0x22 then None else
       (case scan_string qs of None \<Rightarrow> None
        | Some (k, r) \<Rightarrow> (case skip_ws r of [] \<Rightarrow> None
          | d # ds \<Rightarrow> if d \<noteq> CHR '':'' then None else
            (case scan_value n (skip_ws ds) of None \<Rightarrow> None
             | Some (v, r') \<Rightarrow> (case skip_ws r' of [] \<Rightarrow> None
               | e # es \<Rightarrow> if e = CHR ''}'' then Some ([(k, v)], es)
                  else if e = CHR '','' then map_option (\<lambda>(kvs, x). ((k, v) # kvs, x)) (scan_members n (skip_ws es))
                  else None)))))"

definition loads :: "string \<Rightarrow> pyval result" where
  "loads s = (case scan_value (2 * length s + 2) (skip_ws s) of
     Some (v, r) \<Rightarrow> if skip_ws r = [] then Inr v else Inl (ValueError ''Extra data'')
   | None \<Rightarrow> Inl (ValueError ''Expecting value''))"

text \<open>\<open>json.loads\<close> of bytes (UTF-8), and \<open>dict.get\<close>\<close>

definition loads_bytes :: "bytes \<Rightarrow> pyval result" where
  "loads_bytes b = (case utf8_decode b of None \<Rightarrow> Inl (ValueError ''invalid utf-8'') | Some s \<Rightarrow> loads s)"

definition get_field :: "string \<Rightarrow> (string \<times> pyval) list \<Rightarrow> pyval" where
  "get_field k kvs = (case map_of kvs k of None \<Rightarrow> PNone | Some v \<Rightarrow> v)"

end
