(* ===== verification/Json_Facts.thy ===== *)
theory Json_Facts
  imports Json
begin

text \<open>
  The serialiser and the parser of \<open>Json\<close> fit: what \<open>dumps\<close> prints, \<open>loads\<close>
  reads back as the normal form of the value (keys sorted, dates and enums
  replaced by what they are rendered as).
\<close>

section \<open>Normal forms\<close>

fun norm :: "pyval \<Rightarrow> pyval"
and norm_list :: "pyval list \<Rightarrow> pyval list"
and norm_items :: "(string \<times> pyval) list \<Rightarrow> (string \<times> pyval) list" where
  "norm (PList vs) = PList (norm_list vs)"
| "norm (PDict kvs) = PDict (sort_key fst (norm_items kvs))"
| "norm (PDateTime t) = PStr (iso_seconds_z (utc_at (instant t)))"
| "norm (PDate d) = PStr (date_text d)"
| "norm (PEnum v) = norm v"
| "norm v = v"
| "norm_list [] = []"
| "norm_list (v # vs) = norm v # norm_list vs"
| "norm_items [] = []"
| "norm_items ((k, v) # kvs) = (k, norm v) # norm_items kvs"

text \<open>No floats, and the keys of every dict are distinct, as Python's always are.\<close>

fun wf_json :: "pyval \<Rightarrow> bool"
and wf_list :: "pyval list \<Rightarrow> bool"
and wf_items :: "(string \<times> pyval) list \<Rightarrow> bool" where
  "wf_json (PFloat r) = False"
| "wf_json (PList vs) = wf_list vs"
| "wf_json (PDict kvs) = (distinct (map fst kvs) \<and> wf_items kvs)"
| "wf_json (PEnum v) = wf_json v"
| "wf_json v = True"
| "wf_list [] = True"
| "wf_list (v # vs) = (wf_json v \<and> wf_list vs)"
| "wf_items [] = True"
| "wf_items ((k, v) # kvs) = (wf_json v \<and> wf_items kvs)"

section \<open>Strings\<close>

lemma hex_value_digit: "n < 16 \<Longrightarrow> hex_value (hex_digit n) = Some n"
  by (auto simp: hex_value_def hex_digit_def is_ascii_digit_def code_def)

lemma hex_byte_digits: "n < 256 \<Longrightarrow> hex_byte (hex_digit (n div 16)) (hex_digit (n mod 16)) = Some (char_of n)"
  by (simp add: hex_byte_def hex_value_digit less_mult_imp_div_less)

lemma scan_escape_u:
  "scan_string (escape_u (code c) @ r) = cons_fst c (scan_string r)"
  by (simp add: escape_u_def hex_byte_digits)

lemma scan_escape_char: "scan_string (escape_char a c @ r) = cons_fst c (scan_string r)"
proof (cases "c \<in> {CHR 0x22, CHR 0x5C, CHR 0x0A, CHR 0x0D, CHR 0x09, CHR 0x0C, CHR 0x08}")
  case True
  then show ?thesis by (auto simp: escape_char_def simple_escape_def)
next
  case False
  show ?thesis
  proof (cases "code c < 32 \<or> (a \<and> 127 \<le> code c)")
    case True
    then have "escape_char a c = escape_u (code c)" using False by (simp add: escape_char_def)
    then show ?thesis by (simp only: scan_escape_u)
  next
    case esc: False
    then have "escape_char a c = [c]" using False by (simp only: escape_char_def insert_iff empty_iff) simp
    then show ?thesis using False esc by simp
  qed
qed

lemma scan_quoted: "scan_string (concat (map (escape_char a) s) @ CHR 0x22 # r) = Some (s, r)"
  by (induction s) (simp_all add: scan_escape_char cons_fst_def del: scan_string.simps,
      simp add: cons_fst_def)

lemma scan_value_quote: "0 < n \<Longrightarrow> scan_value n (quote a s @ r) = Some (PStr s, r)"
  by (cases n) (simp_all add: quote_def scan_quoted)

section \<open>Numbers\<close>

definition stops :: "string \<Rightarrow> bool" where
  "stops r = (case r of [] \<Rightarrow> True | c # _ \<Rightarrow> is_ws c \<or> c = CHR '','' \<or> c = CHR '']'' \<or> c = CHR ''}'')"

lemma stops_simps [simp]:
  "stops []" "stops (CHR '','' # r)" "stops (CHR '']'' # r)" "stops (CHR ''}'' # r)"
  by (simp_all add: stops_def)

lemma stops_scan:
  assumes "stops r"
  shows "scan_fraction r = ([], r)" "scan_exponent r = ([], r)" "r = [] \<or> \<not> is_ascii_digit (hd r)"
  using assms by (auto simp: stops_def scan_fraction_def scan_exponent_def is_ascii_digit_def is_ws_def split: list.splits)

lemma span_digits_append:
  assumes "\<forall>c \<in> set ds. is_ascii_digit c" "r = [] \<or> \<not> is_ascii_digit (hd r)"
  shows "span_digits (ds @ r) = (ds, r)"
  using assms by (induction ds) (auto simp: span_digits_def takeWhile_eq_Nil_iff dropWhile_eq_self_iff)

lemma hd_dec_digits_zero: "0 < n \<Longrightarrow> hd (dec_digits n) \<noteq> CHR ''0''"
proof (induction n rule: dec_digits.induct)
  case (1 n)
  show ?case
  proof (cases "n < 10")
    case True
    have "digit_char n = CHR ''0'' \<Longrightarrow> n = 0" using digit_value_char [OF True] by (simp add: digit_value_def)
    then show ?thesis using True 1 by (auto simp: dec_digits.simps [of n])
  next
    case False
    then show ?thesis using 1 by (subst dec_digits.simps) (simp add: hd_append)
  qed
qed

lemma scan_number_digits:
  assumes "stops r" "length (dec_digits n) \<le> max_str_digits"
  shows "scan_number (dec_digits n @ r) = Some (PInt (int n), r)"
    and "scan_number (CHR ''-'' # dec_digits n @ r) = Some (PInt (- int n), r)"
proof -
  have hd: "hd (dec_digits n @ r) = hd (dec_digits n)" by simp
  have minus: "hd (dec_digits n @ r) \<noteq> CHR ''-''" using dec_digits_hd [of n] unfolding hd by (metis not_digit(1))
  have span: "scan_int_part (dec_digits n @ r) = (dec_digits n, r)"
  proof (cases "n = 0")
    case True
    have "dec_digits 0 = ''0''" by code_simp
    then show ?thesis using True by (simp add: scan_int_part_def)
  next
    case False
    then show ?thesis using hd_dec_digits_zero [of n] dec_digits_digits [of n] stops_scan(3) [OF assms(1)]
      by (simp add: scan_int_part_def span_digits_append)
  qed
  show "scan_number (dec_digits n @ r) = Some (PInt (int n), r)"
    using minus assms(2) unfolding scan_number_def Let_def by (simp add: span stops_scan [OF assms(1)])
  show "scan_number (CHR ''-'' # dec_digits n @ r) = Some (PInt (- int n), r)"
    using assms(2) span unfolding scan_number_def Let_def by (simp add: stops_scan [OF assms(1)])
qed

lemma scan_value_int:
  assumes "dumps_int i = Inr t" "stops r" "0 < n"
  shows "scan_value n (t @ r) = Some (PInt i, r)"
proof -
  let ?d = "dec_digits (nat \<bar>i\<bar>)"
  have len: "length ?d \<le> max_str_digits" and t: "t = str_int i"
    using assms(1) by (auto simp: dumps_int_def split: if_splits)
  obtain m where n: "n = Suc m" using assms(3) by (cases n) auto
  obtain d ds where d: "?d = d # ds" by (cases ?d) auto
  have dig: "is_ascii_digit d" using dec_digits_hd [of "nat \<bar>i\<bar>"] d by simp
  have neq: "d \<noteq> CHR 0x22" "d \<noteq> CHR ''[''" "d \<noteq> CHR ''{''" "d \<noteq> CHR ''n''" "d \<noteq> CHR ''t''"
    "d \<noteq> CHR ''f''" "d \<noteq> CHR ''N''" "d \<noteq> CHR ''I''" "d \<noteq> CHR ''-''"
    using dig by (auto simp: is_ascii_digit_def)
  show ?thesis
  proof (cases "i < 0")
    case True
    then have "t = CHR ''-'' # ?d" by (simp add: t str_int_def)
    moreover have "\<not> starts_with ''-Infinity'' (CHR ''-'' # ?d @ r)"
      using neq d by (simp add: starts_with_def)
    ultimately show ?thesis using scan_number_digits(2) [OF assms(2) len] True
      by (simp add: n scan_atom_def)
  next
    case False
    then have "t = ?d" by (simp add: t str_int_def)
    moreover have "\<not> starts_with ''-Infinity'' (?d @ r)" using neq d by (simp add: starts_with_def)
    ultimately show ?thesis using scan_number_digits(1) [OF assms(2) len] False neq d
      unfolding d by (simp add: n scan_atom_def)
  qed
qed

section \<open>First characters\<close>

definition value_head :: "string \<Rightarrow> bool" where
  "value_head t = (case t of [] \<Rightarrow> False | c # _ \<Rightarrow> \<not> is_ws c \<and> c \<noteq> CHR '']'' \<and> c \<noteq> CHR ''}'')"

lemma value_head_append: "value_head t \<Longrightarrow> value_head (t @ r)"
  by (cases t) (auto simp: value_head_def)

lemma skip_ws_head: "value_head t \<Longrightarrow> skip_ws t = t"
  by (cases t) (auto simp: value_head_def skip_ws_def)

lemma value_head_quote: "value_head (quote a s)"
  by (simp add: value_head_def quote_def is_ws_def)

lemma value_head_int: "dumps_int i = Inr t \<Longrightarrow> value_head t"
proof -
  assume "dumps_int i = Inr t"
  then have t: "t = str_int i" by (auto simp: dumps_int_def split: if_splits)
  obtain d ds where d: "dec_digits (nat \<bar>i\<bar>) = d # ds" by (cases "dec_digits (nat \<bar>i\<bar>)") auto
  then have "is_ascii_digit d" using dec_digits_hd [of "nat \<bar>i\<bar>"] by simp
  then have "\<not> is_ws d" "d \<noteq> CHR '']''" "d \<noteq> CHR ''}''" by (auto simp: is_ascii_digit_def is_ws_def)
  then show "value_head t"
    using d by (auto simp: t str_int_def value_head_def is_ws_def)
qed

lemma value_head_simp: "value_head (c # t) \<longleftrightarrow> \<not> is_ws c \<and> c \<noteq> CHR '']'' \<and> c \<noteq> CHR ''}''"
  by (simp add: value_head_def)

lemma is_ws_simps [simp]:
  "\<not> is_ws CHR ''n''" "\<not> is_ws CHR ''t''" "\<not> is_ws CHR ''f''" "\<not> is_ws CHR ''[''" "\<not> is_ws CHR ''{''"
  "\<not> is_ws CHR '']''" "\<not> is_ws CHR ''}''" "\<not> is_ws CHR '',''" "\<not> is_ws CHR '':''" "\<not> is_ws CHR 0x22"
  by (simp_all add: is_ws_def)

lemma skip_ws_simps [simp]: "skip_ws [] = []" "\<not> is_ws c \<Longrightarrow> skip_ws (c # s) = c # s"
  by (simp_all add: skip_ws_def)

lemma dumps_head: "wf_json v \<Longrightarrow> dumps a v = Inr t \<Longrightarrow> value_head t"
proof (induction v arbitrary: t)
  case (PInt x)
  then show ?case by (simp add: value_head_int)
qed (auto simp: join_list_def join_dict_def intro: value_head_quote simp: value_head_simp split: if_splits)

section \<open>Sorting by key\<close>

lemma insort_map_key:
  "insort_key fst (k, f v) (map (\<lambda>(k, v). (k, f v)) kvs) = map (\<lambda>(k, v). (k, f v)) (insort_key fst (k, v) kvs)"
  by (induction kvs) auto

lemma sort_map_key: "sort_key fst (map (\<lambda>(k, v). (k, f v)) kvs) = map (\<lambda>(k, v). (k, f v)) (sort_key fst kvs)"
  by (induction kvs) (auto simp: insort_map_key)

lemma dumps_items_map: "dumps_items a kvs = map (\<lambda>(k, v). (k, dumps a v)) kvs"
  by (induction kvs) auto

lemma norm_items_map: "norm_items kvs = map (\<lambda>(k, v). (k, norm v)) kvs"
  by (induction kvs) auto

lemma wf_items_iff: "wf_items kvs \<longleftrightarrow> (\<forall>(k, v) \<in> set kvs. wf_json v)"
  by (induction kvs) auto

lemma map_fst_insort: "map fst (insort_key fst kv xs) = insort (fst kv) (map fst xs)"
  by (induction xs) auto

lemma map_fst_sort: "map fst (sort_key fst kvs) = sort (map fst kvs)"
  by (induction kvs) (auto simp: map_fst_insort)

lemma distinct_sort_fst: "distinct (map fst (sort_key fst kvs)) = distinct (map fst kvs)"
  by (simp add: map_fst_sort)

lemma dict_put_new: "k \<notin> fst ` set kvs \<Longrightarrow> dict_put k v kvs = kvs @ [(k, v)]"
  by (simp add: dict_put_def)

lemma map_of_replace: "map_of (map (\<lambda>(a, b). if a = k then (k, v) else (a, b)) kvs) k' =
    (if k' = k then (if k \<in> fst ` set kvs then Some v else None) else map_of kvs k')"
proof (induction kvs)
  case (Cons x kvs)
  then show ?case by (cases x; cases "k' = k"; cases "fst x = k") simp_all
qed simp

lemma map_of_dict_put: "map_of (dict_put k v kvs) k' = (if k' = k then Some v else map_of kvs k')"
proof (cases "k \<in> fst ` set kvs")
  case True
  then show ?thesis by (simp add: dict_put_def map_of_replace)
next
  case False
  then have "map_of kvs k = None" by (simp add: map_of_eq_None_iff)
  with False show ?thesis by (simp add: dict_put_def map_add_def split: option.splits)
qed

lemma foldl_dict_put:
  "distinct (map fst (acc @ kvs)) \<Longrightarrow> foldl (\<lambda>d (k, v). dict_put k v d) acc kvs = acc @ kvs"
proof (induction kvs arbitrary: acc)
  case (Cons kv kvs)
  obtain k v where kv: "kv = (k, v)" by (cases kv)
  have "k \<notin> fst ` set acc" using Cons.prems by (auto simp: kv)
  then show ?case using Cons.IH [of "acc @ [kv]"] Cons.prems by (simp add: kv dict_put_new)
qed simp

lemma dict_of_pairs_distinct: "distinct (map fst kvs) \<Longrightarrow> dict_of_pairs kvs = kvs"
  using foldl_dict_put [of "[]" kvs] by (simp add: dict_of_pairs_def)

section \<open>The round trip\<close>

definition reads_back :: "bool \<Rightarrow> pyval \<Rightarrow> bool" where
  "reads_back a v = (\<forall>t r n. dumps a v = Inr t \<longrightarrow> stops r \<longrightarrow> 2 * length t \<le> n \<longrightarrow>
     scan_value n (t @ r) = Some (norm v, r))"

lemma join_nonempty: "join sep (x # xs) = x @ (if xs = [] then [] else sep @ join sep xs)"
  by (cases xs) auto

lemma scan_elems_join:
  assumes "vs \<noteq> []" "list_all wf_json vs" "list_all (reads_back a) vs"
    and "dumps_list a vs = Inr ts" "2 * length (join '','' ts) < n"
  shows "scan_elems n (join '','' ts @ CHR '']'' # r) = Some (norm_list vs, r)"
  using assms
proof (induction vs arbitrary: ts n)
  case (Cons v vs)
  obtain t us where t: "dumps a v = Inr t" "dumps_list a vs = Inr us" "ts = t # us"
    using Cons.prems(4) by auto
  obtain m where n: "n = Suc m" using Cons.prems(5) by (cases n) auto
  show ?case
  proof (cases vs)
    case Nil
    then have "scan_value m (t @ CHR '']'' # r) = Some (norm v, CHR '']'' # r)"
      using Cons.prems t n by (auto simp: reads_back_def)
    then show ?thesis using Nil t n by simp
  next
    case (Cons w ws)
    then obtain u us' where us: "us = u # us'" "dumps a w = Inr u" using t(2) by auto
    have rest: "join '','' ts = t @ '','' @ join '','' us" by (simp add: t(3) us)
    have head: "value_head (join '','' us @ CHR '']'' # r)"
      using dumps_head [OF _ us(2)] Cons.prems(2) Cons us(1)
      by (simp add: join_nonempty value_head_append)
    have "scan_value m (t @ CHR '','' # join '','' us @ CHR '']'' # r)
        = Some (norm v, CHR '','' # join '','' us @ CHR '']'' # r)"
      using Cons.prems(3,5) t(1) rest n by (simp add: reads_back_def)
    moreover have "scan_elems m (join '','' us @ CHR '']'' # r) = Some (norm_list vs, r)"
      using Cons.prems(2,3,5) Cons t(2) rest n by (intro Cons.IH) simp_all
    ultimately show ?thesis using head
      by (simp add: n rest skip_ws_head)
  qed
qed simp

lemma scan_members_join:
  assumes "kvs \<noteq> []" "\<forall>(k, v) \<in> set kvs. reads_back a v \<and> wf_json v"
    and "mapE (item_text a) (map (\<lambda>(k, v). (k, dumps a v)) kvs) = Inr ts"
    and "2 * length (join '','' ts) < n"
  shows "scan_members n (join '','' ts @ CHR ''}'' # r) = Some (map (\<lambda>(k, v). (k, norm v)) kvs, r)"
  using assms
proof (induction kvs arbitrary: ts n)
  case (Cons kv kvs)
  obtain k v where kv: "kv = (k, v)" by (cases kv)
  obtain t us where t: "dumps a v = Inr t" "ts = (quote a k @ '':'' @ t) # us"
    and us: "mapE (item_text a) (map (\<lambda>(k, v). (k, dumps a v)) kvs) = Inr us"
    using Cons.prems(3) unfolding kv list.map prod.case mapE.simps
    by (auto simp: item_text_def [of a "(k, dumps a v)"])
  obtain m where n: "n = Suc m" using Cons.prems(4) by (cases n) auto
  have head: "value_head (t @ s)" for s
    using dumps_head [OF _ t(1)] Cons.prems(2) by (simp add: kv value_head_append)
  have scan: "scan_members n (quote a k @ CHR '':'' # t @ s) = (case scan_value m (t @ s) of None \<Rightarrow> None
     | Some (v, r') \<Rightarrow> (case skip_ws r' of [] \<Rightarrow> None
               | e # es \<Rightarrow> if e = CHR ''}'' then Some ([(k, v)], es)
                  else if e = CHR '','' then map_option (\<lambda>(kvs, x). ((k, v) # kvs, x)) (scan_members m (skip_ws es))
                  else None))" for s
    unfolding n by (simp add: quote_def scan_quoted skip_ws_head [OF head])
  show ?case
  proof (cases kvs)
    case Nil
    then have "ts = [quote a k @ '':'' @ t]" using us t by simp
    moreover from this have "scan_value m (t @ CHR ''}'' # r) = Some (norm v, CHR ''}'' # r)"
      using Cons.prems(2,4) t n by (simp add: kv reads_back_def)
    ultimately show ?thesis using Nil scan by (simp add: kv)
  next
    case (Cons kw kws)
    obtain u us' where us': "us = u # us'" using us Cons by (cases us) auto
    have rest: "join '','' ts = quote a k @ '':'' @ t @ '','' @ join '','' us" by (simp add: t us')
    obtain w where "u = quote a (fst kw) @ w"
      using us Cons us' by (cases kw) (auto simp: item_text_def)
    then have head': "value_head (join '','' us @ CHR ''}'' # r)"
      by (simp add: us' join_nonempty value_head_append value_head_quote)
    have "scan_value m (t @ CHR '','' # join '','' us @ CHR ''}'' # r)
        = Some (norm v, CHR '','' # join '','' us @ CHR ''}'' # r)"
      using Cons.prems(2,4) t(1) rest n by (simp add: kv reads_back_def)
    moreover have "scan_members m (join '','' us @ CHR ''}'' # r) = Some (map (\<lambda>(k, v). (k, norm v)) kvs, r)"
      using Cons.prems(2,4) Cons us rest n by (intro Cons.IH) simp_all
    ultimately show ?thesis using head' scan rest
      by (simp add: kv skip_ws_head)
  qed
qed simp

lemma dumps_list_length: "dumps_list a vs = Inr ts \<Longrightarrow> length ts = length vs"
  by (induction vs arbitrary: ts) auto

lemma reads_back_list:
  assumes "wf_list vs" "list_all (reads_back a) vs"
  shows "reads_back a (PList vs)"
proof (unfold reads_back_def, intro allI impI)
  fix t r n assume t: "dumps a (PList vs) = Inr t" and n: "2 * length t \<le> n"
  obtain ts where ts: "dumps_list a vs = Inr ts" "t = ''['' @ join '','' ts @ '']''"
    using t by (auto simp: join_list_def)
  obtain m where m: "n = Suc m" using n ts by (cases n) auto
  have wf: "list_all wf_json vs" using assms(1) by (induction vs) auto
  show "scan_value n (t @ r) = Some (norm (PList vs), r)"
  proof (cases vs)
    case Nil
    then show ?thesis using ts m by simp
  next
    case (Cons v vs')
    obtain u us where u: "ts = u # us" "dumps a v = Inr u" using ts Cons by auto
    have "value_head u" using dumps_head [OF _ u(2)] wf Cons by simp
    then obtain c cs where c: "u = c # cs" "c \<noteq> CHR '']''" by (cases u) (auto simp: value_head_def)
    have head: "value_head (join '','' ts @ CHR '']'' # r)"
      using \<open>value_head u\<close> by (simp add: u join_nonempty value_head_append)
    have "scan_elems m (join '','' ts @ CHR '']'' # r) = Some (norm_list vs, r)"
      using Cons wf assms(2) ts n m by (intro scan_elems_join) auto
    then show ?thesis using skip_ws_head [OF head] c u
      by (simp add: ts m join_nonempty)
  qed
qed

lemma reads_back_dict:
  assumes "distinct (map fst kvs)" "\<forall>(k, v) \<in> set kvs. reads_back a v \<and> wf_json v"
  shows "reads_back a (PDict kvs)"
proof (unfold reads_back_def, intro allI impI)
  fix t r n assume t: "dumps a (PDict kvs) = Inr t" and n: "2 * length t \<le> n"
  let ?s = "sort_key fst kvs"
  obtain ts where ts: "mapE (item_text a) (map (\<lambda>(k, v). (k, dumps a v)) ?s) = Inr ts"
      "t = ''{'' @ join '','' ts @ ''}''"
    using t by (auto simp: join_dict_def dumps_items_map sort_map_key)
  obtain m where m: "n = Suc m" using n ts by (cases n) auto
  have norm: "norm (PDict kvs) = PDict (map (\<lambda>(k, v). (k, norm v)) ?s)"
    by (simp add: norm_items_map sort_map_key)
  show "scan_value n (t @ r) = Some (norm (PDict kvs), r)"
  proof (cases "?s = []")
    case True
    then show ?thesis using ts m unfolding norm by simp
  next
    case False
    then obtain k v s' where s': "?s = (k, v) # s'" by (cases ?s) auto
    then obtain u us where u: "ts = (quote a k @ u) # us" using ts(1) by (auto simp: item_text_def)
    have head: "value_head (join '','' ts @ CHR ''}'' # r)"
      by (simp add: u join_nonempty value_head_append value_head_quote)
    have "scan_members m (join '','' ts @ CHR ''}'' # r) = Some (map (\<lambda>(k, v). (k, norm v)) ?s, r)"
      using False assms(2) ts n m by (intro scan_members_join) auto
    moreover have "distinct (map fst ?s)"
      using assms(1) by (metis distinct_map distinct_sort set_sort)
    then have "distinct (map fst (map (\<lambda>(k, v). (k, norm v)) ?s))"
      by (simp add: comp_def case_prod_unfold)
    ultimately show ?thesis using skip_ws_head [OF head] u unfolding norm
      by (simp add: ts m join_nonempty quote_def dict_of_pairs_distinct)
  qed
qed

lemma num_Suc: "numeral k \<le> n \<Longrightarrow> \<exists>m. n = Suc m"
  by (cases n) auto

lemma dumps_reads_back: "wf_json v \<Longrightarrow> reads_back a v"
proof (induction v)
  case (PList vs)
  moreover have "list_all wf_json vs" using PList.prems by (induction vs) auto
  ultimately show ?case by (intro reads_back_list) (auto simp: list_all_iff)
next
  case (PDict kvs)
  then show ?case by (intro reads_back_dict) (fastforce simp: wf_items_iff)+
next
  case (PInt i)
  show ?case
  proof (unfold reads_back_def, intro allI impI)
    fix t r n assume "dumps a (PInt i) = Inr t" "stops r" "2 * length t \<le> n"
    moreover have "t \<noteq> []" using value_head_int [of i t] calculation(1) by (auto simp: value_head_def)
    ultimately show "scan_value n (t @ r) = Some (norm (PInt i), r)"
      using scan_value_int [of i t r n] by (cases t) auto
  qed
next
  case (PStr s)
  then show ?case by (auto simp: reads_back_def quote_def intro!: scan_value_quote [unfolded quote_def, simplified])
next
  case (PDateTime d)
  then show ?case
    by (auto simp: reads_back_def to_utc_Inr quote_def intro!: scan_value_quote [unfolded quote_def, simplified])
next
  case (PDate d)
  then show ?case by (auto simp: reads_back_def quote_def intro!: scan_value_quote [unfolded quote_def, simplified])
next
  case PNone
  show ?case by (auto simp: reads_back_def scan_atom_def scan_word_def starts_with_def dest!: num_Suc)
next
  case (PBool b)
  show ?case by (auto simp: reads_back_def scan_atom_def scan_word_def starts_with_def dest!: num_Suc)
qed (auto simp: reads_back_def)

text \<open>Printing and parsing back gives the normal form; so equal texts have equal normal forms.\<close>

lemma loads_dumps_ws:
  assumes "wf_json v" "dumps a v = Inr t" "list_all is_ws r"
  shows "loads (t @ r) = Inr (norm v)"
proof -
  have "stops r" using assms(3) by (cases r) (auto simp: stops_def)
  moreover have "2 * length t \<le> 2 * length (t @ r) + 2" by simp
  ultimately have "scan_value (2 * length (t @ r) + 2) (t @ r) = Some (norm v, r)"
    using dumps_reads_back [OF assms(1), of a] assms(2) unfolding reads_back_def by blast
  moreover have "skip_ws r = []" using assms(3) by (auto simp: skip_ws_def dropWhile_eq_Nil_conv list_all_iff)
  ultimately show ?thesis
    using skip_ws_head [OF value_head_append [OF dumps_head [OF assms(1,2)], of r]]
    by (simp add: loads_def)
qed

lemma loads_dumps: "wf_json v \<Longrightarrow> dumps a v = Inr t \<Longrightarrow> loads t = Inr (norm v)"
  using loads_dumps_ws [of v a t "[]"] by simp

section \<open>Values that always print\<close>

text \<open>No floats, dates or foreign objects, and no integer of more than a hundred digits.\<close>

fun plain :: "pyval \<Rightarrow> bool"
and plain_list :: "pyval list \<Rightarrow> bool"
and plain_items :: "(string \<times> pyval) list \<Rightarrow> bool" where
  "plain PNone = True"
| "plain (PBool b) = True"
| "plain (PInt i) = (\<bar>i\<bar> < 10 ^ 100)"
| "plain (PStr s) = True"
| "plain (PList vs) = plain_list vs"
| "plain (PDict kvs) = (distinct (map fst kvs) \<and> plain_items kvs)"
| "plain v = False"
| "plain_list [] = True"
| "plain_list (v # vs) = (plain v \<and> plain_list vs)"
| "plain_items [] = True"
| "plain_items ((k, v) # kvs) = (plain v \<and> plain_items kvs)"

lemma length_dec_digits: "n < 10 ^ k \<Longrightarrow> length (dec_digits n) \<le> max 1 k"
proof (induction n arbitrary: k rule: dec_digits.induct)
  case (1 n)
  show ?case
  proof (cases "n < 10")
    case True
    then show ?thesis by (simp add: dec_digits.simps [of n])
  next
    case False
    then obtain j where k: "k = Suc j" using 1(2) by (cases k) auto
    have "n div 10 < 10 ^ j" using 1(2) k by (simp add: less_mult_imp_div_less mult.commute)
    from 1(1) [OF False this] have "length (dec_digits (n div 10)) \<le> max 1 j" .
    moreover have "j \<noteq> 0" using 1(2) False k by (intro notI) simp
    ultimately show ?thesis using False k by (simp add: dec_digits.simps [of n])
  qed
qed

lemma dumps_int_small: "\<bar>i\<bar> < 10 ^ 100 \<Longrightarrow> dumps_int i = Inr (str_int i)"
proof -
  assume "\<bar>i\<bar> < 10 ^ 100"
  then have "nat \<bar>i\<bar> < 10 ^ 100" by (simp add: nat_less_iff)
  from length_dec_digits [OF this] show ?thesis
    by (simp add: dumps_int_def max_str_digits_def)
qed

lemma mapE_succeeds: "(\<And>x. x \<in> set xs \<Longrightarrow> \<exists>y. f x = Inr y) \<Longrightarrow> \<exists>ys. mapE f xs = Inr ys"
  by (induction xs) auto

lemma plain_items_iff: "plain_items kvs \<longleftrightarrow> (\<forall>v \<in> snd ` set kvs. plain v)"
  by (induction kvs) auto

lemma plain_list_iff: "plain_list vs \<longleftrightarrow> (\<forall>v \<in> set vs. plain v)"
  by (induction vs) auto

lemma plain_dumps: "plain v \<Longrightarrow> \<exists>t. dumps a v = Inr t"
proof (induction v)
  case (PList vs)
  then have "\<exists>ts. dumps_list a vs = Inr ts"
    by (induction vs) (auto simp: plain_list_iff)
  then show ?case by (auto simp: join_list_def)
next
  case (PDict kvs)
  have "\<exists>t. item_text a kr = Inr t" if mem: "kr \<in> set (sort_key fst (dumps_items a kvs))" for kr
  proof -
    obtain k v where kv: "(k, v) \<in> set kvs" "kr = (k, dumps a v)"
      using mem by (auto simp: dumps_items_map)
    then have "plain v" using PDict.prems by (auto simp: plain_items_iff)
    then obtain t where "dumps a v = Inr t" using PDict.IH [OF kv(1)] by (auto simp: snds.simps)
    then show ?thesis by (simp add: kv item_text_def)
  qed
  then obtain ts where "mapE (item_text a) (sort_key fst (dumps_items a kvs)) = Inr ts"
    using mapE_succeeds [of "sort_key fst (dumps_items a kvs)" "item_text a"] by blast
  then show ?case by (simp add: join_dict_def)
qed (auto simp: dumps_int_small)

lemma plain_filter: "plain (PDict kvs) \<Longrightarrow> plain (PDict (filter p kvs))"
  by (auto simp: plain_items_iff distinct_map_filter)

lemma norm_items_filter: "(\<And>v. v \<in> snd ` set kvs \<Longrightarrow> norm v = v) \<Longrightarrow> norm_items (filter p kvs) = filter p kvs"
  by (induction kvs) auto

lemma plain_norm:
  "plain v \<Longrightarrow> plain (norm v)" "plain_list vs \<Longrightarrow> plain_list (norm_list vs)"
  "plain_items kvs \<Longrightarrow> plain_items (norm_items kvs)"
  by (induction v and vs and kvs rule: norm_norm_list_norm_items.induct)
    (auto simp: plain_items_iff norm_items_map comp_def case_prod_unfold distinct_sort_fst)

lemma plain_wf:
  "plain v \<Longrightarrow> wf_json v" "plain_list vs \<Longrightarrow> wf_list vs" "plain_items kvs \<Longrightarrow> wf_items kvs"
  by (induction v and vs and kvs rule: wf_json_wf_list_wf_items.induct) auto

lemma dumps_inj:
  "wf_json v \<Longrightarrow> wf_json w \<Longrightarrow> dumps a v = Inr t \<Longrightarrow> dumps a w = Inr t \<Longrightarrow> norm v = norm w"
  by (metis Inr_inject loads_dumps)

end
