(* ===== verification/Canonical.thy ===== *)
theory Canonical
  imports Json_Facts "HOL-Library.Multiset"
begin

text \<open>
  \<open>rosetta_signer/canonical.py\<close>: the single-line sweep of message text, the
  byte strings that are signed for rooms and notes, and the canonical JSON
  profile.  Python's text is bounded to Latin-1, where the swept categories
  are \<open>Cc\<close> and \<open>Cf\<close>.
\<close>

section \<open>Definitions\<close>

definition sweep_text :: "nat \<Rightarrow> string \<Rightarrow> string result" where
  "sweep_text max_chars text =
     (let swept = strip (map (\<lambda>c. if swept_category c then CHR '' '' else c) text) in
      raise_if (swept = []) (ValueError ''message is empty after Unicode sweep'')
      (raise_if (max_chars < length swept) (ValueError ''message exceeds post-sweep character limit'')
      (Inr swept)))"

definition max_nonce :: int where
  "max_nonce = 9999999999999999999"

definition signed_room_payload :: "string \<Rightarrow> int \<Rightarrow> string \<Rightarrow> bytes result" where
  "signed_room_payload room nonce text =
     raise_if (room = [] \<or> CHR ''|'' \<in> set room) (ValueError ''invalid room'')
     (raise_if (nonce < 1 \<or> max_nonce < nonce) (ValueError ''nonce must contain 1-19 ASCII digits'')
     (bindE (sweep_text 4096 text) (\<lambda>t.
       Inr (utf8 (room @ ''|'' @ str_int nonce @ ''|'' @ t)))))"

definition signed_note_payload :: "string \<Rightarrow> string \<Rightarrow> int \<Rightarrow> string \<Rightarrow> bytes result" where
  "signed_note_payload namespace key nonce value =
     raise_if (namespace \<notin> {''room-owners'', ''room-allow''})
       (ValueError ''signed note namespace is not allowed'')
     (raise_if (key = [] \<or> CHR ''|'' \<in> set key) (ValueError ''invalid note key'')
     (raise_if (nonce < 1 \<or> max_nonce < nonce) (ValueError ''nonce must contain 1-19 ASCII digits'')
     (bindE (sweep_text 8192 value) (\<lambda>v.
       Inr (utf8 (namespace @ ''|'' @ key @ ''|'' @ str_int nonce @ ''|'' @ v))))))"

text \<open>\<open>math.isfinite\<close> on the literal text of a float.\<close>

definition float_finite :: "string \<Rightarrow> bool" where
  "float_finite r = (r \<notin> {''nan'', ''inf'', ''-inf''})"

fun reject_noncanonical_numbers :: "pyval \<Rightarrow> unit result"
and reject_list :: "pyval list \<Rightarrow> unit result"
and reject_items :: "(string \<times> pyval) list \<Rightarrow> unit result" where
  "reject_noncanonical_numbers (PFloat r) =
     (if \<not> float_finite r then Inl (ValueError ''non-finite number is not JSON'')
      else Inl (ValueError ''floats are outside Rosetta's canonical JSON profile''))"
| "reject_noncanonical_numbers (PDict kvs) = reject_items kvs"
| "reject_noncanonical_numbers (PDictOther kvs rest) =
     bindE (reject_items kvs) (\<lambda>_. Inl (ValueError ''canonical object keys must be strings''))"
| "reject_noncanonical_numbers (PList vs) = reject_list vs"
| "reject_noncanonical_numbers v = Inr ()"
| "reject_list [] = Inr ()"
| "reject_list (v # vs) = bindE (reject_noncanonical_numbers v) (\<lambda>_. reject_list vs)"
| "reject_items [] = Inr ()"
| "reject_items ((k, v) # kvs) = bindE (reject_noncanonical_numbers v) (\<lambda>_. reject_items kvs)"

definition canonical_json :: "pyval \<Rightarrow> bytes result" where
  "canonical_json v = bindE (reject_noncanonical_numbers v) (\<lambda>_.
     bindE (dumps False v) (\<lambda>t. Inr (utf8 t)))"

section \<open>The sweep\<close>

lemma sweep_text_Inr:
  "sweep_text m t = Inr s \<longleftrightarrow> s = strip (map (\<lambda>c. if swept_category c then CHR '' '' else c) t)
     \<and> s \<noteq> [] \<and> length s \<le> m"
  by (auto simp: sweep_text_def Let_def)

lemma not_swept_space [simp]: "\<not> swept_category CHR '' ''"
  by (simp add: swept_category_def code_def)

lemma swept_chars: "sweep_text m t = Inr s \<Longrightarrow> c \<in> set s \<Longrightarrow> \<not> swept_category c"
proof -
  assume s: "sweep_text m t = Inr s" and "c \<in> set s"
  then have "c \<in> set (map (\<lambda>c. if swept_category c then CHR '' '' else c) t)"
    using set_strip by (fastforce simp: sweep_text_Inr)
  then show "\<not> swept_category c" by (auto split: if_splits)
qed

lemma sweep_text_bounds:
  "sweep_text m t = Inr s \<Longrightarrow> s \<noteq> [] \<and> length s \<le> m \<and> length s \<le> length t"
  using length_strip [of "map (\<lambda>c. if swept_category c then CHR '' '' else c) t"]
  by (auto simp: sweep_text_Inr)

lemma sweep_text_idem: "sweep_text m t = Inr s \<Longrightarrow> sweep_text m s = Inr s"
proof -
  assume s: "sweep_text m t = Inr s"
  have "map (\<lambda>c. if swept_category c then CHR '' '' else c) s = s"
    using swept_chars [OF s] by (induction s) auto
  then show ?thesis using s by (auto simp: sweep_text_Inr)
qed

section \<open>Signed payloads\<close>

lemma signed_room_payload_Inr:
  "signed_room_payload r n t = Inr p \<longleftrightarrow> r \<noteq> [] \<and> CHR ''|'' \<notin> set r \<and> 1 \<le> n \<and> n \<le> max_nonce \<and>
     (\<exists>s. sweep_text 4096 t = Inr s \<and> p = utf8 (r @ ''|'' @ str_int n @ ''|'' @ s))"
  by (auto simp: signed_room_payload_def)

lemma signed_note_payload_Inr:
  "signed_note_payload ns k n v = Inr p \<longleftrightarrow> ns \<in> {''room-owners'', ''room-allow''} \<and> k \<noteq> []
     \<and> CHR ''|'' \<notin> set k \<and> CHR ''|'' \<notin> set ns \<and> 1 \<le> n \<and> n \<le> max_nonce
     \<and> (\<exists>s. sweep_text 8192 v = Inr s \<and> p = utf8 (ns @ ''|'' @ k @ ''|'' @ str_int n @ ''|'' @ s))"
  by (auto simp: signed_note_payload_def)

lemma room_payload_inj:
  assumes "signed_room_payload r n t = Inr p" "signed_room_payload r' n' t' = Inr p"
  shows "r = r' \<and> n = n' \<and> sweep_text 4096 t = sweep_text 4096 t'"
proof -
  obtain s s' where s: "sweep_text 4096 t = Inr s" "sweep_text 4096 t' = Inr s'"
    and eq: "r @ CHR ''|'' # str_int n @ CHR ''|'' # s = r' @ CHR ''|'' # str_int n' @ CHR ''|'' # s'"
    using assms by (auto simp: signed_room_payload_Inr)
  have r: "r = r'" and rest: "str_int n @ CHR ''|'' # s = str_int n' @ CHR ''|'' # s'"
    using append_sep_inj [OF _ _ eq] assms by (auto simp: signed_room_payload_Inr)
  show ?thesis using append_sep_inj [OF str_int_no_bar str_int_no_bar rest] r s by simp
qed

lemma note_payload_inj:
  assumes "signed_note_payload m k n v = Inr p" "signed_note_payload m' k' n' v' = Inr p"
  shows "m = m' \<and> k = k' \<and> n = n' \<and> sweep_text 8192 v = sweep_text 8192 v'"
proof -
  obtain s s' where s: "sweep_text 8192 v = Inr s" "sweep_text 8192 v' = Inr s'"
    and eq: "m @ CHR ''|'' # k @ CHR ''|'' # str_int n @ CHR ''|'' # s
      = m' @ CHR ''|'' # k' @ CHR ''|'' # str_int n' @ CHR ''|'' # s'"
    and m: "CHR ''|'' \<notin> set m" "CHR ''|'' \<notin> set m'" and k: "CHR ''|'' \<notin> set k" "CHR ''|'' \<notin> set k'"
    using assms by (auto simp: signed_note_payload_Inr)
  have m: "m = m'" and eq: "k @ CHR ''|'' # str_int n @ CHR ''|'' # s = k' @ CHR ''|'' # str_int n' @ CHR ''|'' # s'"
    using append_sep_inj [OF m eq] by auto
  have k: "k = k'" and rest: "str_int n @ CHR ''|'' # s = str_int n' @ CHR ''|'' # s'"
    using append_sep_inj [OF k eq] by auto
  show ?thesis using append_sep_inj [OF str_int_no_bar str_int_no_bar rest] m k s by simp
qed

section \<open>Canonical JSON\<close>

lemma canonical_json_Inr:
  "canonical_json v = Inr b \<longleftrightarrow> reject_noncanonical_numbers v = Inr () \<and>
     (\<exists>t. dumps False v = Inr t \<and> b = utf8 t)"
  by (auto simp: canonical_json_def)

lemma canonical_json_roundtrip:
  "wf_json v \<Longrightarrow> canonical_json v = Inr b \<Longrightarrow> loads_bytes b = Inr (norm v)"
  by (auto simp: canonical_json_Inr loads_bytes_def loads_dumps)

lemma canonical_json_inj:
  "wf_json v \<Longrightarrow> wf_json w \<Longrightarrow> canonical_json v = Inr b \<Longrightarrow> canonical_json w = Inr b \<Longrightarrow> norm v = norm w"
  by (metis Inr_inject canonical_json_roundtrip)

lemma canonical_json_naive:
  "naive t \<Longrightarrow> canonical_json (PDateTime t) = Inl (ValueError ''naive datetime is not canonical'')"
  by (simp add: canonical_json_def)

lemma filter_key_single:
  "distinct (map fst xs) \<Longrightarrow> k \<in> set xs \<Longrightarrow> [x\<leftarrow>xs. fst k = fst x] = [k]"
proof (induction xs)
  case (Cons x xs)
  have "fst k \<noteq> fst y" if "y \<in> set xs" "k = x" for y
    using Cons.prems that by (metis distinct.simps(2) imageI image_set list.simps(9))
  then show ?case using Cons by (auto simp: filter_empty_conv image_iff)
qed simp

lemma distinct_keys_mset: "mset kvs = mset kvs' \<Longrightarrow> distinct (map fst kvs) \<Longrightarrow> distinct (map fst kvs')"
  using mset_map mset_eq_imp_distinct_iff by metis

lemma dumps_norm_items_perm:
  assumes "distinct (map fst kvs)" "mset kvs = mset kvs'"
  shows "sort_key fst kvs' = sort_key fst kvs"
proof (rule properties_for_sort_key)
  show "mset (sort_key fst kvs) = mset kvs'" using assms(2) by simp
  show "sorted (map fst (sort_key fst kvs))" by simp
  fix k assume k: "k \<in> set (sort_key fst kvs)"
  then have "k \<in> set kvs'" using assms(2) by (metis mset_eq_setD set_sort)
  moreover have "distinct (map fst (sort_key fst kvs))"
    using distinct_keys_mset [OF _ assms(1)] by simp
  ultimately show "[x\<leftarrow>sort_key fst kvs. fst k = fst x] = [x\<leftarrow>kvs'. fst k = fst x]"
    using filter_key_single k distinct_keys_mset [OF assms(2,1)] by metis
qed

text \<open>The order in which a dict was built does not change its canonical bytes.\<close>

lemma dumps_dict_perm:
  assumes "distinct (map fst kvs)" "mset kvs = mset kvs'"
  shows "dumps a (PDict kvs) = dumps a (PDict kvs')"
  using dumps_norm_items_perm [OF assms, symmetric]
  by (simp add: join_dict_def dumps_items_map sort_map_key)

section \<open>Properties\<close>

text \<open>
  C10: Canonical JSON loses nothing: the bytes that \<open>canonical_json\<close> makes of a value are UTF-8 JSON
  which \<open>json.loads\<close> reads back as that value, with the keys of every object sorted and dates
  rendered as text.
\<close>

theorem canonical_json_reads_back:
  assumes "wf_json v" "canonical_json v = Inr b"
  shows "loads_bytes b = Inr (norm v)"
  using assms by (rule canonical_json_roundtrip)

definition sample_value :: pyval where
  "sample_value = PDict [(''b'', PList [PInt (-7), PNone, PBool True]), (''a'', PStr [CHR 0x22, CHR 0xE9, CHR 0x0A])]"

lemma canonical_json_reads_back_witness:
  "\<exists>b. canonical_json sample_value = Inr b \<and> loads_bytes b = Inr (norm sample_value)"
proof -
  have "succeeds (canonical_json sample_value)" by code_simp
  then obtain b where b: "canonical_json sample_value = Inr b" by (auto simp: succeeds_iff)
  moreover have "wf_json sample_value" by code_simp
  ultimately show ?thesis using canonical_json_reads_back by blast
qed

text \<open>
  Equal canonical bytes mean equal values: two values with the same canonical JSON have the same
  normal form, so a digest of the bytes identifies the contract.
\<close>

theorem canonical_json_injective:
  assumes "wf_json v" "wf_json w" "canonical_json v = Inr b" "canonical_json w = Inr b"
  shows "norm v = norm w"
  using assms by (rule canonical_json_inj)

lemma canonical_json_injective_witness:
  "norm (PDict [(''b'', PInt 1), (''a'', PInt 2)]) = norm (PDict [(''a'', PInt 2), (''b'', PInt 1)])"
proof -
  let ?b = "[CHR 0x7B, CHR 0x22, CHR ''a'', CHR 0x22, CHR '':'', CHR ''2'', CHR '','', CHR 0x22, CHR ''b'', CHR 0x22,
    CHR '':'', CHR ''1'', CHR 0x7D]"
  have "canonical_json (PDict [(''b'', PInt 1), (''a'', PInt 2)]) = Inr ?b" by code_simp
  moreover have "canonical_json (PDict [(''a'', PInt 2), (''b'', PInt 1)]) = Inr ?b" by code_simp
  ultimately show ?thesis by (intro canonical_json_injective [where b = ?b]) simp_all
qed

text \<open>
  The single-line sweep: what \<open>sweep_text\<close> returns has no control or format character (so no line
  break), is not empty, is not longer than the limit, starts and ends with a visible character, and
  sweeping it again changes nothing.
\<close>

theorem sweep_text_clean:
  assumes "sweep_text m t = Inr s"
  shows "list_all (\<lambda>c. \<not> swept_category c) s \<and> s \<noteq> [] \<and> length s \<le> m
    \<and> \<not> is_space (hd s) \<and> \<not> is_space (last s) \<and> sweep_text m s = Inr s"
  using swept_chars [OF assms] sweep_text_bounds [OF assms] sweep_text_idem [OF assms]
    strip_edges [of "map (\<lambda>c. if swept_category c then CHR '' '' else c) t"] assms
  by (auto simp: list_all_iff sweep_text_Inr)

lemma sweep_text_clean_witness:
  "sweep_text 20 [CHR 0x0A, CHR ''h'', CHR 0x07, CHR ''i'', CHR '' ''] = Inr ''h i'' \<and>
   sweep_text 20 ''h i'' = Inr ''h i''"
proof -
  have "sweep_text 20 [CHR 0x0A, CHR ''h'', CHR 0x07, CHR ''i'', CHR '' ''] = Inr ''h i''" by code_simp
  then show ?thesis using sweep_text_clean by blast
qed

text \<open>
  A signed room payload fixes what was signed: payloads that are equal have the same room, the
  same nonce and the same swept text, whatever characters the text contains.
\<close>

theorem room_payload_unambiguous:
  assumes "signed_room_payload r n t = Inr p" "signed_room_payload r' n' t' = Inr p"
  shows "r = r' \<and> n = n' \<and> sweep_text 4096 t = sweep_text 4096 t'"
  using assms by (rule room_payload_inj)

lemma room_payload_unambiguous_witness:
  "sweep_text 4096 ''a|b'' = sweep_text 4096 '' a|b ''"
proof -
  have "signed_room_payload ''lobby'' 5 ''a|b'' = Inr ''lobby|5|a|b''"
    "signed_room_payload ''lobby'' 5 '' a|b '' = Inr ''lobby|5|a|b''" by code_simp+
  then show ?thesis using room_payload_unambiguous by blast
qed

end
