(* ===== verification/Did.thy ===== *)
theory Did
  imports Canonical
begin

text \<open>
  \<open>rosetta_signer/did.py\<close>: base58btc and unpadded base64url, Ed25519 did:key
  identifiers, the two identities that can sign, signature verification and
  the three domain-separated digests.  SHA-256 and Ed25519 are compiled code
  outside the repository: they are the fields of the parameter \<open>crypto\<close>, and
  \<open>crypto_ok\<close> states what the code relies on.
\<close>

section \<open>Cryptography as a parameter\<close>

record crypto =
  c_sha256 :: "bytes \<Rightarrow> bytes"
  c_public :: "bytes \<Rightarrow> bytes"
  c_sign :: "bytes \<Rightarrow> bytes \<Rightarrow> bytes"
  c_verify :: "bytes \<Rightarrow> bytes \<Rightarrow> bytes \<Rightarrow> bool"

text \<open>
  Documented behaviour: SHA-256 digests have 32 bytes, public keys 32 and
  signatures 64, and a signature made with a private key verifies under its
  public key.
\<close>

definition crypto_ok :: "crypto \<Rightarrow> bool" where
  "crypto_ok C = ((\<forall>m. length (c_sha256 C m) = 32) \<and> (\<forall>k. length (c_public C k) = 32)
     \<and> (\<forall>k m. length (c_sign C k m) = 64) \<and> (\<forall>k m. c_verify C (c_public C k) (c_sign C k m) m))"

definition hex_of_bytes :: "bytes \<Rightarrow> string" where
  "hex_of_bytes bs = concat (map (\<lambda>c. [hex_digit (code c div 16), hex_digit (code c mod 16)]) bs)"

definition sha256_hex :: "crypto \<Rightarrow> bytes \<Rightarrow> string" where
  "sha256_hex C m = hex_of_bytes (c_sha256 C m)"

section \<open>base58btc\<close>

definition b58_alphabet :: string where
  "b58_alphabet = ''123456789ABCDEFGHJKLMNPQRSTUVWXYZabcdefghijkmnopqrstuvwxyz''"

definition from_bytes :: "bytes \<Rightarrow> nat" where
  "from_bytes bs = foldl (\<lambda>a c. 256 * a + code c) 0 bs"

fun to_bytes :: "nat \<Rightarrow> bytes" where
  "to_bytes n = (if n = 0 then [] else to_bytes (n div 256) @ [char_of (n mod 256)])"

fun b58_digits :: "nat \<Rightarrow> string" where
  "b58_digits n = (if n = 0 then [] else b58_digits (n div 58) @ [b58_alphabet ! (n mod 58)])"

declare to_bytes.simps [simp del] b58_digits.simps [simp del]

definition leading :: "char \<Rightarrow> string \<Rightarrow> nat" where
  "leading c s = length (takeWhile (\<lambda>x. x = c) s)"

definition b58encode :: "bytes \<Rightarrow> string" where
  "b58encode data = (let zeros = leading CHR 0x00 data; encoded = b58_digits (from_bytes data) in
     replicate zeros CHR ''1'' @ (if encoded \<noteq> [] then encoded else if zeros \<noteq> 0 then [] else ''1''))"

fun index_of :: "char \<Rightarrow> string \<Rightarrow> nat option" where
  "index_of c [] = None"
| "index_of c (x # xs) = (if x = c then Some 0 else map_option Suc (index_of c xs))"

fun b58_value :: "nat \<Rightarrow> string \<Rightarrow> nat result" where
  "b58_value a [] = Inr a"
| "b58_value a (c # cs) = (case index_of c b58_alphabet of
     None \<Rightarrow> Inl (ValueError ''invalid base58btc'') | Some i \<Rightarrow> b58_value (a * 58 + i) cs)"

definition b58decode :: "string \<Rightarrow> bytes result" where
  "b58decode value = bindE (b58_value 0 value) (\<lambda>number.
     Inr (replicate (leading CHR ''1'' value) CHR 0x00 @ to_bytes number))"

section \<open>base64url\<close>

definition b64_alphabet :: string where
  "b64_alphabet = ''ABCDEFGHIJKLMNOPQRSTUVWXYZabcdefghijklmnopqrstuvwxyz0123456789-_''"

definition b64_char :: "nat \<Rightarrow> char" where
  "b64_char i = b64_alphabet ! i"

text \<open>\<open>base64.urlsafe_b64encode\<close>\<close>

fun b64encode :: "bytes \<Rightarrow> string" where
  "b64encode [] = []"
| "b64encode [a] = [b64_char (code a div 4), b64_char (code a mod 4 * 16), CHR ''='', CHR ''='']"
| "b64encode [a, b] = [b64_char (code a div 4), b64_char (code a mod 4 * 16 + code b div 16),
     b64_char (code b mod 16 * 4), CHR ''='']"
| "b64encode (a # b # c # r) = b64_char (code a div 4) # b64_char (code a mod 4 * 16 + code b div 16)
     # b64_char (code b mod 16 * 4 + code c div 64) # b64_char (code c mod 64) # b64encode r"

definition base64url :: "bytes \<Rightarrow> string" where
  "base64url data = rev (dropWhile (\<lambda>c. c = CHR ''='') (rev (b64encode data)))"

text \<open>
  \<open>base64.urlsafe_b64decode\<close>: \<open>-\<close> and \<open>_\<close> are translated to \<open>+\<close> and \<open>/\<close>, both
  spellings are read, characters outside the alphabet are skipped, and a pad
  ends the input when it completes a group.  The state is the position in the
  group of four, the bits left over and the pads seen.
\<close>

definition b64_index :: "char \<Rightarrow> nat option" where
  "b64_index c = (if c = CHR ''+'' then Some 62 else if c = CHR ''/'' then Some 63
     else index_of c b64_alphabet)"

fun a2b_base64 :: "string \<Rightarrow> nat \<Rightarrow> nat \<Rightarrow> nat \<Rightarrow> bytes result" where
  "a2b_base64 [] q left pads = (if q = 0 then Inr []
     else if q = 1 then Inl (ValueError ''Invalid base64-encoded string'')
     else Inl (ValueError ''Incorrect padding''))"
| "a2b_base64 (c # cs) q left pads =
     (if c = CHR ''='' then
        (if 2 \<le> q then (if 4 \<le> q + Suc pads then Inr [] else a2b_base64 cs q left (Suc pads))
         else a2b_base64 cs q left pads)
      else (case b64_index c of None \<Rightarrow> a2b_base64 cs q left pads
        | Some v \<Rightarrow>
          if q = 0 then a2b_base64 cs 1 v 0
          else if q = 1 then bindE (a2b_base64 cs 2 (v mod 16) 0) (\<lambda>r. Inr (char_of (left * 4 + v div 16) # r))
          else if q = 2 then bindE (a2b_base64 cs 3 (v mod 4) 0) (\<lambda>r. Inr (char_of (left * 16 + v div 4) # r))
          else bindE (a2b_base64 cs 0 0 0) (\<lambda>r. Inr (char_of (left * 64 + v) # r))))"

definition base64url_decode :: "string \<Rightarrow> bytes result" where
  "base64url_decode value =
     raise_if (CHR ''='' \<in> set value) (ValueError ''padding is forbidden'')
     (raise_if (\<not> is_ascii value) (ValueError ''string argument should contain only ASCII characters'')
     (a2b_base64 (value @ replicate ((4 - length value mod 4) mod 4) CHR ''='') 0 0 0))"

section \<open>did:key\<close>

definition ed25519_multicodec :: bytes where
  "ed25519_multicodec = [CHR 0xED, CHR 0x01]"

definition did_prefix :: string where "did_prefix = ''did:key:z''"

definition did_from_public_key :: "bytes \<Rightarrow> string result" where
  "did_from_public_key public_key =
     raise_if (length public_key \<noteq> 32) (ValueError ''Ed25519 public key must be 32 bytes'')
     (Inr (did_prefix @ b58encode (ed25519_multicodec @ public_key)))"

text \<open>
  The key object is its 32 bytes: \<open>from_public_bytes\<close> accepts every string of
  that length.
\<close>

definition public_key_from_did :: "string \<Rightarrow> bytes result" where
  "public_key_from_did did =
     raise_if (\<not> starts_with did_prefix did) (ValueError ''unsupported DID'')
     (bindE (b58decode (drop (length did_prefix) did)) (\<lambda>decoded.
       raise_if (\<not> starts_with ed25519_multicodec decoded \<or> length decoded \<noteq> 34)
         (ValueError ''DID is not an Ed25519 did:key'')
       (Inr (drop 2 decoded))))"

definition did_fingerprint :: "crypto \<Rightarrow> string \<Rightarrow> string" where
  "did_fingerprint C did = take 16 (sha256_hex C (utf8 did))"

definition verify_signature :: "crypto \<Rightarrow> string \<Rightarrow> bytes \<Rightarrow> string \<Rightarrow> bool" where
  "verify_signature C did payload signature =
     (case base64url_decode signature of Inl _ \<Rightarrow> False
      | Inr raw \<Rightarrow>
        if length raw \<noteq> 64 \<or> length signature \<noteq> 86 then False
        else (case public_key_from_did did of Inl _ \<Rightarrow> False
          | Inr key \<Rightarrow> c_verify C key raw payload))"

section \<open>Identities\<close>

record identity =
  id_private :: bytes
  id_did :: string

definition identity_of_private :: "crypto \<Rightarrow> bytes \<Rightarrow> identity result" where
  "identity_of_private C key = bindE (did_from_public_key (c_public C key)) (\<lambda>did.
     Inr \<lparr>id_private = key, id_did = did\<rparr>)"

definition identity_sign :: "crypto \<Rightarrow> identity \<Rightarrow> bytes \<Rightarrow> string" where
  "identity_sign C i payload = base64url (c_sign C (id_private i) payload)"

definition synthetic_identity :: "crypto \<Rightarrow> string \<Rightarrow> identity result" where
  "synthetic_identity C fixture_id =
     raise_if (\<not> starts_with ''synthetic-'' fixture_id)
       (ValueError ''only explicitly synthetic fixture identities are allowed'')
     (identity_of_private C (c_sha256 C (utf8 ''rosetta.synthetic.identity.v1'' @ [CHR 0x00] @ utf8 fixture_id)))"

text \<open>
  What \<open>os.open\<close>, \<open>os.fstat\<close> and \<open>os.read\<close> report of the seed file; a symbolic
  link fails at \<open>open\<close> (\<open>O_NOFOLLOW\<close>).
\<close>

record seed_file =
  sf_symlink :: bool
  sf_regular :: bool
  sf_uid :: nat
  sf_mode :: nat
  sf_content :: bytes

text \<open>\<open>S_IMODE(mode) & 0o077\<close>: the six low permission bits.\<close>

definition seed_file_identity :: "crypto \<Rightarrow> nat \<Rightarrow> seed_file \<Rightarrow> identity result" where
  "seed_file_identity C euid f =
     raise_if (sf_symlink f) (OSError ''too many levels of symbolic links'')
     (raise_if (\<not> sf_regular f) (ValueError ''seed file must be regular'')
     (raise_if (sf_uid f \<noteq> euid) (ValueError ''seed file must be owned by signer user'')
     (raise_if (sf_mode f mod 64 \<noteq> 0) (ValueError ''seed file permissions are too broad'')
     (let seed = take 33 (sf_content f) in
      raise_if (length seed \<noteq> 32) (ValueError ''seed file must contain exactly 32 raw bytes'')
      (identity_of_private C seed)))))"

section \<open>Domain-separated digests\<close>

definition artifact_domain :: bytes where "artifact_domain = ''rosetta.artifact.v1'' @ [CHR 0x00]"
definition service_domain :: bytes where "service_domain = ''rosetta.service-document.v1'' @ [CHR 0x00]"
definition evolution_domain :: bytes where "evolution_domain = ''rosetta.evolution-proposal.v1'' @ [CHR 0x00]"

definition artifact_payload :: "string \<Rightarrow> bytes result" where
  "artifact_payload digest =
     raise_if (\<not> starts_with ''sha256:'' digest \<or> length digest \<noteq> 71)
       (ValueError ''artifact digest must be sha256:<64 lowercase hex>'')
     (raise_if (\<not> list_all is_lower_hex (drop 7 digest))
       (ValueError ''artifact digest must be lowercase hexadecimal'')
     (Inr (artifact_domain @ digest)))"

definition service_document_payload :: "string \<Rightarrow> bytes result" where
  "service_document_payload digest =
     bindE (artifact_payload digest) (\<lambda>_. Inr (service_domain @ digest))"

definition evolution_proposal_payload :: "string \<Rightarrow> bytes result" where
  "evolution_proposal_payload digest =
     bindE (artifact_payload digest) (\<lambda>_. Inr (evolution_domain @ digest))"

section \<open>base58 round trip\<close>

lemma from_bytes_snoc: "from_bytes (bs @ [c]) = 256 * from_bytes bs + code c"
  by (simp add: from_bytes_def)

lemma from_bytes_to_bytes: "from_bytes (to_bytes n) = n"
proof (induction n rule: to_bytes.induct)
  case (1 n)
  show ?case
  proof (cases "n = 0")
    case True
    then show ?thesis by (simp add: to_bytes.simps from_bytes_def)
  next
    case False
    then show ?thesis using 1 by (subst to_bytes.simps) (simp add: from_bytes_snoc)
  qed
qed

lemma to_bytes_from_bytes:
  "(bs = [] \<or> hd bs \<noteq> CHR 0x00) \<Longrightarrow> to_bytes (from_bytes bs) = bs"
proof (induction bs rule: rev_induct)
  case Nil
  then show ?case by (simp add: from_bytes_def to_bytes.simps)
next
  case (snoc c bs)
  have IH: "to_bytes (from_bytes bs) = bs" using snoc by (cases bs) auto
  have "from_bytes (bs @ [c]) \<noteq> 0"
  proof (cases "bs = []")
    case True
    then have "c \<noteq> CHR 0x00" using snoc.prems by simp
    then have "code c \<noteq> 0" using code_inj [of c "CHR 0x00"] by (simp add: code_def)
    then show ?thesis by (simp add: from_bytes_snoc)
  next
    case False
    then have "from_bytes bs \<noteq> 0" using IH by (metis to_bytes.simps)
    then show ?thesis by (simp add: from_bytes_snoc)
  qed
  then show ?case using IH by (subst to_bytes.simps) (simp add: from_bytes_snoc)
qed

lemma length_b58_alphabet: "length b58_alphabet = 58"
  by (simp add: b58_alphabet_def)

lemma distinct_b58_alphabet: "distinct b58_alphabet"
  by (simp add: b58_alphabet_def)

lemma index_of_nth: "distinct xs \<Longrightarrow> i < length xs \<Longrightarrow> index_of (xs ! i) xs = Some i"
  by (induction xs arbitrary: i) (auto simp: nth_Cons split: nat.splits)

lemma b58_value_snoc:
  "b58_value a (s @ [c]) = bindE (b58_value a s) (\<lambda>n. b58_value n [c])"
  by (induction s arbitrary: a) (auto split: option.splits)

lemma b58_value_digits: "b58_value 0 (b58_digits n) = Inr n"
proof (induction n rule: b58_digits.induct)
  case (1 n)
  show ?case
  proof (cases "n = 0")
    case True
    then show ?thesis by (simp add: b58_digits.simps)
  next
    case False
    have "index_of (b58_alphabet ! (n mod 58)) b58_alphabet = Some (n mod 58)"
      by (rule index_of_nth) (simp_all add: length_b58_alphabet distinct_b58_alphabet)
    then show ?thesis using 1 False by (subst b58_digits.simps) (simp add: b58_value_snoc)
  qed
qed

lemma b58_value_ones: "b58_value 0 (replicate k CHR ''1'' @ s) = b58_value 0 s"
  by (induction k) (simp_all add: b58_alphabet_def)

lemma b58_digits_hd: "0 < n \<Longrightarrow> b58_digits n \<noteq> [] \<and> hd (b58_digits n) \<noteq> CHR ''1''"
proof (induction n rule: b58_digits.induct)
  case (1 n)
  show ?case
  proof (cases "n div 58 = 0")
    case True
    then have "b58_digits n = [b58_alphabet ! n]" using 1(2)
      by (subst b58_digits.simps) (simp add: b58_digits.simps [of 0])
    moreover have "b58_alphabet ! n \<noteq> b58_alphabet ! 0"
      using True 1(2) by (simp add: nth_eq_iff_index_eq [OF distinct_b58_alphabet] length_b58_alphabet)
    ultimately show ?thesis by (simp add: b58_alphabet_def)
  next
    case False
    then show ?thesis using 1 by (simp add: b58_digits.simps [of n] hd_append)
  qed
qed

lemma leading_split:
  "s = replicate (leading c s) c @ dropWhile (\<lambda>x. x = c) s"
proof -
  have "takeWhile (\<lambda>x. x = c) s = replicate (leading c s) c"
    unfolding leading_def by (induction s) auto
  then show ?thesis by (metis takeWhile_dropWhile_id)
qed

lemma leading_replicate:
  "(s = [] \<or> hd s \<noteq> c) \<Longrightarrow> leading c (replicate k c @ s) = k"
  unfolding leading_def by (induction k) (auto simp: takeWhile_eq_Nil_iff)

lemma from_bytes_zeros: "from_bytes (replicate k CHR 0x00 @ bs) = from_bytes bs"
proof -
  have z: "code CHR 0x00 = 0" by (simp add: code_def)
  show ?thesis unfolding from_bytes_def by (induction k) (simp_all add: z)
qed

lemma b58_choice:
  "(d \<noteq> [] \<Longrightarrow> e \<noteq> []) \<Longrightarrow> (d = [] \<Longrightarrow> z \<noteq> 0) \<Longrightarrow>
   r @ (if e \<noteq> [] then e else if z \<noteq> (0::nat) then [] else x) = r @ (e :: string)"
  by (cases "d = []"; cases "e = []") simp_all

lemma b58decode_encode:
  assumes "data \<noteq> []"
  shows "b58decode (b58encode data) = Inr data"
proof -
  obtain z d where data: "data = replicate z CHR 0x00 @ d" and d: "d = [] \<or> hd d \<noteq> CHR 0x00"
  proof (rule that)
    show "data = replicate (leading CHR 0x00 data) CHR 0x00 @ dropWhile (\<lambda>x. x = CHR 0x00) data"
      by (rule leading_split)
    show "dropWhile (\<lambda>x. x = CHR 0x00) data = [] \<or> hd (dropWhile (\<lambda>x. x = CHR 0x00) data) \<noteq> CHR 0x00"
      using hd_dropWhile by blast
  qed
  have lead: "leading CHR 0x00 data = z" and num: "from_bytes data = from_bytes d"
    using d by (simp_all add: data leading_replicate from_bytes_zeros)
  have "d \<noteq> [] \<Longrightarrow> 0 < from_bytes d"
    using to_bytes_from_bytes [OF d] by (metis gr0I to_bytes.simps)
  then have dig: "d \<noteq> [] \<Longrightarrow> b58_digits (from_bytes d) \<noteq> []" using b58_digits_hd by blast
  have z: "d = [] \<Longrightarrow> z \<noteq> 0" using data assms by auto
  have enc: "b58encode data = replicate z CHR ''1'' @ b58_digits (from_bytes d)"
    unfolding b58encode_def Let_def num lead by (rule b58_choice [OF dig z])
  have "b58_digits (from_bytes d) = [] \<or> hd (b58_digits (from_bytes d)) \<noteq> CHR ''1''"
    using b58_digits_hd by (cases "from_bytes d = 0") (auto simp: b58_digits.simps)
  then have "leading CHR ''1'' (b58encode data) = z" by (simp add: enc leading_replicate)
  moreover have "b58_value 0 (b58encode data) = Inr (from_bytes d)"
    by (simp add: enc b58_value_ones b58_value_digits)
  ultimately have "b58decode (b58encode data) = Inr (replicate z CHR 0x00 @ d)"
    by (simp add: b58decode_def to_bytes_from_bytes [OF d])
  then show ?thesis by (simp only: data [symmetric])
qed

section \<open>base64url round trip\<close>

lemma b64_index_char:
  assumes "i < 64"
  shows "b64_index (b64_char i) = Some i" "b64_char i \<noteq> CHR ''=''" "code (b64_char i) < 128"
proof -
  have all: "list_all (\<lambda>i. b64_index (b64_char i) = Some i \<and> b64_char i \<noteq> CHR ''='' \<and> code (b64_char i) < 128)
      [0..<64]"
    by code_simp
  have "i \<in> set [0..<64]" using assms by simp
  with all show "b64_index (b64_char i) = Some i" "b64_char i \<noteq> CHR ''=''" "code (b64_char i) < 128"
    unfolding list_all_iff by blast+
qed

text \<open>The encoder without its padding.\<close>

fun b64_unpadded :: "bytes \<Rightarrow> string" where
  "b64_unpadded [] = []"
| "b64_unpadded [a] = [b64_char (code a div 4), b64_char (code a mod 4 * 16)]"
| "b64_unpadded [a, b] = [b64_char (code a div 4), b64_char (code a mod 4 * 16 + code b div 16),
     b64_char (code b mod 16 * 4)]"
| "b64_unpadded (a # b # c # r) = b64_char (code a div 4) # b64_char (code a mod 4 * 16 + code b div 16)
     # b64_char (code b mod 16 * 4 + code c div 64) # b64_char (code c mod 64) # b64_unpadded r"

lemma b64_bounds:
  "code a div 4 < 64" "code a mod 4 * 16 < 64" "code a mod 16 * 4 < 64" "code a mod 64 < 64"
  "code a mod 4 * 16 + code b div 16 < 64" "code a mod 16 * 4 + code b div 64 < 64"
  using code_less [of a] code_less [of b] by linarith+

lemma b64_unpadded_chars: "c \<in> set (b64_unpadded d) \<Longrightarrow> c \<noteq> CHR ''='' \<and> code c < 128"
  by (induction d rule: b64_unpadded.induct) (auto simp: b64_index_char b64_bounds)

lemma b64encode_pad: "b64encode d = b64_unpadded d @ replicate ((4 - length (b64_unpadded d) mod 4) mod 4) CHR ''=''"
  by (induction d rule: b64_unpadded.induct) (simp_all add: numeral_2_eq_2)

lemma base64url_unpadded: "base64url d = b64_unpadded d"
proof -
  have "dropWhile (\<lambda>c. c = CHR ''='') (rev (b64_unpadded d)) = rev (b64_unpadded d)"
    using b64_unpadded_chars [of "hd (rev (b64_unpadded d))" d] hd_in_set [of "rev (b64_unpadded d)"]
    by (auto simp: dropWhile_eq_self_iff)
  moreover have "dropWhile (\<lambda>c. c = CHR ''='') (replicate k CHR ''='' @ xs) = dropWhile (\<lambda>c. c = CHR ''='') xs" for k xs
    by (induction k) auto
  ultimately show ?thesis unfolding base64url_def b64encode_pad by simp
qed

lemma b64_arith [simp]:
  "code a div 16 div 16 = 0" "code a div 64 div 4 = 0"
  "code a div 16 mod 16 = code a div 16" "code a div 64 mod 4 = code a div 64"
  using code_less [of a] by (simp_all add: less_mult_imp_div_less div_mult2_eq [symmetric])

lemma a2b_b64encode: "a2b_base64 (b64encode d) 0 0 0 = Inr d"
  by (induction d rule: b64encode.induct)
    (simp_all add: b64_index_char b64_bounds)

lemma base64url_roundtrip: "base64url_decode (base64url d) = Inr d"
proof -
  have "CHR ''='' \<notin> set (base64url d)" "is_ascii (base64url d)"
    using b64_unpadded_chars [of _ d] by (auto simp: base64url_unpadded is_ascii_def list_all_iff)
  then show ?thesis
    using a2b_b64encode [of d] unfolding b64encode_pad base64url_unpadded [symmetric]
    by (simp add: base64url_decode_def)
qed

lemma length_base64url: "length (base64url d) = (4 * length d + 2) div 3"
  unfolding base64url_unpadded
  by (induction d rule: b64_unpadded.induct) simp_all

section \<open>Identifiers and signatures\<close>

lemma public_key_roundtrip:
  assumes "did_from_public_key k = Inr d"
  shows "public_key_from_did d = Inr k"
proof -
  have "length k = 32" and d: "d = did_prefix @ b58encode (ed25519_multicodec @ k)"
    using assms by (auto simp: did_from_public_key_def)
  moreover have "b58decode (b58encode (ed25519_multicodec @ k)) = Inr (ed25519_multicodec @ k)"
    by (rule b58decode_encode) (simp add: ed25519_multicodec_def)
  ultimately show ?thesis
    by (simp add: public_key_from_did_def) (simp add: ed25519_multicodec_def)
qed

lemma did_from_public_key_inj:
  "did_from_public_key k = Inr d \<Longrightarrow> did_from_public_key k' = Inr d \<Longrightarrow> k = k'"
  by (metis Inr_inject public_key_roundtrip)

lemma identity_verifies:
  assumes "crypto_ok C" "identity_of_private C key = Inr i"
  shows "verify_signature C (id_did i) p (identity_sign C i p)"
proof -
  have i: "did_from_public_key (c_public C key) = Inr (id_did i)" "id_private i = key"
    using assms(2) by (auto simp: identity_of_private_def)
  have len: "length (c_sign C key p) = 64" using assms(1) by (simp add: crypto_ok_def)
  show ?thesis using assms(1) public_key_roundtrip [OF i(1)]
    by (simp add: verify_signature_def identity_sign_def i(2) base64url_roundtrip length_base64url len crypto_ok_def)
qed

lemma length_hex_of_bytes: "length (hex_of_bytes bs) = 2 * length bs"
  unfolding hex_of_bytes_def by (induction bs) auto

lemma hex_digit_lower: "n < 16 \<Longrightarrow> is_lower_hex (hex_digit n)"
proof -
  assume "n < 16"
  have "list_all (\<lambda>n. is_lower_hex (hex_digit n)) [0..<16]" by code_simp
  then show ?thesis using \<open>n < 16\<close> by (auto simp: list_all_iff)
qed

lemma hex_of_bytes_lower: "list_all is_lower_hex (hex_of_bytes bs)"
  unfolding hex_of_bytes_def list_all_iff
  by (auto intro!: hex_digit_lower simp: less_mult_imp_div_less)

lemma sha256_hex_lower: "crypto_ok C \<Longrightarrow> lower_hex 64 (sha256_hex C m)"
  by (simp add: lower_hex_def sha256_hex_def length_hex_of_bytes hex_of_bytes_lower crypto_ok_def)

lemma artifact_payload_Inr:
  "artifact_payload d = Inr p \<longleftrightarrow> (\<exists>h. d = ''sha256:'' @ h \<and> lower_hex 64 h \<and> p = artifact_domain @ d)"
  by (auto simp: artifact_payload_def starts_with_iff lower_hex_def)

lemma artifact_payload_sha: "crypto_ok C \<Longrightarrow> succeeds (artifact_payload (''sha256:'' @ sha256_hex C m))"
  using sha256_hex_lower [of C m] by (simp add: succeeds_iff artifact_payload_Inr)

section \<open>Properties\<close>

text \<open>
  base58btc round trip: decoding what \<open>b58encode\<close> made of a non-empty byte string gives the
  bytes back, leading zero bytes included.
\<close>

theorem b58_roundtrip:
  assumes "data \<noteq> []"
  shows "b58decode (b58encode data) = Inr data"
  using assms by (rule b58decode_encode)

lemma b58_roundtrip_witness: "b58decode (b58encode [CHR 0x00, CHR 0x00, CHR 0xFF]) = Inr [CHR 0x00, CHR 0x00, CHR 0xFF]"
  by (rule b58_roundtrip) simp

text \<open>
  C11: A did:key names one Ed25519 key: the key read from the identifier made of a public key is that
  key.
\<close>

theorem did_names_key:
  assumes "did_from_public_key k = Inr d"
  shows "public_key_from_did d = Inr k"
  using assms by (rule public_key_roundtrip)

definition demo_crypto :: crypto where
  "demo_crypto = \<lparr>c_sha256 = (\<lambda>m. take 32 (m @ replicate 32 CHR 0x07)),
     c_public = (\<lambda>k. take 32 (k @ replicate 32 CHR 0x09)),
     c_sign = (\<lambda>k m. take 64 (m @ replicate 64 CHR 0x05)),
     c_verify = (\<lambda>k s m. s = take 64 (m @ replicate 64 CHR 0x05))\<rparr>"

lemma demo_crypto_ok: "crypto_ok demo_crypto"
  by (auto simp: crypto_ok_def demo_crypto_def min_def)

lemma did_names_key_witness:
  "\<exists>d. did_from_public_key (replicate 32 CHR ''k'') = Inr d \<and> public_key_from_did d = Inr (replicate 32 CHR ''k'')"
proof -
  have "did_from_public_key (replicate 32 CHR ''k'') = Inr (did_prefix @ b58encode (ed25519_multicodec @ replicate 32 CHR ''k''))"
    by (simp add: did_from_public_key_def)
  then show ?thesis using did_names_key by blast
qed

text \<open>
  base64url round trip: the unpadded text of any bytes is decoded to those bytes by the same
  routine that reads signatures.
\<close>

theorem base64url_reads_back: "base64url_decode (base64url d) = Inr d"
  by (rule base64url_roundtrip)

text \<open>
  A seed file gives a signing identity only when it is a regular file, not a symbolic link, owned
  by the signer, without group or other permissions and of exactly 32 bytes; the identity then signs
  with those bytes.
\<close>

theorem seed_file_strict:
  assumes "seed_file_identity C euid f = Inr i"
  shows "\<not> sf_symlink f \<and> sf_regular f \<and> sf_uid f = euid \<and> sf_mode f mod 64 = 0
    \<and> length (sf_content f) = 32 \<and> id_private i = sf_content f"
  using assms
  by (auto simp: seed_file_identity_def identity_of_private_def Let_def min_def split: if_splits)

lemma seed_file_strict_witness:
  "\<exists>i. seed_file_identity demo_crypto 1000
     \<lparr>sf_symlink = False, sf_regular = True, sf_uid = 1000, sf_mode = 384, sf_content = replicate 32 CHR ''s''\<rparr> = Inr i
   \<and> id_private i = replicate 32 CHR ''s''"
proof -
  let ?f = "\<lparr>sf_symlink = False, sf_regular = True, sf_uid = 1000, sf_mode = 384, sf_content = replicate 32 CHR ''s''\<rparr>"
  have "\<exists>i. seed_file_identity demo_crypto 1000 ?f = Inr i"
    by (simp add: seed_file_identity_def identity_of_private_def did_from_public_key_def demo_crypto_def Let_def)
  then obtain i where i: "seed_file_identity demo_crypto 1000 ?f = Inr i" by blast
  show ?thesis using seed_file_strict [OF i] i by auto
qed

end
