(* ===== verification/Contracts.thy ===== *)
theory Contracts
  imports Did
begin

text \<open>
  \<open>rosetta/contracts.py\<close>: the closed data contracts as records, what building
  one from untrusted data checks, and the dictionaries that \<open>dict()\<close> makes of
  them.  Pydantic is third-party code: its lenient conversions are the fields
  of the parameter \<open>pydantic\<close>; the declared fields, their strict types, the
  refusal of unknown fields and the validators are written out here.  Every
  failed check is one \<open>ValidationError\<close>.
\<close>

section \<open>Field checks\<close>

record pydantic =
  pyd_dict :: "pyval \<Rightarrow> (string \<times> pyval) list option"
  pyd_datetime :: "pyval \<Rightarrow> datetime option"
  pyd_url :: "string \<Rightarrow> bool"
  pyd_bool :: "pyval \<Rightarrow> bool option"

definition invalid :: "'a result" where
  "invalid = Inl (ValidationError ''validation error'')"

definition check :: "bool \<Rightarrow> 'a result \<Rightarrow> 'a result" where
  "check b k = (if b then k else invalid)"

text \<open>\<open>parse_obj\<close> takes a dict; what else it accepts is pydantic's choice.\<close>

definition as_dict :: "pydantic \<Rightarrow> pyval \<Rightarrow> (string \<times> pyval) list result" where
  "as_dict P v = (case v of PDict kvs \<Rightarrow> Inr kvs
     | _ \<Rightarrow> (case pyd_dict P v of None \<Rightarrow> invalid | Some kvs \<Rightarrow> Inr kvs))"

definition strict_str :: "pyval option \<Rightarrow> string result" where
  "strict_str v = (case v of Some (PStr s) \<Rightarrow> Inr s | _ \<Rightarrow> invalid)"

definition strict_int :: "pyval option \<Rightarrow> int result" where
  "strict_int v = (case v of Some (PInt i) \<Rightarrow> Inr i | _ \<Rightarrow> invalid)"

definition optional :: "(pyval option \<Rightarrow> 'a result) \<Rightarrow> pyval option \<Rightarrow> 'a option result" where
  "optional f v = (case v of None \<Rightarrow> Inr None | Some PNone \<Rightarrow> Inr None
     | Some w \<Rightarrow> bindE (f (Some w)) (\<lambda>a. Inr (Some a)))"

definition literal :: "string list \<Rightarrow> pyval option \<Rightarrow> string result" where
  "literal allowed v = (case v of Some (PStr s) \<Rightarrow> (if s \<in> set allowed then Inr s else invalid) | _ \<Rightarrow> invalid)"

definition str_list :: "pyval option \<Rightarrow> string list result" where
  "str_list v = (case v of Some (PList vs) \<Rightarrow> mapE (\<lambda>w. strict_str (Some w)) vs | _ \<Rightarrow> invalid)"

definition a_datetime :: "pydantic \<Rightarrow> pyval option \<Rightarrow> datetime result" where
  "a_datetime P v = (case v of None \<Rightarrow> invalid
     | Some w \<Rightarrow> (case pyd_datetime P w of None \<Rightarrow> invalid | Some t \<Rightarrow> Inr t))"

text \<open>
  The schema field is read under its alias \<open>schema\<close> first, then under its name
  \<open>schema_\<close>; \<open>extra = "forbid"\<close> refuses every key that no field has used.
\<close>

definition schema_field :: "(string \<times> pyval) list \<Rightarrow> string \<times> pyval option" where
  "schema_field kvs = (case map_of kvs ''schema'' of Some v \<Rightarrow> (''schema'', Some v)
     | None \<Rightarrow> (case map_of kvs ''schema_'' of Some v \<Rightarrow> (''schema_'', Some v) | None \<Rightarrow> (''schema'', None)))"

definition closed_fields :: "string list \<Rightarrow> string \<Rightarrow> bool \<Rightarrow> (string \<times> pyval) list \<Rightarrow> bool" where
  "closed_fields names schema required kvs =
     (list_all (\<lambda>(k, _). k \<in> set (fst (schema_field kvs) # names)) kvs \<and>
      (case snd (schema_field kvs) of None \<Rightarrow> \<not> required | Some v \<Rightarrow> v = PStr schema))"

section \<open>Enumerations\<close>

datatype outcome = OPass | OFail | OSkip | OError

fun outcome_text :: "outcome \<Rightarrow> string" where
  "outcome_text OPass = ''pass''"
| "outcome_text OFail = ''fail''"
| "outcome_text OSkip = ''skip''"
| "outcome_text OError = ''error''"

datatype reason_code = ROk | RUnsupportedCapability | RInvalidSchema | RInvalidSignature
  | RCanonicalPayloadMismatch | RCorrelationMismatch | RDuplicateSuccess | RCursorResumeFailed
  | RRateLimitExhausted | RUncertainWriteUnresolved | RInfrastructureFailure | RUnallowlistedAdapter
  | RUnsupportedProfile | RExpired | RQuotaExceeded | RBusy | RDuplicateConflict | RInvalidReplyRoom
  | RUnsigned | RKillSwitchActive | ROriginNotAllowed

fun reason_text :: "reason_code \<Rightarrow> string" where
  "reason_text ROk = ''ok''"
| "reason_text RUnsupportedCapability = ''unsupported_capability''"
| "reason_text RInvalidSchema = ''invalid_schema''"
| "reason_text RInvalidSignature = ''invalid_signature''"
| "reason_text RCanonicalPayloadMismatch = ''canonical_payload_mismatch''"
| "reason_text RCorrelationMismatch = ''correlation_mismatch''"
| "reason_text RDuplicateSuccess = ''duplicate_success''"
| "reason_text RCursorResumeFailed = ''cursor_resume_failed''"
| "reason_text RRateLimitExhausted = ''rate_limit_exhausted''"
| "reason_text RUncertainWriteUnresolved = ''uncertain_write_unresolved''"
| "reason_text RInfrastructureFailure = ''infrastructure_failure''"
| "reason_text RUnallowlistedAdapter = ''unallowlisted_adapter''"
| "reason_text RUnsupportedProfile = ''unsupported_profile''"
| "reason_text RExpired = ''expired''"
| "reason_text RQuotaExceeded = ''quota_exceeded''"
| "reason_text RBusy = ''busy''"
| "reason_text RDuplicateConflict = ''duplicate_conflict''"
| "reason_text RInvalidReplyRoom = ''invalid_reply_room''"
| "reason_text RUnsigned = ''unsigned''"
| "reason_text RKillSwitchActive = ''kill_switch_active''"
| "reason_text ROriginNotAllowed = ''origin_not_allowed''"

section \<open>Adapter manifests and scenarios\<close>

definition immutable_digest :: "string \<Rightarrow> bool" where
  "immutable_digest d = (starts_with ''sha256:'' d \<and> lower_hex 64 (remove_prefix ''sha256:'' d))"

record adapter_manifest =
  am_id :: string
  am_runtime :: string
  am_source_repository :: string
  am_source_revision_kind :: string
  am_source_revision :: string
  am_wrapper_revision :: "string option"
  am_dependency_lock :: string
  am_image :: string
  am_image_digest :: string
  am_transport :: string
  am_capabilities :: "string list"

definition manifest_fields :: "string list" where
  "manifest_fields = [''id'', ''runtime'', ''source_repository'', ''source_revision_kind'', ''source_revision'',
     ''wrapper_revision_sha256'', ''dependency_lock_sha256'', ''image'', ''image_digest'', ''transport'',
     ''capabilities'']"

definition valid_manifest :: "adapter_manifest \<Rightarrow> bool" where
  "valid_manifest m =
     (am_source_revision_kind m \<in> {''git_commit'', ''tree_sha256''} \<and>
      lower_hex (if am_source_revision_kind m = ''git_commit'' then 40 else 64) (am_source_revision m) \<and>
      lower_hex 64 (am_dependency_lock m) \<and>
      (case am_wrapper_revision m of None \<Rightarrow> True | Some w \<Rightarrow> lower_hex 64 w) \<and>
      immutable_digest (am_image_digest m))"

definition parse_manifest :: "pydantic \<Rightarrow> pyval \<Rightarrow> adapter_manifest result" where
  "parse_manifest P v = bindE (as_dict P v) (\<lambda>kvs. let f = map_of kvs in
     check (list_all (\<lambda>(k, _). k \<in> set manifest_fields) kvs)
     (bindE (strict_str (f ''id'')) (\<lambda>i. bindE (strict_str (f ''runtime'')) (\<lambda>rt.
      bindE (strict_str (f ''source_repository'')) (\<lambda>repo.
      bindE (literal [''git_commit'', ''tree_sha256''] (f ''source_revision_kind'')) (\<lambda>kind.
      bindE (strict_str (f ''source_revision'')) (\<lambda>rev.
      bindE (optional strict_str (f ''wrapper_revision_sha256'')) (\<lambda>w.
      bindE (strict_str (f ''dependency_lock_sha256'')) (\<lambda>lock.
      bindE (strict_str (f ''image'')) (\<lambda>im. bindE (strict_str (f ''image_digest'')) (\<lambda>dg.
      bindE (strict_str (f ''transport'')) (\<lambda>tr. bindE (str_list (f ''capabilities'')) (\<lambda>caps.
      let m = \<lparr>am_id = i, am_runtime = rt, am_source_repository = repo, am_source_revision_kind = kind,
               am_source_revision = rev, am_wrapper_revision = w, am_dependency_lock = lock, am_image = im,
               am_image_digest = dg, am_transport = tr, am_capabilities = caps\<rparr> in
      check (valid_manifest m) (Inr m))))))))))))))"

definition parse_registry_contract :: "pydantic \<Rightarrow> pyval \<Rightarrow> adapter_manifest list result" where
  "parse_registry_contract P v = bindE (as_dict P v) (\<lambda>kvs.
     check (closed_fields [''adapters''] ''rosetta.adapter-registry.v1'' True kvs)
     (case map_of kvs ''adapters'' of Some (PList ms) \<Rightarrow> mapE (parse_manifest P) ms | _ \<Rightarrow> invalid))"

record scenario_contract =
  sc_id :: string
  sc_version :: int
  sc_required :: "string list"
  sc_assertions :: "string list"
  sc_faults :: "(string \<times> bool) list"

definition str_bool_dict :: "pydantic \<Rightarrow> pyval option \<Rightarrow> (string \<times> bool) list result" where
  "str_bool_dict P v = (case v of Some (PDict kvs) \<Rightarrow>
       mapE (\<lambda>(k, w). case pyd_bool P w of None \<Rightarrow> invalid | Some b \<Rightarrow> Inr (k, b)) kvs
     | _ \<Rightarrow> invalid)"

definition parse_scenario :: "pydantic \<Rightarrow> pyval \<Rightarrow> scenario_contract result" where
  "parse_scenario P v = bindE (as_dict P v) (\<lambda>kvs. let f = map_of kvs in
     check (closed_fields [''id'', ''version'', ''required_capabilities'', ''assertions'', ''faults'']
              ''rosetta.scenario.v1'' True kvs)
     (bindE (literal [''signed-mailbox-roundtrip-v1''] (f ''id'')) (\<lambda>i.
      bindE (strict_int (f ''version'')) (\<lambda>ver.
      bindE (str_list (f ''required_capabilities'')) (\<lambda>req.
      bindE (str_list (f ''assertions'')) (\<lambda>asl.
      bindE (str_bool_dict P (f ''faults'')) (\<lambda>fs.
      Inr \<lparr>sc_id = i, sc_version = ver, sc_required = req, sc_assertions = asl, sc_faults = fs\<rparr>)))))))"

section \<open>Results and evidence\<close>

record assertion_result =
  ar_name :: string
  ar_passed :: bool
  ar_reason :: reason_code
  ar_detail :: string

definition assertion_dict :: "assertion_result \<Rightarrow> pyval" where
  "assertion_dict r = PDict [(''name'', PStr (ar_name r)), (''passed'', PBool (ar_passed r)),
     (''reason'', PStr (reason_text (ar_reason r))), (''detail'', PStr (ar_detail r))]"

record matrix_cell =
  mc_producer :: string
  mc_consumer :: string
  mc_outcome :: outcome
  mc_reason :: reason_code
  mc_protocol_release :: string
  mc_scenario :: string
  mc_versions :: "(string \<times> string) list"
  mc_assertions :: "assertion_result list"
  mc_evidence_file :: string

definition cell_dict :: "matrix_cell \<Rightarrow> pyval" where
  "cell_dict c = PDict [(''schema'', PStr ''rosetta.matrix-cell.v1''), (''producer'', PStr (mc_producer c)),
     (''consumer'', PStr (mc_consumer c)), (''outcome'', PStr (outcome_text (mc_outcome c))),
     (''reason'', PStr (reason_text (mc_reason c))), (''protocol_release'', PStr (mc_protocol_release c)),
     (''scenario'', PStr (mc_scenario c)),
     (''adapter_versions'', PDict (map (\<lambda>(k, v). (k, PStr v)) (mc_versions c))),
     (''assertions'', PList (map assertion_dict (mc_assertions c))),
     (''evidence_file'', PStr (mc_evidence_file c))]"

record run_record =
  rr_run_id :: string
  rr_trigger :: string
  rr_protocol_release :: string
  rr_scenario :: string
  rr_registry_sha256 :: string
  rr_images :: "(string \<times> string) list"
  rr_epoch :: string
  rr_dry_run :: bool

definition valid_run_record :: "run_record \<Rightarrow> bool" where
  "valid_run_record r = list_all (\<lambda>(_, d). immutable_digest d) (rr_images r)"

definition run_dict :: "run_record \<Rightarrow> pyval" where
  "run_dict r = PDict [(''schema'', PStr ''rosetta.run.v1''), (''run_id'', PStr (rr_run_id r)),
     (''trigger'', PStr (rr_trigger r)), (''protocol_release'', PStr (rr_protocol_release r)),
     (''scenario'', PStr (rr_scenario r)), (''registry_sha256'', PStr (rr_registry_sha256 r)),
     (''execution_images'', PDict (map (\<lambda>(k, v). (k, PStr v)) (rr_images r))),
     (''deterministic_epoch'', PStr (rr_epoch r)), (''dry_run'', PBool (rr_dry_run r))]"

record evidence_event =
  ev_sequence :: int
  ev_actor :: string
  ev_operation :: string
  ev_status :: string
  ev_correlation_id :: string
  ev_detail :: "(string \<times> pyval) list"
  ev_previous_hash :: string
  ev_event_hash :: string

definition event_dict :: "evidence_event \<Rightarrow> pyval" where
  "event_dict e = PDict [(''schema'', PStr ''rosetta.evidence-event.v1''), (''sequence'', PInt (ev_sequence e)),
     (''actor'', PStr (ev_actor e)), (''operation'', PStr (ev_operation e)), (''status'', PStr (ev_status e)),
     (''correlation_id'', PStr (ev_correlation_id e)), (''detail'', PDict (ev_detail e)),
     (''previous_hash'', PStr (ev_previous_hash e)), (''event_hash'', PStr (ev_event_hash e))]"

record attestation =
  at_did :: string
  at_bundle_root :: string
  at_signature :: string

definition attestation_dict :: "attestation \<Rightarrow> pyval" where
  "attestation_dict a = PDict [(''schema'', PStr ''rosetta.attestation.v1''),
     (''domain'', PStr ''rosetta.artifact.v1''), (''did'', PStr (at_did a)),
     (''bundle_root'', PStr (at_bundle_root a)), (''signature'', PStr (at_signature a)),
     (''algorithm'', PStr ''Ed25519'')]"

section \<open>Signing requests and responses\<close>

datatype sign_action = TechnocoreMessage | TechnocoreNote | ArtifactRoot | ServiceDocument | EvolutionProposal

fun action_text :: "sign_action \<Rightarrow> string" where
  "action_text TechnocoreMessage = ''technocore_message''"
| "action_text TechnocoreNote = ''technocore_note''"
| "action_text ArtifactRoot = ''artifact_root''"
| "action_text ServiceDocument = ''service_document''"
| "action_text EvolutionProposal = ''evolution_proposal''"

definition all_actions :: "sign_action list" where
  "all_actions = [TechnocoreMessage, TechnocoreNote, ArtifactRoot, ServiceDocument, EvolutionProposal]"

definition parse_action :: "pyval option \<Rightarrow> sign_action result" where
  "parse_action v = (case v of Some (PStr s) \<Rightarrow>
       (case filter (\<lambda>a. action_text a = s) all_actions of a # _ \<Rightarrow> Inr a | [] \<Rightarrow> invalid)
     | _ \<Rightarrow> invalid)"

record sign_request =
  sr_action :: sign_action
  sr_scope :: string
  sr_nonce :: "int option"
  sr_room :: "string option"
  sr_text :: "string option"
  sr_digest :: "string option"
  sr_namespace :: "string option"
  sr_key :: "string option"
  sr_value :: "string option"

definition parse_sign_request :: "pydantic \<Rightarrow> pyval \<Rightarrow> sign_request result" where
  "parse_sign_request P v = bindE (as_dict P v) (\<lambda>kvs. let f = map_of kvs; s = optional strict_str in
     check (closed_fields [''action'', ''scope'', ''nonce'', ''room'', ''text'', ''digest'', ''namespace'',
              ''key'', ''value''] ''rosetta.sign-request.v1'' False kvs)
     (bindE (parse_action (f ''action'')) (\<lambda>a. bindE (strict_str (f ''scope'')) (\<lambda>sc.
      bindE (optional strict_int (f ''nonce'')) (\<lambda>n.
      bindE (s (f ''room'')) (\<lambda>r. bindE (s (f ''text'')) (\<lambda>t. bindE (s (f ''digest'')) (\<lambda>d.
      bindE (s (f ''namespace'')) (\<lambda>ns. bindE (s (f ''key'')) (\<lambda>k. bindE (s (f ''value'')) (\<lambda>vl.
      Inr \<lparr>sr_action = a, sr_scope = sc, sr_nonce = n, sr_room = r, sr_text = t, sr_digest = d,
           sr_namespace = ns, sr_key = k, sr_value = vl\<rparr>)))))))))))"

definition opt_str :: "string option \<Rightarrow> pyval" where
  "opt_str x = (case x of None \<Rightarrow> PNone | Some s \<Rightarrow> PStr s)"

definition opt_int :: "int option \<Rightarrow> pyval" where
  "opt_int x = (case x of None \<Rightarrow> PNone | Some i \<Rightarrow> PInt i)"

definition sign_request_dict :: "sign_request \<Rightarrow> pyval" where
  "sign_request_dict r = PDict [(''schema'', PStr ''rosetta.sign-request.v1''),
     (''action'', PStr (action_text (sr_action r))), (''scope'', PStr (sr_scope r)),
     (''nonce'', opt_int (sr_nonce r)), (''room'', opt_str (sr_room r)), (''text'', opt_str (sr_text r)),
     (''digest'', opt_str (sr_digest r)), (''namespace'', opt_str (sr_namespace r)),
     (''key'', opt_str (sr_key r)), (''value'', opt_str (sr_value r))]"

record sign_response =
  sp_did :: string
  sp_signature :: string
  sp_nonce :: "int option"
  sp_signed_digest :: string

definition sign_response_dict :: "sign_response \<Rightarrow> pyval" where
  "sign_response_dict r = PDict [(''schema'', PStr ''rosetta.sign-response.v1''), (''did'', PStr (sp_did r)),
     (''signature'', PStr (sp_signature r)), (''nonce'', opt_int (sp_nonce r)),
     (''signed_digest'', PStr (sp_signed_digest r))]"

definition parse_sign_response :: "pydantic \<Rightarrow> pyval \<Rightarrow> sign_response result" where
  "parse_sign_response P v = bindE (as_dict P v) (\<lambda>kvs. let f = map_of kvs in
     check (closed_fields [''did'', ''signature'', ''nonce'', ''signed_digest'']
              ''rosetta.sign-response.v1'' False kvs)
     (bindE (strict_str (f ''did'')) (\<lambda>d. bindE (strict_str (f ''signature'')) (\<lambda>s.
      bindE (optional strict_int (f ''nonce'')) (\<lambda>n. bindE (strict_str (f ''signed_digest'')) (\<lambda>g.
      Inr \<lparr>sp_did = d, sp_signature = s, sp_nonce = n, sp_signed_digest = g\<rparr>))))))"

section \<open>Service contracts\<close>

definition validate_public_mailbox :: "string \<Rightarrow> string result" where
  "validate_public_mailbox value =
     raise_if (\<not> starts_with ''mb-'' value \<or> starts_with ''mb-p-'' value)
       (ValueError ''reply room must be a public signed mailbox'')
     (raise_if (48 < length value \<or> \<not> list_all (\<lambda>c. is_lower c \<or> is_digit c \<or> c = CHR ''-'') value)
       (ValueError ''invalid reply room'')
     (Inr value))"

definition baselines :: "string list" where
  "baselines = [''v0.7.0'', ''v0.10.0'', ''v0.14.5'']"

record service_card =
  card_did :: string
  card_service_room :: string
  card_request_mailbox :: string
  card_protocol_baseline :: string
  card_scenarios :: "string list"
  card_profiles :: "string list"
  card_schema_url :: string
  card_report_base_url :: string
  card_per_did :: int
  card_global :: int
  card_status :: string
  card_updated_at :: datetime
  card_valid_until :: datetime

definition valid_card :: "pydantic \<Rightarrow> service_card \<Rightarrow> bool result" where
  "valid_card P c = bindE (dt_le (card_valid_until c) (card_updated_at c)) (\<lambda>le.
     Inr (card_protocol_baseline c \<in> set baselines
       \<and> list_all (\<lambda>s. s = ''signed-mailbox-roundtrip-v1'') (card_scenarios c)
       \<and> pyd_url P (card_schema_url c) \<and> pyd_url P (card_report_base_url c)
       \<and> card_status c \<in> {''available'', ''unavailable''} \<and> \<not> le))"

definition card_dict :: "service_card \<Rightarrow> pyval" where
  "card_dict c = PDict [(''schema'', PStr ''rosetta.service-card.v1''), (''service_id'', PStr ''technocore-rosetta''),
     (''did'', PStr (card_did c)), (''service_room'', PStr (card_service_room c)),
     (''request_mailbox'', PStr (card_request_mailbox c)),
     (''protocol_baseline'', PStr (card_protocol_baseline c)),
     (''scenarios'', PList (map PStr (card_scenarios c))),
     (''adapter_profiles'', PList (map PStr (card_profiles c))),
     (''request_schema_url'', PStr (card_schema_url c)), (''report_base_url'', PStr (card_report_base_url c)),
     (''price'', PDict [(''kind'', PStr ''free''), (''currency'', PNone), (''amount'', PInt 0)]),
     (''limits'', PDict [(''per_did_per_day'', PInt (card_per_did c)), (''global_per_day'', PInt (card_global c))]),
     (''status'', PStr (card_status c)), (''updated_at'', PDateTime (card_updated_at c)),
     (''valid_until'', PDateTime (card_valid_until c))]"

record discovery_query =
  dq_request_id :: string
  dq_reply_room :: string
  dq_expires_at :: datetime

definition parse_discovery_query :: "pydantic \<Rightarrow> pyval \<Rightarrow> discovery_query result" where
  "parse_discovery_query P v = bindE (as_dict P v) (\<lambda>kvs. let f = map_of kvs in
     check (closed_fields [''request_id'', ''reply_room'', ''expires_at''] ''rosetta.discover.v1'' True kvs)
     (bindE (strict_str (f ''request_id'')) (\<lambda>i. bindE (strict_str (f ''reply_room'')) (\<lambda>r.
      bindE (a_datetime P (f ''expires_at'')) (\<lambda>e.
      Inr \<lparr>dq_request_id = i, dq_reply_room = r, dq_expires_at = e\<rparr>)))))"

definition discovery_query_dict :: "discovery_query \<Rightarrow> pyval" where
  "discovery_query_dict q = PDict [(''schema'', PStr ''rosetta.discover.v1''),
     (''request_id'', PStr (dq_request_id q)), (''reply_room'', PStr (dq_reply_room q)),
     (''expires_at'', PDateTime (dq_expires_at q))]"

record discovery_offer =
  do_request_id :: string
  do_did :: string
  do_card_url :: string
  do_card_sha256 :: string
  do_request_mailbox :: string
  do_valid_until :: datetime

definition offer_dict :: "discovery_offer \<Rightarrow> pyval" where
  "offer_dict f = PDict [(''schema'', PStr ''rosetta.offer.v1''), (''request_id'', PStr (do_request_id f)),
     (''did'', PStr (do_did f)), (''service_card_url'', PStr (do_card_url f)),
     (''service_card_sha256'', PStr (do_card_sha256 f)), (''request_mailbox'', PStr (do_request_mailbox f)),
     (''valid_until'', PDateTime (do_valid_until f))]"

record service_request =
  rq_request_id :: string
  rq_scenario :: string
  rq_producer :: string
  rq_consumer :: string
  rq_target_profile :: string
  rq_reply_room :: string
  rq_expires_at :: datetime

definition parse_service_request :: "pydantic \<Rightarrow> pyval \<Rightarrow> service_request result" where
  "parse_service_request P v = bindE (as_dict P v) (\<lambda>kvs. let f = map_of kvs in
     check (closed_fields [''request_id'', ''scenario'', ''producer'', ''consumer'', ''target_profile'',
              ''reply_room'', ''expires_at''] ''rosetta.request.v1'' True kvs)
     (bindE (strict_str (f ''request_id'')) (\<lambda>i. check (lower_hex 32 i)
      (bindE (literal [''signed-mailbox-roundtrip-v1''] (f ''scenario'')) (\<lambda>sc.
      bindE (strict_str (f ''producer'')) (\<lambda>p. bindE (strict_str (f ''consumer'')) (\<lambda>c.
      bindE (literal [''current''] (f ''target_profile'')) (\<lambda>tp.
      bindE (strict_str (f ''reply_room'')) (\<lambda>r. check (succeeds (validate_public_mailbox r))
      (bindE (a_datetime P (f ''expires_at'')) (\<lambda>e.
      Inr \<lparr>rq_request_id = i, rq_scenario = sc, rq_producer = p, rq_consumer = c,
           rq_target_profile = tp, rq_reply_room = r, rq_expires_at = e\<rparr>)))))))))))"

definition service_request_dict :: "service_request \<Rightarrow> pyval" where
  "service_request_dict r = PDict [(''schema'', PStr ''rosetta.request.v1''),
     (''request_id'', PStr (rq_request_id r)), (''scenario'', PStr (rq_scenario r)),
     (''producer'', PStr (rq_producer r)), (''consumer'', PStr (rq_consumer r)),
     (''target_profile'', PStr (rq_target_profile r)), (''reply_room'', PStr (rq_reply_room r)),
     (''expires_at'', PDateTime (rq_expires_at r))]"

definition validate_expiry :: "datetime \<Rightarrow> datetime \<Rightarrow> int \<Rightarrow> unit result" where
  "validate_expiry expires_at now max_hours =
     bindE (to_utc now) (\<lambda>current. bindE (to_utc expires_at) (\<lambda>expiry.
       raise_if (instant expiry \<le> instant current
           \<or> max_hours * us_per_hour < instant expiry - instant current)
         (ValueError ''expired or overlong request'')
       (Inr ())))"

record acknowledgement =
  ak_request_id :: string
  ak_status :: string
  ak_job_id :: "string option"
  ak_position :: "int option"
  ak_reason :: "reason_code option"

definition ack_dict :: "acknowledgement \<Rightarrow> pyval" where
  "ack_dict a = PDict [(''schema'', PStr ''rosetta.ack.v1''), (''request_id'', PStr (ak_request_id a)),
     (''status'', PStr (ak_status a)), (''job_id'', opt_str (ak_job_id a)),
     (''position'', opt_int (ak_position a)),
     (''reason'', opt_str (map_option reason_text (ak_reason a)))]"

record service_result =
  re_request_id :: string
  re_job_id :: string
  re_outcome :: outcome
  re_bundle_root :: string
  re_report_url :: string
  re_completed_at :: datetime

definition result_dict :: "service_result \<Rightarrow> pyval" where
  "result_dict r = PDict [(''schema'', PStr ''rosetta.result.v1''), (''request_id'', PStr (re_request_id r)),
     (''job_id'', PStr (re_job_id r)), (''outcome'', PStr (outcome_text (re_outcome r))),
     (''bundle_root'', PStr (re_bundle_root r)), (''report_url'', PStr (re_report_url r)),
     (''completed_at'', PDateTime (re_completed_at r))]"

section \<open>Lemmas\<close>

lemma check_simps [simp, res_simps]: "check True k = k" "check False k = invalid"
  by (simp_all add: check_def)

lemma check_eq_Inr [simp]: "check b k = Inr a \<longleftrightarrow> b \<and> k = Inr a"
  by (simp add: check_def invalid_def)

lemma invalid_neq [simp]: "invalid \<noteq> Inr a"
  by (simp add: invalid_def)

lemma action_text_inj [simp]: "action_text a = action_text b \<longleftrightarrow> a = b"
  by (cases a; cases b; simp)

lemma parse_action_text [simp]: "parse_action (Some (PStr (action_text a))) = Inr a"
  by (cases a) (simp_all add: parse_action_def all_actions_def)

lemma optional_dict [simp]:
  "optional strict_str (Some (opt_str x)) = Inr x"
  "optional strict_int (Some (opt_int y)) = Inr y"
  by (cases x; cases y; simp add: optional_def opt_str_def opt_int_def strict_str_def strict_int_def)+

text \<open>Requests and responses survive \<open>dict\<close> and \<open>parse_obj\<close>.\<close>

lemma parse_sign_request_dict: "parse_sign_request P (sign_request_dict r) = Inr r"
  by (simp add: parse_sign_request_def sign_request_dict_def as_dict_def closed_fields_def
      schema_field_def Let_def strict_str_def)

lemma parse_sign_response_dict: "parse_sign_response P (sign_response_dict r) = Inr r"
  by (simp add: parse_sign_response_def sign_response_dict_def as_dict_def closed_fields_def
      schema_field_def Let_def strict_str_def)

lemma parse_service_request_Inr:
  "parse_service_request P v = Inr r \<Longrightarrow> lower_hex 32 (rq_request_id r)
     \<and> validate_public_mailbox (rq_reply_room r) = Inr (rq_reply_room r)"
  by (auto simp: parse_service_request_def Let_def succeeds_iff validate_public_mailbox_def)

lemma parse_manifest_valid: "parse_manifest P v = Inr m \<Longrightarrow> valid_manifest m"
  by (auto simp: parse_manifest_def Let_def)

lemma validate_expiry_Inr:
  "validate_expiry e now h = Inr u \<longleftrightarrow> in_range (instant now) \<and> in_range (instant e)
     \<and> instant now < instant e \<and> instant e - instant now \<le> h * us_per_hour"
  by (auto simp: validate_expiry_def to_utc_Inr)

end
