(* ===== verification/Signer.thy ===== *)
theory Signer
  imports Contracts
begin

text \<open>
  The networkless signer: \<open>rosetta_signer/nonce_store.py\<close>, \<open>protocol.py\<close>,
  \<open>service.py\<close> and \<open>oneshot.py\<close>.  The SQLite file is a record of its two tables;
  a \<open>BEGIN IMMEDIATE\<close> block is \<open>transactionS\<close>; an integer above 63 bits raises
  \<open>OverflowError\<close> when it is bound.  The locale \<open>counter_lanes\<close> states what a
  monotone counter per lane promises and proves once that the numbers granted
  in a lane strictly increase; it is interpreted on the store and on the
  whole request handler.
\<close>

section \<open>Lanes of counters\<close>

fun run_steps :: "('r \<Rightarrow> ('s, 'a) op) \<Rightarrow> 'r list \<Rightarrow> 's \<Rightarrow> ('r \<times> 'a result) list \<times> 's" where
  "run_steps step [] s = ([], s)"
| "run_steps step (r # rs) s =
     (let (x, t) = step r s; (xs, u) = run_steps step rs t in ((r, x) # xs, u))"

locale counter_lanes =
  fixes step :: "'r \<Rightarrow> 's \<Rightarrow> (exn + 'a) \<times> 's"
    and grant :: "'r \<Rightarrow> 'a \<Rightarrow> ('k \<times> int) option"
    and current :: "'s \<Rightarrow> 'k \<Rightarrow> int"
  assumes granted: "step r s = (Inr a, t) \<Longrightarrow> grant r a = Some (k, n) \<Longrightarrow> current s k < n \<and> current t k = n"
    and monotone: "step r s = (x, t) \<Longrightarrow> current s k \<le> current t k"
begin

definition grants :: "'k \<Rightarrow> ('r \<times> 'a result) list \<Rightarrow> int list" where
  "grants k trace = concat (map (\<lambda>(r, x). case x of Inl _ \<Rightarrow> []
     | Inr a \<Rightarrow> (case grant r a of None \<Rightarrow> [] | Some (k', n) \<Rightarrow> if k' = k then [n] else [])) trace)"

lemma run_monotone: "snd (run_steps step rs s) = t \<Longrightarrow> current s k \<le> current t k"
proof (induction rs arbitrary: s)
  case (Cons r rs)
  obtain x u where u: "step r s = (x, u)" by (cases "step r s")
  then have "current u k \<le> current t k"
    using Cons.IH [of u] Cons.prems by (simp add: case_prod_unfold Let_def)
  then show ?case using monotone [OF u, of k] by linarith
qed simp

lemma grants_single: "n \<in> set (grants k [(r, x)]) \<Longrightarrow> \<exists>a. x = Inr a \<and> grant r a = Some (k, n)"
proof (cases x)
  case (Inr a)
  then show "n \<in> set (grants k [(r, x)]) \<Longrightarrow> ?thesis"
    by (cases "grant r a") (auto simp: grants_def split: if_splits)
qed (simp add: grants_def)

lemma grants_above: "n \<in> set (grants k (fst (run_steps step rs s))) \<Longrightarrow> current s k < n"
proof (induction rs arbitrary: s)
  case (Cons r rs)
  obtain x u where u: "step r s = (x, u)" by (cases "step r s")
  have split: "fst (run_steps step (r # rs) s) = (r, x) # fst (run_steps step rs u)"
    using u by (simp add: case_prod_unfold Let_def)
  have "n \<in> set (grants k [(r, x)]) \<or> n \<in> set (grants k (fst (run_steps step rs u)))"
    using Cons.prems unfolding split by (auto simp: grants_def)
  then show ?case
  proof
    assume "n \<in> set (grants k [(r, x)])"
    then show ?thesis using grants_single granted u by fastforce
  next
    assume "n \<in> set (grants k (fst (run_steps step rs u)))"
    then show ?thesis using Cons.IH monotone [OF u, of k] by fastforce
  qed
qed (simp add: grants_def)

lemma grants_increasing: "sorted_wrt (<) (grants k (fst (run_steps step rs s)))"
proof (induction rs arbitrary: s)
  case (Cons r rs)
  obtain x u where u: "step r s = (x, u)" by (cases "step r s")
  have split: "grants k (fst (run_steps step (r # rs) s))
      = grants k [(r, x)] @ grants k (fst (run_steps step rs u))"
    using u by (simp add: case_prod_unfold Let_def grants_def)
  have "n = current u k" if "n \<in> set (grants k [(r, x)])" for n
    using grants_single [OF that] granted u by fastforce
  moreover have "sorted_wrt (<) (grants k [(r, x)])"
    by (auto simp: grants_def split: sum.splits option.splits)
  ultimately show ?case unfolding split
    using Cons.IH [of u] grants_above [of _ k rs u] by (auto simp: sorted_wrt_append)
qed (simp add: grants_def)

end

section \<open>The nonce store\<close>

record sign_event =
  se_action :: string
  se_scope_hash :: string
  se_payload_hash :: string
  se_nonce :: "int option"

record nonce_store =
  ns_scopes :: "string \<Rightarrow> int option"
  ns_events :: "sign_event list"

definition empty_nonce_store :: nonce_store where
  "empty_nonce_store = \<lparr>ns_scopes = Map.empty, ns_events = []\<rparr>"

definition sqlite_max :: int where
  "sqlite_max = 9223372036854775807"

definition current_nonce :: "nonce_store \<Rightarrow> string \<Rightarrow> int" where
  "current_nonce s scope = (case ns_scopes s scope of None \<Rightarrow> 0 | Some n \<Rightarrow> n)"

definition nonce_next :: "string \<Rightarrow> int option \<Rightarrow> (nonce_store, int) op" where
  "nonce_next scope requested = transactionS (\<lambda>s.
     let current = current_nonce s scope;
         candidate = (case requested of None \<Rightarrow> current + 1 | Some r \<Rightarrow> r)
     in if candidate \<le> current \<or> candidate < 1 \<or> max_nonce < candidate
        then (Inl (ValueError ''nonce is not strictly increasing''), s)
        else if sqlite_max < candidate
        then (Inl (OverflowError ''Python int too large to convert to SQLite INTEGER''), s)
        else (Inr candidate, s\<lparr>ns_scopes := (ns_scopes s)(scope \<mapsto> candidate)\<rparr>))"

definition nonce_record :: "string \<Rightarrow> string \<Rightarrow> string \<Rightarrow> int option \<Rightarrow> (nonce_store, unit) op" where
  "nonce_record action scope_hash payload_hash nonce = putS (\<lambda>s. s\<lparr>ns_events := ns_events s @
     [\<lparr>se_action = action, se_scope_hash = scope_hash, se_payload_hash = payload_hash, se_nonce = nonce\<rparr>]\<rparr>)"

section \<open>The signer protocol\<close>

definition present_fields :: "sign_request \<Rightarrow> string list" where
  "present_fields r = map fst (filter (\<lambda>(_, v). v \<noteq> None)
     [(''room'', sr_room r), (''text'', sr_text r), (''digest'', sr_digest r),
      (''namespace'', sr_namespace r), (''key'', sr_key r), (''value'', sr_value r)])"

fun required_fields :: "sign_action \<Rightarrow> string list" where
  "required_fields TechnocoreMessage = [''room'', ''text'']"
| "required_fields TechnocoreNote = [''namespace'', ''key'', ''value'']"
| "required_fields ArtifactRoot = [''digest'']"
| "required_fields ServiceDocument = [''digest'']"
| "required_fields EvolutionProposal = [''digest'']"

text \<open>The scope, the nonce and the payload that a request signs.\<close>

definition prepare_payload :: "sign_request \<Rightarrow> (nonce_store, string \<times> int option \<times> bytes) op" where
  "prepare_payload r = (case sr_action r of
     TechnocoreMessage \<Rightarrow> (case (sr_room r, sr_text r) of
         (Some room, Some text) \<Rightarrow>
            bindS (nonce_next (''message:'' @ room) (sr_nonce r)) (\<lambda>nonce.
            bindS (liftS (signed_room_payload room nonce text)) (\<lambda>payload.
            retS (''message:'' @ room, Some nonce, payload)))
       | _ \<Rightarrow> raiseS (ValueError ''message signing requires room and text''))
   | TechnocoreNote \<Rightarrow> (case (sr_namespace r, sr_key r, sr_value r) of
         (Some namespace, Some key, Some value) \<Rightarrow>
            bindS (nonce_next (''note:'' @ key) (sr_nonce r)) (\<lambda>nonce.
            bindS (liftS (signed_note_payload namespace key nonce value)) (\<lambda>payload.
            retS (''note:'' @ key, Some nonce, payload)))
       | _ \<Rightarrow> raiseS (ValueError ''note signing requires namespace, key, and value''))
   | ArtifactRoot \<Rightarrow> (case sr_digest r of
         Some d \<Rightarrow> bindS (liftS (artifact_payload d)) (\<lambda>p. retS (''artifact:'' @ sr_scope r, None, p))
       | None \<Rightarrow> raiseS (ValueError ''artifact signing requires digest''))
   | ServiceDocument \<Rightarrow> (case sr_digest r of
         Some d \<Rightarrow> bindS (liftS (service_document_payload d)) (\<lambda>p. retS (''service:'' @ sr_scope r, None, p))
       | None \<Rightarrow> raiseS (ValueError ''service document signing requires digest''))
   | EvolutionProposal \<Rightarrow> (case sr_digest r of
         Some d \<Rightarrow> bindS (liftS (evolution_proposal_payload d)) (\<lambda>p. retS (''evolution:'' @ sr_scope r, None, p))
       | None \<Rightarrow> raiseS (ValueError ''evolution proposal signing requires digest'')))"

definition finish_signature ::
  "crypto \<Rightarrow> identity \<Rightarrow> sign_request \<Rightarrow> string \<times> int option \<times> bytes \<Rightarrow> (nonce_store, sign_response) op" where
  "finish_signature C ident r prep = (case prep of (scope, nonce, payload) \<Rightarrow>
     bindS (nonce_record (action_text (sr_action r)) (sha256_hex C (utf8 scope)) (sha256_hex C payload) nonce) (\<lambda>_.
     retS \<lparr>sp_did = id_did ident, sp_signature = identity_sign C ident payload, sp_nonce = nonce,
           sp_signed_digest = ''sha256:'' @ sha256_hex C payload\<rparr>))"

definition handle :: "crypto \<Rightarrow> identity \<Rightarrow> sign_request \<Rightarrow> (nonce_store, sign_response) op" where
  "handle C ident r =
     raiseS_if (set (present_fields r) \<noteq> set (required_fields (sr_action r)))
       (ValueError (action_text (sr_action r) @ '' has invalid signing fields''))
     (bindS (prepare_payload r) (finish_signature C ident r))"

section \<open>The socket service and the one-shot command\<close>

datatype incoming = Line bytes | ReadTimeout

definition error_name :: "exn \<Rightarrow> string" where
  "error_name e = (case e of ValidationError _ \<Rightarrow> ''ValidationError'' | _ \<Rightarrow> ''ValueError'')"

definition sign_error :: "string \<Rightarrow> pyval" where
  "sign_error name = PDict [(''schema'', PStr ''rosetta.sign-error.v1''), (''error'', PStr name)]"

text \<open>\<open>parse_raw\<close>: a text that is not JSON is a \<open>ValidationError\<close> as well.\<close>

definition parse_raw_request :: "pydantic \<Rightarrow> bytes \<Rightarrow> sign_request result" where
  "parse_raw_request P line = (case loads_bytes line of Inl _ \<Rightarrow> invalid | Inr v \<Rightarrow> parse_sign_request P v)"

text \<open>
  \<open>_handle\<close>: one connection.  \<open>readline\<close> itself refuses a line over 64 KiB with
  a \<open>ValueError\<close>.  The result is the bytes written, or the exception that
  leaves the handler before anything is written.
\<close>

definition service_response :: "crypto \<Rightarrow> pydantic \<Rightarrow> identity \<Rightarrow> incoming \<Rightarrow> (nonce_store, pyval) op" where
  "service_response C P ident inc = (case inc of
     ReadTimeout \<Rightarrow> retS (sign_error ''TimeoutError'')
   | Line line \<Rightarrow> tryS is_value_error
       (raiseS_if (16384 < length line) (ValueError ''sign request too large'')
        (bindS (liftS (parse_raw_request P line)) (\<lambda>r.
         bindS (handle C ident r) (\<lambda>resp. retS (sign_response_dict resp)))))
       (\<lambda>e. retS (sign_error (error_name e))))"

definition handle_connection :: "crypto \<Rightarrow> pydantic \<Rightarrow> identity \<Rightarrow> incoming \<Rightarrow> (nonce_store, bytes) op" where
  "handle_connection C P ident inc = bindS (service_response C P ident inc) (\<lambda>v.
     bindS (liftS (dumps True v)) (\<lambda>t. retS (utf8 t @ [CHR 0x0A])))"

section \<open>Lemmas on the store\<close>

lemma nonce_next_Inr:
  "nonce_next k req s = (Inr n, t) \<longleftrightarrow>
     n = (case req of None \<Rightarrow> current_nonce s k + 1 | Some r \<Rightarrow> r) \<and> current_nonce s k < n \<and> 1 \<le> n
     \<and> n \<le> sqlite_max \<and> t = s\<lparr>ns_scopes := (ns_scopes s)(k \<mapsto> n)\<rparr>"
  by (auto simp: nonce_next_def transactionS_def Let_def sqlite_max_def max_nonce_def split: if_splits)

lemma nonce_next_Inl: "nonce_next k req s = (Inl e, t) \<Longrightarrow> t = s"
  unfolding nonce_next_def by (rule transactionS_error)

lemma current_nonce_upd:
  "current_nonce (s\<lparr>ns_scopes := (ns_scopes s)(k \<mapsto> n)\<rparr>) k' = (if k' = k then n else current_nonce s k')"
  by (simp add: current_nonce_def)

interpretation store_lanes: counter_lanes "\<lambda>(k, req). nonce_next k req" "\<lambda>(k, req) n. Some (k, n)" current_nonce
proof
  fix r :: "string \<times> int option" and s t a k n
  assume "(case r of (k, req) \<Rightarrow> nonce_next k req) s = (Inr a, t)"
    and "(case r of (k, req) \<Rightarrow> \<lambda>n. Some (k, n)) a = Some (k, n)"
  then show "current_nonce s k < n \<and> current_nonce t k = n"
    by (cases r) (auto simp: nonce_next_Inr current_nonce_upd)
next
  fix r :: "string \<times> int option" and s t x k
  assume "(case r of (k, req) \<Rightarrow> nonce_next k req) s = (x, t)"
  then show "current_nonce s k \<le> current_nonce t k"
    by (cases r; cases x) (auto simp: nonce_next_Inr current_nonce_upd dest: nonce_next_Inl)
qed

section \<open>Lemmas on the handler\<close>

definition lane :: "sign_request \<Rightarrow> string option" where
  "lane r = (case sr_action r of
     TechnocoreMessage \<Rightarrow> map_option (\<lambda>x. ''message:'' @ x) (sr_room r)
   | TechnocoreNote \<Rightarrow> map_option (\<lambda>x. ''note:'' @ x) (sr_key r)
   | _ \<Rightarrow> None)"

definition lane_grant :: "sign_request \<Rightarrow> sign_response \<Rightarrow> (string \<times> int) option" where
  "lane_grant r resp = (case (lane r, sp_nonce resp) of (Some l, Some n) \<Rightarrow> Some (l, n) | _ \<Rightarrow> None)"

lemma present_room: "''room'' \<in> set (present_fields r) \<longleftrightarrow> sr_room r \<noteq> None"
  by (auto simp: present_fields_def)

lemma present_text: "''text'' \<in> set (present_fields r) \<longleftrightarrow> sr_text r \<noteq> None"
  by (auto simp: present_fields_def)

lemma handle_fields_first:
  "set (present_fields r) \<noteq> set (required_fields (sr_action r)) \<Longrightarrow>
   handle C ident r s = (Inl (ValueError (action_text (sr_action r) @ '' has invalid signing fields'')), s)"
  by (simp add: handle_def)

lemma finish_signature_eq:
  "finish_signature C i r (scope, nonce, payload) s =
    (Inr \<lparr>sp_did = id_did i, sp_signature = identity_sign C i payload, sp_nonce = nonce,
          sp_signed_digest = ''sha256:'' @ sha256_hex C payload\<rparr>,
     s\<lparr>ns_events := ns_events s @ [\<lparr>se_action = action_text (sr_action r), se_scope_hash = sha256_hex C (utf8 scope),
        se_payload_hash = sha256_hex C payload, se_nonce = nonce\<rparr>]\<rparr>)"
  by (simp add: finish_signature_def nonce_record_def)

lemma handle_Inr:
  "handle C i r s = (Inr resp, t) \<Longrightarrow> \<exists>scope nonce payload u.
     set (present_fields r) = set (required_fields (sr_action r)) \<and>
     prepare_payload r s = (Inr (scope, nonce, payload), u) \<and>
     finish_signature C i r (scope, nonce, payload) u = (Inr resp, t)"
  by (auto simp: handle_def)

lemma prepare_lane:
  "prepare_payload r s = (Inr (scope, nonce, payload), u) \<Longrightarrow>
   (case lane r of None \<Rightarrow> nonce = None \<and> u = s
    | Some l \<Rightarrow> (\<exists>n. nonce = Some n \<and> nonce_next l (sr_nonce r) s = (Inr n, u)))"
  by (auto simp: prepare_payload_def lane_def split: sign_action.splits option.splits prod.splits)

lemma current_after_next:
  "nonce_next l req s = (x, t) \<Longrightarrow> current_nonce s k \<le> current_nonce t k"
  by (cases x) (auto simp: nonce_next_Inr current_nonce_upd dest: nonce_next_Inl)

lemma prepare_monotone:
  assumes "prepare_payload r s = (x, t)"
  shows "current_nonce s k \<le> current_nonce t k"
proof -
  have *: "current_nonce s k \<le> current_nonce (snd (bindS (nonce_next l q) f s)) k"
    if "\<And>n u. snd (f n u) = u" for l q and f :: "int \<Rightarrow> (nonce_store, string \<times> int option \<times> bytes) op"
    using that current_after_next [of l q s _ _ k]
    by (auto simp: bindS_def split: prod.splits sum.splits)
  have **: "snd (bindS (liftS y) (\<lambda>p. retS (a, b, p)) u) = u" for y a b and u :: nonce_store
    by (cases y) simp_all
  have "current_nonce s k \<le> current_nonce (snd (prepare_payload r s)) k"
    unfolding prepare_payload_def
    by (auto intro: * simp: ** split: sign_action.splits option.splits)
  then show ?thesis using assms by simp
qed

lemma current_nonce_events [simp]: "current_nonce (s\<lparr>ns_events := es\<rparr>) k = current_nonce s k"
  by (simp add: current_nonce_def)

lemma handle_monotone: "handle C i r s = (x, t) \<Longrightarrow> current_nonce s k \<le> current_nonce t k"
proof -
  assume h: "handle C i r s = (x, t)"
  obtain y u where p: "prepare_payload r s = (y, u)" by (cases "prepare_payload r s")
  have "t = s \<or> current_nonce t k = current_nonce u k"
    using h p by (cases y) (auto simp: handle_def raiseS_if_def bindS_def finish_signature_eq split: if_splits)
  then show ?thesis using prepare_monotone [OF p, of k] by auto
qed

interpretation handler_lanes: counter_lanes "handle C i" lane_grant current_nonce for C i
proof
  fix r s a t k n
  assume h: "handle C i r s = (Inr a, t)" and g: "lane_grant r a = Some (k, n)"
  from handle_Inr [OF h] obtain scope nonce payload u
    where p: "prepare_payload r s = (Inr (scope, nonce, payload), u)"
      and f: "finish_signature C i r (scope, nonce, payload) u = (Inr a, t)" by blast
  have "sp_nonce a = nonce" "current_nonce t k = current_nonce u k"
    using f by (auto simp: finish_signature_eq)
  moreover have "lane r = Some k" "sp_nonce a = Some n"
    using g by (auto simp: lane_grant_def split: option.splits)
  ultimately show "current_nonce s k < n \<and> current_nonce t k = n"
    using prepare_lane [OF p] by (auto simp: nonce_next_Inr current_nonce_upd)
qed (rule handle_monotone)

section \<open>What is signed\<close>

text \<open>The payload of a request once its nonce is known.\<close>

definition payload_of :: "sign_request \<Rightarrow> int option \<Rightarrow> bytes result" where
  "payload_of r nonce = (case sr_action r of
     TechnocoreMessage \<Rightarrow> (case (sr_room r, nonce, sr_text r) of
         (Some room, Some n, Some text) \<Rightarrow> signed_room_payload room n text | _ \<Rightarrow> invalid)
   | TechnocoreNote \<Rightarrow> (case (sr_namespace r, sr_key r, nonce, sr_value r) of
         (Some ns, Some key, Some n, Some v) \<Rightarrow> signed_note_payload ns key n v | _ \<Rightarrow> invalid)
   | ArtifactRoot \<Rightarrow> (case sr_digest r of Some d \<Rightarrow> artifact_payload d | None \<Rightarrow> invalid)
   | ServiceDocument \<Rightarrow> (case sr_digest r of Some d \<Rightarrow> service_document_payload d | None \<Rightarrow> invalid)
   | EvolutionProposal \<Rightarrow> (case sr_digest r of Some d \<Rightarrow> evolution_proposal_payload d | None \<Rightarrow> invalid))"

lemma prepare_payload_of:
  "prepare_payload r s = (Inr (scope, nonce, payload), u) \<Longrightarrow> payload_of r nonce = Inr payload"
  by (auto simp: prepare_payload_def payload_of_def split: sign_action.splits option.splits)

lemma handle_signs:
  assumes "crypto_ok C" "identity_of_private C key = Inr i" "handle C i r s = (Inr resp, t)"
  shows "\<exists>payload. payload_of r (sp_nonce resp) = Inr payload
    \<and> verify_signature C (sp_did resp) payload (sp_signature resp)
    \<and> sp_signed_digest resp = ''sha256:'' @ sha256_hex C payload"
proof -
  from handle_Inr [OF assms(3)] obtain scope nonce payload u
    where p: "prepare_payload r s = (Inr (scope, nonce, payload), u)"
      and f: "finish_signature C i r (scope, nonce, payload) u = (Inr resp, t)" by blast
  then have "sp_did resp = id_did i" "sp_signature resp = identity_sign C i payload" "sp_nonce resp = nonce"
    "sp_signed_digest resp = ''sha256:'' @ sha256_hex C payload"
    by (auto simp: finish_signature_eq)
  then show ?thesis using prepare_payload_of [OF p] identity_verifies [OF assms(1,2), of payload] by auto
qed

section \<open>Domain separation\<close>

text \<open>Which kind of payload a byte string is, read off its first bytes and its separators.\<close>

lemma utf8_bar: "CHR ''|'' \<in> set s \<Longrightarrow> CHR ''|'' \<in> set (utf8 s)"
  by (induction s) (auto simp: utf8_simps utf8_char_def code_def)

lemma lower_hex_no_bar: "lower_hex n h \<Longrightarrow> CHR ''|'' \<notin> set h"
proof
  assume "lower_hex n h" "CHR ''|'' \<in> set h"
  then have "is_lower_hex CHR ''|''" by (auto simp: lower_hex_def list_all_iff)
  then show False by (simp add: is_lower_hex_def)
qed

lemma digest_payloads_no_bar:
  "artifact_payload d = Inr p \<Longrightarrow> CHR ''|'' \<notin> set p"
  "service_document_payload d = Inr p \<Longrightarrow> CHR ''|'' \<notin> set p"
  "evolution_proposal_payload d = Inr p \<Longrightarrow> CHR ''|'' \<notin> set p"
  using lower_hex_no_bar
  by (auto simp: artifact_payload_Inr service_document_payload_def evolution_proposal_payload_def
      artifact_domain_def service_domain_def evolution_domain_def)

lemma room_note_payload_bar:
  "signed_room_payload r n t = Inr p \<Longrightarrow> CHR ''|'' \<in> set p"
  "signed_note_payload ns k n v = Inr p \<Longrightarrow> CHR ''|'' \<in> set p"
  by (auto simp: signed_room_payload_Inr signed_note_payload_def intro!: utf8_bar)

lemma digest_domains_differ:
  "artifact_domain @ d \<noteq> service_domain @ d'"
  "artifact_domain @ d \<noteq> evolution_domain @ d'"
  "service_domain @ d \<noteq> evolution_domain @ d'"
  by (simp_all add: artifact_domain_def service_domain_def evolution_domain_def)

fun digest_action :: "sign_action \<Rightarrow> bool" where
  "digest_action TechnocoreMessage = False"
| "digest_action TechnocoreNote = False"
| "digest_action _ = True"

lemma payload_of_bar:
  "payload_of r n = Inr p \<Longrightarrow> digest_action (sr_action r) \<longleftrightarrow> CHR ''|'' \<notin> set p"
  by (cases "sr_action r")
    (auto simp: payload_of_def digest_payloads_no_bar room_note_payload_bar split: option.splits)

lemma payload_of_digest:
  assumes "payload_of r n = Inr p" "payload_of r' n' = Inr p" "digest_action (sr_action r)"
  shows "sr_action r = sr_action r' \<and> sr_digest r = sr_digest r'"
proof -
  have "digest_action (sr_action r')" using payload_of_bar assms by blast
  then show ?thesis using assms digest_domains_differ digest_domains_differ [symmetric]
    by (cases "sr_action r"; cases "sr_action r'")
      (auto simp: payload_of_def artifact_payload_Inr service_document_payload_def
        evolution_proposal_payload_def split: option.splits)
qed

text \<open>
  The one place where kinds can meet: a room that is named like a note
  namespace, and a key that is a decimal number.
\<close>

lemma note_room_collision:
  assumes "signed_room_payload room n text = Inr p" "signed_note_payload ns key m v = Inr p"
  shows "room = ns \<and> key = str_int n"
proof -
  obtain s s' where eq: "room @ CHR ''|'' # str_int n @ CHR ''|'' # s
      = ns @ CHR ''|'' # key @ CHR ''|'' # str_int m @ CHR ''|'' # s'"
    and room: "CHR ''|'' \<notin> set room" and ns: "CHR ''|'' \<notin> set ns" and key: "CHR ''|'' \<notin> set key"
    using assms by (auto simp: signed_room_payload_Inr signed_note_payload_Inr)
  from append_sep_inj [OF room ns eq] have "room = ns"
    and rest: "str_int n @ CHR ''|'' # s = key @ CHR ''|'' # str_int m @ CHR ''|'' # s'" by auto
  with append_sep_inj [OF str_int_no_bar key rest] show ?thesis by auto
qed

section \<open>Properties\<close>

text \<open>The nonces that a sequence of handled requests granted in one lane, in order.\<close>

definition lane_nonces :: "string \<Rightarrow> (sign_request \<times> sign_response result) list \<Rightarrow> int list" where
  "lane_nonces k trace = concat (map (\<lambda>(r, x). case x of Inl _ \<Rightarrow> []
     | Inr a \<Rightarrow> (case lane_grant r a of None \<Rightarrow> [] | Some (k', n) \<Rightarrow> if k' = k then [n] else [])) trace)"

lemma lane_nonces_grants: "lane_nonces k trace = handler_lanes.grants k trace"
  by (simp add: lane_nonces_def handler_lanes.grants_def)

text \<open>
  C1: Replay lanes never go back: over any sequence of signing requests, failed ones included, and
  from any stored state, the nonces that the signer grants for one room (or one note key) are
  strictly increasing, and each is above the nonce stored before; a caller's scope label does not
  open another lane.
\<close>

theorem lane_nonces_increase:
  "sorted_wrt (<) (lane_nonces k (fst (run_steps (handle C i) rs s)))
   \<and> list_all (\<lambda>n. current_nonce s k < n) (lane_nonces k (fst (run_steps (handle C i) rs s)))"
  unfolding lane_nonces_grants
  using handler_lanes.grants_increasing handler_lanes.grants_above by (auto simp: list_all_iff)

text \<open>
  A request with a missing or an extra signing field is refused before anything else happens: no
  nonce is taken and nothing is recorded.
\<close>

theorem handle_checks_fields_first:
  assumes "set (present_fields r) \<noteq> set (required_fields (sr_action r))"
  shows "handle C i r s = (Inl (ValueError (action_text (sr_action r) @ '' has invalid signing fields'')), s)"
  using assms by (rule handle_fields_first)

definition demo_request :: sign_request where
  "demo_request = \<lparr>sr_action = TechnocoreMessage, sr_scope = ''service'', sr_nonce = None, sr_room = Some ''lobby'',
     sr_text = Some ''hello'', sr_digest = None, sr_namespace = None, sr_key = None, sr_value = None\<rparr>"

lemma handle_checks_fields_first_witness:
  "snd (handle demo_crypto \<lparr>id_private = [], id_did = ''did:key:z''\<rparr> (demo_request\<lparr>sr_digest := Some ''x''\<rparr>)
     empty_nonce_store) = empty_nonce_store"
proof -
  have "set (present_fields (demo_request\<lparr>sr_digest := Some ''x''\<rparr>))
      \<noteq> set (required_fields (sr_action (demo_request\<lparr>sr_digest := Some ''x''\<rparr>)))" by code_simp
  from handle_checks_fields_first [OF this] show ?thesis by simp
qed

text \<open>
  C7: What the signer returns is a signature of exactly the requested payload: it verifies, under the
  returned DID, for the bytes that the request and the granted nonce determine, and the returned
  digest is the digest of those bytes.
\<close>

theorem handle_signs_request:
  assumes "crypto_ok C" "identity_of_private C key = Inr i" "handle C i r s = (Inr resp, t)"
  shows "\<exists>payload. payload_of r (sp_nonce resp) = Inr payload
    \<and> verify_signature C (sp_did resp) payload (sp_signature resp)
    \<and> sp_signed_digest resp = ''sha256:'' @ sha256_hex C payload"
  using assms by (rule handle_signs)

lemma handle_signs_request_witness:
  "\<exists>i resp t. identity_of_private demo_crypto [] = Inr i
     \<and> handle demo_crypto i demo_request empty_nonce_store = (Inr resp, t)
     \<and> sp_nonce resp = Some 1 \<and> verify_signature demo_crypto (sp_did resp) ''lobby|1|hello'' (sp_signature resp)"
proof -
  have "\<exists>i. identity_of_private demo_crypto [] = Inr i"
    by (simp add: identity_of_private_def did_from_public_key_def demo_crypto_def)
  then obtain i where i: "identity_of_private demo_crypto [] = Inr i" by blast
  have room: "signed_room_payload ''lobby'' 1 ''hello'' = Inr ''lobby|1|hello''" by code_simp
  have fields: "set (present_fields demo_request) = set (required_fields TechnocoreMessage)" by code_simp
  obtain u where "nonce_next ''message:lobby'' None empty_nonce_store = (Inr 1, u)"
    using nonce_next_Inr [of "''message:lobby''" None empty_nonce_store 1]
    by (auto simp: empty_nonce_store_def current_nonce_def sqlite_max_def)
  then obtain resp t where h: "handle demo_crypto i demo_request empty_nonce_store = (Inr resp, t)" "sp_nonce resp = Some 1"
    using fields room by (auto simp: handle_def prepare_payload_def demo_request_def finish_signature_eq)
  have "payload_of demo_request (Some 1) = Inr ''lobby|1|hello''"
    by (simp add: payload_of_def demo_request_def room)
  then show ?thesis using handle_signs_request [OF demo_crypto_ok i h(1)] h i by auto
qed

text \<open>
  C8: Domain separation of digests: when the payload of a digest request equals the payload of any
  other request, both have the same action and the same digest; an artifact, a service document and
  an evolution proposal never share a signature with each other or with a message or a note.
\<close>

theorem digest_signatures_separated:
  assumes "payload_of r n = Inr p" "payload_of r' n' = Inr p" "digest_action (sr_action r)"
  shows "sr_action r = sr_action r' \<and> sr_digest r = sr_digest r'"
  using assms by (rule payload_of_digest)

lemma digest_signatures_separated_witness:
  "payload_of (demo_request\<lparr>sr_action := ArtifactRoot, sr_digest := Some (''sha256:'' @ replicate 64 CHR ''a'')\<rparr>) None
     = Inr (artifact_domain @ ''sha256:'' @ replicate 64 CHR ''a'')
   \<and> ArtifactRoot = sr_action (demo_request\<lparr>sr_action := ArtifactRoot\<rparr>)"
proof -
  let ?r = "demo_request\<lparr>sr_action := ArtifactRoot, sr_digest := Some (''sha256:'' @ replicate 64 CHR ''a'')\<rparr>"
  have "lower_hex 64 (replicate 64 CHR ''a'')" by (simp add: lower_hex_def is_lower_hex_def list_all_iff)
  then have p: "payload_of ?r None = Inr (artifact_domain @ ''sha256:'' @ replicate 64 CHR ''a'')"
    by (simp add: payload_of_def artifact_payload_Inr)
  show ?thesis using digest_signatures_separated [OF p p] p by simp
qed

text \<open>
  A message and a note are separated except in one case: if a room payload equals a note payload,
  the room is named \<open>room-owners\<close> or \<open>room-allow\<close> and the key of the note is the decimal text of the
  message's nonce.  The signer refuses neither, so that case exists.
\<close>

theorem message_note_overlap:
  assumes "signed_room_payload room n text = Inr p" "signed_note_payload ns key m v = Inr p"
  shows "room \<in> {''room-owners'', ''room-allow''} \<and> room = ns \<and> key = str_int n"
  using note_room_collision [OF assms] assms(2) by (simp add: signed_note_payload_Inr)

lemma message_note_overlap_witness:
  "signed_room_payload ''room-owners'' 5 ''7|did:key:zB'' = signed_note_payload ''room-owners'' ''5'' 7 ''did:key:zB''
   \<and> ''5'' = str_int 5"
proof -
  have "signed_room_payload ''room-owners'' 5 ''7|did:key:zB'' = Inr ''room-owners|5|7|did:key:zB''"
    "signed_note_payload ''room-owners'' ''5'' 7 ''did:key:zB'' = Inr ''room-owners|5|7|did:key:zB''"
    by code_simp+
  then show ?thesis using message_note_overlap by metis
qed

text \<open>
  C9: A requested nonce that fits the protocol's 19 digits but not SQLite's 63 bits is not answered as
  a refused request: the handler raises \<open>OverflowError\<close>, which the connection does not turn into a
  sign-error response.
\<close>

theorem large_nonce_escapes:
  assumes "sqlite_max < n" "n \<le> max_nonce" "parse_raw_request P line = Inr r" "length line \<le> 16384"
    and "sr_action r = TechnocoreMessage" "set (present_fields r) = {''room'', ''text''}" "sr_nonce r = Some n"
    and "\<forall>k. current_nonce s k \<le> sqlite_max"
  shows "handle_connection C P i (Line line) s
    = (Inl (OverflowError ''Python int too large to convert to SQLite INTEGER''), s)"
proof -
  obtain room msg where f: "sr_room r = Some room" "sr_text r = Some msg"
    using present_room [of r] present_text [of r] unfolding assms(6) by auto
  have "\<not> n \<le> current_nonce s (''message:'' @ room)" "\<not> n < 1"
    using assms(1) assms(8) [rule_format, of "''message:'' @ room"] by (simp_all add: sqlite_max_def)
  then have "nonce_next (''message:'' @ room) (Some n) s
      = (Inl (OverflowError ''Python int too large to convert to SQLite INTEGER''), s)"
    using assms(1,2) by (simp add: nonce_next_def transactionS_def)
  then have "handle C i r s = (Inl (OverflowError ''Python int too large to convert to SQLite INTEGER''), s)"
    using assms(5-7) f by (simp add: handle_def prepare_payload_def bindS_def)
  then show ?thesis using assms(3,4)
    by (simp add: handle_connection_def service_response_def bindS_def tryS_def)
qed

definition strict_pydantic :: pydantic where
  "strict_pydantic = \<lparr>pyd_dict = (\<lambda>_. None), pyd_datetime = (\<lambda>v. case v of PStr s \<Rightarrow> from_iso s | _ \<Rightarrow> None),
     pyd_url = starts_with ''https://'', pyd_bool = (\<lambda>v. case v of PBool b \<Rightarrow> Some b | _ \<Rightarrow> None)\<rparr>"

definition demo_line :: bytes where
  "demo_line = concat [[CHR 0x7B, CHR 0x22], ''action'', [CHR 0x22, CHR '':'', CHR 0x22], ''technocore_message'',
     [CHR 0x22, CHR '','', CHR 0x22], ''scope'', [CHR 0x22, CHR '':'', CHR 0x22], ''s'', [CHR 0x22, CHR '','', CHR 0x22],
     ''room'', [CHR 0x22, CHR '':'', CHR 0x22], ''lobby'', [CHR 0x22, CHR '','', CHR 0x22], ''text'',
     [CHR 0x22, CHR '':'', CHR 0x22], ''hi'', [CHR 0x22, CHR '','', CHR 0x22], ''nonce'', [CHR 0x22, CHR '':''],
     ''9223372036854775808'', [CHR 0x7D]]"

lemma large_nonce_escapes_witness:
  "fst (handle_connection demo_crypto strict_pydantic \<lparr>id_private = [], id_did = ''did:key:z''\<rparr> (Line demo_line)
     empty_nonce_store) = Inl (OverflowError ''Python int too large to convert to SQLite INTEGER'')"
proof -
  let ?r = "demo_request\<lparr>sr_scope := ''s'', sr_text := Some ''hi'', sr_nonce := Some 9223372036854775808\<rparr>"
  have p: "parse_raw_request strict_pydantic demo_line = Inr ?r" by code_simp
  have l: "length demo_line \<le> 16384" by (simp add: demo_line_def)
  have f: "set (present_fields ?r) = {''room'', ''text''}" by code_simp
  have "\<forall>k. current_nonce empty_nonce_store k \<le> sqlite_max"
    by (simp add: current_nonce_def empty_nonce_store_def sqlite_max_def)
  from large_nonce_escapes [OF _ _ p l _ f _ this, of 9223372036854775808] show ?thesis
    by (simp add: sqlite_max_def max_nonce_def demo_request_def)
qed

end
