(* ===== verification/State_Store.thy ===== *)
theory State_Store
  imports Signer
begin

text \<open>
  \<open>rosetta/persistence.py\<close>: the SQLite state of the service.  A table that the
  code only reads and writes by key is a map; a table that it counts, scans or
  orders is the list of its rows in insertion order.  Each method is one
  operation on the record of the tables.  A \<open>BEGIN IMMEDIATE\<close> block is
  \<open>transactionS\<close>, a duplicate primary key raises \<open>IntegrityError\<close>, a number
  above 63 bits \<open>OverflowError\<close>.  The columns \<open>created_at\<close> and so on hold the
  text of \<open>isoformat()\<close> and are compared as text, as SQL does.
\<close>

section \<open>Tables\<close>

record request_row =
  sq_did :: string
  sq_id :: string
  sq_hash :: string
  sq_ack :: string
  sq_result :: "string option"
  sq_day :: string

record job_row =
  jb_did :: string
  jb_id :: string
  jb_json :: string
  jb_status :: string
  jb_updated :: string

record offer_row =
  of_did :: string
  of_id :: string
  of_hash :: string
  of_day :: string

datatype delivery_status = Prepared | Confirmed

record delivery_row =
  dl_actor :: string
  dl_room :: string
  dl_did :: string
  dl_nonce :: int
  dl_text :: string
  dl_signature :: string
  dl_status :: delivery_status
  dl_sequence :: "int option"

record reply_row =
  er_room :: string
  er_generation :: int
  er_sequence :: int
  er_author :: string
  er_created :: string

record proactive_row =
  pr_key :: string
  pr_room :: string
  pr_created :: string

record observation_row =
  ob_digest :: string
  ob_release :: string
  ob_first :: string
  ob_last :: string
  ob_count :: int

record state_store =
  st_triggers :: "string \<Rightarrow> string option"
  st_requests :: "request_row list"
  st_did_quota :: "string \<times> string \<Rightarrow> int option"
  st_global_quota :: "string \<Rightarrow> int option"
  st_health :: "(string \<times> string) list"
  st_bundles :: "string \<Rightarrow> (string \<times> string) option"
  st_usage :: "string \<times> string \<Rightarrow> int option"
  st_components :: "string \<Rightarrow> (int \<times> bool \<times> string) option"
  st_observations :: "observation_row list"
  st_checks :: "string \<Rightarrow> (string \<times> string \<times> string option) option"
  st_cursors :: "string \<Rightarrow> (int \<times> int option) option"
  st_deliveries :: "string \<Rightarrow> delivery_row option"
  st_jobs :: "job_row list"
  st_offers :: "offer_row list"
  st_presence :: "string \<Rightarrow> (string \<times> string \<times> int option) option"
  st_eng_cursors :: "string \<Rightarrow> (int \<times> int) option"
  st_replies :: "reply_row list"
  st_proactive :: "proactive_row list"

definition empty_store :: state_store where
  "empty_store = \<lparr>st_triggers = Map.empty, st_requests = [], st_did_quota = Map.empty,
     st_global_quota = Map.empty, st_health = [], st_bundles = Map.empty, st_usage = Map.empty,
     st_components = Map.empty, st_observations = [], st_checks = Map.empty, st_cursors = Map.empty,
     st_deliveries = Map.empty, st_jobs = [], st_offers = [], st_presence = Map.empty,
     st_eng_cursors = Map.empty, st_replies = [], st_proactive = []\<rparr>"

definition count_where :: "('r \<Rightarrow> bool) \<Rightarrow> 'r list \<Rightarrow> int" where
  "count_where p rows = int (length (filter p rows))"

definition update_where :: "('r \<Rightarrow> bool) \<Rightarrow> ('r \<Rightarrow> 'r) \<Rightarrow> 'r list \<Rightarrow> 'r list" where
  "update_where p f rows = map (\<lambda>r. if p r then f r else r) rows"

definition bindable :: "int \<Rightarrow> bool" where
  "bindable i = (- sqlite_max - 1 \<le> i \<and> i \<le> sqlite_max)"

definition too_large :: exn where
  "too_large = OverflowError ''Python int too large to convert to SQLite INTEGER''"

definition unique_failed :: exn where
  "unique_failed = IntegrityError ''UNIQUE constraint failed''"

definition nat_or_zero :: "int option \<Rightarrow> int" where
  "nat_or_zero x = (case x of None \<Rightarrow> 0 | Some n \<Rightarrow> n)"

section \<open>Triggers and discovery offers\<close>

definition register_trigger :: "string \<Rightarrow> datetime \<Rightarrow> (state_store, bool) op" where
  "register_trigger key now = bindS (liftS (utc_iso now)) (\<lambda>at s.
     if st_triggers s key = None then (Inr True, s\<lparr>st_triggers := (st_triggers s)(key \<mapsto> at)\<rparr>)
     else (Inr False, s))"

definition is_offer :: "string \<Rightarrow> string \<Rightarrow> offer_row \<Rightarrow> bool" where
  "is_offer did rid r = (of_did r = did \<and> of_id r = rid)"

definition reserve_discovery_offer ::
  "string \<Rightarrow> string \<Rightarrow> string \<Rightarrow> datetime \<Rightarrow> int \<Rightarrow> (state_store, string) op" where
  "reserve_discovery_offer requester request_id content_hash now per_did_limit =
     bindS (liftS (utc_day now)) (\<lambda>day. transactionS (\<lambda>s.
       case find (is_offer requester request_id) (st_offers s) of
         Some e \<Rightarrow> (Inr (if of_hash e = content_hash then ''duplicate'' else ''conflict''), s)
       | None \<Rightarrow>
          if per_did_limit \<le> count_where (\<lambda>r. of_did r = requester \<and> of_day r = day) (st_offers s)
          then (Inr ''quota'', s)
          else (Inr ''accepted'', s\<lparr>st_offers := st_offers s @
                 [\<lparr>of_did = requester, of_id = request_id, of_hash = content_hash, of_day = day\<rparr>]\<rparr>)))"

section \<open>Service requests and jobs\<close>

definition is_request :: "string \<Rightarrow> string \<Rightarrow> request_row \<Rightarrow> bool" where
  "is_request did rid r = (sq_did r = did \<and> sq_id r = rid)"

definition is_job :: "string \<Rightarrow> string \<Rightarrow> job_row \<Rightarrow> bool" where
  "is_job did rid r = (jb_did r = did \<and> jb_id r = rid)"

definition queued :: "job_row \<Rightarrow> bool" where
  "queued j = (jb_status j \<in> {''accepted'', ''running''})"

definition request_status :: "string \<Rightarrow> string \<Rightarrow> state_store \<Rightarrow> (string \<times> string \<times> string option) option" where
  "request_status requester request_id s =
     map_option (\<lambda>r. (sq_hash r, sq_ack r, sq_result r)) (find (is_request requester request_id) (st_requests s))"

definition insert_request ::
  "string \<Rightarrow> string \<Rightarrow> string \<Rightarrow> string \<Rightarrow> string \<Rightarrow> state_store \<Rightarrow> state_store" where
  "insert_request requester request_id content_hash ack day s = s\<lparr>st_requests := st_requests s @
     [\<lparr>sq_did = requester, sq_id = request_id, sq_hash = content_hash, sq_ack = ack, sq_result = None,
       sq_day = day\<rparr>]\<rparr>"

definition insert_job :: "string \<Rightarrow> string \<Rightarrow> string \<Rightarrow> string \<Rightarrow> (state_store, unit) op" where
  "insert_job requester request_id json at s =
     (if find (is_job requester request_id) (st_jobs s) \<noteq> None then (Inl unique_failed, s)
      else (Inr (), s\<lparr>st_jobs := st_jobs s @ [\<lparr>jb_did = requester, jb_id = request_id, jb_json = json,
                       jb_status = ''accepted'', jb_updated = at\<rparr>]\<rparr>))"

definition bump_quotas :: "string \<Rightarrow> string \<Rightarrow> state_store \<Rightarrow> state_store" where
  "bump_quotas day requester s = s\<lparr>
     st_did_quota := (st_did_quota s)((day, requester) \<mapsto> nat_or_zero (st_did_quota s (day, requester)) + 1),
     st_global_quota := (st_global_quota s)(day \<mapsto> nat_or_zero (st_global_quota s day) + 1)\<rparr>"

definition reserve_request ::
  "string \<Rightarrow> string \<Rightarrow> string \<Rightarrow> string \<Rightarrow> datetime \<Rightarrow> int \<Rightarrow> int \<Rightarrow> string option \<Rightarrow> int option
     \<Rightarrow> (state_store, string) op" where
  "reserve_request requester request_id content_hash ack now per_did_limit global_limit request_json max_queue_depth =
     bindS (liftS (utc_day now)) (\<lambda>day. transactionS (\<lambda>s.
       case find (is_request requester request_id) (st_requests s) of
         Some e \<Rightarrow> (Inr (if sq_hash e = content_hash then ''duplicate'' else ''conflict''), s)
       | None \<Rightarrow>
          if per_did_limit \<le> nat_or_zero (st_did_quota s (day, requester))
             \<or> global_limit \<le> nat_or_zero (st_global_quota s day)
          then (Inr ''quota'', s)
          else if (case max_queue_depth of None \<Rightarrow> False | Some d \<Rightarrow> d \<le> count_where queued (st_jobs s))
          then (Inr ''busy'', s)
          else bindS (putS (insert_request requester request_id content_hash ack day)) (\<lambda>_.
               bindS (case request_json of None \<Rightarrow> retS ()
                      | Some j \<Rightarrow> bindS (liftS (utc_iso now)) (insert_job requester request_id j)) (\<lambda>_.
               bindS (putS (bump_quotas day requester)) (\<lambda>_. retS ''accepted''))) s))"

definition store_result :: "datetime \<Rightarrow> string \<Rightarrow> string \<Rightarrow> string \<Rightarrow> (state_store, unit) op" where
  "store_result clock requester request_id result = transactionS (\<lambda>s.
     if count_where (is_request requester request_id) (st_requests s) \<noteq> 1
     then (Inl (ValueError ''unknown service request''), s)
     else bindS (liftS (utc_iso clock)) (\<lambda>at. putS (\<lambda>s. s\<lparr>
       st_requests := update_where (is_request requester request_id) (\<lambda>r. r\<lparr>sq_result := Some result\<rparr>) (st_requests s),
       st_jobs := update_where (is_job requester request_id)
                    (\<lambda>j. j\<lparr>jb_status := ''complete'', jb_updated := at\<rparr>) (st_jobs s)\<rparr>)) s)"

definition mark_job :: "string \<Rightarrow> string \<Rightarrow> string \<Rightarrow> datetime \<Rightarrow> (state_store, unit) op" where
  "mark_job requester request_id status now =
     raiseS_if (status \<notin> {''accepted'', ''running'', ''complete'', ''failed''})
       (ValueError ''invalid service job state'')
     (bindS (liftS (utc_iso now)) (\<lambda>at s.
       let s' = s\<lparr>st_jobs := update_where (is_job requester request_id)
                    (\<lambda>j. j\<lparr>jb_status := status, jb_updated := at\<rparr>) (st_jobs s)\<rparr> in
       if count_where (is_job requester request_id) (st_jobs s) \<noteq> 1
       then (Inl (ValueError ''unknown service job''), s') else (Inr (), s')))"

definition job_order :: "job_row \<Rightarrow> string list" where
  "job_order j = [jb_updated j, jb_did j, jb_id j]"

definition pending_jobs :: "state_store \<Rightarrow> (string \<times> string \<times> string \<times> string) list" where
  "pending_jobs s = map (\<lambda>j. (jb_did j, jb_id j, jb_json j, jb_status j))
     (sort_key job_order (filter queued (st_jobs s)))"

section \<open>Cursors\<close>

definition room_cursor :: "string \<Rightarrow> state_store \<Rightarrow> int" where
  "room_cursor room s = (case st_cursors s room of None \<Rightarrow> 0 | Some (n, _) \<Rightarrow> n)"

definition room_checkpoint :: "string \<Rightarrow> state_store \<Rightarrow> int \<times> int option" where
  "room_checkpoint room s = (case st_cursors s room of None \<Rightarrow> (0, None) | Some (n, g) \<Rightarrow> (n, g))"

definition set_room_generation :: "string \<Rightarrow> int \<Rightarrow> bool \<Rightarrow> (state_store, unit) op" where
  "set_room_generation room generation reset s =
     (if generation < 0 then (Inl (ValueError ''room generation cannot be negative''), s)
      else if \<not> bindable generation then (Inl too_large, s)
      else (Inr (), s\<lparr>st_cursors := (st_cursors s)(room \<mapsto> (if reset then 0 else room_cursor room s, Some generation))\<rparr>))"

definition advance_room_cursor :: "string \<Rightarrow> int \<Rightarrow> (state_store, unit) op" where
  "advance_room_cursor room sequence s =
     (if sequence < room_cursor room s then (Inl (ValueError ''room cursor cannot move backwards''), s)
      else if \<not> bindable sequence then (Inl too_large, s)
      else (Inr (), s\<lparr>st_cursors := (st_cursors s)(room \<mapsto> (case st_cursors s room of
             None \<Rightarrow> (sequence, None) | Some (n, g) \<Rightarrow> (max n sequence, g)))\<rparr>))"

definition engagement_checkpoint :: "string \<Rightarrow> state_store \<Rightarrow> (int \<times> int) option" where
  "engagement_checkpoint room s = st_eng_cursors s room"

definition set_engagement_checkpoint :: "string \<Rightarrow> int \<Rightarrow> int \<Rightarrow> (state_store, unit) op" where
  "set_engagement_checkpoint room sequence generation s =
     (if sequence < 0 \<or> generation < 0 then (Inl (ValueError ''invalid engagement checkpoint''), s)
      else if \<not> bindable sequence \<or> \<not> bindable generation then (Inl too_large, s)
      else (Inr (), s\<lparr>st_eng_cursors := (st_eng_cursors s)(room \<mapsto> (sequence, generation))\<rparr>))"

section \<open>Engagement reservations\<close>

definition is_reply :: "string \<Rightarrow> int \<Rightarrow> int \<Rightarrow> reply_row \<Rightarrow> bool" where
  "is_reply room generation sequence r = (er_room r = room \<and> er_generation r = generation \<and> er_sequence r = sequence)"

definition reserve_engagement_reply ::
  "string \<Rightarrow> int \<Rightarrow> int \<Rightarrow> string \<Rightarrow> datetime \<Rightarrow> int \<Rightarrow> int \<Rightarrow> (state_store, string) op" where
  "reserve_engagement_reply room generation sequence author_did now max_per_day room_cooldown_hours =
     bindS (liftS (to_utc now)) (\<lambda>timestamp. transactionS (\<lambda>s.
       if \<not> bindable generation \<or> \<not> bindable sequence then (Inl too_large, s)
       else case find (is_reply room generation sequence) (st_replies s) of
         Some e \<Rightarrow> (Inr (if er_author e = author_did then ''existing'' else ''conflict''), s)
       | None \<Rightarrow>
         bindS (liftS (shift timestamp (- 7 * us_per_day))) (\<lambda>week.
         bindS (liftS (shift timestamp (- room_cooldown_hours * us_per_hour))) (\<lambda>cool s.
           let day_count = count_where (\<lambda>r. iso_text (day_start timestamp) \<le> er_created r) (st_replies s);
               last_author = list_ex (\<lambda>r. er_author r = author_did \<and> iso_text week \<le> er_created r) (st_replies s);
               last_room = list_ex (\<lambda>r. er_room r = room \<and> iso_text cool \<le> er_created r) (st_replies s)
           in if max_per_day \<le> day_count \<or> last_author \<or> last_room then (Inr ''quota'', s)
              else (Inr ''reserved'', s\<lparr>st_replies := st_replies s @
                [\<lparr>er_room = room, er_generation = generation, er_sequence = sequence, er_author = author_did,
                  er_created = iso_text timestamp\<rparr>]\<rparr>))) s))"

definition reserve_proactive_post ::
  "string \<Rightarrow> string \<Rightarrow> datetime \<Rightarrow> datetime \<Rightarrow> int \<Rightarrow> int \<Rightarrow> int \<Rightarrow> (state_store, string) op" where
  "reserve_proactive_post delivery_key room now campaign_activated_at campaign_days max_per_room_per_day min_interval_hours =
     bindS (liftS (to_utc now)) (\<lambda>timestamp.
     bindS (liftS (to_utc campaign_activated_at)) (\<lambda>activated.
     ifS (instant timestamp < instant activated) (retS ''inactive'')
     (bindS (liftS (shift activated (campaign_days * us_per_day))) (\<lambda>closing.
     ifS (instant closing \<le> instant timestamp) (retS ''inactive'')
     (transactionS (\<lambda>s.
       if list_ex (\<lambda>r. pr_key r = delivery_key) (st_proactive s) then (Inr ''existing'', s)
       else
         bindS (liftS (shift (day_start timestamp) us_per_day)) (\<lambda>day_end.
         bindS (liftS (shift timestamp (- min_interval_hours * us_per_hour))) (\<lambda>recent s.
           let count = count_where (\<lambda>r. pr_room r = room \<and> iso_text (day_start timestamp) \<le> pr_created r
                                      \<and> pr_created r < iso_text day_end) (st_proactive s);
               recent_reply = list_ex (\<lambda>r. er_room r = room \<and> iso_text recent < er_created r) (st_replies s);
               recent_proactive = list_ex (\<lambda>r. pr_room r = room \<and> iso_text recent < pr_created r) (st_proactive s)
           in if max_per_room_per_day \<le> count \<or> recent_reply \<or> recent_proactive then (Inr ''quota'', s)
              else (Inr ''reserved'', s\<lparr>st_proactive := st_proactive s @
                [\<lparr>pr_key = delivery_key, pr_room = room, pr_created = iso_text timestamp\<rparr>]\<rparr>))) s))))))"

section \<open>Presence\<close>

definition service_presence :: "string \<Rightarrow> (state_store, (datetime \<times> string \<times> int option) option) op" where
  "service_presence room s = (case st_presence s room of None \<Rightarrow> (Inr None, s)
     | Some (sent, kind, generation) \<Rightarrow>
       (case from_iso sent of None \<Rightarrow> (Inl (ValueError ''Invalid isoformat string''), s)
        | Some t \<Rightarrow> if naive t then (Inl (ValueError ''service presence timestamp must be timezone-aware''), s)
            else bindS (liftS (to_utc t)) (\<lambda>u. retS (Some (u, kind, generation))) s))"

definition presence_kinds :: "string list" where
  "presence_kinds = [''announcement'', ''recovery'', ''anchor'', ''liveness'']"

definition record_service_presence :: "string \<Rightarrow> datetime \<Rightarrow> string \<Rightarrow> int option \<Rightarrow> (state_store, unit) op" where
  "record_service_presence room sent_at kind generation =
     raiseS_if (naive sent_at) (ValueError ''service presence timestamp must be timezone-aware'')
     (raiseS_if (kind \<notin> set presence_kinds) (ValueError ''invalid service presence kind'')
     (raiseS_if (case generation of None \<Rightarrow> False | Some g \<Rightarrow> g < 0) (ValueError ''room generation cannot be negative'')
     (bindS (liftS (utc_iso sent_at)) (\<lambda>at.
      raiseS_if (case generation of None \<Rightarrow> False | Some g \<Rightarrow> \<not> bindable g) too_large
      (putS (\<lambda>s. s\<lparr>st_presence := (st_presence s)(room \<mapsto> (at, kind, generation))\<rparr>))))))"

section \<open>Outbound deliveries\<close>

definition delivery :: "string \<Rightarrow> state_store \<Rightarrow> delivery_row option" where
  "delivery key s = st_deliveries s key"

definition prepare_delivery ::
  "string \<Rightarrow> string \<Rightarrow> string \<Rightarrow> string \<Rightarrow> int \<Rightarrow> string \<Rightarrow> string \<Rightarrow> (state_store, unit) op" where
  "prepare_delivery key actor room did nonce text signature s =
     (if \<not> bindable nonce then (Inl too_large, s)
      else if st_deliveries s key \<noteq> None then (Inl unique_failed, s)
      else (Inr (), s\<lparr>st_deliveries := (st_deliveries s)(key \<mapsto>
        \<lparr>dl_actor = actor, dl_room = room, dl_did = did, dl_nonce = nonce, dl_text = text,
         dl_signature = signature, dl_status = Prepared, dl_sequence = None\<rparr>)\<rparr>))"

definition confirm_delivery :: "string \<Rightarrow> int \<Rightarrow> (state_store, unit) op" where
  "confirm_delivery key sequence s =
     (if \<not> bindable sequence then (Inl too_large, s)
      else case st_deliveries s key of None \<Rightarrow> (Inl (ValueError ''unknown outbound delivery''), s)
      | Some d \<Rightarrow> (Inr (), s\<lparr>st_deliveries := (st_deliveries s)(key \<mapsto>
          d\<lparr>dl_status := Confirmed, dl_sequence := Some sequence\<rparr>)\<rparr>))"

section \<open>Health, bundles and budgets\<close>

definition record_infrastructure_error :: "string \<Rightarrow> datetime \<Rightarrow> (state_store, unit) op" where
  "record_infrastructure_error category now = bindS (liftS (utc_iso now)) (\<lambda>at.
     putS (\<lambda>s. s\<lparr>st_health := st_health s @ [(category, at)]\<rparr>))"

definition consecutive_errors :: "string \<Rightarrow> state_store \<Rightarrow> nat" where
  "consecutive_errors category s =
     length (takeWhile (\<lambda>(c, _). c = category) (take 100 (rev (st_health s))))"

definition register_bundle :: "string \<Rightarrow> string \<Rightarrow> datetime \<Rightarrow> (state_store, bool) op" where
  "register_bundle root path now = bindS (liftS (utc_iso now)) (\<lambda>at s.
     if st_bundles s root = None then (Inr True, s\<lparr>st_bundles := (st_bundles s)(root \<mapsto> (path, at))\<rparr>)
     else (Inr False, s))"

definition usage :: "string \<Rightarrow> string \<Rightarrow> state_store \<Rightarrow> int" where
  "usage period kind s = nat_or_zero (st_usage s (period, kind))"

definition reserve_usage :: "string \<Rightarrow> string \<Rightarrow> int \<Rightarrow> int \<Rightarrow> (state_store, bool) op" where
  "reserve_usage period kind amount limit =
     raiseS_if (amount < 0 \<or> limit < 0) (ValueError ''usage and limit must be non-negative'')
     (transactionS (\<lambda>s.
       if limit < usage period kind s + amount then (Inr False, s)
       else if \<not> bindable amount then (Inl too_large, s)
       else (Inr True, s\<lparr>st_usage := (st_usage s)((period, kind) \<mapsto> usage period kind s + amount)\<rparr>)))"

definition record_component_result :: "string \<Rightarrow> bool \<Rightarrow> int \<Rightarrow> datetime \<Rightarrow> (state_store, int \<times> bool) op" where
  "record_component_result component success threshold now =
     raiseS_if (threshold < 1) (ValueError ''quarantine threshold must be positive'')
     (\<lambda>s. let errors = (if success then 0
              else (case st_components s component of None \<Rightarrow> 0 | Some (e, _) \<Rightarrow> e) + 1);
              quarantined = (threshold \<le> errors) in
      bindS (liftS (utc_iso now)) (\<lambda>at.
      bindS (putS (\<lambda>s. s\<lparr>st_components := (st_components s)(component \<mapsto> (errors, quarantined, at))\<rparr>)) (\<lambda>_.
      retS (errors, quarantined))) s)"

definition component_quarantined :: "string \<Rightarrow> state_store \<Rightarrow> bool" where
  "component_quarantined component s = (case st_components s component of None \<Rightarrow> False | Some (_, q, _) \<Rightarrow> q)"

section \<open>Observations\<close>

definition record_protocol_observation :: "string \<Rightarrow> string \<Rightarrow> datetime \<Rightarrow> (state_store, bool) op" where
  "record_protocol_observation digest release now = bindS (liftS (utc_iso now)) (\<lambda>at. transactionS (\<lambda>s.
     if list_ex (\<lambda>r. ob_digest r = digest) (st_observations s)
     then (Inr False, s\<lparr>st_observations := update_where (\<lambda>r. ob_digest r = digest)
             (\<lambda>r. r\<lparr>ob_last := at, ob_count := ob_count r + 1\<rparr>) (st_observations s)\<rparr>)
     else (Inr True, s\<lparr>st_observations := st_observations s @
             [\<lparr>ob_digest = digest, ob_release = release, ob_first = at, ob_last = at, ob_count = 1\<rparr>]\<rparr>)))"

fun latest_row :: "observation_row list \<Rightarrow> observation_row option" where
  "latest_row [] = None"
| "latest_row (r # rs) = (case latest_row rs of None \<Rightarrow> Some r
     | Some x \<Rightarrow> if ob_last x \<le> ob_last r then Some r else Some x)"

definition latest_protocol_observation :: "state_store \<Rightarrow> (string \<times> string \<times> string \<times> int) option" where
  "latest_protocol_observation s =
     map_option (\<lambda>r. (ob_digest r, ob_release r, ob_last r, ob_count r)) (latest_row (st_observations s))"

definition record_observer_check ::
  "datetime \<Rightarrow> string \<Rightarrow> string \<Rightarrow> string option \<Rightarrow> (state_store, unit) op" where
  "record_observer_check now safety_status compatibility_status reason =
     raiseS_if (safety_status \<notin> {''safe'', ''unsafe''}) (ValueError ''invalid safety status'')
     (bindS (liftS (utc_iso now)) (\<lambda>at.
      putS (\<lambda>s. s\<lparr>st_checks := (st_checks s)(at \<mapsto> (safety_status, compatibility_status, reason))\<rparr>)))"

definition trigger_key :: "crypto \<Rightarrow> string \<Rightarrow> string \<Rightarrow> string \<Rightarrow> string \<Rightarrow> string" where
  "trigger_key C protocol_digest registry_digest scenario trigger =
     sha256_hex C (utf8 (join ''|'' [protocol_digest, registry_digest, scenario, trigger]))"

end
