(* ===== verification/State_Facts.thy ===== *)
theory State_Facts
  imports State_Store
begin

text \<open>
  What the state store keeps.  \<open>wf_store\<close> is the integrity of the tables (keys,
  references, counters that count the rows they stand for); \<open>store_step\<close> is the
  relation of all its writing operations under one policy of limits, and
  \<open>within_policy\<close> the limits that hold in every state reached by such steps.
\<close>

section \<open>Rows\<close>

lemma count_where_simps [simp]:
  "count_where p [] = 0"
  "count_where p (xs @ ys) = count_where p xs + count_where p ys"
  "count_where p (x # xs) = (if p x then 1 else 0) + count_where p xs"
  by (simp_all add: count_where_def)

lemma count_where_nonneg [simp]: "0 \<le> count_where p xs"
  by (simp add: count_where_def)

lemma count_where_mono: "(\<And>x. x \<in> set xs \<Longrightarrow> p x \<Longrightarrow> q x) \<Longrightarrow> count_where p xs \<le> count_where q xs"
  by (induction xs) fastforce+

lemma count_where_update [simp]:
  "(\<And>r. p (f r) = p r) \<Longrightarrow> count_where p (update_where q f xs) = count_where p xs"
  by (induction xs) (auto simp: update_where_def)

lemma count_where_map: "count_where p (map f xs) = count_where (\<lambda>x. p (f x)) xs"
  by (induction xs) auto

lemma map_update_where [simp]: "(\<And>r. g (f r) = g r) \<Longrightarrow> map g (update_where q f xs) = map g xs"
  by (auto simp: update_where_def)

lemma update_where_Nil [simp]: "update_where q f [] = []"
  by (simp add: update_where_def)

lemma find_None_key: "find p xs = None \<longleftrightarrow> (\<forall>x \<in> set xs. \<not> p x)"
  by (induction xs) auto

lemma find_Some_in: "find p xs = Some x \<Longrightarrow> x \<in> set xs \<and> p x"
  by (induction xs) (auto split: if_splits)

lemma nat_or_zero_simps [simp]: "nat_or_zero None = 0" "nat_or_zero (Some n) = n"
  by (simp_all add: nat_or_zero_def)

section \<open>Integrity of the tables\<close>

definition request_key :: "request_row \<Rightarrow> string \<times> string" where "request_key r = (sq_did r, sq_id r)"
definition job_key :: "job_row \<Rightarrow> string \<times> string" where "job_key r = (jb_did r, jb_id r)"
definition offer_key :: "offer_row \<Rightarrow> string \<times> string" where "offer_key r = (of_did r, of_id r)"
definition reply_key :: "reply_row \<Rightarrow> string \<times> int \<times> int" where
  "reply_key r = (er_room r, er_generation r, er_sequence r)"

lemmas row_keys = request_key_def job_key_def offer_key_def reply_key_def

definition utc_text :: "string \<Rightarrow> bool" where
  "utc_text t = (\<exists>w. in_range w \<and> t = iso_text (utc_at w))"

definition wf_requests :: "state_store \<Rightarrow> bool" where
  "wf_requests s = (distinct (map request_key (st_requests s))
     \<and> (\<forall>day did. nat_or_zero (st_did_quota s (day, did))
          = count_where (\<lambda>r. sq_did r = did \<and> sq_day r = day) (st_requests s))
     \<and> (\<forall>day. nat_or_zero (st_global_quota s day) = count_where (\<lambda>r. sq_day r = day) (st_requests s)))"

definition wf_jobs :: "state_store \<Rightarrow> bool" where
  "wf_jobs s = (distinct (map job_key (st_jobs s))
     \<and> set (map job_key (st_jobs s)) \<subseteq> set (map request_key (st_requests s)))"

definition wf_keys :: "state_store \<Rightarrow> bool" where
  "wf_keys s = (distinct (map offer_key (st_offers s)) \<and> distinct (map reply_key (st_replies s))
     \<and> distinct (map pr_key (st_proactive s)) \<and> distinct (map ob_digest (st_observations s)))"

definition wf_values :: "state_store \<Rightarrow> bool" where
  "wf_values s = ((\<forall>room n g. st_cursors s room = Some (n, g) \<longrightarrow> 0 \<le> n \<and> (\<forall>x. g = Some x \<longrightarrow> 0 \<le> x))
     \<and> (\<forall>k d. st_deliveries s k = Some d \<longrightarrow> (dl_status d = Confirmed \<longleftrightarrow> dl_sequence d \<noteq> None))
     \<and> (\<forall>k. 0 \<le> nat_or_zero (st_usage s k))
     \<and> (\<forall>room sent kind g. st_presence s room = Some (sent, kind, g) \<longrightarrow> kind \<in> set presence_kinds \<and> utc_text sent)
     \<and> (\<forall>r \<in> set (st_replies s). utc_text (er_created r)) \<and> (\<forall>r \<in> set (st_proactive s). utc_text (pr_created r)))"

definition wf_store :: "state_store \<Rightarrow> bool" where
  "wf_store s = (wf_requests s \<and> wf_jobs s \<and> wf_keys s \<and> wf_values s)"

lemmas wf_defs = wf_store_def wf_requests_def wf_jobs_def wf_keys_def wf_values_def

text \<open>Each part depends on few tables: the frame rules of the others.\<close>

lemma wf_frame [simp]:
  "wf_requests (s\<lparr>st_triggers := x_triggers\<rparr>) = wf_requests s"
  "wf_requests (s\<lparr>st_health := x_health\<rparr>) = wf_requests s"
  "wf_requests (s\<lparr>st_bundles := x_bundles\<rparr>) = wf_requests s"
  "wf_requests (s\<lparr>st_usage := x_usage\<rparr>) = wf_requests s"
  "wf_requests (s\<lparr>st_components := x_components\<rparr>) = wf_requests s"
  "wf_requests (s\<lparr>st_observations := x_observations\<rparr>) = wf_requests s"
  "wf_requests (s\<lparr>st_checks := x_checks\<rparr>) = wf_requests s"
  "wf_requests (s\<lparr>st_cursors := x_cursors\<rparr>) = wf_requests s"
  "wf_requests (s\<lparr>st_deliveries := x_deliveries\<rparr>) = wf_requests s"
  "wf_requests (s\<lparr>st_jobs := x_jobs\<rparr>) = wf_requests s"
  "wf_requests (s\<lparr>st_offers := x_offers\<rparr>) = wf_requests s"
  "wf_requests (s\<lparr>st_presence := x_presence\<rparr>) = wf_requests s"
  "wf_requests (s\<lparr>st_eng_cursors := x_eng_cursors\<rparr>) = wf_requests s"
  "wf_requests (s\<lparr>st_replies := x_replies\<rparr>) = wf_requests s"
  "wf_requests (s\<lparr>st_proactive := x_proactive\<rparr>) = wf_requests s"
  "wf_jobs (s\<lparr>st_triggers := x_triggers\<rparr>) = wf_jobs s"
  "wf_jobs (s\<lparr>st_did_quota := x_did_quota\<rparr>) = wf_jobs s"
  "wf_jobs (s\<lparr>st_global_quota := x_global_quota\<rparr>) = wf_jobs s"
  "wf_jobs (s\<lparr>st_health := x_health\<rparr>) = wf_jobs s"
  "wf_jobs (s\<lparr>st_bundles := x_bundles\<rparr>) = wf_jobs s"
  "wf_jobs (s\<lparr>st_usage := x_usage\<rparr>) = wf_jobs s"
  "wf_jobs (s\<lparr>st_components := x_components\<rparr>) = wf_jobs s"
  "wf_jobs (s\<lparr>st_observations := x_observations\<rparr>) = wf_jobs s"
  "wf_jobs (s\<lparr>st_checks := x_checks\<rparr>) = wf_jobs s"
  "wf_jobs (s\<lparr>st_cursors := x_cursors\<rparr>) = wf_jobs s"
  "wf_jobs (s\<lparr>st_deliveries := x_deliveries\<rparr>) = wf_jobs s"
  "wf_jobs (s\<lparr>st_offers := x_offers\<rparr>) = wf_jobs s"
  "wf_jobs (s\<lparr>st_presence := x_presence\<rparr>) = wf_jobs s"
  "wf_jobs (s\<lparr>st_eng_cursors := x_eng_cursors\<rparr>) = wf_jobs s"
  "wf_jobs (s\<lparr>st_replies := x_replies\<rparr>) = wf_jobs s"
  "wf_jobs (s\<lparr>st_proactive := x_proactive\<rparr>) = wf_jobs s"
  "wf_keys (s\<lparr>st_triggers := x_triggers\<rparr>) = wf_keys s"
  "wf_keys (s\<lparr>st_requests := x_requests\<rparr>) = wf_keys s"
  "wf_keys (s\<lparr>st_did_quota := x_did_quota\<rparr>) = wf_keys s"
  "wf_keys (s\<lparr>st_global_quota := x_global_quota\<rparr>) = wf_keys s"
  "wf_keys (s\<lparr>st_health := x_health\<rparr>) = wf_keys s"
  "wf_keys (s\<lparr>st_bundles := x_bundles\<rparr>) = wf_keys s"
  "wf_keys (s\<lparr>st_usage := x_usage\<rparr>) = wf_keys s"
  "wf_keys (s\<lparr>st_components := x_components\<rparr>) = wf_keys s"
  "wf_keys (s\<lparr>st_checks := x_checks\<rparr>) = wf_keys s"
  "wf_keys (s\<lparr>st_cursors := x_cursors\<rparr>) = wf_keys s"
  "wf_keys (s\<lparr>st_deliveries := x_deliveries\<rparr>) = wf_keys s"
  "wf_keys (s\<lparr>st_jobs := x_jobs\<rparr>) = wf_keys s"
  "wf_keys (s\<lparr>st_presence := x_presence\<rparr>) = wf_keys s"
  "wf_keys (s\<lparr>st_eng_cursors := x_eng_cursors\<rparr>) = wf_keys s"
  "wf_values (s\<lparr>st_triggers := x_triggers\<rparr>) = wf_values s"
  "wf_values (s\<lparr>st_requests := x_requests\<rparr>) = wf_values s"
  "wf_values (s\<lparr>st_did_quota := x_did_quota\<rparr>) = wf_values s"
  "wf_values (s\<lparr>st_global_quota := x_global_quota\<rparr>) = wf_values s"
  "wf_values (s\<lparr>st_health := x_health\<rparr>) = wf_values s"
  "wf_values (s\<lparr>st_bundles := x_bundles\<rparr>) = wf_values s"
  "wf_values (s\<lparr>st_components := x_components\<rparr>) = wf_values s"
  "wf_values (s\<lparr>st_observations := x_observations\<rparr>) = wf_values s"
  "wf_values (s\<lparr>st_checks := x_checks\<rparr>) = wf_values s"
  "wf_values (s\<lparr>st_jobs := x_jobs\<rparr>) = wf_values s"
  "wf_values (s\<lparr>st_offers := x_offers\<rparr>) = wf_values s"
  "wf_values (s\<lparr>st_eng_cursors := x_eng_cursors\<rparr>) = wf_values s"
  by (simp_all add: wf_requests_def wf_jobs_def wf_keys_def wf_values_def)

lemma wf_empty: "wf_store empty_store"
  by (simp add: wf_defs empty_store_def)

lemma utc_iso_Inr: "utc_iso t = Inr x \<longleftrightarrow> in_range (instant t) \<and> x = iso_text (utc_at (instant t))"
  by (auto simp: utc_iso_def to_utc_Inr)

lemma utc_iso_text: "utc_iso t = Inr x \<Longrightarrow> utc_text x"
  by (auto simp: utc_iso_Inr utc_text_def)

text \<open>An operation that starts by computing a text keeps what its remainder keeps.\<close>

lemma liftS_bind_state:
  "(\<And>a. x = Inr a \<Longrightarrow> I (snd (f a s))) \<Longrightarrow> I s \<Longrightarrow> I (snd (bindS (liftS x) f s))"
  by (cases x) simp_all

lemma transactionS_state:
  "(\<And>a t. m s = (Inr a, t) \<Longrightarrow> I t) \<Longrightarrow> I s \<Longrightarrow> I (snd (transactionS m s))"
  by (auto simp: transactionS_def split: prod.splits sum.splits)

lemma raiseS_if_state:
  "(\<not> b \<Longrightarrow> I (snd (k s))) \<Longrightarrow> I s \<Longrightarrow> I (snd (raiseS_if b e k s))"
  by (simp add: raiseS_if_def)

lemma ifS_state:
  "(b \<Longrightarrow> I (snd (m s))) \<Longrightarrow> (\<not> b \<Longrightarrow> I (snd (n s))) \<Longrightarrow> I (snd (ifS b m n s))"
  by (simp add: ifS_def)

lemmas wf_rules = liftS_bind_state [where I = wf_store] transactionS_state [where I = wf_store]
  raiseS_if_state [where I = wf_store] ifS_state [where I = wf_store]

section \<open>Operations that touch the plain maps\<close>

lemma wf_register_trigger: "wf_store s \<Longrightarrow> wf_store (snd (register_trigger k now s))"
  unfolding register_trigger_def by (rule wf_rules) (auto simp: wf_store_def)

lemma wf_update_requests:
  "wf_store s \<Longrightarrow> (\<And>r. request_key (f r) = request_key r \<and> sq_day (f r) = sq_day r) \<Longrightarrow>
   wf_store (s\<lparr>st_requests := update_where p f (st_requests s)\<rparr>)"
  by (simp add: wf_store_def wf_requests_def wf_jobs_def request_key_def)

lemma wf_update_jobs:
  "wf_store s \<Longrightarrow> (\<And>r. job_key (f r) = job_key r) \<Longrightarrow>
   wf_store (s\<lparr>st_jobs := update_where p f (st_jobs s)\<rparr>)"
  by (simp add: wf_store_def wf_jobs_def)

lemma wf_store_result:
  assumes w: "wf_store s"
  shows "wf_store (snd (store_result clock did rid res s))"
  unfolding store_result_def
proof (rule wf_rules(2) [OF _ w])
  fix a t
  assume "(if count_where (is_request did rid) (st_requests s) \<noteq> 1
     then (Inl (ValueError ''unknown service request''), s)
     else bindS (liftS (utc_iso clock)) (\<lambda>at. putS (\<lambda>s. s\<lparr>
       st_requests := update_where (is_request did rid) (\<lambda>r. r\<lparr>sq_result := Some res\<rparr>) (st_requests s),
       st_jobs := update_where (is_job did rid)
                    (\<lambda>j. j\<lparr>jb_status := ''complete'', jb_updated := at\<rparr>) (st_jobs s)\<rparr>)) s) = (Inr a, t)"
  then obtain at where t: "t = s\<lparr>st_requests := update_where (is_request did rid) (\<lambda>r. r\<lparr>sq_result := Some res\<rparr>) (st_requests s),
       st_jobs := update_where (is_job did rid) (\<lambda>j. j\<lparr>jb_status := ''complete'', jb_updated := at\<rparr>) (st_jobs s)\<rparr>"
    by (auto split: if_splits)
  have "wf_store (s\<lparr>st_requests := update_where (is_request did rid) (\<lambda>r. r\<lparr>sq_result := Some res\<rparr>) (st_requests s)\<rparr>)"
    using w by (rule wf_update_requests) (simp add: request_key_def)
  from wf_update_jobs [OF this, of "\<lambda>j. j\<lparr>jb_status := ''complete'', jb_updated := at\<rparr>" "is_job did rid"]
  show "wf_store t" by (simp add: t job_key_def)
qed

lemma wf_mark_job: "wf_store s \<Longrightarrow> wf_store (snd (mark_job did rid st now s))"
  unfolding mark_job_def Let_def
  by (intro wf_rules) (auto intro!: wf_update_jobs simp: job_key_def)

lemma wf_set_room_generation: "wf_store s \<Longrightarrow> wf_store (snd (set_room_generation room g reset s))"
  by (auto simp: set_room_generation_def wf_store_def wf_values_def room_cursor_def split: option.split)

lemma room_cursor_nonneg: "wf_store s \<Longrightarrow> 0 \<le> room_cursor room s"
  by (auto simp: wf_store_def wf_values_def room_cursor_def split: option.split)

lemma wf_cursor:
  "wf_store s \<Longrightarrow> 0 \<le> n \<Longrightarrow> (\<forall>x. g = Some x \<longrightarrow> 0 \<le> x) \<Longrightarrow>
   wf_store (s\<lparr>st_cursors := (st_cursors s)(room \<mapsto> (n, g))\<rparr>)"
  by (simp add: wf_store_def wf_values_def)

lemma wf_advance_room_cursor:
  assumes w: "wf_store s"
  shows "wf_store (snd (advance_room_cursor room n s))"
proof (cases "st_cursors s room")
  case None
  then show ?thesis using w room_cursor_nonneg [OF w, of room]
    by (simp add: advance_room_cursor_def wf_cursor)
next
  case (Some c)
  moreover obtain m g where "c = (m, g)" by (cases c)
  moreover have "0 \<le> m \<and> (\<forall>x. g = Some x \<longrightarrow> 0 \<le> x)"
    using w calculation by (simp add: wf_store_def wf_values_def)
  ultimately show ?thesis using w by (auto simp: advance_room_cursor_def intro!: wf_cursor)
qed

lemma wf_set_engagement_checkpoint: "wf_store s \<Longrightarrow> wf_store (snd (set_engagement_checkpoint room n g s))"
  by (simp add: set_engagement_checkpoint_def wf_store_def)

lemma wf_record_service_presence: "wf_store s \<Longrightarrow> wf_store (snd (record_service_presence room at kind g s))"
  unfolding record_service_presence_def
  by (intro wf_rules) (auto simp: wf_store_def wf_values_def dest: utc_iso_text)

lemma wf_prepare_delivery: "wf_store s \<Longrightarrow> wf_store (snd (prepare_delivery k a r d n x g s))"
  by (simp add: prepare_delivery_def wf_store_def wf_values_def)

lemma wf_confirm_delivery: "wf_store s \<Longrightarrow> wf_store (snd (confirm_delivery k n s))"
  by (simp add: confirm_delivery_def wf_store_def wf_values_def split: option.split)

lemma wf_record_infrastructure_error: "wf_store s \<Longrightarrow> wf_store (snd (record_infrastructure_error c now s))"
  unfolding record_infrastructure_error_def by (rule wf_rules) (auto simp: wf_store_def)

lemma wf_register_bundle: "wf_store s \<Longrightarrow> wf_store (snd (register_bundle root path now s))"
  unfolding register_bundle_def by (rule wf_rules) (auto simp: wf_store_def)

lemma usage_nonneg: "wf_store s \<Longrightarrow> 0 \<le> usage p k s"
  by (simp add: wf_store_def wf_values_def usage_def)

lemma wf_usage: "wf_store s \<Longrightarrow> 0 \<le> n \<Longrightarrow> wf_store (s\<lparr>st_usage := (st_usage s)(k \<mapsto> n)\<rparr>)"
  by (simp add: wf_store_def wf_values_def)

lemma wf_reserve_usage: "wf_store s \<Longrightarrow> wf_store (snd (reserve_usage p k amount limit s))"
  unfolding reserve_usage_def
  by (intro wf_rules) (auto intro!: wf_usage simp: usage_nonneg split: if_splits)

lemma wf_record_component_result: "wf_store s \<Longrightarrow> wf_store (snd (record_component_result c ok th now s))"
  unfolding record_component_result_def Let_def
  by (intro wf_rules) (auto simp: wf_store_def)

lemma wf_record_protocol_observation: "wf_store s \<Longrightarrow> wf_store (snd (record_protocol_observation d r now s))"
  unfolding record_protocol_observation_def
  by (intro wf_rules) (auto simp: wf_store_def wf_keys_def list_ex_iff split: if_splits)

lemma wf_record_observer_check: "wf_store s \<Longrightarrow> wf_store (snd (record_observer_check now a b c s))"
  unfolding record_observer_check_def by (intro wf_rules) (auto simp: wf_store_def)

section \<open>Reservations\<close>

lemma wf_reserve_discovery_offer: "wf_store s \<Longrightarrow> wf_store (snd (reserve_discovery_offer did rid h now l s))"
  unfolding reserve_discovery_offer_def
proof (intro wf_rules(1,2))
  fix day a t
  assume w: "wf_store s"
  assume "(case find (is_offer did rid) (st_offers s) of
         Some e \<Rightarrow> (Inr (if of_hash e = h then ''duplicate'' else ''conflict''), s)
       | None \<Rightarrow>
          if l \<le> count_where (\<lambda>r. of_did r = did \<and> of_day r = day) (st_offers s)
          then (Inr ''quota'', s)
          else (Inr ''accepted'', s\<lparr>st_offers := st_offers s @
                 [\<lparr>of_did = did, of_id = rid, of_hash = h, of_day = day\<rparr>]\<rparr>)) = (Inr a, t)"
  then show "wf_store t" using w
    by (auto simp: wf_store_def wf_keys_def find_None_key is_offer_def offer_key_def split: option.splits if_splits)
qed

text \<open>The one branch of \<open>reserve_request\<close> that writes.\<close>

lemma reserve_request_accepted:
  assumes "reserve_request did rid h ack now l g json depth s = (Inr a, t)"
  shows "(t = s \<and> a \<noteq> ''accepted'') \<or>
    (\<exists>day jobs. utc_day now = Inr day \<and> a = ''accepted'' \<and> find (is_request did rid) (st_requests s) = None
       \<and> nat_or_zero (st_did_quota s (day, did)) < l \<and> nat_or_zero (st_global_quota s day) < g
       \<and> (\<forall>d. depth = Some d \<longrightarrow> count_where queued (st_jobs s) < d)
       \<and> (jobs = st_jobs s \<or> (find (is_job did rid) (st_jobs s) = None \<and> (\<exists>j at. json = Some j \<and>
            jobs = st_jobs s @ [\<lparr>jb_did = did, jb_id = rid, jb_json = j, jb_status = ''accepted'', jb_updated = at\<rparr>])))
       \<and> t = bump_quotas day did ((insert_request did rid h ack day s)\<lparr>st_jobs := jobs\<rparr>))"
proof -
  obtain day where day: "utc_day now = Inr day" using assms by (auto simp: reserve_request_def)
  show ?thesis
  proof (cases "find (is_request did rid) (st_requests s)")
    case (Some e)
    then show ?thesis using assms day by (auto simp: reserve_request_def split: if_splits)
  next
    case None
    note find = this
    let ?quota = "l \<le> nat_or_zero (st_did_quota s (day, did)) \<or> g \<le> nat_or_zero (st_global_quota s day)"
    let ?busy = "case depth of None \<Rightarrow> False | Some d \<Rightarrow> d \<le> count_where queued (st_jobs s)"
    show ?thesis
    proof (cases "?quota \<or> ?busy")
      case True
      then show ?thesis using assms day find by (auto simp: reserve_request_def split: if_splits)
    next
      case False
      then have depth: "\<forall>d. depth = Some d \<longrightarrow> count_where queued (st_jobs s) < d" by auto
      let ?s1 = "insert_request did rid h ack day s"
      have jobs1: "st_jobs ?s1 = st_jobs s" by (simp add: insert_request_def)
      from assms day find False obtain u where
        u: "(case json of None \<Rightarrow> retS () | Some j \<Rightarrow> bindS (liftS (utc_iso now)) (insert_job did rid j)) ?s1 = (Inr (), u)"
        and t: "a = ''accepted''" "t = bump_quotas day did u"
        by (auto simp: reserve_request_def)
      have "\<exists>jobs. u = ?s1\<lparr>st_jobs := jobs\<rparr> \<and> (jobs = st_jobs s \<or>
          (find (is_job did rid) (st_jobs s) = None \<and> (\<exists>j at. json = Some j \<and>
            jobs = st_jobs s @ [\<lparr>jb_did = did, jb_id = rid, jb_json = j, jb_status = ''accepted'', jb_updated = at\<rparr>])))"
      proof (cases json)
        case None
        then show ?thesis using u jobs1 by (intro exI [of _ "st_jobs s"]) (auto simp: insert_request_def)
      next
        case (Some j)
        then show ?thesis using u jobs1 by (auto simp: insert_job_def split: if_splits)
      qed
      then show ?thesis using t day find False depth by (auto simp: not_le)
    qed
  qed
qed

lemma is_key:
  "is_request did rid r \<longleftrightarrow> request_key r = (did, rid)"
  "is_job did rid j \<longleftrightarrow> job_key j = (did, rid)"
  "is_reply room g n e \<longleftrightarrow> reply_key e = (room, g, n)"
  by (auto simp: is_request_def is_job_def is_reply_def row_keys)

lemma wf_reserve_request_day:
  assumes "wf_store s" "find (is_request did rid) (st_requests s) = None"
    and jobs: "jobs = st_jobs s \<or> (find (is_job did rid) (st_jobs s) = None \<and>
         (\<exists>j at. json = Some j \<and> jobs = st_jobs s @ [\<lparr>jb_did = did, jb_id = rid, jb_json = j, jb_status = ''accepted'', jb_updated = at\<rparr>]))"
  shows "wf_store (bump_quotas day did ((insert_request did rid h ack day s)\<lparr>st_jobs := jobs\<rparr>))"
proof -
  let ?r = "\<lparr>sq_did = did, sq_id = rid, sq_hash = h, sq_ack = ack, sq_result = None, sq_day = day\<rparr>"
  let ?t = "bump_quotas day did ((insert_request did rid h ack day s)\<lparr>st_jobs := jobs\<rparr>)"
  note defs = bump_quotas_def insert_request_def
  have r: "request_key ?r = (did, rid)" by (simp add: request_key_def)
  have new: "request_key ?r \<notin> request_key ` set (st_requests s)"
    using assms(2) by (auto simp: find_None_key is_key r)
  have "wf_requests ?t" using assms(1) new
    by (auto simp: wf_store_def wf_requests_def defs)
  moreover have keys: "distinct (map job_key (st_jobs s))"
      "job_key ` set (st_jobs s) \<subseteq> request_key ` set (st_requests s)"
    using assms(1) by (auto simp: wf_store_def wf_jobs_def)
  have "wf_jobs ?t" using jobs
  proof (elim disjE conjE exE)
    assume "jobs = st_jobs s"
    then show ?thesis using keys by (auto simp: wf_jobs_def defs)
  next
    fix j at
    assume n: "find (is_job did rid) (st_jobs s) = None"
      and js: "jobs = st_jobs s @ [\<lparr>jb_did = did, jb_id = rid, jb_json = j, jb_status = ''accepted'', jb_updated = at\<rparr>]"
    have "job_key \<lparr>jb_did = did, jb_id = rid, jb_json = j, jb_status = ''accepted'', jb_updated = at\<rparr> = (did, rid)"
      by (simp add: job_key_def)
    moreover have "(did, rid) \<notin> job_key ` set (st_jobs s)" using n by (auto simp: find_None_key is_key)
    ultimately show ?thesis using keys by (auto simp: wf_jobs_def defs js r)
  qed
  moreover have "wf_keys ?t" "wf_values ?t" using assms(1) by (simp_all add: wf_store_def defs)
  ultimately show ?thesis by (simp add: wf_store_def)
qed

lemma reserve_request_error: "reserve_request did rid h ack now l g json depth s = (Inl e, t) \<Longrightarrow> t = s"
  unfolding reserve_request_def bindS_eq_Inl
  by (cases "utc_day now") (auto dest: transactionS_error)

lemma wf_reserve_request: "wf_store s \<Longrightarrow> wf_store (snd (reserve_request did rid h ack now l g json depth s))"
proof -
  assume w: "wf_store s"
  obtain x t where r: "reserve_request did rid h ack now l g json depth s = (x, t)"
    by (cases "reserve_request did rid h ack now l g json depth s")
  show ?thesis
  proof (cases x)
    case (Inl e)
    then show ?thesis using reserve_request_error r w by fastforce
  next
    case (Inr a)
    then show ?thesis using reserve_request_accepted [of did rid h ack now l g json depth s a t] r
        wf_reserve_request_day [OF w] w by auto
  qed
qed

lemma reserve_engagement_reserved:
  assumes "reserve_engagement_reply room g n did now m hours s = (Inr a, t)"
  shows "(t = s \<and> a \<noteq> ''reserved'') \<or>
    (in_range (instant now) \<and> a = ''reserved'' \<and> find (is_reply room g n) (st_replies s) = None
     \<and> in_range (instant now - 7 * us_per_day) \<and> in_range (instant now - hours * us_per_hour)
     \<and> count_where (\<lambda>r. iso_text (utc_at (day_floor (instant now))) \<le> er_created r) (st_replies s) < m
     \<and> (\<forall>r \<in> set (st_replies s). er_author r = did \<longrightarrow> er_created r < iso_text (utc_at (instant now - 7 * us_per_day)))
     \<and> (\<forall>r \<in> set (st_replies s). er_room r = room \<longrightarrow> er_created r < iso_text (utc_at (instant now - hours * us_per_hour)))
     \<and> t = s\<lparr>st_replies := st_replies s @ [\<lparr>er_room = room, er_generation = g, er_sequence = n, er_author = did,
              er_created = iso_text (utc_at (instant now))\<rparr>]\<rparr>)"
proof (cases "find (is_reply room g n) (st_replies s)")
  case (Some e)
  then show ?thesis using assms by (auto simp: reserve_engagement_reply_def to_utc_Inr split: if_splits)
next
  case None
  then show ?thesis using assms
    by (auto simp: reserve_engagement_reply_def to_utc_Inr list_ex_iff not_le Let_def split: if_splits)
qed

lemma reserve_proactive_reserved:
  assumes "reserve_proactive_post key room now act days m hours s = (Inr a, t)"
  shows "(t = s \<and> a \<noteq> ''reserved'') \<or>
    (in_range (instant now) \<and> a = ''reserved'' \<and> (\<forall>r \<in> set (st_proactive s). pr_key r \<noteq> key)
     \<and> instant act \<le> instant now \<and> instant now < instant act + days * us_per_day
     \<and> in_range (instant now - hours * us_per_hour) \<and> in_range (day_floor (instant now) + us_per_day)
     \<and> count_where (\<lambda>r. pr_room r = room \<and> iso_text (utc_at (day_floor (instant now))) \<le> pr_created r
          \<and> pr_created r < iso_text (utc_at (day_floor (instant now) + us_per_day))) (st_proactive s) < m
     \<and> (\<forall>r \<in> set (st_replies s). er_room r = room \<longrightarrow> er_created r \<le> iso_text (utc_at (instant now - hours * us_per_hour)))
     \<and> (\<forall>r \<in> set (st_proactive s). pr_room r = room \<longrightarrow> pr_created r \<le> iso_text (utc_at (instant now - hours * us_per_hour)))
     \<and> t = s\<lparr>st_proactive := st_proactive s @ [\<lparr>pr_key = key, pr_room = room, pr_created = iso_text (utc_at (instant now))\<rparr>]\<rparr>)"
proof (cases "list_ex (\<lambda>r. pr_key r = key) (st_proactive s)")
  case True
  then show ?thesis using assms
    by (auto simp: reserve_proactive_post_def ifS_def to_utc_Inr split: if_splits)
next
  case False
  then show ?thesis using assms
    by (auto simp: reserve_proactive_post_def ifS_def to_utc_Inr list_ex_iff not_less not_le Let_def split: if_splits)
qed

lemma reserve_engagement_error: "reserve_engagement_reply room g n did now m hours s = (Inl e, t) \<Longrightarrow> t = s"
  unfolding reserve_engagement_reply_def bindS_eq_Inl
  by (cases "to_utc now") (auto dest: transactionS_error)

lemma reserve_proactive_error: "reserve_proactive_post key room now act days m hours s = (Inl e, t) \<Longrightarrow> t = s"
  unfolding reserve_proactive_post_def bindS_eq_Inl
  by (auto simp: bindS_eq_Inl ifS_def to_utc_Inr split: if_splits dest: transactionS_error)

lemma wf_add_reply:
  "wf_store s \<Longrightarrow> reply_key r \<notin> reply_key ` set (st_replies s) \<Longrightarrow> utc_text (er_created r) \<Longrightarrow>
   wf_store (s\<lparr>st_replies := st_replies s @ [r]\<rparr>)"
  by (auto simp: wf_store_def wf_keys_def wf_values_def)

lemma wf_add_proactive:
  "wf_store s \<Longrightarrow> pr_key r \<notin> pr_key ` set (st_proactive s) \<Longrightarrow> utc_text (pr_created r) \<Longrightarrow>
   wf_store (s\<lparr>st_proactive := st_proactive s @ [r]\<rparr>)"
  by (auto simp: wf_store_def wf_keys_def wf_values_def)

lemma utc_textI: "in_range w \<Longrightarrow> utc_text (iso_text (utc_at w))"
  by (auto simp: utc_text_def)

lemma wf_reserve_engagement_reply:
  assumes w: "wf_store s"
  shows "wf_store (snd (reserve_engagement_reply room g n did now m hours s))"
proof -
  obtain x t where r: "reserve_engagement_reply room g n did now m hours s = (x, t)"
    by (cases "reserve_engagement_reply room g n did now m hours s")
  show ?thesis
  proof (cases x)
    case (Inl e)
    then show ?thesis using reserve_engagement_error r w by fastforce
  next
    case (Inr a)
    then have "t = s \<or> wf_store t"
      using reserve_engagement_reserved [of room g n did now m hours s a t] r w
      by (auto simp: find_None_key is_key reply_key_def intro!: wf_add_reply utc_textI)
    then show ?thesis using r w by auto
  qed
qed

lemma wf_reserve_proactive_post:
  assumes w: "wf_store s"
  shows "wf_store (snd (reserve_proactive_post key room now act days m hours s))"
proof -
  obtain x t where r: "reserve_proactive_post key room now act days m hours s = (x, t)"
    by (cases "reserve_proactive_post key room now act days m hours s")
  show ?thesis
  proof (cases x)
    case (Inl e)
    then show ?thesis using reserve_proactive_error r w by fastforce
  next
    case (Inr a)
    then have "t = s \<or> wf_store t"
      using reserve_proactive_reserved [of key room now act days m hours s a t] r w
      by (auto intro!: wf_add_proactive utc_textI)
    then show ?thesis using r w by auto
  qed
qed

end
