(* ===== verification/Store_Policy.thy ===== *)
theory Store_Policy
  imports State_Facts
begin

text \<open>
  The state store as a transition system.  \<open>store_step P\<close> is one call of any
  writing method, the reservations with the limits of the policy \<open>P\<close>;
  \<open>within_policy P\<close> holds in every state that is reached: the daily quotas, and
  the distances in time between engagement posts.
\<close>

record policy =
  pol_per_did :: int
  pol_global :: int
  pol_offers :: int
  pol_replies :: int
  pol_room_hours :: int
  pol_proactive :: int
  pol_interval :: int

inductive store_step :: "policy \<Rightarrow> state_store \<Rightarrow> state_store \<Rightarrow> bool" for P where
  step_trigger: "store_step P s (snd (register_trigger k now s))"
| step_offer: "store_step P s (snd (reserve_discovery_offer did rid h now (pol_offers P) s))"
| step_request: "store_step P s
    (snd (reserve_request did rid h ack now (pol_per_did P) (pol_global P) json depth s))"
| step_result: "store_step P s (snd (store_result clock did rid res s))"
| step_job: "store_step P s (snd (mark_job did rid st now s))"
| step_generation: "store_step P s (snd (set_room_generation room g reset s))"
| step_cursor: "store_step P s (snd (advance_room_cursor room n s))"
| step_eng_cursor: "store_step P s (snd (set_engagement_checkpoint room n g s))"
| step_reply: "store_step P s
    (snd (reserve_engagement_reply room g n author now (pol_replies P) (pol_room_hours P) s))"
| step_proactive: "store_step P s
    (snd (reserve_proactive_post key room now act days (pol_proactive P) (pol_interval P) s))"
| step_presence: "store_step P s (snd (record_service_presence room now kind gen s))"
| step_prepare: "store_step P s (snd (prepare_delivery key actor room did n text sig s))"
| step_confirm: "store_step P s (snd (confirm_delivery key n s))"
| step_infrastructure: "store_step P s (snd (record_infrastructure_error c now s))"
| step_bundle: "store_step P s (snd (register_bundle root path now s))"
| step_usage: "store_step P s (snd (reserve_usage period kind amount limit s))"
| step_component: "store_step P s (snd (record_component_result c ok threshold now s))"
| step_observation: "store_step P s (snd (record_protocol_observation d release now s))"
| step_observer_check: "store_step P s (snd (record_observer_check now a b reason s))"

definition store_reach :: "policy \<Rightarrow> state_store \<Rightarrow> bool" where
  "store_reach P s = (store_step P)\<^sup>*\<^sup>* empty_store s"

section \<open>Limits\<close>

definition text_time :: "string \<Rightarrow> int" where
  "text_time t = (case from_iso t of None \<Rightarrow> 0 | Some d \<Rightarrow> instant d)"

definition reply_time :: "reply_row \<Rightarrow> int" where "reply_time r = text_time (er_created r)"
definition proactive_time :: "proactive_row \<Rightarrow> int" where "proactive_time r = text_time (pr_created r)"

definition request_owner :: "request_row \<Rightarrow> string \<times> string" where "request_owner r = (sq_day r, sq_did r)"
definition offer_owner :: "offer_row \<Rightarrow> string \<times> string" where "offer_owner r = (of_day r, of_did r)"

definition requests_on :: "string \<Rightarrow> string \<Rightarrow> state_store \<Rightarrow> int" where
  "requests_on day did s = count_where (\<lambda>x. x = (day, did)) (map request_owner (st_requests s))"

definition all_requests_on :: "string \<Rightarrow> state_store \<Rightarrow> int" where
  "all_requests_on day s = count_where (\<lambda>x. fst x = day) (map request_owner (st_requests s))"

definition offers_on :: "string \<Rightarrow> string \<Rightarrow> state_store \<Rightarrow> int" where
  "offers_on day did s = count_where (\<lambda>x. x = (day, did)) (map offer_owner (st_offers s))"

definition replies_on :: "int \<Rightarrow> state_store \<Rightarrow> int" where
  "replies_on day s = count_where (\<lambda>r. day_floor (reply_time r) = day) (st_replies s)"

definition proactive_on :: "int \<Rightarrow> string \<Rightarrow> state_store \<Rightarrow> int" where
  "proactive_on day room s = count_where (\<lambda>r. day_floor (proactive_time r) = day \<and> pr_room r = room) (st_proactive s)"

definition quotas_kept :: "policy \<Rightarrow> state_store \<Rightarrow> bool" where
  "quotas_kept P s = ((\<forall>day did. requests_on day did s \<le> max 0 (pol_per_did P))
     \<and> (\<forall>day. all_requests_on day s \<le> max 0 (pol_global P))
     \<and> (\<forall>day did. offers_on day did s \<le> max 0 (pol_offers P)))"

definition replies_spaced :: "policy \<Rightarrow> state_store \<Rightarrow> bool" where
  "replies_spaced P s = ((\<forall>day. replies_on day s \<le> max 0 (pol_replies P))
     \<and> sorted_wrt (\<lambda>r r'. er_author r = er_author r' \<longrightarrow> reply_time r + 7 * us_per_day < reply_time r') (st_replies s)
     \<and> sorted_wrt (\<lambda>r r'. er_room r = er_room r' \<longrightarrow> reply_time r + pol_room_hours P * us_per_hour < reply_time r')
         (st_replies s))"

definition proactive_spaced :: "policy \<Rightarrow> state_store \<Rightarrow> bool" where
  "proactive_spaced P s = ((\<forall>day room. proactive_on day room s \<le> max 0 (pol_proactive P))
     \<and> sorted_wrt (\<lambda>r r'. pr_room r = pr_room r' \<longrightarrow>
          proactive_time r + pol_interval P * us_per_hour \<le> proactive_time r') (st_proactive s))"

definition within_policy :: "policy \<Rightarrow> state_store \<Rightarrow> bool" where
  "within_policy P s = (quotas_kept P s \<and> replies_spaced P s \<and> proactive_spaced P s)"

section \<open>Operations that leave the limited tables alone\<close>

definition same_rows :: "state_store \<Rightarrow> state_store \<Rightarrow> bool" where
  "same_rows s t = (map request_owner (st_requests t) = map request_owner (st_requests s)
     \<and> st_offers t = st_offers s \<and> st_replies t = st_replies s \<and> st_proactive t = st_proactive s)"

lemma same_rows_refl [simp]: "same_rows s s"
  by (simp add: same_rows_def)

lemma within_policy_frame: "within_policy P s \<Longrightarrow> same_rows s t \<Longrightarrow> within_policy P t"
  by (simp add: within_policy_def same_rows_def quotas_kept_def requests_on_def all_requests_on_def
      offers_on_def replies_spaced_def replies_on_def proactive_spaced_def proactive_on_def)

lemmas same_rules = liftS_bind_state [where I = "same_rows s" for s]
  transactionS_state [where I = "same_rows s" for s] raiseS_if_state [where I = "same_rows s" for s]

lemma same_rows_map:
  "same_rows s (snd (register_trigger k now s))"
  "same_rows s (snd (set_room_generation room g reset s))"
  "same_rows s (snd (advance_room_cursor room n s))"
  "same_rows s (snd (set_engagement_checkpoint room n g' s))"
  "same_rows s (snd (prepare_delivery key actor room did n text sig s))"
  "same_rows s (snd (confirm_delivery key n s))"
  "same_rows s (snd (record_infrastructure_error c now s))"
  "same_rows s (snd (register_bundle root path now s))"
  by (auto simp: same_rows_def register_trigger_def set_room_generation_def advance_room_cursor_def
      set_engagement_checkpoint_def prepare_delivery_def confirm_delivery_def
      record_infrastructure_error_def register_bundle_def bindS_liftS split: sum.splits option.splits)

lemma same_rows_mark_job: "same_rows s (snd (mark_job did rid st now s))"
  unfolding mark_job_def Let_def by (intro same_rules) (auto simp: same_rows_def)

lemma same_rows_presence: "same_rows s (snd (record_service_presence room now kind gen s))"
  unfolding record_service_presence_def by (intro same_rules) (auto simp: same_rows_def)

lemma same_rows_usage: "same_rows s (snd (reserve_usage period kind amount limit s))"
  unfolding reserve_usage_def by (intro same_rules) (auto simp: same_rows_def split: if_splits)

lemma same_rows_component: "same_rows s (snd (record_component_result c ok threshold now s))"
  unfolding record_component_result_def Let_def by (intro same_rules) (auto simp: same_rows_def)

lemma same_rows_observation: "same_rows s (snd (record_protocol_observation d release now s))"
  unfolding record_protocol_observation_def
  by (intro same_rules) (auto simp: same_rows_def split: if_splits)

lemma same_rows_check: "same_rows s (snd (record_observer_check now a b reason s))"
  unfolding record_observer_check_def by (intro same_rules) (auto simp: same_rows_def)

lemma same_rows_result: "same_rows s (snd (store_result clock did rid res s))"
  unfolding store_result_def
  by (intro same_rules(2)) (auto simp: same_rows_def request_owner_def split: if_splits)

lemmas same_rows_ops = same_rows_map same_rows_mark_job same_rows_presence same_rows_usage
  same_rows_component same_rows_observation same_rows_check same_rows_result

section \<open>Reservations keep the limits\<close>

lemma text_time_iso: "in_range w \<Longrightarrow> text_time (iso_text (utc_at w)) = w"
  by (simp add: text_time_def from_iso_text)

lemma text_time_order:
  assumes "utc_text t" "in_range w"
  shows "t < iso_text (utc_at w) \<longleftrightarrow> text_time t < w" "t \<le> iso_text (utc_at w) \<longleftrightarrow> text_time t \<le> w"
    "iso_text (utc_at w) \<le> t \<longleftrightarrow> w \<le> text_time t"
  using assms by (auto simp: utc_text_def text_time_iso iso_text_less_iff iso_text_le_iff)

lemma requests_on_quota:
  assumes "wf_store s"
  shows "nat_or_zero (st_did_quota s (day, did)) = requests_on day did s"
    and "nat_or_zero (st_global_quota s day) = all_requests_on day s"
proof -
  show "nat_or_zero (st_did_quota s (day, did)) = requests_on day did s"
    and "nat_or_zero (st_global_quota s day) = all_requests_on day s"
    using assms by (simp_all add: wf_store_def wf_requests_def requests_on_def all_requests_on_def
        request_owner_def count_where_map conj_commute)
qed

lemma quotas_reserve_request:
  assumes w: "wf_store s" and k: "quotas_kept P s"
    and t: "reserve_request did rid h ack now (pol_per_did P) (pol_global P) json depth s = (x, t)"
  shows "quotas_kept P t \<and> st_replies t = st_replies s \<and> st_proactive t = st_proactive s"
proof (cases x)
  case (Inl e)
  then show ?thesis using reserve_request_error t k by blast
next
  case (Inr a)
  consider "t = s" | day jobs where "nat_or_zero (st_did_quota s (day, did)) < pol_per_did P"
      "nat_or_zero (st_global_quota s day) < pol_global P"
      "t = bump_quotas day did ((insert_request did rid h ack day s)\<lparr>st_jobs := jobs\<rparr>)"
    using reserve_request_accepted [OF t [unfolded Inr]] by blast
  then show ?thesis
  proof cases
    case (2 day jobs)
    then have q: "nat_or_zero (st_did_quota s (day, did)) < pol_per_did P" "nat_or_zero (st_global_quota s day) < pol_global P"
      and t: "t = bump_quotas day did ((insert_request did rid h ack day s)\<lparr>st_jobs := jobs\<rparr>)" by auto
    have "map request_owner (st_requests t) = map request_owner (st_requests s) @ [(day, did)]"
      by (simp add: t bump_quotas_def insert_request_def request_owner_def)
    then have "requests_on d' did' t = requests_on d' did' s + (if d' = day \<and> did' = did then 1 else 0)"
      "all_requests_on d' t = all_requests_on d' s + (if d' = day then 1 else 0)" for d' did'
      by (auto simp: requests_on_def all_requests_on_def)
    moreover have "offers_on d' did' t = offers_on d' did' s" for d' did'
      by (simp add: offers_on_def t bump_quotas_def insert_request_def)
    ultimately have "quotas_kept P t" using k q unfolding requests_on_quota [OF w]
      by (auto simp: quotas_kept_def)
    then show ?thesis by (simp add: t bump_quotas_def insert_request_def)
  qed (use k in simp_all)
qed

lemma offer_accepted:
  assumes "reserve_discovery_offer did rid h now l s = (x, t)"
  shows "t = s \<or> (\<exists>day. offers_on day did s < l \<and>
    t = s\<lparr>st_offers := st_offers s @ [\<lparr>of_did = did, of_id = rid, of_hash = h, of_day = day\<rparr>]\<rparr>)"
proof (cases "utc_day now")
  case (Inl e)
  then show ?thesis using assms by (simp add: reserve_discovery_offer_def)
next
  case (Inr day)
  have "offers_on day did s = count_where (\<lambda>r. of_did r = did \<and> of_day r = day) (st_offers s)"
    by (simp add: offers_on_def offer_owner_def count_where_map conj_commute)
  then have "t = s \<or> (offers_on day did s < l \<and>
      t = s\<lparr>st_offers := st_offers s @ [\<lparr>of_did = did, of_id = rid, of_hash = h, of_day = day\<rparr>]\<rparr>)"
    using assms Inr
    by (auto simp: reserve_discovery_offer_def transactionS_def split: option.splits if_splits)
  then show ?thesis by blast
qed

lemma quotas_reserve_offer:
  assumes k: "quotas_kept P s" and t: "reserve_discovery_offer did rid h now (pol_offers P) s = (x, t)"
  shows "quotas_kept P t \<and> st_replies t = st_replies s \<and> st_proactive t = st_proactive s"
  using offer_accepted [OF t]
proof (elim disjE exE conjE)
  fix day
  assume q: "offers_on day did s < pol_offers P"
    and t: "t = s\<lparr>st_offers := st_offers s @ [\<lparr>of_did = did, of_id = rid, of_hash = h, of_day = day\<rparr>]\<rparr>"
  have "offers_on d' did' t = offers_on d' did' s + (if d' = day \<and> did' = did then 1 else 0)" for d' did'
    by (auto simp: offers_on_def t offer_owner_def)
  moreover have "requests_on d' did' t = requests_on d' did' s" "all_requests_on d' t = all_requests_on d' s" for d' did'
    by (simp_all add: requests_on_def all_requests_on_def t)
  ultimately have "quotas_kept P t" using k q by (auto simp: quotas_kept_def)
  then show ?thesis by (simp add: t)
qed (use k in simp_all)

lemma day_floor_mono: "v \<le> w \<Longrightarrow> day_floor v \<le> day_floor w"
  unfolding day_floor_def minus_mod_eq_div_mult us_per_day_def
  by (simp add: zdiv_mono1)

lemma day_floor_idem: "day_floor (day_floor w) = day_floor w"
  unfolding day_floor_def minus_mod_eq_div_mult us_per_day_def by simp

lemma replies_reserve:
  assumes w: "wf_store s" and k: "replies_spaced P s"
    and t: "reserve_engagement_reply room g n did now (pol_replies P) (pol_room_hours P) s = (x, t)"
  shows "replies_spaced P t \<and> st_requests t = st_requests s \<and> st_offers t = st_offers s \<and> st_proactive t = st_proactive s"
proof (cases x)
  case (Inl e)
  then show ?thesis using reserve_engagement_error t k by blast
next
  case (Inr a)
  let ?w = "instant now"
  from reserve_engagement_reserved [OF t [unfolded Inr]] show ?thesis
  proof (elim disjE exE conjE)
    assume r: "in_range ?w" "in_range (?w - 7 * us_per_day)" "in_range (?w - pol_room_hours P * us_per_hour)"
      and c: "count_where (\<lambda>r. iso_text (utc_at (day_floor ?w)) \<le> er_created r) (st_replies s) < pol_replies P"
      and auth: "\<forall>r\<in>set (st_replies s). er_author r = did \<longrightarrow> er_created r < iso_text (utc_at (?w - 7 * us_per_day))"
      and rm: "\<forall>r\<in>set (st_replies s). er_room r = room \<longrightarrow>
           er_created r < iso_text (utc_at (?w - pol_room_hours P * us_per_hour))"
      and t: "t = s\<lparr>st_replies := st_replies s @ [\<lparr>er_room = room, er_generation = g, er_sequence = n,
           er_author = did, er_created = iso_text (utc_at ?w)\<rparr>]\<rparr>"
    have utc: "r \<in> set (st_replies s) \<Longrightarrow> utc_text (er_created r)" for r
      using w by (simp add: wf_store_def wf_values_def)
    have "replies_on (day_floor ?w) s \<le> count_where (\<lambda>r. iso_text (utc_at (day_floor ?w)) \<le> er_created r) (st_replies s)"
      unfolding replies_on_def
      using utc day_floor_le by (intro count_where_mono)
        (auto simp: text_time_order day_floor_range [OF r(1)] reply_time_def, metis)
    then have "replies_on (day_floor ?w) s < pol_replies P" using c by simp
    moreover have "replies_on d t = replies_on d s + (if d = day_floor ?w then 1 else 0)" for d
      using text_time_iso [OF r(1)] by (simp add: replies_on_def t reply_time_def)
    ultimately have "\<forall>d. replies_on d t \<le> max 0 (pol_replies P)"
      using k by (auto simp: replies_spaced_def)
    moreover have "\<forall>r\<in>set (st_replies s). er_author r = did \<longrightarrow> reply_time r + 7 * us_per_day < ?w"
      "\<forall>r\<in>set (st_replies s). er_room r = room \<longrightarrow> reply_time r + pol_room_hours P * us_per_hour < ?w"
      using auth rm r utc by (auto simp: text_time_order reply_time_def)
    ultimately show ?thesis using k text_time_iso [OF r(1)]
      by (simp add: replies_spaced_def t sorted_wrt_append reply_time_def)
  qed (use k in simp_all)
qed

lemma proactive_reserve:
  assumes w: "wf_store s" and k: "proactive_spaced P s"
    and t: "reserve_proactive_post key room now act days (pol_proactive P) (pol_interval P) s = (x, t)"
  shows "proactive_spaced P t \<and> st_requests t = st_requests s \<and> st_offers t = st_offers s \<and> st_replies t = st_replies s"
proof (cases x)
  case (Inl e)
  then show ?thesis using reserve_proactive_error t k by blast
next
  case (Inr a)
  let ?w = "instant now"
  from reserve_proactive_reserved [OF t [unfolded Inr]] show ?thesis
  proof (elim disjE exE conjE)
    assume r: "in_range ?w" "in_range (?w - pol_interval P * us_per_hour)" "in_range (day_floor ?w + us_per_day)"
      and c: "count_where (\<lambda>r. pr_room r = room \<and> iso_text (utc_at (day_floor ?w)) \<le> pr_created r
          \<and> pr_created r < iso_text (utc_at (day_floor ?w + us_per_day))) (st_proactive s) < pol_proactive P"
      and rm: "\<forall>r\<in>set (st_proactive s). pr_room r = room \<longrightarrow>
           pr_created r \<le> iso_text (utc_at (?w - pol_interval P * us_per_hour))"
      and t: "t = s\<lparr>st_proactive := st_proactive s @ [\<lparr>pr_key = key, pr_room = room, pr_created = iso_text (utc_at ?w)\<rparr>]\<rparr>"
    have utc: "r \<in> set (st_proactive s) \<Longrightarrow> utc_text (pr_created r)" for r
      using w by (simp add: wf_store_def wf_values_def)
    have next_day: "v < day_floor v + us_per_day" for v
      by (simp add: day_floor_def us_per_day_def)
    have "proactive_on (day_floor ?w) room s \<le> count_where (\<lambda>r. pr_room r = room
          \<and> iso_text (utc_at (day_floor ?w)) \<le> pr_created r
          \<and> pr_created r < iso_text (utc_at (day_floor ?w + us_per_day))) (st_proactive s)"
      unfolding proactive_on_def
    proof (rule count_where_mono)
      fix x assume x: "x \<in> set (st_proactive s)"
        "day_floor (proactive_time x) = day_floor ?w \<and> pr_room x = room"
      then have "day_floor ?w \<le> proactive_time x" "proactive_time x < day_floor ?w + us_per_day"
        using day_floor_le [of "proactive_time x"] next_day [of "proactive_time x"] by auto
      then show "pr_room x = room \<and> iso_text (utc_at (day_floor ?w)) \<le> pr_created x
          \<and> pr_created x < iso_text (utc_at (day_floor ?w + us_per_day))"
        using x utc r by (simp add: text_time_order day_floor_range proactive_time_def)
    qed
    then have "proactive_on (day_floor ?w) room s < pol_proactive P" using c by simp
    moreover have "proactive_on d rm' t = proactive_on d rm' s + (if d = day_floor ?w \<and> rm' = room then 1 else 0)" for d rm'
      using text_time_iso [OF r(1)] by (auto simp: proactive_on_def t proactive_time_def)
    ultimately have "\<forall>d rm'. proactive_on d rm' t \<le> max 0 (pol_proactive P)"
      using k by (auto simp: proactive_spaced_def)
    moreover have "\<forall>r\<in>set (st_proactive s). pr_room r = room \<longrightarrow> proactive_time r + pol_interval P * us_per_hour \<le> ?w"
      using rm r utc by (auto simp: text_time_order proactive_time_def)
    ultimately show ?thesis using k text_time_iso [OF r(1)]
      by (simp add: proactive_spaced_def t sorted_wrt_append proactive_time_def)
  qed (use k in simp_all)
qed

section \<open>Reachable states\<close>

lemma wf_store_step: "store_step P s t \<Longrightarrow> wf_store s \<Longrightarrow> wf_store t"
  by (induction rule: store_step.induct)
    (simp_all add: wf_register_trigger wf_reserve_discovery_offer wf_reserve_request wf_store_result
      wf_mark_job wf_set_room_generation wf_advance_room_cursor wf_set_engagement_checkpoint
      wf_reserve_engagement_reply wf_reserve_proactive_post wf_record_service_presence wf_prepare_delivery
      wf_confirm_delivery wf_record_infrastructure_error wf_register_bundle wf_reserve_usage
      wf_record_component_result wf_record_protocol_observation wf_record_observer_check)

lemma policy_offer:
  assumes "wf_store s" "within_policy P s"
  shows "within_policy P (snd (reserve_discovery_offer did rid h now (pol_offers P) s))"
  using quotas_reserve_offer [of P s did rid h now "fst (reserve_discovery_offer did rid h now (pol_offers P) s)"] assms
  by (auto simp: within_policy_def replies_spaced_def proactive_spaced_def replies_on_def proactive_on_def)

lemma policy_request:
  assumes "wf_store s" "within_policy P s"
  shows "within_policy P (snd (reserve_request did rid h ack now (pol_per_did P) (pol_global P) json depth s))"
  using quotas_reserve_request [OF assms(1), of P did rid h ack now json depth
      "fst (reserve_request did rid h ack now (pol_per_did P) (pol_global P) json depth s)"] assms(2)
  by (auto simp: within_policy_def replies_spaced_def proactive_spaced_def replies_on_def proactive_on_def)

lemma policy_reply:
  assumes "wf_store s" "within_policy P s"
  shows "within_policy P (snd (reserve_engagement_reply room g n did now (pol_replies P) (pol_room_hours P) s))"
  using replies_reserve [OF assms(1), of P room g n did now
      "fst (reserve_engagement_reply room g n did now (pol_replies P) (pol_room_hours P) s)"] assms(2)
  by (auto simp: within_policy_def quotas_kept_def requests_on_def all_requests_on_def offers_on_def
      proactive_spaced_def proactive_on_def)

lemma policy_proactive:
  assumes "wf_store s" "within_policy P s"
  shows "within_policy P (snd (reserve_proactive_post key room now act days (pol_proactive P) (pol_interval P) s))"
  using proactive_reserve [OF assms(1), of P key room now act days
      "fst (reserve_proactive_post key room now act days (pol_proactive P) (pol_interval P) s)"] assms(2)
  by (auto simp: within_policy_def quotas_kept_def requests_on_def all_requests_on_def offers_on_def
      replies_spaced_def replies_on_def)

lemma policy_step: "store_step P s t \<Longrightarrow> wf_store s \<Longrightarrow> within_policy P s \<Longrightarrow> within_policy P t"
proof (induction rule: store_step.induct)
  case step_offer
  then show ?case by (simp add: policy_offer)
next
  case step_request
  then show ?case by (simp add: policy_request)
next
  case step_reply
  then show ?case by (simp add: policy_reply)
next
  case step_proactive
  then show ?case by (simp add: policy_proactive)
qed (rule within_policy_frame, assumption, rule same_rows_ops)+

lemma within_policy_empty: "within_policy P empty_store"
  by (simp add: within_policy_def quotas_kept_def requests_on_def all_requests_on_def offers_on_def
      replies_spaced_def replies_on_def proactive_spaced_def proactive_on_def empty_store_def)

lemma store_reach_invariant: "store_reach P s \<Longrightarrow> wf_store s \<and> within_policy P s"
  unfolding store_reach_def
proof (induction rule: rtranclp_induct)
  case base
  then show ?case by (simp add: wf_empty within_policy_empty)
next
  case (step s t)
  then show ?case using wf_store_step policy_step by blast
qed

section \<open>Properties\<close>

text \<open>
  C5: The tables stay consistent: in every state that calls of the writing methods reach, with any
  arguments and clocks, keys are unique, every job has its request, the quota counters equal the
  number of accepted requests they stand for, cursors are not negative and a delivery is confirmed
  exactly when it has a sequence.
\<close>

theorem store_integrity:
  assumes "store_reach P s"
  shows "wf_store s"
  using store_reach_invariant [OF assms] by blast

definition demo_policy :: policy where
  "demo_policy = \<lparr>pol_per_did = 1, pol_global = 5, pol_offers = 1, pol_replies = 2, pol_room_hours = 24,
     pol_proactive = 1, pol_interval = 6\<rparr>"

definition demo_now :: datetime where "demo_now = utc_at 63900000000000000"

definition demo_store :: state_store where
  "demo_store = snd (reserve_engagement_reply ''lobby'' 0 7 ''did:key:zA'' demo_now (pol_replies demo_policy)
     (pol_room_hours demo_policy) empty_store)"

lemma demo_store_reach: "store_reach demo_policy demo_store"
  unfolding store_reach_def demo_store_def by (rule r_into_rtranclp) (rule store_step.step_reply)

lemma store_integrity_witness: "wf_store demo_store"
  by (rule store_integrity [OF demo_store_reach])

text \<open>
  C2: Service quotas hold over time: in every reachable state, no DID has more accepted requests on
  one UTC day than the per-DID limit, no day has more than the global limit, and no DID has more
  discovery offers on a day than allowed, whatever duplicates, conflicts, errors and clock changes
  happened in between.
\<close>

theorem daily_quotas_never_exceeded:
  assumes "store_reach P s"
  shows "requests_on day did s \<le> max 0 (pol_per_did P) \<and> all_requests_on day s \<le> max 0 (pol_global P)
    \<and> offers_on day did s \<le> max 0 (pol_offers P)"
  using store_reach_invariant [OF assms] by (simp add: within_policy_def quotas_kept_def)

lemma daily_quotas_never_exceeded_witness: "requests_on ''2025-12-01'' ''did:key:zA'' demo_store \<le> 1"
  using daily_quotas_never_exceeded [OF demo_store_reach, of "''2025-12-01''" "''did:key:zA''"]
  by (simp add: demo_policy_def)

text \<open>
  C6: Engagement replies keep their distance: in every reachable state, a UTC day has at most the
  allowed number of replies, two replies to the same author are more than seven days apart and two
  replies in the same room are more than the cooldown apart, in the order in which they were made.
\<close>

theorem replies_keep_distance:
  assumes "store_reach P s" "i < j" "j < length (st_replies s)"
  shows "replies_on day s \<le> max 0 (pol_replies P)
    \<and> (er_author (st_replies s ! i) = er_author (st_replies s ! j) \<longrightarrow>
         reply_time (st_replies s ! i) + 7 * us_per_day < reply_time (st_replies s ! j))
    \<and> (er_room (st_replies s ! i) = er_room (st_replies s ! j) \<longrightarrow>
         reply_time (st_replies s ! i) + pol_room_hours P * us_per_hour < reply_time (st_replies s ! j))"
  using store_reach_invariant [OF assms(1)] assms(2,3)
  by (simp add: within_policy_def replies_spaced_def sorted_wrt_iff_nth_less)

definition demo_store2 :: state_store where
  "demo_store2 = snd (reserve_engagement_reply ''lobby'' 0 8 ''did:key:zB'' (utc_at 64000000000000000)
     (pol_replies demo_policy) (pol_room_hours demo_policy) demo_store)"

lemma demo_store2_reach: "store_reach demo_policy demo_store2"
  using demo_store_reach unfolding store_reach_def demo_store2_def
  by (rule rtranclp.rtrancl_into_rtrancl) (rule store_step.step_reply)

lemma replies_keep_distance_witness:
  "length (st_replies demo_store2) = 2 \<and>
   reply_time (st_replies demo_store2 ! 0) + 24 * us_per_hour < reply_time (st_replies demo_store2 ! 1)"
proof -
  have rooms: "map er_room (st_replies demo_store2) = [''lobby'', ''lobby'']" by code_simp
  then have len: "length (st_replies demo_store2) = 2" by (metis length_map length_Cons list.size(3) numeral_2_eq_2)
  have "er_room (st_replies demo_store2 ! 0) = ''lobby''" "er_room (st_replies demo_store2 ! 1) = ''lobby''"
    using rooms len by (metis nth_map nth_Cons_0 zero_less_numeral, metis One_nat_def lessI nth_Cons_0 nth_Cons_Suc nth_map numeral_2_eq_2)
  then show ?thesis using replies_keep_distance [OF demo_store2_reach, of 0 1] len by (simp add: demo_policy_def)
qed

end
