(* ===== verification/Operations.thy ===== *)
theory Operations
  imports Store_Policy
begin

text \<open>
  \<open>rosetta/operations.py\<close>, \<open>registry.py\<close>, \<open>scheduler.py\<close> and \<open>observability.py\<close>: the gate
  that every outward action passes, redaction of logged values, the adapter
  registry, the trigger scheduler and the counters.  What the operations share
  is the record \<open>base\<close>: the state store and whether the kill-switch file
  exists; components with more state extend it.
\<close>

section \<open>The shared state\<close>

record base =
  b_store :: state_store
  b_kill :: bool

text \<open>A method of the store, run in the larger state.\<close>

definition in_store :: "(state_store, 'a) op \<Rightarrow> ('w base_scheme, 'a) op" where
  "in_store f w = (case f (b_store w) of (r, s) \<Rightarrow> (r, w\<lparr>b_store := s\<rparr>))"

section \<open>The operational gate\<close>

record gate_limits =
  gl_runs_per_day :: int
  gl_budget_cents :: int
  gl_quarantine_after :: int

definition default_limits :: gate_limits where
  "default_limits = \<lparr>gl_runs_per_day = 4, gl_budget_cents = 4000, gl_quarantine_after = 3\<rparr>"

definition require_operational :: "('w base_scheme, unit) op" where
  "require_operational w = (if b_kill w then (Inl (RuntimeError ''kill_switch_active''), w) else (Inr (), w))"

definition gate_require :: "string \<Rightarrow> ('w base_scheme, unit) op" where
  "gate_require component = bindS require_operational (\<lambda>_ w.
     if component_quarantined component (b_store w)
     then (Inl (RuntimeError (''component_quarantined:'' @ component)), w) else (Inr (), w))"

definition reserve_run :: "gate_limits \<Rightarrow> datetime \<Rightarrow> int \<Rightarrow> ('w base_scheme, unit) op" where
  "reserve_run G now estimated_cost_cents =
     bindS (gate_require ''scheduler'') (\<lambda>_.
     bindS (liftS (to_utc now)) (\<lambda>current.
     bindS (in_store (reserve_usage (date_text (day_no current)) ''runs'' 1 (gl_runs_per_day G))) (\<lambda>ok.
     raiseS_if (\<not> ok) (RuntimeError ''daily_run_quota_exceeded'')
     (bindS (in_store (reserve_usage (month_text (day_no current)) ''cost_cents'' estimated_cost_cents (gl_budget_cents G))) (\<lambda>ok.
     raiseS_if (\<not> ok) (RuntimeError ''monthly_budget_exceeded'')
     (retS ()))))))"

definition gate_record :: "gate_limits \<Rightarrow> string \<Rightarrow> bool \<Rightarrow> datetime \<Rightarrow> ('w base_scheme, int \<times> bool) op" where
  "gate_record G component success now =
     in_store (record_component_result component success (gl_quarantine_after G) now)"

text \<open>
  \<open>slot\<close>: the check before and after waiting for a free slot; what other tasks
  do while this one waits is the argument \<open>wait\<close>.
\<close>

definition gate_slot :: "string \<Rightarrow> ('w base_scheme, unit) op \<Rightarrow> ('w base_scheme, 'a) op \<Rightarrow> ('w base_scheme, 'a) op" where
  "gate_slot component wait body =
     bindS (gate_require component) (\<lambda>_. bindS wait (\<lambda>_. bindS (gate_require component) (\<lambda>_. body)))"

section \<open>Redaction\<close>

definition sensitive_words :: "string list" where
  "sensitive_words = [''authorization'', ''cookie'', ''token'', ''secret'', ''password'', ''seed'', ''credential'']"

definition sensitive_key :: "string \<Rightarrow> bool" where
  "sensitive_key k = list_ex (\<lambda>w. contains w (map lower_ascii k)) sensitive_words"

definition url_char :: "char \<Rightarrow> bool" where
  "url_char c = (\<not> is_space c \<and> c \<noteq> CHR 0x22 \<and> c \<noteq> CHR 0x27)"

text \<open>The length of a match of \<open>https?://[^\s"']+\<close> at the start of the text.\<close>

definition url_match :: "string \<Rightarrow> nat" where
  "url_match s = (let n = (if starts_with ''https://'' s then 8 else if starts_with ''http://'' s then 7 else 0);
      k = length (takeWhile url_char (drop n s)) in if n = 0 \<or> k = 0 then 0 else n + k)"

definition token_char :: "char \<Rightarrow> bool" where
  "token_char c = (is_ascii_digit c \<or> (65 \<le> code c \<and> code c \<le> 90) \<or> (97 \<le> code c \<and> code c \<le> 122)
     \<or> c \<in> {CHR ''.'', CHR ''_'', CHR ''~'', CHR ''-''})"

text \<open>The length of a match of \<open>Bearer\s+[A-Za-z0-9._~-]+\<close>, case ignored.\<close>

definition bearer_match :: "string \<Rightarrow> nat" where
  "bearer_match s = (if map lower_ascii (take 6 s) = ''bearer''
     then (let r = drop 6 s; b = length (takeWhile is_space r); k = length (takeWhile token_char (drop b r))
           in if b = 0 \<or> k = 0 then 0 else 6 + b + k) else 0)"

text \<open>\<open>re.sub\<close>: the leftmost matches replaced one after the other.\<close>

function sub_all :: "(string \<Rightarrow> nat) \<Rightarrow> string \<Rightarrow> string \<Rightarrow> string" where
  "sub_all f rep [] = []"
| "sub_all f rep (c # cs) = (if f (c # cs) = 0 then c # sub_all f rep cs
     else rep @ sub_all f rep (drop (f (c # cs)) (c # cs)))"
  by pat_completeness auto
termination by (relation "measure (\<lambda>(f, rep, s). length s)") auto

definition redact_text :: "nat \<Rightarrow> string \<Rightarrow> string" where
  "redact_text max_string s = sub_all bearer_match ''Bearer [REDACTED]''
     (sub_all url_match ''[REDACTED_URL]'' (take max_string s))"

fun redact :: "nat \<Rightarrow> pyval \<Rightarrow> pyval"
and redact_list :: "pyval list \<Rightarrow> pyval list"
and redact_items :: "(string \<times> pyval) list \<Rightarrow> (string \<times> pyval) list" where
  "redact n (PDict kvs) = PDict (sort_key fst (redact_items kvs))"
| "redact n (PDictOther kvs rest) = PDict (dict_of_pairs (sort_key fst (redact_items kvs @ redact_items rest)))"
| "redact n (PList vs) = PList (take 100 (redact_list vs))"
| "redact n (PStr s) = PStr (redact_text n s)"
| "redact n v = v"
| "redact_list [] = []"
| "redact_list (v # vs) = redact 512 v # redact_list vs"
| "redact_items [] = []"
| "redact_items ((k, v) # kvs) =
     (k, if sensitive_key k then PStr ''[REDACTED]'' else redact 512 v) # redact_items kvs"

record decision_trace =
  dt_mode :: string
  dt_kill_switch :: bool
  dt_public_write :: bool
  dt_publisher_enabled :: bool
  dt_model_provider :: string

definition decision_dict :: "decision_trace \<Rightarrow> pyval" where
  "decision_dict d = PDict [(''mode'', PStr (dt_mode d)), (''kill_switch'', PBool (dt_kill_switch d)),
     (''public_write'', PBool (dt_public_write d)), (''publisher_enabled'', PBool (dt_publisher_enabled d)),
     (''model_provider'', PStr (dt_model_provider d))]"

section \<open>The adapter registry\<close>

type_synonym registry = "adapter_manifest list"

definition make_registry :: "adapter_manifest list \<Rightarrow> registry result" where
  "make_registry ms = raise_if (\<not> distinct (map am_id ms)) (ValueError ''duplicate adapter id'') (Inr ms)"

text \<open>\<open>load\<close>: the YAML document is read by a third-party parser into \<open>raw\<close>.\<close>

definition load_registry :: "pydantic \<Rightarrow> pyval \<Rightarrow> registry result" where
  "load_registry P raw = bindE (parse_registry_contract P raw) make_registry"

definition manifest_dict :: "adapter_manifest \<Rightarrow> pyval" where
  "manifest_dict m = PDict [(''id'', PStr (am_id m)), (''runtime'', PStr (am_runtime m)),
     (''source_repository'', PStr (am_source_repository m)),
     (''source_revision_kind'', PStr (am_source_revision_kind m)),
     (''source_revision'', PStr (am_source_revision m)),
     (''wrapper_revision_sha256'', opt_str (am_wrapper_revision m)),
     (''dependency_lock_sha256'', PStr (am_dependency_lock m)), (''image'', PStr (am_image m)),
     (''image_digest'', PStr (am_image_digest m)), (''transport'', PStr (am_transport m)),
     (''capabilities'', PList (map PStr (am_capabilities m)))]"

definition registry_digest :: "crypto \<Rightarrow> registry \<Rightarrow> string result" where
  "registry_digest C reg = bindE (canonical_json (PDict [(''schema'', PStr ''rosetta.adapter-registry.v1''),
     (''adapters'', PList (map manifest_dict reg))])) (\<lambda>raw. Inr (''sha256:'' @ sha256_hex C raw))"

definition registry_require :: "registry \<Rightarrow> string \<Rightarrow> adapter_manifest result" where
  "registry_require reg adapter_id =
     of_option (ValueError ''unallowlisted adapter'') (find (\<lambda>m. am_id m = adapter_id) reg)"

definition contains_exact :: "registry \<Rightarrow> adapter_manifest \<Rightarrow> bool" where
  "contains_exact reg m = (find (\<lambda>k. am_id k = am_id m) reg = Some m)"

definition registry_ids :: "registry \<Rightarrow> string list" where
  "registry_ids reg = sort (map am_id reg)"

section \<open>The scheduler\<close>

definition required_matrix :: "(string \<times> string) list" where
  "required_matrix = [(''raw-fetch'', ''official-mcp''), (''official-mcp'', ''python-http''),
     (''python-http'', ''typescript-http''), (''typescript-http'', ''raw-fetch'')]"

definition compile_matrix :: "registry \<Rightarrow> (string \<times> string) list result" where
  "compile_matrix reg = bindE (mapE (\<lambda>(p, c). bindE (registry_require reg p) (\<lambda>_. registry_require reg c)) required_matrix)
     (\<lambda>_. Inr required_matrix)"

definition scheduler_observe ::
  "crypto \<Rightarrow> gate_limits \<Rightarrow> registry \<Rightarrow> string \<Rightarrow> string \<Rightarrow> string \<Rightarrow> datetime \<Rightarrow> ('w base_scheme, bool) op" where
  "scheduler_observe C G reg protocol_digest scenario trigger now =
     bindS (liftS (registry_digest C reg)) (\<lambda>digest.
     bindS (gate_require ''scheduler'') (\<lambda>_.
     bindS (in_store (register_trigger (trigger_key C protocol_digest digest scenario trigger) now)) (\<lambda>accepted.
     ifS accepted (bindS (reserve_run G now 0) (\<lambda>_. retS accepted)) (retS accepted))))"

section \<open>Metrics\<close>

type_synonym metrics = "(string \<times> int) list"

definition is_alnum :: "char \<Rightarrow> bool" where
  "is_alnum c = (is_digit c \<or> is_lower c \<or> (65 \<le> code c \<and> code c \<le> 90)
     \<or> (192 \<le> code c \<and> code c \<le> 222 \<and> code c \<noteq> 215) \<or> (188 \<le> code c \<and> code c \<le> 190))"

definition metric_increment :: "string \<Rightarrow> int \<Rightarrow> (metrics, unit) op" where
  "metric_increment name value ms = (let bare = filter (\<lambda>c. c \<noteq> CHR ''_'') name in
     if bare = [] \<or> \<not> list_all is_alnum bare then (Inl (ValueError ''metric names are closed identifiers''), ms)
     else (Inr (), dict_put name ((case map_of ms name of None \<Rightarrow> 0 | Some v \<Rightarrow> v) + value) ms))"

definition metric_snapshot :: "metrics \<Rightarrow> (string \<times> int) list" where
  "metric_snapshot ms = sort_key fst ms"

section \<open>Lemmas on the gate\<close>

lemma in_store_eq: "in_store f w = (r, w') \<longleftrightarrow> (\<exists>s. f (b_store w) = (r, s) \<and> w' = w\<lparr>b_store := s\<rparr>)"
  by (auto simp: in_store_def split: prod.splits)

lemma gate_require_Inr [simp]:
  "gate_require c w = (Inr u, w') \<longleftrightarrow> \<not> b_kill w \<and> \<not> component_quarantined c (b_store w) \<and> w' = w"
  by (auto simp: gate_require_def require_operational_def bindS_def)

lemma gate_require_open:
  "\<not> b_kill w \<Longrightarrow> \<not> component_quarantined c (b_store w) \<Longrightarrow> gate_require c w = (Inr (), w)"
  by simp

lemma gate_require_state: "snd (gate_require c w) = w"
  by (auto simp: gate_require_def require_operational_def bindS_def)

lemma gate_require_killed: "b_kill w \<Longrightarrow> gate_require c w = (Inl (RuntimeError ''kill_switch_active''), w)"
  by (simp add: gate_require_def require_operational_def bindS_def)

lemma gate_require_quarantined:
  "\<not> b_kill w \<Longrightarrow> component_quarantined c (b_store w) \<Longrightarrow>
   gate_require c w = (Inl (RuntimeError (''component_quarantined:'' @ c)), w)"
  by (simp add: gate_require_def require_operational_def bindS_def)

text \<open>A guarded body runs only when the gate is open, and leaves everything alone otherwise.\<close>

lemma gate_bind_closed:
  "b_kill w \<or> component_quarantined c (b_store w) \<Longrightarrow>
   \<exists>e. bindS (gate_require c) f w = (Inl (RuntimeError e), w)"
  using gate_require_killed [of w c] gate_require_quarantined [of w c]
  by (cases "b_kill w") (auto simp: bindS_def)

lemma gate_bind_open:
  "\<not> b_kill w \<Longrightarrow> \<not> component_quarantined c (b_store w) \<Longrightarrow> bindS (gate_require c) f w = f () w"
  by (simp add: bindS_def gate_require_open)

text \<open>Consecutive failures: the count that the store keeps for a component.\<close>

definition component_errors :: "string \<Rightarrow> state_store \<Rightarrow> int" where
  "component_errors c s = (case st_components s c of None \<Rightarrow> 0 | Some (e, _) \<Rightarrow> e)"

lemma gate_record_counts:
  assumes "gate_record G c ok now w = (Inr (e, q), w')"
  shows "e = (if ok then 0 else component_errors c (b_store w) + 1) \<and> q = (gl_quarantine_after G \<le> e)
    \<and> component_errors c (b_store w') = e \<and> component_quarantined c (b_store w') = q
    \<and> b_kill w' = b_kill w"
  using assms
  by (auto simp: gate_record_def in_store_eq record_component_result_def component_errors_def
      component_quarantined_def Let_def split: option.splits)

section \<open>Lemmas on budgets\<close>

lemma reserve_usage_Inr:
  "reserve_usage p k a l s = (Inr b, t) \<longleftrightarrow> 0 \<le> a \<and> 0 \<le> l \<and>
     (if l < usage p k s + a then \<not> b \<and> t = s
      else bindable a \<and> b \<and> t = s\<lparr>st_usage := (st_usage s)((p, k) \<mapsto> usage p k s + a)\<rparr>)"
  by (auto simp: reserve_usage_def not_less split: if_splits)

lemma reserve_usage_bound:
  "reserve_usage p k a l s = (Inr b, t) \<Longrightarrow> usage p k s \<le> l \<Longrightarrow>
   usage p k t \<le> l \<and> usage p k s \<le> usage p k t"
  by (auto simp: reserve_usage_Inr usage_def split: if_splits)

lemma reserve_run_Inr:
  assumes "reserve_run G now cents w = (Inr u, w')"
  shows "\<not> b_kill w \<and> \<not> component_quarantined ''scheduler'' (b_store w)
    \<and> (\<exists>c. to_utc now = Inr c \<and>
       usage (date_text (day_no c)) ''runs'' (b_store w') \<le> gl_runs_per_day G \<and>
       usage (date_text (day_no c)) ''runs'' (b_store w') = usage (date_text (day_no c)) ''runs'' (b_store w) + 1 \<and>
       usage (month_text (day_no c)) ''cost_cents'' (b_store w') \<le> gl_budget_cents G \<and>
       usage (month_text (day_no c)) ''cost_cents'' (b_store w')
         = usage (month_text (day_no c)) ''cost_cents'' (b_store w) + cents)"
  using assms
  by (auto simp: reserve_run_def in_store_eq reserve_usage_Inr usage_def not_less split: if_splits)

section \<open>Lemmas on the registry\<close>

lemma make_registry_Inr: "make_registry ms = Inr reg \<longleftrightarrow> distinct (map am_id ms) \<and> reg = ms"
  by (auto simp: make_registry_def)

lemma registry_contract_list:
  assumes "parse_registry_contract P raw = Inr ms"
  shows "\<exists>vs. mapE (parse_manifest P) vs = Inr ms"
proof -
  obtain kvs where k: "(case map_of kvs ''adapters'' of Some (PList ms) \<Rightarrow> mapE (parse_manifest P) ms | _ \<Rightarrow> invalid) = Inr ms"
    using assms by (auto simp: parse_registry_contract_def)
  show ?thesis
  proof (cases "map_of kvs ''adapters''")
    case (Some v)
    then show ?thesis using k by (cases v) auto
  qed (use k in simp)
qed

lemma load_registry_valid:
  assumes "load_registry P raw = Inr reg"
  shows "distinct (map am_id reg) \<and> (\<forall>m \<in> set reg. valid_manifest m)"
proof -
  have r: "parse_registry_contract P raw = Inr reg" and d: "distinct (map am_id reg)"
    using assms by (auto simp: load_registry_def make_registry_Inr)
  obtain vs where "mapE (parse_manifest P) vs = Inr reg" using registry_contract_list [OF r] by blast
  from mapE_all [OF this, of valid_manifest] parse_manifest_valid show ?thesis
    using d by (simp add: list_all_iff)
qed

lemma registry_require_Inr: "registry_require reg i = Inr m \<Longrightarrow> m \<in> set reg \<and> am_id m = i"
  by (auto simp: registry_require_def dest: find_Some_in)

lemma find_key: "distinct (map f xs) \<Longrightarrow> x \<in> set xs \<Longrightarrow> find (\<lambda>y. f y = f x) xs = Some x"
proof (induction xs)
  case (Cons a xs)
  then show ?case by (cases "x = a") auto
qed simp

lemma contains_exact_iff: "distinct (map am_id reg) \<Longrightarrow> contains_exact reg m \<longleftrightarrow> m \<in> set reg"
  using find_key [of am_id reg m] by (auto simp: contains_exact_def dest: find_Some_in)

section \<open>Lemmas on redaction\<close>

text \<open>
  What a redacted value must look like, stated without the filter: a key names a secret when one of the seven
  words occurs in it, whatever the case of its letters; no value but the mark stands under such a key, at any
  depth, and every dict has text keys.
\<close>

definition names_secret :: "string \<Rightarrow> bool" where
  "names_secret k = (\<exists>before word after. map lower_ascii k = before @ word @ after
     \<and> word \<in> {''authorization'', ''cookie'', ''token'', ''secret'', ''password'', ''seed'', ''credential''})"

fun no_secrets :: "pyval \<Rightarrow> bool"
and no_secrets_list :: "pyval list \<Rightarrow> bool"
and no_secrets_items :: "(string \<times> pyval) list \<Rightarrow> bool" where
  "no_secrets (PDict kvs) = no_secrets_items kvs"
| "no_secrets (PDictOther kvs rest) = False"
| "no_secrets (PList vs) = no_secrets_list vs"
| "no_secrets v = True"
| "no_secrets_list [] = True"
| "no_secrets_list (v # vs) = (no_secrets v \<and> no_secrets_list vs)"
| "no_secrets_items [] = True"
| "no_secrets_items ((k, v) # kvs) =
     ((if names_secret k then v = PStr ''[REDACTED]'' else no_secrets v) \<and> no_secrets_items kvs)"

lemma contains_iff: "contains w s \<longleftrightarrow> (\<exists>u v. s = u @ w @ v)"
proof (induction s)
  case (Cons c s)
  have "(\<exists>u v. c # s = u @ w @ v) \<longleftrightarrow> (\<exists>v. c # s = w @ v) \<or> (\<exists>u v. s = u @ w @ v)" 
    by (metis append_Cons append_Nil neq_Nil_conv list.inject)
  then show ?case using Cons by (simp add: starts_with_iff)
qed (auto simp: starts_with_iff)

lemma names_secret_iff: "names_secret k \<longleftrightarrow> sensitive_key k"
proof -
  have words: "set sensitive_words =
      {''authorization'', ''cookie'', ''token'', ''secret'', ''password'', ''seed'', ''credential''}"
    by (simp only: sensitive_words_def list.set)
  show ?thesis unfolding names_secret_def sensitive_key_def list_ex_iff contains_iff words [symmetric] by blast
qed

definition item_clean :: "string \<times> pyval \<Rightarrow> bool" where
  "item_clean kv = (if names_secret (fst kv) then snd kv = PStr ''[REDACTED]'' else no_secrets (snd kv))"

lemma item_clean_pair:
  "item_clean (k, v) = (if names_secret k then v = PStr ''[REDACTED]'' else no_secrets v)"
  by (simp add: item_clean_def)

lemma no_secrets_items_all: "no_secrets_items kvs = list_all item_clean kvs"
  by (induction kvs) (auto simp: item_clean_pair)

lemma no_secrets_items_iff: "no_secrets_items kvs \<longleftrightarrow> (\<forall>kv \<in> set kvs. item_clean kv)"
  by (simp add: no_secrets_items_all list_all_iff)

lemma no_secrets_list_iff: "no_secrets_list vs \<longleftrightarrow> (\<forall>v \<in> set vs. no_secrets v)"
  by (induction vs) auto

lemma no_secrets_sort: "no_secrets_items (sort_key fst kvs) = no_secrets_items kvs"
  by (simp add: no_secrets_items_iff)

lemma no_secrets_take: "no_secrets_list vs \<Longrightarrow> no_secrets_list (take n vs)"
  by (auto simp: no_secrets_list_iff dest: in_set_takeD)

lemma dict_put_from: "kv \<in> set (dict_put k v kvs) \<Longrightarrow> kv = (k, v) \<or> kv \<in> set kvs"
  by (auto simp: dict_put_def split: if_splits)

lemma dict_of_pairs_from: "set (dict_of_pairs kvs) \<subseteq> set kvs"
proof -
  have "set (foldl (\<lambda>d (k, v). dict_put k v d) d kvs) \<subseteq> set d \<union> set kvs" for d
    by (induction kvs arbitrary: d) (auto dest!: dict_put_from subsetD)
  from this [of "[]"] show ?thesis by (simp add: dict_of_pairs_def)
qed

lemma no_secrets_stringified:
  "no_secrets_items xs \<Longrightarrow> no_secrets_items ys \<Longrightarrow> no_secrets_items (dict_of_pairs (sort_key fst (xs @ ys)))"
  using dict_of_pairs_from [of "sort_key fst (xs @ ys)"] by (fastforce simp: no_secrets_items_iff)

lemma redact_no_secrets:
  "no_secrets (redact n v)" "no_secrets_list (redact_list vs)" "no_secrets_items (redact_items kvs)"
  by (induction n v and vs and kvs rule: redact_redact_list_redact_items.induct)
    (auto simp: no_secrets_sort no_secrets_take no_secrets_stringified names_secret_iff)

section \<open>Properties\<close>

text \<open>
  C21: A run is reserved only through an open gate and inside its budgets: the kill switch is off and the
  scheduler not quarantined, the day's run counter rises by exactly one and stays within the daily limit, and
  the month's cost rises by exactly the estimate and stays within the monthly budget.
\<close>

theorem reserved_run_within_budget:
  assumes "reserve_run G now cents w = (Inr u, w')"
  shows "\<not> b_kill w \<and> \<not> component_quarantined ''scheduler'' (b_store w) \<and> (\<exists>c. to_utc now = Inr c
    \<and> usage (date_text (day_no c)) ''runs'' (b_store w') = usage (date_text (day_no c)) ''runs'' (b_store w) + 1
    \<and> usage (date_text (day_no c)) ''runs'' (b_store w') \<le> gl_runs_per_day G
    \<and> usage (month_text (day_no c)) ''cost_cents'' (b_store w') = usage (month_text (day_no c)) ''cost_cents'' (b_store w) + cents
    \<and> usage (month_text (day_no c)) ''cost_cents'' (b_store w') \<le> gl_budget_cents G)"
  using reserve_run_Inr [OF assms] by blast

lemma reserved_run_within_budget_witness:
  "\<exists>w'. reserve_run default_limits (utc_at 1700000000000000) 25 \<lparr>b_store = empty_store, b_kill = False\<rparr> = (Inr (), w')
     \<and> (\<exists>c. to_utc (utc_at 1700000000000000) = Inr c \<and> usage (date_text (day_no c)) ''runs'' (b_store w') \<le> 4)"
proof -
  let ?op = "reserve_run default_limits (utc_at 1700000000000000) 25 \<lparr>b_store = empty_store, b_kill = False\<rparr>"
  have "succeeds (to_utc (utc_at 1700000000000000))" by code_simp
  then obtain c where c: "to_utc (utc_at 1700000000000000) = Inr c" by (auto simp: succeeds_iff)
  have "succeeds (fst ?op)"
    by (simp add: reserve_run_def c bindS_def in_store_def gate_require_def require_operational_def component_quarantined_def
        reserve_usage_def transactionS_def usage_def default_limits_def empty_store_def bindable_def sqlite_max_def)
  then obtain w' where e: "?op = (Inr (), w')" by (cases ?op) (auto simp: succeeds_iff)
  from reserved_run_within_budget [OF e] e show ?thesis by (auto simp: default_limits_def)
qed

text \<open>
  A loaded registry is well formed: its adapter ids are distinct and every entry passes the checks of an
  adapter manifest, so that a lookup returns the one entry with that id and the exact-membership test is
  membership.
\<close>

theorem loaded_registry_valid:
  assumes "load_registry P raw = Inr reg"
  shows "distinct (map am_id reg) \<and> list_all valid_manifest reg
    \<and> (\<forall>i m. registry_require reg i = Inr m \<longleftrightarrow> m \<in> set reg \<and> am_id m = i)
    \<and> (\<forall>m. contains_exact reg m \<longleftrightarrow> m \<in> set reg)"
proof -
  have v: "distinct (map am_id reg)" "\<forall>m \<in> set reg. valid_manifest m" using load_registry_valid [OF assms] by auto
  have "registry_require reg (am_id m) = Inr m" if "m \<in> set reg" for m
    using find_key [OF v(1) that] by (simp add: registry_require_def)
  then have "\<forall>i m. registry_require reg i = Inr m \<longleftrightarrow> m \<in> set reg \<and> am_id m = i"
    using registry_require_Inr by blast
  with v contains_exact_iff [OF v(1)] show ?thesis by (simp add: list_all_iff)
qed

definition demo_registry_document :: pyval where
  "demo_registry_document = PDict [(''schema'', PStr ''rosetta.adapter-registry.v1''), (''adapters'', PList
     (map (\<lambda>i. PDict [(''id'', PStr i), (''runtime'', PStr ''python''), (''source_repository'', PStr ''repo''),
        (''source_revision_kind'', PStr ''git_commit''), (''source_revision'', PStr (replicate 40 CHR ''a'')),
        (''dependency_lock_sha256'', PStr (replicate 64 CHR ''b'')), (''image'', PStr ''image''),
        (''image_digest'', PStr (''sha256:'' @ replicate 64 CHR ''c'')), (''transport'', PStr ''http''),
        (''capabilities'', PList [PStr ''read''])]) [''python-http'', ''raw-fetch'']))]"

lemma loaded_registry_valid_witness:
  "\<exists>reg. load_registry strict_pydantic demo_registry_document = Inr reg \<and> distinct (map am_id reg)
     \<and> (\<exists>m. registry_require reg ''raw-fetch'' = Inr m \<and> m \<in> set reg)"
proof -
  have s: "case load_registry strict_pydantic demo_registry_document of Inl _ \<Rightarrow> False
      | Inr reg \<Rightarrow> list_ex (\<lambda>m. am_id m = ''raw-fetch'') reg" by code_simp
  then obtain reg where e: "load_registry strict_pydantic demo_registry_document = Inr reg" by (auto split: sum.splits)
  with s obtain m where "m \<in> set reg" "am_id m = ''raw-fetch''" by (auto simp: list_ex_iff)
  with loaded_registry_valid [OF e] e show ?thesis by blast
qed

text \<open>
  C22: Redaction leaves no secret: in the redacted form of any value, at any depth of dicts and lists, dicts
  with keys that are no text among them, the only thing that stands under a key in which one of the words
  authorization, cookie, token, secret, password, seed and credential occurs, in any case, is the mark.
\<close>

theorem redaction_hides_secrets: "no_secrets (redact n v)"
  by (rule redact_no_secrets)

end
