(* ===== verification/Local_Protocol.thy ===== *)
theory Local_Protocol
  imports Operations
begin

text \<open>
  \<open>rosetta/local_protocol.py\<close>: records of a room, the interface of a Technocore
  target and the in-memory fixture that implements it.  A target is a record
  of functions over its own state; the locale \<open>technocore_target\<close> states what
  the clients rely on, and is interpreted on the fixture.
\<close>

section \<open>Records\<close>

record protocol_record =
  p_sequence :: int
  p_room :: string
  p_did :: string
  p_nonce :: int
  p_text :: string
  p_signature :: string
  p_upstream :: bool

definition make_record :: "int \<Rightarrow> string \<Rightarrow> string \<Rightarrow> int \<Rightarrow> string \<Rightarrow> string \<Rightarrow> protocol_record" where
  "make_record seq room did nonce msg sig = \<lparr>p_sequence = seq, p_room = room, p_did = did, p_nonce = nonce,
     p_text = msg, p_signature = sig, p_upstream = False\<rparr>"

definition record_signed :: "crypto \<Rightarrow> protocol_record \<Rightarrow> bool" where
  "record_signed C r = (case signed_room_payload (p_room r) (p_nonce r) (p_text r) of
     Inl _ \<Rightarrow> False | Inr payload \<Rightarrow> verify_signature C (p_did r) payload (p_signature r))"

section \<open>The interface of a target\<close>

record 't target_ops =
  tg_release :: string
  tg_image_digest :: string
  tg_inject_rate_limit :: "string \<Rightarrow> string \<Rightarrow> ('t, unit) op"
  tg_inject_uncertain :: "string \<Rightarrow> string \<Rightarrow> ('t, unit) op"
  tg_capabilities :: "('t, (string \<times> pyval) list) op"
  tg_create_room :: "string \<Rightarrow> ('t, unit) op"
  tg_read_room :: "string \<Rightarrow> int \<Rightarrow> int \<Rightarrow> ('t, protocol_record list) op"
  tg_post_signed :: "string \<Rightarrow> string \<Rightarrow> string \<Rightarrow> int \<Rightarrow> string \<Rightarrow> string \<Rightarrow> ('t, protocol_record) op"
  tg_reconcile :: "(string \<Rightarrow> string \<Rightarrow> int \<Rightarrow> string \<Rightarrow> ('t, protocol_record option) op) option"

definition posted_as :: "protocol_record \<Rightarrow> string \<Rightarrow> string \<Rightarrow> int \<Rightarrow> string \<Rightarrow> string \<Rightarrow> bool" where
  "posted_as r room did nonce msg sig = (p_room r = room \<and> p_did r = did \<and> p_nonce r = nonce \<and> p_text r = msg
     \<and> p_signature r = sig)"

definition record_key :: "protocol_record \<Rightarrow> string \<times> int" where
  "record_key r = (p_did r, p_nonce r)"

section \<open>The in-memory fixture\<close>

record local_target =
  lt_rooms :: "(string \<times> protocol_record list) list"
  lt_next :: int
  lt_rate :: "(string \<times> string) list"
  lt_uncertain :: "(string \<times> string) list"
  lt_rate_used :: "(string \<times> string) list"
  lt_uncertain_used :: "(string \<times> string) list"

definition new_local :: local_target where
  "new_local = \<lparr>lt_rooms = [], lt_next = 1, lt_rate = [], lt_uncertain = [], lt_rate_used = [],
     lt_uncertain_used = []\<rparr>"

definition local_log :: "local_target \<Rightarrow> string \<Rightarrow> protocol_record list" where
  "local_log t room = (case map_of (lt_rooms t) room of None \<Rightarrow> [] | Some rs \<Rightarrow> rs)"

definition local_inject_rate_limit :: "string \<Rightarrow> string \<Rightarrow> (local_target, unit) op" where
  "local_inject_rate_limit actor room = putS (\<lambda>t. t\<lparr>lt_rate := List.insert (actor, room) (lt_rate t)\<rparr>)"

definition local_inject_uncertain :: "string \<Rightarrow> string \<Rightarrow> (local_target, unit) op" where
  "local_inject_uncertain actor room = putS (\<lambda>t. t\<lparr>lt_uncertain := List.insert (actor, room) (lt_uncertain t)\<rparr>)"

definition local_capabilities :: "(local_target, (string \<times> pyval) list) op" where
  "local_capabilities = retS [(''release'', PStr ''v0.7.0''),
     (''operations'', PList [PStr ''read_room'', PStr ''post_signed'', PStr ''wait_room'', PStr ''rooms'', PStr ''events'']),
     (''max_message_chars'', PInt 4096)]"

definition set_default :: "string \<Rightarrow> local_target \<Rightarrow> local_target" where
  "set_default room t = (if map_of (lt_rooms t) room = None then t\<lparr>lt_rooms := dict_put room [] (lt_rooms t)\<rparr> else t)"

definition local_create_room :: "string \<Rightarrow> (local_target, unit) op" where
  "local_create_room room = raiseS_if (room = [] \<or> 64 < length room) (ValueError ''invalid room'')
     (putS (set_default room))"

definition local_list_rooms :: "local_target \<Rightarrow> string list" where
  "local_list_rooms t = sort (map fst (lt_rooms t))"

definition local_events :: "local_target \<Rightarrow> string list" where
  "local_events t = sort (filter (starts_with ''d-'') (map fst (lt_rooms t)))"

definition local_read_room :: "string \<Rightarrow> int \<Rightarrow> int \<Rightarrow> (local_target, protocol_record list) op" where
  "local_read_room room since limit = raiseS_if (limit < 1 \<or> 100 < limit) (ValueError ''limit outside bounded range'')
     (getS (\<lambda>t. take (nat limit) (filter (\<lambda>r. since < p_sequence r) (local_log t room))))"

definition local_last_sequence :: "string \<Rightarrow> local_target \<Rightarrow> int" where
  "local_last_sequence room t = foldr (\<lambda>r m. max (p_sequence r) m) (local_log t room) 0"

definition is_key :: "string \<Rightarrow> int \<Rightarrow> protocol_record \<Rightarrow> bool" where
  "is_key did nonce r = (p_did r = did \<and> p_nonce r = nonce)"

definition local_append :: "string \<Rightarrow> protocol_record \<Rightarrow> local_target \<Rightarrow> local_target" where
  "local_append room r t = t\<lparr>lt_rooms := dict_put room (local_log t room @ [r]) (lt_rooms t), lt_next := lt_next t + 1\<rparr>"

definition local_store :: "string \<Rightarrow> string \<Rightarrow> string \<Rightarrow> int \<Rightarrow> string \<Rightarrow> string \<Rightarrow> (local_target, protocol_record) op" where
  "local_store actor room did nonce msg sig t =
     (case find (is_key did nonce) (local_log t room) of
        Some old \<Rightarrow> if p_text old = msg \<and> p_signature old = sig then (Inr old, t)
                    else (Inl (ValueError ''nonce replay conflict''), t)
      | None \<Rightarrow>
        let r = make_record (lt_next t) room did nonce msg sig; t' = local_append room r t in
        if (actor, room) \<in> set (lt_uncertain t) \<and> (actor, room) \<notin> set (lt_uncertain_used t)
        then (Inl (UncertainWrite ''record committed before connection loss''),
              t'\<lparr>lt_uncertain_used := (actor, room) # lt_uncertain_used t\<rparr>)
        else (Inr r, t'))"

definition local_post_signed ::
  "crypto \<Rightarrow> string \<Rightarrow> string \<Rightarrow> string \<Rightarrow> int \<Rightarrow> string \<Rightarrow> string \<Rightarrow> (local_target, protocol_record) op" where
  "local_post_signed C actor room did nonce msg sig t =
     (if (actor, room) \<in> set (lt_rate t) \<and> (actor, room) \<notin> set (lt_rate_used t)
      then (Inl (RateLimited 1), t\<lparr>lt_rate_used := (actor, room) # lt_rate_used t\<rparr>)
      else case signed_room_payload room nonce msg of Inl e \<Rightarrow> (Inl e, t)
      | Inr payload \<Rightarrow>
          if \<not> verify_signature C did payload sig then (Inl (ValueError ''invalid signature''), t)
          else local_store actor room did nonce msg sig (set_default room t))"

definition local_ops :: "crypto \<Rightarrow> local_target target_ops" where
  "local_ops C = \<lparr>tg_release = ''v0.7.0'', tg_image_digest = ''sha256:'' @ replicate 64 CHR ''0'',
     tg_inject_rate_limit = local_inject_rate_limit, tg_inject_uncertain = local_inject_uncertain,
     tg_capabilities = local_capabilities, tg_create_room = local_create_room, tg_read_room = local_read_room,
     tg_post_signed = local_post_signed C, tg_reconcile = None\<rparr>"

section \<open>What clients rely on\<close>

locale technocore_target =
  fixes T :: "'t target_ops"
    and log :: "'t \<Rightarrow> string \<Rightarrow> protocol_record list"
    and ok :: "'t \<Rightarrow> bool"
  assumes post_returns: "ok t \<Longrightarrow> tg_post_signed T actor room did nonce msg sig t = (Inr r, t') \<Longrightarrow>
      r \<in> set (log t' room) \<and> posted_as r room did nonce msg sig"
    and post_extends: "ok t \<Longrightarrow> tg_post_signed T actor room did nonce msg sig t = (res, t') \<Longrightarrow>
      ok t' \<and> (\<forall>room'. log t' room' = log t room' \<or> (room' = room \<and>
        (\<exists>r. log t' room = log t room @ [r] \<and> posted_as r room did nonce msg sig)))"
    and post_refused: "ok t \<Longrightarrow> tg_post_signed T actor room did nonce msg sig t = (Inl (RateLimited k), t') \<Longrightarrow>
      log t' = log t"
    and read_log: "ok t \<Longrightarrow> tg_read_room T room since limit t = (found, t') \<Longrightarrow>
      ok t' \<and> log t' = log t \<and> (\<forall>rs. found = Inr rs \<longrightarrow> set rs \<subseteq> {r \<in> set (log t room). since < p_sequence r})"
    and reconcile_log: "tg_reconcile T = Some f \<Longrightarrow> ok t \<Longrightarrow> f room did nonce msg t = (match, t') \<Longrightarrow>
      ok t' \<and> log t' = log t \<and> (\<forall>r. match = Inr (Some r) \<longrightarrow>
        r \<in> set (log t room) \<and> record_key r = (did, nonce) \<and> p_text r = msg)"
    and keys_unique: "ok t \<Longrightarrow> distinct (map record_key (log t room))"
begin

text \<open>Once a key is in the log, no later post adds a second record under it.\<close>

lemma post_keeps_key:
  assumes "ok t" "tg_post_signed T actor room did nonce msg sig t = (res, t')" "r \<in> set (log t room')"
  shows "r \<in> set (log t' room')"
  using post_extends [OF assms(1,2)] assms(3) by (metis UnCI set_append)

lemma same_key_same_record:
  assumes "ok t" "r \<in> set (log t room)" "r' \<in> set (log t room)" "record_key r = record_key r'"
  shows "r = r'"
  using keys_unique [OF assms(1), of room] assms(2-4) by (auto simp: distinct_map inj_on_def)

text \<open>A failed post may have been stored; then a read finds exactly the posted bytes.\<close>

lemma post_then_find:
  assumes "ok t" "tg_post_signed T actor room did nonce msg sig t = (res, t')"
    and "\<forall>r \<in> set (log t room). record_key r \<noteq> (did, nonce)"
    and "r \<in> set (log t' room)" "record_key r = (did, nonce)"
  shows "posted_as r room did nonce msg sig"
proof -
  have "log t' room = log t room \<or> (\<exists>r. log t' room = log t room @ [r] \<and> posted_as r room did nonce msg sig)"
    using post_extends [OF assms(1,2)] by blast
  then show ?thesis using assms(3-5) by auto
qed

end

section \<open>Lemmas on the fixture\<close>

lemma local_log_default [simp]: "local_log (set_default room t) = local_log t"
  by (auto simp: fun_eq_iff local_log_def set_default_def map_of_dict_put)

lemma set_default_fields [simp]:
  "lt_next (set_default room t) = lt_next t" "lt_rate (set_default room t) = lt_rate t"
  "lt_uncertain (set_default room t) = lt_uncertain t" "lt_rate_used (set_default room t) = lt_rate_used t"
  "lt_uncertain_used (set_default room t) = lt_uncertain_used t"
  by (simp_all add: set_default_def)

lemma local_log_append: "local_log (local_append room r t) room' =
    (if room' = room then local_log t room @ [r] else local_log t room')"
  by (simp add: local_log_def local_append_def map_of_dict_put)

lemma local_log_used [simp]:
  "local_log (t\<lparr>lt_rate_used := x\<rparr>) = local_log t" "local_log (t\<lparr>lt_uncertain_used := x\<rparr>) = local_log t"
  by (simp_all add: fun_eq_iff local_log_def)

text \<open>
  The invariant: sequences are positive, below the next one and strictly
  increasing within a room, every record stands in its own room, and no room
  has two records of one DID and nonce.
\<close>

definition local_ok :: "local_target \<Rightarrow> bool" where
  "local_ok t = (0 < lt_next t \<and> (\<forall>room. sorted_wrt (<) (map p_sequence (local_log t room))
     \<and> (\<forall>r \<in> set (local_log t room). 0 < p_sequence r \<and> p_sequence r < lt_next t \<and> p_room r = room)
     \<and> distinct (map record_key (local_log t room))))"

lemma local_ok_new: "local_ok new_local"
  by (simp add: local_ok_def new_local_def local_log_def)

lemma local_ok_cong: "local_log t' = local_log t \<Longrightarrow> lt_next t' = lt_next t \<Longrightarrow> local_ok t' = local_ok t"
  by (simp add: local_ok_def)

lemma local_store_cases:
  assumes "local_store actor room did nonce msg sig t = (res, t')"
  shows "(local_log t' = local_log t \<and> lt_next t' = lt_next t
      \<and> (\<forall>r. res = Inr r \<longrightarrow> r \<in> set (local_log t room) \<and> is_key did nonce r \<and> p_text r = msg \<and> p_signature r = sig)
      \<and> (\<forall>k. res \<noteq> Inl (RateLimited k)))
    \<or> (find (is_key did nonce) (local_log t room) = None \<and> lt_next t' = lt_next t + 1
      \<and> local_log t' = (local_log t)(room := local_log t room @ [make_record (lt_next t) room did nonce msg sig])
      \<and> (res = Inr (make_record (lt_next t) room did nonce msg sig) \<or> (\<exists>e. res = Inl (UncertainWrite e))))"
proof (cases "find (is_key did nonce) (local_log t room)")
  case None
  have "lt_next (local_append room r t) = lt_next t + 1" for r by (simp add: local_append_def)
  then show ?thesis using assms None
    by (auto simp: local_store_def Let_def local_log_append fun_eq_iff split: if_splits)
next
  case (Some old)
  then show ?thesis using assms find_Some_in [OF Some] by (auto simp: local_store_def split: if_splits)
qed

lemma local_store_ok:
  assumes "local_ok t" "local_store actor room did nonce msg sig t = (res, t')"
  shows "local_ok t'"
proof -
  let ?r = "make_record (lt_next t) room did nonce msg sig"
  consider "local_log t' = local_log t" "lt_next t' = lt_next t"
    | "find (is_key did nonce) (local_log t room) = None" "lt_next t' = lt_next t + 1"
      "local_log t' = (local_log t)(room := local_log t room @ [?r])"
    using local_store_cases [OF assms(2)] by metis
  then show ?thesis
  proof cases
    case 1
    then show ?thesis using assms(1) local_ok_cong by blast
  next
    case 2
    note none = 2(1) and nxt = 2(2) and log = 2(3)
    have "record_key ?r \<notin> set (map record_key (local_log t room))"
    using none by (auto simp: find_None_key is_key_def record_key_def make_record_def)
    then show ?thesis using assms(1) unfolding local_ok_def log nxt
      by (auto simp: make_record_def sorted_wrt_append intro: less_imp_le)
  qed
qed

lemma local_post_cases:
  assumes "local_post_signed C actor room did nonce msg sig t = (res, t')"
  shows "(local_log t' = local_log t \<and> lt_next t' = lt_next t \<and> (\<forall>r. res \<noteq> Inr r))
    \<or> ((\<exists>payload. signed_room_payload room nonce msg = Inr payload \<and> verify_signature C did payload sig)
       \<and> local_store actor room did nonce msg sig (set_default room t) = (res, t'))"
  using assms by (auto simp: local_post_signed_def split: if_splits sum.splits)

lemma local_post_ok:
  assumes "local_ok t" "local_post_signed C actor room did nonce msg sig t = (res, t')"
  shows "local_ok t'"
  using local_post_cases [OF assms(2)]
proof
  assume "local_log t' = local_log t \<and> lt_next t' = lt_next t \<and> (\<forall>r. res \<noteq> Inr r)"
  then show ?thesis using assms(1) local_ok_cong by blast
next
  assume a: "(\<exists>payload. signed_room_payload room nonce msg = Inr payload \<and> verify_signature C did payload sig)
       \<and> local_store actor room did nonce msg sig (set_default room t) = (res, t')"
  have "local_ok (set_default room t)" using assms(1) by (subst local_ok_cong) simp_all
  then show ?thesis using a local_store_ok by blast
qed

lemma posted_make: "posted_as (make_record n room did nonce msg sig) room did nonce msg sig"
  by (simp add: posted_as_def make_record_def)

lemma local_post_log:
  assumes "local_ok t" "local_post_signed C actor room did nonce msg sig t = (res, t')"
  shows "local_log t' = local_log t \<or> (\<exists>r. posted_as r room did nonce msg sig
     \<and> local_log t' = (local_log t)(room := local_log t room @ [r]))"
  using local_post_cases [OF assms(2)]
proof
  assume a: "(\<exists>payload. signed_room_payload room nonce msg = Inr payload \<and> verify_signature C did payload sig)
       \<and> local_store actor room did nonce msg sig (set_default room t) = (res, t')"
  then show ?thesis using local_store_cases [of actor room did nonce msg sig "set_default room t" res t']
    posted_make by (auto simp del: fun_upd_apply) blast+
qed simp

lemma local_post_returns:
  assumes "local_ok t" "local_post_signed C actor room did nonce msg sig t = (Inr r, t')"
  shows "r \<in> set (local_log t' room) \<and> posted_as r room did nonce msg sig"
proof -
  have "local_store actor room did nonce msg sig (set_default room t) = (Inr r, t')"
    using local_post_cases [OF assms(2)] by auto
  from local_store_cases [OF this] show ?thesis using assms(1)
    by (auto simp: posted_as_def make_record_def is_key_def local_ok_def)
qed

interpretation local_technocore: technocore_target "local_ops C" local_log local_ok for C
proof
  fix t actor room did nonce msg sig r t'
  assume "local_ok t" "tg_post_signed (local_ops C) actor room did nonce msg sig t = (Inr r, t')"
  then show "r \<in> set (local_log t' room) \<and> posted_as r room did nonce msg sig"
    by (simp add: local_ops_def local_post_returns)
next
  fix t actor room did nonce msg sig res t'
  assume a: "local_ok t" "tg_post_signed (local_ops C) actor room did nonce msg sig t = (res, t')"
  then have p: "local_post_signed C actor room did nonce msg sig t = (res, t')" by (simp add: local_ops_def)
  show "local_ok t' \<and> (\<forall>room'. local_log t' room' = local_log t room' \<or> (room' = room \<and>
        (\<exists>r. local_log t' room = local_log t room @ [r] \<and> posted_as r room did nonce msg sig)))"
    using local_post_ok [OF a(1) p] local_post_log [OF a(1) p] by (metis fun_upd_other fun_upd_same)
next
  fix t actor room did nonce msg sig k t'
  assume "local_ok t" "tg_post_signed (local_ops C) actor room did nonce msg sig t = (Inl (RateLimited k), t')"
  then have p: "local_post_signed C actor room did nonce msg sig t = (Inl (RateLimited k), t')"
    by (simp add: local_ops_def)
  show "local_log t' = local_log t"
    using local_post_cases [OF p] local_store_cases [of actor room did nonce msg sig "set_default room t"] by fastforce
next
  fix t room since limit res t'
  assume "local_ok t" "tg_read_room (local_ops C) room since limit t = (res, t')"
  then show "local_ok t' \<and> local_log t' = local_log t \<and>
      (\<forall>rs. res = Inr rs \<longrightarrow> set rs \<subseteq> {r \<in> set (local_log t room). since < p_sequence r})"
    by (auto simp: local_ops_def local_read_room_def raiseS_if_def split: if_splits dest: in_set_takeD)
next
  fix t room
  assume "local_ok t"
  then show "distinct (map record_key (local_log t room))" by (simp add: local_ok_def)
qed (simp add: local_ops_def)

end
