(* ===== verification/Delivery.thy ===== *)
theory Delivery
  imports Local_Protocol
begin

text \<open>
  \<open>rosetta/delivery.py\<close> and \<open>signer_client.py\<close>: the signer as the workers see it,
  and the messenger that stores the exact signed bytes before the network can
  see them.  The signer is a function over the shared state \<open>env\<close>, so that the
  guarded client (which asks the gate first) is one too.  Sleeping between
  attempts changes no state of this program.
\<close>

section \<open>The shared state of workers\<close>

record ('x, 't) env = base +
  e_signer :: 'x
  e_target :: 't

definition in_signer :: "('x, 'a) op \<Rightarrow> (('x, 't) env, 'a) op" where
  "in_signer f w = (case f (e_signer w) of (r, s) \<Rightarrow> (r, w\<lparr>e_signer := s\<rparr>))"

definition in_target :: "('t, 'a) op \<Rightarrow> (('x, 't) env, 'a) op" where
  "in_target f w = (case f (e_target w) of (r, t) \<Rightarrow> (r, w\<lparr>e_target := t\<rparr>))"

type_synonym ('x, 't) signer = "sign_request \<Rightarrow> (('x, 't) env, sign_response) op"

section \<open>Signer clients\<close>

text \<open>\<open>request.json(by_alias=True, exclude_none=True, ...)\<close>\<close>

definition request_line :: "sign_request \<Rightarrow> bytes result" where
  "request_line r = (case sign_request_dict r of PDict kvs \<Rightarrow>
       bindE (dumps True (PDict (filter (\<lambda>(_, v). v \<noteq> PNone) kvs))) (\<lambda>t. Inr (utf8 t @ [CHR 0x0A]))
     | _ \<Rightarrow> invalid)"

definition decode_reply :: "pydantic \<Rightarrow> bytes \<Rightarrow> sign_response result" where
  "decode_reply P line = (case loads_bytes line of
     Inl _ \<Rightarrow> Inl (RuntimeError ''signer returned invalid JSON'')
   | Inr v \<Rightarrow>
     (case v of PDict kvs \<Rightarrow>
        if map_of kvs ''schema'' = Some (PStr ''rosetta.sign-error.v1'')
        then (case map_of kvs ''error'' of
            Some (PStr e) \<Rightarrow> if set (map fst kvs) = {''schema'', ''error''}
              then Inl (RuntimeError (''signer rejected request: '' @ e))
              else Inl (RuntimeError ''signer returned invalid error response'')
          | _ \<Rightarrow> Inl (RuntimeError ''signer returned invalid error response''))
        else parse_sign_response P v
      | _ \<Rightarrow> parse_sign_response P v))"

text \<open>
  \<open>SignerClient.sign\<close> against the socket service of \<open>Signer\<close>: when the service's
  handler fails with an exception, the client reads an empty line.
\<close>

definition client_sign :: "crypto \<Rightarrow> pydantic \<Rightarrow> identity \<Rightarrow> sign_request \<Rightarrow> (nonce_store, sign_response) op" where
  "client_sign C P ident r = bindS (liftS (request_line r)) (\<lambda>line s.
     case handle_connection C P ident (Line line) s of
       (Inr reply, s') \<Rightarrow> (decode_reply P reply, s')
     | (Inl _, s') \<Rightarrow> (decode_reply P [], s'))"

definition guarded_sign :: "('x, 't) signer \<Rightarrow> ('x, 't) signer" where
  "guarded_sign sign r = bindS (gate_require ''signer'') (\<lambda>_. sign r)"

section \<open>The reliable messenger\<close>

definition message_request :: "string \<Rightarrow> string \<Rightarrow> string \<Rightarrow> sign_request" where
  "message_request scope room msg = \<lparr>sr_action = TechnocoreMessage, sr_scope = scope, sr_nonce = None,
     sr_room = Some room, sr_text = Some msg, sr_digest = None, sr_namespace = None, sr_key = None, sr_value = None\<rparr>"

definition reconcile :: "'t target_ops \<Rightarrow> string \<Rightarrow> string \<Rightarrow> int \<Rightarrow> string \<Rightarrow> ('t, protocol_record option) op" where
  "reconcile T room did nonce msg = (case tg_reconcile T of
     Some f \<Rightarrow> f room did nonce msg
   | None \<Rightarrow> bindS (tg_read_room T room 0 100) (\<lambda>rs.
       let matches = filter (\<lambda>r. p_did r = did \<and> p_nonce r = nonce \<and> p_text r = msg) rs in
       raiseS_if (1 < length matches) (RuntimeError ''duplicate_remote_delivery'')
       (retS (case matches of [] \<Rightarrow> None | r # _ \<Rightarrow> Some r))))"

text \<open>The stored row of the delivery, signed and stored first when there is none.\<close>

definition delivery_bytes :: "('x, 't) signer \<Rightarrow> string \<Rightarrow> string \<Rightarrow> string \<Rightarrow> string \<Rightarrow> (('x, 't) env, delivery_row) op" where
  "delivery_bytes sign key actor room msg w = (case delivery key (b_store w) of
     None \<Rightarrow> bindS (sign (message_request actor room msg)) (\<lambda>signed.
       (case sp_nonce signed of
          None \<Rightarrow> raiseS (RuntimeError ''signer omitted message nonce'')
        | Some nonce \<Rightarrow>
          bindS (in_store (prepare_delivery key actor room (sp_did signed) nonce msg (sp_signature signed))) (\<lambda>_.
          retS \<lparr>dl_actor = actor, dl_room = room, dl_did = sp_did signed, dl_nonce = nonce, dl_text = msg,
                dl_signature = sp_signature signed, dl_status = Prepared, dl_sequence = None\<rparr>))) w
   | Some d \<Rightarrow> raiseS_if (dl_actor d \<noteq> actor \<or> dl_room d \<noteq> room \<or> dl_text d \<noteq> msg)
       (RuntimeError ''delivery_key_conflict'') (retS d) w)"

definition settle_uncertain ::
  "'t target_ops \<Rightarrow> string \<Rightarrow> delivery_row \<Rightarrow> (('x, 't) env, protocol_record) op" where
  "settle_uncertain T key d =
     bindS (in_target (reconcile T (dl_room d) (dl_did d) (dl_nonce d) (dl_text d))) (\<lambda>found.
     case found of
       None \<Rightarrow> raiseS (UncertainWrite ''prepared delivery was not found upstream'')
     | Some r \<Rightarrow> bindS (in_store (confirm_delivery key (p_sequence r))) (\<lambda>_.
         retS (make_record (p_sequence r) (dl_room d) (dl_did d) (dl_nonce d) (dl_text d) (dl_signature d))))"

text \<open>\<open>for attempt in range(2)\<close>: the argument counts the attempts left.\<close>

fun post_attempts :: "'t target_ops \<Rightarrow> string \<Rightarrow> delivery_row \<Rightarrow> nat \<Rightarrow> (('x, 't) env, protocol_record) op" where
  "post_attempts T key d 0 = raiseS (RuntimeError ''bounded delivery retry exhausted'')"
| "post_attempts T key d (Suc left) = (\<lambda>w.
     case in_target (tg_post_signed T (dl_actor d) (dl_room d) (dl_did d) (dl_nonce d) (dl_text d) (dl_signature d)) w of
       (Inr r, w') \<Rightarrow> bindS (in_store (confirm_delivery key (p_sequence r))) (\<lambda>_. retS r) w'
     | (Inl e, w') \<Rightarrow> (case e of
          RateLimited seconds \<Rightarrow>
            if left = 0 \<or> 2 < seconds then (Inl e, w') else post_attempts T key d left w'
        | UncertainWrite _ \<Rightarrow> settle_uncertain T key d w'
        | TechnocoreRefusal status _ \<Rightarrow>
            if status \<notin> {403, 409, 422} then (Inl e, w') else settle_uncertain T key d w'
        | _ \<Rightarrow> (Inl e, w')))"

definition send_text ::
  "'t target_ops \<Rightarrow> ('x, 't) signer \<Rightarrow> string \<Rightarrow> string \<Rightarrow> string \<Rightarrow> string \<Rightarrow> (('x, 't) env, protocol_record) op" where
  "send_text T sign key actor room msg =
     bindS (gate_require ''public_writer'') (\<lambda>_.
     bindS (delivery_bytes sign key actor room msg) (\<lambda>d.
     if dl_status d = Confirmed
     then (case dl_sequence d of
         None \<Rightarrow> raiseS (RuntimeError ''confirmed_delivery_missing_sequence'')
       | Some n \<Rightarrow> retS (make_record n room (dl_did d) (dl_nonce d) (dl_text d) (dl_signature d)))
     else post_attempts T key d 2))"

text \<open>\<open>canonical_json(body).decode()\<close>\<close>

definition canonical_text :: "pyval \<Rightarrow> string result" where
  "canonical_text v = bindE (canonical_json v) (\<lambda>b. of_option (ValueError ''invalid utf-8'') (utf8_decode b))"

definition send_body ::
  "'t target_ops \<Rightarrow> ('x, 't) signer \<Rightarrow> string \<Rightarrow> string \<Rightarrow> string \<Rightarrow> pyval \<Rightarrow> (('x, 't) env, protocol_record) op" where
  "send_body T sign key actor room body = bindS (liftS (canonical_text body)) (send_text T sign key actor room)"

section \<open>The client and the service agree\<close>

definition int_or_zero :: "int option \<Rightarrow> int" where
  "int_or_zero i = (case i of None \<Rightarrow> 0 | Some n \<Rightarrow> n)"

lemma int_or_zero_simps [simp]: "int_or_zero None = 0" "int_or_zero (Some n) = n"
  by (simp_all add: int_or_zero_def)

lemma map_of_sort: "distinct (map fst kvs) \<Longrightarrow> map_of (sort_key fst kvs) = map_of kvs"
proof -
  assume d: "distinct (map fst kvs)"
  then have "distinct (map fst (sort_key fst kvs))"
    using distinct_keys_mset [OF _ d] by simp
  then show ?thesis using d by (auto simp: map_of_inject_set)
qed

lemma list_all_sort: "list_all p (sort_key f xs) = list_all p xs"
  by (simp add: list_all_iff)

text \<open>Parsing does not depend on the order of the keys, nor on keys without a value.\<close>

lemma closed_fields_sort:
  "distinct (map fst kvs) \<Longrightarrow> closed_fields names schema req (sort_key fst kvs) = closed_fields names schema req kvs"
  unfolding closed_fields_def schema_field_def list_all_sort by (simp only: map_of_sort)

lemma parse_sign_request_sort:
  "distinct (map fst kvs) \<Longrightarrow> parse_sign_request P (PDict (sort_key fst kvs)) = parse_sign_request P (PDict kvs)"
  by (simp add: parse_sign_request_def as_dict_def closed_fields_sort map_of_sort)

lemma parse_sign_response_sort:
  "distinct (map fst kvs) \<Longrightarrow> parse_sign_response P (PDict (sort_key fst kvs)) = parse_sign_response P (PDict kvs)"
  by (simp add: parse_sign_response_def as_dict_def closed_fields_sort map_of_sort)

definition given :: "string \<times> pyval \<Rightarrow> bool" where
  "given kv = (snd kv \<noteq> PNone)"

definition some_value :: "pyval option \<Rightarrow> pyval option" where
  "some_value v = (if v = Some PNone then None else v)"

lemma map_of_given:
  "distinct (map fst kvs) \<Longrightarrow> map_of (filter given kvs) k = some_value (map_of kvs k)"
proof (induction kvs)
  case (Cons kv kvs)
  then show ?case
    by (cases kv) (auto simp: some_value_def given_def map_of_eq_None_iff image_iff split: if_splits)
qed (simp add: some_value_def)

lemma optional_given [simp]: "optional f (some_value v) = optional f v"
  by (cases v) (auto simp: some_value_def optional_def)

lemma some_value_Some [simp]: "v \<noteq> PNone \<Longrightarrow> some_value (Some v) = Some v"
  by (simp add: some_value_def)

lemma request_line_eq: "request_line r = (case sign_request_dict r of PDict kvs \<Rightarrow>
     bindE (dumps True (PDict (filter given kvs))) (\<lambda>t. Inr (utf8 t @ [CHR 0x0A])) | _ \<Rightarrow> invalid)"
  by (simp add: request_line_def sign_request_dict_def given_def case_prod_unfold)

definition request_items :: "sign_request \<Rightarrow> (string \<times> pyval) list" where
  "request_items r = (case sign_request_dict r of PDict kvs \<Rightarrow> kvs | _ \<Rightarrow> [])"

lemma request_items_dict: "sign_request_dict r = PDict (request_items r)"
  by (simp add: request_items_def sign_request_dict_def)

lemma request_items_keys: "map fst (request_items r) = [''schema'', ''action'', ''scope'', ''nonce'', ''room'', ''text'',
     ''digest'', ''namespace'', ''key'', ''value'']"
  by (simp add: request_items_def sign_request_dict_def)

lemma given_schema: "map_of kvs k = Some v \<Longrightarrow> v \<noteq> PNone \<Longrightarrow> some_value (map_of kvs k) = Some v"
  by simp

lemma closed_fields_given:
  assumes "distinct (map fst kvs)" "closed_fields names schema req kvs" "map_of kvs ''schema'' = Some (PStr schema)"
  shows "closed_fields names schema req (filter given kvs)"
  using assms
  by (auto simp: closed_fields_def schema_field_def map_of_given list_all_iff)

lemma request_items_schema [simp]: "map_of (request_items r) ''schema'' = Some (PStr ''rosetta.sign-request.v1'')"
  by (simp add: request_items_def sign_request_dict_def)

lemma request_items_required:
  "some_value (map_of (request_items r) ''action'') = map_of (request_items r) ''action''"
  "some_value (map_of (request_items r) ''scope'') = map_of (request_items r) ''scope''"
  by (simp_all add: request_items_def sign_request_dict_def some_value_def)

lemma parse_given_fields: "parse_sign_request P (PDict (filter given (request_items r))) = Inr r"
proof -
  have d: "distinct (map fst (request_items r))" by (simp add: request_items_keys)
  have r: "parse_sign_request P (PDict (request_items r)) = Inr r"
    using parse_sign_request_dict [of P r] by (simp add: request_items_dict)
  then have c: "closed_fields [''action'', ''scope'', ''nonce'', ''room'', ''text'', ''digest'', ''namespace'',
              ''key'', ''value''] ''rosetta.sign-request.v1'' False (request_items r)"
    by (simp add: parse_sign_request_def as_dict_def Let_def check_def split: if_splits)
  from closed_fields_given [OF d this]
  have "parse_sign_request P (PDict (filter given (request_items r))) = parse_sign_request P (PDict (request_items r))"
    using c
    by (simp add: parse_sign_request_def as_dict_def map_of_given [OF d] request_items_required Let_def)
  then show ?thesis using r by simp
qed

lemma plain_opt [simp]: "plain (opt_str x)" "plain (opt_int y) \<longleftrightarrow> \<bar>int_or_zero y\<bar> < 10 ^ 100"
  by (simp_all add: opt_str_def opt_int_def split: option.splits)

lemma request_items_plain:
  "\<bar>int_or_zero (sr_nonce r)\<bar> < 10 ^ 100 \<Longrightarrow> plain (PDict (filter given (request_items r)))"
  by (rule plain_filter) (simp add: request_items_def sign_request_dict_def)

lemma norm_opt [simp]: "norm (opt_str x) = opt_str x" "norm (opt_int y) = opt_int y"
  by (simp_all add: opt_str_def opt_int_def split: option.splits)

lemma request_items_norm: "norm (PDict (filter given (request_items r))) = PDict (sort_key fst (filter given (request_items r)))"
proof -
  have "norm_items (filter given (request_items r)) = filter given (request_items r)"
    by (rule norm_items_filter) (auto simp: request_items_def sign_request_dict_def)
  then show ?thesis by simp
qed

lemma loads_line:
  "plain v \<Longrightarrow> dumps True v = Inr t \<Longrightarrow> loads_bytes (utf8 t @ [CHR 0x0A]) = Inr (norm v)"
proof -
  assume v: "plain v" "dumps True v = Inr t"
  have "utf8 t @ [CHR 0x0A] = utf8 (t @ [CHR 0x0A])" by (simp add: utf8_simps utf8_char_def code_def)
  moreover have "loads (t @ [CHR 0x0A]) = Inr (norm v)"
    by (rule loads_dumps_ws [OF plain_wf(1) [OF v(1)] v(2)]) (simp add: is_ws_def)
  ultimately show ?thesis by (simp add: loads_bytes_def)
qed

lemma line_parses:
  assumes "request_line r = Inr line" "\<bar>int_or_zero (sr_nonce r)\<bar> < 10 ^ 100"
  shows "parse_raw_request P line = Inr r"
proof -
  obtain t where t: "dumps True (PDict (filter given (request_items r))) = Inr t" "line = utf8 t @ [CHR 0x0A]"
    using assms(1) by (auto simp: request_line_eq request_items_dict)
  have "distinct (map fst (filter given (request_items r)))"
    by (rule distinct_map_filter) (simp add: request_items_keys)
  then show ?thesis
    using loads_line [OF request_items_plain [OF assms(2)] t(1)] t(2)
    by (simp add: parse_raw_request_def request_items_norm parse_sign_request_sort parse_given_fields del: norm.simps)
qed

lemma response_items_sort:
  "norm (sign_response_dict resp) = PDict (sort_key fst (case sign_response_dict resp of PDict kvs \<Rightarrow> kvs | _ \<Rightarrow> []))"
  by (simp add: sign_response_dict_def)

lemma decode_response:
  "decode_reply P b = Inr resp" if "loads_bytes b = Inr (norm (sign_response_dict resp))"
proof -
  let ?kvs = "case sign_response_dict resp of PDict kvs \<Rightarrow> kvs | _ \<Rightarrow> []"
  have d: "distinct (map fst ?kvs)" by (simp add: sign_response_dict_def)
  have "map_of (sort_key fst ?kvs) ''schema'' = Some (PStr ''rosetta.sign-response.v1'')"
    unfolding map_of_sort [OF d] by (simp add: sign_response_dict_def)
  moreover have "parse_sign_response P (PDict (sort_key fst ?kvs)) = Inr resp"
    unfolding parse_sign_response_sort [OF d] using parse_sign_response_dict [of P resp]
    by (simp add: sign_response_dict_def)
  ultimately show ?thesis using that unfolding response_items_sort by (simp add: decode_reply_def)
qed

lemma decode_sign_error: "dumps True (sign_error name) = Inr t \<Longrightarrow>
    decode_reply P (utf8 t @ [CHR 0x0A]) = Inl (RuntimeError (''signer rejected request: '' @ name))"
proof -
  assume t: "dumps True (sign_error name) = Inr t"
  have n: "norm (sign_error name) = PDict [(''error'', PStr name), (''schema'', PStr ''rosetta.sign-error.v1'')]"
    by (simp add: sign_error_def less_char_def)
  have "plain (sign_error name)" by (simp add: sign_error_def)
  from loads_line [OF this t] show ?thesis unfolding n by (auto simp: decode_reply_def)
qed

text \<open>
  What the client returns is what the handler returns; a refusal becomes a
  \<open>RuntimeError\<close> with the name of the exception class.
\<close>

lemma client_sign_handle:
  assumes line: "request_line r = Inr line" "length line \<le> 16384"
    and n: "\<bar>int_or_zero (sr_nonce r)\<bar> < 10 ^ 100"
  shows "client_sign C P i r s = (case handle C i r s of
      (Inr resp, t) \<Rightarrow> (if \<bar>int_or_zero (sp_nonce resp)\<bar> < 10 ^ 100 then (Inr resp, t) else client_sign C P i r s)
    | (Inl e, t) \<Rightarrow> (Inl (RuntimeError (if is_value_error e then ''signer rejected request: '' @ error_name e
        else ''signer returned invalid JSON'')), t))"
proof -
  obtain x t where h: "handle C i r s = (x, t)" by (cases "handle C i r s")
  note parse = line_parses [OF line(1) n, of P]
  show ?thesis
  proof (cases x)
    case (Inl e)
    obtain u where u: "dumps True (sign_error (error_name e)) = Inr u"
      using plain_dumps [of "sign_error (error_name e)" True] by (auto simp: sign_error_def)
    have "decode_reply P [] = Inl (RuntimeError ''signer returned invalid JSON'')"
      by (simp add: decode_reply_def loads_bytes_def loads_def skip_ws_def)
    then show ?thesis using h Inl line parse u decode_sign_error [OF u, of P]
      by (simp add: client_sign_def handle_connection_def service_response_def bindS_def tryS_def)
  next
    case (Inr resp)
    show ?thesis
    proof (cases "\<bar>int_or_zero (sp_nonce resp)\<bar> < 10 ^ 100")
      case True
      then have p: "plain (sign_response_dict resp)"
        by (simp add: sign_response_dict_def)
      obtain u where u: "dumps True (sign_response_dict resp) = Inr u" using plain_dumps [OF p] by blast
      then show ?thesis using h Inr line parse True decode_response [OF loads_line [OF p u], of P]
        by (simp add: client_sign_def handle_connection_def service_response_def bindS_def tryS_def)
    qed (simp add: h Inr)
  qed
qed

lemma granted_nonce_small:
  assumes "handle C i r s = (Inr resp, t)"
  shows "\<bar>int_or_zero (sp_nonce resp)\<bar> < 10 ^ 100"
proof -
  from handle_Inr [OF assms] obtain scope nonce payload u
    where p: "prepare_payload r s = (Inr (scope, nonce, payload), u)"
      and f: "finish_signature C i r (scope, nonce, payload) u = (Inr resp, t)" by blast
  have e: "sp_nonce resp = nonce" using f by (auto simp: finish_signature_eq)
  show ?thesis
  proof (cases "lane r")
    case None
    then show ?thesis using prepare_lane [OF p] e by simp
  next
    case (Some l)
    then obtain n where n: "nonce = Some n" "nonce_next l (sr_nonce r) s = (Inr n, u)" using prepare_lane [OF p] by auto
    then have "1 \<le> n \<and> n \<le> max_nonce" by (auto simp: nonce_next_def transactionS_def Let_def split: if_splits)
    then show ?thesis using e n(1) by (simp add: max_nonce_def)
  qed
qed

text \<open>What a worker may see of the signer's answer: the response, or a refusal without its details.\<close>

definition worker_view :: "sign_response result \<Rightarrow> sign_response result" where
  "worker_view x = (case x of Inr resp \<Rightarrow> Inr resp
     | Inl e \<Rightarrow> Inl (RuntimeError (if is_value_error e then ''signer rejected request: '' @ error_name e
        else ''signer returned invalid JSON'')))"

text \<open>
  C20: The signer client over the socket refines the signer: encoding the request as a line, the service's
  parser, its handler, its reply and the client's decoder together do exactly what a direct call of the
  handler does, in result and in state, and the client sees no more of a refusal than its class.
\<close>

theorem client_sign_refines_handler:
  assumes "request_line r = Inr line" "length line \<le> 16384" "\<bar>int_or_zero (sr_nonce r)\<bar> < 10 ^ 100"
  shows "client_sign C P i r s = (worker_view (fst (handle C i r s)), snd (handle C i r s))"
proof (cases "handle C i r s")
  case (Pair x t)
  then show ?thesis using client_sign_handle [OF assms, of C P i s] granted_nonce_small [of C i r s]
    by (cases x) (auto simp: worker_view_def)
qed

lemma client_sign_refines_handler_witness:
  "\<exists>line. request_line (message_request ''w'' ''lobby'' ''hello'') = Inr line
     \<and> client_sign demo_crypto strict_pydantic (identity.make [] []) (message_request ''w'' ''lobby'' ''hello'') empty_nonce_store
       = (worker_view (fst (handle demo_crypto (identity.make [] []) (message_request ''w'' ''lobby'' ''hello'') empty_nonce_store)),
          snd (handle demo_crypto (identity.make [] []) (message_request ''w'' ''lobby'' ''hello'') empty_nonce_store))"
proof -
  have c: "succeeds (request_line (message_request ''w'' ''lobby'' ''hello''))
    \<and> (case request_line (message_request ''w'' ''lobby'' ''hello'') of Inr l \<Rightarrow> length l \<le> 1000 | Inl _ \<Rightarrow> False)" by code_simp
  then obtain line where line: "request_line (message_request ''w'' ''lobby'' ''hello'') = Inr line" "length line \<le> 16384"
    by (auto simp: succeeds_iff)
  have "\<bar>int_or_zero (sr_nonce (message_request ''w'' ''lobby'' ''hello''))\<bar> < 10 ^ 100"
    by (simp add: message_request_def)
  from client_sign_refines_handler [OF line this] line(1) show ?thesis by blast
qed

end
