(* ===== verification/Messenger.thy ===== *)
theory Messenger
  imports Delivery
begin

text \<open>
  What the reliable messenger of \<open>rosetta/delivery.py\<close> guarantees, over the two
  contracts it is a client of: the target (\<open>technocore_target\<close>) and the signer
  (\<open>message_signer\<close>).  It is interpreted on the fixture target and on the handler
  of the networkless signer here, and on a target that fails in
  \<open>Messenger_Faults\<close>, where it gives at most one record per delivery key.
\<close>

section \<open>The signer's contract\<close>

locale message_signer =
  fixes snr :: "sign_request \<Rightarrow> 'x \<Rightarrow> (exn + sign_response) \<times> 'x"
    and lane_of :: "'x \<Rightarrow> string \<Rightarrow> int"
    and did :: string
  assumes signs: "snr (message_request scope room msg) x = (Inr resp, x') \<Longrightarrow>
      sp_did resp = did \<and> (\<exists>n. sp_nonce resp = Some n \<and> lane_of x room < n \<and> lane_of x' room = n)"
    and lanes_grow: "snr req x = (res, x') \<Longrightarrow> lane_of x room \<le> lane_of x' room"

lemma message_lane: "lane (message_request scope room msg) = Some (''message:'' @ room)"
  by (simp add: lane_def message_request_def)

lemma handle_did: "handle C i r s = (Inr resp, t) \<Longrightarrow> sp_did resp = id_did i"
  by (auto dest!: handle_Inr simp: finish_signature_eq)

lemma handle_message_nonce:
  "handle C i (message_request scope room msg) s = (Inr resp, t) \<Longrightarrow> \<exists>n. sp_nonce resp = Some n"
  by (auto dest!: handle_Inr prepare_lane simp: finish_signature_eq message_lane)

interpretation networkless: message_signer "handle C i" "\<lambda>s room. current_nonce s (''message:'' @ room)" "id_did i"
  for C i
proof
  fix scope room msg x resp x'
  assume h: "handle C i (message_request scope room msg) x = (Inr resp, x')"
  then obtain n where n: "sp_nonce resp = Some n" using handle_message_nonce by blast
  then have "lane_grant (message_request scope room msg) resp = Some (''message:'' @ room, n)"
    by (simp add: lane_grant_def message_lane)
  with handler_lanes.granted [OF h] n handle_did [OF h]
  show "sp_did resp = id_did i \<and> (\<exists>n. sp_nonce resp = Some n \<and> current_nonce x (''message:'' @ room) < n
      \<and> current_nonce x' (''message:'' @ room) = n)" by blast
qed (rule handle_monotone)

section \<open>The invariant of the deliveries\<close>

definition row :: "('x, 't) env \<Rightarrow> string \<Rightarrow> delivery_row option" where
  "row w k = st_deliveries (b_store w) k"

definition stands :: "delivery_row \<Rightarrow> protocol_record list \<Rightarrow> int \<Rightarrow> bool" where
  "stands d rs n = (\<exists>r \<in> set rs. record_key r = (dl_did d, dl_nonce d) \<and> p_text r = dl_text d \<and> p_sequence r = n)"

definition row_ok :: "(string \<Rightarrow> protocol_record list) \<Rightarrow> (string \<Rightarrow> int) \<Rightarrow> string \<Rightarrow> delivery_row \<Rightarrow> bool" where
  "row_ok log cur did d = (dl_did d = did \<and> dl_nonce d \<le> cur (dl_room d)
     \<and> (dl_status d = Confirmed \<longrightarrow> (\<exists>n. dl_sequence d = Some n \<and> stands d (log (dl_room d)) n)))"

definition row_of_record :: "protocol_record \<Rightarrow> string \<Rightarrow> delivery_row \<Rightarrow> bool" where
  "row_of_record r room d = (dl_room d = room \<and> dl_nonce d = p_nonce r \<and> dl_text d = p_text r
     \<and> dl_signature d = p_signature r)"

definition rows_ok ::
  "(string \<Rightarrow> protocol_record list) \<Rightarrow> (string \<Rightarrow> int) \<Rightarrow> string \<Rightarrow> (string \<Rightarrow> delivery_row option) \<Rightarrow> bool" where
  "rows_ok log cur did rows =
     ((\<forall>k d. rows k = Some d \<longrightarrow> row_ok log cur did d)
      \<and> (\<forall>k k' d d'. rows k = Some d \<longrightarrow> rows k' = Some d' \<longrightarrow> dl_room d = dl_room d' \<longrightarrow> dl_nonce d = dl_nonce d' \<longrightarrow> k = k')
      \<and> (\<forall>room. \<forall>r \<in> set (log room). p_did r = did \<longrightarrow> (\<exists>k d. rows k = Some d \<and> row_of_record r room d)))"

text \<open>Growing lanes and a log that grows by the bytes of a stored row keep it.\<close>

lemma rows_ok_lane:
  "rows_ok log cur did rows \<Longrightarrow> (\<And>room. cur room \<le> cur' room) \<Longrightarrow> rows_ok log cur' did rows"
  unfolding rows_ok_def row_ok_def by (meson order_trans)

lemma stands_mono: "stands d rs n \<Longrightarrow> set rs \<subseteq> set rs' \<Longrightarrow> stands d rs' n"
  by (auto simp: stands_def)

lemma rows_ok_log:
  assumes "rows_ok log cur did rows" "rows k = Some d" "dl_room d = room" "dl_did d = did"
    and "\<forall>room'. log' room' = log room' \<or> (room' = room \<and>
        (\<exists>r. log' room = log room @ [r] \<and> posted_as r room did (dl_nonce d) (dl_text d) (dl_signature d)))"
  shows "rows_ok log' cur did rows"
proof -
  have mono: "set (log room') \<subseteq> set (log' room')" for room'
    using assms(5) by (metis set_append sup_ge1 order_refl)
  have "row_ok log' cur did e" if "rows k' = Some e" for k' e
    using that assms(1) stands_mono [OF _ mono] unfolding rows_ok_def row_ok_def by blast
  moreover have "\<exists>k d. rows k = Some d \<and> row_of_record r room' d"
    if r: "r \<in> set (log' room')" "p_did r = did" for r room'
  proof (cases "r \<in> set (log room')")
    case False
    then have "room' = room" "posted_as r room did (dl_nonce d) (dl_text d) (dl_signature d)"
      using assms(5) r(1) by (metis Un_iff empty_iff empty_set set_ConsD set_append)+
    then show ?thesis using assms(2,3) by (auto simp: row_of_record_def posted_as_def)
  qed (use assms(1) r(2) in \<open>auto simp: rows_ok_def\<close>)
  ultimately show ?thesis using assms(1) unfolding rows_ok_def by blast
qed

lemma rows_ok_new:
  assumes "rows_ok log cur did rows" "rows k = None" "\<And>room'. cur room' \<le> cur' room'"
    and "cur (dl_room d) < dl_nonce d" "dl_nonce d \<le> cur' (dl_room d)" "dl_did d = did" "dl_status d = Prepared"
  shows "rows_ok log cur' did (rows(k \<mapsto> d))"
proof -
  have old: "dl_nonce e \<noteq> dl_nonce d" if "rows k' = Some e" "dl_room e = dl_room d" for k' e
    using that assms(1,4) by (fastforce simp: rows_ok_def row_ok_def)
  have base: "rows_ok log cur' did rows" by (rule rows_ok_lane [OF assms(1,3)])
  have new: "row_ok log cur' did d" using assms(5-7) by (simp add: row_ok_def)
  have keep: "rows k' = Some e \<Longrightarrow> (rows(k \<mapsto> d)) k' = Some e" for k' e using assms(2) by auto
  show ?thesis unfolding rows_ok_def
  proof (intro conjI allI impI ballI)
    fix k' e assume "(rows(k \<mapsto> d)) k' = Some e"
    then show "row_ok log cur' did e" using base new by (auto simp: rows_ok_def split: if_splits)
  next
    fix k1 k2 d1 d2
    assume "(rows(k \<mapsto> d)) k1 = Some d1" "(rows(k \<mapsto> d)) k2 = Some d2" "dl_room d1 = dl_room d2"
      "dl_nonce d1 = dl_nonce d2"
    then show "k1 = k2" using old base by (auto simp: rows_ok_def split: if_splits)
  next
    fix room r assume "r \<in> set (log room)" "p_did r = did"
    then show "\<exists>k' e. (rows(k \<mapsto> d)) k' = Some e \<and> row_of_record r room e"
      using base keep unfolding rows_ok_def by blast
  qed
qed

lemma rows_ok_confirm:
  assumes "rows_ok log cur did rows" "rows k = Some d" "stands d (log (dl_room d)) n"
  shows "rows_ok log cur did (rows(k \<mapsto> d\<lparr>dl_status := Confirmed, dl_sequence := Some n\<rparr>))"
proof -
  let ?d = "d\<lparr>dl_status := Confirmed, dl_sequence := Some n\<rparr>"
  have new: "row_ok log cur did ?d" using assms by (auto simp: rows_ok_def row_ok_def stands_def)
  show ?thesis unfolding rows_ok_def
  proof (intro conjI allI impI ballI)
    fix k' e assume "(rows(k \<mapsto> ?d)) k' = Some e"
    then show "row_ok log cur did e" using assms(1) new by (auto simp: rows_ok_def split: if_splits)
  next
    fix k1 k2 d1 d2
    assume "(rows(k \<mapsto> ?d)) k1 = Some d1" "(rows(k \<mapsto> ?d)) k2 = Some d2" "dl_room d1 = dl_room d2"
      "dl_nonce d1 = dl_nonce d2"
    moreover have "\<exists>e. rows k' = Some e \<and> dl_room e = dl_room e' \<and> dl_nonce e = dl_nonce e'"
      if "(rows(k \<mapsto> ?d)) k' = Some e'" for k' e' using that assms(2) by (auto split: if_splits)
    ultimately show "k1 = k2" using assms(1) unfolding rows_ok_def by metis
  next
    fix room r assume "r \<in> set (log room)" "p_did r = did"
    then obtain k' e where "rows k' = Some e" "row_of_record r room e" using assms(1) unfolding rows_ok_def by blast
    then show "\<exists>k' e. (rows(k \<mapsto> ?d)) k' = Some e \<and> row_of_record r room e"
      using assms(2) by (cases "k' = k") (auto simp: row_of_record_def)
  qed
qed

lemma filter_key: "distinct (map f xs) \<Longrightarrow> x \<in> set xs \<Longrightarrow> filter (\<lambda>y. f y = f x) xs = [x]"
proof (induction xs)
  case (Cons a xs)
  show ?case
  proof (cases "x = a")
    case True
    then have "filter (\<lambda>y. f y = f x) xs = []" using Cons.prems(1) by (auto simp: filter_empty_conv image_iff)
    then show ?thesis using True by simp
  next
    case False
    then have "f a \<noteq> f x" using Cons.prems by auto
    then show ?thesis using Cons False by simp
  qed
qed simp

section \<open>The messenger over its contracts\<close>

definition confirmed_row :: "delivery_row \<Rightarrow> int \<Rightarrow> delivery_row" where
  "confirmed_row d n = d\<lparr>dl_status := Confirmed, dl_sequence := Some n\<rparr>"

definition posted_row :: "protocol_record \<Rightarrow> delivery_row \<Rightarrow> bool" where
  "posted_row r d = posted_as r (dl_room d) (dl_did d) (dl_nonce d) (dl_text d) (dl_signature d)"

definition send_via :: "'t target_ops \<Rightarrow> (sign_request \<Rightarrow> ('x, sign_response) op) \<Rightarrow>
    string \<times> string \<times> string \<times> string \<Rightarrow> (('x, 't) env, protocol_record) op" where
  "send_via T snr = (\<lambda>(key, actor, room, msg).
     send_text T (guarded_sign (\<lambda>r. in_signer (snr r))) key actor room msg)"

lemma in_target_eq: "in_target f w = (r, w') \<longleftrightarrow> (\<exists>t. f (e_target w) = (r, t) \<and> w' = w\<lparr>e_target := t\<rparr>)"
  by (auto simp: in_target_def split: prod.splits)

lemma in_signer_eq: "in_signer f w = (r, w') \<longleftrightarrow> (\<exists>x. f (e_signer w) = (r, x) \<and> w' = w\<lparr>e_signer := x\<rparr>)"
  by (auto simp: in_signer_def split: prod.splits)

lemma row_frame [simp]: "row (w\<lparr>e_target := t\<rparr>) = row w" "row (w\<lparr>e_signer := x\<rparr>) = row w"
  by (simp_all add: row_def fun_eq_iff)

lemma row_store: "row (w\<lparr>b_store := s\<rparr>) = st_deliveries s"
  by (simp add: row_def fun_eq_iff)

lemma guarded_sign_eq: "guarded_sign (\<lambda>r. in_signer (snr r)) r w = (res, w') \<Longrightarrow>
    (\<exists>e. res = Inl e \<and> w' = w) \<or> (\<exists>x. snr r (e_signer w) = (res, x) \<and> w' = w\<lparr>e_signer := x\<rparr>)"
  using gate_require_state [of "''signer''" w]
  by (cases "gate_require ''signer'' w") (auto simp: guarded_sign_def bindS_def in_signer_eq split: sum.splits)

locale messenger = technocore_target T log ok + message_signer snr lane_of did
  for T :: "'t target_ops" and log :: "'t \<Rightarrow> string \<Rightarrow> protocol_record list" and ok :: "'t \<Rightarrow> bool"
    and snr :: "sign_request \<Rightarrow> 'x \<Rightarrow> (exn + sign_response) \<times> 'x" and lane_of :: "'x \<Rightarrow> string \<Rightarrow> int" and did :: string
begin

definition good :: "('x, 't) env \<Rightarrow> bool" where
  "good w = (ok (e_target w) \<and> rows_ok (log (e_target w)) (lane_of (e_signer w)) did (row w))"

lemma delivery_bytes_good:
  assumes g: "good w"
    and b: "delivery_bytes (guarded_sign (\<lambda>r. in_signer (snr r))) key actor room msg w = (x, w')"
  shows "good w' \<and> (\<forall>d. x = Inr d \<longrightarrow> row w' key = Some d \<and> dl_room d = room \<and> dl_text d = msg)"
proof (cases "row w key")
  case (Some d)
  then show ?thesis using assms
    by (auto simp: delivery_bytes_def delivery_def row_def raiseS_if_def split: if_splits)
next
  case None
  let ?r = "message_request actor room msg"
  obtain y u where s: "guarded_sign (\<lambda>r. in_signer (snr r)) ?r w = (y, u)" by fastforce
  have ug: "good u" "row u = row w"
    using guarded_sign_eq [OF s] g rows_ok_lane lanes_grow by (auto simp: good_def)
  show ?thesis
  proof (cases y)
    case (Inl e)
    then have "x = Inl e" "w' = u" using b s None by (auto simp: delivery_bytes_def delivery_def row_def bindS_def)
    then show ?thesis using ug by simp
  next
    case (Inr resp)
    then obtain xs where xs: "snr ?r (e_signer w) = (Inr resp, xs)" "u = w\<lparr>e_signer := xs\<rparr>"
      using guarded_sign_eq [OF s] by auto
    from signs [OF xs(1)] obtain n where n: "sp_did resp = did" "sp_nonce resp = Some n"
      "lane_of (e_signer w) room < n" "lane_of xs room = n" by blast
    let ?d = "\<lparr>dl_actor = actor, dl_room = room, dl_did = did, dl_nonce = n, dl_text = msg,
                dl_signature = sp_signature resp, dl_status = Prepared, dl_sequence = None\<rparr>"
    have "(\<exists>e. x = Inl e \<and> w' = u) \<or> (x = Inr ?d \<and> row w' = (row w)(key \<mapsto> ?d) \<and> e_target w' = e_target w \<and> e_signer w' = xs)"
      using b s None Inr n xs
      by (auto simp: delivery_bytes_def delivery_def row_def bindS_def in_store_def prepare_delivery_def fun_eq_iff
          split: if_splits)
    moreover have "rows_ok (log (e_target w)) (lane_of xs) did ((row w)(key \<mapsto> ?d))"
      using g None n lanes_grow [OF xs(1)] by (intro rows_ok_new [where cur = "lane_of (e_signer w)"]) (auto simp: good_def)
    ultimately show ?thesis using ug g by (auto simp: good_def)
  qed
qed

lemma post_good:
  assumes g: "good w" and r: "row w key = Some d"
    and p: "in_target (tg_post_signed T (dl_actor d) (dl_room d) (dl_did d) (dl_nonce d) (dl_text d) (dl_signature d)) w = (x, w')"
  shows "good w' \<and> row w' = row w \<and>
    (\<forall>r. x = Inr r \<longrightarrow> r \<in> set (log (e_target w') (dl_room d)) \<and> posted_row r d)"
proof -
  obtain t where t: "tg_post_signed T (dl_actor d) (dl_room d) (dl_did d) (dl_nonce d) (dl_text d) (dl_signature d)
      (e_target w) = (x, t)" "w' = w\<lparr>e_target := t\<rparr>" using p by (auto simp: in_target_eq)
  have k: "ok (e_target w)" "rows_ok (log (e_target w)) (lane_of (e_signer w)) did (row w)" "dl_did d = did"
    using g r by (auto simp: good_def rows_ok_def row_ok_def)
  note ext = post_extends [OF k(1) t(1)]
  have "rows_ok (log t) (lane_of (e_signer w)) did (row w)"
    using ext k(3) by (intro rows_ok_log [OF k(2) r refl k(3)]) auto
  then show ?thesis using ext t post_returns [OF k(1)] by (auto simp: good_def posted_row_def)
qed

lemma confirm_good:
  assumes g: "good w" and r: "row w key = Some d" and s: "stands d (log (e_target w) (dl_room d)) n"
    and c: "in_store (confirm_delivery key n) w = (x, w')"
  shows "good w' \<and> ((x = Inr () \<and> row w' key = Some (confirmed_row d n)) \<or> (\<exists>e. x = Inl e \<and> w' = w))"
proof -
  have "(\<exists>e. x = Inl e \<and> w' = w) \<or> (x = Inr () \<and> row w' = (row w)(key \<mapsto> confirmed_row d n)
      \<and> e_target w' = e_target w \<and> e_signer w' = e_signer w)"
    using c r by (auto simp: in_store_def confirm_delivery_def row_def confirmed_row_def fun_eq_iff split: if_splits)
  moreover have "rows_ok (log (e_target w)) (lane_of (e_signer w)) did (row w) \<Longrightarrow>
      rows_ok (log (e_target w)) (lane_of (e_signer w)) did ((row w)(key \<mapsto> confirmed_row d n))"
    unfolding confirmed_row_def by (rule rows_ok_confirm) (use r s in simp_all)
  ultimately show ?thesis using g by (auto simp: good_def)
qed

text \<open>What a delivery that returns has left behind.\<close>

definition delivered :: "string \<Rightarrow> delivery_row \<Rightarrow> protocol_record \<Rightarrow> ('x, 't) env \<Rightarrow> bool" where
  "delivered key d r w = (posted_row r d \<and> row w key = Some (confirmed_row d (p_sequence r)))"

lemma reconcile_good:
  assumes g: "good w" and f: "in_target (reconcile T room did' nonce msg) w = (x, w')"
  shows "good w' \<and> row w' = row w \<and> log (e_target w') = log (e_target w) \<and> (\<forall>r. x = Inr (Some r) \<longrightarrow>
    r \<in> set (log (e_target w) room) \<and> record_key r = (did', nonce) \<and> p_text r = msg)"
proof -
  obtain t where t: "reconcile T room did' nonce msg (e_target w) = (x, t)" "w' = w\<lparr>e_target := t\<rparr>"
    using f by (auto simp: in_target_eq)
  have k: "ok (e_target w)" using g by (simp add: good_def)
  have "ok t \<and> log t = log (e_target w) \<and> (\<forall>r. x = Inr (Some r) \<longrightarrow>
      r \<in> set (log (e_target w) room) \<and> record_key r = (did', nonce) \<and> p_text r = msg)"
  proof (cases "tg_reconcile T")
    case (Some h)
    then show ?thesis using t(1) reconcile_log [OF Some k] by (auto simp: reconcile_def)
  next
    case None
    obtain y u where y: "tg_read_room T room 0 100 (e_target w) = (y, u)" by fastforce
    note read = read_log [OF k y]
    show ?thesis
    proof (cases y)
      case (Inl e)
      then show ?thesis using t(1) None y read by (auto simp: reconcile_def bindS_def)
    next
      case (Inr rs)
      let ?m = "filter (\<lambda>r. p_did r = did' \<and> p_nonce r = nonce \<and> p_text r = msg) rs"
      have "set ?m \<subseteq> {r \<in> set (log (e_target w) room). record_key r = (did', nonce) \<and> p_text r = msg}"
        using read Inr by (auto simp: record_key_def)
      moreover have "u = t \<and> (\<forall>r. x = Inr (Some r) \<longrightarrow> r \<in> set ?m)"
        using t(1) None y Inr
        by (cases ?m) (auto simp: reconcile_def bindS_def Let_def raiseS_if_def split: if_splits)
      ultimately show ?thesis using read by blast
    qed
  qed
  then show ?thesis using t(2) g by (auto simp: good_def)
qed

lemma settle_good:
  assumes g: "good w" and r: "row w key = Some d" and s: "settle_uncertain T key d w = (x, w')"
  shows "good w' \<and> (\<forall>r. x = Inr r \<longrightarrow> delivered key d r w')"
proof -
  obtain y u where y: "in_target (reconcile T (dl_room d) (dl_did d) (dl_nonce d) (dl_text d)) w = (y, u)" by fastforce
  note rec = reconcile_good [OF g y]
  consider e where "y = Inl e" | "y = Inr None" | m where "y = Inr (Some m)"
    by (metis not_None_eq sum.exhaust)
  then show ?thesis
  proof cases
    case 3
    have st: "stands d (log (e_target u) (dl_room d)) (p_sequence m)"
      using rec 3 by (auto simp: stands_def)
    obtain z v where z: "in_store (confirm_delivery key (p_sequence m)) u = (z, v)" by fastforce
    have ru: "row u key = Some d" using rec r by simp
    from confirm_good [OF _ ru st z] rec
    have c: "good v \<and> ((z = Inr () \<and> row v key = Some (confirmed_row d (p_sequence m))) \<or> (\<exists>e. z = Inl e \<and> v = u))"
      by blast
    then show ?thesis using s y z 3
      by (auto simp: settle_uncertain_def bindS_def delivered_def posted_row_def posted_as_def make_record_def
          split: sum.splits)
  qed (use s y rec in \<open>auto simp: settle_uncertain_def bindS_def\<close>)
qed

lemma post_attempts_good:
  "good w \<Longrightarrow> row w key = Some d \<Longrightarrow> post_attempts T key d n w = (x, w') \<Longrightarrow>
   good w' \<and> (\<forall>r. x = Inr r \<longrightarrow> delivered key d r w')"
proof (induction n arbitrary: w)
  case (Suc n)
  obtain y u where y: "in_target (tg_post_signed T (dl_actor d) (dl_room d) (dl_did d) (dl_nonce d) (dl_text d)
      (dl_signature d)) w = (y, u)" by fastforce
  note post = post_good [OF Suc.prems(1,2) y]
  then have u: "good u" "row u key = Some d" using Suc.prems(2) by auto
  show ?case
  proof (cases y)
    case (Inl e)
    have "post_attempts T key d (Suc n) w = (Inl e, u) \<or> post_attempts T key d (Suc n) w = post_attempts T key d n u
        \<or> post_attempts T key d (Suc n) w = settle_uncertain T key d u"
      using y Inl by (cases e) auto
    then consider "x = Inl e" "w' = u" | "post_attempts T key d n u = (x, w')" | "settle_uncertain T key d u = (x, w')"
      unfolding Suc.prems(3) by (metis prod.inject)
    then show ?thesis by cases (use u(1) Suc.IH [OF u] settle_good [OF u] in blast)+
  next
    case (Inr r)
    obtain z v where z: "in_store (confirm_delivery key (p_sequence r)) u = (z, v)" by fastforce
    have "stands d (log (e_target u) (dl_room d)) (p_sequence r)"
      using post Inr by (auto simp: stands_def posted_row_def posted_as_def record_key_def)
    from confirm_good [OF u this z] show ?thesis using Suc.prems(3) y z Inr post
      by (auto simp: bindS_def delivered_def split: sum.splits)
  qed
qed auto

lemma send_good:
  assumes g: "good w" and s: "send_via T snr (key, actor, room, msg) w = (x, w')"
  shows "good w' \<and> (\<forall>r. x = Inr r \<longrightarrow> (\<exists>d. dl_room d = room \<and> dl_text d = msg \<and> delivered key d r w'))"
proof (cases "gate_require ''public_writer'' w")
  case (Pair y u)
  then have u: "u = w" using gate_require_state [of "''public_writer''" w] by simp
  show ?thesis
  proof (cases y)
    case (Inr _)
    obtain z v where z: "delivery_bytes (guarded_sign (\<lambda>r. in_signer (snr r))) key actor room msg w = (z, v)" by fastforce
    note db = delivery_bytes_good [OF g z]
    show ?thesis
    proof (cases z)
      case (Inr d)
      then have d: "good v" "row v key = Some d" "dl_room d = room" "dl_text d = msg" using db by auto
      show ?thesis
      proof (cases "dl_status d")
        case Prepared
        then have "post_attempts T key d 2 v = (x, w')"
          using s Pair u \<open>y = Inr _\<close> z Inr by (simp add: send_via_def send_text_def bindS_def)
        from post_attempts_good [OF d(1,2) this] d show ?thesis by blast
      next
        case Confirmed
        obtain n where n: "dl_sequence d = Some n" "stands d (log (e_target v) (dl_room d)) n"
          using d(1,2) Confirmed unfolding good_def rows_ok_def row_ok_def by blast
        have "x = Inr (make_record n room (dl_did d) (dl_nonce d) (dl_text d) (dl_signature d))" "w' = v"
          using s Pair u \<open>y = Inr _\<close> z Inr Confirmed n by (auto simp: send_via_def send_text_def bindS_def)
        moreover have "confirmed_row d n = d" using Confirmed n by (simp add: confirmed_row_def)
        ultimately show ?thesis using d by (auto simp: delivered_def posted_row_def posted_as_def make_record_def)
      qed
    qed (use s Pair u \<open>y = Inr _\<close> z db in \<open>auto simp: send_via_def send_text_def bindS_def\<close>)
  qed (use s Pair u g in \<open>auto simp: send_via_def send_text_def bindS_def\<close>)
qed

lemma sends_good:
  "good w \<Longrightarrow> good (snd (run_steps (send_via T snr) sends w))"
proof (induction sends arbitrary: w)
  case (Cons s sends)
  obtain key actor room msg where s: "s = (key, actor, room, msg)" by (cases s)
  obtain x u where u: "send_via T snr s w = (x, u)" by fastforce
  then have "good u" using send_good Cons.prems s by blast
  then show ?case using Cons.IH [of u] u by (simp add: Let_def case_prod_unfold)
qed simp

text \<open>In a good state every record of the signer comes from exactly one key.\<close>

lemma good_unique:
  assumes "good w" "r \<in> set (log (e_target w) room)" "p_did r = did"
  shows "\<exists>!k. \<exists>d. row w k = Some d \<and> row_of_record r room d"
proof -
  have rows: "rows_ok (log (e_target w)) (lane_of (e_signer w)) did (row w)" using assms(1) by (simp add: good_def)
  then obtain k d where "row w k = Some d" "row_of_record r room d" using assms(2,3) unfolding rows_ok_def by blast
  moreover have "k' = k" if "row w k' = Some e" "row_of_record r room e" for k' e
  proof -
    have "dl_room e = dl_room d" "dl_nonce e = dl_nonce d"
      using that(2) \<open>row_of_record r room d\<close> by (simp_all add: row_of_record_def)
    then show ?thesis using rows that(1) \<open>row w k = Some d\<close> unfolding rows_ok_def by blast
  qed
  ultimately show ?thesis by blast
qed

lemma good_confirmed:
  assumes "good w" "row w k = Some d" "dl_status d = Confirmed"
  shows "\<exists>r. filter (\<lambda>r. record_key r = (dl_did d, dl_nonce d)) (log (e_target w) (dl_room d)) = [r]
    \<and> p_text r = dl_text d \<and> dl_sequence d = Some (p_sequence r)"
proof -
  have k: "ok (e_target w)" and "row_ok (log (e_target w)) (lane_of (e_signer w)) did d"
    using assms(1,2) by (auto simp: good_def rows_ok_def)
  then obtain r where r: "r \<in> set (log (e_target w) (dl_room d))" "record_key r = (dl_did d, dl_nonce d)"
    "p_text r = dl_text d" "dl_sequence d = Some (p_sequence r)"
    using assms(3) by (auto simp: row_ok_def stands_def)
  from filter_key [OF keys_unique [OF k] r(1)] show ?thesis using r by auto
qed

end

interpretation local_messenger: messenger "local_ops C" local_log local_ok "handle C i"
    "\<lambda>s room. current_nonce s (''message:'' @ room)" "id_did i" for C i
  by (rule messenger.intro) (rule local_technocore.technocore_target_axioms networkless.message_signer_axioms)+

section \<open>A closed gate\<close>

definition demo_env :: "(nonce_store, local_target) env" where
  "demo_env = \<lparr>b_store = empty_store, b_kill = False, e_signer = empty_nonce_store, e_target = new_local\<rparr>"

text \<open>
  A closed gate sends nothing: while the kill switch exists or the public writer is quarantined,
  a send raises before the signer, the store or the target is touched, whatever they are.
\<close>

theorem closed_gate_sends_nothing:
  assumes "b_kill w \<or> component_quarantined ''public_writer'' (b_store w)"
  shows "\<exists>e. send_text T sign key actor room msg w = (Inl (RuntimeError e), w)"
  using gate_bind_closed [OF assms] by (simp add: send_text_def)

lemma closed_gate_sends_nothing_witness:
  "\<exists>e. send_text (local_ops demo_crypto) (\<lambda>r. retS undefined) ''k'' ''a'' ''lobby'' ''hi'' (demo_env\<lparr>b_kill := True\<rparr>)
     = (Inl (RuntimeError e), demo_env\<lparr>b_kill := True\<rparr>)"
  by (rule closed_gate_sends_nothing) simp

section \<open>A retry sends the stored bytes\<close>

definition same_bytes :: "delivery_row \<Rightarrow> delivery_row \<Rightarrow> bool" where
  "same_bytes d d' = (dl_actor d' = dl_actor d \<and> dl_room d' = dl_room d \<and> dl_did d' = dl_did d \<and> dl_nonce d' = dl_nonce d
     \<and> dl_text d' = dl_text d \<and> dl_signature d' = dl_signature d)"

definition keeps_bytes :: "string \<Rightarrow> ('x, 't) env \<Rightarrow> ('x, 't) env \<Rightarrow> bool" where
  "keeps_bytes key w w' = (e_signer w' = e_signer w \<and> (\<forall>d. row w key = Some d \<longrightarrow> (\<exists>d'. row w' key = Some d' \<and> same_bytes d d')))"

lemma same_bytes_refl [simp]: "same_bytes d d" by (simp add: same_bytes_def)

lemma same_bytes_trans: "same_bytes d e \<Longrightarrow> same_bytes e f \<Longrightarrow> same_bytes d f"
  by (simp add: same_bytes_def)

lemma keeps_bytes_refl [simp]: "keeps_bytes key w w" by (simp add: keeps_bytes_def)

lemma keeps_bytes_trans: "keeps_bytes key w u \<Longrightarrow> keeps_bytes key u v \<Longrightarrow> keeps_bytes key w v"
  unfolding keeps_bytes_def using same_bytes_trans by fastforce

lemma keeps_bytes_target: "in_target f w = (x, w') \<Longrightarrow> keeps_bytes key w w'"
  by (auto simp: in_target_eq keeps_bytes_def)

lemma keeps_bytes_confirm: "in_store (confirm_delivery key n) w = (x, w') \<Longrightarrow> keeps_bytes key w w'"
  by (auto simp: in_store_def confirm_delivery_def keeps_bytes_def row_def same_bytes_def split: if_splits option.splits)

lemma keeps_bytes_bind:
  "(\<And>x u. m w = (x, u) \<Longrightarrow> keeps_bytes key w u) \<Longrightarrow> (\<And>a u. keeps_bytes key u (snd (f a u))) \<Longrightarrow>
   keeps_bytes key w (snd (bindS m f w))"
  unfolding bindS_def by (cases "m w"; cases "fst (m w)") (auto intro: keeps_bytes_trans)

lemma settle_keeps_bytes: "keeps_bytes key w (snd (settle_uncertain T key d w))"
  unfolding settle_uncertain_def
  by (rule keeps_bytes_bind, erule keeps_bytes_target)
    (auto split: option.split intro!: keeps_bytes_bind elim!: keeps_bytes_confirm)

lemma post_attempts_keeps_bytes: "keeps_bytes key w (snd (post_attempts T key d n w))"
proof (induction n arbitrary: w)
  case (Suc n)
  obtain y u where y: "in_target (tg_post_signed T (dl_actor d) (dl_room d) (dl_did d) (dl_nonce d) (dl_text d)
      (dl_signature d)) w = (y, u)" by fastforce
  have u: "keeps_bytes key w u" by (rule keeps_bytes_target [OF y])
  have c: "keeps_bytes key u (snd (bindS (in_store (confirm_delivery key (p_sequence r))) (\<lambda>_. retS r) u))" for r
    by (rule keeps_bytes_bind, erule keeps_bytes_confirm) simp
  show ?case
  proof (cases y)
    case (Inl e)
    have "post_attempts T key d (Suc n) w = (Inl e, u) \<or> post_attempts T key d (Suc n) w = post_attempts T key d n u
        \<or> post_attempts T key d (Suc n) w = settle_uncertain T key d u"
      using y Inl by (cases e) auto
    then show ?thesis using keeps_bytes_trans [OF u] u Suc [of u] settle_keeps_bytes [of key u T d]
      by (metis snd_conv)
  next
    case (Inr r)
    then have "post_attempts T key d (Suc n) w = bindS (in_store (confirm_delivery key (p_sequence r))) (\<lambda>_. retS r) u"
      using y by simp
    then show ?thesis using keeps_bytes_trans [OF u c [of r]] by simp
  qed
qed simp

text \<open>
  C13: A retry of a stored delivery never signs again: whatever the target and the signer do, the
  signer is left untouched, the stored actor, room, DID, nonce, text and signature stay what they
  were, and a confirmed delivery is answered from the store without any effect at all.
\<close>

theorem retry_sends_stored_bytes:
  assumes "delivery key (b_store w) = Some d" "send_text T sign key actor room msg w = (x, w')"
  shows "e_signer w' = e_signer w \<and> (\<exists>d'. delivery key (b_store w') = Some d' \<and> same_bytes d d')
    \<and> (dl_status d = Confirmed \<longrightarrow> w' = w)
    \<and> (\<forall>r. x = Inr r \<longrightarrow> dl_actor d = actor \<and> dl_room d = room \<and> dl_text d = msg)"
proof (cases "gate_require ''public_writer'' w")
  case (Pair y u)
  then have u: "u = w" using gate_require_state [of "''public_writer''" w] by simp
  show ?thesis
  proof (cases "\<exists>a. y = Inr a \<and> dl_actor d = actor \<and> dl_room d = room \<and> dl_text d = msg")
    case True
    then have g: "gate_require ''public_writer'' w = (Inr (), w)" using Pair u by simp
    have "delivery_bytes sign key actor room msg w = (Inr d, w)"
      using True assms(1) by (simp add: delivery_bytes_def)
    then have "send_text T sign key actor room msg w = (if dl_status d = Confirmed
      then (case dl_sequence d of None \<Rightarrow> raiseS (RuntimeError ''confirmed_delivery_missing_sequence'')
        | Some n \<Rightarrow> retS (make_record n room (dl_did d) (dl_nonce d) (dl_text d) (dl_signature d))) w
      else post_attempts T key d 2 w)"
      using g by (simp only: send_text_def bindS_def prod.case sum.case if_distribR)
    then have "keeps_bytes key w w' \<and> (dl_status d = Confirmed \<longrightarrow> w' = w)"
      using assms(2) post_attempts_keeps_bytes [of key w T d 2]
      by (cases "dl_status d = Confirmed"; cases "post_attempts T key d 2 w") (auto split: option.splits)
    then show ?thesis using True assms(1) by (auto simp: keeps_bytes_def row_def delivery_def)
  next
    case False
    then have "w' = w" "\<nexists>r. x = Inr r"
      using assms Pair u by (auto simp: send_text_def delivery_bytes_def bindS_def raiseS_if_def split: sum.splits if_splits)
    then show ?thesis using assms(1) by auto
  qed
qed

definition demo_row :: delivery_row where
  "demo_row = \<lparr>dl_actor = ''a'', dl_room = ''lobby'', dl_did = ''did'', dl_nonce = 3, dl_text = ''hello'',
     dl_signature = ''sig'', dl_status = Confirmed, dl_sequence = Some 7\<rparr>"

definition demo_stored :: "(nonce_store, local_target) env" where
  "demo_stored = demo_env\<lparr>b_store := empty_store\<lparr>st_deliveries := [''k'' \<mapsto> demo_row]\<rparr>\<rparr>"

lemma retry_sends_stored_bytes_witness:
  "send_text (local_ops demo_crypto) (\<lambda>r. retS undefined) ''k'' ''a'' ''lobby'' ''hello'' demo_stored
     = (Inr (make_record 7 ''lobby'' ''did'' 3 ''hello'' ''sig''), demo_stored)"
proof -
  have d: "delivery ''k'' (b_store demo_stored) = Some demo_row" by (simp add: delivery_def demo_stored_def)
  have g: "gate_require ''public_writer'' demo_stored = (Inr (), demo_stored)"
    by (simp add: demo_stored_def demo_env_def component_quarantined_def empty_store_def)
  obtain x w' where s: "send_text (local_ops demo_crypto) (\<lambda>r. retS undefined) ''k'' ''a'' ''lobby'' ''hello'' demo_stored
      = (x, w')" by fastforce
  have "w' = demo_stored" using retry_sends_stored_bytes [OF d s] by (simp add: demo_row_def)
  moreover have "x = Inr (make_record 7 ''lobby'' ''did'' 3 ''hello'' ''sig'')"
    using s d g by (auto simp: send_text_def delivery_bytes_def bindS_def demo_row_def raiseS_if_def)
  ultimately show ?thesis using s by simp
qed

end
