(* ===== verification/Messenger_Faults.thy ===== *)
theory Messenger_Faults
  imports Messenger
begin

text \<open>
  The reliable messenger over a target that fails.  The faulty target is the
  fixture target behind a script of faults: a post may be refused before or
  after it is stored, answered by a rate limit, or lose its request or its
  answer, and a read may be lost.  Strangers post to the same rooms, and the
  kill switch is turned on and off between the sends.  The contract of a target
  still holds, so the guarantees of the messenger do.
\<close>

section \<open>A target that fails\<close>

datatype failure = Uncertain string | Refused int string | Disconnected string

fun failure_exn :: "failure \<Rightarrow> exn" where
  "failure_exn (Uncertain m) = UncertainWrite m"
| "failure_exn (Refused status m) = TechnocoreRefusal status m"
| "failure_exn (Disconnected m) = HttpError m"

text \<open>What happens to one post: \<open>RequestLost\<close> is before the target stores it, \<open>AnswerLost\<close> after.\<close>

datatype post_fault = Healthy | Limited int | RequestLost failure | AnswerLost failure

record faulty_target =
  fy_local :: local_target
  fy_posts :: "post_fault list"
  fy_reads :: "bool list"

definition on_local :: "(local_target, 'a) op \<Rightarrow> (faulty_target, 'a) op" where
  "on_local f t = (case f (fy_local t) of (r, l) \<Rightarrow> (r, t\<lparr>fy_local := l\<rparr>))"

fun post_under :: "post_fault \<Rightarrow> (faulty_target, 'a) op \<Rightarrow> (faulty_target, 'a) op" where
  "post_under Healthy f t = f t"
| "post_under (Limited seconds) f t = (Inl (RateLimited seconds), t)"
| "post_under (RequestLost e) f t = (Inl (failure_exn e), t)"
| "post_under (AnswerLost e) f t = (Inl (failure_exn e), snd (f t))"

definition faulty_post ::
  "crypto \<Rightarrow> string \<Rightarrow> string \<Rightarrow> string \<Rightarrow> int \<Rightarrow> string \<Rightarrow> string \<Rightarrow> (faulty_target, protocol_record) op" where
  "faulty_post C actor room did nonce msg sig t =
     post_under (case fy_posts t of [] \<Rightarrow> Healthy | f # _ \<Rightarrow> f)
       (on_local (local_post_signed C actor room did nonce msg sig)) (t\<lparr>fy_posts := tl (fy_posts t)\<rparr>)"

definition faulty_read :: "string \<Rightarrow> int \<Rightarrow> int \<Rightarrow> (faulty_target, protocol_record list) op" where
  "faulty_read room since limit t =
     (if fy_reads t \<noteq> [] \<and> hd (fy_reads t) then (Inl (HttpError ''ReadError''), t\<lparr>fy_reads := tl (fy_reads t)\<rparr>)
      else on_local (local_read_room room since limit) (t\<lparr>fy_reads := tl (fy_reads t)\<rparr>))"

definition faulty_ops :: "crypto \<Rightarrow> faulty_target target_ops" where
  "faulty_ops C = \<lparr>tg_release = tg_release (local_ops C), tg_image_digest = tg_image_digest (local_ops C),
     tg_inject_rate_limit = (\<lambda>actor room. on_local (local_inject_rate_limit actor room)),
     tg_inject_uncertain = (\<lambda>actor room. on_local (local_inject_uncertain actor room)),
     tg_capabilities = on_local local_capabilities, tg_create_room = (\<lambda>room. on_local (local_create_room room)),
     tg_read_room = faulty_read, tg_post_signed = faulty_post C, tg_reconcile = None\<rparr>"

lemma faulty_ops_simps [simp]:
  "tg_read_room (faulty_ops C) = faulty_read" "tg_post_signed (faulty_ops C) = faulty_post C" "tg_reconcile (faulty_ops C) = None"
  by (simp_all add: faulty_ops_def)

lemma local_ops_posts:
  "tg_read_room (local_ops C) = local_read_room" "tg_post_signed (local_ops C) = local_post_signed C"
  by (simp_all add: local_ops_def)

lemma failure_exn_limit [simp]: "failure_exn e \<noteq> RateLimited k"
  by (cases e) simp_all

text \<open>A post of the faulty target did nothing, or is a post of the fixture target whose answer may be lost.\<close>

lemma faulty_post_cases:
  assumes "faulty_post C actor room did nonce msg sig t = (res, t')"
  shows "(fy_local t' = fy_local t \<and> (\<exists>e. res = Inl e))
    \<or> (\<exists>y. local_post_signed C actor room did nonce msg sig (fy_local t) = (y, fy_local t') \<and> (res = y \<or> (\<exists>e. res = Inl (failure_exn e))))"
proof -
  obtain y l where y: "local_post_signed C actor room did nonce msg sig (fy_local t) = (y, l)" by fastforce
  let ?f = "case fy_posts t of [] \<Rightarrow> Healthy | f # _ \<Rightarrow> f"
  show ?thesis using assms y by (cases ?f) (auto simp: faulty_post_def on_local_def)
qed

lemma faulty_read_cases:
  assumes "faulty_read room since limit t = (found, t')"
  shows "(fy_local t' = fy_local t \<and> (\<exists>e. found = Inl e)) \<or> local_read_room room since limit (fy_local t) = (found, fy_local t')"
  using assms by (cases "local_read_room room since limit (fy_local t)") (auto simp: faulty_read_def on_local_def split: if_splits)

interpretation faulty_technocore: technocore_target "faulty_ops C" "\<lambda>t. local_log (fy_local t)" "\<lambda>t. local_ok (fy_local t)" for C
proof
  fix t actor room did nonce msg sig r t'
  assume a: "local_ok (fy_local t)" "tg_post_signed (faulty_ops C) actor room did nonce msg sig t = (Inr r, t')"
  then have "local_post_signed C actor room did nonce msg sig (fy_local t) = (Inr r, fy_local t')"
    using faulty_post_cases [of C actor room did nonce msg sig t "Inr r" t'] by auto
  then show "r \<in> set (local_log (fy_local t') room) \<and> posted_as r room did nonce msg sig"
    using a(1) local_post_returns by blast
next
  fix t actor room did nonce msg sig res t'
  assume a: "local_ok (fy_local t)" "tg_post_signed (faulty_ops C) actor room did nonce msg sig t = (res, t')"
  then consider "fy_local t' = fy_local t" | y where "local_post_signed C actor room did nonce msg sig (fy_local t) = (y, fy_local t')"
    using faulty_post_cases [of C actor room did nonce msg sig t res t'] by auto
  then show "local_ok (fy_local t') \<and> (\<forall>room'. local_log (fy_local t') room' = local_log (fy_local t) room' \<or> (room' = room \<and>
        (\<exists>r. local_log (fy_local t') room = local_log (fy_local t) room @ [r] \<and> posted_as r room did nonce msg sig)))"
  proof cases
    case (2 y)
    with local_technocore.post_extends [of "fy_local t" C actor room did nonce msg sig y "fy_local t'"] a(1) show ?thesis
      by (simp add: local_ops_posts)
  qed (use a(1) in auto)
next
  fix t actor room did nonce msg sig k t'
  assume a: "local_ok (fy_local t)" "tg_post_signed (faulty_ops C) actor room did nonce msg sig t = (Inl (RateLimited k), t')"
  from faulty_post_cases [of C actor room did nonce msg sig t "Inl (RateLimited k)" t'] a(2)
  have "fy_local t' = fy_local t \<or> local_post_signed C actor room did nonce msg sig (fy_local t) = (Inl (RateLimited k), fy_local t')"
    by (auto simp: eq_commute [of _ "failure_exn _"])
  then show "local_log (fy_local t') = local_log (fy_local t)"
    using local_technocore.post_refused [of "fy_local t" C actor room did nonce msg sig k "fy_local t'"] a(1)
    by (auto simp: local_ops_posts)
next
  fix t room since limit found t'
  assume a: "local_ok (fy_local t)" "tg_read_room (faulty_ops C) room since limit t = (found, t')"
  then show "local_ok (fy_local t') \<and> local_log (fy_local t') = local_log (fy_local t)
      \<and> (\<forall>rs. found = Inr rs \<longrightarrow> set rs \<subseteq> {r \<in> set (local_log (fy_local t) room). since < p_sequence r})"
    using faulty_read_cases [of room since limit t found t']
      local_technocore.read_log [of "fy_local t" C room since limit found "fy_local t'"] by (auto simp: local_ops_posts)
next
  fix t room
  assume "local_ok (fy_local t)"
  then show "distinct (map record_key (local_log (fy_local t) room))" by (rule local_technocore.keys_unique)
qed simp

section \<open>Strangers\<close>

lemma rows_ok_stranger:
  assumes "rows_ok log cur did rows"
    and "\<forall>room'. log' room' = log room' \<or> (room' = room \<and> (\<exists>r. log' room = log room @ [r] \<and> p_did r \<noteq> did))"
  shows "rows_ok log' cur did rows"
proof -
  have mono: "set (log room') \<subseteq> set (log' room')" for room'
    using assms(2) by (metis set_append sup_ge1 order_refl)
  have "row_ok log' cur did e" if "rows k' = Some e" for k' e
    using that assms(1) stands_mono [OF _ mono] unfolding rows_ok_def row_ok_def by blast
  moreover have "r \<in> set (log room')" if "r \<in> set (log' room')" "p_did r = did" for r room'
    using assms(2) [rule_format, of room'] that by auto
  ultimately show ?thesis using assms(1) unfolding rows_ok_def by blast
qed

context messenger
begin

lemma stranger_good:
  assumes g: "good w" and d: "d \<noteq> did" and p: "in_target (tg_post_signed T actor room d nonce msg sig) w = (x, w')"
  shows "good w'"
proof -
  obtain t where t: "tg_post_signed T actor room d nonce msg sig (e_target w) = (x, t)" "w' = w\<lparr>e_target := t\<rparr>"
    using p by (auto simp: in_target_eq)
  have k: "ok (e_target w)" "rows_ok (log (e_target w)) (lane_of (e_signer w)) did (row w)" using g by (auto simp: good_def)
  have "rows_ok (log t) (lane_of (e_signer w)) did (row w)"
    using post_extends [OF k(1) t(1)] d by (intro rows_ok_stranger [OF k(2)]) (auto simp: posted_as_def)
  then show ?thesis using post_extends [OF k(1) t(1)] t by (auto simp: good_def)
qed

lemma switch_good: "good w \<Longrightarrow> good (w\<lparr>b_kill := b\<rparr>)"
  by (simp add: good_def row_def [abs_def])

end

interpretation faulty_messenger: messenger "faulty_ops C" "\<lambda>t. local_log (fy_local t)" "\<lambda>t. local_ok (fy_local t)" "handle C i"
    "\<lambda>s room. current_nonce s (''message:'' @ room)" "id_did i" for C i
  by (rule messenger.intro) (rule faulty_technocore.technocore_target_axioms networkless.message_signer_axioms)+

section \<open>Any sequence of events\<close>

text \<open>
  A send of the messenger, a post of a stranger (who has no key of the signer's DID), the kill switch turned on
  or off.
\<close>

datatype event = Send "string \<times> string \<times> string \<times> string" | Stranger string string string int string string | Switch bool

fun happens :: "crypto \<Rightarrow> identity \<Rightarrow> event \<Rightarrow> (nonce_store, faulty_target) env \<Rightarrow> (nonce_store, faulty_target) env" where
  "happens C i (Send s) w = snd (send_via (faulty_ops C) (handle C i) s w)"
| "happens C i (Stranger actor room d nonce msg sig) w =
     (if d = id_did i then w else snd (in_target (faulty_post C actor room d nonce msg sig) w))"
| "happens C i (Switch b) w = w\<lparr>b_kill := b\<rparr>"

lemma happens_good:
  assumes g: "faulty_messenger.good i w"
  shows "faulty_messenger.good i (happens C i e w)"
proof (cases e)
  case (Send s)
  obtain key actor room msg where s: "s = (key, actor, room, msg)" by (cases s)
  obtain x u where "send_via (faulty_ops C) (handle C i) s w = (x, u)" by fastforce
  then show ?thesis using faulty_messenger.send_good g s Send by fastforce
next
  case (Stranger actor room d nonce msg sig)
  obtain x u where "in_target (tg_post_signed (faulty_ops C) actor room d nonce msg sig) w = (x, u)" by fastforce
  then show ?thesis using faulty_messenger.stranger_good [OF g] Stranger g by auto
next
  case (Switch b)
  show ?thesis unfolding Switch happens.simps by (rule faulty_messenger.switch_good [OF g])
qed

lemma events_good: "faulty_messenger.good i w \<Longrightarrow> faulty_messenger.good i (fold (happens C i) events w)"
proof (induction events arbitrary: w)
  case (Cons e events)
  show ?case unfolding fold_simps by (rule Cons.IH [OF happens_good [OF Cons.prems]])
qed (simp only: fold_simps)

text \<open>The messenger has delivered nothing yet, and the rooms hold no record of the signer's DID.\<close>

definition unused_env :: "identity \<Rightarrow> (nonce_store, faulty_target) env \<Rightarrow> bool" where
  "unused_env i w = (local_ok (fy_local (e_target w)) \<and> st_deliveries (b_store w) = Map.empty
     \<and> (\<forall>room. \<forall>r \<in> set (local_log (fy_local (e_target w)) room). p_did r \<noteq> id_did i))"

lemma unused_good: "unused_env i w \<Longrightarrow> faulty_messenger.good i w"
  unfolding faulty_messenger.good_def unused_env_def by (auto simp: rows_ok_def row_def)

lemma at_most_one_key: "distinct (map f xs) \<Longrightarrow> length (filter (\<lambda>x. f x = y) xs) \<le> 1"
proof (induction xs)
  case (Cons x xs)
  have "f x = y \<Longrightarrow> filter (\<lambda>x. f x = y) xs = []" using Cons.prems by (auto simp: filter_empty_conv image_iff)
  then show ?case using Cons by auto
qed simp

text \<open>
  C12: At most one record per delivery key, whatever fails.  Over a target that may rate-limit, refuse, leave a
  write uncertain, lose requests or answers after storing them and lose reads, in any order, among posts of
  strangers and turns of the kill switch, however many sends run, with any keys repeated: a confirmed delivery
  stands in its room exactly once, with its text and its sequence number; a delivery that is not confirmed
  stands there at most once; and every record of the signer's DID in any room comes from exactly one delivery
  key, with the bytes stored under it.
\<close>

theorem delivered_at_most_once:
  assumes "unused_env i w" and "w' = fold (happens C i) events w"
  shows "(\<forall>k d. delivery k (b_store w') = Some d \<longrightarrow>
      (let found = filter (\<lambda>r. record_key r = (dl_did d, dl_nonce d)) (local_log (fy_local (e_target w')) (dl_room d)) in
       length found \<le> 1 \<and> (dl_status d = Confirmed \<longrightarrow>
         (\<exists>r. found = [r] \<and> p_text r = dl_text d \<and> dl_sequence d = Some (p_sequence r)))))
    \<and> (\<forall>room. \<forall>r \<in> set (local_log (fy_local (e_target w')) room). p_did r = id_did i \<longrightarrow>
      (\<exists>!k. \<exists>d. delivery k (b_store w') = Some d \<and> row_of_record r room d))"
proof -
  have g: "faulty_messenger.good i w'" using events_good [OF unused_good [OF assms(1)]] assms(2) by blast
  then have "local_ok (fy_local (e_target w'))" unfolding faulty_messenger.good_def by blast
  note once = at_most_one_key [OF local_technocore.keys_unique [OF this]]
  show ?thesis unfolding Let_def
    using once faulty_messenger.good_confirmed [OF g] faulty_messenger.good_unique [OF g] unfolding row_def delivery_def by blast
qed


text \<open>
  A run in which everything goes wrong: the first send is stored but its answer is lost and the read after it
  as well, the second finds the record, a stranger posts, and a rate limit is waited out.
\<close>

definition demo_faults :: faulty_target where
  "demo_faults = \<lparr>fy_local = new_local, fy_posts = [AnswerLost (Uncertain ''timeout''), AnswerLost (Refused 409 ''replay''),
     Healthy, Limited 1, Healthy], fy_reads = [True, False]\<rparr>"

definition demo_faulty_env :: "(nonce_store, faulty_target) env" where
  "demo_faulty_env = \<lparr>b_store = empty_store, b_kill = False, e_signer = empty_nonce_store, e_target = demo_faults\<rparr>"

definition demo_events :: "event list" where
  "demo_events = [Send (''k1'', ''a'', ''lobby'', ''hello''), Send (''k1'', ''a'', ''lobby'', ''hello''),
     Stranger ''b'' ''lobby'' ''did'' 1 ''hello'' ''sig'', Send (''k2'', ''a'', ''lobby'', ''hello''),
     Switch True, Send (''k3'', ''a'', ''lobby'', ''hello'')]"

lemma delivered_at_most_once_witness:
  "\<exists>i w'. identity_of_private demo_crypto [] = Inr i \<and> w' = fold (happens demo_crypto i) demo_events demo_faulty_env
     \<and> (\<forall>room. \<forall>r \<in> set (local_log (fy_local (e_target w')) room). p_did r = id_did i \<longrightarrow>
          (\<exists>!k. \<exists>d. delivery k (b_store w') = Some d \<and> row_of_record r room d))"
proof -
  have "\<exists>i. identity_of_private demo_crypto [] = Inr i"
    by (simp add: identity_of_private_def did_from_public_key_def demo_crypto_def)
  then obtain i where i: "identity_of_private demo_crypto [] = Inr i" by blast
  have u: "unused_env i demo_faulty_env"
    by (simp add: unused_env_def demo_faulty_env_def demo_faults_def local_ok_new empty_store_def)
      (simp add: local_log_def new_local_def)
  show ?thesis using delivered_at_most_once [OF u refl, of demo_crypto demo_events, THEN conjunct2] i
    by (intro exI conjI) (assumption, rule refl, assumption)
qed

end
