(* ===== verification/Url.thy ===== *)
theory Url
  imports Operations
begin

text \<open>
  What the program uses of \<open>urllib.parse\<close> (of Python 3.12) and the origin checks
  that most components repeat on top of it.  Percent escapes decode through
  the argument \<open>unescape\<close>, since their result may leave the character range
  of the model; text without an escape is returned as it is.
\<close>

section \<open>Partitions\<close>

fun partition_at :: "char \<Rightarrow> string \<Rightarrow> string \<times> bool \<times> string" where
  "partition_at d [] = ([], False, [])"
| "partition_at d (c # s) = (if c = d then ([], True, s)
     else (case partition_at d s of (a, f, b) \<Rightarrow> (c # a, f, b)))"

definition rpartition_at :: "char \<Rightarrow> string \<Rightarrow> string \<times> bool \<times> string" where
  "rpartition_at d s = (case partition_at d (rev s) of (a, f, b) \<Rightarrow> (rev b, f, rev a))"

definition lower_char :: "char \<Rightarrow> char" where
  "lower_char c = (if (65 \<le> code c \<and> code c \<le> 90) \<or> (192 \<le> code c \<and> code c \<le> 222 \<and> code c \<noteq> 215)
     then char_of (code c + 32) else c)"

definition rstrip_char :: "char \<Rightarrow> string \<Rightarrow> string" where
  "rstrip_char d s = rev (dropWhile (\<lambda>c. c = d) (rev s))"

section \<open>Addresses in brackets\<close>

definition octet_text :: "string \<Rightarrow> bool" where
  "octet_text s = (s \<noteq> [] \<and> list_all is_ascii_digit s \<and> length s \<le> 3 \<and> \<not> (s \<noteq> ''0'' \<and> hd s = CHR ''0'') \<and> dec_value s \<le> 255)"

definition ipv4_text :: "string \<Rightarrow> bool" where
  "ipv4_text s = (let ps = split_on CHR ''.'' s in length ps = 4 \<and> list_all octet_text ps)"

definition hextet_text :: "string \<Rightarrow> bool" where
  "hextet_text s = (s \<noteq> [] \<and> length s \<le> 4 \<and> list_all (\<lambda>c. is_lower_hex (lower_ascii c)) s)"

definition hextets_ok :: "string list \<Rightarrow> bool" where
  "hextets_ok ps = (let inner = filter (\<lambda>i. ps ! i = []) [1..<length ps - 1] in
     case inner of
       [] \<Rightarrow> length ps = 8 \<and> list_all hextet_text ps
     | [k] \<Rightarrow> (let hi = (if ps ! 0 = [] then k - 1 else k);
                  lo = (if last ps = [] then length ps - k - 2 else length ps - k - 1) in
         (ps ! 0 = [] \<longrightarrow> hi = 0) \<and> (last ps = [] \<longrightarrow> lo = 0) \<and> hi + lo < 8
         \<and> list_all hextet_text (take hi ps) \<and> list_all hextet_text (drop (length ps - lo) ps))
     | _ \<Rightarrow> False)"

definition ipv6_text :: "string \<Rightarrow> bool" where
  "ipv6_text s = (case partition_at CHR ''%'' s of (addr, sep, scope) \<Rightarrow>
     (sep \<longrightarrow> scope \<noteq> [] \<and> CHR ''%'' \<notin> set scope) \<and>
     (let ps = split_on CHR '':'' addr in
        3 \<le> length ps \<and> (CHR ''.'' \<in> set (last ps) \<longrightarrow> ipv4_text (last ps)) \<and>
        (let qs = (if CHR ''.'' \<in> set (last ps) then butlast ps @ [''0'', ''0''] else ps) in
           length qs \<le> 9 \<and> hextets_ok qs)))"

definition future_text :: "string \<Rightarrow> bool" where
  "future_text s = (let r = drop 1 s; hex = takeWhile (\<lambda>c. is_lower_hex (lower_ascii c)) r; t = drop (length hex) r in
     hex \<noteq> [] \<and> t \<noteq> [] \<and> hd t = CHR ''.'' \<and> length t \<ge> 2 \<and> CHR 0x0A \<notin> set (tl t))"

definition bracketed_ok :: "string \<Rightarrow> bool" where
  "bracketed_ok host = (if starts_with ''v'' host then future_text host else ipv6_text host)"

section \<open>Splitting a URL\<close>

record url =
  u_scheme :: string
  u_netloc :: string
  u_path :: string
  u_query :: string
  u_fragment :: string

definition ascii_alpha :: "char \<Rightarrow> bool" where
  "ascii_alpha c = ((65 \<le> code c \<and> code c \<le> 90) \<or> (97 \<le> code c \<and> code c \<le> 122))"

definition scheme_char :: "char \<Rightarrow> bool" where
  "scheme_char c = (ascii_alpha c \<or> is_ascii_digit c \<or> c \<in> {CHR ''+'', CHR ''-'', CHR ''.''})"

definition clean_url :: "string \<Rightarrow> string" where
  "clean_url s = filter (\<lambda>c. c \<notin> {CHR 0x09, CHR 0x0A, CHR 0x0D}) (dropWhile (\<lambda>c. code c \<le> 32) s)"

definition split_scheme :: "string \<Rightarrow> string \<times> string" where
  "split_scheme s = (case partition_at CHR '':'' s of (a, found, b) \<Rightarrow>
     if found \<and> a \<noteq> [] \<and> ascii_alpha (hd a) \<and> list_all scheme_char a then (map lower_ascii a, b) else ([], s))"

definition net_char :: "char \<Rightarrow> bool" where
  "net_char c = (c \<notin> {CHR ''/'', CHR ''?'', CHR ''#''})"

definition split_netloc :: "string \<Rightarrow> string \<times> string" where
  "split_netloc s = (if starts_with ''//'' s then (takeWhile net_char (drop 2 s), dropWhile net_char (drop 2 s)) else ([], s))"

definition netloc_ok :: "string \<Rightarrow> bool" where
  "netloc_ok n = ((CHR ''['' \<in> set n \<longleftrightarrow> CHR '']'' \<in> set n) \<and>
     (CHR ''['' \<in> set n \<longrightarrow> bracketed_ok (fst (partition_at CHR '']'' (snd (snd (partition_at CHR ''['' n)))))))"

definition urlsplit :: "string \<Rightarrow> url result" where
  "urlsplit s = (let (scheme, r) = split_scheme (clean_url s); (netloc, r) = split_netloc r in
     raise_if (\<not> netloc_ok netloc) (ValueError ''Invalid IPv6 URL'')
     (let (r, _, fragment) = partition_at CHR ''#'' r; (path, _, query) = partition_at CHR ''?'' r in
      Inr \<lparr>u_scheme = scheme, u_netloc = netloc, u_path = path, u_query = query, u_fragment = fragment\<rparr>))"

definition param_schemes :: "string list" where
  "param_schemes = ['''', ''ftp'', ''hdl'', ''prospero'', ''http'', ''https'', ''shttp'', ''rtsp'', ''rtspu'', ''sip'', ''sips'',
     ''mms'', ''sftp'', ''tel'']"

text \<open>The parameters after \<open>;\<close> in the last segment do not belong to the path.\<close>

definition strip_params :: "string \<Rightarrow> string" where
  "strip_params path = (case rpartition_at CHR ''/'' path of (a, found, b) \<Rightarrow>
     (if found then a @ [CHR ''/''] else []) @ fst (partition_at CHR '';'' b))"

definition urlparse :: "string \<Rightarrow> url result" where
  "urlparse s = bindE (urlsplit s) (\<lambda>u. Inr (if u_scheme u \<in> set param_schemes
     then u\<lparr>u_path := strip_params (u_path u)\<rparr> else u))"

definition user_info :: "url \<Rightarrow> string option \<times> string option" where
  "user_info u = (case rpartition_at CHR ''@'' (u_netloc u) of (info, found, _) \<Rightarrow>
     if \<not> found then (None, None)
     else (case partition_at CHR '':'' info of (name, has_password, password) \<Rightarrow>
        (Some name, if has_password then Some password else None)))"

definition truthy :: "string option \<Rightarrow> bool" where
  "truthy x = (case x of None \<Rightarrow> False | Some s \<Rightarrow> s \<noteq> [])"

definition hostname :: "url \<Rightarrow> string option" where
  "hostname u = (case rpartition_at CHR ''@'' (u_netloc u) of (_, _, info) \<Rightarrow>
     (case partition_at CHR ''['' info of (_, bracket, rest) \<Rightarrow>
        (let host = (if bracket then fst (partition_at CHR '']'' rest) else fst (partition_at CHR '':'' info)) in
         if host = [] then None
         else (case partition_at CHR ''%'' host of (h, percent, zone) \<Rightarrow>
            Some (map lower_char h @ (if percent then CHR ''%'' # zone else []))))))"

section \<open>Queries\<close>

definition unquote :: "(string \<Rightarrow> string) \<Rightarrow> string \<Rightarrow> string" where
  "unquote unescape s = (let t = map (\<lambda>c. if c = CHR ''+'' then CHR '' '' else c) s in
     if CHR ''%'' \<in> set t then unescape t else t)"

text \<open>\<open>parse_qs(query, keep_blank_values=True, strict_parsing=strict)\<close>\<close>

definition query_pairs :: "(string \<Rightarrow> string) \<Rightarrow> bool \<Rightarrow> string \<Rightarrow> (string \<times> string) list result" where
  "query_pairs unescape strict q =
     (let parts = (if q = [] then [] else filter (\<lambda>p. strict \<or> p \<noteq> []) (split_on CHR ''&'' q)) in
     mapE (\<lambda>p. case partition_at CHR ''='' p of (k, found, v) \<Rightarrow>
        raise_if (strict \<and> \<not> found) (ValueError ''bad query field'') (Inr (unquote unescape k, unquote unescape v))) parts)"

definition group_pairs :: "(string \<times> string) list \<Rightarrow> (string \<times> string list) list" where
  "group_pairs ps = foldl (\<lambda>d (k, v). dict_put k ((case map_of d k of None \<Rightarrow> [] | Some vs \<Rightarrow> vs) @ [v]) d) [] ps"

definition parse_qs :: "(string \<Rightarrow> string) \<Rightarrow> bool \<Rightarrow> string \<Rightarrow> (string \<times> string list) list result" where
  "parse_qs unescape strict q = bindE (query_pairs unescape strict q) (\<lambda>ps. Inr (group_pairs ps))"

section \<open>Fixed origins\<close>

definition bare_path :: "url \<Rightarrow> bool" where
  "bare_path u = (u_path u \<in> {'''', ''/''})"

definition no_tail :: "url \<Rightarrow> bool" where
  "no_tail u = (u_query u = [] \<and> u_fragment u = [])"

definition no_credentials :: "url \<Rightarrow> bool" where
  "no_credentials u = (\<not> truthy (fst (user_info u)) \<and> \<not> truthy (snd (user_info u)))"

definition host_in :: "string list \<Rightarrow> url \<Rightarrow> bool" where
  "host_in hosts u = (case hostname u of None \<Rightarrow> False | Some h \<Rightarrow> h \<in> set hosts)"

section \<open>Lemmas\<close>

lemma partition_at_append: "d \<notin> set a \<Longrightarrow> partition_at d (a @ d # b) = (a, True, b)"
  by (induction a) auto

lemma partition_at_none: "d \<notin> set a \<Longrightarrow> partition_at d a = (a, False, [])"
  by (induction a) auto

lemma partition_at_cases:
  "partition_at d s = (a, f, b) \<Longrightarrow> d \<notin> set a \<and> (if f then s = a @ d # b else s = a \<and> b = [])"
  by (induction s arbitrary: a) (auto split: if_splits prod.splits)

end
