(* ===== verification/Http.thy ===== *)
theory Http
  imports Url Messenger
begin

text \<open>
  The HTTP library (\<open>httpx\<close>) as the program sees it: a network with its own
  state answers a request with a response or fails with a transport error.
  A response has its header names in lower case and its body as the chunks of
  a stream that may break off; reading it whole fails when it does.  The
  shapes of names, DIDs and signatures that every HTTP component checks, and
  the normalisation of failures in \<open>rosetta/adapter_errors.py\<close>, are here too.
\<close>

text \<open>
  What stays outside of the character and number ranges of the model: percent
  decoding, whether a float literal equals an integer, \<open>str()\<close> of a value that
  is not text.
\<close>

record stdlib =
  sl_unescape :: "string \<Rightarrow> string"
  sl_float_is :: "string \<Rightarrow> int \<Rightarrow> bool"
  sl_str :: "pyval \<Rightarrow> string"

text \<open>An instance for examples.\<close>

definition plain_stdlib :: stdlib where
  "plain_stdlib = \<lparr>sl_unescape = id, sl_float_is = (\<lambda>_ _. False), sl_str = (\<lambda>_. [])\<rparr>"

record http_request =
  hq_method :: string
  hq_target :: string
  hq_params :: "(string \<times> string) list"
  hq_json :: "pyval option"
  hq_body :: "bytes option"

record http_response =
  hr_status :: int
  hr_headers :: "(string \<times> string) list"
  hr_chunks :: "bytes list"
  hr_broken :: bool

type_synonym 'n network = "http_request \<Rightarrow> ('n, http_response) op"

definition get_request :: "string \<Rightarrow> http_request" where
  "get_request target = \<lparr>hq_method = ''GET'', hq_target = target, hq_params = [], hq_json = None, hq_body = None\<rparr>"

text \<open>A network with a log of the requests it has received, in order.\<close>

definition logged :: "'n network \<Rightarrow> ('n \<times> http_request list) network" where
  "logged N q = (\<lambda>(n, log). case N q n of (r, n') \<Rightarrow> (r, (n', log @ [q])))"

lemma logged_log: "logged N q s = (r, t) \<Longrightarrow> snd t = snd s @ [q]"
  by (auto simp: logged_def split: prod.splits)

definition is_http_error :: "exn \<Rightarrow> bool" where
  "is_http_error e = (case e of HttpError _ \<Rightarrow> True | _ \<Rightarrow> False)"

definition is_redirect :: "http_response \<Rightarrow> bool" where
  "is_redirect r = (300 \<le> hr_status r \<and> hr_status r \<le> 399)"

definition header :: "http_response \<Rightarrow> string \<Rightarrow> string \<Rightarrow> string" where
  "header r name dflt = (case map_of (hr_headers r) name of None \<Rightarrow> dflt | Some v \<Rightarrow> v)"

definition content_type :: "http_response \<Rightarrow> string" where
  "content_type r = header r ''content-type'' ''application/octet-stream''"

text \<open>\<open>for chunk in response.iter_bytes()\<close> with a limit; \<open>None\<close> is the body that grew over it.\<close>

fun read_chunks :: "int \<Rightarrow> bytes \<Rightarrow> bytes list \<Rightarrow> bytes option" where
  "read_chunks limit acc [] = Some acc"
| "read_chunks limit acc (c # cs) = (if limit < int (length (acc @ c)) then None else read_chunks limit (acc @ c) cs)"

definition stream_body :: "int \<Rightarrow> http_response \<Rightarrow> bytes option result" where
  "stream_body limit r = (case read_chunks limit [] (hr_chunks r) of
     None \<Rightarrow> Inr None
   | Some b \<Rightarrow> if hr_broken r then Inl (HttpError ''ReadError'') else Inr (Some b))"

definition whole_body :: "http_response \<Rightarrow> bytes" where
  "whole_body r = concat (hr_chunks r)"

text \<open>A request that is read whole: a broken stream is an error of the request.\<close>

definition fetch_whole :: "'n network \<Rightarrow> http_request \<Rightarrow> ('n, http_response) op" where
  "fetch_whole N q = bindS (N q) (\<lambda>r. raiseS_if (hr_broken r) (HttpError ''ReadError'') (retS r))"

lemma read_chunks_eq:
  "read_chunks limit acc cs = (if limit < int (length (acc @ concat cs)) \<and> cs \<noteq> [] then None else Some (acc @ concat cs))"
proof (induction cs arbitrary: acc)
  case (Cons c cs)
  then show ?case using Cons [of "acc @ c"] by (cases "cs = []") auto
qed simp

lemma stream_body_size: "stream_body limit r = Inr (Some b) \<Longrightarrow> int (length b) \<le> max limit 0"
  by (auto simp: stream_body_def read_chunks_eq split: if_splits)

lemma stream_body_bound: "stream_body limit r = Inr (Some b) \<Longrightarrow> b = whole_body r \<and> (hr_chunks r \<noteq> [] \<longrightarrow> int (length b) \<le> limit)"
  by (auto simp: stream_body_def read_chunks_eq whole_body_def split: if_splits)

section \<open>Shapes\<close>

definition watched_paths :: "string list" where
  "watched_paths = [''/healthz'', ''/.well-known/agent.json'', ''/openapi.json'']"

definition name_char :: "char \<Rightarrow> bool" where
  "name_char c = (is_ascii_digit c \<or> (97 \<le> code c \<and> code c \<le> 122) \<or> c = CHR ''_'' \<or> c = CHR ''-'')"

definition room_name :: "string \<Rightarrow> bool" where
  "room_name s = (s \<noteq> [] \<and> length s \<le> 48 \<and> list_all name_char s \<and> hd s \<noteq> CHR ''_'' \<and> hd s \<noteq> CHR ''-'')"

definition did_text :: "string \<Rightarrow> bool" where
  "did_text s = (starts_with ''did:key:z6Mk'' s \<and> length s = 56 \<and> list_all (\<lambda>c. c \<in> set b58_alphabet) (drop 12 s))"

definition sig_char :: "char \<Rightarrow> bool" where
  "sig_char c = (ascii_alpha c \<or> is_ascii_digit c \<or> c = CHR ''_'' \<or> c = CHR ''-'')"

definition sig_text :: "string \<Rightarrow> bool" where
  "sig_text s = (length s = 86 \<and> list_all sig_char (take 85 s) \<and> last s \<in> set ''AQgw'')"

definition validate_room_name :: "string \<Rightarrow> string result" where
  "validate_room_name room = raise_if (\<not> room_name room) (ValueError ''invalid Technocore room name'') (Inr room)"

section \<open>Normalised failures\<close>

datatype adapter_error_kind = InvalidRequest | AccessRefused | Conflict | DuplicateFiltered | RateLimit
  | UnexpectedRedirect | UpstreamFailure | HttpFailure

record adapter_error =
  ne_kind :: adapter_error_kind
  ne_status :: int
  ne_retryable :: bool
  ne_retry_after :: "int option"

datatype retry_header = RetryText string | RetryInt int

definition error_kind :: "int \<Rightarrow> adapter_error_kind" where
  "error_kind status =
     (if status = 400 then InvalidRequest else if status = 403 then AccessRefused
      else if status = 409 then Conflict else if status = 422 then DuplicateFiltered
      else if status = 429 then RateLimit else if 300 \<le> status \<and> status < 400 then UnexpectedRedirect
      else if 500 \<le> status then UpstreamFailure else HttpFailure)"

definition retry_delay :: "int \<Rightarrow> retry_header option \<Rightarrow> int option" where
  "retry_delay status retry_after = (if status \<noteq> 429 then None else
     (case retry_after of None \<Rightarrow> None
      | Some h \<Rightarrow> (let parsed = (case h of RetryInt i \<Rightarrow> i
            | RetryText s \<Rightarrow> (case int_of_text s of Inl _ \<Rightarrow> 0 | Inr i \<Rightarrow> i))
          in if 0 < parsed \<and> parsed \<le> 60 then Some parsed else None)))"

definition normalize_http_error :: "int \<Rightarrow> retry_header option \<Rightarrow> adapter_error result" where
  "normalize_http_error status retry_after =
     (let delay = retry_delay status retry_after in
      raise_if (status < 300 \<or> 599 < status) (ValidationError ''normalized status must be an HTTP error'')
      (Inr \<lparr>ne_kind = error_kind status, ne_status = status, ne_retryable = (status = 429 \<and> delay \<noteq> None),
            ne_retry_after = delay\<rparr>))"

text \<open>
  Failures normalise to a closed retry model: exactly the statuses 300 to 599 are accepted, only a
  429 is ever retryable, and then with a delay of one to sixty seconds; a 422 never is.
\<close>

theorem normalized_errors_bounded:
  "((\<exists>e. normalize_http_error status h = Inr e) \<longleftrightarrow> 300 \<le> status \<and> status \<le> 599)
   \<and> (\<forall>e. normalize_http_error status h = Inr e \<longrightarrow>
     ne_status e = status \<and> ne_retryable e = (ne_retry_after e \<noteq> None)
     \<and> (\<forall>d. ne_retry_after e = Some d \<longrightarrow> status = 429 \<and> ne_kind e = RateLimit \<and> 1 \<le> d \<and> d \<le> 60))"
  by (auto simp: normalize_http_error_def retry_delay_def Let_def error_kind_def split: if_splits option.splits)

lemma normalized_errors_bounded_witness:
  "\<exists>e. normalize_http_error 429 (Some (RetryText ''30'')) = Inr e \<and> ne_retry_after e = Some 30 \<and> ne_retryable e"
proof -
  have d: "retry_delay 429 (Some (RetryText ''30'')) = Some 30" by code_simp
  obtain e where e: "normalize_http_error 429 (Some (RetryText ''30'')) = Inr e"
    using normalized_errors_bounded [of 429 "Some (RetryText ''30'')"] by auto
  then have "ne_retry_after e = Some 30" by (auto simp: normalize_http_error_def Let_def d)
  then show ?thesis using normalized_errors_bounded [of 429 "Some (RetryText ''30'')"] e by simp
qed

end
