(* ===== verification/Observer.thy ===== *)
theory Observer
  imports Http
begin

text \<open>
  \<open>rosetta/observer.py\<close>: the probe of the public metadata and one turn of the
  observer with what it records.  The state is the store and the kill switch
  of the gate, the network, and the two kinds of files that are written (the
  health file and one evidence file per protocol digest).  The clock is an
  argument; the waiting loop of \<open>run\<close> is the list of clock readings.
\<close>

section \<open>The probe\<close>

record endpoint_evidence =
  ee_path :: string
  ee_sha256 :: string
  ee_size :: int
  ee_content_type :: string

definition endpoint_dict :: "endpoint_evidence \<Rightarrow> pyval" where
  "endpoint_dict e = PDict [(''path'', PStr (ee_path e)), (''sha256'', PStr (ee_sha256 e)),
     (''size_bytes'', PInt (ee_size e)), (''content_type'', PStr (ee_content_type e))]"

record protocol_observation =
  po_release :: string
  po_digest :: string
  po_endpoints :: "endpoint_evidence list"
  po_expected :: "string option"
  po_status :: string

definition observation_items :: "protocol_observation \<Rightarrow> (string \<times> pyval) list" where
  "observation_items x = [(''schema'', PStr ''rosetta.protocol-observation.v1''), (''release'', PStr (po_release x)),
     (''expected_release'', PStr (case po_expected x of None \<Rightarrow> po_release x
        | Some r \<Rightarrow> if r = [] then po_release x else r)),
     (''compatibility_status'', PStr (po_status x)), (''protocol_digest'', PStr (po_digest x)),
     (''endpoints'', PList (map endpoint_dict (po_endpoints x)))]"

record probe_client =
  pc_authority :: string
  pc_expected :: string
  pc_max :: int

definition make_probe_client :: "string \<Rightarrow> string \<Rightarrow> int \<Rightarrow> probe_client" where
  "make_probe_client authority pinned max_bytes = \<lparr>pc_authority = rstrip_char CHR ''/'' authority,
     pc_expected = remove_prefix ''v'' pinned, pc_max = max_bytes\<rparr>"

definition at_path :: "string \<Rightarrow> string \<Rightarrow> exn" where
  "at_path reason path = RuntimeError (reason @ '':'' @ path)"

definition before_semicolon :: "string \<Rightarrow> string" where
  "before_semicolon s = takeWhile (\<lambda>c. c \<noteq> CHR '';'') s"

definition probe_get :: "'n network \<Rightarrow> probe_client \<Rightarrow> string \<Rightarrow> ('n, bytes \<times> string) op" where
  "probe_get N c path =
     raiseS_if (path \<notin> set watched_paths) (ValueError ''observer_path_not_allowlisted'')
     (bindS (N (get_request path)) (\<lambda>r.
      raiseS_if (is_redirect r) (at_path ''redirect_rejected'' path)
      (raiseS_if (hr_status r \<noteq> 200) (RuntimeError (''unexpected_status:'' @ path @ '':'' @ str_int (hr_status r)))
      (bindS (liftS (stream_body (pc_max c) r)) (\<lambda>body. case body of
         None \<Rightarrow> raiseS (at_path ''response_too_large'' path)
       | Some b \<Rightarrow> retS (b, map lower_char (before_semicolon (header r ''content-type'' []))))))))"

definition json_document :: "string \<Rightarrow> bytes \<Rightarrow> string \<Rightarrow> (string \<times> pyval) list result" where
  "json_document path body ctype =
     raise_if (ctype \<noteq> ''application/json'') (at_path ''unexpected_content_type'' path)
     (case loads_bytes body of Inl _ \<Rightarrow> Inl (at_path ''invalid_json'' path)
      | Inr (PDict kvs) \<Rightarrow> Inr kvs
      | Inr _ \<Rightarrow> Inl (at_path ''invalid_document_shape'' path))"

definition validate_authority_url :: "probe_client \<Rightarrow> pyval option \<Rightarrow> string \<Rightarrow> unit result" where
  "validate_authority_url c v expected_path = (case v of
     Some (PStr s) \<Rightarrow> bindE (urlparse s) (\<lambda>u.
       raise_if ((u_scheme u \<noteq> [] \<or> u_netloc u \<noteq> []) \<and> u_scheme u @ ''://'' @ u_netloc u \<noteq> pc_authority c)
         (RuntimeError ''authority_origin_mismatch'')
       (raise_if (u_path u \<noteq> expected_path \<or> \<not> no_tail u) (RuntimeError ''authority_path_mismatch'') (Inr ())))
   | _ \<Rightarrow> Inl (RuntimeError ''invalid_authority_url''))"

definition ascii_space :: "char \<Rightarrow> bool" where
  "ascii_space c = ((9 \<le> code c \<and> code c \<le> 13) \<or> code c = 32)"

definition strip_bytes :: "bytes \<Rightarrow> bytes" where
  "strip_bytes b = rev (dropWhile ascii_space (rev (dropWhile ascii_space b)))"

definition evidence_of :: "crypto \<Rightarrow> string \<Rightarrow> bytes \<times> string \<Rightarrow> endpoint_evidence" where
  "evidence_of C path got = \<lparr>ee_path = path, ee_sha256 = ''sha256:'' @ sha256_hex C (fst got),
     ee_size = int (length (fst got)), ee_content_type = snd got\<rparr>"

definition nonempty_text :: "pyval option \<Rightarrow> string option" where
  "nonempty_text v = (case v of Some (PStr s) \<Rightarrow> if s = [] then None else Some s | _ \<Rightarrow> None)"

definition openapi_release :: "(string \<times> pyval) list \<Rightarrow> pyval option" where
  "openapi_release openapi = (case map_of openapi ''info'' of Some (PDict info) \<Rightarrow> map_of info ''version'' | _ \<Rightarrow> None)"

definition openapi_version_text :: "stdlib \<Rightarrow> (string \<times> pyval) list \<Rightarrow> string" where
  "openapi_version_text L openapi = (case map_of openapi ''openapi'' of None \<Rightarrow> [] | Some (PStr s) \<Rightarrow> s
     | Some v \<Rightarrow> sl_str L v)"

definition check_documents ::
  "stdlib \<Rightarrow> probe_client \<Rightarrow> (string \<times> pyval) list \<Rightarrow> (string \<times> pyval) list \<Rightarrow> string result" where
  "check_documents L c agent openapi =
     raise_if (map_of agent ''name'' \<noteq> Some (PStr ''technocore-chat'')) (RuntimeError ''unexpected_service_identity'')
     (case (nonempty_text (map_of agent ''version''), nonempty_text (openapi_release openapi)) of
        (Some release, Some other) \<Rightarrow>
          raise_if (release \<noteq> other) (RuntimeError ''release_metadata_mismatch'')
          (raise_if (\<not> starts_with ''3.1'' (openapi_version_text L openapi)) (RuntimeError ''unsupported_openapi_version'')
          (case map_of openapi ''paths'' of
             Some (PDict paths) \<Rightarrow>
               raise_if (\<not> set watched_paths \<subseteq> set (map fst paths)) (RuntimeError ''required_metadata_path_missing'')
               (case map_of agent ''documentation'' of
                  Some (PDict doc) \<Rightarrow>
                    bindE (validate_authority_url c (map_of doc ''openapi'') ''/openapi.json'') (\<lambda>_.
                    bindE (validate_authority_url c (map_of doc ''manual'') ''/llms.txt'') (\<lambda>_. Inr release))
                | _ \<Rightarrow> Inl (RuntimeError ''missing_documentation_links''))
           | _ \<Rightarrow> Inl (RuntimeError ''required_metadata_path_missing'')))
      | _ \<Rightarrow> Inl (RuntimeError ''invalid_release_metadata''))"

definition probe :: "crypto \<Rightarrow> stdlib \<Rightarrow> 'n network \<Rightarrow> probe_client \<Rightarrow> ('n, protocol_observation) op" where
  "probe C L N c =
     bindS (probe_get N c ''/healthz'') (\<lambda>health.
     raiseS_if (snd health \<noteq> ''text/plain'' \<or> strip_bytes (fst health) \<noteq> ''ok'') (RuntimeError ''invalid_health_response'')
     (bindS (probe_get N c ''/.well-known/agent.json'') (\<lambda>agent_got.
      bindS (liftS (json_document ''/.well-known/agent.json'' (fst agent_got) (snd agent_got))) (\<lambda>agent.
      bindS (probe_get N c ''/openapi.json'') (\<lambda>openapi_got.
      bindS (liftS (json_document ''/openapi.json'' (fst openapi_got) (snd openapi_got))) (\<lambda>openapi.
      bindS (liftS (check_documents L c agent openapi)) (\<lambda>release.
      let evidence = [evidence_of C ''/healthz'' health, evidence_of C ''/.well-known/agent.json'' agent_got,
            evidence_of C ''/openapi.json'' openapi_got] in
      bindS (liftS (canonical_json (PDict [(''release'', PStr release),
        (''endpoints'', PDict (map (\<lambda>e. (ee_path e, PStr (ee_sha256 e))) evidence))]))) (\<lambda>raw.
      retS \<lparr>po_release = release, po_digest = ''sha256:'' @ sha256_hex C raw, po_endpoints = evidence,
        po_expected = Some (pc_expected c),
        po_status = (if release = pc_expected c then ''compatible'' else ''release_drift'')\<rparr>))))))))"

section \<open>The observer\<close>

record 'n observer_state = base +
  v_net :: 'n
  v_health :: "bytes option"
  v_evidence :: "(string \<times> bytes) list"

definition in_net :: "('n, 'a) op \<Rightarrow> ('n observer_state, 'a) op" where
  "in_net f w = (case f (v_net w) of (r, n) \<Rightarrow> (r, w\<lparr>v_net := n\<rparr>))"

definition safe_error_reasons :: "string list" where
  "safe_error_reasons = [''authority_origin_mismatch'', ''authority_path_mismatch'', ''invalid_authority_url'',
     ''invalid_document_shape'', ''invalid_health_response'', ''invalid_json'', ''invalid_release_metadata'',
     ''manifest_release_mismatch'', ''missing_documentation_links'', ''openapi_release_mismatch'', ''redirect_rejected'',
     ''release_metadata_mismatch'', ''required_metadata_path_missing'', ''response_too_large'', ''unexpected_content_type'',
     ''unexpected_service_identity'', ''unexpected_status'', ''unsupported_openapi_version'']"

text \<open>The class name of other exceptions; of a transport error it is its text.\<close>

definition error_reason :: "exn \<Rightarrow> string" where
  "error_reason e = (case e of
     RuntimeError s \<Rightarrow> (let reason = takeWhile (\<lambda>c. c \<noteq> CHR '':'') s in
        if reason \<in> set safe_error_reasons then reason else ''RuntimeError'')
   | HttpError name \<Rightarrow> name | _ \<Rightarrow> ''Exception'')"

definition write_health :: "(string \<times> pyval) list \<Rightarrow> ('n observer_state, unit) op" where
  "write_health kvs = bindS (liftS (canonical_json (PDict (foldl (\<lambda>d (k, v). dict_put k v d)
       [(''schema'', PStr ''rosetta.observer-health.v2''), (''mode'', PStr ''dry_run''), (''public_writes'', PInt 0)] kvs))))
     (\<lambda>b. putS (\<lambda>w. w\<lparr>v_health := Some (b @ [CHR 0x0A])\<rparr>))"

definition utc_text_of :: "datetime \<Rightarrow> string result" where
  "utc_text_of now = bindE (to_utc now) (\<lambda>t. Inr (iso_text t))"

definition internal_error :: "string \<Rightarrow> int \<Rightarrow> string \<Rightarrow> (string \<times> pyval) list" where
  "internal_error status errors at = [(''status'', PStr status), (''safety_status'', PStr ''unsafe''),
     (''compatibility_status'', PStr ''unknown''), (''reason'', PStr ''observer_internal_error''),
     (''consecutive_errors'', PInt errors), (''checked_at'', PStr at)]"

text \<open>A probe that failed in an expected way: the observer is healthy, the target is not.\<close>

definition probe_rejected :: "int \<Rightarrow> datetime \<Rightarrow> exn \<Rightarrow> ('n observer_state, (string \<times> pyval) list) op" where
  "probe_rejected limit now e =
     (let reason = error_reason e;
          status = (if is_http_error e \<or> reason \<in> {''unexpected_status'', ''invalid_health_response''}
                    then ''unavailable'' else ''rejected'') in
     bindS (in_store (record_component_result ''upstream_compatibility'' False limit now)) (\<lambda>(errors, _).
     bindS (in_store (record_component_result ''read_only_observer'' True limit now)) (\<lambda>_.
     bindS (in_store (record_observer_check now ''safe'' status (Some reason))) (\<lambda>_.
     bindS (liftS (utc_text_of now)) (\<lambda>at.
     bindS (getS (\<lambda>w. latest_protocol_observation (b_store w))) (\<lambda>latest.
     let result = [(''status'', PStr ''healthy''), (''safety_status'', PStr ''safe''),
           (''compatibility_status'', PStr status), (''compatibility_reason'', PStr reason),
           (''consecutive_compatibility_issues'', PInt errors), (''checked_at'', PStr at),
           (''observation_current'', PBool False), (''public_writes'', PInt 0)] @
           (case latest of None \<Rightarrow> [] | Some (digest, release, seen, _) \<Rightarrow>
             [(''release'', PStr release), (''protocol_digest'', PStr digest), (''last_observed_at'', PStr seen)]) in
     bindS (write_health result) (\<lambda>_. retS result)))))))"

definition probe_broken :: "int \<Rightarrow> datetime \<Rightarrow> exn \<Rightarrow> ('n observer_state, 'a) op" where
  "probe_broken limit now e =
     bindS (in_store (record_component_result ''read_only_observer'' False limit now)) (\<lambda>(errors, _).
     bindS (in_store (record_observer_check now ''unsafe'' ''unknown'' (Some ''observer_internal_error''))) (\<lambda>_.
     bindS (liftS (utc_text_of now)) (\<lambda>at.
     bindS (write_health (internal_error ''degraded'' errors at)) (\<lambda>_. raiseS e))))"

text \<open>A probe that succeeded is recorded; a change of the protocol digest is kept as evidence.\<close>

definition write_evidence :: "protocol_observation \<Rightarrow> string \<Rightarrow> ('n observer_state, unit) op" where
  "write_evidence x at = bindS (liftS (canonical_json (PDict (observation_items x @
       [(''observed_at'', PStr at), (''changed'', PBool True), (''public_writes'', PInt 0)]))))
     (\<lambda>b. putS (\<lambda>w. w\<lparr>v_evidence := dict_put (remove_prefix ''sha256:'' (po_digest x) @ ''.json'') (b @ [CHR 0x0A]) (v_evidence w)\<rparr>))"

definition record_observation ::
  "int \<Rightarrow> datetime \<Rightarrow> protocol_observation \<Rightarrow> ('n observer_state, (string \<times> pyval) list) op" where
  "record_observation limit now x =
     (let compatible = (po_status x = ''compatible''); reason = (if compatible then None else Some ''release_drift'') in
     bindS (in_store (record_protocol_observation (po_digest x) (po_release x) now)) (\<lambda>changed.
     bindS (in_store (record_component_result ''read_only_observer'' True limit now)) (\<lambda>_.
     bindS (in_store (record_component_result ''upstream_compatibility'' compatible limit now)) (\<lambda>(issues, _).
     bindS (in_store (record_observer_check now ''safe'' (po_status x) reason)) (\<lambda>_.
     bindS (liftS (utc_text_of now)) (\<lambda>at.
     bindS (ifS changed (write_evidence x at) (retS ())) (\<lambda>_.
     let result = [(''status'', PStr ''healthy''), (''safety_status'', PStr ''safe''),
           (''compatibility_status'', PStr (po_status x)), (''checked_at'', PStr at), (''release'', PStr (po_release x)),
           (''protocol_digest'', PStr (po_digest x)), (''changed'', PBool changed), (''observation_current'', PBool True),
           (''public_writes'', PInt 0)] @
           (case reason of None \<Rightarrow> []
            | Some t \<Rightarrow> [(''compatibility_reason'', PStr t), (''consecutive_compatibility_issues'', PInt issues)]) in
     bindS (write_health result) (\<lambda>_. retS result))))))))"

definition record_failure :: "int \<Rightarrow> datetime \<Rightarrow> exn \<Rightarrow> ('n observer_state, 'a) op" where
  "record_failure limit now e =
     bindS (in_store (record_component_result ''read_only_observer'' False limit now)) (\<lambda>(errors, degraded).
     bindS (in_store (record_observer_check now ''unsafe'' ''unknown'' (Some ''observer_internal_error''))) (\<lambda>_.
     bindS (liftS (utc_text_of now)) (\<lambda>at.
     bindS (write_health (internal_error (if degraded then ''degraded'' else ''retrying'') errors at)) (\<lambda>_. raiseS e))))"

definition observe_once ::
  "crypto \<Rightarrow> stdlib \<Rightarrow> 'n network \<Rightarrow> probe_client \<Rightarrow> int \<Rightarrow> datetime \<Rightarrow> ('n observer_state, (string \<times> pyval) list) op" where
  "observe_once C L N c limit now w =
     (if b_kill w
      then bindS (write_health [(''status'', PStr ''stopped''), (''safety_status'', PStr ''unsafe''),
             (''compatibility_status'', PStr ''unknown''), (''reason'', PStr ''kill_switch_active''),
             (''checked_at'', PStr (iso_text now))]) (\<lambda>_. raiseS (RuntimeError ''kill_switch_active'')) w
      else (case in_net (probe C L N c) w of
          (Inl e, w') \<Rightarrow>
            if is_http_error e \<or> error_reason e \<in> set safe_error_reasons
            then probe_rejected limit now e w' else probe_broken limit now e w'
        | (Inr x, w') \<Rightarrow> tryS (\<lambda>_. True) (record_observation limit now x) (record_failure limit now) w'))"

text \<open>
  \<open>run\<close>: one turn per clock reading, until the kill switch stops it.  The flag
  \<open>once\<close> makes one turn and lets its exception through.
\<close>

fun observer_run ::
  "crypto \<Rightarrow> stdlib \<Rightarrow> 'n network \<Rightarrow> probe_client \<Rightarrow> int \<Rightarrow> bool \<Rightarrow> datetime list \<Rightarrow> ('n observer_state, unit) op" where
  "observer_run C L N c limit once [] = retS ()"
| "observer_run C L N c limit once (now # later) = (\<lambda>w.
     case observe_once C L N c limit now w of
       (Inl e, w') \<Rightarrow>
         if e = RuntimeError ''kill_switch_active'' then (Inr (), w')
         else if once then (Inl e, w') else observer_run C L N c limit once later w'
     | (Inr _, w') \<Rightarrow> if once then (Inr (), w') else observer_run C L N c limit once later w')"

section \<open>What the observer asks for\<close>

definition watched_only :: "http_request list \<Rightarrow> ('n \<times> http_request list) \<Rightarrow> bool" where
  "watched_only log s = (\<exists>paths. snd s = log @ map get_request paths \<and> set paths \<subseteq> set watched_paths)"

lemma probe_get_watched:
  fixes N :: "'n network"
  shows "preserves (watched_only log) (probe_get (logged N) c path)"
proof (rule preservesI)
  fix s :: "'n \<times> http_request list" assume s: "watched_only log s"
  show "watched_only log (snd (probe_get (logged N) c path s))"
  proof (cases "path \<in> set watched_paths")
    case True
    obtain q t where q: "logged N (get_request path) s = (q, t)" by (cases "logged N (get_request path) s")
    obtain paths where "snd s = log @ map get_request paths" "set paths \<subseteq> set watched_paths"
      using s by (auto simp: watched_only_def)
    then have "snd t = log @ map get_request (paths @ [path]) \<and> set (paths @ [path]) \<subseteq> set watched_paths"
      using logged_log [OF q] True by simp
    then have t: "watched_only log t" unfolding watched_only_def by blast
    have "snd (probe_get (logged N) c path s) = t"
      using q True by (auto simp: probe_get_def bindS_def raiseS_if_def liftS_def split: sum.splits option.splits)
    then show ?thesis using t by simp
  qed (use s in \<open>simp add: probe_get_def\<close>)
qed

lemma probe_watched: "preserves (watched_only log) (probe C L (logged N) c)"
  unfolding probe_def Let_def by (intro preserves_intros probe_get_watched)

lemma in_net_preserves: "preserves I f \<Longrightarrow> preserves (\<lambda>w. I (v_net w)) (in_net f)"
  by (auto simp: preserves_def in_net_def split: prod.splits)

lemma in_store_net [preserves_intros]: "preserves (\<lambda>w. I (v_net w)) (in_store f)"
  by (auto simp: preserves_def in_store_def split: prod.splits)

lemma write_health_net [preserves_intros]: "preserves (\<lambda>w. I (v_net w)) (write_health kvs)"
  by (auto simp: preserves_def write_health_def bindS_def liftS_def split: sum.splits)

lemma write_evidence_net [preserves_intros]: "preserves (\<lambda>w. I (v_net w)) (write_evidence x at)"
  by (auto simp: preserves_def write_evidence_def bindS_def liftS_def split: sum.splits)

lemma probe_rejected_net: "preserves (\<lambda>w. I (v_net w)) (probe_rejected limit now e)"
  unfolding probe_rejected_def Let_def by (intro preserves_intros)

lemma probe_broken_net: "preserves (\<lambda>w. I (v_net w)) (probe_broken limit now e)"
  unfolding probe_broken_def by (intro preserves_intros)

lemma record_observation_net: "preserves (\<lambda>w. I (v_net w)) (record_observation limit now x)"
  unfolding record_observation_def Let_def by (intro preserves_intros)

lemma record_failure_net: "preserves (\<lambda>w. I (v_net w)) (record_failure limit now e)"
  unfolding record_failure_def by (intro preserves_intros)

lemma observe_once_watched:
  fixes N :: "'n network"
  shows "preserves (\<lambda>w. watched_only log (v_net w)) (observe_once C L (logged N) c limit now)"
proof (rule preservesI)
  fix w :: "('n \<times> http_request list) observer_state" assume w: "watched_only log (v_net w)"
  let ?I = "\<lambda>w :: ('n \<times> http_request list) observer_state. watched_only log (v_net w)"
  show "?I (snd (observe_once C L (logged N) c limit now w))"
  proof (cases "b_kill w")
    case True
    have "preserves ?I (bindS (write_health kvs) (\<lambda>_. raiseS e))" for kvs and e :: exn by (intro preserves_intros)
    from preservesD [OF this w] True show ?thesis by (simp add: observe_once_def)
  next
    case False
    obtain x w' where p: "in_net (probe C L (logged N) c) w = (x, w')" by (cases "in_net (probe C L (logged N) c) w")
    have I: "?I w'" using preservesE [OF in_net_preserves [OF probe_watched] p w] .
    show ?thesis
    proof (cases x)
      case (Inl e)
      have "?I (snd (probe_rejected limit now e w'))" using probe_rejected_net I by (rule preservesD)
      moreover have "?I (snd ((probe_broken limit now e :: (_, (string \<times> pyval) list) op) w'))"
        using probe_broken_net I by (rule preservesD)
      ultimately show ?thesis using p False Inl by (simp add: observe_once_def)
    next
      case (Inr y)
      have "preserves ?I (tryS (\<lambda>_. True) (record_observation limit now y) (record_failure limit now))"
        by (intro preserves_intros record_observation_net record_failure_net)
      then have "?I (snd (tryS (\<lambda>_. True) (record_observation limit now y) (record_failure limit now) w'))"
        using I by (rule preservesD)
      then show ?thesis using p False Inr by (simp add: observe_once_def)
    qed
  qed
qed

lemma observer_run_watched:
  fixes N :: "'n network"
  shows "preserves (\<lambda>w. watched_only log (v_net w)) (observer_run C L (logged N) c limit once clocks)"
proof (induction clocks)
  case (Cons now later)
  show ?case
  proof (rule preservesI)
    fix w :: "('n \<times> http_request list) observer_state" assume w: "watched_only log (v_net w)"
    obtain x w' where o: "observe_once C L (logged N) c limit now w = (x, w')" by (cases "observe_once C L (logged N) c limit now w")
    have I: "watched_only log (v_net w')" using preservesE [OF observe_once_watched o w] .
    have "watched_only log (v_net (snd (observer_run C L (logged N) c limit once later w')))" using Cons I by (rule preservesD)
    then show "watched_only log (v_net (snd (observer_run C L (logged N) c limit once (now # later) w)))"
      using I o by (auto split: sum.splits)
  qed
qed (simp add: preserves_def)

lemma killed_turn:
  assumes "b_kill w"
  shows "\<exists>e w'. observe_once C L N c limit now w = (Inl e, w') \<and> v_net w' = v_net w \<and> b_store w' = b_store w \<and> b_kill w'
    \<and> v_evidence w' = v_evidence w"
  using assms by (auto simp: observe_once_def write_health_def bindS_def liftS_def split: sum.splits prod.splits)

text \<open>
  C17: The observer only reads: over a network that logs its requests, any number of turns sends nothing but
  plain GET requests of the three watched metadata paths, whatever the answers are, and while the kill switch
  is set it sends nothing at all, leaves the store alone and stays stopped.
\<close>

theorem observer_only_watches:
  assumes "observer_run C L (logged N) c limit once clocks w = (r, w')"
  shows "(\<exists>paths. snd (v_net w') = snd (v_net w) @ map get_request paths \<and> set paths \<subseteq> set watched_paths)
    \<and> (b_kill w \<longrightarrow> v_net w' = v_net w \<and> b_store w' = b_store w \<and> b_kill w')"
proof
  have "watched_only (snd (v_net w)) (v_net w)" by (auto simp: watched_only_def intro: exI [of _ "[]"])
  from preservesE [OF observer_run_watched assms this]
  show "\<exists>paths. snd (v_net w') = snd (v_net w) @ map get_request paths \<and> set paths \<subseteq> set watched_paths"
    by (simp add: watched_only_def)
  show "b_kill w \<longrightarrow> v_net w' = v_net w \<and> b_store w' = b_store w \<and> b_kill w'"
  proof
    assume k: "b_kill w"
    show "v_net w' = v_net w \<and> b_store w' = b_store w \<and> b_kill w'"
      using assms k
    proof (induction clocks arbitrary: w)
      case (Cons now later)
      obtain e u where u: "observe_once C L (logged N) c limit now w = (Inl e, u)" "v_net u = v_net w" "b_store u = b_store w" "b_kill u"
        using killed_turn [OF Cons.prems(2)] by metis
      show ?case
      proof (cases "e = RuntimeError ''kill_switch_active'' \<or> once")
        case True
        then show ?thesis using Cons.prems(1) u by (auto split: if_splits)
      next
        case False
        then have "observer_run C L (logged N) c limit once later u = (r, w')" using Cons.prems(1) u(1) by simp
        from Cons.IH [OF this u(4)] show ?thesis using u by simp
      qed
    qed simp
  qed
qed

definition down_network :: "unit network" where
  "down_network q n = (Inl (HttpError ''ConnectError''), n)"

lemma observer_only_watches_witness:
  "\<exists>r w'. observer_run demo_crypto plain_stdlib (logged down_network) (make_probe_client ''https://technocore.chat'' ''v0.14.5'' 1024)
       3 True [utc_at 1700000000000000] \<lparr>b_store = empty_store, b_kill = False, v_net = ((), []), v_health = None, v_evidence = []\<rparr> = (r, w')
     \<and> (\<exists>paths. snd (v_net w') = map get_request paths \<and> set paths \<subseteq> set watched_paths)"
proof -
  let ?w = "\<lparr>b_store = empty_store, b_kill = False, v_net = ((), []), v_health = None, v_evidence = []\<rparr>"
  let ?op = "observer_run demo_crypto plain_stdlib (logged down_network) (make_probe_client ''https://technocore.chat'' ''v0.14.5'' 1024)
       3 True [utc_at 1700000000000000] ?w"
  obtain r w' where e: "?op = (r, w')" by (cases ?op)
  from observer_only_watches [OF e] e show ?thesis by auto
qed

section \<open>What an observation says\<close>

lemma probe_get_evidence:
  assumes "probe_get N c path n = (Inr got, n')"
  shows "ee_path (evidence_of C path got) = path \<and> ee_size (evidence_of C path got) \<le> max (pc_max c) 0
    \<and> path \<in> set watched_paths"
  using assms stream_body_size
  by (auto simp: probe_get_def evidence_of_def split: option.splits)

lemma probe_parts:
  assumes "probe C L N c n = (Inr x, n')"
  shows "\<exists>health agent_got openapi_got agent openapi raw n1 n2.
    probe_get N c ''/healthz'' n = (Inr health, n1) \<and> snd health = ''text/plain'' \<and> strip_bytes (fst health) = ''ok''
    \<and> probe_get N c ''/.well-known/agent.json'' n1 = (Inr agent_got, n2)
    \<and> json_document ''/.well-known/agent.json'' (fst agent_got) (snd agent_got) = Inr agent
    \<and> probe_get N c ''/openapi.json'' n2 = (Inr openapi_got, n')
    \<and> json_document ''/openapi.json'' (fst openapi_got) (snd openapi_got) = Inr openapi
    \<and> check_documents L c agent openapi = Inr (po_release x)
    \<and> po_endpoints x = [evidence_of C ''/healthz'' health, evidence_of C ''/.well-known/agent.json'' agent_got,
         evidence_of C ''/openapi.json'' openapi_got]
    \<and> canonical_json (PDict [(''release'', PStr (po_release x)),
        (''endpoints'', PDict (map (\<lambda>e. (ee_path e, PStr (ee_sha256 e))) (po_endpoints x)))]) = Inr raw
    \<and> po_digest x = ''sha256:'' @ sha256_hex C raw \<and> po_expected x = Some (pc_expected c)
    \<and> po_status x = (if po_release x = pc_expected c then ''compatible'' else ''release_drift'')"
  using assms unfolding probe_def Let_def
  apply (simp only: bindS_eq_Inr raiseS_if_eq_Inr op_simps prod.inject sum.inject)
  apply (elim exE conjE)
  apply hypsubst
  apply (intro exI conjI; (assumption | simp))
  done

lemma check_documents_release: "check_documents L c agent openapi = Inr release \<Longrightarrow> release \<noteq> []"
  by (auto simp: check_documents_def nonempty_text_def split: option.splits pyval.splits if_splits)

text \<open>
  An observation says what was fetched: it has one entry per watched path, in order, with bodies within
  the size limit, a release that the agent document and the OpenAPI document agree on, the status
  \<open>compatible\<close> exactly when that is the pinned release, and a protocol digest of bytes that read back as
  precisely the release and the digest of each body.
\<close>

theorem probe_evidence:
  assumes "probe C L N c n = (Inr x, n')"
  shows "map ee_path (po_endpoints x) = watched_paths \<and> (\<forall>e \<in> set (po_endpoints x). ee_size e \<le> max (pc_max c) 0)
    \<and> po_release x \<noteq> [] \<and> (po_status x = ''compatible'' \<longleftrightarrow> po_release x = pc_expected c)
    \<and> (\<exists>raw. po_digest x = ''sha256:'' @ sha256_hex C raw \<and> loads_bytes raw = Inr (norm (PDict [(''release'', PStr (po_release x)),
        (''endpoints'', PDict (map (\<lambda>e. (ee_path e, PStr (ee_sha256 e))) (po_endpoints x)))])))"
proof -
  obtain health agent_got openapi_got agent openapi raw n1 n2 where
    g: "probe_get N c ''/healthz'' n = (Inr health, n1)" "probe_get N c ''/.well-known/agent.json'' n1 = (Inr agent_got, n2)"
      "probe_get N c ''/openapi.json'' n2 = (Inr openapi_got, n')"
    and d: "check_documents L c agent openapi = Inr (po_release x)"
    and e: "po_endpoints x = [evidence_of C ''/healthz'' health, evidence_of C ''/.well-known/agent.json'' agent_got,
         evidence_of C ''/openapi.json'' openapi_got]"
    and raw: "canonical_json (PDict [(''release'', PStr (po_release x)),
        (''endpoints'', PDict (map (\<lambda>e. (ee_path e, PStr (ee_sha256 e))) (po_endpoints x)))]) = Inr raw"
    and h: "po_digest x = ''sha256:'' @ sha256_hex C raw"
      "po_status x = (if po_release x = pc_expected c then ''compatible'' else ''release_drift'')"
    using probe_parts [OF assms] by blast
  note pe = probe_get_evidence [OF g(1), of C] probe_get_evidence [OF g(2), of C] probe_get_evidence [OF g(3), of C]
  have paths: "map ee_path (po_endpoints x) = watched_paths" using pe by (simp add: e watched_paths_def)
  have "wf_json (PDict [(''release'', PStr (po_release x)),
        (''endpoints'', PDict (map (\<lambda>e. (ee_path e, PStr (ee_sha256 e))) (po_endpoints x)))])"
    using pe by (simp add: e)
  from canonical_json_roundtrip [OF this raw] paths h pe check_documents_release [OF d] show ?thesis
    by (auto simp: e)
qed

definition demo_documents :: "unit network" where
  "demo_documents q n = (Inr \<lparr>hr_status = 200,
     hr_headers = [(''content-type'', if hq_target q = ''/healthz'' then ''text/plain; charset=utf-8'' else ''application/json'')],
     hr_chunks = [if hq_target q = ''/healthz'' then ''ok'' else
       (case canonical_json (if hq_target q = ''/openapi.json''
          then PDict [(''openapi'', PStr ''3.1.0''), (''info'', PDict [(''version'', PStr ''0.14.5'')]),
            (''paths'', PDict (map (\<lambda>p. (p, PNone)) watched_paths))]
          else PDict [(''name'', PStr ''technocore-chat''), (''version'', PStr ''0.14.5''),
            (''documentation'', PDict [(''openapi'', PStr ''/openapi.json''), (''manual'', PStr ''/llms.txt'')])])
        of Inl _ \<Rightarrow> [] | Inr b \<Rightarrow> b)],
     hr_broken = False\<rparr>, n)"

lemma probe_evidence_witness:
  "\<exists>x n'. probe demo_crypto plain_stdlib demo_documents (make_probe_client ''https://technocore.chat/'' ''v0.14.5'' 4096) () = (Inr x, n')
     \<and> map ee_path (po_endpoints x) = watched_paths \<and> po_release x \<noteq> []"
proof -
  let ?op = "probe demo_crypto plain_stdlib demo_documents (make_probe_client ''https://technocore.chat/'' ''v0.14.5'' 4096) ()"
  have "succeeds (fst ?op)" by code_simp
  then obtain x n' where e: "?op = (Inr x, n')" by (cases ?op) (auto simp: succeeds_iff)
  from probe_evidence [OF e] e show ?thesis by blast
qed

end
