(* ===== verification/Adapters.thy ===== *)
theory Adapters
  imports Messenger
begin

text \<open>
  \<open>rosetta/adapters.py\<close>: the adapter that the scenario drives.  Its operations
  run over the shared state of the workers and the adapter's own record (which
  an exception leaves as it is at that point).  The reviewed harness processes
  and \<open>str()\<close> of values other than text are the parameter \<open>adapter_runtime\<close>.
\<close>

section \<open>State\<close>

record adapter_event =
  ae_actor :: string
  ae_operation :: string
  ae_status :: string
  ae_detail :: "(string \<times> pyval) list"

record checkpoint =
  cp_cursors :: "(string \<times> int) list"
  cp_confirmations :: "string list"

record adapter =
  fa_manifest :: adapter_manifest
  fa_scope :: string
  fa_cursors :: "(string \<times> int) list"
  fa_confirmations :: "string list"
  fa_events :: "adapter_event list"

record adapter_runtime =
  rt_run :: "string \<Rightarrow> string result"
  rt_str :: "pyval \<Rightarrow> string"

definition create_adapter :: "registry \<Rightarrow> string \<Rightarrow> string \<Rightarrow> adapter result" where
  "create_adapter reg adapter_id scope = bindE (registry_require reg adapter_id) (\<lambda>m.
     Inr \<lparr>fa_manifest = m, fa_scope = scope, fa_cursors = [], fa_confirmations = [], fa_events = []\<rparr>)"

definition adapter_id :: "adapter \<Rightarrow> string" where
  "adapter_id a = am_id (fa_manifest a)"

text \<open>An operation of the workers inside an adapter, and an adapter's method on the workers' state.\<close>

definition in_env :: "('w, 'a) op \<Rightarrow> ('w \<times> adapter, 'a) op" where
  "in_env f = (\<lambda>(w, a). case f w of (r, w') \<Rightarrow> (r, (w', a)))"

definition with_adapter :: "adapter \<Rightarrow> ('w \<times> adapter, 'a) op \<Rightarrow> ('w, 'a \<times> adapter) op" where
  "with_adapter a f w = (case f (w, a) of
     (Inl e, (w', _)) \<Rightarrow> (Inl e, w') | (Inr x, (w', a')) \<Rightarrow> (Inr (x, a'), w'))"

definition on_adapter :: "(adapter \<Rightarrow> adapter) \<Rightarrow> ('w \<times> adapter, unit) op" where
  "on_adapter f = putS (\<lambda>(w, a). (w, f a))"

definition add_event :: "string \<Rightarrow> string \<Rightarrow> (string \<times> pyval) list \<Rightarrow> adapter \<Rightarrow> adapter" where
  "add_event operation status detail a = a\<lparr>fa_events := fa_events a @
     [\<lparr>ae_actor = adapter_id a, ae_operation = operation, ae_status = status, ae_detail = detail\<rparr>]\<rparr>"

section \<open>Operations\<close>

definition reviewed_runtimes :: "string list" where
  "reviewed_runtimes = [''raw-fetch'', ''official-mcp'', ''python-http'', ''typescript-http'']"

definition runtime_probe :: "adapter_runtime \<Rightarrow> string \<Rightarrow> (string \<times> pyval) list result" where
  "runtime_probe R aid =
     raise_if (aid \<notin> set reviewed_runtimes) (ValueError ''unallowlisted adapter runtime'')
     (bindE (rt_run R aid) (\<lambda>stdout.
      raise_if (4096 < length stdout) (ValueError ''adapter capability response is oversized'')
      (bindE (loads stdout) (\<lambda>v. case v of
         PDict kvs \<Rightarrow> if map_of kvs ''id'' = Some (PStr aid) then Inr kvs
                      else Inl (ValueError ''adapter returned a mismatched identity'')
       | _ \<Rightarrow> Inl (ValueError ''adapter returned a mismatched identity'')))))"

definition get_key :: "(string \<times> pyval) list \<Rightarrow> string \<Rightarrow> pyval result" where
  "get_key kvs k = of_option (KeyError k) (map_of kvs k)"

definition py_str :: "adapter_runtime \<Rightarrow> pyval \<Rightarrow> string" where
  "py_str R v = (case v of PStr s \<Rightarrow> s | _ \<Rightarrow> rt_str R v)"

definition adapter_discover ::
  "'t target_ops \<Rightarrow> adapter_runtime \<Rightarrow> (('x, 't) env \<times> adapter, (string \<times> pyval) list) op" where
  "adapter_discover T R =
     bindS (in_env (in_target (tg_capabilities T))) (\<lambda>caps.
     bindS (getS (adapter_id \<circ> snd)) (\<lambda>aid.
     bindS (liftS (runtime_probe R aid)) (\<lambda>runtime.
     bindS (liftS (get_key runtime ''runtime'')) (\<lambda>rt.
     bindS (liftS (get_key runtime ''transport'')) (\<lambda>tr.
     bindS (on_adapter (add_event ''discover'' ''ok''
       [(''release'', PStr (case map_of caps ''release'' of None \<Rightarrow> ''unknown'' | Some v \<Rightarrow> py_str R v)),
        (''runtime'', rt), (''transport'', tr)])) (\<lambda>_.
     retS caps))))))"

definition last_sequence :: "protocol_record list \<Rightarrow> int" where
  "last_sequence rs = Max (set (map p_sequence rs))"

definition adapter_read_room :: "'t target_ops \<Rightarrow> string \<Rightarrow> (('x, 't) env \<times> adapter, protocol_record list) op" where
  "adapter_read_room T room =
     bindS (getS (\<lambda>(_, a). case map_of (fa_cursors a) room of None \<Rightarrow> 0 | Some n \<Rightarrow> n)) (\<lambda>since.
     bindS (in_env (in_target (tg_read_room T room since 100))) (\<lambda>records.
     bindS (on_adapter (\<lambda>a. if records = [] then a
       else a\<lparr>fa_cursors := dict_put room (last_sequence records) (fa_cursors a)\<rparr>)) (\<lambda>_.
     bindS (on_adapter (add_event ''read_room'' ''ok''
       [(''count'', PInt (int (length records))), (''since'', PInt since)])) (\<lambda>_.
     retS records))))"

text \<open>\<open>while attempts < 2\<close>: the argument counts the attempts left.\<close>

fun adapter_post :: "'t target_ops \<Rightarrow> string \<Rightarrow> string \<Rightarrow> sign_response \<Rightarrow> int \<Rightarrow> nat \<Rightarrow>
    (('x, 't) env \<times> adapter, protocol_record) op" where
  "adapter_post T room msg resp n 0 = raiseS (RuntimeError ''bounded retry exhausted'')"
| "adapter_post T room msg resp n (Suc left) = (\<lambda>(w, a).
     case in_target (tg_post_signed T (adapter_id a) room (sp_did resp) n msg (sp_signature resp)) w of
       (Inr r, w') \<Rightarrow> (Inr r, (w', add_event ''post_signed'' ''ok'' [(''attempts'', PInt (2 - int left))] a))
     | (Inl e, w') \<Rightarrow> (case e of
          RateLimited k \<Rightarrow>
            bindS (on_adapter (add_event ''post_signed'' ''rate_limited''
              [(''retry_after'', PInt k), (''attempt'', PInt (2 - int left))])) (\<lambda>_.
            if 2 < k \<or> left = 0 then raiseS e else adapter_post T room msg resp n left) (w', a)
        | UncertainWrite _ \<Rightarrow>
            bindS (in_env (in_target (tg_read_room T room 0 100))) (\<lambda>rs.
            case filter (\<lambda>r. p_did r = sp_did resp \<and> p_nonce r = n) rs of
              [r] \<Rightarrow> bindS (on_adapter (add_event ''post_signed'' ''reconciled''
                  [(''matches'', PInt 1), (''retry_performed'', PBool False)])) (\<lambda>_. retS r)
            | _ \<Rightarrow> raiseS e) (w', a)
        | _ \<Rightarrow> (Inl e, (w', a))))"

definition adapter_post_signed ::
  "'t target_ops \<Rightarrow> ('x, 't) signer \<Rightarrow> string \<Rightarrow> string \<Rightarrow> (('x, 't) env \<times> adapter, protocol_record) op" where
  "adapter_post_signed T sign room msg =
     bindS (getS (fa_scope \<circ> snd)) (\<lambda>scope.
     bindS (in_env (sign (message_request scope room msg))) (\<lambda>resp.
     case sp_nonce resp of
       None \<Rightarrow> raiseS (RuntimeError ''message signature did not include nonce'')
     | Some n \<Rightarrow> adapter_post T room msg resp n 2))"

definition adapter_checkpoint :: "('w \<times> adapter, checkpoint) op" where
  "adapter_checkpoint = bindS (getS (\<lambda>(_, a). \<lparr>cp_cursors = fa_cursors a, cp_confirmations = fa_confirmations a\<rparr>))
     (\<lambda>c. bindS (on_adapter (add_event ''checkpoint'' ''ok'' [])) (\<lambda>_. retS c))"

definition adapter_restore :: "checkpoint \<Rightarrow> ('w \<times> adapter, unit) op" where
  "adapter_restore c = bindS (on_adapter (\<lambda>a. a\<lparr>fa_cursors := cp_cursors c, fa_confirmations := cp_confirmations c\<rparr>))
     (\<lambda>_. on_adapter (add_event ''restore'' ''ok'' []))"

definition confirm_once :: "string \<Rightarrow> ('w \<times> adapter, bool) op" where
  "confirm_once correlation = (\<lambda>(w, a). if correlation \<in> set (fa_confirmations a) then (Inr False, (w, a))
     else (Inr True, (w, add_event ''confirm'' ''ok'' [(''count'', PInt 1)]
       (a\<lparr>fa_confirmations := fa_confirmations a @ [correlation]\<rparr>))))"

end
