(* ===== verification/Scenario.thy ===== *)
theory Scenario
  imports Adapters
begin

text \<open>
  \<open>rosetta/scenario.py\<close>: the signed mailbox roundtrip between a producer and a
  consumer, as one program over the workers' state, and the theorem that the
  reviewed fixture passes it and an injected regression fails it.
\<close>

record scenario_result =
  sn_producer :: string
  sn_consumer :: string
  sn_outcome :: outcome
  sn_reason :: reason_code
  sn_assertions :: "assertion_result list"
  sn_events :: "adapter_event list"
  sn_reproduction :: "(string \<times> pyval) list"

definition correlation :: "crypto \<Rightarrow> string \<Rightarrow> string \<Rightarrow> string" where
  "correlation C p c = take 32 (sha256_hex C (utf8 (''signed-mailbox-roundtrip-v1:'' @ p @ '':'' @ c)))"

definition mailbox :: "string \<Rightarrow> string" where
  "mailbox cid = ''mb-fixture-'' @ take 16 cid"

definition assert_that :: "string \<Rightarrow> bool \<Rightarrow> reason_code \<Rightarrow> assertion_result" where
  "assert_that name passed bad = \<lparr>ar_name = name, ar_passed = passed,
     ar_reason = (if passed then ROk else bad), ar_detail = []\<rparr>"

definition required_operations :: "string list" where
  "required_operations = [''discover'', ''read_room'', ''post_signed'', ''checkpoint'', ''restore'']"

definition missing_operations :: "adapter_manifest \<Rightarrow> adapter_manifest \<Rightarrow> string list" where
  "missing_operations p c = sort (filter (\<lambda>x. x \<notin> set (am_capabilities p) \<or> x \<notin> set (am_capabilities c)) required_operations)"

definition skip_result :: "string \<Rightarrow> string \<Rightarrow> string list \<Rightarrow> scenario_result" where
  "skip_result p c missing = \<lparr>sn_producer = p, sn_consumer = c, sn_outcome = OSkip, sn_reason = RUnsupportedCapability,
     sn_assertions = [\<lparr>ar_name = ''capabilities'', ar_passed = False, ar_reason = RUnsupportedCapability,
       ar_detail = join '','' missing\<rparr>],
     sn_events = [], sn_reproduction = [(''missing'', PList (map PStr missing))]\<rparr>"

definition request_body :: "string \<Rightarrow> pyval" where
  "request_body cid = PDict [(''schema'', PStr ''fixture.roundtrip-request.v1''), (''correlation_id'', PStr cid),
     (''operation'', PStr ''echo'')]"

definition result_body :: "string \<Rightarrow> pyval" where
  "result_body cid = PDict [(''schema'', PStr ''fixture.roundtrip-result.v1''), (''correlation_id'', PStr cid),
     (''status'', PStr ''ok'')]"

text \<open>\<open>item.get("correlation_id") == correlation_id\<close> for a parsed text.\<close>

definition correlates :: "string \<Rightarrow> pyval \<Rightarrow> bool result" where
  "correlates cid v = (case v of PDict kvs \<Rightarrow> Inr (map_of kvs ''correlation_id'' = Some (PStr cid))
     | _ \<Rightarrow> Inl (AttributeError ''get''))"

definition count_matches :: "crypto \<Rightarrow> string \<Rightarrow> protocol_record list \<Rightarrow> nat result" where
  "count_matches C cid received =
     bindE (mapE (\<lambda>r. loads (p_text r)) (filter (record_signed C) received)) (\<lambda>parsed.
     bindE (mapE (correlates cid) parsed) (\<lambda>bs. Inr (length (filter id bs))))"

definition count_status :: "string \<Rightarrow> adapter_event list \<Rightarrow> nat" where
  "count_status status es = length (filter (\<lambda>e. ae_status e = status) es)"

text \<open>The faults, the two adapters, their discovery.\<close>

definition setup_roundtrip ::
  "crypto \<Rightarrow> 't target_ops \<Rightarrow> adapter_runtime \<Rightarrow> registry \<Rightarrow> string \<Rightarrow> string \<Rightarrow> (('x, 't) env, adapter \<times> adapter) op" where
  "setup_roundtrip C T R reg pid cid =
     (let mb = mailbox (correlation C pid cid) in
     bindS (in_target (tg_create_room T mb)) (\<lambda>_.
     bindS (in_target (tg_inject_rate_limit T pid mb)) (\<lambda>_.
     bindS (in_target (tg_inject_uncertain T cid mb)) (\<lambda>_.
     bindS (liftS (create_adapter reg pid (''producer:'' @ pid))) (\<lambda>producer.
     bindS (liftS (create_adapter reg cid (''consumer:'' @ cid))) (\<lambda>consumer.
     bindS (with_adapter producer (adapter_discover T R)) (\<lambda>(_, producer).
     bindS (with_adapter consumer (adapter_discover T R)) (\<lambda>(_, consumer).
     retS (producer, consumer)))))))))"

text \<open>Request, receipt and result.\<close>

definition exchange ::
  "crypto \<Rightarrow> 't target_ops \<Rightarrow> ('x, 't) signer \<Rightarrow> bool \<Rightarrow> string \<Rightarrow> adapter \<times> adapter \<Rightarrow>
    (('x, 't) env, assertion_result list \<times> adapter \<times> adapter) op" where
  "exchange C T sign regression corr pc = (let mb = mailbox corr in
     bindS (liftS (canonical_text (request_body corr))) (\<lambda>request_text.
     bindS (with_adapter (fst pc) (adapter_post_signed T sign mb request_text)) (\<lambda>(request, producer).
     bindS (with_adapter (snd pc) (adapter_read_room T mb)) (\<lambda>(received, consumer).
     bindS (liftS (count_matches C corr received)) (\<lambda>matches.
     bindS (liftS (canonical_text (result_body corr))) (\<lambda>result_text.
     bindS (with_adapter consumer (adapter_post_signed T sign mb result_text)) (\<lambda>(result, consumer).
     retS ([assert_that ''request_signature_valid'' (record_signed C request) RInvalidSignature,
            assert_that ''correlation_matches'' (matches = 1) RCorrelationMismatch] @
           (if regression then [\<lparr>ar_name = ''canonical_payload'', ar_passed = False,
              ar_reason = RCanonicalPayloadMismatch,
              ar_detail = ''injected field-order canonicalizer regression''\<rparr>] else []) @
           [assert_that ''result_signature_valid'' (record_signed C result) RInvalidSignature],
           producer, consumer))))))))"

text \<open>Checkpoint, restart, duplicate confirmation and the bounds on retries.\<close>

definition restart ::
  "'t target_ops \<Rightarrow> registry \<Rightarrow> string \<Rightarrow> string \<Rightarrow> adapter \<times> adapter \<Rightarrow>
    (('x, 't) env, assertion_result list \<times> adapter_event list) op" where
  "restart T reg pid corr pc = (let mb = mailbox corr in
     bindS (with_adapter (fst pc) (adapter_read_room T mb)) (\<lambda>(_, producer).
     bindS (with_adapter producer adapter_checkpoint) (\<lambda>(checkpoint, producer).
     bindS (liftS (create_adapter reg pid (''producer:'' @ pid))) (\<lambda>restarted.
     bindS (with_adapter restarted (adapter_restore checkpoint)) (\<lambda>(_, restarted).
     bindS (with_adapter restarted (adapter_read_room T mb)) (\<lambda>(again, restarted).
     bindS (with_adapter restarted (confirm_once corr)) (\<lambda>(first, restarted).
     bindS (with_adapter restarted (confirm_once corr)) (\<lambda>(second, restarted).
     let producer_events = fa_events producer @ fa_events restarted; consumer_events = fa_events (snd pc) in
     retS ([assert_that ''restart_resumed_cursor'' (again = []) RCursorResumeFailed,
            assert_that ''confirmation_exactly_once'' (first \<and> \<not> second) RDuplicateSuccess,
            assert_that ''rate_limit_backoff_bounded'' (count_status ''rate_limited'' producer_events = 1) RRateLimitExhausted,
            assert_that ''uncertain_write_reconciled'' (count_status ''reconciled'' consumer_events = 1)
              RUncertainWriteUnresolved],
           producer_events @ consumer_events)))))))))"

definition assess :: "string \<Rightarrow> string \<Rightarrow> bool \<Rightarrow> string \<Rightarrow> assertion_result list \<Rightarrow> adapter_event list \<Rightarrow> scenario_result" where
  "assess pid cid regression corr assertions events = (let failing = filter (\<lambda>a. \<not> ar_passed a) assertions in
     \<lparr>sn_producer = pid, sn_consumer = cid,
      sn_outcome = (if failing = [] then OPass else OFail),
      sn_reason = (case failing of [] \<Rightarrow> ROk | a # _ \<Rightarrow> ar_reason a),
      sn_assertions = assertions, sn_events = events,
      sn_reproduction = [(''schema'', PStr ''rosetta.reproduction.v1''), (''scenario'', PStr ''signed-mailbox-roundtrip-v1''),
        (''producer'', PStr pid), (''consumer'', PStr cid),
        (''fault'', PStr (if regression then ''broken-canonicalizer'' else ''none'')), (''correlation_id'', PStr corr)]\<rparr>)"

definition run_roundtrip ::
  "crypto \<Rightarrow> 't target_ops \<Rightarrow> adapter_runtime \<Rightarrow> ('x, 't) signer \<Rightarrow> registry \<Rightarrow> bool \<Rightarrow> bool \<Rightarrow> string \<Rightarrow> string \<Rightarrow>
    (('x, 't) env, scenario_result) op" where
  "run_roundtrip C T R sign reg gated regression pid cid =
     bindS (ifS gated (gate_require ''runner'') (retS ())) (\<lambda>_.
     bindS (liftS (registry_require reg pid)) (\<lambda>pm.
     bindS (liftS (registry_require reg cid)) (\<lambda>cm.
     ifS (missing_operations pm cm \<noteq> []) (retS (skip_result pid cid (missing_operations pm cm)))
     (let corr = correlation C pid cid in
      bindS (setup_roundtrip C T R reg pid cid) (\<lambda>pc.
      bindS (exchange C T sign regression corr pc) (\<lambda>(before, pc).
      bindS (restart T reg pid corr pc) (\<lambda>(after, events).
      retS (assess pid cid regression corr (before @ after) events))))))))"

text \<open>\<open>target is None\<close>: a fixture of its own.\<close>

definition run_roundtrip_local ::
  "crypto \<Rightarrow> adapter_runtime \<Rightarrow> ('x, local_target) signer \<Rightarrow> registry \<Rightarrow> bool \<Rightarrow> bool \<Rightarrow> string \<Rightarrow> string \<Rightarrow>
    (('x, local_target) env, scenario_result) op" where
  "run_roundtrip_local C R sign reg gated regression pid cid w =
     run_roundtrip C (local_ops C) R sign reg gated regression pid cid (w\<lparr>e_target := new_local\<rparr>)"

section \<open>The fixture's texts\<close>

lemma escape_hex:
  assumes "is_lower_hex c"
  shows "escape_char False c = [c]"
proof -
  have c: "48 \<le> code c" "code c \<noteq> 92"
    using assms by (auto simp: is_lower_hex_def is_ascii_digit_def code_def)
  have "c \<noteq> d" if "code d < 48 \<or> code d = 92" for d using that c by auto
  from this [of "CHR 0x22"] this [of "CHR 0x5C"] this [of "CHR 0x0A"] this [of "CHR 0x0D"] this [of "CHR 0x09"]
    this [of "CHR 0x0C"] this [of "CHR 0x08"] c
  show ?thesis by (simp add: escape_char_def code_def)
qed

lemma quote_hex: "list_all is_lower_hex s \<Longrightarrow> quote False s = CHR 0x22 # s @ [CHR 0x22]"
  by (induction s) (auto simp: quote_def escape_hex)

lemma strip_not_empty: "x \<in> set s \<Longrightarrow> \<not> is_space x \<Longrightarrow> strip s \<noteq> []"
proof -
  assume x: "x \<in> set s" "\<not> is_space x"
  then have "x \<in> set (dropWhile is_space s)"
    by (metis UnE set_append set_takeWhileD takeWhile_dropWhile_id)
  then show ?thesis using x(2) by (auto simp: strip_def lstrip_def rstrip_Nil_iff list_all_iff)
qed

text \<open>A text that can be signed as a message.\<close>

definition signable :: "string \<Rightarrow> bool" where
  "signable msg = succeeds (sweep_text 4096 msg)"

lemma signable_brace:
  assumes "msg = CHR ''{'' # rest" "length msg \<le> 4096"
  shows "signable msg"
proof -
  let ?f = "\<lambda>c. if swept_category c then CHR '' '' else c"
  have "\<not> swept_category CHR ''{''" "\<not> is_space CHR ''{''" by code_simp+
  then have "CHR ''{'' \<in> set (map ?f msg)" using assms(1) by simp
  from strip_not_empty [OF this \<open>\<not> is_space CHR ''{''\<close>]
  have "strip (map ?f msg) \<noteq> []" .
  moreover have "length (strip (map ?f msg)) \<le> 4096" using length_strip [of "map ?f msg"] assms(2) by simp
  ultimately show ?thesis by (auto simp: signable_def succeeds_iff sweep_text_Inr)
qed

lemma body_text:
  assumes "list_all is_lower_hex corr" "length corr \<le> 64"
    and b: "b = PDict [(''schema'', PStr s), (''correlation_id'', PStr corr), (k, PStr v)]"
    and k: "(k = ''operation'' \<and> v = ''echo'' \<and> s = ''fixture.roundtrip-request.v1'') \<or> (k = ''status'' \<and> v = ''ok'' \<and> s = ''fixture.roundtrip-result.v1'')"
  shows "\<exists>msg. canonical_text b = Inr msg \<and> signable msg \<and> (\<exists>kvs. loads msg = Inr (PDict kvs) \<and> map_of kvs ''correlation_id'' = Some (PStr corr))"
proof -
  have q: "quote False ''schema'' = CHR 0x22 # ''schema'' @ [CHR 0x22]" "quote False ''operation'' = CHR 0x22 # ''operation'' @ [CHR 0x22]"
    "quote False ''echo'' = CHR 0x22 # ''echo'' @ [CHR 0x22]" "quote False ''status'' = CHR 0x22 # ''status'' @ [CHR 0x22]"
    "quote False ''ok'' = CHR 0x22 # ''ok'' @ [CHR 0x22]" "quote False ''correlation_id'' = CHR 0x22 # ''correlation_id'' @ [CHR 0x22]"
    "quote False ''fixture.roundtrip-request.v1'' = CHR 0x22 # ''fixture.roundtrip-request.v1'' @ [CHR 0x22]"
    "quote False ''fixture.roundtrip-result.v1'' = CHR 0x22 # ''fixture.roundtrip-result.v1'' @ [CHR 0x22]"
    by code_simp+
  have rn: "reject_noncanonical_numbers b = Inr ()" by (simp add: b)
  obtain t where t: "dumps False b = Inr t" "\<exists>rest. t = CHR ''{'' # rest" "length t \<le> 4096"
    using k assms(2) by (auto simp: b join_dict_def sort_key_simps item_text_def q quote_hex [OF assms(1)] less_char_def)
  then have c: "canonical_text b = Inr t" by (simp add: canonical_text_def canonical_json_def rn)
  have wf: "wf_json b" using k by (auto simp: b)
  have "loads t = Inr (norm b)" using loads_dumps [OF wf t(1)] .
  moreover have "\<exists>kvs. norm b = PDict kvs \<and> map_of kvs ''correlation_id'' = Some (PStr corr)"
    using k by (auto simp: b sort_key_simps less_char_def)
  ultimately show ?thesis using c t signable_brace by metis
qed

section \<open>Signing and posting in the fixture\<close>

lemma handle_message:
  assumes "crypto_ok C" "identity_of_private C key = Inr i" "signable msg" "room \<noteq> []" "CHR ''|'' \<notin> set room"
    and cur: "0 \<le> current_nonce xs (''message:'' @ room)" "current_nonce xs (''message:'' @ room) < sqlite_max"
    and n: "n = current_nonce xs (''message:'' @ room) + 1"
  shows "\<exists>resp xs'. handle C i (message_request scope room msg) xs = (Inr resp, xs')
    \<and> sp_nonce resp = Some n \<and> sp_did resp = id_did i \<and> current_nonce xs' (''message:'' @ room) = n
    \<and> (\<forall>seq. record_signed C (make_record seq room (id_did i) n msg (sp_signature resp)))"
proof -
  obtain p where p: "signed_room_payload room n msg = Inr p"
    using assms(3-8) by (auto simp: signed_room_payload_def signable_def succeeds_iff sqlite_max_def max_nonce_def)
  obtain u where u: "nonce_next (''message:'' @ room) None xs = (Inr n, u)" "current_nonce u (''message:'' @ room) = n"
    using nonce_next_Inr [of "''message:'' @ room" None xs n] cur n by (auto simp: current_nonce_upd)
  have f: "set (present_fields (message_request scope room msg)) = set (required_fields TechnocoreMessage)"
    by (auto simp: present_fields_def message_request_def)
  obtain resp t where h: "handle C i (message_request scope room msg) xs = (Inr resp, t)" "sp_nonce resp = Some n"
    "sp_did resp = id_did i" "current_nonce t (''message:'' @ room) = n" "sp_signature resp = identity_sign C i p"
    using f u p by (auto simp: handle_def prepare_payload_def message_request_def finish_signature_eq current_nonce_def)
  have "verify_signature C (id_did i) p (sp_signature resp)" using identity_verifies [OF assms(1,2)] h(5) by simp
  then have "record_signed C (make_record seq room (id_did i) n msg (sp_signature resp))" for seq
    by (simp add: record_signed_def make_record_def p)
  with h show ?thesis by blast
qed

lemma local_ops_simps [simp]:
  "tg_post_signed (local_ops C) = local_post_signed C" "tg_read_room (local_ops C) = local_read_room"
  "tg_capabilities (local_ops C) = local_capabilities" "tg_create_room (local_ops C) = local_create_room"
  "tg_inject_rate_limit (local_ops C) = local_inject_rate_limit" "tg_inject_uncertain (local_ops C) = local_inject_uncertain"
  by (simp_all add: local_ops_def)

lemma adapter_id_events [simp]:
  "adapter_id (a\<lparr>fa_events := es\<rparr>) = adapter_id a" "adapter_id (a\<lparr>fa_cursors := cs\<rparr>) = adapter_id a"
  "adapter_id (a\<lparr>fa_confirmations := xs\<rparr>) = adapter_id a"
  by (simp_all add: adapter_id_def)

lemma local_post_limited:
  "(actor, room) \<in> set (lt_rate t) \<Longrightarrow> (actor, room) \<notin> set (lt_rate_used t) \<Longrightarrow>
   local_post_signed C actor room did n msg sig t = (Inl (RateLimited 1), t\<lparr>lt_rate_used := (actor, room) # lt_rate_used t\<rparr>)"
  by (simp add: local_post_signed_def)

lemma local_post_stored:
  assumes "\<not> ((actor, room) \<in> set (lt_rate t) \<and> (actor, room) \<notin> set (lt_rate_used t))"
    and "record_signed C (make_record (lt_next t) room did n msg sig)" "\<forall>r \<in> set (local_log t room). p_nonce r \<noteq> n"
  shows "local_post_signed C actor room did n msg sig t =
    (if (actor, room) \<in> set (lt_uncertain t) \<and> (actor, room) \<notin> set (lt_uncertain_used t)
     then (Inl (UncertainWrite ''record committed before connection loss''),
       (local_append room (make_record (lt_next t) room did n msg sig) (set_default room t))
         \<lparr>lt_uncertain_used := (actor, room) # lt_uncertain_used t\<rparr>)
     else (Inr (make_record (lt_next t) room did n msg sig),
       local_append room (make_record (lt_next t) room did n msg sig) (set_default room t)))"
proof -
  obtain p where p: "signed_room_payload room n msg = Inr p" "verify_signature C did p sig"
    using assms(2) by (auto simp: record_signed_def make_record_def split: sum.splits)
  have "find (is_key did n) (local_log t room) = None" using assms(3) by (auto simp: find_None_iff is_key_def)
  then show ?thesis using assms(1) p by (auto simp: local_post_signed_def local_store_def Let_def)
qed

lemma local_append_fields [simp]:
  "lt_rate (local_append room r t) = lt_rate t" "lt_uncertain (local_append room r t) = lt_uncertain t"
  "lt_rate_used (local_append room r t) = lt_rate_used t" "lt_uncertain_used (local_append room r t) = lt_uncertain_used t"
  "lt_next (local_append room r t) = lt_next t + 1"
  by (simp_all add: local_append_def)

text \<open>The first post of an actor with a rate limit to come: one retry, then stored.\<close>

lemma post_after_limit:
  assumes a: "adapter_id a = actor" and sp: "sp_did resp = did" and t: "e_target w = t"
    and lim: "(actor, room) \<in> set (lt_rate t)" "lt_rate_used t = []" "(actor, room) \<notin> set (lt_uncertain t)"
    and s: "record_signed C (make_record (lt_next t) room did n msg (sp_signature resp))" "local_log t room = []"
  shows "\<exists>t' ev. adapter_post (local_ops C) room msg resp n 2 (w, a) =
      (Inr (make_record (lt_next t) room did n msg (sp_signature resp)), (w\<lparr>e_target := t'\<rparr>, a\<lparr>fa_events := fa_events a @ ev\<rparr>))
    \<and> local_log t' room = [make_record (lt_next t) room did n msg (sp_signature resp)] \<and> lt_next t' = lt_next t + 1
    \<and> lt_rate t' = lt_rate t \<and> lt_uncertain t' = lt_uncertain t \<and> lt_uncertain_used t' = lt_uncertain_used t
    \<and> count_status ''rate_limited'' ev = 1"
proof -
  let ?u = "t\<lparr>lt_rate_used := [(actor, room)]\<rparr>"
  have 1: "local_post_signed C actor room did n msg (sp_signature resp) t = (Inl (RateLimited 1), ?u)"
    using local_post_limited [of actor room t] lim by simp
  have 2: "local_post_signed C actor room did n msg (sp_signature resp) ?u = (Inr (make_record (lt_next t) room did n msg (sp_signature resp)),
       local_append room (make_record (lt_next t) room did n msg (sp_signature resp)) (set_default room ?u))"
    using local_post_stored [of actor room ?u C did n msg "sp_signature resp"] lim s by simp
  let ?ev = "[\<lparr>ae_actor = actor, ae_operation = ''post_signed'', ae_status = ''rate_limited'',
        ae_detail = [(''retry_after'', PInt 1), (''attempt'', PInt 1)]\<rparr>,
      \<lparr>ae_actor = actor, ae_operation = ''post_signed'', ae_status = ''ok'', ae_detail = [(''attempts'', PInt 2)]\<rparr>]"
  let ?t' = "local_append room (make_record (lt_next t) room did n msg (sp_signature resp)) (set_default room ?u)"
  have "adapter_post (local_ops C) room msg resp n 2 (w, a) =
      (Inr (make_record (lt_next t) room did n msg (sp_signature resp)), (w\<lparr>e_target := ?t'\<rparr>, a\<lparr>fa_events := fa_events a @ ?ev\<rparr>))"
    by (simp add: numeral_2_eq_2 in_target_def a sp t 1 2 add_event_def on_adapter_def)
  moreover have "local_log ?t' room = [make_record (lt_next t) room did n msg (sp_signature resp)]"
    using s(2) by (simp add: local_log_append)
  moreover have "count_status ''rate_limited'' ?ev = 1" by (simp add: count_status_def)
  ultimately show ?thesis by (intro exI [of _ ?t'] exI [of _ ?ev] conjI) simp_all
qed

lemma count_status_Cons [simp]: "count_status s (e # es) = (if ae_status e = s then 1 else 0) + count_status s es"
  by (simp add: count_status_def)

lemma count_status_Nil [simp]: "count_status s [] = 0"
  by (simp add: count_status_def)

lemma count_status_append [simp]: "count_status s (xs @ ys) = count_status s xs + count_status s ys"
  by (simp add: count_status_def)

text \<open>A post whose outcome is uncertain: it was stored, and one read finds it.\<close>

lemma post_uncertain:
  assumes a: "adapter_id a = actor" and sp: "sp_did resp = did" and t: "e_target w = t"
    and unc: "(actor, room) \<in> set (lt_uncertain t)" "lt_uncertain_used t = []" "(actor, room) \<notin> set (lt_rate t)"
    and s: "record_signed C (make_record (lt_next t) room did n msg (sp_signature resp))"
    and log: "local_log t room = [r1]" "p_nonce r1 \<noteq> n" "0 < p_sequence r1" "0 < lt_next t"
  shows "\<exists>t' ev. adapter_post (local_ops C) room msg resp n 2 (w, a) =
      (Inr (make_record (lt_next t) room did n msg (sp_signature resp)), (w\<lparr>e_target := t'\<rparr>, a\<lparr>fa_events := fa_events a @ ev\<rparr>))
    \<and> local_log t' room = [r1, make_record (lt_next t) room did n msg (sp_signature resp)]
    \<and> count_status ''reconciled'' ev = 1"
proof -
  let ?r = "make_record (lt_next t) room did n msg (sp_signature resp)"
  let ?t' = "(local_append room ?r (set_default room t))\<lparr>lt_uncertain_used := [(actor, room)]\<rparr>"
  have 1: "local_post_signed C actor room did n msg (sp_signature resp) t =
      (Inl (UncertainWrite ''record committed before connection loss''), ?t')"
    using local_post_stored [of actor room t C did n msg "sp_signature resp"] unc s log by simp
  have l: "local_log ?t' room = [r1, ?r]" using log by (simp add: local_log_append)
  then have 2: "local_read_room room 0 100 ?t' = (Inr [r1, ?r], ?t')"
    using log by (simp add: local_read_room_def make_record_def)
  have 3: "filter (\<lambda>r. p_did r = did \<and> p_nonce r = n) [r1, ?r] = [?r]" using log(2) by (simp add: make_record_def)
  let ?ev = "[\<lparr>ae_actor = actor, ae_operation = ''post_signed'', ae_status = ''reconciled'',
        ae_detail = [(''matches'', PInt 1), (''retry_performed'', PBool False)]\<rparr>]"
  have "adapter_post (local_ops C) room msg resp n 2 (w, a) =
      (Inr ?r, (w\<lparr>e_target := ?t'\<rparr>, a\<lparr>fa_events := fa_events a @ ?ev\<rparr>))"
    by (simp add: numeral_2_eq_2 in_target_def in_env_def bindS_def a sp t 1 2 3 add_event_def on_adapter_def del: filter.simps)
  moreover have "count_status ''reconciled'' ?ev = 1" by (simp add: count_status_def)
  ultimately show ?thesis using l by (intro exI [of _ ?t'] exI [of _ ?ev] conjI) simp_all
qed

definition unseen :: "string \<Rightarrow> ('x, local_target) env \<Rightarrow> adapter \<Rightarrow> protocol_record list" where
  "unseen room w a = filter (\<lambda>r. (case map_of (fa_cursors a) room of None \<Rightarrow> 0 | Some n \<Rightarrow> n) < p_sequence r)
     (local_log (e_target w) room)"

lemma read_unseen:
  assumes "length (local_log (e_target w) room) \<le> 100"
  shows "\<exists>ev. with_adapter a (adapter_read_room (local_ops C) room) w = (Inr (unseen room w a,
      a\<lparr>fa_cursors := (if unseen room w a = [] then fa_cursors a else dict_put room (last_sequence (unseen room w a)) (fa_cursors a)),
        fa_events := fa_events a @ [ev]\<rparr>), w) \<and> ae_status ev = ''ok''"
proof -
  have "length (unseen room w a) \<le> 100" using assms length_filter_le le_trans unfolding unseen_def by blast
  then have "local_read_room room (case map_of (fa_cursors a) room of None \<Rightarrow> 0 | Some n \<Rightarrow> n) 100 (e_target w)
      = (Inr (unseen room w a), e_target w)"
    by (simp add: local_read_room_def unseen_def)
  then show ?thesis
    by (intro exI [of _ "\<lparr>ae_actor = adapter_id a, ae_operation = ''read_room'', ae_status = ''ok'',
        ae_detail = [(''count'', PInt (int (length (unseen room w a)))),
          (''since'', PInt (case map_of (fa_cursors a) room of None \<Rightarrow> 0 | Some n \<Rightarrow> n))]\<rparr>"])
      (simp add: with_adapter_def adapter_read_room_def bindS_def in_env_def in_target_def on_adapter_def add_event_def)
qed

text \<open>A runtime probe that answers with the adapter's identity, as the reviewed harness processes do.\<close>

definition probe_answers :: "adapter_runtime \<Rightarrow> string \<Rightarrow> bool" where
  "probe_answers R aid = (case runtime_probe R aid of Inl _ \<Rightarrow> False
     | Inr kvs \<Rightarrow> succeeds (get_key kvs ''runtime'') \<and> succeeds (get_key kvs ''transport''))"

lemma discover_ok:
  assumes "probe_answers R (adapter_id a)"
  shows "\<exists>caps ev. with_adapter a (adapter_discover (local_ops C) R) w = (Inr (caps, a\<lparr>fa_events := fa_events a @ [ev]\<rparr>), w)
    \<and> ae_status ev = ''ok''"
proof -
  obtain kvs rt tr where k: "runtime_probe R (adapter_id a) = Inr kvs" "get_key kvs ''runtime'' = Inr rt" "get_key kvs ''transport'' = Inr tr"
    using assms by (auto simp: probe_answers_def succeeds_iff split: sum.splits)
  obtain caps where caps: "\<And>t. local_capabilities t = (Inr caps, t)" by (simp add: local_capabilities_def)
  show ?thesis
    by (rule exI [of _ caps], rule exI [of _ "\<lparr>ae_actor = adapter_id a, ae_operation = ''discover'', ae_status = ''ok'',
        ae_detail = [(''release'', PStr (case map_of caps ''release'' of None \<Rightarrow> ''unknown'' | Some v \<Rightarrow> py_str R v)),
          (''runtime'', rt), (''transport'', tr)]\<rparr>"])
      (simp add: with_adapter_def adapter_discover_def bindS_def in_env_def in_target_def on_adapter_def add_event_def k caps)
qed

definition fresh_adapter :: "adapter \<Rightarrow> bool" where
  "fresh_adapter a = (fa_cursors a = [] \<and> fa_confirmations a = [] \<and> count_status ''rate_limited'' (fa_events a) = 0
     \<and> count_status ''reconciled'' (fa_events a) = 0)"

lemma create_fresh:
  "registry_require reg aid = Inr m \<Longrightarrow> \<exists>a. create_adapter reg aid scope = Inr a \<and> adapter_id a = aid \<and> fresh_adapter a"
  using registry_require_Inr [of reg aid m]
  by (simp add: create_adapter_def adapter_id_def fresh_adapter_def count_status_def)

lemma setup_ok:
  assumes "registry_require reg pid = Inr pm" "registry_require reg cid = Inr cm"
    and "probe_answers R pid" "probe_answers R cid" "mb = mailbox (correlation C pid cid)" "length mb \<le> 64"
  shows "\<exists>p c t. setup_roundtrip C (local_ops C) R reg pid cid (w\<lparr>e_target := new_local\<rparr>) = (Inr (p, c), w\<lparr>e_target := t\<rparr>)
    \<and> adapter_id p = pid \<and> fresh_adapter p \<and> adapter_id c = cid \<and> fresh_adapter c
    \<and> lt_rate t = [(pid, mb)] \<and> lt_uncertain t = [(cid, mb)] \<and> lt_rate_used t = [] \<and> lt_uncertain_used t = []
    \<and> lt_next t = 1 \<and> local_log t mb = []"
proof -
  let ?t = "(set_default mb new_local)\<lparr>lt_rate := [(pid, mb)], lt_uncertain := [(cid, mb)]\<rparr>"
  let ?w = "w\<lparr>e_target := ?t\<rparr>"
  obtain p where p: "create_adapter reg pid (''producer:'' @ pid) = Inr p" "adapter_id p = pid" "fresh_adapter p"
    using create_fresh [OF assms(1)] by blast
  obtain c where c: "create_adapter reg cid (''consumer:'' @ cid) = Inr c" "adapter_id c = cid" "fresh_adapter c"
    using create_fresh [OF assms(2)] by blast
  obtain caps ev where d: "with_adapter p (adapter_discover (local_ops C) R) ?w = (Inr (caps, p\<lparr>fa_events := fa_events p @ [ev]\<rparr>), ?w)"
    "ae_status ev = ''ok''" using discover_ok assms(3) p(2) by metis
  obtain caps' ev' where e: "with_adapter c (adapter_discover (local_ops C) R) ?w = (Inr (caps', c\<lparr>fa_events := fa_events c @ [ev']\<rparr>), ?w)"
    "ae_status ev' = ''ok''" using discover_ok assms(4) c(2) by metis
  have "mb \<noteq> []" using assms(5) by (simp add: mailbox_def)
  then have r: "setup_roundtrip C (local_ops C) R reg pid cid (w\<lparr>e_target := new_local\<rparr>) =
      (Inr (p\<lparr>fa_events := fa_events p @ [ev]\<rparr>, c\<lparr>fa_events := fa_events c @ [ev']\<rparr>), ?w)"
    using assms(6) p(1) c(1) d(1) e(1)
    by (simp add: setup_roundtrip_def assms(5) [symmetric] bindS_def in_target_def local_create_room_def
        local_inject_rate_limit_def local_inject_uncertain_def new_local_def set_default_def)
  moreover have "fresh_adapter (p\<lparr>fa_events := fa_events p @ [ev]\<rparr>)" "fresh_adapter (c\<lparr>fa_events := fa_events c @ [ev']\<rparr>)"
    using p(3) c(3) d(2) e(2) by (auto simp: fresh_adapter_def)
  moreover have "local_log ?t mb = []" by (simp add: local_log_def set_default_def new_local_def map_of_dict_put)
  ultimately show ?thesis using p(2) c(2)
    by (intro exI [of _ "p\<lparr>fa_events := fa_events p @ [ev]\<rparr>"] exI [of _ "c\<lparr>fa_events := fa_events c @ [ev']\<rparr>"] exI [of _ ?t])
      (simp add: new_local_def)
qed

lemma adapter_signs:
  "handle C i (message_request (fa_scope a) room msg) (e_signer w) = (Inr resp, xs) \<Longrightarrow> sp_nonce resp = Some n \<Longrightarrow>
   adapter_post_signed T (\<lambda>r. in_signer (handle C i r)) room msg (w, a) = adapter_post T room msg resp n 2 (w\<lparr>e_signer := xs\<rparr>, a)"
  by (simp add: adapter_post_signed_def bindS_def in_env_def in_signer_def)

lemma with_adapter_Inr: "f (w, a) = (Inr x, (w', a')) \<Longrightarrow> with_adapter a f w = (Inr (x, a'), w')"
  by (simp add: with_adapter_def)

lemma request_text_ok:
  assumes "list_all is_lower_hex corr" "length corr \<le> 64"
  shows "\<exists>msg kvs. canonical_text (request_body corr) = Inr msg \<and> signable msg \<and> loads msg = Inr (PDict kvs)
    \<and> map_of kvs ''correlation_id'' = Some (PStr corr)"
  using body_text [OF assms, of "request_body corr" "''fixture.roundtrip-request.v1''" "''operation''" "''echo''"]
  by (auto simp: request_body_def)

lemma result_text_ok:
  assumes "list_all is_lower_hex corr" "length corr \<le> 64"
  shows "\<exists>msg. canonical_text (result_body corr) = Inr msg \<and> signable msg"
  using body_text [OF assms, of "result_body corr" "''fixture.roundtrip-result.v1''" "''status''" "''ok''"]
  by (auto simp: result_body_def)

lemma exchange_ok:
  assumes C: "crypto_ok C" "identity_of_private C key = Inr i"
    and corr: "list_all is_lower_hex corr" "length corr \<le> 64" and mb: "mb = mailbox corr" "CHR ''|'' \<notin> set mb"
    and cur: "0 \<le> current_nonce (e_signer w) (''message:'' @ mb)" "current_nonce (e_signer w) (''message:'' @ mb) + 1 < sqlite_max"
    and p: "adapter_id p = pid" "fresh_adapter p" and c: "adapter_id c = cid" "fresh_adapter c" and ne: "pid \<noteq> cid"
    and t: "lt_rate (e_target w) = [(pid, mb)]" "lt_uncertain (e_target w) = [(cid, mb)]" "lt_rate_used (e_target w) = []"
      "lt_uncertain_used (e_target w) = []" "lt_next (e_target w) = 1" "local_log (e_target w) mb = []"
  shows "\<exists>before p' c' xs t'. exchange C (local_ops C) (\<lambda>r. in_signer (handle C i r)) regression corr (p, c) w =
      (Inr (before, p', c'), w\<lparr>e_signer := xs, e_target := t'\<rparr>)
    \<and> filter (\<lambda>a. \<not> ar_passed a) before = (if regression then [\<lparr>ar_name = ''canonical_payload'', ar_passed = False,
         ar_reason = RCanonicalPayloadMismatch, ar_detail = ''injected field-order canonicalizer regression''\<rparr>] else [])
    \<and> fa_cursors p' = [] \<and> fa_confirmations p' = [] \<and> count_status ''rate_limited'' (fa_events p') = 1
    \<and> count_status ''reconciled'' (fa_events c') = 1
    \<and> (\<exists>r1 r2. local_log t' mb = [r1, r2] \<and> p_sequence r1 = 1 \<and> p_sequence r2 = 2)"
proof -
  let ?T = "local_ops C" and ?sign = "\<lambda>r. in_signer (handle C i r)" and ?did = "id_did i"
  let ?l = "''message:'' @ mb"
  obtain msg1 kvs where m1: "canonical_text (request_body corr) = Inr msg1" "signable msg1" "loads msg1 = Inr (PDict kvs)"
    "map_of kvs ''correlation_id'' = Some (PStr corr)" using request_text_ok [OF corr] by blast
  obtain msg2 where m2: "canonical_text (result_body corr) = Inr msg2" "signable msg2" using result_text_ok [OF corr] by blast
  have mb0: "mb \<noteq> []" using mb(1) by (simp add: mailbox_def)
  obtain resp1 xs1 n1 where s1: "handle C i (message_request (fa_scope p) mb msg1) (e_signer w) = (Inr resp1, xs1)"
    "sp_nonce resp1 = Some n1" "sp_did resp1 = ?did" "current_nonce xs1 ?l = n1" "n1 = current_nonce (e_signer w) ?l + 1"
    "\<forall>seq. record_signed C (make_record seq mb ?did n1 msg1 (sp_signature resp1))"
    using handle_message [OF C m1(2) mb0 mb(2) cur(1) _ refl, of "fa_scope p"] cur(2) by auto
  have cur2: "0 \<le> current_nonce xs1 ?l" "current_nonce xs1 ?l < sqlite_max" using s1(4,5) cur by auto
  obtain resp2 xs2 n2 where s2: "handle C i (message_request (fa_scope c) mb msg2) xs1 = (Inr resp2, xs2)"
    "sp_nonce resp2 = Some n2" "sp_did resp2 = ?did" "n2 = n1 + 1"
    "\<forall>seq. record_signed C (make_record seq mb ?did n2 msg2 (sp_signature resp2))"
    using handle_message [OF C m2(2) mb0 mb(2) cur2 refl, of "fa_scope c"] s1(4) by auto
  let ?r1 = "make_record 1 mb ?did n1 msg1 (sp_signature resp1)"
  let ?r2 = "make_record 2 mb ?did n2 msg2 (sp_signature resp2)"
  let ?w1 = "w\<lparr>e_signer := xs1\<rparr>"
  obtain t1 ev1 where a1: "adapter_post ?T mb msg1 resp1 n1 2 (?w1, p) = (Inr ?r1, (?w1\<lparr>e_target := t1\<rparr>, p\<lparr>fa_events := fa_events p @ ev1\<rparr>))"
    "local_log t1 mb = [?r1]" "lt_next t1 = 2" "lt_rate t1 = [(pid, mb)]" "lt_uncertain t1 = [(cid, mb)]"
    "lt_uncertain_used t1 = []" "count_status ''rate_limited'' ev1 = 1"
    using post_after_limit [of p pid resp1 ?did ?w1 "e_target w" mb C n1 msg1] p(1) s1(3,6) t ne by auto
  let ?w2 = "?w1\<lparr>e_target := t1\<rparr>"
  have p1: "with_adapter p (adapter_post_signed ?T ?sign mb msg1) w = (Inr (?r1, p\<lparr>fa_events := fa_events p @ ev1\<rparr>), ?w2)"
    using adapter_signs [OF s1(1,2)] a1(1) by (simp add: with_adapter_def)
  have un: "unseen mb ?w2 c = [?r1]" using c(2) a1(2) by (simp add: unseen_def fresh_adapter_def make_record_def)
  obtain ev2 where r: "with_adapter c (adapter_read_room ?T mb) ?w2 = (Inr ([?r1],
      c\<lparr>fa_cursors := dict_put mb (last_sequence [?r1]) (fa_cursors c), fa_events := fa_events c @ [ev2]\<rparr>), ?w2)" "ae_status ev2 = ''ok''"
    using read_unseen [of ?w2 mb c C] a1(2) un by auto
  let ?c = "c\<lparr>fa_cursors := dict_put mb (last_sequence [?r1]) (fa_cursors c), fa_events := fa_events c @ [ev2]\<rparr>"
  have match: "count_matches C corr [?r1] = Inr 1"
  proof -
    have "filter (record_signed C) [?r1] = [?r1]" using s1(6) by simp
    moreover have "loads (p_text ?r1) = Inr (PDict kvs)" using m1(3) by (simp add: make_record_def)
    moreover have "correlates corr (PDict kvs) = Inr True" using m1(4) by (simp add: correlates_def)
    ultimately show ?thesis by (simp add: count_matches_def)
  qed
  let ?w3 = "?w2\<lparr>e_signer := xs2\<rparr>"
  obtain t2 ev3 where a2: "adapter_post ?T mb msg2 resp2 n2 2 (?w3, ?c) = (Inr ?r2, (?w3\<lparr>e_target := t2\<rparr>, ?c\<lparr>fa_events := fa_events ?c @ ev3\<rparr>))"
    "local_log t2 mb = [?r1, ?r2]" "count_status ''reconciled'' ev3 = 1"
    using post_uncertain [of ?c cid resp2 ?did ?w3 t1 mb C n2 msg2 ?r1] c(1) s2(3,4,5) a1(2-6) ne
    by (auto simp: make_record_def)
  let ?c' = "?c\<lparr>fa_events := fa_events ?c @ ev3\<rparr>"
  have p2: "with_adapter ?c (adapter_post_signed ?T ?sign mb msg2) ?w2 = (Inr (?r2, ?c'), ?w3\<lparr>e_target := t2\<rparr>)"
    using adapter_signs [of C i ?c mb msg2 ?w2 resp2 xs2 n2 ?T] s2(1,2) a2(1) by (simp add: with_adapter_def)
  let ?before = "[assert_that ''request_signature_valid'' True RInvalidSignature,
            assert_that ''correlation_matches'' True RCorrelationMismatch] @
           (if regression then [\<lparr>ar_name = ''canonical_payload'', ar_passed = False,
              ar_reason = RCanonicalPayloadMismatch,
              ar_detail = ''injected field-order canonicalizer regression''\<rparr>] else []) @
           [assert_that ''result_signature_valid'' True RInvalidSignature]"
  let ?p' = "p\<lparr>fa_events := fa_events p @ ev1\<rparr>"
  have "exchange C ?T ?sign regression corr (p, c) w = (Inr (?before, ?p', ?c'), ?w3\<lparr>e_target := t2\<rparr>)"
    unfolding exchange_def Let_def mb(1) [symmetric] using m1(1) m2(1) p1 r(1) match p2 s1(6) s2(5) by (simp add: bindS_def)
  moreover have "?w3\<lparr>e_target := t2\<rparr> = w\<lparr>e_signer := xs2, e_target := t2\<rparr>" by simp
  moreover have "filter (\<lambda>a. \<not> ar_passed a) ?before = (if regression then [\<lparr>ar_name = ''canonical_payload'', ar_passed = False,
         ar_reason = RCanonicalPayloadMismatch, ar_detail = ''injected field-order canonicalizer regression''\<rparr>] else [])"
    by (simp add: assert_that_def)
  moreover have "count_status ''rate_limited'' (fa_events ?p') = 1" "fa_cursors ?p' = []" "fa_confirmations ?p' = []"
    "count_status ''reconciled'' (fa_events ?c') = 1"
    using p(2) c(2) a1(7) a2(3) r(2) by (auto simp: fresh_adapter_def)
  moreover have "p_sequence ?r1 = 1" "p_sequence ?r2 = 2" by (simp_all add: make_record_def)
  ultimately show ?thesis using a2(2) by metis
qed

lemma last_sequence_two: "p_sequence r1 = 1 \<Longrightarrow> p_sequence r2 = 2 \<Longrightarrow> last_sequence [r1, r2] = 2"
  by (simp add: last_sequence_def)

lemma restart_ok:
  assumes reg: "registry_require reg pid = Inr pm" and mb: "mb = mailbox corr"
    and p: "fa_cursors p = []" "fa_confirmations p = []" "count_status ''rate_limited'' (fa_events p) = 1"
    and c: "count_status ''reconciled'' (fa_events c) = 1"
    and log: "local_log (e_target w) mb = [r1, r2]" "p_sequence r1 = 1" "p_sequence r2 = 2"
  shows "\<exists>after events. restart (local_ops C) reg pid corr (p, c) w = (Inr (after, events), w) \<and> list_all ar_passed after"
proof -
  let ?T = "local_ops C"
  have small: "length (local_log (e_target w) mb) \<le> 100" using log(1) by simp
  have un: "unseen mb w p = [r1, r2]" using p(1) log by (simp add: unseen_def)
  obtain ev where r1: "with_adapter p (adapter_read_room ?T mb) w = (Inr ([r1, r2], p\<lparr>fa_cursors := [(mb, 2)], fa_events := fa_events p @ [ev]\<rparr>), w)"
    "ae_status ev = ''ok''"
    using read_unseen [OF small, of p C] un p(1) last_sequence_two [OF log(2,3)] by (auto simp: dict_put_def)
  let ?p = "p\<lparr>fa_cursors := [(mb, 2)], fa_events := fa_events p @ [ev]\<rparr>"
  let ?cp = "\<lparr>cp_cursors = [(mb, 2)], cp_confirmations = []\<rparr>"
  let ?p2 = "add_event ''checkpoint'' ''ok'' [] ?p"
  have k: "with_adapter ?p adapter_checkpoint w = (Inr (?cp, ?p2), w)"
    using p(2) by (simp add: with_adapter_def adapter_checkpoint_def on_adapter_def)
  obtain a where a: "create_adapter reg pid (''producer:'' @ pid) = Inr a" "fresh_adapter a" using create_fresh [OF reg] by blast
  let ?a1 = "add_event ''restore'' ''ok'' [] (a\<lparr>fa_cursors := [(mb, 2)], fa_confirmations := []\<rparr>)"
  have s: "with_adapter a (adapter_restore ?cp) w = (Inr ((), ?a1), w)"
    by (simp add: with_adapter_def adapter_restore_def on_adapter_def)
  have un2: "unseen mb w ?a1 = []" using log by (simp add: unseen_def add_event_def)
  obtain ev2 where r2: "with_adapter ?a1 (adapter_read_room ?T mb) w = (Inr ([], ?a1\<lparr>fa_events := fa_events ?a1 @ [ev2]\<rparr>), w)"
    "ae_status ev2 = ''ok''"
    using read_unseen [OF small, of ?a1 C] un2 by auto
  let ?a2 = "?a1\<lparr>fa_events := fa_events ?a1 @ [ev2]\<rparr>"
  let ?a3 = "add_event ''confirm'' ''ok'' [(''count'', PInt 1)] (?a2\<lparr>fa_confirmations := fa_confirmations ?a2 @ [corr]\<rparr>)"
  have c1: "with_adapter ?a2 (confirm_once corr) w = (Inr (True, ?a3), w)"
    by (simp add: with_adapter_def confirm_once_def add_event_def)
  have c2: "with_adapter ?a3 (confirm_once corr) w = (Inr (False, ?a3), w)"
    by (simp add: with_adapter_def confirm_once_def add_event_def)
  have n: "count_status ''rate_limited'' (fa_events ?p2 @ fa_events ?a3) = 1"
    using p(3) r1(2) r2(2) a(2) by (simp add: add_event_def fresh_adapter_def)
  let ?after = "[assert_that ''restart_resumed_cursor'' True RCursorResumeFailed,
            assert_that ''confirmation_exactly_once'' True RDuplicateSuccess,
            assert_that ''rate_limit_backoff_bounded'' True RRateLimitExhausted,
            assert_that ''uncertain_write_reconciled'' True RUncertainWriteUnresolved]"
  have "restart ?T reg pid corr (p, c) w = (Inr (?after, (fa_events ?p2 @ fa_events ?a3) @ fa_events c), w)"
    unfolding restart_def Let_def mb [symmetric] fst_conv snd_conv
    by (simp only: bindS_def r1(1) k a(1) s r2(1) c1 c2 op_simps prod.case sum.case n c) simp
  moreover have "list_all ar_passed ?after" by (simp add: assert_that_def)
  ultimately show ?thesis by blast
qed

section \<open>The fixture run\<close>

lemma correlation_hex: "list_all is_lower_hex (correlation C p c)" "length (correlation C p c) \<le> 64"
proof -
  have "set (correlation C p c) \<subseteq> set (sha256_hex C (utf8 (''signed-mailbox-roundtrip-v1:'' @ p @ '':'' @ c)))"
    unfolding correlation_def by (rule set_take_subset)
  then show "list_all is_lower_hex (correlation C p c)"
    using hex_of_bytes_lower by (auto simp: list_all_iff sha256_hex_def)
  show "length (correlation C p c) \<le> 64" by (simp add: correlation_def)
qed

lemma mailbox_ok: "list_all is_lower_hex corr \<Longrightarrow> CHR ''|'' \<notin> set (mailbox corr) \<and> length (mailbox corr) \<le> 64"
proof -
  assume c: "list_all is_lower_hex corr"
  have "\<not> is_lower_hex CHR ''|''" by code_simp
  then have "CHR ''|'' \<notin> set (take 16 corr)" using c in_set_takeD by (metis list_all_iff)
  then show ?thesis by (simp add: mailbox_def)
qed

text \<open>
  C23: The reviewed fixture run decides: for two different registered adapters with the required operations,
  whose runtimes answer their probe, the signed mailbox roundtrip over the local fixture always ends (through
  one injected rate limit and one injected uncertain write), and it passes, unless the canonicaliser
  regression is injected, in which case it fails with exactly that reason.
\<close>

theorem fixture_roundtrip_decides:
  assumes "crypto_ok C" "identity_of_private C key = Inr i"
    and "registry_require reg pid = Inr pm" "registry_require reg cid = Inr cm" "missing_operations pm cm = []" "pid \<noteq> cid"
    and "probe_answers R pid" "probe_answers R cid"
    and "0 \<le> current_nonce (e_signer w) (''message:'' @ mailbox (correlation C pid cid))"
      "current_nonce (e_signer w) (''message:'' @ mailbox (correlation C pid cid)) + 1 < sqlite_max"
    and "gated \<Longrightarrow> \<not> b_kill w \<and> \<not> component_quarantined ''runner'' (b_store w)"
  shows "\<exists>res w'. run_roundtrip_local C R (\<lambda>r. in_signer (handle C i r)) reg gated regression pid cid w = (Inr res, w')
    \<and> sn_outcome res = (if regression then OFail else OPass)
    \<and> sn_reason res = (if regression then RCanonicalPayloadMismatch else ROk)"
proof -
  let ?corr = "correlation C pid cid" and ?T = "local_ops C" and ?sign = "\<lambda>r. in_signer (handle C i r)"
  let ?mb = "mailbox ?corr" and ?w = "w\<lparr>e_target := new_local\<rparr>"
  note mb = mailbox_ok [OF correlation_hex(1), of C pid cid]
  obtain p c t where s: "setup_roundtrip C ?T R reg pid cid ?w = (Inr (p, c), w\<lparr>e_target := t\<rparr>)"
    and pc: "adapter_id p = pid" "fresh_adapter p" "adapter_id c = cid" "fresh_adapter c"
    and t: "lt_rate t = [(pid, ?mb)]" "lt_uncertain t = [(cid, ?mb)]" "lt_rate_used t = []" "lt_uncertain_used t = []"
      "lt_next t = 1" "local_log t ?mb = []"
    using setup_ok [OF assms(3,4,7,8) refl] mb by blast
  obtain before p' c' xs t' where e: "exchange C ?T ?sign regression ?corr (p, c) (w\<lparr>e_target := t\<rparr>) =
      (Inr (before, p', c'), w\<lparr>e_signer := xs, e_target := t'\<rparr>)"
    and b: "filter (\<lambda>a. \<not> ar_passed a) before = (if regression then [\<lparr>ar_name = ''canonical_payload'', ar_passed = False,
         ar_reason = RCanonicalPayloadMismatch, ar_detail = ''injected field-order canonicalizer regression''\<rparr>] else [])"
    and p': "fa_cursors p' = []" "fa_confirmations p' = []" "count_status ''rate_limited'' (fa_events p') = 1"
    and c': "count_status ''reconciled'' (fa_events c') = 1"
    and log: "\<exists>r1 r2. local_log t' ?mb = [r1, r2] \<and> p_sequence r1 = 1 \<and> p_sequence r2 = 2"
    using exchange_ok [OF assms(1,2) correlation_hex refl conjunct1 [OF mb], of "w\<lparr>e_target := t\<rparr>"]
      pc t assms(6,9,10) by (simp, metis)
  obtain after events where r: "restart ?T reg pid ?corr (p', c') (w\<lparr>e_signer := xs, e_target := t'\<rparr>) =
      (Inr (after, events), w\<lparr>e_signer := xs, e_target := t'\<rparr>)" "list_all ar_passed after"
  proof -
    obtain r1 r2 where l: "local_log (e_target (w\<lparr>e_signer := xs, e_target := t'\<rparr>)) ?mb = [r1, r2]" "p_sequence r1 = 1" "p_sequence r2 = 2"
      using log by auto
    show ?thesis using restart_ok [OF assms(3) refl p' c' l, of C] that by blast
  qed
  have g: "ifS gated (gate_require ''runner'') (retS ()) ?w = (Inr (), ?w)"
    using assms(11) by (cases gated) simp_all
  have f: "filter (\<lambda>a. \<not> ar_passed a) (before @ after) = (if regression then [\<lparr>ar_name = ''canonical_payload'', ar_passed = False,
         ar_reason = RCanonicalPayloadMismatch, ar_detail = ''injected field-order canonicalizer regression''\<rparr>] else [])"
    using b r(2) by (simp add: list_all_iff filter_empty_conv)
  have "run_roundtrip_local C R ?sign reg gated regression pid cid w =
      (Inr (assess pid cid regression ?corr (before @ after) events), w\<lparr>e_signer := xs, e_target := t'\<rparr>)"
    unfolding run_roundtrip_local_def run_roundtrip_def Let_def
    by (simp only: bindS_def g s e r(1) assms(3-5) op_simps prod.case sum.case ifS_simps not_not simp_thms)
  moreover have "sn_outcome (assess pid cid regression ?corr (before @ after) events) = (if regression then OFail else OPass)
      \<and> sn_reason (assess pid cid regression ?corr (before @ after) events) = (if regression then RCanonicalPayloadMismatch else ROk)"
    by (cases regression) (simp_all add: assess_def Let_def f del: filter_append)
  ultimately show ?thesis by blast
qed

definition demo_manifest :: "string \<Rightarrow> adapter_manifest" where
  "demo_manifest aid = \<lparr>am_id = aid, am_runtime = ''node'', am_source_repository = ''repo'', am_source_revision_kind = ''git_commit'',
     am_source_revision = replicate 40 CHR ''a'', am_wrapper_revision = None, am_dependency_lock = replicate 64 CHR ''b'',
     am_image = ''image'', am_image_digest = ''sha256:'' @ replicate 64 CHR ''c'', am_transport = ''http'',
     am_capabilities = required_operations\<rparr>"

definition demo_runtime :: adapter_runtime where
  "demo_runtime = \<lparr>rt_run = (\<lambda>aid. canonical_text (PDict [(''id'', PStr aid), (''runtime'', PStr ''node''), (''transport'', PStr ''http'')])),
     rt_str = (\<lambda>_. [])\<rparr>"

lemma fixture_roundtrip_decides_witness:
  "\<exists>i res w'. run_roundtrip_local demo_crypto demo_runtime (\<lambda>r. in_signer (handle demo_crypto i r))
      [demo_manifest ''raw-fetch'', demo_manifest ''python-http''] True True ''raw-fetch'' ''python-http''
      \<lparr>b_store = empty_store, b_kill = False, e_signer = empty_nonce_store, e_target = new_local\<rparr> = (Inr res, w')
    \<and> sn_outcome res = OFail \<and> sn_reason res = RCanonicalPayloadMismatch"
proof -
  have "\<exists>i. identity_of_private demo_crypto [] = Inr i"
    by (simp add: identity_of_private_def did_from_public_key_def demo_crypto_def)
  then obtain i where i: "identity_of_private demo_crypto [] = Inr i" by blast
  let ?reg = "[demo_manifest ''raw-fetch'', demo_manifest ''python-http'']"
  have r: "registry_require ?reg ''raw-fetch'' = Inr (demo_manifest ''raw-fetch'')"
    "registry_require ?reg ''python-http'' = Inr (demo_manifest ''python-http'')"
    by (simp_all add: registry_require_def demo_manifest_def)
  have m: "missing_operations (demo_manifest ''raw-fetch'') (demo_manifest ''python-http'') = []" by code_simp
  have p: "probe_answers demo_runtime ''raw-fetch''" "probe_answers demo_runtime ''python-http''" by code_simp+
  show ?thesis
    using fixture_roundtrip_decides [OF demo_crypto_ok i r m _ p, of "\<lparr>b_store = empty_store, b_kill = False,
        e_signer = empty_nonce_store, e_target = new_local\<rparr>" True True]
    by (auto simp: current_nonce_def empty_nonce_store_def sqlite_max_def component_quarantined_def empty_store_def)
qed

end
