(* ===== verification/Service.thy ===== *)
theory Service
  imports Scenario Url
begin

text \<open>
  \<open>rosetta/service.py\<close>: the signed service card, discovery offers and the
  request protocol with its quotas and idempotent answers.  A gateway's fixed
  attributes are the record \<open>gateway\<close>; its one counter \<open>runner_starts\<close> is the
  second component of the state.  The JSON schemas that pydantic generates
  are parameters, and so is \<open>str()\<close> of a value that is not text.
\<close>

section \<open>Reading stored documents\<close>

definition parse_text :: "(pyval \<Rightarrow> 'a result) \<Rightarrow> string \<Rightarrow> 'a result" where
  "parse_text parse s = (case loads s of Inl _ \<Rightarrow> invalid | Inr v \<Rightarrow> parse v)"

definition all_reasons :: "reason_code list" where
  "all_reasons = [ROk, RUnsupportedCapability, RInvalidSchema, RInvalidSignature, RCanonicalPayloadMismatch,
     RCorrelationMismatch, RDuplicateSuccess, RCursorResumeFailed, RRateLimitExhausted, RUncertainWriteUnresolved,
     RInfrastructureFailure, RUnallowlistedAdapter, RUnsupportedProfile, RExpired, RQuotaExceeded, RBusy,
     RDuplicateConflict, RInvalidReplyRoom, RUnsigned, RKillSwitchActive, ROriginNotAllowed]"

definition parse_reason :: "pyval option \<Rightarrow> reason_code result" where
  "parse_reason v = (case v of Some (PStr s) \<Rightarrow>
       of_option (ValidationError ''validation error'') (find (\<lambda>r. reason_text r = s) all_reasons)
     | _ \<Rightarrow> invalid)"

definition parse_outcome :: "pyval option \<Rightarrow> outcome result" where
  "parse_outcome v = (case v of Some (PStr s) \<Rightarrow>
       of_option (ValidationError ''validation error'') (find (\<lambda>r. outcome_text r = s) [OPass, OFail, OSkip, OError])
     | _ \<Rightarrow> invalid)"

definition parse_acknowledgement :: "pydantic \<Rightarrow> pyval \<Rightarrow> acknowledgement result" where
  "parse_acknowledgement P v = bindE (as_dict P v) (\<lambda>kvs. let f = map_of kvs in
     check (closed_fields [''request_id'', ''status'', ''job_id'', ''position'', ''reason''] ''rosetta.ack.v1'' False kvs)
     (bindE (strict_str (f ''request_id'')) (\<lambda>i. bindE (literal [''accepted'', ''rejected''] (f ''status'')) (\<lambda>s.
      bindE (optional strict_str (f ''job_id'')) (\<lambda>j. bindE (optional strict_int (f ''position'')) (\<lambda>p.
      bindE (optional parse_reason (f ''reason'')) (\<lambda>r.
      Inr \<lparr>ak_request_id = i, ak_status = s, ak_job_id = j, ak_position = p, ak_reason = r\<rparr>)))))))"

definition url_field :: "pydantic \<Rightarrow> pyval option \<Rightarrow> string result" where
  "url_field P v = bindE (strict_str v) (\<lambda>s. check (pyd_url P s) (Inr s))"

definition parse_service_result :: "pydantic \<Rightarrow> pyval \<Rightarrow> service_result result" where
  "parse_service_result P v = bindE (as_dict P v) (\<lambda>kvs. let f = map_of kvs in
     check (closed_fields [''request_id'', ''job_id'', ''outcome'', ''bundle_root'', ''report_url'', ''completed_at'']
        ''rosetta.result.v1'' False kvs)
     (bindE (strict_str (f ''request_id'')) (\<lambda>i. bindE (strict_str (f ''job_id'')) (\<lambda>j.
      bindE (parse_outcome (f ''outcome'')) (\<lambda>oc. bindE (strict_str (f ''bundle_root'')) (\<lambda>b.
      bindE (url_field P (f ''report_url'')) (\<lambda>u. bindE (a_datetime P (f ''completed_at'')) (\<lambda>t.
      Inr \<lparr>re_request_id = i, re_job_id = j, re_outcome = oc, re_bundle_root = b, re_report_url = u,
           re_completed_at = t\<rparr>))))))))"

section \<open>The service card\<close>

definition service_names :: "crypto \<Rightarrow> string \<Rightarrow> string \<times> string" where
  "service_names C did = (''d-rosetta-'' @ did_fingerprint C did, ''mb-rosetta-'' @ did_fingerprint C did)"

definition require_origin :: "string \<Rightarrow> string \<Rightarrow> unit result" where
  "require_origin url allowed = bindE (urlparse url) (\<lambda>u.
     raise_if (u_scheme u @ ''://'' @ u_netloc u \<noteq> rstrip_char CHR ''/'' allowed \<or> \<not> no_credentials u)
       (ValueError ''URL origin is not the configured publisher origin'') (Inr ()))"

definition digest_request :: "sign_action \<Rightarrow> string \<Rightarrow> string \<Rightarrow> sign_request" where
  "digest_request action scope digest = \<lparr>sr_action = action, sr_scope = scope, sr_nonce = None, sr_room = None,
     sr_text = None, sr_digest = Some digest, sr_namespace = None, sr_key = None, sr_value = None\<rparr>"

definition prefixed_digest :: "crypto \<Rightarrow> bytes \<Rightarrow> string" where
  "prefixed_digest C b = ''sha256:'' @ sha256_hex C b"

definition skill_text :: string where
  "skill_text = ''# Technocore Rosetta'' @ [CHR 0x0A, CHR 0x0A] @
     ''Submit only a DID-signed `rosetta.request.v1` to the public request mailbox. Requests cannot contain code, prompts, URLs, credentials, commits, images, or private mailboxes.'' @ [CHR 0x0A]"

definition make_card :: "crypto \<Rightarrow> pydantic \<Rightarrow> string \<Rightarrow> registry \<Rightarrow> string \<Rightarrow> string \<Rightarrow> datetime \<Rightarrow> service_card result" where
  "make_card C P did reg base_url baseline now = (let base = rstrip_char CHR ''/'' base_url;
       request_url = base @ ''/schemas/rosetta-request-v1.json''; report_url = base @ ''/reports'' in
     bindE (require_origin request_url base_url) (\<lambda>_.
     bindE (require_origin report_url base_url) (\<lambda>_.
     bindE (shift now (14 * us_per_day)) (\<lambda>valid_until.
     let crd = \<lparr>card_did = did, card_service_room = fst (service_names C did),
            card_request_mailbox = snd (service_names C did), card_protocol_baseline = baseline,
            card_scenarios = [''signed-mailbox-roundtrip-v1''], card_profiles = registry_ids reg,
            card_schema_url = request_url, card_report_base_url = report_url, card_per_did = 2, card_global = 8,
            card_status = ''available'', card_updated_at = now, card_valid_until = valid_until\<rparr> in
     bindE (valid_card P crd) (\<lambda>ok. check ok (Inr crd))))))"

definition card_attestation :: "string \<Rightarrow> string \<Rightarrow> string \<Rightarrow> pyval" where
  "card_attestation did digest sig = PDict [(''schema'', PStr ''rosetta.service-card-attestation.v1''),
     (''domain'', PStr ''rosetta.service-document.v1''), (''did'', PStr did),
     (''service_card_sha256'', PStr digest), (''signature'', PStr sig)]"

definition agent_document :: "string \<Rightarrow> string \<Rightarrow> pyval" where
  "agent_document did base_url = PDict [(''schema'', PStr ''rosetta.agent-manifest.v1''),
     (''name'', PStr ''Technocore Rosetta''), (''did'', PStr did),
     (''service_card'', PStr (rstrip_char CHR ''/'' base_url @ ''/service-card.json''))]"

text \<open>The card, its attestation and the files in the order in which they are written.\<close>

definition build_service_card ::
  "crypto \<Rightarrow> pydantic \<Rightarrow> ('x, 't) signer \<Rightarrow> bytes \<Rightarrow> bytes \<Rightarrow> string \<Rightarrow> registry \<Rightarrow> string \<Rightarrow> string \<Rightarrow> datetime \<Rightarrow>
    (('x, 't) env, service_card \<times> pyval \<times> (string \<times> bytes) list) op" where
  "build_service_card C P sign request_schema result_schema did reg base_url baseline now =
     bindS (liftS (make_card C P did reg base_url baseline now)) (\<lambda>crd.
     bindS (liftS (canonical_json (card_dict crd))) (\<lambda>card_bytes.
     bindS (sign (digest_request ServiceDocument ''service-card'' (prefixed_digest C card_bytes))) (\<lambda>resp.
     bindS (liftS (canonical_json (card_attestation (sp_did resp) (prefixed_digest C card_bytes) (sp_signature resp)))) (\<lambda>attestation_bytes.
     bindS (liftS (canonical_json (agent_document did base_url))) (\<lambda>agent_bytes.
     retS (crd, card_attestation (sp_did resp) (prefixed_digest C card_bytes) (sp_signature resp),
       [(''service-card.json'', card_bytes @ [CHR 0x0A]),
        (''service-card.attestation.json'', attestation_bytes @ [CHR 0x0A]),
        (''schemas/rosetta-request-v1.json'', request_schema @ [CHR 0x0A]),
        (''schemas/rosetta-result-v1.json'', result_schema @ [CHR 0x0A]),
        (''.well-known/agent.json'', agent_bytes @ [CHR 0x0A]),
        (''skill.md'', utf8 skill_text)]))))))"

definition text_of :: "(pyval \<Rightarrow> string) \<Rightarrow> pyval option \<Rightarrow> string" where
  "text_of str v = (case v of None \<Rightarrow> ''None'' | Some (PStr s) \<Rightarrow> s | Some w \<Rightarrow> str w)"

definition verify_service_card ::
  "crypto \<Rightarrow> (pyval \<Rightarrow> string) \<Rightarrow> service_card \<Rightarrow> (string \<times> pyval) list \<Rightarrow> datetime \<Rightarrow> bool result" where
  "verify_service_card C str crd attestation now =
     bindE (canonical_json (card_dict crd)) (\<lambda>card_bytes.
     let digest = prefixed_digest C card_bytes in
     if map_of attestation ''service_card_sha256'' \<noteq> Some (PStr digest)
        \<or> map_of attestation ''did'' \<noteq> Some (PStr (card_did crd)) then Inr False
     else bindE (to_utc (card_valid_until crd)) (\<lambda>until. bindE (to_utc now) (\<lambda>current.
     if instant until \<le> instant current then Inr False
     else bindE (service_document_payload digest) (\<lambda>payload.
       Inr (verify_signature C (card_did crd) payload (text_of str (map_of attestation ''signature'')))))))"

definition signed_post ::
  "'t target_ops \<Rightarrow> ('x, 't) signer \<Rightarrow> string \<Rightarrow> string \<Rightarrow> pyval \<Rightarrow> (('x, 't) env, protocol_record) op" where
  "signed_post T sign actor room body =
     bindS (liftS (canonical_text body)) (\<lambda>msg.
     bindS (sign (message_request actor room msg)) (\<lambda>signed.
     case sp_nonce signed of None \<Rightarrow> raiseS (RuntimeError ''signer omitted message nonce'')
     | Some n \<Rightarrow> in_target (tg_post_signed T actor room (sp_did signed) n msg (sp_signature signed))))"

section \<open>The gateway\<close>

record gateway =
  gw_registry :: registry
  gw_card :: service_card
  gw_attestation :: "(string \<times> pyval) list"
  gw_base_url :: string
  gw_max_queue :: int

definition make_gateway :: "registry \<Rightarrow> service_card \<Rightarrow> (string \<times> pyval) list \<Rightarrow> string \<Rightarrow> int \<Rightarrow> gateway" where
  "make_gateway reg crd attestation base_url max_queue = \<lparr>gw_registry = reg, gw_card = crd,
     gw_attestation = attestation, gw_base_url = rstrip_char CHR ''/'' base_url, gw_max_queue = max_queue\<rparr>"

definition card_digest :: "gateway \<Rightarrow> pyval result" where
  "card_digest g = get_key (gw_attestation g) ''service_card_sha256''"

definition announcement :: "gateway \<Rightarrow> pyval result" where
  "announcement g = bindE (card_digest g) (\<lambda>d. Inr (PDict [(''schema'', PStr ''rosetta.service-announcement.v1''),
     (''did'', PStr (card_did (gw_card g))), (''request_mailbox'', PStr (card_request_mailbox (gw_card g))),
     (''service_card_url'', PStr (gw_base_url g @ ''/service-card.json'')), (''service_card_sha256'', d)]))"

definition announce ::
  "'t target_ops \<Rightarrow> ('x, 't) signer \<Rightarrow> (pyval \<Rightarrow> string) \<Rightarrow> gateway \<Rightarrow> (('x, 't) env, protocol_record) op" where
  "announce T sign str g =
     bindS (gate_require ''service'') (\<lambda>_.
     bindS (in_target (tg_create_room T (card_service_room (gw_card g)))) (\<lambda>_.
     bindS (in_target (tg_create_room T (card_request_mailbox (gw_card g)))) (\<lambda>_.
     bindS (liftS (card_digest g)) (\<lambda>d.
     bindS (liftS (announcement g)) (\<lambda>body.
     send_body T sign (''announcement:'' @ text_of str (Some d)) ''rosetta-discovery'' (card_service_room (gw_card g)) body)))))"

definition restore_announcement ::
  "'t target_ops \<Rightarrow> ('x, 't) signer \<Rightarrow> (pyval \<Rightarrow> string) \<Rightarrow> gateway \<Rightarrow> int \<Rightarrow> (('x, 't) env, protocol_record) op" where
  "restore_announcement T sign str g generation =
     bindS (gate_require ''service'') (\<lambda>_.
     raiseS_if (generation < 0) (ValueError ''room generation cannot be negative'')
     (bindS (liftS (card_digest g)) (\<lambda>d.
      bindS (liftS (announcement g)) (\<lambda>body.
      send_body T sign (''announcement-recovery:'' @ str_int generation @ '':'' @ text_of str (Some d))
        ''rosetta-discovery'' (card_service_room (gw_card g)) body))))"

definition announce_presence ::
  "'t target_ops \<Rightarrow> ('x, 't) signer \<Rightarrow> (pyval \<Rightarrow> string) \<Rightarrow> gateway \<Rightarrow> int \<Rightarrow> int \<Rightarrow> (('x, 't) env, protocol_record) op" where
  "announce_presence T sign str g generation slot =
     bindS (gate_require ''service'') (\<lambda>_.
     raiseS_if (generation < 0 \<or> slot < 0) (ValueError ''invalid service presence coordinates'')
     (bindS (liftS (card_digest g)) (\<lambda>d.
      send_body T sign (''service-presence:'' @ str_int generation @ '':'' @ str_int slot @ '':'' @ text_of str (Some d))
        ''rosetta-presence'' (card_service_room (gw_card g))
        (PDict [(''schema'', PStr ''rosetta.service-presence.v1''), (''did'', PStr (card_did (gw_card g))),
          (''service_card_sha256'', d), (''status'', PStr (card_status (gw_card g)))]))))"

section \<open>Handling records\<close>

text \<open>\<open>except (ValidationError, ValueError, KeyError)\<close>\<close>

fun is_key_error :: "exn \<Rightarrow> bool" where
  "is_key_error (KeyError _) = True"
| "is_key_error _ = False"

definition read_query :: "pydantic \<Rightarrow> string \<Rightarrow> datetime \<Rightarrow> discovery_query option result" where
  "read_query P msg now =
     (let r = bindE (parse_text (parse_discovery_query P) msg) (\<lambda>q.
            bindE (to_utc (dq_expires_at q)) (\<lambda>expiry. bindE (to_utc now) (\<lambda>current.
            if instant expiry \<le> instant current then Inr None
            else bindE (validate_public_mailbox (dq_reply_room q)) (\<lambda>_. Inr (Some q))))) in
      case r of Inl e \<Rightarrow> if is_value_error e \<or> is_key_error e then Inr None else Inl e | Inr x \<Rightarrow> Inr x)"

definition make_offer :: "pydantic \<Rightarrow> gateway \<Rightarrow> discovery_query \<Rightarrow> discovery_offer result" where
  "make_offer P g q = bindE (card_digest g) (\<lambda>d.
     let u = gw_base_url g @ ''/service-card.json'' in
     check (pyd_url P u) (bindE (strict_str (Some d)) (\<lambda>ds.
     Inr \<lparr>do_request_id = dq_request_id q, do_did = card_did (gw_card g), do_card_url = u, do_card_sha256 = ds,
       do_request_mailbox = card_request_mailbox (gw_card g), do_valid_until = card_valid_until (gw_card g)\<rparr>)))"

definition handle_discovery ::
  "crypto \<Rightarrow> pydantic \<Rightarrow> 't target_ops \<Rightarrow> ('x, 't) signer \<Rightarrow> gateway \<Rightarrow> protocol_record \<Rightarrow> datetime \<Rightarrow>
    (('x, 't) env, discovery_offer option) op" where
  "handle_discovery C P T sign g r now =
     bindS (gate_require ''service'') (\<lambda>_.
     ifS (\<not> record_signed C r) (retS None)
     (bindS (liftS (read_query P (p_text r) now)) (\<lambda>query. case query of None \<Rightarrow> retS None | Some q \<Rightarrow>
      bindS (liftS (canonical_json (discovery_query_dict q))) (\<lambda>raw.
      bindS (in_store (reserve_discovery_offer (p_did r) (dq_request_id q) (sha256_hex C raw) now 1)) (\<lambda>reservation.
      ifS (reservation \<in> {''quota'', ''conflict''}) (retS None)
      (bindS (liftS (make_offer P g q)) (\<lambda>offer.
       bindS (send_body T sign (''offer:'' @ p_did r @ '':'' @ dq_request_id q) ''rosetta-discovery''
         (dq_reply_room q) (offer_dict offer)) (\<lambda>_. retS (Some offer)))))))))"

text \<open>\<open>except (ValidationError, ValueError)\<close>: the request is invalid.\<close>

definition read_request :: "pydantic \<Rightarrow> registry \<Rightarrow> string \<Rightarrow> datetime \<Rightarrow> service_request option result" where
  "read_request P reg msg now =
     (let r = bindE (parse_text (parse_service_request P) msg) (\<lambda>q.
            bindE (validate_expiry (rq_expires_at q) now 24) (\<lambda>_.
            bindE (registry_require reg (rq_producer q)) (\<lambda>_.
            bindE (registry_require reg (rq_consumer q)) (\<lambda>_. Inr q)))) in
      case r of Inl e \<Rightarrow> if is_value_error e then Inr None else Inl e | Inr q \<Rightarrow> Inr (Some q))"

definition job_id :: "crypto \<Rightarrow> string \<Rightarrow> string \<Rightarrow> string" where
  "job_id C did rid = take 24 (sha256_hex C (utf8 (did @ rid)))"

definition accepted_ack :: "crypto \<Rightarrow> string \<Rightarrow> string \<Rightarrow> acknowledgement" where
  "accepted_ack C did rid = \<lparr>ak_request_id = rid, ak_status = ''accepted'', ak_job_id = Some (job_id C did rid),
     ak_position = Some 1, ak_reason = None\<rparr>"

definition rejected_ack :: "string \<Rightarrow> reason_code \<Rightarrow> acknowledgement" where
  "rejected_ack rid reason = \<lparr>ak_request_id = rid, ak_status = ''rejected'', ak_job_id = None,
     ak_position = None, ak_reason = Some reason\<rparr>"

definition rejection_reason :: "string \<Rightarrow> reason_code option" where
  "rejection_reason status = map_of [(''conflict'', RDuplicateConflict), (''quota'', RQuotaExceeded), (''busy'', RBusy)] status"

text \<open>An operation of the workers, in the state that also has \<open>runner_starts\<close>.\<close>

definition on_fst :: "('w, 'a) op \<Rightarrow> ('w \<times> 'b, 'a) op" where
  "on_fst f = (\<lambda>(w, b). case f w of (r, w') \<Rightarrow> (r, (w', b)))"

definition duplicate_answer ::
  "pydantic \<Rightarrow> string \<Rightarrow> service_request \<Rightarrow> (('x, 't) env, service_request option \<times> acknowledgement option \<times> string) op" where
  "duplicate_answer P did q w = (case request_status did (rq_request_id q) (b_store w) of
     None \<Rightarrow> (Inl (RuntimeError ''idempotency state disappeared''), w)
   | Some (_, ack, result) \<Rightarrow> (bindE (parse_text (parse_acknowledgement P) ack) (\<lambda>a.
       Inr (Some q, Some a, if truthy result then ''duplicate_complete'' else ''duplicate_pending'')), w))"

text \<open>The answer to a reserved, repeated or refused request.\<close>

definition answer_request ::
  "crypto \<Rightarrow> pydantic \<Rightarrow> 't target_ops \<Rightarrow> ('x, 't) signer \<Rightarrow> gateway \<Rightarrow> protocol_record \<Rightarrow> service_request \<Rightarrow> string \<Rightarrow>
    (('x, 't) env \<times> int, service_request option \<times> acknowledgement option \<times> string) op" where
  "answer_request C P T sign g r q status =
     ifS (status = ''duplicate'') (on_fst (duplicate_answer P (p_did r) q))
     (case rejection_reason status of
        Some reason \<Rightarrow>
          bindS (on_fst (send_body T sign (''rejection:'' @ p_did r @ '':'' @ rq_request_id q @ '':'' @ reason_text reason)
            ''rosetta-service'' (rq_reply_room q) (ack_dict (rejected_ack (rq_request_id q) reason)))) (\<lambda>_.
          retS (Some q, Some (rejected_ack (rq_request_id q) reason), status))
      | None \<Rightarrow>
          bindS (putS (\<lambda>(w, n). (w, n + 1))) (\<lambda>_.
          bindS (on_fst (send_body T sign (''ack:'' @ p_did r @ '':'' @ rq_request_id q) ''rosetta-service''
            (rq_reply_room q) (ack_dict (accepted_ack C (p_did r) (rq_request_id q))))) (\<lambda>_.
          retS (Some q, Some (accepted_ack C (p_did r) (rq_request_id q)), ''accepted''))))"

definition accept_request ::
  "crypto \<Rightarrow> pydantic \<Rightarrow> 't target_ops \<Rightarrow> ('x, 't) signer \<Rightarrow> gateway \<Rightarrow> protocol_record \<Rightarrow> datetime \<Rightarrow>
    (('x, 't) env \<times> int, service_request option \<times> acknowledgement option \<times> string) op" where
  "accept_request C P T sign g r now =
     bindS (on_fst (gate_require ''service'')) (\<lambda>_.
     ifS (\<not> record_signed C r) (retS (None, None, ''unsigned''))
     (bindS (liftS (read_request P (gw_registry g) (p_text r) now)) (\<lambda>request. case request of
        None \<Rightarrow> retS (None, None, ''invalid'')
      | Some q \<Rightarrow>
      bindS (liftS (canonical_json (service_request_dict q))) (\<lambda>raw.
      bindS (liftS (canonical_text (ack_dict (accepted_ack C (p_did r) (rq_request_id q))))) (\<lambda>ack_text.
      bindS (liftS (canonical_text (service_request_dict q))) (\<lambda>request_text.
      bindS (on_fst (in_store (reserve_request (p_did r) (rq_request_id q) (sha256_hex C raw) ack_text now
        (card_per_did (gw_card g)) (card_global (gw_card g)) (Some request_text) (Some (gw_max_queue g)))))
       (answer_request C P T sign g r q)))))))"

definition make_result ::
  "pydantic \<Rightarrow> gateway \<Rightarrow> service_request \<Rightarrow> string \<Rightarrow> datetime \<Rightarrow> string \<Rightarrow> outcome \<Rightarrow> service_result result" where
  "make_result P g q job now bundle_root oc =
     (let u = gw_base_url g @ ''/reports/'' @ remove_prefix ''sha256:'' bundle_root @ ''/'' in
      check (pyd_url P u) (Inr \<lparr>re_request_id = rq_request_id q, re_job_id = job, re_outcome = oc,
        re_bundle_root = bundle_root, re_report_url = u, re_completed_at = now\<rparr>))"

text \<open>\<open>clock\<close> is the time at which the store writes the result.\<close>

definition complete_request ::
  "pydantic \<Rightarrow> 't target_ops \<Rightarrow> ('x, 't) signer \<Rightarrow> gateway \<Rightarrow> datetime \<Rightarrow> string \<Rightarrow> service_request \<Rightarrow> acknowledgement \<Rightarrow>
    datetime \<Rightarrow> string \<Rightarrow> outcome \<Rightarrow> (('x, 't) env, service_result) op" where
  "complete_request P T sign g clock did q ack now bundle_root oc =
     (case ak_job_id ack of None \<Rightarrow> raiseS (ValueError ''accepted acknowledgement omitted job id'')
      | Some job \<Rightarrow>
        bindS (liftS (make_result P g q job now bundle_root oc)) (\<lambda>result.
        bindS (send_body T sign (''result:'' @ did @ '':'' @ rq_request_id q @ '':'' @ bundle_root) ''rosetta-service''
          (rq_reply_room q) (result_dict result)) (\<lambda>_.
        bindS (liftS (canonical_text (result_dict result))) (\<lambda>result_text.
        bindS (in_store (store_result clock did (rq_request_id q) result_text)) (\<lambda>_. retS result)))))"

definition prior_result :: "pydantic \<Rightarrow> string \<Rightarrow> service_request \<Rightarrow> (('x, 't) env, service_result option) op" where
  "prior_result P did q w = (case request_status did (rq_request_id q) (b_store w) of
     None \<Rightarrow> (Inl (RuntimeError ''idempotency state disappeared''), w)
   | Some (_, _, result) \<Rightarrow> (case result of
        Some s \<Rightarrow> if s = [] then (Inr None, w) else (bindE (parse_text (parse_service_result P) s) (\<lambda>x. Inr (Some x)), w)
      | None \<Rightarrow> (Inr None, w)))"

definition handle_request ::
  "crypto \<Rightarrow> pydantic \<Rightarrow> 't target_ops \<Rightarrow> ('x, 't) signer \<Rightarrow> gateway \<Rightarrow> datetime \<Rightarrow> protocol_record \<Rightarrow> datetime \<Rightarrow>
    string \<Rightarrow> outcome \<Rightarrow> (('x, 't) env \<times> int, acknowledgement option \<times> service_result option) op" where
  "handle_request C P T sign g clock r now bundle_root oc =
     bindS (accept_request C P T sign g r now) (\<lambda>(request, ack, status).
     case (request, ack) of
       (Some q, Some a) \<Rightarrow>
         ifS (status = ''duplicate_complete'')
           (bindS (on_fst (prior_result P (p_did r) q)) (\<lambda>prior. retS (Some a, prior)))
         (ifS (ak_status a = ''rejected'') (retS (Some a, None))
           (bindS (on_fst (complete_request P T sign g clock (p_did r) q a now bundle_root oc)) (\<lambda>result.
            retS (Some a, Some result))))
     | _ \<Rightarrow> retS (None, None))"

section \<open>Sending leaves the requests alone\<close>

text \<open>A signer that does not touch the state store, as the socket client and its guarded form.\<close>

definition keeps_store :: "('x, 't) signer \<Rightarrow> bool" where
  "keeps_store sign = (\<forall>r w. b_store (snd (sign r w)) = b_store w)"

definition rows :: "request_row list \<Rightarrow> 'w base_scheme \<Rightarrow> bool" where
  "rows rs w = (st_requests (b_store w) = rs)"

lemma rows_in_target: "preserves (rows rs) (in_target f)"
  by (auto simp: preserves_def in_target_def rows_def split: prod.splits)

lemma rows_gate: "preserves (rows rs) (gate_require c)"
  by (simp add: preserves_def gate_require_state)

lemma rows_prepare: "preserves (rows rs) (in_store (prepare_delivery k a r d n m g))"
  by (auto simp: preserves_def in_store_def prepare_delivery_def rows_def)

lemma rows_confirm: "preserves (rows rs) (in_store (confirm_delivery k n))"
  by (auto simp: preserves_def in_store_def confirm_delivery_def rows_def split: option.splits)

lemma rows_sign: "keeps_store sign \<Longrightarrow> preserves (rows rs) (sign r)"
  by (simp add: preserves_def keeps_store_def rows_def)

lemmas rows_rules = preserves_intros rows_in_target rows_gate rows_prepare rows_confirm rows_sign

text \<open>A post that failed leads to an error, to another attempt, or to the search for the record.\<close>

lemma preserves_post_attempts:
  fixes I :: "('x, 't) env \<Rightarrow> bool"
  assumes post: "\<And>f :: ('t, protocol_record) op. preserves I (in_target f)"
    and confirm: "\<And>n. preserves I (in_store (confirm_delivery k n))" and settle: "preserves I (settle_uncertain T k d)"
  shows "preserves I (post_attempts T k d n)"
proof (induction n)
  case (Suc n)
  show ?case
  proof (rule preservesI)
    fix w assume w: "I w"
    obtain x w' where p: "in_target (tg_post_signed T (dl_actor d) (dl_room d) (dl_did d) (dl_nonce d) (dl_text d) (dl_signature d)) w = (x, w')"
      by fastforce
    have w': "I w'" using preservesE [OF post p w] .
    have c: "I (snd (bindS (in_store (confirm_delivery k n)) (\<lambda>_. retS r) w'))" for n and r :: protocol_record
      using preserves_bindS [OF confirm preserves_basic(1)] w' by (rule preservesD)
    from w' p c preservesD [OF Suc w'] preservesD [OF settle w'] show "I (snd (post_attempts T k d (Suc n) w))"
      by (auto split: sum.splits exn.splits)
  qed
qed (simp add: preserves_def)

lemma preserves_delivery_bytes:
  fixes I :: "('x, 't) env \<Rightarrow> bool"
  assumes sign: "\<And>q. preserves I (sign q)"
    and prepare: "\<And>did n sig. preserves I (in_store (prepare_delivery k actor room did n msg sig))"
  shows "preserves I (delivery_bytes sign k actor room msg)"
proof -
  have "preserves I (\<lambda>w. (case delivery k (b_store w0) of
     None \<Rightarrow> bindS (sign (message_request actor room msg)) (\<lambda>signed.
       (case sp_nonce signed of
          None \<Rightarrow> raiseS (RuntimeError ''signer omitted message nonce'')
        | Some nonce \<Rightarrow>
          bindS (in_store (prepare_delivery k actor room (sp_did signed) nonce msg (sp_signature signed))) (\<lambda>_.
          retS \<lparr>dl_actor = actor, dl_room = room, dl_did = sp_did signed, dl_nonce = nonce, dl_text = msg,
                dl_signature = sp_signature signed, dl_status = Prepared, dl_sequence = None\<rparr>)))
   | Some d \<Rightarrow> raiseS_if (dl_actor d \<noteq> actor \<or> dl_room d \<noteq> room \<or> dl_text d \<noteq> msg)
       (RuntimeError ''delivery_key_conflict'') (retS d)) w)" for w0 :: "('x, 't) env"
    by (intro preserves_option preserves_bindS preserves_raiseS_if preserves_basic sign prepare)
  then show ?thesis by (simp add: preserves_def delivery_bytes_def option.case_distrib [of "\<lambda>f. f _"] split: option.splits)
qed

lemma preserves_send_text:
  fixes I :: "('x, 't) env \<Rightarrow> bool"
  assumes gate: "\<And>c. preserves I (gate_require c)" and sign: "\<And>q. preserves I (sign q)"
    and prepare: "\<And>did n sig. preserves I (in_store (prepare_delivery k actor room did n msg sig))"
    and confirm: "\<And>n. preserves I (in_store (confirm_delivery k n))"
    and target: "\<And>f :: ('t, protocol_record) op. preserves I (in_target f)"
    and search: "\<And>f :: ('t, protocol_record option) op. preserves I (in_target f)"
  shows "preserves I (send_text T sign k actor room msg)"
proof -
  have settle: "preserves I (settle_uncertain T k d)" for d
    unfolding settle_uncertain_def by (intro preserves_bindS preserves_option preserves_basic search confirm)
  show ?thesis unfolding send_text_def
    by (intro preserves_bindS gate preserves_delivery_bytes sign prepare preserves_if preserves_option preserves_basic
        preserves_post_attempts target confirm settle)
qed

lemma rows_send_text: "keeps_store sign \<Longrightarrow> preserves (rows rs) (send_text T sign k a r m)"
  by (intro preserves_send_text rows_gate rows_sign rows_prepare rows_confirm rows_in_target)

lemma rows_send_body: "keeps_store sign \<Longrightarrow> preserves (rows rs) (send_body T sign k a r b)"
  unfolding send_body_def by (intro rows_rules rows_send_text)

section \<open>Runner starts\<close>

text \<open>
  Since a state with the request keys \<open>ks\<close> and the counter \<open>n0\<close>: the keys have
  been extended, without repetition, by one new key per counted start.
\<close>

definition keys_of :: "('x, 't) env \<Rightarrow> (string \<times> string) list" where
  "keys_of w = map request_key (st_requests (b_store w))"

definition counted :: "(string \<times> string) list \<times> int \<Rightarrow> ('x, 't) env \<times> int \<Rightarrow> bool" where
  "counted d = (\<lambda>(w, n). \<exists>new. keys_of w = fst d @ new \<and> n = snd d + int (length new) \<and> distinct (keys_of w))"

lemma counted_keys:
  fixes f :: "(('x, 't) env, 'a) op"
  assumes "\<And>w. keys_of (snd (f w)) = keys_of w"
  shows "preserves (counted d) (on_fst f)"
proof (rule preservesI)
  fix s :: "('x, 't) env \<times> int" assume s: "counted d s"
  obtain w n where w: "s = (w, n)" by (cases s)
  have "keys_of (snd (f w)) = keys_of w" by (rule assms)
  moreover have "on_fst f s = (fst (f w), (snd (f w), n))" by (simp add: on_fst_def w split: prod.splits)
  ultimately show "counted d (snd (on_fst f s))" using s w by (simp add: counted_def)
qed

lemma counted_rows:
  fixes f :: "(('x, 't) env, 'a) op"
  assumes "\<And>rs. preserves (rows rs) f"
  shows "preserves (counted d) (on_fst f)"
proof (rule counted_keys)
  fix w :: "('x, 't) env"
  have "rows (st_requests (b_store w)) (snd (f w))" by (rule preservesD [OF assms]) (simp add: rows_def)
  then show "keys_of (snd (f w)) = keys_of w" by (simp add: rows_def keys_of_def)
qed

lemma reserve_request_status:
  "reserve_request did rid h ack now l g json depth s = (Inr a, t) \<Longrightarrow>
   a \<in> {''accepted'', ''duplicate'', ''conflict'', ''quota'', ''busy''}"
proof -
  assume r: "reserve_request did rid h ack now l g json depth s = (Inr a, t)"
  show ?thesis
  proof (cases "a = ''accepted''")
    case False
    then have "t = s" using reserve_request_accepted [OF r] by blast
    then show ?thesis using r False by (auto simp: reserve_request_def split: option.splits if_splits)
  qed simp
qed

lemma counted_reserve:
  fixes F :: "string \<Rightarrow> (('x, 't) env \<times> int, 'a) op"
  assumes rejected: "\<And>a. a \<in> {''duplicate'', ''conflict'', ''quota'', ''busy''} \<Longrightarrow> preserves (counted d) (F a)"
    and accepted: "\<And>w n. counted d (w, n + 1) \<Longrightarrow> counted d (snd (F ''accepted'' (w, n)))"
  shows "preserves (counted d) (bindS (on_fst (in_store (reserve_request did rid h ack now l g json depth))) F)"
proof (rule preservesI)
  fix s :: "('x, 't) env \<times> int" assume s: "counted d s"
  obtain w n where w: "s = (w, n)" by (cases s)
  obtain x t where r: "reserve_request did rid h ack now l g json depth (b_store w) = (x, t)"
    by (cases "reserve_request did rid h ack now l g json depth (b_store w)")
  have same: "counted d (w\<lparr>b_store := b_store w\<rparr>, n)" using s w by simp
  show "counted d (snd (bindS (on_fst (in_store (reserve_request did rid h ack now l g json depth))) F s))"
  proof (cases x)
    case (Inl e)
    then have "t = b_store w" using reserve_request_error r by blast
    then show ?thesis using r Inl w s by (simp add: bindS_def on_fst_def in_store_def)
  next
    case (Inr a)
    have F: "bindS (on_fst (in_store (reserve_request did rid h ack now l g json depth))) F s = F a (w\<lparr>b_store := t\<rparr>, n)"
      using r Inr w by (simp add: bindS_def on_fst_def in_store_def)
    show ?thesis
    proof (cases "a = ''accepted''")
      case False
      then have "t = b_store w" "a \<in> {''duplicate'', ''conflict'', ''quota'', ''busy''}"
        using reserve_request_accepted [OF r [unfolded Inr]] reserve_request_status [OF r [unfolded Inr]] by auto
      with preservesD [OF rejected same] show ?thesis unfolding F by simp
    next
      case True
      then obtain day jobs where "find (is_request did rid) (st_requests (b_store w)) = None"
        "t = bump_quotas day did ((insert_request did rid h ack day (b_store w))\<lparr>st_jobs := jobs\<rparr>)"
        using reserve_request_accepted r Inr by blast
      then have "st_requests t = st_requests (b_store w) @
          [\<lparr>sq_did = did, sq_id = rid, sq_hash = h, sq_ack = ack, sq_result = None, sq_day = day\<rparr>]"
        "(did, rid) \<notin> request_key ` set (st_requests (b_store w))"
        by (auto simp: bump_quotas_def insert_request_def find_None_key is_key)
      then have "keys_of (w\<lparr>b_store := t\<rparr>) = keys_of w @ [(did, rid)]" "(did, rid) \<notin> set (keys_of w)"
        by (simp_all add: keys_of_def request_key_def)
      then have "counted d (w\<lparr>b_store := t\<rparr>, n + 1)" using s w by (auto simp: counted_def)
      from accepted [OF this] show ?thesis unfolding F True .
    qed
  qed
qed

lemma duplicate_answer_rows: "preserves (rows rs) (duplicate_answer P did q)"
  by (auto simp: preserves_def duplicate_answer_def split: option.splits)

lemma rejection_reason_accepted: "rejection_reason ''accepted'' = None"
  by (simp add: rejection_reason_def)

lemma rejection_reason_Some:
  "a \<in> {''conflict'', ''quota'', ''busy''} \<Longrightarrow> \<exists>reason. rejection_reason a = Some reason"
  by (auto simp: rejection_reason_def)

lemma counted_answer:
  fixes sign :: "('x, 't) signer"
  assumes s: "keeps_store sign"
  shows "a \<in> {''duplicate'', ''conflict'', ''quota'', ''busy''} \<Longrightarrow> preserves (counted d) (answer_request C P T sign g r q a)"
    and "counted d (w, n + 1) \<Longrightarrow> counted d (snd (answer_request C P T sign g r q ''accepted'' (w, n)))"
proof -
  note send = counted_rows [OF rows_send_body [OF s]]
  assume a: "a \<in> {''duplicate'', ''conflict'', ''quota'', ''busy''}"
  show "preserves (counted d) (answer_request C P T sign g r q a)"
  proof (cases "a = ''duplicate''")
    case True
    then show ?thesis using counted_rows [OF duplicate_answer_rows] by (simp add: answer_request_def)
  next
    case False
    then obtain reason where "rejection_reason a = Some reason" using a rejection_reason_Some by blast
    then show ?thesis using False by (auto simp: answer_request_def intro!: preserves_intros send)
  qed
next
  note send = counted_rows [OF rows_send_body [OF s]]
  assume c: "counted d (w, n + 1)"
  have "preserves (counted d) (bindS (on_fst (send_body T sign (''ack:'' @ p_did r @ '':'' @ rq_request_id q) ''rosetta-service''
            (rq_reply_room q) (ack_dict (accepted_ack C (p_did r) (rq_request_id q))))) (\<lambda>_.
          retS (Some q, Some (accepted_ack C (p_did r) (rq_request_id q)), ''accepted'')))" (is "preserves _ ?m")
    by (intro preserves_intros send)
  from preservesD [OF this c] show "counted d (snd (answer_request C P T sign g r q ''accepted'' (w, n)))"
    by (simp add: answer_request_def rejection_reason_accepted)
qed

lemma counted_accept:
  fixes sign :: "('x, 't) signer"
  assumes s: "keeps_store sign"
  shows "preserves (counted d) (accept_request C P T sign g r now)"
  unfolding accept_request_def
  by (intro preserves_bindS preserves_ifS preserves_option counted_reserve counted_rows rows_gate counted_answer [OF s]
      preserves_basic)

lemma store_result_keys: "keys_of (snd (in_store (store_result clock did rid res) w)) = keys_of w"
proof -
  have "map request_key (st_requests (snd (store_result clock did rid res s))) = map request_key (st_requests s)" for s
    by (auto simp: store_result_def transactionS_def bindS_def liftS_def request_key_def split: sum.splits)
  then show ?thesis by (simp add: keys_of_def in_store_def split: prod.splits) (metis snd_conv)
qed

lemma counted_complete:
  assumes "keeps_store sign"
  shows "preserves (counted d) (on_fst (complete_request P T sign g clock did q ack now root oc))"
proof (rule counted_keys)
  fix w :: "('a, 'b) env"
  let ?I = "\<lambda>u. keys_of u = keys_of w"
  have send: "preserves ?I (send_body T sign k a r b)" for k a r b
  proof (rule preservesI)
    fix u :: "('a, 'b) env" assume u: "keys_of u = keys_of w"
    have "rows (st_requests (b_store u)) (snd (send_body T sign k a r b u))"
      by (rule preservesD [OF rows_send_body [OF assms]]) (simp add: rows_def)
    then show "keys_of (snd (send_body T sign k a r b u)) = keys_of w" using u by (simp add: rows_def keys_of_def)
  qed
  have store: "preserves ?I (in_store (store_result clock did rid res))" for rid res
    by (simp add: preserves_def store_result_keys)
  have "preserves ?I (complete_request P T sign g clock did q ack now root oc)"
    unfolding complete_request_def by (intro preserves_option preserves_bindS preserves_basic send store)
  from preservesD [OF this] show "keys_of (snd (complete_request P T sign g clock did q ack now root oc w)) = keys_of w" by simp
qed

lemma counted_handle:
  assumes s: "keeps_store sign"
  shows "preserves (counted d) (handle_request C P T sign g clock r now root oc)"
proof -
  have prior: "preserves (rows rs) (prior_result P did q)" for rs did q
    by (auto simp: preserves_def prior_result_def split: option.splits)
  show ?thesis
    unfolding handle_request_def
    by (intro preserves_bindS preserves_prod preserves_option preserves_ifS counted_accept [OF s] counted_complete [OF s]
        counted_rows prior preserves_basic)
qed

section \<open>Properties\<close>

text \<open>A run of the service: one handled record after the other, whatever each of them returns or raises.\<close>

definition serve_all ::
  "crypto \<Rightarrow> pydantic \<Rightarrow> 't target_ops \<Rightarrow> ('x, 't) signer \<Rightarrow> gateway \<Rightarrow>
    (datetime \<times> protocol_record \<times> datetime \<times> string \<times> outcome) list \<Rightarrow> ('x, 't) env \<times> int \<Rightarrow> ('x, 't) env \<times> int" where
  "serve_all C P T sign g events s =
     foldl (\<lambda>s (clock, r, now, root, oc). snd (handle_request C P T sign g clock r now root oc s)) s events"

lemma counted_serve:
  assumes "keeps_store sign"
  shows "counted d s \<Longrightarrow> counted d (serve_all C P T sign g events s)"
proof (induction events arbitrary: s)
  case (Cons e events)
  obtain clock r now root oc where e: "e = (clock, r, now, root, oc)" by (cases e)
  have "counted d (snd (handle_request C P T sign g clock r now root oc s))"
    using preservesD [OF counted_handle [OF assms] Cons.prems] .
  from Cons.IH [OF this] show ?case by (simp add: serve_all_def e)
qed (simp add: serve_all_def)

text \<open>
  C24: Every request starts the runner at most once: over any sequence of handled records, with any answers of
  the target and of the signer and any failures on the way, the runner counter rises by exactly the number of
  new stored requests, and no two stored requests have the same requester and request id.
\<close>

theorem runner_starts_once:
  assumes "keeps_store sign" "distinct (keys_of w)" "serve_all C P T sign g events (w, n) = (w', n')"
  shows "\<exists>new. keys_of w' = keys_of w @ new \<and> n' = n + int (length new) \<and> distinct (keys_of w @ new)"
proof -
  have "counted (keys_of w, n) (w, n)" using assms(2) by (auto simp: counted_def)
  from counted_serve [OF assms(1) this, of C P T g events] assms(3) show ?thesis by (auto simp: counted_def)
qed

lemma in_signer_keeps_store: "keeps_store (\<lambda>r. in_signer (f r))"
  by (auto simp: keeps_store_def in_signer_def split: prod.splits)

definition demo_gateway :: gateway where
  "demo_gateway = make_gateway [] \<lparr>card_did = ''did:key:z'', card_service_room = ''d-rosetta'', card_request_mailbox = ''mb-rosetta'',
     card_protocol_baseline = ''v0.14.5'', card_scenarios = [], card_profiles = [], card_schema_url = [], card_report_base_url = [],
     card_per_did = 2, card_global = 8, card_status = ''available'', card_updated_at = demo_now, card_valid_until = demo_now\<rparr>
     [] ''https://rosetta.example'' 4"

lemma runner_starts_once_witness:
  "\<exists>w' n'. serve_all demo_crypto strict_pydantic (local_ops demo_crypto) (\<lambda>r. in_signer (handle demo_crypto (identity.make [] []) r))
       demo_gateway [(demo_now, make_record 1 ''mb-rosetta'' ''did:key:z'' 1 ''{}'' [], demo_now, ''sha256:0'', OPass)]
       (\<lparr>b_store = empty_store, b_kill = False, e_signer = empty_nonce_store, e_target = new_local\<rparr>, 5) = (w', n')
     \<and> distinct (keys_of w') \<and> n' = 5 + int (length (keys_of w'))"
proof -
  let ?w = "\<lparr>b_store = empty_store, b_kill = False, e_signer = empty_nonce_store, e_target = new_local\<rparr>"
  let ?s = "serve_all demo_crypto strict_pydantic (local_ops demo_crypto) (\<lambda>r. in_signer (handle demo_crypto (identity.make [] []) r))
       demo_gateway [(demo_now, make_record 1 ''mb-rosetta'' ''did:key:z'' 1 ''{}'' [], demo_now, ''sha256:0'', OPass)] (?w, 5)"
  obtain w' n' where e: "?s = (w', n')" by (cases ?s)
  have k: "keys_of ?w = []" by (simp add: keys_of_def empty_store_def)
  from runner_starts_once [OF in_signer_keeps_store _ e] k e show ?thesis by auto
qed

lemma accepted_ack_text: "\<exists>x. canonical_text (ack_dict (accepted_ack C did rid)) = Inr x"
proof -
  have r: "reject_noncanonical_numbers (ack_dict (accepted_ack C did rid)) = Inr ()"
    by (simp add: ack_dict_def accepted_ack_def opt_str_def opt_int_def)
  have "plain (ack_dict (accepted_ack C did rid))" by (simp add: ack_dict_def accepted_ack_def)
  from plain_dumps [OF this, of False] r show ?thesis by (auto simp: canonical_text_def canonical_json_def)
qed

lemma canonical_bytes_text: "canonical_json v = Inr raw \<Longrightarrow> \<exists>x. canonical_text v = Inr x"
  by (auto simp: canonical_text_def canonical_json_Inr)

lemma repeated_request_answer:
  assumes "\<not> b_kill w" "\<not> component_quarantined ''service'' (b_store w)" "record_signed C r"
    and "read_request P (gw_registry g) (p_text r) now = Inr (Some q)" "canonical_json (service_request_dict q) = Inr raw"
    and "succeeds (utc_day now)" "find (is_request (p_did r) (rq_request_id q)) (st_requests (b_store w)) = Some e"
    and "sq_hash e = sha256_hex C raw" "parse_text (parse_acknowledgement P) (sq_ack e) = Inr a"
  shows "accept_request C P T sign g r now (w, n) =
      (Inr (Some q, Some a, if truthy (sq_result e) then ''duplicate_complete'' else ''duplicate_pending''), (w, n))"
proof -
  have gate: "on_fst (gate_require ''service'') (w, n) = (Inr (), (w, n))"
    by (simp only: on_fst_def prod.case gate_require_open [OF assms(1,2)])
  obtain x y where xy: "canonical_text (ack_dict (accepted_ack C (p_did r) (rq_request_id q))) = Inr x"
    "canonical_text (service_request_dict q) = Inr y" using accepted_ack_text canonical_bytes_text [OF assms(5)] by metis
  obtain day where day: "utc_day now = Inr day" using assms(6) by (auto simp: succeeds_iff)
  have res: "reserve_request (p_did r) (rq_request_id q) (sha256_hex C raw) x now l gl j dp (b_store w) = (Inr ''duplicate'', b_store w)"
    for l gl j dp using day assms(7,8) by (simp add: reserve_request_def transactionS_def)
  have res': "on_fst (in_store (reserve_request (p_did r) (rq_request_id q) (sha256_hex C raw) x now l gl j dp)) (w, n)
      = (Inr ''duplicate'', (w, n))" for l gl j dp by (simp add: on_fst_def in_store_def res)
  have ans: "answer_request C P T sign g r q ''duplicate'' (w, n) =
      (Inr (Some q, Some a, if truthy (sq_result e) then ''duplicate_complete'' else ''duplicate_pending''), (w, n))"
    using assms(7,9) by (simp add: answer_request_def on_fst_def duplicate_answer_def request_status_def)
  show ?thesis
    unfolding accept_request_def
    by (simp only: bindS_def gate assms(3,4,5) xy res' ans op_simps prod.case sum.case option.case ifS_simps not_True_eq_False)
qed

lemma ignored_record:
  assumes "\<not> b_kill w" "\<not> component_quarantined ''service'' (b_store w)"
    and "\<not> record_signed C r \<or> read_request P (gw_registry g) (p_text r) now = Inr None"
  shows "handle_request C P T sign g clock r now root oc (w, n) = (Inr (None, None), (w, n))"
proof -
  have gate: "on_fst (gate_require ''service'') (w, n) = (Inr (), (w, n))"
    by (simp only: on_fst_def prod.case gate_require_open [OF assms(1,2)])
  obtain status where "accept_request C P T sign g r now (w, n) = (Inr (None, None, status), (w, n))"
    using assms(3) gate by (cases "record_signed C r") (simp_all add: accept_request_def bindS_def)
  then show ?thesis by (simp add: handle_request_def bindS_def)
qed

text \<open>
  C25: A repeated request is answered from the store: when the same signed request has been stored before, the
  gateway returns the stored acknowledgement, says whether the result is complete, and changes nothing; no
  message is signed or sent and the runner is not started.  A record that is unsigned or no valid request is
  ignored in the same way.
\<close>

theorem repeated_request_idempotent:
  assumes "\<not> b_kill w" "\<not> component_quarantined ''service'' (b_store w)"
  shows "(record_signed C r \<and> read_request P (gw_registry g) (p_text r) now = Inr (Some q)
      \<and> canonical_json (service_request_dict q) = Inr raw \<and> succeeds (utc_day now)
      \<and> find (is_request (p_did r) (rq_request_id q)) (st_requests (b_store w)) = Some e \<and> sq_hash e = sha256_hex C raw
      \<and> parse_text (parse_acknowledgement P) (sq_ack e) = Inr a
    \<longrightarrow> accept_request C P T sign g r now (w, n) =
      (Inr (Some q, Some a, if truthy (sq_result e) then ''duplicate_complete'' else ''duplicate_pending''), (w, n)))
    \<and> (\<not> record_signed C r \<or> read_request P (gw_registry g) (p_text r) now = Inr None
    \<longrightarrow> handle_request C P T sign g clock r now root oc (w, n) = (Inr (None, None), (w, n)))"
proof (intro conjI impI, elim conjE)
  assume "record_signed C r" "read_request P (gw_registry g) (p_text r) now = Inr (Some q)"
    "canonical_json (service_request_dict q) = Inr raw" "succeeds (utc_day now)"
    "find (is_request (p_did r) (rq_request_id q)) (st_requests (b_store w)) = Some e" "sq_hash e = sha256_hex C raw"
    "parse_text (parse_acknowledgement P) (sq_ack e) = Inr a"
  from repeated_request_answer [OF assms this] show "accept_request C P T sign g r now (w, n) =
      (Inr (Some q, Some a, if truthy (sq_result e) then ''duplicate_complete'' else ''duplicate_pending''), (w, n))" .
next
  assume "\<not> record_signed C r \<or> read_request P (gw_registry g) (p_text r) now = Inr None"
  from ignored_record [OF assms this] show "handle_request C P T sign g clock r now root oc (w, n) = (Inr (None, None), (w, n))" .
qed

text \<open>A stored request for an example; the date parser is a constant one.\<close>

definition dated_pydantic :: pydantic where
  "dated_pydantic = strict_pydantic\<lparr>pyd_datetime := (\<lambda>_. Some (utc_at 63900003600000000))\<rparr>"

definition sample_text :: string where
  "sample_text = (case canonical_text (PDict [(''schema'', PStr ''rosetta.request.v1''), (''request_id'', PStr (replicate 32 CHR ''a'')),
     (''scenario'', PStr ''signed-mailbox-roundtrip-v1''), (''producer'', PStr ''raw-fetch''), (''consumer'', PStr ''python-http''),
     (''target_profile'', PStr ''current''), (''reply_room'', PStr ''mb-client''), (''expires_at'', PStr ''later'')])
     of Inl _ \<Rightarrow> [] | Inr t \<Rightarrow> t)"

definition sample_ack :: string where
  "sample_ack = (case canonical_text (ack_dict (rejected_ack (replicate 32 CHR ''a'') RBusy)) of Inl _ \<Rightarrow> [] | Inr t \<Rightarrow> t)"

definition sample_gateway :: gateway where
  "sample_gateway = demo_gateway\<lparr>gw_registry := [demo_manifest ''raw-fetch'', demo_manifest ''python-http'']\<rparr>"

lemma sample_reads:
  "\<exists>q. read_request dated_pydantic (gw_registry sample_gateway) sample_text demo_now = Inr (Some q) \<and> rq_request_id q = replicate 32 CHR ''a''
     \<and> rq_expires_at q = utc_at 63900003600000000"
proof -
  have "case read_request dated_pydantic (gw_registry sample_gateway) sample_text demo_now of
      Inr (Some q) \<Rightarrow> rq_request_id q = replicate 32 CHR ''a'' \<and> rq_expires_at q = utc_at 63900003600000000 | _ \<Rightarrow> False" by code_simp
  then show ?thesis by (auto split: sum.splits option.splits)
qed

lemma sample_facts:
  "signable sample_text" "\<exists>a. parse_text (parse_acknowledgement dated_pydantic) sample_ack = Inr a" "succeeds (utc_day demo_now)"
proof -
  show "signable sample_text" by code_simp
  have "succeeds (parse_text (parse_acknowledgement dated_pydantic) sample_ack)" by code_simp
  then show "\<exists>a. parse_text (parse_acknowledgement dated_pydantic) sample_ack = Inr a" by (simp add: succeeds_iff)
  show "succeeds (utc_day demo_now)" by (simp add: utc_day_def to_utc_def demo_now_def in_range_def max_wall_def)
qed

lemma sample_canonical:
  assumes "rq_expires_at q = utc_at 63900003600000000"
  shows "\<exists>raw. canonical_json (service_request_dict q) = Inr raw"
proof -
  have "reject_noncanonical_numbers (service_request_dict q) = Inr ()" by (simp add: service_request_dict_def)
  moreover have "succeeds (dumps False (service_request_dict q))"
    by (simp add: service_request_dict_def assms join_dict_def sort_key_simps item_text_def to_utc_def in_range_def max_wall_def)
  ultimately show ?thesis by (auto simp: canonical_json_def succeeds_iff)
qed

lemma demo_signs:
  assumes "signable msg"
  shows "\<exists>(i :: identity) sig. record_signed demo_crypto (make_record 1 ''mb-rosetta'' (id_did i) 1 msg sig)"
proof -
  have "\<exists>i. identity_of_private demo_crypto [] = Inr i"
    by (simp add: identity_of_private_def did_from_public_key_def demo_crypto_def)
  then obtain i where i: "identity_of_private demo_crypto [] = Inr i" by blast
  have room: "''mb-rosetta'' \<noteq> []" "CHR ''|'' \<notin> set ''mb-rosetta''" by simp_all
  obtain resp :: sign_response where "\<forall>seq. record_signed demo_crypto (make_record seq ''mb-rosetta'' (id_did i) 1 msg (sp_signature resp))"
    using handle_message [OF demo_crypto_ok i assms room, of empty_nonce_store 1 "''s''"]
    by (auto simp: current_nonce_def empty_nonce_store_def sqlite_max_def)
  then show ?thesis by blast
qed

lemma repeated_request_idempotent_witness:
  "\<exists>i r w q a. record_signed demo_crypto r \<and> accept_request demo_crypto dated_pydantic (local_ops demo_crypto)
     (\<lambda>r. in_signer (handle demo_crypto i r)) sample_gateway r demo_now (w, 5) = (Inr (Some q, Some a, ''duplicate_pending''), (w, 5))"
proof -
  obtain q where q: "read_request dated_pydantic (gw_registry sample_gateway) sample_text demo_now = Inr (Some q)"
    "rq_expires_at q = utc_at 63900003600000000" using sample_reads by blast
  obtain raw where raw: "canonical_json (service_request_dict q) = Inr raw" using sample_canonical [OF q(2)] by blast
  obtain a where a: "parse_text (parse_acknowledgement dated_pydantic) sample_ack = Inr a" using sample_facts(2) by blast
  obtain i :: identity and sig where s: "record_signed demo_crypto (make_record 1 ''mb-rosetta'' (id_did i) 1 sample_text sig)"
    using demo_signs [OF sample_facts(1)] by blast
  let ?r = "make_record 1 ''mb-rosetta'' (id_did i) 1 sample_text sig"
  let ?e = "\<lparr>sq_did = id_did i, sq_id = rq_request_id q, sq_hash = sha256_hex demo_crypto raw, sq_ack = sample_ack,
      sq_result = None, sq_day = ''3994-11-30''\<rparr>"
  let ?w = "\<lparr>b_store = empty_store\<lparr>st_requests := [?e]\<rparr>, b_kill = False, e_signer = empty_nonce_store, e_target = new_local\<rparr>"
  have k: "\<not> b_kill ?w" "\<not> component_quarantined ''service'' (b_store ?w)"
    by (simp_all add: component_quarantined_def empty_store_def)
  have f: "find (is_request (p_did ?r) (rq_request_id q)) (st_requests (b_store ?w)) = Some ?e" "p_text ?r = sample_text"
    by (simp_all add: is_request_def make_record_def)
  have "accept_request demo_crypto dated_pydantic (local_ops demo_crypto) (\<lambda>r. in_signer (handle demo_crypto i r))
      sample_gateway ?r demo_now (?w, 5) = (Inr (Some q, Some a, ''duplicate_pending''), (?w, 5))"
    using repeated_request_idempotent [OF k, of demo_crypto ?r dated_pydantic sample_gateway demo_now q raw ?e a] s q(1) raw a f sample_facts(3)
    by (simp add: truthy_def)
  then show ?thesis using s by blast
qed

section \<open>An expiry without a time zone\<close>

lemma naive_query_json:
  assumes "naive (dq_expires_at q)"
  shows "canonical_json (discovery_query_dict q) = Inl (ValueError ''naive datetime is not canonical'')"
  using assms
  by (simp add: canonical_json_def discovery_query_dict_def join_dict_def sort_key_simps item_text_def)

text \<open>
  C26: A signed discovery query whose expiry has no time zone is not rejected but raises: it passes the checks
  inside the \<open>try\<close>, its canonical JSON does not exist, and the \<open>ValueError\<close> leaves the handler, which has
  then reserved nothing and sent nothing.
\<close>

theorem naive_expiry_escapes:
  assumes "\<not> b_kill w" "\<not> component_quarantined ''service'' (b_store w)" "record_signed C r"
    and "read_query P (p_text r) now = Inr (Some q)" "naive (dq_expires_at q)"
  shows "handle_discovery C P T sign g r now w = (Inl (ValueError ''naive datetime is not canonical''), w)"
  unfolding handle_discovery_def
  by (simp only: bindS_def gate_require_open [OF assms(1,2)] assms(3,4) naive_query_json [OF assms(5)] op_simps
      prod.case sum.case option.case ifS_simps not_True_eq_False)

definition naive_pydantic :: pydantic where
  "naive_pydantic = strict_pydantic\<lparr>pyd_datetime := (\<lambda>_. Some (DT 63900003600000000 None))\<rparr>"

definition naive_query_text :: string where
  "naive_query_text = (case canonical_text (PDict [(''schema'', PStr ''rosetta.discover.v1''), (''request_id'', PStr ''q1''),
     (''reply_room'', PStr ''mb-client''), (''expires_at'', PStr ''later'')]) of Inl _ \<Rightarrow> [] | Inr t \<Rightarrow> t)"

lemma naive_expiry_escapes_witness:
  "\<exists>i r w. record_signed demo_crypto r \<and> handle_discovery demo_crypto naive_pydantic (local_ops demo_crypto)
     (\<lambda>r. in_signer (handle demo_crypto i r)) demo_gateway r demo_now w = (Inl (ValueError ''naive datetime is not canonical''), w)"
proof -
  have "case read_query naive_pydantic naive_query_text demo_now of Inr (Some q) \<Rightarrow> naive (dq_expires_at q) | _ \<Rightarrow> False" by code_simp
  then obtain q where q: "read_query naive_pydantic naive_query_text demo_now = Inr (Some q)" "naive (dq_expires_at q)"
    by (auto split: sum.splits option.splits)
  have sg: "signable naive_query_text" by code_simp
  then obtain i :: identity and sig where s: "record_signed demo_crypto (make_record 1 ''mb-rosetta'' (id_did i) 1 naive_query_text sig)"
    using demo_signs by blast
  let ?r = "make_record 1 ''mb-rosetta'' (id_did i) 1 naive_query_text sig"
  let ?w = "\<lparr>b_store = empty_store, b_kill = False, e_signer = empty_nonce_store, e_target = new_local\<rparr>"
  have k: "\<not> b_kill ?w" "\<not> component_quarantined ''service'' (b_store ?w)"
    by (simp_all add: component_quarantined_def empty_store_def)
  have t: "read_query naive_pydantic (p_text ?r) demo_now = Inr (Some q)" using q(1) by (simp add: make_record_def)
  from naive_expiry_escapes [OF k s t q(2), of "local_ops demo_crypto" "\<lambda>r. in_signer (handle demo_crypto i r)" demo_gateway] s
  show ?thesis by blast
qed

end
