(* ===== verification/Config.thy ===== *)
theory Config
  imports Service
begin

text \<open>
  \<open>rosetta/pilot_config.py\<close> and \<open>rosetta/config.py\<close>: the closed settings models.
  A model takes a parsed YAML document; its fields are converted leniently by
  pydantic (the parameter \<open>lenient\<close>; values of the declared type pass
  unchanged), its validators and the refusal of unknown fields are written
  out.  A field that is absent takes its default unchecked, and every failure
  inside a model is one \<open>ValidationError\<close>.
\<close>

section \<open>Fields of a settings model\<close>

record lenient =
  len_str :: "pyval \<Rightarrow> string option"
  len_int :: "pyval \<Rightarrow> int option"
  len_bool :: "pyval \<Rightarrow> bool option"
  len_float :: "pyval \<Rightarrow> string option"
  len_list :: "pyval \<Rightarrow> pyval list option"
  len_dict :: "pyval \<Rightarrow> (string \<times> pyval) list option"
  len_equals :: "int \<Rightarrow> string \<Rightarrow> bool"

definition converted :: "'a option \<Rightarrow> 'a result" where
  "converted x = (case x of None \<Rightarrow> invalid | Some a \<Rightarrow> Inr a)"

definition a_str :: "lenient \<Rightarrow> pyval \<Rightarrow> string result" where
  "a_str L v = (case v of PStr s \<Rightarrow> Inr s | PNone \<Rightarrow> invalid | _ \<Rightarrow> converted (len_str L v))"

definition an_int :: "lenient \<Rightarrow> pyval \<Rightarrow> int result" where
  "an_int L v = (case v of PInt i \<Rightarrow> Inr i | PNone \<Rightarrow> invalid | _ \<Rightarrow> converted (len_int L v))"

definition a_bool :: "lenient \<Rightarrow> pyval \<Rightarrow> bool result" where
  "a_bool L v = (case v of PBool b \<Rightarrow> Inr b | PNone \<Rightarrow> invalid | _ \<Rightarrow> converted (len_bool L v))"

definition a_float :: "lenient \<Rightarrow> pyval \<Rightarrow> string result" where
  "a_float L v = (case v of PFloat r \<Rightarrow> Inr r | PNone \<Rightarrow> invalid | _ \<Rightarrow> converted (len_float L v))"

definition a_str_list :: "lenient \<Rightarrow> pyval \<Rightarrow> string list result" where
  "a_str_list L v = bindE (case v of PList vs \<Rightarrow> Inr vs | PNone \<Rightarrow> invalid | _ \<Rightarrow> converted (len_list L v)) (mapE (a_str L))"

text \<open>The fields of a nested model; a key that is no text is an unknown field.\<close>

definition a_dict :: "lenient \<Rightarrow> pyval \<Rightarrow> (string \<times> pyval) list result" where
  "a_dict L v = (case v of PDict kvs \<Rightarrow> Inr kvs | PDictOther _ _ \<Rightarrow> invalid | PNone \<Rightarrow> invalid | _ \<Rightarrow> converted (len_dict L v))"

text \<open>\<open>Literal\<close> compares with \<open>==\<close>: \<open>Literal[1]\<close> and \<open>Literal[True]\<close> both take \<open>True\<close>, 1 and 1.0.\<close>

definition the_text :: "string \<Rightarrow> pyval \<Rightarrow> unit result" where
  "the_text s v = check (v = PStr s) (Inr ())"

definition the_int :: "lenient \<Rightarrow> int \<Rightarrow> pyval \<Rightarrow> unit result" where
  "the_int L n v = check (case v of PInt i \<Rightarrow> i = n | PBool b \<Rightarrow> (if b then 1 else 0) = n | PFloat r \<Rightarrow> len_equals L n r | _ \<Rightarrow> False)
     (Inr ())"

definition field :: "(string \<times> pyval) list \<Rightarrow> string \<Rightarrow> (pyval \<Rightarrow> 'a result) \<Rightarrow> ('a \<Rightarrow> 'a result) \<Rightarrow> 'a result" where
  "field kvs name conv validate = (case map_of kvs name of None \<Rightarrow> invalid | Some v \<Rightarrow> bindE (conv v) validate)"

definition field_or :: "'a \<Rightarrow> (string \<times> pyval) list \<Rightarrow> string \<Rightarrow> (pyval \<Rightarrow> 'a result) \<Rightarrow> ('a \<Rightarrow> 'a result) \<Rightarrow> 'a result" where
  "field_or dflt kvs name conv validate =
     (case map_of kvs name of None \<Rightarrow> Inr dflt | Some v \<Rightarrow> bindE (conv v) validate)"

definition only_keys :: "string list \<Rightarrow> (string \<times> pyval) list \<Rightarrow> bool" where
  "only_keys names kvs = list_all (\<lambda>(k, _). k \<in> set names) kvs"

definition within :: "int \<Rightarrow> int \<Rightarrow> int \<Rightarrow> int result" where
  "within lo hi i = check (lo \<le> i \<and> i \<le> hi) (Inr i)"

text \<open>\<open>urlparse\<close> may raise \<open>ValueError\<close>, which pydantic turns into a failed check.\<close>

definition parsed_url :: "(url \<Rightarrow> bool) \<Rightarrow> string \<Rightarrow> string result" where
  "parsed_url ok s = (case urlparse s of Inl _ \<Rightarrow> invalid | Inr u \<Rightarrow> check (ok u) (Inr (rstrip_char CHR ''/'' s)))"

definition absolute_path :: "string \<Rightarrow> string result" where
  "absolute_path p = check (starts_with ''/'' p) (Inr p)"

section \<open>The pilot settings\<close>

record pilot_technocore =
  pt_authority :: string
  pt_fetch :: string
  pt_rooms :: "string list"
  pt_timeout :: int
  pt_max_bytes :: int

definition public_tls_origin :: "url \<Rightarrow> bool" where
  "public_tls_origin u = (u_scheme u = ''https'' \<and> u_netloc u \<noteq> [] \<and> bare_path u \<and> no_tail u
     \<and> \<not> truthy (fst (user_info u)))"

definition private_fetch_origin :: "url \<Rightarrow> bool" where
  "private_fetch_origin u = (u_scheme u \<in> {''http'', ''https''} \<and> u_netloc u \<noteq> [] \<and> bare_path u \<and> no_tail u
     \<and> \<not> truthy (fst (user_info u))
     \<and> (u_scheme u = ''http'' \<longrightarrow> host_in [''technocore-egress'', ''127.0.0.1'', ''localhost''] u))"

definition reviewed_rooms :: "nat \<Rightarrow> string list \<Rightarrow> string list result" where
  "reviewed_rooms n rooms = check (rooms \<noteq> [] \<and> length rooms \<le> n \<and> distinct rooms \<and> list_all (\<lambda>r. r \<in> {''lobby'', ''meta''}) rooms)
     (Inr rooms)"

definition pilot_technocore_fields :: "string list" where
  "pilot_technocore_fields = [''authority_origin'', ''fetch_origin'', ''pinned_release'', ''discovery_rooms'',
     ''request_timeout_seconds'', ''max_response_bytes'']"

definition parse_pilot_technocore :: "lenient \<Rightarrow> pyval \<Rightarrow> pilot_technocore result" where
  "parse_pilot_technocore L v = bindE (a_dict L v) (\<lambda>kvs. check (only_keys pilot_technocore_fields kvs)
     (bindE (field_or ''https://technocore.chat'' kvs ''authority_origin'' (a_str L) (parsed_url public_tls_origin)) (\<lambda>a.
      bindE (field_or ''http://technocore-egress:8082'' kvs ''fetch_origin'' (a_str L) (parsed_url private_fetch_origin)) (\<lambda>f.
      bindE (field_or () kvs ''pinned_release'' (the_text ''v0.14.5'') Inr) (\<lambda>_.
      bindE (field_or [''lobby'', ''meta''] kvs ''discovery_rooms'' (a_str_list L) (reviewed_rooms 4)) (\<lambda>rs.
      bindE (field_or 20 kvs ''request_timeout_seconds'' (an_int L) (within 2 30)) (\<lambda>t.
      bindE (field_or 1048576 kvs ''max_response_bytes'' (an_int L) (within 1024 4194304)) (\<lambda>m.
      Inr \<lparr>pt_authority = a, pt_fetch = f, pt_rooms = rs, pt_timeout = t, pt_max_bytes = m\<rparr>))))))))"

record pilot_identity =
  pi_did :: string
  pi_socket :: string

definition valid_did :: "string \<Rightarrow> string result" where
  "valid_did s = (case public_key_from_did s of Inl _ \<Rightarrow> invalid | Inr _ \<Rightarrow> Inr s)"

definition parse_pilot_identity :: "lenient \<Rightarrow> pyval \<Rightarrow> pilot_identity result" where
  "parse_pilot_identity L v = bindE (a_dict L v) (\<lambda>kvs. check (only_keys [''public_did'', ''signer_socket''] kvs)
     (bindE (field kvs ''public_did'' (a_str L) valid_did) (\<lambda>d.
      bindE (field_or ''/run/rosetta-signer/signer.sock'' kvs ''signer_socket'' (a_str L) absolute_path) (\<lambda>p.
      Inr \<lparr>pi_did = d, pi_socket = p\<rparr>))))"

record pilot_service =
  ps_enabled :: bool
  ps_base_url :: string
  ps_state_dir :: string
  ps_spool_dir :: string
  ps_static_root :: string
  ps_kill_file :: string
  ps_poll_seconds :: int
  ps_per_did :: int
  ps_external :: int
  ps_queue :: int
  ps_budget :: int

definition public_https_base :: "url \<Rightarrow> bool" where
  "public_https_base u = (u_scheme u = ''https'' \<and> u_netloc u \<noteq> [] \<and> bare_path u \<and> no_tail u \<and> no_credentials u)"

definition pilot_service_fields :: "string list" where
  "pilot_service_fields = [''enabled'', ''public_base_url'', ''state_directory'', ''spool_directory'', ''static_root'',
     ''kill_switch_file'', ''poll_seconds'', ''max_requests_per_did_per_day'', ''max_external_jobs_per_day'',
     ''max_queue_depth'', ''max_parallel_runners'', ''monthly_budget_cents'']"

definition parse_pilot_service :: "lenient \<Rightarrow> pyval \<Rightarrow> pilot_service result" where
  "parse_pilot_service L v = bindE (a_dict L v) (\<lambda>kvs. check (only_keys pilot_service_fields kvs)
     (bindE (field_or False kvs ''enabled'' (a_bool L) Inr) (\<lambda>en.
      bindE (field kvs ''public_base_url'' (a_str L) (parsed_url public_https_base)) (\<lambda>base_url.
      bindE (field_or ''/var/lib/rosetta/pilot'' kvs ''state_directory'' (a_str L) absolute_path) (\<lambda>st.
      bindE (field_or ''/var/lib/rosetta/publish-spool'' kvs ''spool_directory'' (a_str L) absolute_path) (\<lambda>sp.
      bindE (field_or ''/srv/rosetta-static'' kvs ''static_root'' (a_str L) absolute_path) (\<lambda>sr.
      bindE (field_or ''/var/lib/rosetta/state/KILL_SWITCH'' kvs ''kill_switch_file'' (a_str L) absolute_path) (\<lambda>ks.
      bindE (field_or 10 kvs ''poll_seconds'' (an_int L) (within 5 300)) (\<lambda>poll.
      bindE (field_or 2 kvs ''max_requests_per_did_per_day'' (an_int L) (within 1 2)) (\<lambda>per_did.
      bindE (field_or 8 kvs ''max_external_jobs_per_day'' (an_int L) (within 1 8)) (\<lambda>ext.
      bindE (field_or 16 kvs ''max_queue_depth'' (an_int L) (within 1 16)) (\<lambda>queue.
      bindE (field_or () kvs ''max_parallel_runners'' (the_int L 1) Inr) (\<lambda>_.
      bindE (field_or 4000 kvs ''monthly_budget_cents'' (an_int L) (within 0 4000)) (\<lambda>budget.
      Inr \<lparr>ps_enabled = en, ps_base_url = base_url, ps_state_dir = st, ps_spool_dir = sp, ps_static_root = sr,
           ps_kill_file = ks, ps_poll_seconds = poll, ps_per_did = per_did, ps_external = ext, ps_queue = queue,
           ps_budget = budget\<rparr>))))))))))))))"

record pilot_engagement =
  pg_enabled :: bool
  pg_rooms :: "string list"
  pg_replies :: int
  pg_cooldown :: int
  pg_proactive :: bool

definition no_engagement :: pilot_engagement where
  "no_engagement = \<lparr>pg_enabled = False, pg_rooms = [''lobby'', ''meta''], pg_replies = 2, pg_cooldown = 12, pg_proactive = False\<rparr>"

definition pilot_engagement_fields :: "string list" where
  "pilot_engagement_fields = [''enabled'', ''rooms'', ''max_replies_per_day'', ''room_cooldown_hours'', ''proactive_enabled'',
     ''proactive_campaign_days'', ''max_proactive_posts_per_room_per_day'', ''proactive_min_interval_hours'']"

definition parse_pilot_engagement :: "lenient \<Rightarrow> pyval \<Rightarrow> pilot_engagement result" where
  "parse_pilot_engagement L v = bindE (a_dict L v) (\<lambda>kvs. check (only_keys pilot_engagement_fields kvs)
     (bindE (field_or False kvs ''enabled'' (a_bool L) Inr) (\<lambda>en.
      bindE (field_or [''lobby'', ''meta''] kvs ''rooms'' (a_str_list L) (reviewed_rooms 2)) (\<lambda>rs.
      bindE (field_or 2 kvs ''max_replies_per_day'' (an_int L) (within 1 2)) (\<lambda>replies.
      bindE (field_or 12 kvs ''room_cooldown_hours'' (an_int L) (within 12 168)) (\<lambda>cooldown.
      bindE (field_or False kvs ''proactive_enabled'' (a_bool L) Inr) (\<lambda>pro.
      bindE (field_or () kvs ''proactive_campaign_days'' (the_int L 7) Inr) (\<lambda>_.
      bindE (field_or () kvs ''max_proactive_posts_per_room_per_day'' (the_int L 4) Inr) (\<lambda>_.
      bindE (field_or () kvs ''proactive_min_interval_hours'' (the_int L 4) Inr) (\<lambda>_.
      Inr \<lparr>pg_enabled = en, pg_rooms = rs, pg_replies = replies, pg_cooldown = cooldown, pg_proactive = pro\<rparr>))))))))))"

record pilot_config =
  pc_technocore :: pilot_technocore
  pc_identity :: pilot_identity
  pc_service :: pilot_service
  pc_engagement :: pilot_engagement

definition one_identity_and_no_llm :: "crypto \<Rightarrow> pilot_config \<Rightarrow> bool" where
  "one_identity_and_no_llm C c = (let g = pc_engagement c; names = service_names C (pi_did (pc_identity c)) in
     length (fst names) \<le> 48 \<and> length (snd names) \<le> 48 \<and>
     \<not> (pg_proactive g \<and> \<not> pg_enabled g) \<and>
     (pg_enabled g \<longrightarrow> ps_enabled (pc_service c) \<and> list_all (\<lambda>r. r \<in> set (pt_rooms (pc_technocore c))) (pg_rooms g)))"

definition parse_pilot_config :: "crypto \<Rightarrow> lenient \<Rightarrow> pyval \<Rightarrow> pilot_config result" where
  "parse_pilot_config C L v = bindE (a_dict L v) (\<lambda>kvs.
     check (closed_fields [''mode'', ''technocore'', ''identity'', ''service'', ''engagement'', ''model_provider'']
              ''rosetta.pilot-config.v1'' True kvs)
     (bindE (field kvs ''mode'' (the_text ''pilot'') Inr) (\<lambda>_.
      bindE (field kvs ''technocore'' (parse_pilot_technocore L) Inr) (\<lambda>t.
      bindE (field kvs ''identity'' (parse_pilot_identity L) Inr) (\<lambda>i.
      bindE (field kvs ''service'' (parse_pilot_service L) Inr) (\<lambda>s.
      bindE (field_or no_engagement kvs ''engagement'' (parse_pilot_engagement L) Inr) (\<lambda>g.
      bindE (field_or () kvs ''model_provider'' (the_text ''disabled'') Inr) (\<lambda>_.
      let c = \<lparr>pc_technocore = t, pc_identity = i, pc_service = s, pc_engagement = g\<rparr> in
      check (one_identity_and_no_llm C c) (Inr c)))))))))"

definition is_dict :: "pyval \<Rightarrow> bool" where
  "is_dict v = (case v of PDict _ \<Rightarrow> True | PDictOther _ _ \<Rightarrow> True | _ \<Rightarrow> False)"

definition load_pilot_config :: "crypto \<Rightarrow> lenient \<Rightarrow> pyval \<Rightarrow> (string \<times> string) list \<Rightarrow> pilot_config result" where
  "load_pilot_config C L data environ =
     raise_if (\<not> is_dict data) (ValueError ''pilot configuration must be a mapping'')
     (bindE (parse_pilot_config C L data) (\<lambda>c.
      raise_if (ps_enabled (pc_service c) \<and> map_of environ ''ROSETTA_PILOT_ENABLE'' \<noteq> Some ''PUBLIC_WRITES_APPROVED'')
        (ValueError ''enabled pilot requires the explicit runtime activation token'')
      (raise_if (pg_enabled (pc_engagement c)
                 \<and> map_of environ ''ROSETTA_ENGAGEMENT_ENABLE'' \<noteq> Some ''CONTEXTUAL_REPLIES_APPROVED'')
        (ValueError ''engagement requires a separate runtime activation token'')
      (raise_if (pg_proactive (pc_engagement c)
                 \<and> map_of environ ''ROSETTA_PROACTIVE_ENABLE'' \<noteq> Some ''SEVEN_DAY_CAMPAIGN_APPROVED'')
        (ValueError ''proactive campaign requires a separate runtime activation token'')
      (Inr c)))))"

section \<open>The settings of the laboratory\<close>

record technocore_settings =
  ts_base_url :: string
  ts_pinned :: string
  ts_origins :: "string list"
  ts_long_poll :: int
  ts_timeout :: int

definition pinned_release_only :: "string \<Rightarrow> string result" where
  "pinned_release_only s = check (s \<notin> {''main'', ''master'', ''latest''} \<and> starts_with ''v'' s) (Inr s)"

definition settings_origin :: "url \<Rightarrow> bool" where
  "settings_origin u = (u_scheme u \<in> {''http'', ''https''} \<and> u_netloc u \<noteq> [] \<and> bare_path u \<and> no_tail u)"

definition parse_technocore_settings :: "lenient \<Rightarrow> pyval \<Rightarrow> technocore_settings result" where
  "parse_technocore_settings L v = bindE (a_dict L v) (\<lambda>kvs.
     check (only_keys [''base_url'', ''pinned_release'', ''allowed_origins'', ''long_poll_seconds'', ''request_timeout_seconds''] kvs)
     (bindE (field kvs ''base_url'' (a_str L) (parsed_url settings_origin)) (\<lambda>u.
      bindE (field kvs ''pinned_release'' (a_str L) pinned_release_only) (\<lambda>p.
      bindE (field kvs ''allowed_origins'' (a_str_list L) Inr) (\<lambda>os.
      bindE (field_or 10 kvs ''long_poll_seconds'' (an_int L) Inr) (\<lambda>l.
      bindE (field_or 20 kvs ''request_timeout_seconds'' (an_int L) Inr) (\<lambda>t.
      Inr \<lparr>ts_base_url = u, ts_pinned = p, ts_origins = os, ts_long_poll = l, ts_timeout = t\<rparr>)))))))"

record rosetta_settings =
  rs_scenarios :: "string list"
  rs_max_runs :: int
  rs_max_parallel :: int

definition parse_rosetta_settings :: "lenient \<Rightarrow> pyval \<Rightarrow> rosetta_settings result" where
  "parse_rosetta_settings L v = bindE (a_dict L v) (\<lambda>kvs.
     check (only_keys [''scenario_allowlist'', ''max_runs_per_day'', ''max_parallel_runners''] kvs)
     (bindE (field kvs ''scenario_allowlist'' (a_str_list L) Inr) (\<lambda>s.
      bindE (field_or 4 kvs ''max_runs_per_day'' (an_int L) Inr) (\<lambda>r.
      bindE (field_or 2 kvs ''max_parallel_runners'' (an_int L) Inr) (\<lambda>p.
      Inr \<lparr>rs_scenarios = s, rs_max_runs = r, rs_max_parallel = p\<rparr>)))))"

record adapter_settings =
  as_registry_file :: string
  as_required :: "string list"

definition parse_adapter_settings :: "lenient \<Rightarrow> pyval \<Rightarrow> adapter_settings result" where
  "parse_adapter_settings L v = bindE (a_dict L v) (\<lambda>kvs.
     check (only_keys [''registry_file'', ''required_mvp_adapters''] kvs)
     (bindE (field kvs ''registry_file'' (a_str L) Inr) (\<lambda>f.
      bindE (field kvs ''required_mvp_adapters'' (a_str_list L) Inr) (\<lambda>r.
      Inr \<lparr>as_registry_file = f, as_required = r\<rparr>))))"

record runner_settings =
  rn_memory :: int
  rn_cpu_quota :: string
  rn_timeout :: int

definition runner_fields :: "string list" where
  "runner_fields = [''backend'', ''network_policy'', ''read_only_root'', ''run_as_non_root'', ''memory_mb'', ''cpu_quota'',
     ''timeout_seconds'', ''allow_host_mounts'', ''allow_docker_socket'', ''allow_secrets'']"

definition parse_runner_settings :: "lenient \<Rightarrow> pyval \<Rightarrow> runner_settings result" where
  "parse_runner_settings L v = bindE (a_dict L v) (\<lambda>kvs. check (only_keys runner_fields kvs)
     (bindE (field kvs ''backend'' (the_text ''container'') Inr) (\<lambda>_.
      bindE (field kvs ''network_policy'' (the_text ''local_technocore_only'') Inr) (\<lambda>_.
      bindE (field kvs ''read_only_root'' (the_int L 1) Inr) (\<lambda>_.
      bindE (field kvs ''run_as_non_root'' (the_int L 1) Inr) (\<lambda>_.
      bindE (field kvs ''memory_mb'' (an_int L) Inr) (\<lambda>m.
      bindE (field kvs ''cpu_quota'' (a_float L) Inr) (\<lambda>q.
      bindE (field kvs ''timeout_seconds'' (an_int L) Inr) (\<lambda>t.
      bindE (field kvs ''allow_host_mounts'' (the_int L 0) Inr) (\<lambda>_.
      bindE (field kvs ''allow_docker_socket'' (the_int L 0) Inr) (\<lambda>_.
      bindE (field kvs ''allow_secrets'' (the_int L 0) Inr) (\<lambda>_.
      Inr \<lparr>rn_memory = m, rn_cpu_quota = q, rn_timeout = t\<rparr>))))))))))))"

definition parse_discovery_settings :: "lenient \<Rightarrow> pyval \<Rightarrow> bool result" where
  "parse_discovery_settings L v = bindE (a_dict L v) (\<lambda>kvs. check (only_keys [''enabled''] kvs)
     (field_or False kvs ''enabled'' (a_bool L) Inr))"

record service_settings =
  ss_enabled :: bool
  ss_per_did :: int
  ss_external :: int
  ss_queue :: int
  ss_expiry_hours :: int

definition parse_service_settings :: "lenient \<Rightarrow> pyval \<Rightarrow> service_settings result" where
  "parse_service_settings L v = bindE (a_dict L v) (\<lambda>kvs.
     check (only_keys [''enabled'', ''max_requests_per_did_per_day'', ''max_external_jobs_per_day'', ''max_queue_depth'',
              ''max_request_expiry_hours''] kvs)
     (bindE (field_or False kvs ''enabled'' (a_bool L) Inr) (\<lambda>en.
      bindE (field_or 2 kvs ''max_requests_per_did_per_day'' (an_int L) Inr) (\<lambda>d.
      bindE (field_or 8 kvs ''max_external_jobs_per_day'' (an_int L) Inr) (\<lambda>e.
      bindE (field_or 16 kvs ''max_queue_depth'' (an_int L) Inr) (\<lambda>q.
      bindE (field_or 24 kvs ''max_request_expiry_hours'' (an_int L) Inr) (\<lambda>h.
      Inr \<lparr>ss_enabled = en, ss_per_did = d, ss_external = e, ss_queue = q, ss_expiry_hours = h\<rparr>)))))))"

definition parse_model_settings :: "lenient \<Rightarrow> pyval \<Rightarrow> unit result" where
  "parse_model_settings L v = bindE (a_dict L v) (\<lambda>kvs. check (only_keys [''provider''] kvs)
     (field_or () kvs ''provider'' (the_text ''disabled'') Inr))"

definition parse_publisher_settings :: "lenient \<Rightarrow> pyval \<Rightarrow> unit result" where
  "parse_publisher_settings L v = bindE (a_dict L v) (\<lambda>kvs. check (only_keys [''enabled''] kvs)
     (field_or () kvs ''enabled'' (the_int L 0) Inr))"

record operations_settings =
  os_kill_file :: string
  os_error_limit :: int
  os_budget_eur :: int

definition parse_operations_settings :: "lenient \<Rightarrow> pyval \<Rightarrow> operations_settings result" where
  "parse_operations_settings L v = bindE (a_dict L v) (\<lambda>kvs.
     check (only_keys [''kill_switch_file'', ''fail_read_only_after_errors'', ''monthly_total_budget_eur''] kvs)
     (bindE (field kvs ''kill_switch_file'' (a_str L) Inr) (\<lambda>f.
      bindE (field_or 3 kvs ''fail_read_only_after_errors'' (an_int L) Inr) (\<lambda>e.
      bindE (field_or 40 kvs ''monthly_total_budget_eur'' (an_int L) Inr) (\<lambda>b.
      Inr \<lparr>os_kill_file = f, os_error_limit = e, os_budget_eur = b\<rparr>)))))"

record observer_settings =
  ob_enabled :: bool
  ob_fetch :: string
  ob_interval :: int
  ob_max_bytes :: int
  ob_state_dir :: string
  ob_evidence_dir :: string

definition no_observer :: observer_settings where
  "no_observer = \<lparr>ob_enabled = False, ob_fetch = ''http://egress-proxy:8081'', ob_interval = 300, ob_max_bytes = 1048576,
     ob_state_dir = ''/var/lib/rosetta/state'', ob_evidence_dir = ''/var/lib/rosetta/evidence''\<rparr>"

definition fixed_fetch_origin :: "url \<Rightarrow> bool" where
  "fixed_fetch_origin u = (settings_origin u
     \<and> (u_scheme u = ''http'' \<longrightarrow> host_in [''egress-proxy'', ''localhost'', ''127.0.0.1''] u))"

definition parse_observer_settings :: "lenient \<Rightarrow> pyval \<Rightarrow> observer_settings result" where
  "parse_observer_settings L v = bindE (a_dict L v) (\<lambda>kvs.
     check (only_keys [''enabled'', ''fetch_base_url'', ''interval_seconds'', ''max_response_bytes'', ''state_directory'',
              ''evidence_directory''] kvs)
     (bindE (field_or False kvs ''enabled'' (a_bool L) Inr) (\<lambda>en.
      bindE (field_or (ob_fetch no_observer) kvs ''fetch_base_url'' (a_str L) (parsed_url fixed_fetch_origin)) (\<lambda>u.
      bindE (field_or 300 kvs ''interval_seconds'' (an_int L) (within 60 86400)) (\<lambda>i.
      bindE (field_or 1048576 kvs ''max_response_bytes'' (an_int L) (within 1024 4194304)) (\<lambda>m.
      bindE (field_or (ob_state_dir no_observer) kvs ''state_directory'' (a_str L) absolute_path) (\<lambda>st.
      bindE (field_or (ob_evidence_dir no_observer) kvs ''evidence_directory'' (a_str L) absolute_path) (\<lambda>ev.
      Inr \<lparr>ob_enabled = en, ob_fetch = u, ob_interval = i, ob_max_bytes = m, ob_state_dir = st, ob_evidence_dir = ev\<rparr>))))))))"

record app_config =
  ac_technocore :: technocore_settings
  ac_rosetta :: rosetta_settings
  ac_adapters :: adapter_settings
  ac_runners :: runner_settings
  ac_discovery :: bool
  ac_service :: service_settings
  ac_operations :: operations_settings
  ac_observer :: observer_settings

definition origin_is_allowlisted :: "technocore_settings \<Rightarrow> technocore_settings result" where
  "origin_is_allowlisted t = check (ts_base_url t \<in> set (map (rstrip_char CHR ''/'') (ts_origins t))) (Inr t)"

definition observer_is_read_only :: "app_config \<Rightarrow> bool" where
  "observer_is_read_only c = (ob_enabled (ac_observer c) \<longrightarrow>
     starts_with ''https://'' (ts_base_url (ac_technocore c)) \<and> \<not> ac_discovery c \<and> \<not> ss_enabled (ac_service c))"

definition app_sections :: "string list" where
  "app_sections = [''mode'', ''technocore'', ''rosetta'', ''adapters'', ''runners'', ''discovery'', ''service'', ''model'',
     ''publisher'', ''operations'', ''observer'']"

definition parse_app_config :: "lenient \<Rightarrow> pyval \<Rightarrow> app_config result" where
  "parse_app_config L v = bindE (a_dict L v) (\<lambda>kvs. check (only_keys app_sections kvs)
     (bindE (field_or () kvs ''mode'' (the_text ''dry_run'') Inr) (\<lambda>_.
      bindE (field kvs ''technocore'' (parse_technocore_settings L) origin_is_allowlisted) (\<lambda>t.
      bindE (field kvs ''rosetta'' (parse_rosetta_settings L) Inr) (\<lambda>r.
      bindE (field kvs ''adapters'' (parse_adapter_settings L) Inr) (\<lambda>a.
      bindE (field kvs ''runners'' (parse_runner_settings L) Inr) (\<lambda>n.
      bindE (field kvs ''discovery'' (parse_discovery_settings L) Inr) (\<lambda>d.
      bindE (field kvs ''service'' (parse_service_settings L) Inr) (\<lambda>s.
      bindE (field kvs ''model'' (parse_model_settings L) Inr) (\<lambda>_.
      bindE (field kvs ''publisher'' (parse_publisher_settings L) Inr) (\<lambda>_.
      bindE (field kvs ''operations'' (parse_operations_settings L) Inr) (\<lambda>p.
      bindE (field_or no_observer kvs ''observer'' (parse_observer_settings L) Inr) (\<lambda>b.
      let c = \<lparr>ac_technocore = t, ac_rosetta = r, ac_adapters = a, ac_runners = n, ac_discovery = d, ac_service = s,
               ac_operations = p, ac_observer = b\<rparr> in
      check (observer_is_read_only c) (Inr c))))))))))))))"

definition load_config :: "lenient \<Rightarrow> pyval \<Rightarrow> (string \<times> string) list \<Rightarrow> app_config result" where
  "load_config L data environ =
     raise_if (\<not> is_dict data) (ValueError ''configuration must be a mapping'')
     (raise_if (map_of environ ''ROSETTA_MODE'' \<notin> {None, Some ''dry_run''}) (ValueError ''local MVP permits dry_run only'')
     (parse_app_config L data))"

section \<open>What a loaded configuration promises\<close>

lemma converted_checks [simp]:
  "check b k = Inr x \<longleftrightarrow> b \<and> k = Inr x"
  "within lo hi i = Inr j \<longleftrightarrow> j = i \<and> lo \<le> i \<and> i \<le> hi"
  "absolute_path p = Inr q \<longleftrightarrow> q = p \<and> starts_with ''/'' p"
  "valid_did s = Inr t \<longleftrightarrow> t = s \<and> succeeds (public_key_from_did s)"
  "reviewed_rooms n rs = Inr ts \<longleftrightarrow> ts = rs \<and> rs \<noteq> [] \<and> length rs \<le> n \<and> distinct rs \<and> set rs \<subseteq> {''lobby'', ''meta''}"
  by (auto simp: check_def invalid_def within_def absolute_path_def valid_did_def reviewed_rooms_def succeeds_iff
      list_all_iff split: sum.splits)

lemma field_or_cases: "field_or d kvs n conv val = Inr x \<Longrightarrow> x = d \<or> (\<exists>y. val y = Inr x)"
  by (auto simp: field_or_def split: option.splits)

lemma field_or_keeps: "field_or d kvs n conv val = Inr x \<Longrightarrow> (\<And>y z. val y = Inr z \<Longrightarrow> Q z) \<Longrightarrow> Q d \<longrightarrow> Q x"
  by (auto simp: field_or_def split: option.splits)

lemma field_or_checked:
  "field_or d kvs n conv (within lo hi) = Inr i \<Longrightarrow> lo \<le> d \<and> d \<le> hi \<longrightarrow> lo \<le> i \<and> i \<le> hi"
  "field_or p kvs n cnv absolute_path = Inr q \<Longrightarrow> starts_with ''/'' p \<longrightarrow> starts_with ''/'' q"
  "field_or rs kvs n cnw (reviewed_rooms m) = Inr ts \<Longrightarrow> rs \<noteq> [] \<and> distinct rs \<and> set rs \<subseteq> {''lobby'', ''meta''}
     \<longrightarrow> ts \<noteq> [] \<and> distinct ts \<and> set ts \<subseteq> {''lobby'', ''meta''}"
  by (erule field_or_keeps, simp)+

lemma field_cases: "field kvs n conv val = Inr x \<Longrightarrow> \<exists>v y. map_of kvs n = Some v \<and> conv v = Inr y \<and> val y = Inr x"
  by (auto simp: field_def invalid_def split: option.splits)

lemma field_or_model: "field_or d kvs n conv Inr = Inr x \<Longrightarrow> x = d \<or> (\<exists>v. conv v = Inr x)"
  by (auto simp: field_or_def split: option.splits)

lemma parsed_url_Inr: "parsed_url ok s = Inr t \<Longrightarrow> \<exists>u. urlparse s = Inr u \<and> ok u \<and> t = rstrip_char CHR ''/'' s"
  by (auto simp: parsed_url_def invalid_def split: sum.splits)

lemma pilot_technocore_bounds:
  "parse_pilot_technocore L v = Inr t \<Longrightarrow> 2 \<le> pt_timeout t \<and> pt_timeout t \<le> 30 \<and> 1024 \<le> pt_max_bytes t \<and> pt_max_bytes t \<le> 4194304
       \<and> pt_rooms t \<noteq> [] \<and> distinct (pt_rooms t) \<and> set (pt_rooms t) \<subseteq> {''lobby'', ''meta''}"
  unfolding parse_pilot_technocore_def
  by (clarsimp, (drule field_or_checked)+, simp add: starts_with_def)

lemma pilot_identity_did: "parse_pilot_identity L v = Inr i \<Longrightarrow> succeeds (public_key_from_did (pi_did i))"
  unfolding parse_pilot_identity_def by (clarsimp, drule field_cases, clarsimp)

lemma pilot_service_bounds:
  "parse_pilot_service L v = Inr s \<Longrightarrow> 5 \<le> ps_poll_seconds s \<and> ps_poll_seconds s \<le> 300 \<and> ps_per_did s \<in> {1..2} \<and> ps_external s \<in> {1..8}
       \<and> ps_queue s \<in> {1..16} \<and> ps_budget s \<in> {0..4000}
       \<and> list_all (starts_with ''/'') [ps_state_dir s, ps_spool_dir s, ps_static_root s, ps_kill_file s]"
  unfolding parse_pilot_service_def
  by (clarsimp, (drule field_or_checked)+, simp add: starts_with_def)

lemma pilot_engagement_bounds:
  "parse_pilot_engagement L v = Inr g \<Longrightarrow> pg_replies g \<in> {1..2} \<and> pg_cooldown g \<in> {12..168} \<and> pg_rooms g \<noteq> [] \<and> distinct (pg_rooms g)
       \<and> set (pg_rooms g) \<subseteq> {''lobby'', ''meta''}"
  unfolding parse_pilot_engagement_def
  by (clarsimp, (drule field_or_checked)+, simp add: starts_with_def)

lemma parse_pilot_config_sections:
  assumes "parse_pilot_config C L data = Inr c"
  shows "\<exists>w. parse_pilot_technocore L w = Inr (pc_technocore c)"
    and "\<exists>w. parse_pilot_identity L w = Inr (pc_identity c)"
    and "\<exists>w. parse_pilot_service L w = Inr (pc_service c)"
    and "pg_replies (pc_engagement c) \<in> {1..2} \<and> pg_cooldown (pc_engagement c) \<in> {12..168} \<and> pg_rooms (pc_engagement c) \<noteq> []
       \<and> distinct (pg_rooms (pc_engagement c)) \<and> set (pg_rooms (pc_engagement c)) \<subseteq> {''lobby'', ''meta''}"
    and "one_identity_and_no_llm C c"
proof -
  from assms obtain kvs t i s g where parts: "field kvs ''technocore'' (parse_pilot_technocore L) Inr = Inr t"
      "field kvs ''identity'' (parse_pilot_identity L) Inr = Inr i" "field kvs ''service'' (parse_pilot_service L) Inr = Inr s"
      "field_or no_engagement kvs ''engagement'' (parse_pilot_engagement L) Inr = Inr g"
    and c: "c = \<lparr>pc_technocore = t, pc_identity = i, pc_service = s, pc_engagement = g\<rparr>" "one_identity_and_no_llm C c"
    unfolding parse_pilot_config_def Let_def by auto
  show "\<exists>w. parse_pilot_technocore L w = Inr (pc_technocore c)" "\<exists>w. parse_pilot_identity L w = Inr (pc_identity c)"
    "\<exists>w. parse_pilot_service L w = Inr (pc_service c)" "one_identity_and_no_llm C c"
    using field_cases [OF parts(1)] field_cases [OF parts(2)] field_cases [OF parts(3)] c by auto
  from field_or_model [OF parts(4)]
  show "pg_replies (pc_engagement c) \<in> {1..2} \<and> pg_cooldown (pc_engagement c) \<in> {12..168} \<and> pg_rooms (pc_engagement c) \<noteq> []
       \<and> distinct (pg_rooms (pc_engagement c)) \<and> set (pg_rooms (pc_engagement c)) \<subseteq> {''lobby'', ''meta''}"
  proof
    assume "g = no_engagement"
    then show ?thesis by (simp add: c no_engagement_def)
  next
    assume "\<exists>v. parse_pilot_engagement L v = Inr g"
    with pilot_engagement_bounds show ?thesis by (auto simp: c)
  qed
qed

text \<open>The origins of a loaded configuration, stated on the text they were read from.\<close>

definition bare_origin :: "(url \<Rightarrow> bool) \<Rightarrow> string \<Rightarrow> bool" where
  "bare_origin ok s = (\<exists>raw u. urlparse raw = Inr u \<and> s = rstrip_char CHR ''/'' raw \<and> u_netloc u \<noteq> [] \<and> u_path u \<in> {[], ''/''}
     \<and> u_query u = [] \<and> u_fragment u = [] \<and> fst (user_info u) \<in> {None, Some []} \<and> ok u)"

definition authority_origin :: "string \<Rightarrow> bool" where
  "authority_origin = bare_origin (\<lambda>u. u_scheme u = ''https'')"

definition fetch_origin :: "string \<Rightarrow> bool" where
  "fetch_origin = bare_origin (\<lambda>u. u_scheme u = ''https''
     \<or> (u_scheme u = ''http'' \<and> hostname u \<in> {Some ''technocore-egress'', Some ''127.0.0.1'', Some ''localhost''}))"

definition public_origin :: "string \<Rightarrow> bool" where
  "public_origin = bare_origin (\<lambda>u. u_scheme u = ''https'' \<and> snd (user_info u) \<in> {None, Some []})"

lemma truthy_iff: "truthy x \<longleftrightarrow> x \<notin> {None, Some []}"
  by (cases x) (auto simp: truthy_def)

lemma parsed_origins:
  "parsed_url public_tls_origin s = Inr t \<Longrightarrow> authority_origin t"
  "parsed_url private_fetch_origin s = Inr t \<Longrightarrow> fetch_origin t"
  "parsed_url public_https_base s = Inr t \<Longrightarrow> public_origin t"
  unfolding authority_origin_def fetch_origin_def public_origin_def bare_origin_def
  by (drule parsed_url_Inr, erule exE, intro exI conjI, (elim conjE, assumption)+,
    auto simp: public_tls_origin_def private_fetch_origin_def public_https_base_def bare_path_def no_tail_def no_credentials_def truthy_iff
      host_in_def split: option.splits)+

lemma default_origins: "authority_origin ''https://technocore.chat''" "fetch_origin ''http://technocore-egress:8082''"
proof -
  have "parsed_url public_tls_origin ''https://technocore.chat'' = Inr ''https://technocore.chat''" by code_simp
  then show "authority_origin ''https://technocore.chat''" by (rule parsed_origins(1))
  have "parsed_url private_fetch_origin ''http://technocore-egress:8082'' = Inr ''http://technocore-egress:8082''" by code_simp
  then show "fetch_origin ''http://technocore-egress:8082''" by (rule parsed_origins(2))
qed

lemma pilot_technocore_origins:
  "parse_pilot_technocore L v = Inr t \<Longrightarrow> authority_origin (pt_authority t) \<and> fetch_origin (pt_fetch t)"
proof -
  assume "parse_pilot_technocore L v = Inr t"
  then obtain kvs where "field_or ''https://technocore.chat'' kvs ''authority_origin'' (a_str L) (parsed_url public_tls_origin) = Inr (pt_authority t)"
    "field_or ''http://technocore-egress:8082'' kvs ''fetch_origin'' (a_str L) (parsed_url private_fetch_origin) = Inr (pt_fetch t)"
    unfolding parse_pilot_technocore_def by auto
  with field_or_keeps [of "''https://technocore.chat''" kvs _ _ "parsed_url public_tls_origin" _ authority_origin]
    field_or_keeps [of "''http://technocore-egress:8082''" kvs _ _ "parsed_url private_fetch_origin" _ fetch_origin]
  show ?thesis using parsed_origins(1,2) default_origins by blast
qed

lemma pilot_service_origin: "parse_pilot_service L v = Inr s \<Longrightarrow> public_origin (ps_base_url s)"
  unfolding parse_pilot_service_def by (auto dest!: field_cases parsed_origins(3))

lemma pilot_identity_socket: "parse_pilot_identity L v = Inr i \<Longrightarrow> starts_with ''/'' (pi_socket i)"
  unfolding parse_pilot_identity_def by (clarsimp, drule field_or_checked(2), simp add: starts_with_def)

text \<open>The settings that are no settings: a field that may be written down with one value only.\<close>

definition one_text :: "(string \<times> pyval) list \<Rightarrow> string \<Rightarrow> string \<Rightarrow> bool" where
  "one_text kvs name s = (map_of kvs name \<in> {None, Some (PStr s)})"

definition one_number :: "lenient \<Rightarrow> (string \<times> pyval) list \<Rightarrow> string \<Rightarrow> int \<Rightarrow> bool" where
  "one_number L kvs name n = (case map_of kvs name of None \<Rightarrow> True | Some v \<Rightarrow>
     (case v of PInt i \<Rightarrow> i = n | PBool b \<Rightarrow> (if b then 1 else 0) = n | PFloat r \<Rightarrow> len_equals L n r | _ \<Rightarrow> False))"

definition section_items :: "lenient \<Rightarrow> (string \<times> pyval) list \<Rightarrow> string \<Rightarrow> (string \<times> pyval) list" where
  "section_items L kvs name = (case map_of kvs name of None \<Rightarrow> [] | Some v \<Rightarrow> (case a_dict L v of Inl _ \<Rightarrow> [] | Inr s \<Rightarrow> s))"

definition schema_read :: "(string \<times> pyval) list \<Rightarrow> string \<Rightarrow> bool" where
  "schema_read kvs s = (map_of kvs ''schema'' = Some (PStr s) \<or> map_of kvs ''schema_'' = Some (PStr s))"

definition literals_kept :: "lenient \<Rightarrow> pyval \<Rightarrow> bool" where
  "literals_kept L data = (\<exists>kvs. data = PDict kvs \<and> schema_read kvs ''rosetta.pilot-config.v1''
     \<and> map_of kvs ''mode'' = Some (PStr ''pilot'') \<and> one_text kvs ''model_provider'' ''disabled''
     \<and> one_text (section_items L kvs ''technocore'') ''pinned_release'' ''v0.14.5''
     \<and> one_number L (section_items L kvs ''service'') ''max_parallel_runners'' 1
     \<and> one_number L (section_items L kvs ''engagement'') ''proactive_campaign_days'' 7
     \<and> one_number L (section_items L kvs ''engagement'') ''max_proactive_posts_per_room_per_day'' 4
     \<and> one_number L (section_items L kvs ''engagement'') ''proactive_min_interval_hours'' 4)"

lemma one_text_field: "field_or () kvs name (the_text s) Inr = Inr u \<Longrightarrow> one_text kvs name s"
  by (auto simp: field_or_def one_text_def the_text_def split: option.splits)

lemma one_number_field: "field_or () kvs name (the_int L n) Inr = Inr u \<Longrightarrow> one_number L kvs name n"
  by (auto simp: field_or_def one_number_def the_int_def split: option.splits pyval.splits)

lemma section_literals:
  "parse_pilot_technocore L v = Inr t \<Longrightarrow> a_dict L v = Inr kvs \<Longrightarrow> one_text kvs ''pinned_release'' ''v0.14.5''"
  "parse_pilot_service L v = Inr s \<Longrightarrow> a_dict L v = Inr kvs \<Longrightarrow> one_number L kvs ''max_parallel_runners'' 1"
  "parse_pilot_engagement L v = Inr g \<Longrightarrow> a_dict L v = Inr kvs \<Longrightarrow> one_number L kvs ''proactive_campaign_days'' 7
     \<and> one_number L kvs ''max_proactive_posts_per_room_per_day'' 4 \<and> one_number L kvs ''proactive_min_interval_hours'' 4"
  unfolding parse_pilot_technocore_def parse_pilot_service_def parse_pilot_engagement_def
  by (auto dest!: one_text_field one_number_field)

lemma section_items_cases:
  "section_items L kvs name = [] \<or> (\<exists>v. map_of kvs name = Some v \<and> a_dict L v = Inr (section_items L kvs name))"
  by (auto simp: section_items_def split: option.split sum.split)

lemma pilot_literals:
  assumes "load_pilot_config C L data environ = Inr c" shows "literals_kept L data"
proof -
  from assms have "is_dict data" and p: "parse_pilot_config C L data = Inr c" by (auto simp: load_pilot_config_def)
  then obtain kvs where d: "data = PDict kvs" by (cases data) (auto simp: is_dict_def parse_pilot_config_def a_dict_def invalid_def)
  with p obtain t i s g u v where f: "closed_fields [''mode'', ''technocore'', ''identity'', ''service'', ''engagement'', ''model_provider'']
        ''rosetta.pilot-config.v1'' True kvs" "field kvs ''mode'' (the_text ''pilot'') Inr = Inr u"
      "field kvs ''technocore'' (parse_pilot_technocore L) Inr = Inr t" "field kvs ''service'' (parse_pilot_service L) Inr = Inr s"
      "field_or no_engagement kvs ''engagement'' (parse_pilot_engagement L) Inr = Inr g" "field_or () kvs ''model_provider'' (the_text ''disabled'') Inr = Inr v"
    unfolding parse_pilot_config_def Let_def by (auto simp: a_dict_def)
  have mode: "map_of kvs ''mode'' = Some (PStr ''pilot'')" using field_cases [OF f(2)] by (auto simp: the_text_def)
  have schema: "schema_read kvs ''rosetta.pilot-config.v1''"
    using f(1) by (auto simp: schema_read_def closed_fields_def schema_field_def split: option.splits)
  have tech: "one_text (section_items L kvs ''technocore'') ''pinned_release'' ''v0.14.5''"
    using section_items_cases [of L kvs "''technocore''"]
  proof
    assume "\<exists>v. map_of kvs ''technocore'' = Some v \<and> a_dict L v = Inr (section_items L kvs ''technocore'')"
    then show ?thesis using field_cases [OF f(3)] section_literals(1) by fastforce
  qed (simp add: one_text_def)
  have serv: "one_number L (section_items L kvs ''service'') ''max_parallel_runners'' 1"
    using section_items_cases [of L kvs "''service''"]
  proof
    assume "\<exists>v. map_of kvs ''service'' = Some v \<and> a_dict L v = Inr (section_items L kvs ''service'')"
    then show ?thesis using field_cases [OF f(4)] section_literals(2) by fastforce
  qed (simp add: one_number_def)
  have eng: "one_number L (section_items L kvs ''engagement'') ''proactive_campaign_days'' 7
      \<and> one_number L (section_items L kvs ''engagement'') ''max_proactive_posts_per_room_per_day'' 4
      \<and> one_number L (section_items L kvs ''engagement'') ''proactive_min_interval_hours'' 4"
    using section_items_cases [of L kvs "''engagement''"]
  proof
    assume "\<exists>v. map_of kvs ''engagement'' = Some v \<and> a_dict L v = Inr (section_items L kvs ''engagement'')"
    then obtain v where v: "map_of kvs ''engagement'' = Some v" "a_dict L v = Inr (section_items L kvs ''engagement'')" by blast
    with f(5) have "parse_pilot_engagement L v = Inr g" by (simp add: field_or_def)
    from section_literals(3) [OF this v(2)] show ?thesis .
  qed (simp add: one_number_def)
  show ?thesis using d mode schema tech serv eng one_text_field [OF f(6)] by (simp add: literals_kept_def)
qed

lemma room_count: "field_or rs kvs n cnw (reviewed_rooms m) = Inr ts \<Longrightarrow> length rs \<le> m \<longrightarrow> length ts \<le> m"
  by (erule field_or_keeps) simp

lemma pilot_technocore_rooms: "parse_pilot_technocore L v = Inr t \<Longrightarrow> length (pt_rooms t) \<le> 4"
  unfolding parse_pilot_technocore_def by (clarsimp, drule room_count, simp)

lemma two_reviewed_rooms: "distinct rs \<Longrightarrow> set rs \<subseteq> {''lobby'', ''meta''} \<Longrightarrow> length rs \<le> 2"
  using card_mono [of "{''lobby'', ''meta''}" "set rs"] by (simp add: distinct_card)

text \<open>
  C32: Whatever document a pilot configuration is read from, a loaded one keeps every reviewed limit: its two
  origins and its public base are bare HTTPS origins (plain HTTP only towards the local egress), its discovery
  rooms are one to four different reviewed rooms, its timeouts, response size, quotas, queue and budget are in
  their ranges, its socket, directories and kill-switch file are absolute paths, its DID is a well-formed
  did:key whose derived names fit the protocol, the settings that may have one value only (the schema, the
  mode, the pinned release, no model provider, one runner, the campaign's length and pace) have it, and the
  pilot, the replies and the campaign act only with their own activation token in the environment and only on
  top of one another.
\<close>

theorem pilot_config_safe:
  assumes loaded: "load_pilot_config C L data environ = Inr c"
  shows "authority_origin (pt_authority (pc_technocore c)) \<and> fetch_origin (pt_fetch (pc_technocore c))
       \<and> public_origin (ps_base_url (pc_service c))
       \<and> 2 \<le> pt_timeout (pc_technocore c) \<and> pt_timeout (pc_technocore c) \<le> 30
       \<and> pt_max_bytes (pc_technocore c) \<in> {1024..4194304}
       \<and> length (pt_rooms (pc_technocore c)) \<in> {1..4} \<and> distinct (pt_rooms (pc_technocore c))
       \<and> set (pt_rooms (pc_technocore c)) \<subseteq> {''lobby'', ''meta''}
       \<and> succeeds (public_key_from_did (pi_did (pc_identity c))) \<and> starts_with ''/'' (pi_socket (pc_identity c))
       \<and> length (fst (service_names C (pi_did (pc_identity c)))) \<le> 48
       \<and> length (snd (service_names C (pi_did (pc_identity c)))) \<le> 48
       \<and> (\<forall>p \<in> {ps_state_dir (pc_service c), ps_spool_dir (pc_service c), ps_static_root (pc_service c),
            ps_kill_file (pc_service c)}. starts_with ''/'' p)
       \<and> ps_poll_seconds (pc_service c) \<in> {5..300} \<and> ps_per_did (pc_service c) \<in> {1..2} \<and> ps_external (pc_service c) \<in> {1..8}
       \<and> ps_queue (pc_service c) \<in> {1..16} \<and> ps_budget (pc_service c) \<in> {0..4000}
       \<and> pg_replies (pc_engagement c) \<in> {1..2} \<and> pg_cooldown (pc_engagement c) \<in> {12..168}
       \<and> length (pg_rooms (pc_engagement c)) \<in> {1..2}
       \<and> distinct (pg_rooms (pc_engagement c)) \<and> set (pg_rooms (pc_engagement c)) \<subseteq> {''lobby'', ''meta''}
       \<and> literals_kept L data
       \<and> (ps_enabled (pc_service c) \<longrightarrow> map_of environ ''ROSETTA_PILOT_ENABLE'' = Some ''PUBLIC_WRITES_APPROVED'')
       \<and> (pg_enabled (pc_engagement c) \<longrightarrow> ps_enabled (pc_service c)
            \<and> map_of environ ''ROSETTA_ENGAGEMENT_ENABLE'' = Some ''CONTEXTUAL_REPLIES_APPROVED''
            \<and> set (pg_rooms (pc_engagement c)) \<subseteq> set (pt_rooms (pc_technocore c)))
       \<and> (pg_proactive (pc_engagement c) \<longrightarrow> pg_enabled (pc_engagement c)
            \<and> map_of environ ''ROSETTA_PROACTIVE_ENABLE'' = Some ''SEVEN_DAY_CAMPAIGN_APPROVED'')"
proof -
  from loaded have parsed: "parse_pilot_config C L data = Inr c"
    and tokens: "\<not> (ps_enabled (pc_service c) \<and> map_of environ ''ROSETTA_PILOT_ENABLE'' \<noteq> Some ''PUBLIC_WRITES_APPROVED'')"
      "\<not> (pg_enabled (pc_engagement c) \<and> map_of environ ''ROSETTA_ENGAGEMENT_ENABLE'' \<noteq> Some ''CONTEXTUAL_REPLIES_APPROVED'')"
      "\<not> (pg_proactive (pc_engagement c) \<and> map_of environ ''ROSETTA_PROACTIVE_ENABLE'' \<noteq> Some ''SEVEN_DAY_CAMPAIGN_APPROVED'')"
    unfolding load_pilot_config_def by auto
  note s = parse_pilot_config_sections [OF parsed]
  from s(1) obtain w where w: "parse_pilot_technocore L w = Inr (pc_technocore c)" ..
  note technocore = pilot_technocore_bounds [OF w] pilot_technocore_origins [OF w] pilot_technocore_rooms [OF w]
  from s(3) obtain w where w: "parse_pilot_service L w = Inr (pc_service c)" ..
  note service = pilot_service_bounds [OF w] pilot_service_origin [OF w]
  from s(2) have identity: "succeeds (public_key_from_did (pi_did (pc_identity c)))" "starts_with ''/'' (pi_socket (pc_identity c))"
    using pilot_identity_did pilot_identity_socket by auto
  note rules = s(5) [unfolded one_identity_and_no_llm_def Let_def list_all_iff]
  have rooms: "length (pt_rooms (pc_technocore c)) \<in> {1..4}" "length (pg_rooms (pc_engagement c)) \<in> {1..2}"
    using technocore s(4) two_reviewed_rooms [of "pg_rooms (pc_engagement c)"] by (auto simp: Suc_le_eq)
  show ?thesis using technocore service identity s(4) rooms pilot_literals [OF loaded] rules tokens by (simp add: subset_iff)
qed

text \<open>
  A configuration of the laboratory that loads is a dry run: its authority is on its own
  list of origins, and an enabled observer excludes every writer.
\<close>

lemma app_config_read_only:
  "load_config L data environ = Inr c \<Longrightarrow>
     map_of environ ''ROSETTA_MODE'' \<in> {None, Some ''dry_run''}
     \<and> (\<exists>origin \<in> set (ts_origins (ac_technocore c)). ts_base_url (ac_technocore c) = rstrip_char CHR ''/'' origin)
     \<and> (ob_enabled (ac_observer c) \<longrightarrow> starts_with ''https://'' (ts_base_url (ac_technocore c)) \<and> \<not> ac_discovery c
          \<and> \<not> ss_enabled (ac_service c))"
  unfolding load_config_def parse_app_config_def Let_def
  apply clarsimp
  apply (drule field_cases, clarsimp simp: origin_is_allowlisted_def observer_is_read_only_def)
  apply (drule field_cases, clarsimp simp: origin_is_allowlisted_def observer_is_read_only_def)
  apply blast
  done

definition demo_lenient :: lenient where
  "demo_lenient = \<lparr>len_str = (\<lambda>_. None), len_int = (\<lambda>_. None), len_bool = (\<lambda>_. None), len_float = (\<lambda>_. None),
     len_list = (\<lambda>_. None), len_dict = (\<lambda>_. None), len_equals = (\<lambda>_ _. False)\<rparr>"

definition demo_pilot_document :: "string \<Rightarrow> pyval" where
  "demo_pilot_document did = PDict [(''schema'', PStr ''rosetta.pilot-config.v1''), (''mode'', PStr ''pilot''),
     (''technocore'', PDict [(''request_timeout_seconds'', PInt 10)]), (''identity'', PDict [(''public_did'', PStr did)]),
     (''service'', PDict [(''enabled'', PBool True), (''public_base_url'', PStr ''https://rosetta.example/'')]),
     (''engagement'', PDict [(''enabled'', PBool True), (''rooms'', PList [PStr ''lobby''])])]"

definition demo_pilot_config :: "string \<Rightarrow> pilot_config" where
  "demo_pilot_config did = \<lparr>
     pc_technocore = \<lparr>pt_authority = ''https://technocore.chat'', pt_fetch = ''http://technocore-egress:8082'',
       pt_rooms = [''lobby'', ''meta''], pt_timeout = 10, pt_max_bytes = 1048576\<rparr>,
     pc_identity = \<lparr>pi_did = did, pi_socket = ''/run/rosetta-signer/signer.sock''\<rparr>,
     pc_service = \<lparr>ps_enabled = True, ps_base_url = ''https://rosetta.example'', ps_state_dir = ''/var/lib/rosetta/pilot'',
       ps_spool_dir = ''/var/lib/rosetta/publish-spool'', ps_static_root = ''/srv/rosetta-static'',
       ps_kill_file = ''/var/lib/rosetta/state/KILL_SWITCH'', ps_poll_seconds = 10, ps_per_did = 2, ps_external = 8,
       ps_queue = 16, ps_budget = 4000\<rparr>,
     pc_engagement = \<lparr>pg_enabled = True, pg_rooms = [''lobby''], pg_replies = 2, pg_cooldown = 12, pg_proactive = False\<rparr>\<rparr>"

lemmas settings_eval = a_dict_def a_str_def an_int_def a_bool_def a_str_list_def the_text_def the_int_def field_def field_or_def
  only_keys_def

lemma demo_origin: "parsed_url public_https_base ''https://rosetta.example/'' = Inr ''https://rosetta.example''"
  by code_simp

lemma demo_pilot_loads:
  assumes "public_key_from_did d = Inr k"
  shows "load_pilot_config demo_crypto demo_lenient (demo_pilot_document d)
     [(''ROSETTA_PILOT_ENABLE'', ''PUBLIC_WRITES_APPROVED''), (''ROSETTA_ENGAGEMENT_ENABLE'', ''CONTEXTUAL_REPLIES_APPROVED'')]
     = Inr (demo_pilot_config d)"
proof -
  have t: "parse_pilot_technocore demo_lenient (PDict [(''request_timeout_seconds'', PInt 10)]) = Inr (pc_technocore (demo_pilot_config d))"
    by (simp add: parse_pilot_technocore_def settings_eval pilot_technocore_fields_def check_def within_def demo_pilot_config_def)
  have i: "parse_pilot_identity demo_lenient (PDict [(''public_did'', PStr d)]) = Inr (pc_identity (demo_pilot_config d))"
    by (simp add: parse_pilot_identity_def settings_eval check_def valid_did_def assms demo_pilot_config_def)
  have s: "parse_pilot_service demo_lenient (PDict [(''enabled'', PBool True), (''public_base_url'', PStr ''https://rosetta.example/'')])
      = Inr (pc_service (demo_pilot_config d))"
    by (simp add: parse_pilot_service_def settings_eval pilot_service_fields_def check_def demo_origin demo_pilot_config_def)
  have g: "parse_pilot_engagement demo_lenient (PDict [(''enabled'', PBool True), (''rooms'', PList [PStr ''lobby''])])
      = Inr (pc_engagement (demo_pilot_config d))"
    by (simp add: parse_pilot_engagement_def settings_eval pilot_engagement_fields_def check_def reviewed_rooms_def demo_pilot_config_def)
  have "parse_pilot_config demo_crypto demo_lenient (demo_pilot_document d) = Inr (demo_pilot_config d)"
    by (simp add: parse_pilot_config_def demo_pilot_document_def a_dict_def field_def field_or_def the_text_def t i s g
        check_def closed_fields_def schema_field_def one_identity_and_no_llm_def service_names_def did_fingerprint_def
        min.coboundedI2 demo_pilot_config_def)
  then show ?thesis
    by (simp add: load_pilot_config_def demo_pilot_document_def is_dict_def) (simp add: demo_pilot_config_def)
qed

lemma pilot_config_safe_witness:
  "\<exists>d c. load_pilot_config demo_crypto demo_lenient (demo_pilot_document d)
     [(''ROSETTA_PILOT_ENABLE'', ''PUBLIC_WRITES_APPROVED''), (''ROSETTA_ENGAGEMENT_ENABLE'', ''CONTEXTUAL_REPLIES_APPROVED'')] = Inr c
     \<and> ps_enabled (pc_service c) \<and> pg_replies (pc_engagement c) \<in> {1..2}"
proof -
  have "\<exists>d. did_from_public_key (replicate 32 CHR ''k'') = Inr d" by (simp add: did_from_public_key_def)
  then obtain d where "did_from_public_key (replicate 32 CHR ''k'') = Inr d" ..
  from demo_pilot_loads [OF public_key_roundtrip [OF this]] pilot_config_safe [OF demo_pilot_loads [OF public_key_roundtrip [OF this]]]
  show ?thesis by (intro exI conjI) (assumption, simp add: demo_pilot_config_def, blast)
qed

end
