(* ===== verification/Files.thy ===== *)
theory Files
  imports Json_Facts "HOL-Library.Product_Lexorder"
begin

text \<open>
  The file system as the program uses it: a tree of files is a list from
  absolute paths to contents, in the order of creation.  A directory is
  there when a file is below it, paths are already resolved (no symbolic
  links), and failures of the disk are left out.  The second part splits the
  text of a file into lines as Python does.
\<close>

section \<open>Trees of files\<close>

type_synonym tree = "(string \<times> bytes) list"

definition inside :: "string \<Rightarrow> string \<Rightarrow> string" where
  "inside d p = d @ CHR ''/'' # p"

definition below :: "string \<Rightarrow> tree \<Rightarrow> tree" where
  "below d t = map (\<lambda>(p, b). (drop (length d + 1) p, b)) (filter (\<lambda>(p, _). starts_with (d @ ''/'') p) t)"

definition is_file :: "string \<Rightarrow> tree \<Rightarrow> bool" where
  "is_file p t = (map_of t p \<noteq> None)"

definition path_exists :: "string \<Rightarrow> tree \<Rightarrow> bool" where
  "path_exists p t = (is_file p t \<or> below p t \<noteq> [])"

definition no_such_file :: exn where
  "no_such_file = OSError ''FileNotFoundError''"

definition read_bytes :: "string \<Rightarrow> tree \<Rightarrow> bytes result" where
  "read_bytes p t = of_option no_such_file (map_of t p)"

definition write_bytes :: "string \<Rightarrow> bytes \<Rightarrow> (tree, unit) op" where
  "write_bytes p b = putS (dict_put p b)"

definition put_files :: "string \<Rightarrow> tree \<Rightarrow> tree \<Rightarrow> tree" where
  "put_files d fs t = foldl (\<lambda>u (p, b). dict_put (inside d p) b u) t fs"

text \<open>\<open>shutil.copytree\<close>, \<open>shutil.rmtree\<close>, and \<open>os.replace\<close> of a directory onto a path that is not there.\<close>

definition copy_tree :: "string \<Rightarrow> string \<Rightarrow> tree \<Rightarrow> tree" where
  "copy_tree src dst t = put_files dst (below src t) t"

definition remove_tree :: "string \<Rightarrow> tree \<Rightarrow> tree" where
  "remove_tree d t = filter (\<lambda>(p, _). \<not> starts_with (d @ ''/'') p) t"

definition move_tree :: "string \<Rightarrow> string \<Rightarrow> tree \<Rightarrow> tree" where
  "move_tree src dst t = remove_tree src (copy_tree src dst t)"

text \<open>\<open>d in p.parents\<close>\<close>

definition within_dir :: "string \<Rightarrow> string \<Rightarrow> bool" where
  "within_dir d p = starts_with (d @ ''/'') p"

text \<open>The parts of a relative path, its normal form and its last part.\<close>

definition path_parts :: "string \<Rightarrow> string list" where
  "path_parts p = filter (\<lambda>c. c \<noteq> [] \<and> c \<noteq> ''.'') (split_on CHR ''/'' p)"

definition normal_path :: "string \<Rightarrow> string" where
  "normal_path p = join ''/'' (path_parts p)"

definition path_name :: "string \<Rightarrow> string" where
  "path_name p = last (split_on CHR ''/'' p)"

text \<open>\<open>sorted(path.rglob("*"))\<close>: paths compare part by part.\<close>

definition sorted_files :: "tree \<Rightarrow> tree" where
  "sorted_files fs = sort_key (\<lambda>(p, _). split_on CHR ''/'' p) fs"

section \<open>Lines\<close>

fun universal_newlines :: "string \<Rightarrow> string" where
  "universal_newlines [] = []"
| "universal_newlines [c] = [if c = CHR 0x0D then CHR 0x0A else c]"
| "universal_newlines (c # d # s) = (if c = CHR 0x0D
     then CHR 0x0A # universal_newlines (if d = CHR 0x0A then s else d # s)
     else c # universal_newlines (d # s))"

definition line_break :: "char \<Rightarrow> bool" where
  "line_break c = (code c \<in> {10, 11, 12, 13, 28, 29, 30, 133})"

text \<open>\<open>str.splitlines()\<close> after the translation of newlines.\<close>

fun split_lines :: "string \<Rightarrow> string list" where
  "split_lines [] = []"
| "split_lines (c # s) = (if line_break c then [] # split_lines s
     else (case split_lines s of [] \<Rightarrow> [[c]] | l # ls \<Rightarrow> (c # l) # ls))"

definition read_text :: "string \<Rightarrow> tree \<Rightarrow> string result" where
  "read_text p t = bindE (read_bytes p t) (\<lambda>b.
     bindE (of_option (ValueError ''invalid utf-8'') (utf8_decode b)) (\<lambda>s. Inr (universal_newlines s)))"

text \<open>\<open>line.split("  ", 1)\<close>, when it has two parts.\<close>

fun split_gap :: "string \<Rightarrow> (string \<times> string) option" where
  "split_gap [] = None"
| "split_gap (c # s) = (if starts_with ''  '' (c # s) then Some ([], drop 1 s)
     else map_option (\<lambda>(a, b). (c # a, b)) (split_gap s))"

section \<open>Methods that return\<close>

text \<open>\<open>returns Q m\<close>: from every state the method returns, with a value that satisfies \<open>Q\<close>.\<close>

definition returns :: "('a \<Rightarrow> bool) \<Rightarrow> ('s, 'a) op \<Rightarrow> bool" where
  "returns Q m = (\<forall>s. \<exists>a s'. m s = (Inr a, s') \<and> Q a)"

named_theorems returns_intros \<open>rules for methods that return\<close>

lemma returnsI: "(\<And>s. \<exists>a s'. m s = (Inr a, s') \<and> Q a) \<Longrightarrow> returns Q m"
  by (simp add: returns_def)

lemma returnsD: "returns Q m \<Longrightarrow> \<exists>a s'. m s = (Inr a, s') \<and> Q a"
  by (simp add: returns_def)

lemma returns_basic [returns_intros]:
  "Q a \<Longrightarrow> returns Q (retS a)"
  "R () \<Longrightarrow> returns R (putS u)"
  by (simp_all add: returns_def)

lemma returns_liftS [returns_intros]: "\<exists>a. r = Inr a \<and> Q a \<Longrightarrow> returns Q (liftS r)"
  by (auto simp: returns_def)

lemma returns_bindS: "returns Q m \<Longrightarrow> (\<And>a. Q a \<Longrightarrow> returns R (f a)) \<Longrightarrow> returns R (bindS m f)"
  unfolding returns_def by (metis bindS_pair(1))

lemma returns_mapS: "list_all (\<lambda>x. returns Q (f x)) xs \<Longrightarrow> returns (list_all Q) (mapS f xs)"
proof (induction xs)
  case (Cons x xs)
  then show ?case by (auto intro!: returns_bindS [where Q = Q] returns_bindS [where Q = "list_all Q"] returns_basic simp del: op_simps)
qed (simp add: returns_def)

section \<open>Lemmas\<close>

declare map_of_dict_put [simp]

lemma keys_dict_put: "fst ` set (dict_put k v kvs) = insert k (fst ` set kvs)"
proof (cases "k \<in> fst ` set kvs")
  case True
  have "fst ` set (map (\<lambda>(a, b). if a = k then (k, v) else (a, b)) kvs) = fst ` set kvs" by (induction kvs) auto
  with True show ?thesis by (auto simp: dict_put_def)
qed (simp add: dict_put_def)

lemma distinct_dict_put: "distinct (map fst kvs) \<Longrightarrow> distinct (map fst (dict_put k v kvs))"
proof (cases "k \<in> fst ` set kvs")
  case True
  assume d: "distinct (map fst kvs)"
  have "map fst (map (\<lambda>(a, b). if a = k then (k, v) else (a, b)) kvs) = map fst kvs" by (induction kvs) auto
  with d True show ?thesis unfolding dict_put_def by (simp del: map_map)
qed (simp add: dict_put_def)

lemma inside_inj [simp]: "inside d p = inside d q \<longleftrightarrow> p = q"
  by (simp add: inside_def)

lemma starts_inside [simp]: "starts_with (d @ ''/'') (inside d p)" "drop (Suc (length d)) (inside d p) = p"
  by (simp_all add: inside_def starts_with_def)

lemma starts_inside_iff: "starts_with (d @ ''/'') q \<longleftrightarrow> (\<exists>p. q = inside d p)"
  by (auto simp: inside_def starts_with_iff)

lemma below_Nil [simp]: "below d [] = []"
  by (simp add: below_def)

lemma below_Cons: "below d ((q, b) # t) =
    (if starts_with (d @ ''/'') q then (drop (Suc (length d)) q, b) # below d t else below d t)"
  by (simp add: below_def)

lemma below_append [simp]: "below d (t @ u) = below d t @ below d u"
  by (simp add: below_def)

lemma keys_below: "p \<in> fst ` set (below d t) \<longleftrightarrow> inside d p \<in> fst ` set t"
proof (induction t)
  case (Cons x t)
  then show ?case by (cases x; cases "starts_with (d @ ''/'') (fst x)") (auto simp: below_Cons starts_inside_iff)
qed simp

lemma below_replace: "below d (map (\<lambda>(q, c). if q = inside d p then (inside d p, b) else (q, c)) t)
    = map (\<lambda>(q, c). if q = p then (p, b) else (q, c)) (below d t)"
proof (induction t)
  case (Cons x t)
  then show ?case by (cases x; cases "starts_with (d @ ''/'') (fst x)") (auto simp: below_Cons starts_inside_iff)
qed simp

lemma below_dict_put [simp]: "below d (dict_put (inside d p) b t) = dict_put p b (below d t)"
proof (cases "inside d p \<in> fst ` set t")
  case True
  then show ?thesis using keys_below [of p d t] by (simp add: dict_put_def below_replace)
next
  case False
  then show ?thesis using keys_below [of p d t] by (simp add: dict_put_def below_Cons)
qed

lemma map_of_below: "map_of (below d t) p = map_of t (inside d p)"
proof (induction t)
  case (Cons x t)
  then show ?case by (cases x; cases "starts_with (d @ ''/'') (fst x)") (auto simp: below_Cons starts_inside_iff)
qed simp

lemma below_put_files: "below d (put_files d fs t) = foldl (\<lambda>u (p, b). dict_put p b u) (below d t) fs"
  by (induction fs arbitrary: t) (auto simp: put_files_def)

lemma distinct_below: "distinct (map fst t) \<Longrightarrow> distinct (map fst (below d t))"
proof (induction t)
  case (Cons x t)
  obtain q b where x: "x = (q, b)" by (cases x)
  show ?case
  proof (cases "\<exists>p. q = inside d p")
    case True
    then obtain p where q: "q = inside d p" ..
    with Cons.prems x have "inside d p \<notin> fst ` set t" by simp
    then have "p \<notin> fst ` set (below d t)" by (simp add: keys_below)
    with Cons x q show ?thesis by (simp add: below_Cons)
  next
    case False
    with Cons x show ?thesis by (simp add: below_Cons starts_inside_iff)
  qed
qed simp

lemma below_copy_tree:
  "distinct (map fst t) \<Longrightarrow> below dst t = [] \<Longrightarrow> below dst (copy_tree src dst t) = below src t"
  using distinct_below [of t src] dict_of_pairs_distinct [of "below src t"]
  by (simp add: copy_tree_def below_put_files dict_of_pairs_def)

lemma universal_newlines_id: "CHR 0x0D \<notin> set s \<Longrightarrow> universal_newlines s = s"
  by (induction s rule: universal_newlines.induct) auto

lemma split_lines_append:
  "list_all (\<lambda>c. \<not> line_break c) l \<Longrightarrow> split_lines (l @ CHR 0x0A # r) = l # split_lines r"
proof (induction l)
  case Nil
  have "line_break CHR 0x0A" by code_simp
  then show ?case by simp
qed simp

lemma split_lines_concat:
  "list_all (list_all (\<lambda>c. \<not> line_break c)) ls \<Longrightarrow> split_lines (concat (map (\<lambda>l. l @ [CHR 0x0A]) ls)) = ls"
  by (induction ls) (auto simp: split_lines_append)

lemma split_gap_append: "CHR '' '' \<notin> set a \<Longrightarrow> split_gap (a @ ''  '' @ b) = Some (a, b)"
  by (induction a) (auto simp: starts_with_def)

end
