(* ===== verification/Engagement.thy ===== *)
theory Engagement
  imports Messenger Url
begin

text \<open>
  \<open>rosetta/engagement.py\<close>: which public messages are answered and the closed set
  of texts that may be sent.  The digest of the module's own source file is a
  parameter of the policy digest.
\<close>

section \<open>Classification\<close>

record opportunity =
  op_kind :: string
  op_room :: string
  op_generation :: int
  op_sequence :: int
  op_author :: string

definition opportunity_key :: "opportunity \<Rightarrow> string" where
  "opportunity_key x = ''engagement:'' @ op_room x @ '':'' @ str_int (op_generation x) @ '':'' @ str_int (op_sequence x)"

definition word_char :: "char \<Rightarrow> bool" where
  "word_char c = (is_alnum c \<or> c = CHR ''_'')"

text \<open>\<open>re.search(r"\b" + word + r"\b", s)\<close> for an alphanumeric word; the flag says whether a word character precedes.\<close>

fun find_word :: "bool \<Rightarrow> string \<Rightarrow> string \<Rightarrow> bool" where
  "find_word prev w [] = False"
| "find_word prev w (c # s) = ((\<not> prev \<and> starts_with w (c # s) \<and>
     (case drop (length w) (c # s) of [] \<Rightarrow> True | d # _ \<Rightarrow> \<not> word_char d)) \<or> find_word (word_char c) w s)"

definition has_word :: "string \<Rightarrow> string list \<Rightarrow> bool" where
  "has_word s ws = list_ex (\<lambda>w. find_word False w s) ws"

definition runtime_words :: "string list" where
  "runtime_words = [''mcp'', ''adapter'', ''client'', ''runtime'', ''python'', ''typescript'', ''fetch'', ''http'']"

definition trouble_words :: "string list" where
  "trouble_words = [''fail'', ''fails'', ''failing'', ''broken'', ''compatible'', ''working'', ''upgrade'', ''retry'', ''timeout'',
     ''duplicate'', ''idempotent'', ''regression'', ''drift'', ''429'', ''restart'', ''cursor'', ''signature'', ''signed'',
     ''interoperability'']"

definition opportunity_kind :: "string \<Rightarrow> string option" where
  "opportunity_kind s =
     (if has_word s [''mailbox''] \<and> has_word s runtime_words \<and> has_word s trouble_words then Some ''mailbox_interop''
      else if has_word s [''technocore''] \<and> has_word s [''upgrade'', ''version'', ''release'']
        \<and> has_word s [''adapter'', ''mcp'', ''client'', ''integration'', ''runtime''] then Some ''upgrade_compat''
      else None)"

definition classify :: "crypto \<Rightarrow> protocol_record \<Rightarrow> string \<Rightarrow> int \<Rightarrow> opportunity option" where
  "classify C r own_did generation =
     (let s = map lower_char (p_text r) in
      if \<not> record_signed C r \<or> p_did r = own_did \<or> length (p_text r) < 15 \<or> 600 < length (p_text r) then None
      else if CHR ''?'' \<notin> set s \<or> starts_with ''{'' (lstrip s) \<or> starts_with ''['' (lstrip s) then None
      else if \<not> has_word s [''technocore'', ''mailbox'', ''mcp''] then None
      else map_option (\<lambda>k. \<lparr>op_kind = k, op_room = p_room r, op_generation = generation,
             op_sequence = p_sequence r, op_author = p_did r\<rparr>) (opportunity_kind s))"

section \<open>Outbound texts\<close>

definition card_url :: "string \<Rightarrow> string" where
  "card_url base = base @ ''/service-card.json''"

text \<open>A template is the text before and after its one \<open>{url}\<close>.\<close>

definition proactive_templates :: "(string \<times> string) list" where
  "proactive_templates = [
    (''Rosetta offers a free bounded signed-mailbox compatibility check across reviewed Technocore adapter paths. Agents can discover the closed request schema and public mailbox at '',
     ''. Reports are verifiable; this is not a security certification.''),
    (''Upgrading a Technocore MCP, Python, TypeScript, or raw HTTP adapter? Rosetta can run the reviewed signed-mailbox roundtrip and return reproducible evidence. Request details: '',
     ''. No code or secrets are accepted.''),
    (''Need evidence that a signed Technocore mailbox flow still works after restart, 429, cursor or retry behavior? Rosetta'' @ [CHR 0x27] @ ''s free bounded test and public request mailbox are described at '',
     ''. Results observe compatibility, not safety.''),
    (''Agents can request Rosetta'' @ [CHR 0x27] @ ''s closed-schema Technocore interoperability check without sharing code, prompts, credentials, or private mailboxes. Supported paths and signed results: '',
     ''.'')]"

definition fill_template :: "string \<times> string \<Rightarrow> string \<Rightarrow> string" where
  "fill_template t url = fst t @ url @ snd t"

definition policy_digest ::
  "crypto \<Rightarrow> string \<Rightarrow> string list \<Rightarrow> int \<Rightarrow> int \<Rightarrow> string \<Rightarrow> bool \<Rightarrow> int \<Rightarrow> int \<Rightarrow> int \<Rightarrow> string result" where
  "policy_digest C implementation rooms per_day cooldown_hours base_url proactive_enabled campaign_days
      proactive_per_room_per_day proactive_min_interval_hours =
   bindE (canonical_json (PDict [(''schema'', PStr ''bounded-participation-v2''),
     (''implementation_sha256'', PStr implementation), (''rooms'', PList (map PStr rooms)),
     (''max_replies_per_day'', PInt per_day), (''room_cooldown_hours'', PInt cooldown_hours),
     (''max_replies_per_did_per_7_days'', PInt 1), (''service_card_url'', PStr (card_url base_url)),
     (''proactive_campaign'', PDict [(''enabled'', PBool proactive_enabled), (''duration_days'', PInt campaign_days),
        (''max_posts_per_room_per_day'', PInt proactive_per_room_per_day),
        (''min_interval_hours'', PInt proactive_min_interval_hours),
        (''templates'', PList (map (\<lambda>t. PStr (fill_template t (card_url base_url))) proactive_templates))])]))
   (\<lambda>b. Inr (''sha256:'' @ sha256_hex C b))"

definition mailbox_lead :: string where
  "mailbox_lead = ''For the signed mailbox interoperability question''"

definition upgrade_lead :: string where
  "upgrade_lead = ''For the Technocore adapter upgrade question''"

definition reply_middle :: string where
  "reply_middle = '', Rosetta can run a bounded signed-mailbox roundtrip across reviewed runtime paths and return a verifiable report. It does not diagnose arbitrary code or certify safety. The signed request schema, supported paths and public mailbox are in ''"

definition reply_text :: "opportunity \<Rightarrow> string \<Rightarrow> string result" where
  "reply_text x base_url =
     bindE (if op_kind x = ''mailbox_interop'' then Inr mailbox_lead
            else if op_kind x = ''upgrade_compat'' then Inr upgrade_lead
            else Inl (ValueError ''unknown engagement opportunity'')) (\<lambda>lead.
     Inr (''Re #'' @ str_int (op_sequence x) @ '': '' @ lead @ reply_middle @ card_url base_url @ ''.''))"

definition proactive_text :: "int \<Rightarrow> string \<Rightarrow> string result" where
  "proactive_text slot base_url = raise_if (slot < 0) (ValueError ''proactive slot cannot be negative'')
     (Inr (fill_template (proactive_templates ! nat (slot mod int (length proactive_templates))) (card_url base_url)))"

definition proactive_delivery_key :: "string \<Rightarrow> string \<Rightarrow> string \<Rightarrow> string result" where
  "proactive_delivery_key room policy now_slot =
     raise_if (room = [] \<or> now_slot = [] \<or> \<not> starts_with ''sha256:'' policy)
       (ValueError ''invalid proactive delivery identity'')
     (Inr (''engagement:proactive:'' @ policy @ '':'' @ room @ '':'' @ now_slot))"

text \<open>\<open>https://[A-Za-z0-9.:-]+/service-card\.json\<close>, matched up to a given suffix.\<close>

definition host_char :: "char \<Rightarrow> bool" where
  "host_char c = (is_ascii_digit c \<or> (65 \<le> code c \<and> code c \<le> 90) \<or> (97 \<le> code c \<and> code c \<le> 122)
     \<or> c \<in> {CHR ''.'', CHR '':'', CHR ''-''})"

definition card_then :: "string \<Rightarrow> string \<Rightarrow> bool" where
  "card_then suffix s = (starts_with ''https://'' s \<and>
     (let r = drop 8 s; host = takeWhile host_char r in
        host \<noteq> [] \<and> dropWhile host_char r = ''/service-card.json'' @ suffix))"

definition strip_exact :: "string \<Rightarrow> string \<Rightarrow> string option" where
  "strip_exact p s = (if starts_with p s then Some (drop (length p) s) else None)"

definition matches_contextual :: "string \<Rightarrow> bool" where
  "matches_contextual s = (case strip_exact ''Re #'' s of None \<Rightarrow> False | Some r \<Rightarrow>
     (let digits = takeWhile is_ascii_digit r; rest = dropWhile is_ascii_digit r in
        digits \<noteq> [] \<and> hd digits \<noteq> CHR ''0'' \<and> length digits \<le> 19 \<and>
        list_ex (\<lambda>lead. case strip_exact ('': '' @ lead @ reply_middle) rest of None \<Rightarrow> False
          | Some u \<Rightarrow> card_then ''.'' u) [mailbox_lead, upgrade_lead]))"

definition matches_template :: "string \<Rightarrow> string \<times> string \<Rightarrow> bool" where
  "matches_template s t = (case strip_exact (fst t) s of None \<Rightarrow> False | Some u \<Rightarrow> card_then (snd t) u)"

definition valid_outbound_text :: "string \<Rightarrow> bool" where
  "valid_outbound_text s = (matches_contextual s \<or> list_ex (matches_template s) proactive_templates)"

section \<open>The closed set of texts\<close>

definition host_ok :: "string \<Rightarrow> bool" where
  "host_ok host = (host \<noteq> [] \<and> list_all host_char host)"

lemma strip_exact_iff: "strip_exact p s = Some u \<longleftrightarrow> s = p @ u"
  by (auto simp: strip_exact_def starts_with_iff)

lemma not_host_slash: "\<not> host_char CHR ''/''"
  by (simp add: host_char_def is_ascii_digit_def code_def)

lemma take_drop_while: "list_all P xs \<Longrightarrow> \<not> P y \<Longrightarrow> takeWhile P (xs @ y # ys) = xs \<and> dropWhile P (xs @ y # ys) = y # ys"
  by (induction xs) auto

lemma takeWhile_all: "list_all P (takeWhile P xs)"
  by (induction xs) auto

lemma card_then_iff: "card_then suffix s \<longleftrightarrow> (\<exists>host. host_ok host \<and> s = card_url (''https://'' @ host) @ suffix)"
proof
  assume "card_then suffix s"
  then obtain r where r: "s = ''https://'' @ r" "takeWhile host_char r \<noteq> []"
    "dropWhile host_char r = ''/service-card.json'' @ suffix"
    by (auto simp: card_then_def starts_with_iff Let_def)
  then have "r = takeWhile host_char r @ ''/service-card.json'' @ suffix"
    by (metis takeWhile_dropWhile_id)
  then show "\<exists>host. host_ok host \<and> s = card_url (''https://'' @ host) @ suffix"
    using r takeWhile_all [of host_char r] unfolding host_ok_def card_url_def by (metis append.assoc)
next
  assume "\<exists>host. host_ok host \<and> s = card_url (''https://'' @ host) @ suffix"
  then obtain host where h: "host_ok host" "s = ''https://'' @ host @ ''/service-card.json'' @ suffix"
    by (auto simp: card_url_def)
  then show "card_then suffix s"
    using take_drop_while [of host_char host "CHR ''/''" "''service-card.json'' @ suffix"] not_host_slash
    by (simp add: card_then_def host_ok_def starts_with_def Let_def)
qed

text \<open>Decimal texts without a leading zero are exactly what \<open>str\<close> prints.\<close>

lemma digit_char_value: "is_ascii_digit c \<Longrightarrow> digit_char (digit_value c) = c"
  by (simp add: is_ascii_digit_def digit_char_def digit_value_def)

lemma digit_value_less: "is_ascii_digit c \<Longrightarrow> digit_value c < 10"
  by (auto simp: is_ascii_digit_def digit_value_def)

lemma char_zero: "char_of (48 :: nat) = CHR ''0''"
  using code_char_of [of 48] code_inj [of "char_of (48 :: nat)" "CHR ''0''"] by (simp add: code_def del: code_char_of)

lemma digit_value_zero: "is_ascii_digit c \<Longrightarrow> digit_value c = 0 \<longleftrightarrow> c = CHR ''0''"
  using digit_char_value [of c] by (auto simp: digit_char_def digit_value_def char_zero)

lemma digit_value_pos: "is_ascii_digit c \<Longrightarrow> 0 < digit_value c \<longleftrightarrow> c \<noteq> CHR ''0''"
  using digit_value_zero [of c] by (metis neq0_conv)

lemma dec_value_positive: "ds \<noteq> [] \<Longrightarrow> list_all is_ascii_digit ds \<Longrightarrow> hd ds \<noteq> CHR ''0'' \<Longrightarrow> 0 < dec_value ds"
proof (induction ds rule: rev_induct)
  case (snoc d ds)
  then show ?case by (cases ds) (auto simp: dec_value_snoc digit_value_pos dec_value_def)
qed simp

lemma dec_digits_value:
  "ds \<noteq> [] \<Longrightarrow> list_all is_ascii_digit ds \<Longrightarrow> hd ds \<noteq> CHR ''0'' \<Longrightarrow> dec_digits (dec_value ds) = ds"
proof (induction ds rule: rev_induct)
  case (snoc d ds)
  have d: "is_ascii_digit d" "digit_value d < 10" using snoc.prems digit_value_less by auto
  show ?case
  proof (cases "ds = []")
    case True
    then show ?thesis using d by (simp add: dec_value_def dec_digits.simps [of "digit_value d"] digit_char_value)
  next
    case False
    then have p: "list_all is_ascii_digit ds" "hd ds \<noteq> CHR ''0''" using snoc.prems by auto
    have "0 < dec_value ds" using dec_value_positive [OF False p] .
    then have "\<not> dec_value (ds @ [d]) < 10" "dec_value (ds @ [d]) div 10 = dec_value ds" "dec_value (ds @ [d]) mod 10 = digit_value d"
      using d by (auto simp: dec_value_snoc)
    then show ?thesis using snoc.IH [OF False p] d by (simp add: dec_digits.simps [of "dec_value (ds @ [d])"] digit_char_value)
  qed
qed simp

lemma dec_value_bound: "list_all is_ascii_digit ds \<Longrightarrow> dec_value ds < 10 ^ length ds"
proof (induction ds rule: rev_induct)
  case (snoc d ds)
  then have "dec_value ds + 1 \<le> 10 ^ length ds" "digit_value d < 10" using digit_value_less by auto
  then have "10 * dec_value ds + digit_value d < 10 * 10 ^ length ds" by linarith
  then show ?case by (simp add: dec_value_snoc)
qed (simp add: dec_value_def)

lemma dec_digits_hd_positive: "0 < n \<Longrightarrow> hd (dec_digits n) \<noteq> CHR ''0''"
proof (induction n rule: dec_digits.induct)
  case (1 n)
  show ?case
  proof (cases "n < 10")
    case True
    then show ?thesis using 1 digit_value_zero [of "digit_char n"] dec_digits_digits [of n]
      by (simp add: dec_digits.simps [of n])
  next
    case False
    then show ?thesis using 1 by (simp add: dec_digits.simps [of n])
  qed
qed

definition sequence_text :: "string \<Rightarrow> bool" where
  "sequence_text ds = (list_all is_ascii_digit ds \<and> ds \<noteq> [] \<and> hd ds \<noteq> CHR ''0'' \<and> length ds \<le> 19)"

lemma sequence_text_iff: "sequence_text ds \<longleftrightarrow> (\<exists>i. 0 < i \<and> i < 10 ^ 19 \<and> ds = str_int i)"
proof
  assume s: "sequence_text ds"
  then have "dec_value ds < 10 ^ 19"
    using dec_value_bound [of ds] power_increasing [of "length ds" 19 "10 :: nat"]
    by (simp add: sequence_text_def)
  then show "\<exists>i. 0 < i \<and> i < 10 ^ 19 \<and> ds = str_int i"
    using s dec_value_positive [of ds] dec_digits_value [of ds]
    by (intro exI [of _ "int (dec_value ds)"]) (auto simp: sequence_text_def str_int_def)
next
  assume "\<exists>i. 0 < i \<and> i < 10 ^ 19 \<and> ds = str_int i"
  then obtain i where i: "0 < i" "i < 10 ^ 19" "ds = dec_digits (nat i)" by (auto simp: str_int_def)
  then have "nat i < 10 ^ 19" by (simp add: nat_less_iff)
  then show "sequence_text ds"
    using i length_dec_digits [of "nat i" 19] dec_digits_hd_positive [of "nat i"] dec_digits_digits [of "nat i"]
    by (simp add: sequence_text_def list_all_iff)
qed

lemma matches_contextual_iff:
  "matches_contextual s \<longleftrightarrow> (\<exists>i host lead. 0 < i \<and> i < 10 ^ 19 \<and> host_ok host \<and> lead \<in> {mailbox_lead, upgrade_lead}
     \<and> s = ''Re #'' @ str_int i @ '': '' @ lead @ reply_middle @ card_url (''https://'' @ host) @ ''.'')"
    (is "_ \<longleftrightarrow> ?R")
proof
  let ?Q = "\<lambda>rest lead. case strip_exact ('': '' @ lead @ reply_middle) rest of None \<Rightarrow> False | Some u \<Rightarrow> card_then ''.'' u"
  assume "matches_contextual s"
  then obtain r where r0: "s = ''Re #'' @ r" "sequence_text (takeWhile is_ascii_digit r)"
      "list_ex (?Q (dropWhile is_ascii_digit r)) [mailbox_lead, upgrade_lead]"
    unfolding matches_contextual_def Let_def sequence_text_def using takeWhile_all [of is_ascii_digit]
    by (cases "strip_exact ''Re #'' s") (simp_all add: strip_exact_iff)
  then obtain lead where l: "lead \<in> {mailbox_lead, upgrade_lead}" "?Q (dropWhile is_ascii_digit r) lead"
    unfolding list_ex_iff by auto
  then obtain u where "dropWhile is_ascii_digit r = ('': '' @ lead @ reply_middle) @ u" "card_then ''.'' u"
    by (cases "strip_exact ('': '' @ lead @ reply_middle) (dropWhile is_ascii_digit r)")
      (simp_all only: strip_exact_iff option.case)
  note r = r0(1,2) l(1) this
  obtain i where i: "0 < i" "i < 10 ^ 19" "takeWhile is_ascii_digit r = str_int i"
    using r(2) sequence_text_iff by blast
  obtain host where h: "host_ok host" "u = card_url (''https://'' @ host) @ ''.''" using r(5) card_then_iff by blast
  have "r = str_int i @ ('': '' @ lead @ reply_middle) @ u"
    using i(3) r(4) by (metis takeWhile_dropWhile_id)
  then show ?R using r(1,3) i h by (intro exI [of _ i] exI [of _ host] exI [of _ lead]) simp
next
  assume ?R
  then obtain i host lead where w: "0 < i" "i < 10 ^ 19" "host_ok host" "lead \<in> {mailbox_lead, upgrade_lead}"
    "s = ''Re #'' @ str_int i @ '': '' @ lead @ reply_middle @ card_url (''https://'' @ host) @ ''.''" by blast
  let ?u = "card_url (''https://'' @ host) @ ''.''"
  let ?rest = "('': '' @ lead @ reply_middle) @ ?u"
  have seq: "sequence_text (str_int i)" using w(1,2) sequence_text_iff by blast
  have "takeWhile is_ascii_digit (str_int i @ ?rest) = str_int i \<and> dropWhile is_ascii_digit (str_int i @ ?rest) = ?rest"
    using take_drop_while [of is_ascii_digit "str_int i" "CHR '':''" "'' '' @ lead @ reply_middle @ ?u"] seq
    by (simp add: sequence_text_def is_ascii_digit_def)
  moreover have "card_then ''.'' ?u" using w(3) card_then_iff by blast
  moreover have "strip_exact ('': '' @ lead @ reply_middle) ?rest = Some ?u" by (simp only: strip_exact_iff)
  moreover have "strip_exact ''Re #'' s = Some (str_int i @ ?rest)" by (simp add: strip_exact_iff w(5))
  ultimately show "matches_contextual s"
    using seq w(4) unfolding matches_contextual_def sequence_text_def Let_def by auto
qed

lemma matches_template_iff:
  "matches_template s t \<longleftrightarrow> (\<exists>host. host_ok host \<and> s = fill_template t (card_url (''https://'' @ host)))"
proof
  assume "matches_template s t"
  then obtain u where "s = fst t @ u" "card_then (snd t) u"
    by (auto simp: matches_template_def strip_exact_iff split: option.splits)
  then show "\<exists>host. host_ok host \<and> s = fill_template t (card_url (''https://'' @ host))"
    by (auto simp: card_then_iff fill_template_def)
next
  assume "\<exists>host. host_ok host \<and> s = fill_template t (card_url (''https://'' @ host))"
  then obtain host where h: "host_ok host" "s = fst t @ card_url (''https://'' @ host) @ snd t"
    by (auto simp: fill_template_def)
  then have "card_then (snd t) (card_url (''https://'' @ host) @ snd t)" using card_then_iff by blast
  moreover have "strip_exact (fst t) s = Some (card_url (''https://'' @ host) @ snd t)"
    by (simp add: strip_exact_iff h)
  ultimately show "matches_template s t" by (simp add: matches_template_def)
qed

definition reply_kinds :: "string list" where
  "reply_kinds = [''mailbox_interop'', ''upgrade_compat'']"

lemma reply_text_Inr: "reply_text x base = Inr s \<longleftrightarrow> (\<exists>lead. s = ''Re #'' @ str_int (op_sequence x) @ '': '' @ lead @ reply_middle
    @ card_url base @ ''.'' \<and> (op_kind x = ''mailbox_interop'' \<and> lead = mailbox_lead \<or> op_kind x = ''upgrade_compat'' \<and> lead = upgrade_lead))"
  unfolding reply_text_def by (auto simp: bindE_def)

lemma nth_mod: "xs \<noteq> [] \<Longrightarrow> x \<in> set xs \<longleftrightarrow> (\<exists>i \<ge> 0. x = xs ! nat (i mod int (length xs)))"
proof
  assume "xs \<noteq> []" "x \<in> set xs"
  then obtain i where "i < length xs" "x = xs ! i" by (auto simp: in_set_conv_nth)
  then show "\<exists>i \<ge> 0. x = xs ! nat (i mod int (length xs))" by (intro exI [of _ "int i"]) simp
next
  assume "xs \<noteq> []" "\<exists>i \<ge> 0. x = xs ! nat (i mod int (length xs))"
  then show "x \<in> set xs" by (auto simp: nat_less_iff)
qed

lemma proactive_nonempty: "proactive_templates \<noteq> []"
  by (simp add: proactive_templates_def)

lemma proactive_text_iff:
  "(\<exists>slot. proactive_text slot base = Inr s) \<longleftrightarrow> (\<exists>t \<in> set proactive_templates. s = fill_template t (card_url base))"
proof -
  have "proactive_text slot base = Inr s \<longleftrightarrow> 0 \<le> slot \<and> s = fill_template
      (proactive_templates ! nat (slot mod int (length proactive_templates))) (card_url base)" for slot
    by (auto simp: proactive_text_def not_less)
  then show ?thesis unfolding nth_mod [OF proactive_nonempty] Bex_def by blast
qed

text \<open>
  C14: The last check before a public text leaves accepts exactly the texts that the generators can
  produce: a reply to an opportunity of one of the two kinds with a sequence number of at most 19
  digits, or a proactive text of some slot, for a plain HTTPS base URL.
\<close>

theorem valid_outbound_text_exact:
  "valid_outbound_text s \<longleftrightarrow> (\<exists>host. host_ok host \<and>
     ((\<exists>x. 0 < op_sequence x \<and> op_sequence x < 10 ^ 19 \<and> reply_text x (''https://'' @ host) = Inr s)
      \<or> (\<exists>slot. proactive_text slot (''https://'' @ host) = Inr s)))"
proof -
  have "matches_contextual s \<longleftrightarrow> (\<exists>host x. host_ok host \<and> 0 < op_sequence x \<and> op_sequence x < 10 ^ 19
      \<and> reply_text x (''https://'' @ host) = Inr s)" (is "_ \<longleftrightarrow> ?R")
  proof
    assume "matches_contextual s"
    then obtain i host lead where w: "0 < i" "i < 10 ^ 19" "host_ok host" "lead \<in> {mailbox_lead, upgrade_lead}"
      "s = ''Re #'' @ str_int i @ '': '' @ lead @ reply_middle @ card_url (''https://'' @ host) @ ''.''"
      unfolding matches_contextual_iff by blast
    let ?x = "\<lparr>op_kind = if lead = mailbox_lead then ''mailbox_interop'' else ''upgrade_compat'', op_room = [],
      op_generation = 0, op_sequence = i, op_author = []\<rparr>"
    have "reply_text ?x (''https://'' @ host) = Inr s" using w(4,5) by (auto simp: reply_text_Inr)
    then show ?R using w(1-3) by (intro exI [of _ host] exI [of _ ?x]) simp
  next
    assume ?R
    then show "matches_contextual s" unfolding matches_contextual_iff reply_text_Inr by blast
  qed
  moreover have "list_ex (matches_template s) proactive_templates \<longleftrightarrow>
      (\<exists>host. host_ok host \<and> (\<exists>slot. proactive_text slot (''https://'' @ host) = Inr s))"
    unfolding proactive_text_iff list_ex_iff matches_template_iff by blast
  ultimately show ?thesis unfolding valid_outbound_text_def by blast
qed

end
