(* ===== verification/Egress.thy ===== *)
theory Egress
  imports Http Engagement
begin

text \<open>
  The two egress proxies: \<open>rosetta/egress.py\<close> (three fixed GET paths) and
  \<open>rosetta/pilot_egress.py\<close> (paths, identity and body of the pilot's traffic).
  A proxy is its configuration; forwarding is an operation on the state of
  the network, so that a refused request visibly leaves it alone.
\<close>

section \<open>The read-only egress\<close>

record read_only_egress =
  ro_origin :: string
  ro_max :: int

definition make_read_only :: "string \<Rightarrow> int \<Rightarrow> read_only_egress result" where
  "make_read_only origin max_bytes = bindE (urlparse origin) (\<lambda>u.
     raise_if (u_scheme u \<noteq> ''https'' \<or> u_netloc u = []) (ValueError ''egress origin must be a fixed HTTPS origin'')
     (raise_if (\<not> bare_path u \<or> \<not> no_tail u)
       (ValueError ''egress origin must not contain a path, query, or fragment'')
     (Inr \<lparr>ro_origin = rstrip_char CHR ''/'' origin, ro_max = max_bytes\<rparr>)))"

type_synonym reply = "int \<times> string \<times> bytes"

definition nl :: string where "nl = [CHR 0x0A]"

definition egress_fetch :: "'n network \<Rightarrow> read_only_egress \<Rightarrow> string \<Rightarrow> ('n, reply) op" where
  "egress_fetch N g path =
     (if path \<notin> set watched_paths then retS (404, ''text/plain'', ''path not allowed'' @ nl)
      else tryS is_http_error
        (bindS (N (get_request path)) (\<lambda>r.
         if is_redirect r then retS (502, ''text/plain'', ''upstream redirect rejected'' @ nl)
         else bindS (liftS (stream_body (ro_max g) r)) (\<lambda>body. case body of
            None \<Rightarrow> retS (502, ''text/plain'', ''upstream response too large'' @ nl)
          | Some b \<Rightarrow> retS (hr_status r, content_type r, b))))
        (\<lambda>_. retS (502, ''text/plain'', ''upstream unavailable'' @ nl)))"

text \<open>\<open>do_GET\<close> and the handler of all other methods: the answer and its \<open>Allow\<close> header.\<close>

definition egress_handle :: "'n network \<Rightarrow> read_only_egress \<Rightarrow> string \<Rightarrow> string \<Rightarrow> ('n, reply \<times> string option) op" where
  "egress_handle N g method target =
     (if method \<noteq> ''GET''
      then retS ((405, ''text/plain'', ''only allowlisted GET requests are accepted'' @ nl), Some ''GET'')
      else bindS (liftS (urlsplit target)) (\<lambda>u.
        if u_scheme u \<noteq> [] \<or> u_netloc u \<noteq> [] \<or> \<not> no_tail u
        then retS ((400, ''text/plain'', ''invalid request target'' @ nl), None)
        else bindS (egress_fetch N g (u_path u)) (\<lambda>reply. retS (reply, None))))"

section \<open>The pilot egress\<close>


record pilot_egress =
  pe_origin :: string
  pe_writer_did :: string
  pe_service_room :: string
  pe_request_mailbox :: string
  pe_read_rooms :: "string list"
  pe_engagement_rooms :: "string list"
  pe_max :: int

definition make_pilot_egress ::
  "string \<Rightarrow> string \<Rightarrow> string \<Rightarrow> string \<Rightarrow> string list \<Rightarrow> string list \<Rightarrow> int \<Rightarrow> pilot_egress result" where
  "make_pilot_egress origin writer_did service_room request_mailbox discovery engagement max_bytes =
     bindE (urlparse origin) (\<lambda>u.
     raise_if (u_scheme u \<noteq> ''https'' \<or> u_netloc u = [] \<or> \<not> bare_path u)
       (ValueError ''pilot egress requires one fixed HTTPS origin'')
     (raise_if (\<not> no_tail u \<or> \<not> no_credentials u) (ValueError ''invalid pilot egress origin'')
     (raise_if (\<not> did_text writer_did) (ValueError ''invalid writer DID'')
     (bindE (validate_room_name service_room) (\<lambda>sr. bindE (validate_room_name request_mailbox) (\<lambda>rm.
      bindE (mapE validate_room_name discovery) (\<lambda>ds. bindE (mapE validate_room_name engagement) (\<lambda>es.
      raise_if (\<not> set es \<subseteq> set discovery \<or> \<not> set es \<subseteq> {''lobby'', ''meta''})
        (ValueError ''engagement rooms must be reviewed discovery rooms'')
      (Inr \<lparr>pe_origin = rstrip_char CHR ''/'' origin, pe_writer_did = writer_did, pe_service_room = sr,
        pe_request_mailbox = rm, pe_read_rooms = sr # rm # ds, pe_engagement_rooms = es, pe_max = max_bytes\<rparr>)))))))))"

definition room_path :: "string \<Rightarrow> string option" where
  "room_path path = (case split_on CHR ''/'' path of
     [_, r, room] \<Rightarrow> if r = ''r'' \<and> room_name room then Some room else None
   | _ \<Rightarrow> None)"

text \<open>One numeric field: absent, or one text of digits in the range.\<close>

definition numeric_field :: "(string \<times> string list) list \<Rightarrow> string \<times> int \<times> int \<Rightarrow> bool result" where
  "numeric_field flds spec = (case spec of (name, low, high) \<Rightarrow>
     (case map_of flds name of None \<Rightarrow> Inr True
      | Some [v] \<Rightarrow> if str_isdigit v then bindE (int_of_text v) (\<lambda>i. Inr (low \<le> i \<and> i \<le> high)) else Inr False
      | Some _ \<Rightarrow> Inr False))"

fun all_fields :: "(string \<times> string list) list \<Rightarrow> (string \<times> int \<times> int) list \<Rightarrow> bool result" where
  "all_fields flds [] = Inr True"
| "all_fields flds (s # ss) = bindE (numeric_field flds s) (\<lambda>b. if b then all_fields flds ss else Inr False)"

definition numeric_ranges :: "(string \<times> int \<times> int) list" where
  "numeric_ranges = [(''since'', 0, 9223372036854775807), (''limit'', 1, 200), (''wait'', 0, 10)]"

definition note_path :: "string \<Rightarrow> string \<Rightarrow> string" where
  "note_path namespace room = ''/kv/'' @ namespace @ ''/'' @ room"

definition read_allowed :: "stdlib \<Rightarrow> pilot_egress \<Rightarrow> string \<Rightarrow> string \<Rightarrow> bool result" where
  "read_allowed L g path query =
     (if path \<in> set watched_paths then Inr (query = [])
      else if path \<in> {note_path ''room-owners'' (pe_service_room g), note_path ''room-allow'' (pe_service_room g)}
      then Inr (query = [])
      else case room_path path of None \<Rightarrow> Inr False
      | Some room \<Rightarrow>
        if room \<notin> set (pe_read_rooms g) \<and> \<not> starts_with ''mb-'' room then Inr False
        else (case parse_qs (sl_unescape L) True query of Inl _ \<Rightarrow> Inr False
          | Inr flds \<Rightarrow>
            if \<not> set (map fst flds) \<subseteq> {''format'', ''since'', ''limit'', ''wait''} then Inr False
            else if map_of flds ''format'' \<noteq> Some [''json''] then Inr False
            else all_fields flds numeric_ranges))"

definition note_namespace :: "pilot_egress \<Rightarrow> string \<Rightarrow> string option" where
  "note_namespace g path = find (\<lambda>ns. path = note_path ns (pe_service_room g)) [''room-owners'', ''room-allow'']"

text \<open>\<open>value in {None, True}\<close>: a list or a dict cannot be hashed, and \<open>1 == True\<close>.\<close>

definition in_none_true :: "stdlib \<Rightarrow> bool \<Rightarrow> pyval option \<Rightarrow> bool result" where
  "in_none_true L with_true v = (case v of None \<Rightarrow> Inr True | Some PNone \<Rightarrow> Inr True
     | Some (PBool b) \<Rightarrow> Inr (with_true \<and> b) | Some (PInt i) \<Rightarrow> Inr (with_true \<and> i = 1)
     | Some (PList _) \<Rightarrow> Inl (TypeError ''unhashable type'') | Some (PDict _) \<Rightarrow> Inl (TypeError ''unhashable type'')
     | Some (PFloat t) \<Rightarrow> Inr (with_true \<and> sl_float_is L t 1) | Some _ \<Rightarrow> Inr False)"

text \<open>The parsed body of a write: DID, keys, signature, nonce and content.\<close>

definition body_fields :: "pilot_egress \<Rightarrow> string option \<Rightarrow> bytes \<Rightarrow> ((string \<times> pyval) list \<times> string \<times> string \<times> string) option" where
  "body_fields g ns body = (case loads_bytes body of
     Inr (PDict kvs) \<Rightarrow>
       (let field = (if ns = None then ''text'' else ''value'');
            required = {''did'', ''sig'', ''nonce'', field};
            optional_keys = (if ns = Some ''room-owners'' then {''if_absent''} else {}) in
        if map_of kvs ''did'' \<noteq> Some (PStr (pe_writer_did g)) then None
        else if \<not> required \<subseteq> set (map fst kvs) \<or> \<not> set (map fst kvs) \<subseteq> required \<union> optional_keys then None
        else (case (map_of kvs ''sig'', map_of kvs ''nonce'', map_of kvs field) of
            (Some (PStr sig), Some (PStr nonce), Some (PStr content)) \<Rightarrow>
              if sig_text sig \<and> str_isdigit nonce \<and> length nonce \<le> 19 \<and> content \<noteq> []
                 \<and> length content \<le> (if ns = None then 4096 else 8192)
              then Some (kvs, sig, nonce, content) else None
          | _ \<Rightarrow> None))
   | _ \<Rightarrow> None)"

definition write_payload :: "pilot_egress \<Rightarrow> string option \<Rightarrow> string option \<Rightarrow> int \<Rightarrow> string \<Rightarrow> bytes result" where
  "write_payload g ns room nonce content = (case ns of
     Some n \<Rightarrow> signed_note_payload n (pe_service_room g) nonce content
   | None \<Rightarrow> signed_room_payload (case room of None \<Rightarrow> ''None'' | Some r \<Rightarrow> r) nonce content)"

definition write_allowed :: "crypto \<Rightarrow> stdlib \<Rightarrow> pilot_egress \<Rightarrow> string \<Rightarrow> string \<Rightarrow> bytes \<Rightarrow> bool result" where
  "write_allowed C L g path query body =
     bindE (parse_qs (sl_unescape L) False query) (\<lambda>flds.
     let room = room_path path; ns = note_namespace g path in
     if flds \<noteq> [(''format'', [''json''])] then Inr False
     else if room = None \<and> ns = None then Inr False
     else if (case room of None \<Rightarrow> False | Some r \<Rightarrow> r \<noteq> pe_service_room g \<and> \<not> starts_with ''mb-'' r
                \<and> r \<notin> set (pe_engagement_rooms g)) then Inr False
     else (case body_fields g ns body of None \<Rightarrow> Inr False
       | Some (kvs, sig, nonce, content) \<Rightarrow>
         if (case room of None \<Rightarrow> False | Some r \<Rightarrow> r \<in> set (pe_engagement_rooms g)) \<and> \<not> valid_outbound_text content then Inr False
         else if ns \<noteq> None \<and> content \<noteq> pe_writer_did g then Inr False
         else bindE (in_none_true L (ns = Some ''room-owners'') (map_of kvs ''if_absent'')) (\<lambda>absent_ok.
           if \<not> absent_ok then Inr False
           else bindE (int_of_text nonce) (\<lambda>n.
                bindE (write_payload g ns room n content) (\<lambda>payload.
                Inr (verify_signature C (pe_writer_did g) payload sig))))))"

type_synonym pilot_reply = "int \<times> string \<times> bytes \<times> string option"

definition egress_allowed :: "crypto \<Rightarrow> stdlib \<Rightarrow> pilot_egress \<Rightarrow> string \<Rightarrow> url \<Rightarrow> bytes \<Rightarrow> bool result" where
  "egress_allowed C L g method u body =
     (if method = ''GET'' then read_allowed L g (u_path u) (u_query u)
      else if method = ''POST'' then write_allowed C L g (u_path u) (u_query u) body
      else Inr False)"

definition upstream_request :: "string \<Rightarrow> url \<Rightarrow> bytes \<Rightarrow> http_request" where
  "upstream_request method u body = \<lparr>hq_method = method,
     hq_target = u_path u @ (if u_query u = [] then [] else CHR ''?'' # u_query u), hq_params = [], hq_json = None,
     hq_body = (if method = ''POST'' then Some body else None)\<rparr>"

text \<open>The upstream exchange of an allowed request.\<close>

definition relay_answer :: "pilot_egress \<Rightarrow> http_response \<Rightarrow> pilot_reply result" where
  "relay_answer g r =
     (if is_redirect r then Inr (502, ''text/plain'', ''redirect rejected'' @ nl, None)
      else bindE (stream_body (pe_max g) r) (\<lambda>out. Inr (case out of
         None \<Rightarrow> (502, ''text/plain'', ''upstream response too large'' @ nl, None)
       | Some b \<Rightarrow> (hr_status r, content_type r, b, map_of (hr_headers r) ''retry-after''))))"

definition relay :: "'n network \<Rightarrow> pilot_egress \<Rightarrow> http_request \<Rightarrow> ('n, pilot_reply) op" where
  "relay N g q = tryS is_http_error (bindS (N q) (\<lambda>r. liftS (relay_answer g r)))
     (\<lambda>_. retS (502, ''text/plain'', ''upstream unavailable'' @ nl, None))"

definition forward ::
  "crypto \<Rightarrow> stdlib \<Rightarrow> 'n network \<Rightarrow> pilot_egress \<Rightarrow> string \<Rightarrow> string \<Rightarrow> bytes \<Rightarrow> ('n, pilot_reply) op" where
  "forward C L N g method target body =
     bindS (liftS (urlsplit target)) (\<lambda>u.
     if u_scheme u \<noteq> [] \<or> u_netloc u \<noteq> [] \<or> u_fragment u \<noteq> []
     then retS (400, ''text/plain'', ''invalid request target'' @ nl, None)
     else bindS (liftS (egress_allowed C L g method u body)) (\<lambda>allowed.
       if \<not> allowed then retS (403, ''text/plain'', ''egress policy rejected request'' @ nl, None)
       else relay N g (upstream_request method u body)))"

text \<open>\<open>do_POST\<close> reads as many bytes as the header says from the connection.\<close>

definition pilot_handle ::
  "crypto \<Rightarrow> stdlib \<Rightarrow> 'n network \<Rightarrow> pilot_egress \<Rightarrow> string \<Rightarrow> string \<Rightarrow> string option \<Rightarrow> bytes \<Rightarrow>
    ('n, pilot_reply) op" where
  "pilot_handle C L N g method target raw_length incoming =
     (if method = ''GET'' then forward C L N g method target []
      else if method \<noteq> ''POST'' then retS (405, ''text/plain'', ''method not allowed'' @ nl, None)
      else case raw_length of None \<Rightarrow> retS (411, ''text/plain'', ''length required'' @ nl, None)
      | Some l \<Rightarrow>
        if \<not> str_isdigit l then retS (411, ''text/plain'', ''length required'' @ nl, None)
        else bindS (liftS (int_of_text l)) (\<lambda>n.
          if 20000 < n then retS (413, ''text/plain'', ''body too large'' @ nl, None)
          else forward C L N g method target (take (nat n) incoming)))"

section \<open>What the proxies let through\<close>

lemma egress_fetch_log:
  assumes "egress_fetch (logged N) g path s = (r, t)"
  shows "snd t = snd s \<or> (path \<in> set watched_paths \<and> snd t = snd s @ [get_request path])"
proof (cases "path \<in> set watched_paths")
  case True
  then obtain q n where "logged N (get_request path) s = (q, n)" by (cases "logged N (get_request path) s")
  with logged_log [OF this] assms True show ?thesis
    by (auto simp: egress_fetch_def tryS_def bindS_def liftS_def split: sum.splits if_splits option.splits prod.splits)
qed (use assms in \<open>auto simp: egress_fetch_def\<close>)

lemma egress_fetch_size:
  assumes "egress_fetch N g path n = (Inr (status, ctype, body), n')"
  shows "int (length body) \<le> max (ro_max g) 64"
proof -
  have small: "length (x @ nl) \<le> 64" if "length x \<le> 60" for x using that by (simp add: nl_def)
  show ?thesis using assms small
    by (auto simp: egress_fetch_def tryS_def bindS_def liftS_def nl_def dest!: stream_body_size
        split: sum.splits if_splits option.splits prod.splits)
qed

text \<open>
  The read-only egress sends nothing but a GET of one of the three watched paths: over a network that
  logs its requests, an answered or failed request adds at most that one entry, and every body that it hands
  back is within the configured limit (or is one of its own short messages).
\<close>

theorem read_only_egress_requests:
  assumes "egress_handle (logged N) g method target s = (r, t)"
  shows "(snd t = snd s \<or> (method = ''GET'' \<and> (\<exists>path \<in> set watched_paths. snd t = snd s @ [get_request path])))
    \<and> (\<forall>status ctype body allow. r = Inr ((status, ctype, body), allow) \<longrightarrow> int (length body) \<le> max (ro_max g) 64)"
proof (cases "method = ''GET''")
  case False
  then show ?thesis using assms by (auto simp: egress_handle_def nl_def)
next
  case True
  show ?thesis
  proof (cases "urlsplit target")
    case (Inl e)
    then show ?thesis using assms True by (auto simp: egress_handle_def)
  next
    case (Inr u)
    obtain x y where f: "egress_fetch (logged N) g (u_path u) s = (x, y)" by (cases "egress_fetch (logged N) g (u_path u) s")
    show ?thesis
    proof (cases "u_scheme u \<noteq> [] \<or> u_netloc u \<noteq> [] \<or> \<not> no_tail u")
      case True
      then show ?thesis using assms Inr \<open>method = ''GET''\<close> by (auto simp: egress_handle_def nl_def)
    next
      case False
      then have r: "t = y \<and> r = (case x of Inl e \<Rightarrow> Inl e | Inr a \<Rightarrow> Inr (a, None))"
        using assms Inr True f by (auto simp: egress_handle_def bindS_def split: sum.splits)
      with egress_fetch_log [OF f] egress_fetch_size [of "logged N" g "u_path u" s] f True show ?thesis
        by (auto split: sum.splits)
    qed
  qed
qed

lemma read_only_egress_requests_witness:
  "\<exists>r t. egress_handle (logged (\<lambda>q n. (Inl (HttpError ''ConnectError''), n))) \<lparr>ro_origin = ''https://technocore.chat'', ro_max = 1024\<rparr>
     ''GET'' ''/healthz'' ((), []) = (r, t) \<and> snd t = [get_request ''/healthz'']"
proof -
  let ?N = "logged (\<lambda>q n. (Inl (HttpError ''ConnectError''), n))"
  let ?g = "\<lparr>ro_origin = ''https://technocore.chat'', ro_max = 1024\<rparr>"
  obtain r t where e: "egress_handle ?N ?g ''GET'' ''/healthz'' ((), []) = (r, t)"
    by (cases "egress_handle ?N ?g ''GET'' ''/healthz'' ((), [])")
  have "snd (snd (egress_handle ?N ?g ''GET'' ''/healthz'' ((), []))) = [get_request ''/healthz'']" by code_simp
  then show ?thesis using e read_only_egress_requests [OF e] by auto
qed

lemma relay_state: "relay N g q n = (r, n') \<Longrightarrow> \<exists>x. N q n = (x, n')"
  by (cases "N q n") (auto simp: relay_def tryS_def bindS_def split: sum.splits if_splits)

lemma relay_answer_size:
  assumes "relay_answer g r = Inr (status, ctype, body, retry)"
  shows "int (length body) \<le> max (pe_max g) 64"
proof (cases "is_redirect r")
  case True
  then have "body = ''redirect rejected'' @ nl" using assms by (simp add: relay_answer_def)
  then show ?thesis by (simp add: nl_def)
next
  case False
  then obtain out where o: "stream_body (pe_max g) r = Inr out" using assms by (auto simp: relay_answer_def)
  show ?thesis
  proof (cases out)
    case None
    then have "body = ''upstream response too large'' @ nl" using assms o False by (simp add: relay_answer_def)
    then show ?thesis by (simp add: nl_def)
  next
    case (Some b)
    then have "body = b" using assms o False by (simp add: relay_answer_def)
    with stream_body_size [of "pe_max g" r b] o Some show ?thesis by simp
  qed
qed

lemma relay_size:
  assumes "relay N g q n = (Inr (status, ctype, body, retry), n')"
  shows "int (length body) \<le> max (pe_max g) 64"
proof (cases "N q n")
  case (Pair x m)
  show ?thesis
  proof (cases x)
    case (Inl e)
    then show ?thesis using assms Pair by (auto simp: relay_def tryS_def bindS_def nl_def split: if_splits)
  next
    case (Inr a)
    show ?thesis
    proof (cases "relay_answer g a")
      case (Inl e)
      then show ?thesis using assms Pair Inr by (auto simp: relay_def tryS_def bindS_def nl_def split: if_splits)
    next
      case (Inr y)
      then have "y = (status, ctype, body, retry)"
        using assms Pair \<open>x = Inr a\<close> by (simp add: relay_def tryS_def bindS_def)
      with Inr show ?thesis by (auto intro: relay_answer_size)
    qed
  qed
qed

lemma forward_cases:
  assumes "forward C L N g method target body n = (r, n')"
  shows "(n' = n \<and> (\<forall>reply. r = Inr reply \<longrightarrow> fst reply \<in> {400, 403}))
    \<or> (\<exists>u. urlsplit target = Inr u \<and> u_scheme u = [] \<and> u_netloc u = [] \<and> u_fragment u = []
        \<and> egress_allowed C L g method u body = Inr True
        \<and> (\<exists>x. N (upstream_request method u body) n = (x, n')))"
proof (cases "urlsplit target")
  case (Inl e)
  then show ?thesis using assms by (auto simp: forward_def)
next
  case (Inr u)
  show ?thesis
  proof (cases "u_scheme u \<noteq> [] \<or> u_netloc u \<noteq> [] \<or> u_fragment u \<noteq> []")
    case True
    then show ?thesis using assms Inr by (auto simp: forward_def)
  next
    case clean: False
    show ?thesis
    proof (cases "egress_allowed C L g method u body")
      case (Inl e)
      then show ?thesis using assms Inr clean by (auto simp: forward_def)
    next
      case (Inr ok)
      show ?thesis
      proof (cases ok)
        case False
        then show ?thesis using assms \<open>urlsplit target = Inr u\<close> clean Inr by (auto simp: forward_def)
      next
        case True
        then have "relay N g (upstream_request method u body) n = (r, n')"
          using assms \<open>urlsplit target = Inr u\<close> clean Inr by (simp add: forward_def)
        from relay_state [OF this] have "\<exists>x. N (upstream_request method u body) n = (x, n')" .
        moreover have "u_scheme u = [] \<and> u_netloc u = [] \<and> u_fragment u = []" using clean by simp
        moreover have "egress_allowed C L g method u body = Inr True" using Inr True by simp
        ultimately show ?thesis using \<open>urlsplit target = Inr u\<close> by (intro disjI2 exI [of _ u]) simp
      qed
    qed
  qed
qed

lemma write_allowed_True:
  assumes "write_allowed C L g path query body = Inr True"
  shows "\<exists>kvs sig nonce content n payload absent. body_fields g (note_namespace g path) body = Some (kvs, sig, nonce, content)
    \<and> parse_qs (sl_unescape L) False query = Inr [(''format'', [''json''])]
    \<and> (room_path path \<noteq> None \<or> note_namespace g path \<noteq> None)
    \<and> (\<forall>room. room_path path = Some room \<longrightarrow> room = pe_service_room g \<or> starts_with ''mb-'' room \<or> room \<in> set (pe_engagement_rooms g))
    \<and> (\<forall>room. room_path path = Some room \<and> room \<in> set (pe_engagement_rooms g) \<longrightarrow> valid_outbound_text content)
    \<and> (note_namespace g path \<noteq> None \<longrightarrow> content = pe_writer_did g)
    \<and> in_none_true L (note_namespace g path = Some ''room-owners'') absent = Inr True
    \<and> int_of_text nonce = Inr n \<and> write_payload g (note_namespace g path) (room_path path) n content = Inr payload
    \<and> verify_signature C (pe_writer_did g) payload sig"
proof -
  have q: "parse_qs (sl_unescape L) False query = Inr [(''format'', [''json''])]"
    and some: "room_path path \<noteq> None \<or> note_namespace g path \<noteq> None"
    and rooms: "\<forall>room. room_path path = Some room \<longrightarrow> room = pe_service_room g \<or> starts_with ''mb-'' room \<or> room \<in> set (pe_engagement_rooms g)"
    using assms by (auto simp: write_allowed_def Let_def split: if_splits option.splits)
  obtain kvs sig nonce content where b: "body_fields g (note_namespace g path) body = Some (kvs, sig, nonce, content)"
    using assms by (auto simp: write_allowed_def Let_def split: if_splits option.splits)
  have "(\<forall>room. room_path path = Some room \<and> room \<in> set (pe_engagement_rooms g) \<longrightarrow> valid_outbound_text content)"
    and "note_namespace g path \<noteq> None \<longrightarrow> content = pe_writer_did g"
    and "in_none_true L (note_namespace g path = Some ''room-owners'') (map_of kvs ''if_absent'') = Inr True"
    and "\<exists>n payload. int_of_text nonce = Inr n \<and> write_payload g (note_namespace g path) (room_path path) n content = Inr payload
      \<and> verify_signature C (pe_writer_did g) payload sig"
    using assms by (auto simp: write_allowed_def Let_def b split: if_splits option.splits)
  then show ?thesis using q some rooms b by blast
qed

text \<open>
  C15: A write that the pilot egress lets through carries a signature that verifies under the writer's DID over
  exactly the posted content: a room message goes to the service room, a mailbox or an engagement room, and to
  an engagement room only with a text that the engagement policy can produce; a note is the writer's own DID
  under the two ownership notes of the service room.
\<close>

theorem pilot_write_sound:
  assumes "write_allowed C L g path query body = Inr True"
  shows "\<exists>kvs sig nonce n content payload. loads_bytes body = Inr (PDict kvs)
    \<and> map_of kvs ''did'' = Some (PStr (pe_writer_did g)) \<and> map_of kvs ''sig'' = Some (PStr sig) \<and> sig_text sig
    \<and> map_of kvs ''nonce'' = Some (PStr nonce) \<and> length nonce \<le> 19 \<and> int_of_text nonce = Inr n
    \<and> verify_signature C (pe_writer_did g) payload sig
    \<and> (case note_namespace g path of
         None \<Rightarrow> \<exists>room. room_path path = Some room \<and> map_of kvs ''text'' = Some (PStr content) \<and> length content \<le> 4096
           \<and> signed_room_payload room n content = Inr payload
           \<and> (room = pe_service_room g \<or> starts_with ''mb-'' room \<or> room \<in> set (pe_engagement_rooms g))
           \<and> (room \<in> set (pe_engagement_rooms g) \<longrightarrow> valid_outbound_text content)
       | Some namespace \<Rightarrow> map_of kvs ''value'' = Some (PStr content) \<and> content = pe_writer_did g
           \<and> signed_note_payload namespace (pe_service_room g) n content = Inr payload)"
proof -
  let ?ns = "note_namespace g path"
  obtain kvs sig nonce content n payload where b: "body_fields g ?ns body = Some (kvs, sig, nonce, content)"
    and w: "room_path path \<noteq> None \<or> ?ns \<noteq> None"
      "\<forall>room. room_path path = Some room \<longrightarrow> room = pe_service_room g \<or> starts_with ''mb-'' room \<or> room \<in> set (pe_engagement_rooms g)"
      "\<forall>room. room_path path = Some room \<and> room \<in> set (pe_engagement_rooms g) \<longrightarrow> valid_outbound_text content"
      "?ns \<noteq> None \<longrightarrow> content = pe_writer_did g" "int_of_text nonce = Inr n"
      "write_payload g ?ns (room_path path) n content = Inr payload" "verify_signature C (pe_writer_did g) payload sig"
    using write_allowed_True [OF assms] by blast
  have f: "loads_bytes body = Inr (PDict kvs) \<and> map_of kvs ''did'' = Some (PStr (pe_writer_did g))
      \<and> map_of kvs ''sig'' = Some (PStr sig) \<and> sig_text sig \<and> map_of kvs ''nonce'' = Some (PStr nonce) \<and> length nonce \<le> 19
      \<and> map_of kvs (if ?ns = None then ''text'' else ''value'') = Some (PStr content)
      \<and> length content \<le> (if ?ns = None then 4096 else 8192)"
    using b by (auto simp: body_fields_def Let_def split: sum.splits pyval.splits option.splits if_splits)
  show ?thesis
  proof (cases ?ns)
    case None
    then obtain room where "room_path path = Some room" using w(1) by blast
    then show ?thesis using f w None by (intro exI conjI) (auto simp: write_payload_def)
  next
    case (Some ns)
    then show ?thesis using f w by (intro exI conjI) (auto simp: write_payload_def)
  qed
qed

definition fixed_sig_crypto :: crypto where
  "fixed_sig_crypto = demo_crypto\<lparr>c_sign := (\<lambda>k m. replicate 64 CHR 0x05), c_verify := (\<lambda>k s m. s = replicate 64 CHR 0x05)\<rparr>"

lemma fixed_sig_verifies:
  "did_from_public_key k = Inr d \<Longrightarrow> verify_signature fixed_sig_crypto d p (base64url (replicate 64 CHR 0x05))"
  using public_key_roundtrip [of k d]
  by (simp add: verify_signature_def base64url_roundtrip length_base64url fixed_sig_crypto_def)

definition demo_pilot :: "string \<Rightarrow> pilot_egress" where
  "demo_pilot d = \<lparr>pe_origin = ''https://technocore.chat'', pe_writer_did = d, pe_service_room = ''d-rosetta'',
     pe_request_mailbox = ''mb-rosetta'', pe_read_rooms = [''d-rosetta'', ''mb-rosetta''], pe_engagement_rooms = [], pe_max = 1024\<rparr>"

definition demo_post :: "string \<Rightarrow> pyval" where
  "demo_post d = PDict [(''did'', PStr d), (''sig'', PStr (base64url (replicate 64 CHR 0x05))), (''nonce'', PStr ''7''), (''text'', PStr ''hi'')]"

lemma demo_post_body: "\<exists>b. canonical_json (demo_post d) = Inr b \<and> loads_bytes b = Inr (norm (demo_post d))"
proof -
  have "reject_noncanonical_numbers (demo_post d) = Inr ()" by (simp add: demo_post_def)
  moreover have "succeeds (dumps False (demo_post d))"
    by (simp add: demo_post_def join_dict_def sort_key_simps item_text_def)
  ultimately have "\<exists>b. canonical_json (demo_post d) = Inr b" by (auto simp: canonical_json_def succeeds_iff)
  then show ?thesis using canonical_json_roundtrip [of "demo_post d"] by (auto simp: demo_post_def)
qed

lemma demo_post_allowed:
  assumes "did_from_public_key k = Inr d" "loads_bytes b = Inr (norm (demo_post d))"
  shows "write_allowed fixed_sig_crypto plain_stdlib (demo_pilot d) ''/r/d-rosetta'' ''format=json'' b = Inr True"
proof -
  have rp: "room_path ''/r/d-rosetta'' = Some ''d-rosetta''" by code_simp
  have ns: "note_namespace (demo_pilot d) ''/r/d-rosetta'' = None"
    by (simp add: note_namespace_def note_path_def)
  have q: "parse_qs (sl_unescape plain_stdlib) False ''format=json'' = Inr [(''format'', [''json''])]" by code_simp
  have s: "sig_text (base64url (replicate 64 CHR 0x05))" by code_simp
  have n: "str_isdigit ''7''" "int_of_text ''7'' = Inr 7" by code_simp+
  have p: "succeeds (signed_room_payload ''d-rosetta'' 7 ''hi'')" by code_simp
  have norm: "norm (demo_post d) = PDict [(''did'', PStr d), (''nonce'', PStr ''7''),
      (''sig'', PStr (base64url (replicate 64 CHR 0x05))), (''text'', PStr ''hi'')]"
    by (simp add: demo_post_def sort_key_simps)
  have "body_fields (demo_pilot d) None b = Some ([(''did'', PStr d), (''nonce'', PStr ''7''),
      (''sig'', PStr (base64url (replicate 64 CHR 0x05))), (''text'', PStr ''hi'')], base64url (replicate 64 CHR 0x05), ''7'', ''hi'')"
    unfolding body_fields_def assms(2) norm by (simp add: Let_def demo_pilot_def s n)
  then show ?thesis
    using p unfolding write_allowed_def q rp ns
    by (auto simp: demo_pilot_def in_none_true_def n write_payload_def fixed_sig_verifies [OF assms(1)] succeeds_iff)
qed

lemma pilot_write_sound_witness:
  "\<exists>d b kvs. write_allowed fixed_sig_crypto plain_stdlib (demo_pilot d) ''/r/d-rosetta'' ''format=json'' b = Inr True
     \<and> loads_bytes b = Inr (PDict kvs) \<and> map_of kvs ''did'' = Some (PStr d)"
proof -
  have "\<exists>d. did_from_public_key (replicate 32 CHR ''k'') = Inr d" by (simp add: did_from_public_key_def)
  then obtain d where d: "did_from_public_key (replicate 32 CHR ''k'') = Inr d" by blast
  obtain b where b: "loads_bytes b = Inr (norm (demo_post d))" using demo_post_body by blast
  note ok = demo_post_allowed [OF d b]
  from pilot_write_sound [OF ok] obtain kvs where
    "loads_bytes b = Inr (PDict kvs)" "map_of kvs ''did'' = Some (PStr (pe_writer_did (demo_pilot d)))" by blast
  then have "map_of kvs ''did'' = Some (PStr d)" by (simp add: demo_pilot_def)
  with ok \<open>loads_bytes b = Inr (PDict kvs)\<close> show ?thesis by blast
qed

text \<open>
  C16: The pilot egress forwards nothing that its policy did not allow: over a network that logs its requests,
  one handled request adds at most one entry, and only when the target is a bare path whose policy check
  returned true; the entry is exactly that method, path, query and body, and a body has at most 20000 bytes.
\<close>

theorem pilot_forwards_only_allowed:
  assumes "pilot_handle C L (logged N) g method target raw_length incoming s = (r, t)"
  shows "snd t = snd s \<or> (\<exists>u body. urlsplit target = Inr u \<and> u_scheme u = [] \<and> u_netloc u = [] \<and> u_fragment u = []
      \<and> egress_allowed C L g method u body = Inr True \<and> length body \<le> 20000
      \<and> snd t = snd s @ [upstream_request method u body])"
proof -
  have fwd: "snd t = snd s \<or> (\<exists>u body. urlsplit target = Inr u \<and> u_scheme u = [] \<and> u_netloc u = [] \<and> u_fragment u = []
      \<and> egress_allowed C L g method u body = Inr True \<and> length body \<le> 20000
      \<and> snd t = snd s @ [upstream_request method u body])"
    if "forward C L (logged N) g method target body s = (x, t)" "length body \<le> 20000" for body x
    using forward_cases [OF that(1)] that(2) logged_log [of N _ s _ t] by blast
  show ?thesis
  proof (cases "method = ''GET''")
    case True
    then have "forward C L (logged N) g method target [] s = (r, t)" using assms by (simp add: pilot_handle_def)
    then show ?thesis using fwd by simp
  next
    case get: False
    show ?thesis
    proof (cases "method = ''POST'' \<and> (\<exists>l. raw_length = Some l \<and> str_isdigit l)")
      case True
      then obtain l where l: "raw_length = Some l" "str_isdigit l" "method = ''POST''" by blast
      show ?thesis
      proof (cases "int_of_text l")
        case (Inr n)
        show ?thesis
        proof (cases "20000 < n")
          case False
          then have "forward C L (logged N) g method target (take (nat n) incoming) s = (r, t)"
            using assms l Inr by (simp add: pilot_handle_def)
          moreover have "length (take (nat n) incoming) \<le> 20000" using False by simp
          ultimately show ?thesis using fwd by blast
        qed (use assms l Inr in \<open>auto simp: pilot_handle_def\<close>)
      qed (use assms l in \<open>auto simp: pilot_handle_def\<close>)
    qed (use assms get in \<open>auto simp: pilot_handle_def split: option.splits if_splits\<close>)
  qed
qed

lemma pilot_forwards_only_allowed_witness:
  "\<exists>r t. pilot_handle fixed_sig_crypto plain_stdlib (logged (\<lambda>q n. (Inl (HttpError ''ConnectError''), n))) (demo_pilot ''did:key:z6Mk'')
     ''GET'' ''/healthz'' None [] ((), []) = (r, t) \<and> snd t \<noteq> []
     \<and> (\<exists>u. snd t = [upstream_request ''GET'' u []])"
proof -
  let ?N = "logged (\<lambda>q n. (Inl (HttpError ''ConnectError''), n))"
  let ?op = "pilot_handle fixed_sig_crypto plain_stdlib ?N (demo_pilot ''did:key:z6Mk'') ''GET'' ''/healthz'' None [] ((), [])"
  obtain r t where e: "?op = (r, t)" by (cases ?op)
  have ne: "snd (snd ?op) \<noteq> []" by code_simp
  from pilot_forwards_only_allowed [OF e] ne e obtain u body where "snd t = [upstream_request ''GET'' u body]" by auto
  then have "\<exists>u. snd t = [upstream_request ''GET'' u []]" by (auto simp: upstream_request_def)
  then show ?thesis using e ne by auto
qed

end
