(* ===== verification/Evidence.thy ===== *)
theory Evidence
  imports Service Files Egress
begin

text \<open>
  \<open>rosetta/evidence.py\<close>: the hash chain of the events of a run, the bundle of
  files with its checksums and its attestation, and the check of a bundle.
  Building works on the shared state of the workers beside a tree of files.
\<close>

section \<open>Event chains\<close>

definition event_base :: "scenario_result \<Rightarrow> nat \<Rightarrow> adapter_event \<Rightarrow> string \<Rightarrow> (string \<times> pyval) list" where
  "event_base r n e previous = [(''schema'', PStr ''rosetta.evidence-event.v1''), (''sequence'', PInt (int n)),
     (''actor'', PStr (ae_actor e)), (''operation'', PStr (ae_operation e)), (''status'', PStr (ae_status e)),
     (''correlation_id'', (case map_of (sn_reproduction r) ''correlation_id'' of None \<Rightarrow> PStr [] | Some v \<Rightarrow> v)),
     (''detail'', redact 512 (PDict (ae_detail e))), (''previous_hash'', PStr previous)]"

fun chain_from :: "crypto \<Rightarrow> scenario_result \<Rightarrow> nat \<Rightarrow> string \<Rightarrow> adapter_event list \<Rightarrow> pyval list result" where
  "chain_from C r n previous [] = Inr []"
| "chain_from C r n previous (e # es) = (let base = event_base r n e previous in
     bindE (canonical_json (PDict base)) (\<lambda>b. let current = prefixed_digest C b in
     bindE (chain_from C r (Suc n) current es) (\<lambda>vs. Inr (PDict (base @ [(''event_hash'', PStr current)]) # vs))))"

definition event_chain :: "crypto \<Rightarrow> scenario_result \<Rightarrow> pyval list result" where
  "event_chain C r = chain_from C r 1 (''sha256:'' @ replicate 64 CHR ''0'') (sn_events r)"

section \<open>Entries and roots\<close>

definition is_payload :: "string \<Rightarrow> bool" where
  "is_payload p = (path_name p \<notin> {''checksums.txt'', ''attestation.json''})"

definition bundle_entries :: "crypto \<Rightarrow> tree \<Rightarrow> (string \<times> string) list" where
  "bundle_entries C fs = map (\<lambda>(p, b). (p, sha256_hex C b)) (filter (\<lambda>(p, _). is_payload p) (sorted_files fs))"

definition entry_dict :: "string \<times> string \<Rightarrow> pyval" where
  "entry_dict e = PDict [(''path'', PStr (fst e)), (''sha256'', PStr (snd e))]"

definition compute_bundle_root :: "crypto \<Rightarrow> (string \<times> string) list \<Rightarrow> string result" where
  "compute_bundle_root C entries = bindE (canonical_json (PList (map entry_dict (sort entries)))) (\<lambda>b.
     Inr (prefixed_digest C b))"

section \<open>Building a bundle\<close>

definition on_snd :: "('t, 'a) op \<Rightarrow> ('w \<times> 't, 'a) op" where
  "on_snd m wt = (case m (snd wt) of (r, t) \<Rightarrow> (r, (fst wt, t)))"

definition write_line :: "string \<Rightarrow> string \<Rightarrow> pyval \<Rightarrow> (tree, unit) op" where
  "write_line d name v = bindS (liftS (canonical_json v)) (\<lambda>b. write_bytes (inside d (normal_path name)) (b @ [CHR 0x0A]))"

definition cell_name :: "scenario_result \<Rightarrow> string" where
  "cell_name r = sn_producer r @ ''--'' @ sn_consumer r"

definition reproduce_command :: "scenario_result \<Rightarrow> string" where
  "reproduce_command r = (if map_of (sn_reproduction r) ''mode'' = Some (PStr ''upstream_oci'') then ''make upstream-acceptance''
     else ''PYTHONPATH=src python3 -m rosetta.cli cell --producer '' @ sn_producer r @ '' --consumer '' @ sn_consumer r) @ [CHR 0x0A]"

definition matrix_cell_of :: "run_record \<Rightarrow> (string \<times> string) list \<Rightarrow> scenario_result \<Rightarrow> matrix_cell result" where
  "matrix_cell_of run versions r =
     bindE (of_option (KeyError (sn_producer r)) (map_of versions (sn_producer r))) (\<lambda>pv.
     bindE (of_option (KeyError (sn_consumer r)) (map_of versions (sn_consumer r))) (\<lambda>cv.
     Inr \<lparr>mc_producer = sn_producer r, mc_consumer = sn_consumer r, mc_outcome = sn_outcome r, mc_reason = sn_reason r,
       mc_protocol_release = rr_protocol_release run, mc_scenario = rr_scenario run,
       mc_versions = dict_of_pairs [(sn_producer r, pv), (sn_consumer r, cv)], mc_assertions = sn_assertions r,
       mc_evidence_file = ''evidence/'' @ cell_name r @ ''.json''\<rparr>))"

definition write_cell ::
  "crypto \<Rightarrow> string \<Rightarrow> run_record \<Rightarrow> (string \<times> string) list \<Rightarrow> scenario_result \<Rightarrow> (tree, pyval) op" where
  "write_cell C d run versions r =
     bindS (liftS (matrix_cell_of run versions r)) (\<lambda>cell.
     bindS (liftS (event_chain C r)) (\<lambda>chain.
     bindS (write_line d (mc_evidence_file cell) (PList chain)) (\<lambda>_.
     bindS (write_line d (''reproduce/'' @ cell_name r @ ''.json'') (PDict (sn_reproduction r))) (\<lambda>_.
     bindS (write_bytes (inside d (normal_path (''reproduce/'' @ cell_name r @ ''.txt''))) (utf8 (reproduce_command r))) (\<lambda>_.
     retS (cell_dict cell))))))"

definition count_outcome :: "outcome \<Rightarrow> scenario_result list \<Rightarrow> nat" where
  "count_outcome oc rs = length (filter (\<lambda>r. sn_outcome r = oc) rs)"

definition summary_text :: "run_record \<Rightarrow> scenario_result list \<Rightarrow> string" where
  "summary_text run rs = (let br = [CHR 0x0A] in
     ''# Rosetta local observation'' @ br @ br @ ''Scenario: `'' @ rr_scenario run @ ''`'' @ br @ br @
     ''Observed cells: '' @ str_int (int (length rs)) @ ''; pass: '' @ str_int (int (count_outcome OPass rs)) @
     ''; fail: '' @ str_int (int (count_outcome OFail rs)) @ ''.'' @ br @ br @
     ''This artifact reports bounded observed behavior. It is not a claim of trust, '' @
     ''safety, endorsement, official status, or eligibility.'' @ br)"

definition write_payload_files ::
  "crypto \<Rightarrow> string \<Rightarrow> run_record \<Rightarrow> scenario_result list \<Rightarrow> (string \<times> string) list \<Rightarrow> (tree, unit) op" where
  "write_payload_files C d run results versions =
     bindS (write_line d ''run.json'' (run_dict run)) (\<lambda>_.
     bindS (mapS (write_cell C d run versions) results) (\<lambda>cells.
     bindS (write_line d ''matrix.json'' (PDict [(''schema'', PStr ''rosetta.matrix.v1''), (''cells'', PList cells)])) (\<lambda>_.
     write_bytes (inside d ''summary.md'') (utf8 (summary_text run results)))))"

definition checksum_text :: "(string \<times> string) list \<Rightarrow> string" where
  "checksum_text entries = concat (map (\<lambda>(p, digest). digest @ ''  '' @ p @ [CHR 0x0A]) entries)"

definition build_bundle ::
  "crypto \<Rightarrow> ('x, 't) signer \<Rightarrow> string \<Rightarrow> run_record \<Rightarrow> scenario_result list \<Rightarrow> (string \<times> string) list \<Rightarrow>
    (('x, 't) env \<times> tree, string) op" where
  "build_bundle C sign d run results versions =
     bindS (getS snd) (\<lambda>t.
     raiseS_if (below d t \<noteq> []) (ValueError ''bundle destination must be empty'')
     (bindS (on_snd (write_payload_files C d run results versions)) (\<lambda>_.
      bindS (getS (\<lambda>wt. bundle_entries C (below d (snd wt)))) (\<lambda>entries.
      bindS (on_snd (write_bytes (inside d ''checksums.txt'') (utf8 (checksum_text entries)))) (\<lambda>_.
      bindS (liftS (compute_bundle_root C entries)) (\<lambda>root.
      bindS (on_fst (sign (digest_request ArtifactRoot ''bundle'' root))) (\<lambda>signed.
      bindS (on_snd (write_line d ''attestation.json''
        (attestation_dict \<lparr>at_did = sp_did signed, at_bundle_root = root, at_signature = sp_signature signed\<rparr>))) (\<lambda>_.
      retS root))))))))"

section \<open>Verifying a bundle\<close>

definition default_literal :: "string \<Rightarrow> pyval option \<Rightarrow> unit result" where
  "default_literal s v = (case v of None \<Rightarrow> Inr () | Some w \<Rightarrow> check (w = PStr s) (Inr ()))"

definition parse_attestation :: "pydantic \<Rightarrow> pyval \<Rightarrow> attestation result" where
  "parse_attestation P v = bindE (as_dict P v) (\<lambda>kvs. let f = map_of kvs in
     check (closed_fields [''domain'', ''did'', ''bundle_root'', ''signature'', ''algorithm''] ''rosetta.attestation.v1'' False kvs)
     (bindE (default_literal ''rosetta.artifact.v1'' (f ''domain'')) (\<lambda>_.
      bindE (strict_str (f ''did'')) (\<lambda>d. bindE (strict_str (f ''bundle_root'')) (\<lambda>r.
      bindE (strict_str (f ''signature'')) (\<lambda>s. bindE (default_literal ''Ed25519'' (f ''algorithm'')) (\<lambda>_.
      Inr \<lparr>at_did = d, at_bundle_root = r, at_signature = s\<rparr>)))))))"

definition parse_raw :: "(pyval \<Rightarrow> 'a result) \<Rightarrow> bytes \<Rightarrow> 'a result" where
  "parse_raw parse b = (case loads_bytes b of Inl _ \<Rightarrow> invalid | Inr v \<Rightarrow> parse v)"

text \<open>
  One line of the checksum file.  A path that leaves the bundle or is not in normal form finds nothing
  here; the code may read a file there, and then refuses it because the sets of paths differ.
\<close>

definition check_line :: "crypto \<Rightarrow> tree \<Rightarrow> string \<Rightarrow> (string \<times> string) result" where
  "check_line C fs line = (case split_gap line of
     None \<Rightarrow> Inl (ValueError ''not enough values to unpack'')
   | Some (digest, p) \<Rightarrow> (case map_of fs p of
        None \<Rightarrow> Inl (ValueError (''checksum mismatch: '' @ p))
      | Some b \<Rightarrow> raise_if (sha256_hex C b \<noteq> digest) (ValueError (''checksum mismatch: '' @ p)) (Inr (p, digest))))"

definition verify_files :: "crypto \<Rightarrow> pydantic \<Rightarrow> tree \<Rightarrow> string result" where
  "verify_files C P fs =
     bindE (read_text ''checksums.txt'' fs) (\<lambda>sums.
     bindE (mapE (check_line C fs) (split_lines sums)) (\<lambda>expected.
     let actual = bundle_entries C fs in
     raise_if (actual \<noteq> sort expected) (ValueError ''bundle file set differs from checksums'')
     (bindE (compute_bundle_root C actual) (\<lambda>root.
      bindE (read_bytes ''attestation.json'' fs) (\<lambda>raw.
      bindE (parse_raw (parse_attestation P) raw) (\<lambda>att.
      raise_if (at_bundle_root att \<noteq> root) (ValueError ''bundle root mismatch'')
      (bindE (artifact_payload root) (\<lambda>payload.
       raise_if (\<not> verify_signature C (at_did att) payload (at_signature att)) (ValueError ''invalid bundle attestation'')
       (Inr root)))))))))"

definition verify_bundle :: "crypto \<Rightarrow> pydantic \<Rightarrow> string \<Rightarrow> tree \<Rightarrow> string result" where
  "verify_bundle C P d t = verify_files C P (below d t)"

section \<open>The files of a bundle\<close>

text \<open>Adapter names that make one part of a path and no line break.\<close>

definition plain_id :: "string \<Rightarrow> bool" where
  "plain_id s = list_all (\<lambda>c. c \<noteq> CHR ''/'' \<and> \<not> line_break c) s"

definition plain_name :: "string \<Rightarrow> bool" where
  "plain_name x = (plain_id x \<and> x \<notin> {''checksums.txt'', ''attestation.json''})"

definition top_names :: "string list" where
  "top_names = [''matrix.json'', ''run.json'', ''summary.md'']"

definition bundle_path :: "string \<Rightarrow> bool" where
  "bundle_path p = (p \<in> set top_names \<or> (\<exists>x. plain_name x \<and> (p = ''evidence/'' @ x \<or> p = ''reproduce/'' @ x)))"

definition payload_ok :: "tree \<Rightarrow> bool" where
  "payload_ok fs = (distinct (map fst fs) \<and> (\<forall>p \<in> fst ` set fs. bundle_path p))"

lemma split_on_none: "d \<notin> set x \<Longrightarrow> split_on d x = [x]"
  by (induction x) auto

lemma split_on_append: "d \<notin> set a \<Longrightarrow> split_on d (a @ d # b) = a # split_on d b"
  by (induction a) auto

lemma plain_id_slash: "plain_id x \<Longrightarrow> CHR ''/'' \<notin> set x"
  by (auto simp: plain_id_def list_all_iff)

lemma split_bundle_dirs:
  assumes "plain_id x"
  shows "split_on CHR ''/'' (''evidence/'' @ x) = [''evidence'', x]" "split_on CHR ''/'' (''reproduce/'' @ x) = [''reproduce'', x]"
  using split_on_append [of "CHR ''/''" "''evidence''" x] split_on_append [of "CHR ''/''" "''reproduce''" x]
    split_on_none [OF plain_id_slash [OF assms]] by simp_all

lemma normal_bundle_path:
  assumes "plain_id x" "x \<noteq> []" "x \<noteq> ''.''"
  shows "normal_path (''evidence/'' @ x) = ''evidence/'' @ x" "normal_path (''reproduce/'' @ x) = ''reproduce/'' @ x"
  unfolding normal_path_def path_parts_def split_bundle_dirs [OF assms(1)] using assms(2,3) by simp_all

lemma normal_top: "normal_path ''run.json'' = ''run.json''" "normal_path ''matrix.json'' = ''matrix.json''"
  "normal_path ''attestation.json'' = ''attestation.json''"
  by code_simp+

lemma bundle_path_payload: "bundle_path p \<Longrightarrow> is_payload p"
proof -
  assume "bundle_path p"
  then consider "p \<in> set top_names" | x where "plain_name x" "p = ''evidence/'' @ x \<or> p = ''reproduce/'' @ x"
    unfolding bundle_path_def by blast
  then show ?thesis
  proof cases
    case 1
    then show ?thesis by (auto simp: top_names_def is_payload_def path_name_def)
  next
    case 2
    then show ?thesis by (auto simp: is_payload_def path_name_def plain_name_def split_bundle_dirs simp del: append_Cons append.simps)
  qed
qed

lemma bundle_path_order:
  assumes "bundle_path p" "bundle_path q" "split_on CHR ''/'' p \<le> split_on CHR ''/'' q"
  shows "p \<le> q"
proof -
  have top: "p \<in> set top_names \<or> (\<exists>x. plain_id x \<and> (p = ''evidence/'' @ x \<or> p = ''reproduce/'' @ x))" if "bundle_path p" for p
    using that by (auto simp: bundle_path_def plain_name_def)
  have split_top: "split_on CHR ''/'' r = [r]" if "r \<in> set top_names" for r
    using that by (auto simp: top_names_def)
  show ?thesis
    using top [OF assms(1)] top [OF assms(2)] assms(3)
    by (auto simp: split_bundle_dirs [simplified] top_names_def less_char_def)
qed

lemma payload_ok_put: "payload_ok fs \<Longrightarrow> bundle_path p \<Longrightarrow> payload_ok (dict_put p b fs)"
  by (auto simp: payload_ok_def distinct_dict_put keys_dict_put)

lemma writes_payload: "bundle_path p \<Longrightarrow> preserves (\<lambda>t. payload_ok (below d t)) (write_bytes (inside d p) b)"
  by (auto intro!: preservesI payload_ok_put simp: write_bytes_def)

lemma writes_payload_line:
  "bundle_path (normal_path p) \<Longrightarrow> preserves (\<lambda>t. payload_ok (below d t)) (write_line d p v)"
  unfolding write_line_def by (intro preserves_intros writes_payload)

lemma preserves_mapS_all: "list_all (\<lambda>x. preserves I (f x)) xs \<Longrightarrow> preserves I (mapS f xs)"
  by (induction xs) (auto intro!: preserves_intros)

lemma cell_names:
  assumes "plain_id (sn_producer r)" "plain_id (sn_consumer r)" "list_all (\<lambda>c. c \<noteq> CHR ''/'' \<and> \<not> line_break c) e"
    "e \<noteq> ''--''"
  shows "plain_name (cell_name r @ e)" "cell_name r @ e \<noteq> []" "cell_name r @ e \<noteq> ''.''"
proof -
  have dash: "CHR ''-'' \<in> set (cell_name r @ e)" by (simp add: cell_name_def)
  have "\<not> line_break CHR ''-''" by code_simp
  then have "plain_id (cell_name r @ e)" using assms(1-3) by (simp add: plain_id_def cell_name_def)
  moreover have "CHR ''-'' \<notin> set ''checksums.txt''" "CHR ''-'' \<notin> set ''attestation.json''" by simp_all
  ultimately show "plain_name (cell_name r @ e)" using dash unfolding plain_name_def by (metis empty_iff insert_iff)
  show "cell_name r @ e \<noteq> []" using dash by auto
  have "CHR ''-'' \<notin> set ''.''" by simp
  with dash show "cell_name r @ e \<noteq> ''.''" by metis
qed

lemma bundle_path_dirs:
  assumes "plain_name x" "x \<noteq> []" "x \<noteq> ''.''"
  shows "bundle_path (normal_path (''evidence/'' @ x))" "bundle_path (normal_path (''reproduce/'' @ x))"
  using assms normal_bundle_path [of x] unfolding bundle_path_def plain_name_def by metis+

lemma write_cell_payload:
  assumes "plain_id (sn_producer r)" "plain_id (sn_consumer r)"
  shows "preserves (\<lambda>t. payload_ok (below d t)) (write_cell C d run versions r)"
proof -
  have ext: "list_all (\<lambda>c. c \<noteq> CHR ''/'' \<and> \<not> line_break c) ''.json''" "list_all (\<lambda>c. c \<noteq> CHR ''/'' \<and> \<not> line_break c) ''.txt''"
    by code_simp+
  note names = cell_names [OF assms ext(1)] cell_names [OF assms ext(2)]
  have "bundle_path (normal_path (''evidence/'' @ cell_name r @ ''.json''))"
    "bundle_path (normal_path (''reproduce/'' @ cell_name r @ ''.json''))"
    "bundle_path (normal_path (''reproduce/'' @ cell_name r @ ''.txt''))"
    using bundle_path_dirs names by blast+
  note paths = this
  show ?thesis
  proof (cases "matrix_cell_of run versions r")
    case (Inr cell)
    then have "mc_evidence_file cell = ''evidence/'' @ cell_name r @ ''.json''" by (auto simp: matrix_cell_of_def)
    with Inr paths show ?thesis
      unfolding write_cell_def by (auto intro!: preserves_intros writes_payload writes_payload_line simp del: append.simps)
  qed (simp add: write_cell_def preserves_intros)
qed

lemma payload_files_ok:
  assumes "list_all (\<lambda>r. plain_id (sn_producer r) \<and> plain_id (sn_consumer r)) results"
  shows "preserves (\<lambda>t. payload_ok (below d t)) (write_payload_files C d run results versions)"
proof -
  have cells: "list_all (\<lambda>r. preserves (\<lambda>t. payload_ok (below d t)) (write_cell C d run versions r)) results"
    using assms by (auto simp: list_all_iff intro!: write_cell_payload)
  have tops: "bundle_path ''run.json''" "bundle_path ''matrix.json''" "bundle_path ''summary.md''"
    by (simp_all add: bundle_path_def top_names_def)
  show ?thesis unfolding write_payload_files_def
    using tops cells normal_top
    by (auto intro!: preserves_intros writes_payload writes_payload_line preserves_mapS_all simp del: append.simps)
qed

section \<open>Reading a bundle back\<close>

lemma key_order:
  "distinct (map fst fs) \<Longrightarrow> sorted_wrt (\<lambda>x y. fst x \<le> fst y) fs \<Longrightarrow> sorted (map (\<lambda>(p, b). (p, f b)) (fs :: (string \<times> 'b) list) :: (string \<times> string) list)"
proof (induction fs)
  case (Cons x fs)
  then have "\<forall>y \<in> set fs. fst x < fst y" by (auto simp: less_le image_iff)
  with Cons show ?case by (cases x) (force simp: less_eq_prod_def)
qed simp

lemma entries_sorted:
  assumes ok: "payload_ok fs"
  shows "sorted (bundle_entries C fs)" "map fst (bundle_entries C fs) = map fst (sorted_files fs)"
    "set (bundle_entries C fs) = (\<lambda>(p, b). (p, sha256_hex C b)) ` set fs"
proof -
  have set_eq: "set (sorted_files fs) = set fs" by (simp add: sorted_files_def)
  have all: "filter (\<lambda>(p, _). is_payload p) (sorted_files fs) = sorted_files fs"
    unfolding filter_id_conv set_eq using ok by (force simp: payload_ok_def bundle_path_payload)
  have "sorted (map (\<lambda>(p, _). split_on CHR ''/'' p) (sorted_files fs))" by (simp add: sorted_files_def)
  then have "sorted_wrt (\<lambda>x y. split_on CHR ''/'' (fst x) \<le> split_on CHR ''/'' (fst y)) (sorted_files fs)"
    by (simp add: sorted_map case_prod_unfold)
  then have "sorted_wrt (\<lambda>x y. fst x \<le> fst y) (sorted_files fs)"
    by (rule sorted_wrt_mono_rel [rotated]) (use ok set_eq in \<open>auto simp: payload_ok_def intro!: bundle_path_order\<close>)
  moreover have "distinct (map fst (sorted_files fs))"
    using ok by (simp add: payload_ok_def sorted_files_def distinct_map inj_on_def)
  ultimately show "sorted (bundle_entries C fs)"
    unfolding bundle_entries_def all by (rule key_order [rotated])
  show "map fst (bundle_entries C fs) = map fst (sorted_files fs)" unfolding bundle_entries_def all by auto
  show "set (bundle_entries C fs) = (\<lambda>(p, b). (p, sha256_hex C b)) ` set fs"
    unfolding bundle_entries_def all using set_eq by simp
qed

lemma entries_skip:
  "filter (\<lambda>(p, _). is_payload p) fs = filter (\<lambda>(p, _). is_payload p) gs \<Longrightarrow> bundle_entries C fs = bundle_entries C gs"
  unfolding bundle_entries_def sorted_files_def by (simp add: filter_sort)

lemma hex_no_space: "CHR '' '' \<notin> set (sha256_hex C b)" "list_all (\<lambda>c. \<not> line_break c) (sha256_hex C b)"
proof -
  have "list_all is_lower_hex (sha256_hex C b)" by (simp add: sha256_hex_def hex_of_bytes_lower)
  moreover have "\<not> is_lower_hex CHR '' ''" by code_simp
  moreover have "is_lower_hex c \<Longrightarrow> \<not> line_break c" for c by (auto simp: is_lower_hex_def line_break_def code_def)
  ultimately show "CHR '' '' \<notin> set (sha256_hex C b)" "list_all (\<lambda>c. \<not> line_break c) (sha256_hex C b)"
    by (auto simp: list_all_iff)
qed

lemma bundle_path_one_line: "bundle_path p \<Longrightarrow> list_all (\<lambda>c. \<not> line_break c) p"
proof -
  have parts: "list_all (\<lambda>c. \<not> line_break c) ''evidence/''" "list_all (\<lambda>c. \<not> line_break c) ''reproduce/''"
    "list_all (list_all (\<lambda>c. \<not> line_break c)) top_names" by code_simp+
  have name: "list_all (\<lambda>c. \<not> line_break c) x" if "plain_name x" for x
    using that by (auto simp: plain_name_def plain_id_def list_all_iff)
  assume "bundle_path p"
  then consider "p \<in> set top_names" | x where "plain_name x" "p = ''evidence/'' @ x \<or> p = ''reproduce/'' @ x"
    unfolding bundle_path_def by blast
  then show ?thesis
  proof cases
    case 1
    then show ?thesis using parts(3) unfolding list_all_iff by blast
  next
    case 2
    then show ?thesis using name [OF 2(1)] parts(1,2) by (auto simp del: append.simps)
  qed
qed

lemma sums_read_back:
  assumes "\<And>p d. (p, d) \<in> set es \<Longrightarrow> list_all (\<lambda>c. \<not> line_break c) p \<and> (\<exists>b. d = sha256_hex C b)"
  shows "split_lines (universal_newlines (checksum_text es)) = map (\<lambda>(p, d). d @ ''  '' @ p) es"
proof -
  let ?line = "\<lambda>(p, d). d @ ''  '' @ p"
  have gap: "list_all (\<lambda>c. \<not> line_break c) ''  ''" by code_simp
  have lines: "list_all (list_all (\<lambda>c. \<not> line_break c)) (map ?line es)"
    using assms gap hex_no_space(2) by (fastforce simp: list_all_iff)
  have concat: "checksum_text es = concat (map (\<lambda>l. l @ [CHR 0x0A]) (map ?line es))"
    unfolding checksum_text_def map_map by (rule arg_cong [where f = concat], rule map_cong) auto
  have "line_break CHR 0x0D" by code_simp
  then have "CHR 0x0D \<notin> set (checksum_text es)" using lines unfolding concat by (auto simp: list_all_iff)
  then show ?thesis using split_lines_concat [OF lines] by (simp add: universal_newlines_id concat)
qed

lemma checksums_read_back:
  assumes ok: "payload_ok fs"
  shows "split_lines (universal_newlines (checksum_text (bundle_entries C fs)))
       = map (\<lambda>(p, digest). digest @ ''  '' @ p) (bundle_entries C fs)"
  by (rule sums_read_back) (use ok bundle_path_one_line in \<open>auto simp: entries_sorted(3) [OF ok] payload_ok_def\<close>)

lemma check_lines_pass:
  assumes ok: "payload_ok fs" and extends: "\<And>p. bundle_path p \<Longrightarrow> map_of gs p = map_of fs p"
  shows "mapE (check_line C gs) (map (\<lambda>(p, digest). digest @ ''  '' @ p) (bundle_entries C fs)) = Inr (bundle_entries C fs)"
proof -
  have "check_line C gs (digest @ ''  '' @ p) = Inr (p, digest)" if e: "(p, digest) \<in> set (bundle_entries C fs)" for p digest
  proof -
    from e obtain b where b: "(p, b) \<in> set fs" "digest = sha256_hex C b" by (auto simp: entries_sorted(3) [OF ok])
    with ok have "map_of fs p = Some b" "bundle_path p" by (auto simp: payload_ok_def rev_image_eqI)
    with extends have "map_of gs p = Some b" by simp
    then show ?thesis using split_gap_append [OF hex_no_space(1)] b by (simp add: check_line_def)
  qed
  then show ?thesis
    by (simp add: mapE_Inr_iff list_all2_map1 list_all2_same case_prod_unfold)
qed

section \<open>Built bundles verify\<close>

text \<open>The signature that a bundle needs, as the contract of the signer.\<close>

locale artifact_signer =
  fixes C :: crypto and sign :: "('x, 't) signer"
  assumes attests: "crypto_ok C \<Longrightarrow> sign (digest_request ArtifactRoot scope root) w = (Inr resp, w') \<Longrightarrow>
      \<exists>payload. artifact_payload root = Inr payload \<and> verify_signature C (sp_did resp) payload (sp_signature resp)"

text \<open>The signer process: it loads its key, then handles requests.\<close>

definition keyed_signer :: "crypto \<Rightarrow> bytes \<Rightarrow> (nonce_store, 't) signer" where
  "keyed_signer C key r = (case identity_of_private C key of Inl e \<Rightarrow> raiseS e | Inr i \<Rightarrow> in_signer (handle C i r))"

lemma in_signer_Inr: "in_signer f w = (Inr a, w') \<Longrightarrow> \<exists>s. f (e_signer w) = (Inr a, s)"
  by (auto simp: in_signer_def split: prod.splits)

lemma keyed_signer_attests:
  assumes C: "crypto_ok C" and h: "keyed_signer C key (digest_request ArtifactRoot scope root) w = (Inr resp, w')"
  shows "\<exists>payload. artifact_payload root = Inr payload \<and> verify_signature C (sp_did resp) payload (sp_signature resp)"
proof -
  from h obtain i s where i: "identity_of_private C key = Inr i"
    and s: "handle C i (digest_request ArtifactRoot scope root) (e_signer w) = (Inr resp, s)"
    by (auto simp: keyed_signer_def split: sum.splits dest: in_signer_Inr)
  from handle_signs [OF C i s] show ?thesis by (auto simp: payload_of_def digest_request_def)
qed

interpretation keyed: artifact_signer C "keyed_signer C key" for C key
  by unfold_locales (rule keyed_signer_attests)

interpretation guarded: artifact_signer C "guarded_sign (keyed_signer C key)" for C key
  by unfold_locales (auto simp: guarded_sign_def dest: keyed_signer_attests)

lemma canonical_line_reads_back:
  assumes "wf_json v" "canonical_json v = Inr b"
  shows "loads_bytes (b @ [CHR 0x0A]) = Inr (norm v)"
proof -
  from assms(2) obtain s where s: "dumps False v = Inr s" "b = utf8 s" by (auto simp: canonical_json_Inr)
  have "utf8 [CHR 0x0A] = [CHR 0x0A]" by code_simp
  then have "b @ [CHR 0x0A] = utf8 (s @ [CHR 0x0A])" unfolding s(2) by (simp add: utf8_def)
  moreover have "list_all is_ws [CHR 0x0A]" by code_simp
  ultimately show ?thesis using loads_dumps_ws [OF assms(1) s(1)] by (simp add: loads_bytes_def)
qed

lemma attestation_reads_back:
  assumes "canonical_json (attestation_dict a) = Inr b"
  shows "parse_raw (parse_attestation P) (b @ [CHR 0x0A]) = Inr a"
proof -
  have "wf_json (attestation_dict a)" by (simp add: attestation_dict_def)
  from canonical_line_reads_back [OF this assms]
  show ?thesis
    by (simp add: parse_raw_def parse_attestation_def attestation_dict_def as_dict_def check_def closed_fields_def
        schema_field_def default_literal_def strict_str_def)
qed

lemma on_pair_Inr [simp]:
  "on_snd m wt = (Inr a, wt') \<longleftrightarrow> (\<exists>t'. m (snd wt) = (Inr a, t') \<and> wt' = (fst wt, t'))"
  "on_fst f wt = (Inr c, wt') \<longleftrightarrow> (\<exists>w'. f (fst wt) = (Inr c, w') \<and> wt' = (w', snd wt))"
  by (auto simp: on_snd_def on_fst_def split: prod.splits)

lemma write_line_Inr:
  "write_line d n v t = (Inr u, t') \<longleftrightarrow> (\<exists>b. canonical_json v = Inr b \<and> t' = dict_put (inside d (normal_path n)) (b @ [CHR 0x0A]) t)"
  by (auto simp: write_line_def write_bytes_def bindS_liftS split: sum.splits)

lemma payload_put_new:
  assumes "payload_ok fs" "\<not> is_payload p" "\<not> is_payload q" "p \<noteq> q"
  shows "filter (\<lambda>(p, _). is_payload p) (dict_put q c (dict_put p b fs)) = filter (\<lambda>(p, _). is_payload p) fs"
proof -
  have "p \<notin> fst ` set fs" "q \<notin> fst ` set fs" using assms by (auto simp: payload_ok_def dest: bundle_path_payload)
  then have "dict_put q c (dict_put p b fs) = fs @ [(p, b), (q, c)]" using assms(4) by (simp add: dict_put_new)
  then show ?thesis using assms(2,3) by simp
qed

lemma made_files_verify:
  assumes fs: "payload_ok fs" and root: "compute_bundle_root C (bundle_entries C fs) = Inr root"
    and line: "canonical_json (attestation_dict \<lparr>at_did = did, at_bundle_root = root, at_signature = sig\<rparr>) = Inr line"
    and payload: "artifact_payload root = Inr p" "verify_signature C did p sig"
  shows "verify_files C P (dict_put ''attestation.json'' (line @ [CHR 0x0A])
      (dict_put ''checksums.txt'' (utf8 (checksum_text (bundle_entries C fs))) fs)) = Inr root" (is "verify_files C P ?gs = _")
proof -
  have outside: "\<not> is_payload ''checksums.txt''" "\<not> is_payload ''attestation.json''" by code_simp+
  have entries: "bundle_entries C ?gs = bundle_entries C fs"
    by (rule entries_skip, rule payload_put_new [OF fs outside]) simp
  have "mapE (check_line C ?gs) (map (\<lambda>(p, digest). digest @ ''  '' @ p) (bundle_entries C fs)) = Inr (bundle_entries C fs)"
    using outside bundle_path_payload by (intro check_lines_pass [OF fs]) auto
  moreover have "read_text ''checksums.txt'' ?gs = Inr (universal_newlines (checksum_text (bundle_entries C fs)))"
    by (simp add: read_text_def read_bytes_def)
  moreover have "read_bytes ''attestation.json'' ?gs = Inr (line @ [CHR 0x0A])" by (simp add: read_bytes_def)
  moreover have "sort (bundle_entries C fs) = bundle_entries C fs" using entries_sorted(1) [OF fs] by (simp add: sorted_sort_id)
  ultimately show ?thesis
    using payload root checksums_read_back [OF fs, of C] attestation_reads_back [OF line, of P]
    by (simp add: verify_files_def entries)
qed

context artifact_signer
begin

lemma built_bundle_verifies:
  assumes C: "crypto_ok C" and ids: "list_all (\<lambda>r. plain_id (sn_producer r) \<and> plain_id (sn_consumer r)) results"
    and b: "build_bundle C sign d run results versions (w, t) = (Inr root, wt)"
  shows "verify_bundle C P d (snd wt) = Inr root"
proof -
  from b obtain u w' resp line where start: "below d t = []"
    and payload: "write_payload_files C d run results versions t = (Inr (), u)"
    and root: "compute_bundle_root C (bundle_entries C (below d u)) = Inr root"
    and sign: "sign (digest_request ArtifactRoot ''bundle'' root) w = (Inr resp, w')"
    and line: "canonical_json (attestation_dict \<lparr>at_did = sp_did resp, at_bundle_root = root, at_signature = sp_signature resp\<rparr>) = Inr line"
    and tree: "snd wt = dict_put (inside d ''attestation.json'') (line @ [CHR 0x0A])
      (dict_put (inside d ''checksums.txt'') (utf8 (checksum_text (bundle_entries C (below d u)))) u)"
    unfolding build_bundle_def write_bytes_def by (auto simp: write_line_Inr normal_top)
  have fs: "payload_ok (below d u)"
    using preservesE [OF payload_files_ok [OF ids] payload] start by (simp add: payload_ok_def)
  from attests [OF C sign] made_files_verify [OF fs root line] show ?thesis
    by (auto simp: verify_bundle_def tree)
qed

end

lemma plain_accepted:
  "plain v \<Longrightarrow> reject_noncanonical_numbers v = Inr ()" "plain_list vs \<Longrightarrow> reject_list vs = Inr ()"
  "plain_items kvs \<Longrightarrow> reject_items kvs = Inr ()"
  by (induction v and vs and kvs rule: reject_noncanonical_numbers_reject_list_reject_items.induct) auto

lemma plain_canonical: "plain v \<Longrightarrow> \<exists>b. canonical_json v = Inr b"
  using plain_dumps [of v False] plain_accepted(1) [of v] by (auto simp: canonical_json_Inr)

lemma manifest_plain: "plain (PList (map entry_dict es))"
  by (auto simp: plain_list_iff entry_dict_def)

lemma root_returns: "crypto_ok C \<Longrightarrow> \<exists>root p. compute_bundle_root C es = Inr root \<and> artifact_payload root = Inr p"
  using plain_canonical [OF manifest_plain [of "sort es"]] artifact_payload_sha [of C]
  by (auto simp: compute_bundle_root_def prefixed_digest_def succeeds_iff)

lemma handle_digest_returns:
  assumes "artifact_payload d = Inr p"
  shows "\<exists>resp s'. handle C i (digest_request ArtifactRoot scope d) s = (Inr resp, s')"
  using assms by (simp add: handle_def digest_request_def present_fields_def prepare_payload_def finish_signature_eq)

lemma build_bundle_returns:
  fixes w :: "(nonce_store, 't) env"
  assumes C: "crypto_ok C" and i: "identity_of_private C key = Inr i"
    and opened: "\<not> b_kill w" "\<not> component_quarantined ''signer'' (b_store w)"
    and start: "below d t = []" and payload: "write_payload_files C d run results versions t = (Inr (), u)"
  shows "\<exists>root wt. build_bundle C (guarded_sign (keyed_signer C key)) d run results versions (w, t) = (Inr root, wt)"
proof -
  from root_returns [OF C] obtain root p where root: "compute_bundle_root C (bundle_entries C (below d u)) = Inr root"
    "artifact_payload root = Inr p" by blast
  from handle_digest_returns [OF root(2)] obtain resp s'
    where "handle C i (digest_request ArtifactRoot ''bundle'' root) (e_signer w) = (Inr resp, s')" by blast
  then have sign: "guarded_sign (keyed_signer C key) (digest_request ArtifactRoot ''bundle'' root) w = (Inr resp, w\<lparr>e_signer := s'\<rparr>)"
    using opened by (simp add: guarded_sign_def keyed_signer_def i in_signer_def)
  have "plain (attestation_dict \<lparr>at_did = sp_did resp, at_bundle_root = root, at_signature = sp_signature resp\<rparr>)"
    by (simp add: attestation_dict_def)
  from plain_canonical [OF this] obtain line
    where line: "canonical_json (attestation_dict \<lparr>at_did = sp_did resp, at_bundle_root = root, at_signature = sp_signature resp\<rparr>) = Inr line" ..
  show ?thesis
    unfolding build_bundle_def
    by (simp add: start payload root sign line write_line_Inr write_bytes_def)
qed

section \<open>What a root determines\<close>

lemma hex_of_bytes_inj: "hex_of_bytes a = hex_of_bytes b \<Longrightarrow> a = b"
proof (induction a arbitrary: b)
  case Nil
  then show ?case by (cases b) (auto simp: hex_of_bytes_def)
next
  case (Cons x a)
  then obtain y b' where b: "b = y # b'" by (cases b) (auto simp: hex_of_bytes_def)
  with Cons.prems have "hex_digit (code x div 16) = hex_digit (code y div 16)"
    "hex_digit (code x mod 16) = hex_digit (code y mod 16)" "hex_of_bytes a = hex_of_bytes b'"
    by (auto simp: hex_of_bytes_def)
  moreover from this have "x = y"
    using hex_byte_digits [OF code_less, of x] hex_byte_digits [OF code_less, of y] by (metis char_of_code option.inject)
  ultimately show ?case using Cons.IH [of b'] b by blast
qed

lemma sha256_hex_inj_on: "inj_on (c_sha256 C) A \<Longrightarrow> inj_on (sha256_hex C) A"
  by (auto simp: inj_on_def sha256_hex_def dest: hex_of_bytes_inj)

definition manifest_bytes :: "(string \<times> string) list \<Rightarrow> bytes" where
  "manifest_bytes es = (case canonical_json (PList (map entry_dict (sort es))) of Inl _ \<Rightarrow> [] | Inr b \<Rightarrow> b)"

lemma compute_root_eq: "compute_bundle_root C es = Inr (prefixed_digest C (manifest_bytes es))"
  using plain_canonical [OF manifest_plain [of "sort es"]] by (auto simp: compute_bundle_root_def manifest_bytes_def)

lemma entry_norm_inj: "norm_list (map entry_dict es) = norm_list (map entry_dict es') \<Longrightarrow> es = es'"
proof (induction es arbitrary: es')
  case (Cons e es)
  then show ?case by (cases es') (auto simp: entry_dict_def prod_eq_iff)
next
  case Nil
  then show ?case by (cases es') auto
qed

lemma manifest_bytes_inj:
  assumes "manifest_bytes es = manifest_bytes es'"
  shows "sort es = sort es'"
proof -
  from plain_canonical [OF manifest_plain [of "sort es"]] plain_canonical [OF manifest_plain [of "sort es'"]] assms
  obtain b where "canonical_json (PList (map entry_dict (sort es))) = Inr b" "canonical_json (PList (map entry_dict (sort es'))) = Inr b"
    by (auto simp: manifest_bytes_def)
  from canonical_json_inj [OF plain_wf(1) [OF manifest_plain] plain_wf(1) [OF manifest_plain] this]
  show ?thesis by (auto dest: entry_norm_inj)
qed

lemma verify_files_Inr:
  "verify_files C P fs = Inr root \<Longrightarrow> compute_bundle_root C (bundle_entries C fs) = Inr root"
  by (auto simp: verify_files_def Let_def)

lemma entries_determine:
  assumes inj: "inj_on (c_sha256 C) (snd ` set fs \<union> snd ` set gs)" and eq: "mset (bundle_entries C fs) = mset (bundle_entries C gs)"
    and p: "is_payload p"
  shows "(p, b) \<in> set fs \<longleftrightarrow> (p, b) \<in> set gs"
proof -
  have mem: "(p, d) \<in> set (bundle_entries C hs) \<longleftrightarrow> (\<exists>b. (p, b) \<in> set hs \<and> d = sha256_hex C b)" for hs d
    using p by (auto simp: bundle_entries_def sorted_files_def)
  have same: "(p, d) \<in> set (bundle_entries C fs) \<longleftrightarrow> (p, d) \<in> set (bundle_entries C gs)" for d
    using mset_eq_setD [OF eq] by simp
  have h: "inj_on (sha256_hex C) (snd ` set fs \<union> snd ` set gs)" using inj by (rule sha256_hex_inj_on)
  have one: "(p, b) \<in> set ys" if b: "(p, b) \<in> set xs" and sub: "set xs \<union> set ys \<subseteq> set fs \<union> set gs"
    and same: "\<And>d. (p, d) \<in> set (bundle_entries C xs) \<longleftrightarrow> (p, d) \<in> set (bundle_entries C ys)" for xs ys
  proof -
    from b same mem obtain c where c: "(p, c) \<in> set ys" "sha256_hex C b = sha256_hex C c" by blast
    have "(p, b) \<in> set fs \<union> set gs" "(p, c) \<in> set fs \<union> set gs" using b c(1) sub by blast+
    from this [THEN imageI [where f = snd]]
    have "b = c" unfolding image_Un snd_conv by (rule inj_onD [OF h c(2)])
    with c show ?thesis by simp
  qed
  show ?thesis using one [of fs gs] one [of gs fs] same by blast
qed

lemma key_unique: "distinct (map fst fs) \<Longrightarrow> (p, b) \<in> set fs \<longleftrightarrow> map_of fs p = Some b"
  by simp

section \<open>Results that can be written\<close>

lemma chain_returns:
  assumes "plain (case map_of (sn_reproduction r) ''correlation_id'' of None \<Rightarrow> PStr [] | Some v \<Rightarrow> v)"
  shows "list_all (\<lambda>e. plain (redact 512 (PDict (ae_detail e)))) es \<Longrightarrow> int (n + length es) < 10 ^ 100 \<Longrightarrow>
    \<exists>vs. chain_from C r n previous es = Inr vs \<and> plain_list vs"
proof (induction es arbitrary: n previous)
  case (Cons e es)
  have base: "plain (PDict (event_base r n e previous))" using Cons.prems assms by (simp add: event_base_def)
  from plain_canonical [OF this] obtain b where b: "canonical_json (PDict (event_base r n e previous)) = Inr b" ..
  from Cons.IH [of "Suc n" "prefixed_digest C b"] Cons.prems
  obtain vs where "chain_from C r (Suc n) (prefixed_digest C b) es = Inr vs" "plain_list vs" by auto
  then show ?case using b base by (auto simp: Let_def event_base_def)
qed simp

definition writable_result :: "(string \<times> string) list \<Rightarrow> scenario_result \<Rightarrow> bool" where
  "writable_result versions r = (plain (PDict (sn_reproduction r)) \<and> list_all (\<lambda>e. plain (redact 512 (PDict (ae_detail e)))) (sn_events r)
     \<and> int (length (sn_events r)) < 10 ^ 99 \<and> sn_producer r \<in> fst ` set versions \<and> sn_consumer r \<in> fst ` set versions)"

lemma write_line_returns: "plain v \<Longrightarrow> returns (\<lambda>_. True) (write_line d n v)"
  unfolding write_line_def write_bytes_def
  by (rule returns_bindS [where Q = "\<lambda>_. True"]) (auto intro!: returns_intros plain_canonical)

lemma plain_correlation:
  "plain (PDict kvs) \<Longrightarrow> plain (case map_of kvs k of None \<Rightarrow> PStr [] | Some v \<Rightarrow> v)"
  by (auto simp: plain_items_iff split: option.splits dest!: map_of_SomeD)

lemma cell_returns:
  assumes "writable_result versions r"
  shows "\<exists>cell. matrix_cell_of run versions r = Inr cell \<and> plain (cell_dict cell)"
proof -
  from assms obtain pv cv where "map_of versions (sn_producer r) = Some pv" "map_of versions (sn_consumer r) = Some cv"
    unfolding writable_result_def by (metis map_of_eq_None_iff option.exhaust)
  then show ?thesis
    by (auto simp: matrix_cell_of_def cell_dict_def dict_of_pairs_def dict_put_def plain_list_iff assertion_dict_def plain_items_iff)
qed

lemma event_chain_returns: "writable_result versions r \<Longrightarrow> \<exists>vs. event_chain C r = Inr vs \<and> plain (PList vs)"
  unfolding writable_result_def event_chain_def
  using chain_returns [of r "sn_events r" 1 C] plain_correlation by auto

lemma write_cell_returns:
  assumes "writable_result versions r"
  shows "returns plain (write_cell C d run versions r)"
proof -
  have w: "returns (\<lambda>_. True) (write_bytes p b)" for p b by (simp add: write_bytes_def returns_basic)
  have rep: "plain (PDict (sn_reproduction r))" using assms by (simp add: writable_result_def)
  show ?thesis unfolding write_cell_def
    by (rule returns_bindS [OF returns_liftS [OF cell_returns [OF assms]]],
        rule returns_bindS [OF returns_liftS [OF event_chain_returns [OF assms]]],
        rule returns_bindS [OF write_line_returns], assumption,
        rule returns_bindS [OF write_line_returns [OF rep]],
        rule returns_bindS [OF w], erule returns_basic)
qed

lemma payload_files_return:
  assumes "list_all (writable_result versions) results" "distinct (map fst (rr_images run))"
  shows "\<exists>u. write_payload_files C d run results versions t = (Inr (), u)"
proof -
  have run: "plain (run_dict run)" using assms(2) by (auto simp: run_dict_def plain_items_iff comp_def case_prod_unfold)
  have cells: "returns (list_all plain) (mapS (write_cell C d run versions) results)"
    using assms(1) by (intro returns_mapS) (auto simp: list_all_iff intro: write_cell_returns)
  have "returns (\<lambda>_. True) (write_payload_files C d run results versions)"
    unfolding write_payload_files_def
    by (rule returns_bindS [OF write_line_returns [OF run]], rule returns_bindS [OF cells],
        rule returns_bindS [OF write_line_returns]) (auto simp: plain_list_iff list_all_iff write_bytes_def intro: returns_basic)
  from returnsD [OF this, of t] show ?thesis by auto
qed

section \<open>Properties\<close>

text \<open>
  C27: A bundle that is built verifies: with an open gate and a signer process that holds a key, building
  a bundle of printable results in an empty directory always returns a root, and the verifier
  reads the checksums, the files and the attestation of the directory back to the same root.
\<close>

theorem built_bundle_round_trip:
  fixes w :: "(nonce_store, 't) env"
  assumes "crypto_ok C" "identity_of_private C key = Inr i" "\<not> b_kill w" "\<not> component_quarantined ''signer'' (b_store w)"
    and "list_all (\<lambda>r. plain_id (sn_producer r) \<and> plain_id (sn_consumer r)) results" "list_all (writable_result versions) results"
    and "distinct (map fst (rr_images run))" and "below d t = []"
  shows "\<exists>root wt. build_bundle C (guarded_sign (keyed_signer C key)) d run results versions (w, t) = (Inr root, wt)
    \<and> verify_bundle C P d (snd wt) = Inr root"
proof -
  from payload_files_return [OF assms(6,7)] obtain u where "write_payload_files C d run results versions t = (Inr (), u)" by blast
  from build_bundle_returns [OF assms(1-4,8) this] obtain root wt
    where b: "build_bundle C (guarded_sign (keyed_signer C key)) d run results versions (w, t) = (Inr root, wt)" by blast
  from guarded.built_bundle_verifies [OF assms(1,5) b] b show ?thesis by blast
qed

definition demo_run :: run_record where
  "demo_run = \<lparr>rr_run_id = ''r'', rr_trigger = ''manual'', rr_protocol_release = ''v0.14.5'',
     rr_scenario = ''signed-mailbox-roundtrip-v1'', rr_registry_sha256 = ''x'', rr_images = [], rr_epoch = ''e'', rr_dry_run = True\<rparr>"

definition demo_result :: scenario_result where
  "demo_result = \<lparr>sn_producer = ''raw'', sn_consumer = ''mcp'', sn_outcome = OPass, sn_reason = ROk,
     sn_assertions = [\<lparr>ar_name = ''a'', ar_passed = True, ar_reason = ROk, ar_detail = []\<rparr>],
     sn_events = [\<lparr>ae_actor = ''raw'', ae_operation = ''post'', ae_status = ''ok'', ae_detail = [(''token'', PStr ''t'')]\<rparr>],
     sn_reproduction = [(''correlation_id'', PStr ''c'')]\<rparr>"

lemma built_bundle_round_trip_witness:
  "\<exists>i root wt. identity_of_private demo_crypto [] = Inr i
     \<and> build_bundle demo_crypto (guarded_sign (keyed_signer demo_crypto [])) ''/b'' demo_run [demo_result] [(''raw'', ''1''), (''mcp'', ''2'')]
         (demo_env, []) = (Inr root, wt)
     \<and> verify_bundle demo_crypto dated_pydantic ''/b'' (snd wt) = Inr root"
proof -
  have "\<exists>i. identity_of_private demo_crypto [] = Inr i"
    by (simp add: identity_of_private_def did_from_public_key_def demo_crypto_def)
  then obtain i where i: "identity_of_private demo_crypto [] = Inr i" ..
  have gate: "\<not> b_kill demo_env" "\<not> component_quarantined ''signer'' (b_store demo_env)"
    by (simp_all add: demo_env_def component_quarantined_def empty_store_def)
  have ids: "list_all (\<lambda>r. plain_id (sn_producer r) \<and> plain_id (sn_consumer r)) [demo_result]" by code_simp
  have "plain (redact 512 (PDict [(''token'', PStr ''t'')]))" by code_simp
  then have ok: "list_all (writable_result [(''raw'', ''1''), (''mcp'', ''2'')]) [demo_result]"
    by (simp add: writable_result_def demo_result_def)
  have im: "distinct (map fst (rr_images demo_run))" by (simp add: demo_run_def)
  from built_bundle_round_trip [OF demo_crypto_ok i gate ids ok im, of "''/b''" "[]" dated_pydantic] i show ?thesis by auto
qed

text \<open>
  C28: A root is evidence of every payload file: when two directories verify with the same root, they
  hold the same payload files with the same contents, unless SHA-256 collides on what
  the two of them hash, their contents and their manifests.
\<close>

theorem root_fixes_payload:
  assumes "verify_bundle C P d t = Inr root" "verify_bundle C P d' t' = Inr root"
    and files: "distinct (map fst t)" "distinct (map fst t')"
    and no_collision: "inj_on (c_sha256 C) (snd ` set (below d t) \<union> snd ` set (below d' t'))"
      "inj_on (c_sha256 C) {manifest_bytes (bundle_entries C (below d t)), manifest_bytes (bundle_entries C (below d' t'))}"
    and "is_payload p"
  shows "map_of t (inside d p) = map_of t' (inside d' p)"
proof -
  let ?fs = "below d t" and ?gs = "below d' t'"
  have "prefixed_digest C (manifest_bytes (bundle_entries C ?fs)) = prefixed_digest C (manifest_bytes (bundle_entries C ?gs))"
    using assms(1,2) by (auto simp: verify_bundle_def compute_root_eq dest!: verify_files_Inr)
  then have "sha256_hex C (manifest_bytes (bundle_entries C ?fs)) = sha256_hex C (manifest_bytes (bundle_entries C ?gs))"
    by (simp add: prefixed_digest_def)
  from inj_onD [OF sha256_hex_inj_on [OF no_collision(2)] this]
  have "manifest_bytes (bundle_entries C ?fs) = manifest_bytes (bundle_entries C ?gs)" by simp
  then have "mset (bundle_entries C ?fs) = mset (bundle_entries C ?gs)" by (metis manifest_bytes_inj mset_sort)
  from entries_determine [OF no_collision(1) this assms(7)]
  have "map_of ?fs p = Some b \<longleftrightarrow> map_of ?gs p = Some b" for b
    unfolding key_unique [OF distinct_below [OF files(1)], symmetric] key_unique [OF distinct_below [OF files(2)], symmetric] .
  then have "map_of ?fs p = map_of ?gs p" by (metis not_Some_eq)
  then show ?thesis unfolding map_of_below .
qed

lemma below_placed [simp]: "below d (map (\<lambda>(p, b). (inside d p, b)) fs) = fs"
  by (induction fs) (auto simp: below_Cons)

lemma distinct_placed: "distinct (map fst fs) \<Longrightarrow> distinct (map fst (map (\<lambda>(p, b). (inside d p, b)) fs))"
  by (induction fs) (auto simp: image_iff)

lemma canonical_dict_head: "canonical_json (PDict kvs) = Inr b \<Longrightarrow> \<exists>r. b = CHR ''{'' # r"
  by (auto simp: canonical_json_Inr join_dict_def utf8_simps utf8_char_def code_def)

lemma root_fixes_payload_witness:
  "\<exists>t t' root. verify_bundle fixed_sig_crypto dated_pydantic ''/b'' t = Inr root \<and> verify_bundle fixed_sig_crypto dated_pydantic ''/c'' t' = Inr root
     \<and> map_of t (inside ''/b'' ''evidence/raw--mcp.json'') = map_of t' (inside ''/c'' ''evidence/raw--mcp.json'')"
proof -
  let ?fs = "[(''evidence/raw--mcp.json'', ''x'')]"
  have "\<exists>did. did_from_public_key (replicate 32 CHR ''k'') = Inr did" by (simp add: did_from_public_key_def)
  then obtain did where did: "did_from_public_key (replicate 32 CHR ''k'') = Inr did" ..
  let ?sig = "base64url (replicate 64 CHR 0x05)"
  have C: "crypto_ok fixed_sig_crypto" using demo_crypto_ok by (simp add: crypto_ok_def fixed_sig_crypto_def)
  from root_returns [OF C] obtain root p where root: "compute_bundle_root fixed_sig_crypto (bundle_entries fixed_sig_crypto ?fs) = Inr root"
    and p: "artifact_payload root = Inr p" by blast
  have "plain (attestation_dict \<lparr>at_did = did, at_bundle_root = root, at_signature = ?sig\<rparr>)" by (simp add: attestation_dict_def)
  from plain_canonical [OF this] obtain line
    where line: "canonical_json (attestation_dict \<lparr>at_did = did, at_bundle_root = root, at_signature = ?sig\<rparr>) = Inr line" ..
  have "plain_name ''raw--mcp.json''" by code_simp
  then have ok: "payload_ok ?fs" by (auto simp: payload_ok_def bundle_path_def)
  let ?sums = "utf8 (checksum_text (bundle_entries fixed_sig_crypto ?fs))"
  let ?gs = "?fs @ [(''checksums.txt'', ?sums), (''attestation.json'', line @ [CHR 0x0A])]"
  have gs: "dict_put ''attestation.json'' (line @ [CHR 0x0A]) (dict_put ''checksums.txt'' ?sums ?fs) = ?gs" by (simp add: dict_put_def)
  note v = made_files_verify [OF ok root line p fixed_sig_verifies [OF did], of dated_pydantic, unfolded gs]
  have sums: "hd ?sums = CHR ''7''" "?sums \<noteq> []" by code_simp+
  obtain r where r: "line = CHR ''{'' # r" using canonical_dict_head line by (auto simp: attestation_dict_def)
  have hd_sha: "m \<noteq> [] \<Longrightarrow> hd (c_sha256 fixed_sig_crypto m) = hd m" for m
    by (cases m) (simp_all add: fixed_sig_crypto_def demo_crypto_def)
  have inj: "inj_on (c_sha256 fixed_sig_crypto) {''x'', ?sums, line @ [CHR 0x0A]}"
  proof (rule inj_on_inverseI [where g = "\<lambda>h. if hd h = CHR ''x'' then ''x'' else if hd h = CHR ''7'' then ?sums else line @ [CHR 0x0A]"])
    fix m assume "m \<in> {''x'', ?sums, line @ [CHR 0x0A]}"
    then show "(if hd (c_sha256 fixed_sig_crypto m) = CHR ''x'' then ''x'' else if hd (c_sha256 fixed_sig_crypto m) = CHR ''7'' then ?sums else line @ [CHR 0x0A]) = m"
      using hd_sha [of m] sums r by auto
  qed
  have d: "distinct (map fst ?gs)" by simp
  let ?t = "\<lambda>d. map (\<lambda>(p, b). (inside d p, b)) ?gs"
  have vb: "verify_bundle fixed_sig_crypto dated_pydantic ''/b'' (?t ''/b'') = Inr root"
    "verify_bundle fixed_sig_crypto dated_pydantic ''/c'' (?t ''/c'') = Inr root"
    unfolding verify_bundle_def below_placed by (rule v)+
  have "is_payload ''evidence/raw--mcp.json''" by code_simp
  with root_fixes_payload [OF vb distinct_placed [OF d] distinct_placed [OF d]] inj
  have "map_of (?t ''/b'') (inside ''/b'' ''evidence/raw--mcp.json'') = map_of (?t ''/c'') (inside ''/c'' ''evidence/raw--mcp.json'')"
    unfolding below_placed by (simp add: insert_commute)
  with vb show ?thesis by blast
qed

end
