(* ===== verification/Publishing.thy ===== *)
theory Publishing
  imports Evidence
begin

text \<open>
  \<open>rosetta/publishing.py\<close>: the two publishers of static files, for verified
  bundles and for the service documents.  Both work on the state of the gate
  beside the tree of files; paths are resolved.  Reading the service card back
  from its file, as \<open>contracts.py\<close> declares it, is the first section.
\<close>

section \<open>Reading a service card\<close>

definition parse_price :: "pydantic \<Rightarrow> stdlib \<Rightarrow> pyval option \<Rightarrow> unit result" where
  "parse_price P L v = (case v of None \<Rightarrow> Inr () | Some w \<Rightarrow> bindE (as_dict P w) (\<lambda>kvs. let f = map_of kvs in
     check (list_all (\<lambda>(k, _). k \<in> {''kind'', ''currency'', ''amount''}) kvs)
     (bindE (default_literal ''free'' (f ''kind'')) (\<lambda>_.
      check ((case f ''currency'' of None \<Rightarrow> True | Some c \<Rightarrow> c = PNone) \<and>
             (case f ''amount'' of None \<Rightarrow> True | Some (PInt i) \<Rightarrow> i = 0 | Some (PBool b) \<Rightarrow> \<not> b
              | Some (PFloat r) \<Rightarrow> sl_float_is L r 0 | _ \<Rightarrow> False)) (Inr ())))))"

definition parse_limits :: "pydantic \<Rightarrow> pyval option \<Rightarrow> (int \<times> int) result" where
  "parse_limits P v = (case v of None \<Rightarrow> invalid | Some w \<Rightarrow> bindE (as_dict P w) (\<lambda>kvs. let f = map_of kvs in
     check (list_all (\<lambda>(k, _). k \<in> {''per_did_per_day'', ''global_per_day''}) kvs)
     (bindE (strict_int (f ''per_did_per_day'')) (\<lambda>d. bindE (strict_int (f ''global_per_day'')) (\<lambda>g. Inr (d, g))))))"

definition card_fields :: "string list" where
  "card_fields = [''service_id'', ''did'', ''service_room'', ''request_mailbox'', ''protocol_baseline'', ''scenarios'',
     ''adapter_profiles'', ''request_schema_url'', ''report_base_url'', ''price'', ''limits'', ''status'', ''updated_at'', ''valid_until'']"

definition parse_service_card :: "pydantic \<Rightarrow> stdlib \<Rightarrow> pyval \<Rightarrow> service_card result" where
  "parse_service_card P L v = bindE (as_dict P v) (\<lambda>kvs. let f = map_of kvs in
     check (closed_fields card_fields ''rosetta.service-card.v1'' False kvs)
     (bindE (default_literal ''technocore-rosetta'' (f ''service_id'')) (\<lambda>_.
      bindE (strict_str (f ''did'')) (\<lambda>did. bindE (strict_str (f ''service_room'')) (\<lambda>room.
      bindE (strict_str (f ''request_mailbox'')) (\<lambda>mb.
      bindE (case f ''protocol_baseline'' of None \<Rightarrow> Inr ''v0.14.5'' | b \<Rightarrow> literal baselines b) (\<lambda>base.
      bindE (str_list (f ''scenarios'')) (\<lambda>scs. bindE (str_list (f ''adapter_profiles'')) (\<lambda>profiles.
      bindE (url_field P (f ''request_schema_url'')) (\<lambda>schema_url. bindE (url_field P (f ''report_base_url'')) (\<lambda>report_url.
      bindE (parse_price P L (f ''price'')) (\<lambda>_. bindE (parse_limits P (f ''limits'')) (\<lambda>(per_did, global).
      bindE (literal [''available'', ''unavailable''] (f ''status'')) (\<lambda>status.
      bindE (a_datetime P (f ''updated_at'')) (\<lambda>updated. bindE (a_datetime P (f ''valid_until'')) (\<lambda>until.
      let crd = \<lparr>card_did = did, card_service_room = room, card_request_mailbox = mb, card_protocol_baseline = base,
             card_scenarios = scs, card_profiles = profiles, card_schema_url = schema_url, card_report_base_url = report_url,
             card_per_did = per_did, card_global = global, card_status = status, card_updated_at = updated,
             card_valid_until = until\<rparr> in
      (case valid_card P crd of Inl _ \<Rightarrow> invalid | Inr ok \<Rightarrow> check ok (Inr crd))))))))))))))))))"

section \<open>Publishing a bundle\<close>

definition static_publish ::
  "crypto \<Rightarrow> pydantic \<Rightarrow> bool \<Rightarrow> string \<Rightarrow> string \<Rightarrow> datetime \<Rightarrow> string \<Rightarrow> ('w base_scheme \<times> tree, string) op" where
  "static_publish C P enabled spool site now bundle =
     bindS (on_fst (gate_require ''publisher'')) (\<lambda>_.
     raiseS_if (\<not> enabled) (RuntimeError ''publisher_disabled'')
     (raiseS_if (\<not> within_dir spool bundle) (ValueError ''bundle is outside the approved spool'')
     (bindS (getS snd) (\<lambda>t.
      bindS (liftS (verify_bundle C P bundle t)) (\<lambda>root.
      let target = inside site (remove_prefix ''sha256:'' root) in
      raiseS_if (path_exists target t) (ValueError ''bundle already published'')
      (bindS (on_snd (putS (copy_tree bundle target))) (\<lambda>_.
       bindS (getS snd) (\<lambda>u.
       bindS (liftS (verify_bundle C P target u)) (\<lambda>again.
       ifS (again \<noteq> root)
         (bindS (on_snd (putS (remove_tree target))) (\<lambda>_. raiseS (RuntimeError ''copied bundle failed verification'')))
       (bindS (on_fst (in_store (register_bundle root target now))) (\<lambda>_. retS target)))))))))))"

section \<open>Publishing the service documents\<close>

definition service_files :: "string list" where
  "service_files = [''service-card.json'', ''schemas/rosetta-request-v1.json'', ''schemas/rosetta-result-v1.json'', ''skill.md'',
     ''.well-known/agent.json'', ''service-card.attestation.json'']"

definition read_attestation :: "bytes \<Rightarrow> (string \<times> pyval) list result" where
  "read_attestation b = bindE (loads_bytes b) (\<lambda>v. case v of PDict kvs \<Rightarrow> Inr kvs | _ \<Rightarrow> Inl (AttributeError ''get''))"

definition check_service_documents :: "crypto \<Rightarrow> pydantic \<Rightarrow> stdlib \<Rightarrow> tree \<Rightarrow> datetime \<Rightarrow> unit result" where
  "check_service_documents C P L fs now =
     raise_if (set (map fst fs) \<noteq> set service_files) (ValueError ''service document set is not closed'')
     (bindE (read_bytes ''service-card.json'' fs) (\<lambda>card_bytes.
      bindE (parse_raw (parse_service_card P L) card_bytes) (\<lambda>crd.
      bindE (read_bytes ''service-card.attestation.json'' fs) (\<lambda>att_bytes.
      bindE (read_attestation att_bytes) (\<lambda>attestation.
      bindE (verify_service_card C (sl_str L) crd attestation now) (\<lambda>ok.
      raise_if (\<not> ok) (ValueError ''service card attestation is invalid or expired'') (Inr ())))))))"

text \<open>Every file is written under a temporary name, then renamed onto its target.\<close>

definition publish_file :: "string \<Rightarrow> string \<Rightarrow> string \<Rightarrow> (tree, unit) op" where
  "publish_file source site name = bindS (\<lambda>t. (read_bytes (inside source name) t, t)) (\<lambda>b. write_bytes (inside site name) b)"

definition service_publish ::
  "crypto \<Rightarrow> pydantic \<Rightarrow> stdlib \<Rightarrow> bool \<Rightarrow> string \<Rightarrow> string \<Rightarrow> string \<Rightarrow> datetime \<Rightarrow> ('w base_scheme \<times> tree, unit) op" where
  "service_publish C P L enabled spool site source now =
     bindS (on_fst (gate_require ''publisher'')) (\<lambda>_.
     raiseS_if (\<not> enabled) (RuntimeError ''publisher_disabled'')
     (raiseS_if (\<not> within_dir spool source) (ValueError ''service documents are outside the approved spool'')
     (bindS (getS snd) (\<lambda>t.
      bindS (liftS (check_service_documents C P L (below source t) now)) (\<lambda>_.
      bindS (on_snd (mapS (publish_file source site) service_files)) (\<lambda>_. retS ()))))))"

section \<open>Lemmas on copies\<close>

lemma map_of_put_files:
  "map_of (put_files d fs t) q = (case map_of (rev (map (\<lambda>(p, b). (inside d p, b)) fs)) q of None \<Rightarrow> map_of t q | Some b \<Rightarrow> Some b)"
  by (induction fs arbitrary: t) (auto simp: put_files_def map_add_def split: option.splits)

lemma map_of_placed: "map_of (map (\<lambda>(p, b). (inside d p, b)) fs) (inside d p) = map_of fs p"
  by (induction fs) auto

lemma copy_tree_outside:
  assumes "\<not> within_dir d q"
  shows "map_of (copy_tree s d t) q = map_of t q"
proof -
  have "q \<notin> fst ` set (rev (map (\<lambda>(p, b). (inside d p, b)) (below s t)))"
    using assms by (auto simp: within_dir_def starts_inside_iff)
  then have "map_of (rev (map (\<lambda>(p, b). (inside d p, b)) (below s t))) q = None" by (simp add: map_of_eq_None_iff)
  then show ?thesis by (simp add: copy_tree_def map_of_put_files)
qed

lemma on_fst_Inl: "on_fst f wt = (Inl e, wt') \<longleftrightarrow> (\<exists>w'. f (fst wt) = (Inl e, w') \<and> wt' = (w', snd wt))"
  by (auto simp: on_fst_def split: prod.splits)

lemma gate_require_Inl: "gate_require c w = (Inl e, w') \<Longrightarrow> w' = w"
  using gate_require_state [of c w] by simp

lemma register_returns:
  assumes "utc_iso now = Inr stamp"
  shows "\<exists>b w'. in_store (register_bundle root p now) w = (Inr b, w') \<and> st_bundles (b_store w') root \<noteq> None"
  using assms by (auto simp: in_store_def register_bundle_def bindS_def split: prod.splits)

text \<open>
  C31: Publishing a bundle is all or nothing: it either raises and leaves the gate's state and every file as they were,
  or the gate is open, the bundle lies in the approved spool and verifies, its
  directory under the destination is named by its root and was not there, holds exactly the files of
  the bundle, verifies with the same root and is registered, and no other file has changed.
\<close>

theorem publish_all_or_nothing:
  assumes keys: "distinct (map fst t)" and now: "utc_iso now = Inr stamp"
    and p: "static_publish C P enabled spool site now bundle (w, t) = (res, (w', t'))"
  shows "case res of
      Inl e \<Rightarrow> w' = w \<and> t' = t
    | Inr target \<Rightarrow> \<not> b_kill w \<and> \<not> component_quarantined ''publisher'' (b_store w) \<and> enabled \<and> within_dir spool bundle
        \<and> (\<exists>root. verify_bundle C P bundle t = Inr root \<and> target = inside site (remove_prefix ''sha256:'' root)
             \<and> \<not> path_exists target t \<and> verify_bundle C P target t' = Inr root \<and> st_bundles (b_store w') root \<noteq> None)
        \<and> below target t' = below bundle t
        \<and> (\<forall>q. \<not> within_dir target q \<longrightarrow> map_of t' q = map_of t q)"
proof (cases "gate_require ''publisher'' w")
  case (Pair g v)
  show ?thesis
  proof (cases "\<exists>root. g = Inr () \<and> enabled \<and> within_dir spool bundle \<and> verify_bundle C P bundle t = Inr root
      \<and> \<not> path_exists (inside site (remove_prefix ''sha256:'' root)) t")
    case True
    then obtain root where ok: "g = Inr ()" "enabled" "within_dir spool bundle" "verify_bundle C P bundle t = Inr root"
      and fresh: "\<not> path_exists (inside site (remove_prefix ''sha256:'' root)) t" by blast
    let ?target = "inside site (remove_prefix ''sha256:'' root)"
    have gate: "\<not> b_kill w" "\<not> component_quarantined ''publisher'' (b_store w)" "v = w" using Pair ok(1) by auto
    have copied: "below ?target (copy_tree bundle ?target t) = below bundle t"
      using fresh by (intro below_copy_tree [OF keys]) (simp add: path_exists_def)
    then have again: "verify_bundle C P ?target (copy_tree bundle ?target t) = Inr root"
      using ok(4) by (simp add: verify_bundle_def)
    obtain b w2 where reg: "in_store (register_bundle root ?target now) w = (Inr b, w2)" "st_bundles (b_store w2) root \<noteq> None"
      using register_returns [OF now] by blast
    have "static_publish C P enabled spool site now bundle (w, t) = (Inr ?target, (w2, copy_tree bundle ?target t))"
      using ok gate Pair fresh again reg(1) by (simp add: static_publish_def Let_def)
    with p have "res = Inr ?target" "w' = w2" "t' = copy_tree bundle ?target t" by auto
    then show ?thesis using ok gate fresh copied again reg(2) copy_tree_outside [where d = "?target" and s = "bundle" and t = t] by simp
  next
    case False
    have "static_publish C P enabled spool site now bundle (w, t) = (res, (w', t')) \<Longrightarrow> \<exists>e. res = Inl e \<and> w' = w \<and> t' = t"
      using False Pair gate_require_Inl [of "''publisher''" w] gate_require_Inr [of "''publisher''" w "()" v]
      unfolding static_publish_def
      by ((cases g; auto simp: bindS_def on_fst_def raiseS_if_def Let_def split: sum.splits if_splits), metis)
    with p show ?thesis by auto
  qed
qed

lemma demo_bundle_verifies:
  "\<exists>gs root. distinct (map fst gs) \<and> verify_files fixed_sig_crypto dated_pydantic gs = Inr root"
proof -
  let ?fs = "[(''evidence/raw--mcp.json'', ''x'')]"
  have "\<exists>did. did_from_public_key (replicate 32 CHR ''k'') = Inr did" by (simp add: did_from_public_key_def)
  then obtain did where did: "did_from_public_key (replicate 32 CHR ''k'') = Inr did" ..
  have C: "crypto_ok fixed_sig_crypto" using demo_crypto_ok by (simp add: crypto_ok_def fixed_sig_crypto_def)
  from root_returns [OF C] obtain root p where root: "compute_bundle_root fixed_sig_crypto (bundle_entries fixed_sig_crypto ?fs) = Inr root"
    and p: "artifact_payload root = Inr p" by blast
  have "plain (attestation_dict \<lparr>at_did = did, at_bundle_root = root, at_signature = base64url (replicate 64 CHR 0x05)\<rparr>)"
    by (simp add: attestation_dict_def)
  from plain_canonical [OF this] obtain line where line: "canonical_json
      (attestation_dict \<lparr>at_did = did, at_bundle_root = root, at_signature = base64url (replicate 64 CHR 0x05)\<rparr>) = Inr line" ..
  have "plain_name ''raw--mcp.json''" by code_simp
  then have ok: "payload_ok ?fs" by (auto simp: payload_ok_def bundle_path_def)
  from made_files_verify [OF ok root line p fixed_sig_verifies [OF did]] show ?thesis
    by (intro exI conjI) (auto simp: distinct_dict_put)
qed

lemma publish_all_or_nothing_witness:
  "\<exists>t target w' t'. static_publish fixed_sig_crypto dated_pydantic True ''/spool'' ''/site'' (utc_at 1700000000000000) ''/spool/b''
       (demo_env, t) = (Inr target, (w', t')) \<and> below target t' = below ''/spool/b'' t \<and> below target t' \<noteq> []"
proof -
  from demo_bundle_verifies obtain gs root where gs: "distinct (map fst gs)" "verify_files fixed_sig_crypto dated_pydantic gs = Inr root" by blast
  let ?t = "map (\<lambda>(p, b). (inside ''/spool/b'' p, b)) gs"
  have v: "verify_bundle fixed_sig_crypto dated_pydantic ''/spool/b'' ?t = Inr root" using gs(2) by (simp add: verify_bundle_def)
  have ne: "gs \<noteq> []" using gs(2) by (auto simp: verify_files_def read_text_def read_bytes_def)
  let ?target = "inside ''/site'' (remove_prefix ''sha256:'' root)"
  have "\<not> path_exists ?target ?t"
    by (auto simp: path_exists_def is_file_def map_of_eq_None_iff below_def inside_def starts_with_def filter_empty_conv)
  moreover have copied: "below ?target (copy_tree ''/spool/b'' ?target ?t) = gs"
    using calculation below_copy_tree [OF distinct_placed [OF gs(1), of "''/spool/b''"], of "?target" "''/spool/b''"]
    by (simp add: path_exists_def)
  moreover have gate: "\<not> b_kill demo_env" "\<not> component_quarantined ''publisher'' (b_store demo_env)"
    by (simp_all add: demo_env_def component_quarantined_def empty_store_def)
  moreover have "within_dir ''/spool'' ''/spool/b''" by code_simp
  moreover have "\<exists>stamp. utc_iso (utc_at 1700000000000000) = Inr stamp"
    by (simp add: utc_iso_def to_utc_def in_range_def max_wall_def)
  then obtain stamp where stamp: "utc_iso (utc_at 1700000000000000) = Inr stamp" ..
  ultimately obtain w' where r: "static_publish fixed_sig_crypto dated_pydantic True ''/spool'' ''/site'' (utc_at 1700000000000000) ''/spool/b''
       (demo_env, ?t) = (Inr ?target, (w', copy_tree ''/spool/b'' ?target ?t))"
    using register_returns [OF stamp, of root ?target demo_env] v gs(2)
    by (auto simp: static_publish_def Let_def verify_bundle_def)
  from publish_all_or_nothing [OF distinct_placed [OF gs(1)] stamp r] ne r show ?thesis
    by (intro exI conjI) (assumption, simp_all)
qed

lemma put_service_files:
  assumes "list_all (\<lambda>n. map_of t (inside source n) \<noteq> None) names" "distinct names" "\<And>n m. inside source n \<noteq> inside site m"
  shows "\<exists>us t'. mapS (publish_file source site) names t = (Inr us, t')
    \<and> (\<forall>q. map_of t' q = (if \<exists>n \<in> set names. q = inside site n then map_of t (inside source (drop (Suc (length site)) q)) else map_of t q))"
  using assms(1,2)
proof (induction names arbitrary: t)
  case (Cons n names)
  from Cons.prems obtain b where b: "map_of t (inside source n) = Some b" by auto
  let ?u = "dict_put (inside site n) b t"
  have "list_all (\<lambda>n. map_of ?u (inside source n) \<noteq> None) names" using Cons.prems assms(3) by (auto simp: list_all_iff)
  from Cons.IH [OF this] Cons.prems obtain us t' where step: "mapS (publish_file source site) names ?u = (Inr us, t')"
    and t': "\<forall>q. map_of t' q = (if \<exists>n \<in> set names. q = inside site n then map_of ?u (inside source (drop (Suc (length site)) q)) else map_of ?u q)"
    by auto
  have "publish_file source site n t = (Inr (), ?u)" by (simp add: publish_file_def bindS_def read_bytes_def b write_bytes_def)
  with step have "mapS (publish_file source site) (n # names) t = (Inr (() # us), t')" by simp
  moreover have "\<forall>q. map_of t' q = (if \<exists>m \<in> set (n # names). q = inside site m then map_of t (inside source (drop (Suc (length site)) q)) else map_of t q)"
    using t' Cons.prems assms(3) b by auto
  ultimately show ?case by blast
qed simp

lemma check_service_documents_Inr:
  assumes "check_service_documents C P L fs now = Inr u"
  shows "set (map fst fs) = set service_files \<and> (\<exists>card_bytes att_bytes crd attestation.
      map_of fs ''service-card.json'' = Some card_bytes \<and> map_of fs ''service-card.attestation.json'' = Some att_bytes
      \<and> parse_raw (parse_service_card P L) card_bytes = Inr crd \<and> read_attestation att_bytes = Inr attestation
      \<and> verify_service_card C (sl_str L) crd attestation now = Inr True)"
  using assms by (auto simp: check_service_documents_def read_bytes_def)

text \<open>
  Publishing the service documents is all or nothing: a call that raises has changed nothing; one that
  returns had an open gate, a source in the approved spool with exactly the six reviewed files
  and a card whose attestation verifies at that moment, and afterwards the destination
  holds these six files with the same contents while every other file is as it was.
\<close>

theorem service_documents_all_or_nothing:
  assumes apart: "\<And>n m. inside source n \<noteq> inside site m"
    and p: "service_publish C P L enabled spool site source now (w, t) = (res, (w', t'))"
  shows "w' = w \<and> (case res of Inl e \<Rightarrow> t' = t | Inr _ \<Rightarrow>
       \<not> b_kill w \<and> \<not> component_quarantined ''publisher'' (b_store w) \<and> enabled \<and> within_dir spool source
       \<and> set (map fst (below source t)) = set service_files
       \<and> (\<exists>card_bytes att_bytes crd attestation. map_of t' (inside site ''service-card.json'') = Some card_bytes
            \<and> map_of t' (inside site ''service-card.attestation.json'') = Some att_bytes
            \<and> parse_raw (parse_service_card P L) card_bytes = Inr crd \<and> read_attestation att_bytes = Inr attestation
            \<and> verify_service_card C (sl_str L) crd attestation now = Inr True)
       \<and> (\<forall>n \<in> set service_files. map_of t' (inside site n) = map_of t (inside source n))
       \<and> (\<forall>q. q \<notin> inside site ` set service_files \<longrightarrow> map_of t' q = map_of t q))"
proof (cases "gate_require ''publisher'' w")
  case (Pair g v)
  show ?thesis
  proof (cases "g = Inr () \<and> enabled \<and> within_dir spool source \<and> check_service_documents C P L (below source t) now = Inr ()")
    case True
    then have ok: "enabled" "within_dir spool source" and gate: "\<not> b_kill w" "\<not> component_quarantined ''publisher'' (b_store w)" "v = w"
      using Pair by auto
    from True check_service_documents_Inr [of C P L "below source t" now "()"]
    have docs: "set (map fst (below source t)) = set service_files" and card: "\<exists>card_bytes att_bytes crd attestation.
        map_of t (inside source ''service-card.json'') = Some card_bytes \<and> map_of t (inside source ''service-card.attestation.json'') = Some att_bytes
        \<and> parse_raw (parse_service_card P L) card_bytes = Inr crd \<and> read_attestation att_bytes = Inr attestation
        \<and> verify_service_card C (sl_str L) crd attestation now = Inr True" by (simp_all add: map_of_below)
    have "map_of t (inside source n) \<noteq> None" if "n \<in> set service_files" for n
      using that docs by (simp add: map_of_below [symmetric] map_of_eq_None_iff)
    then have "list_all (\<lambda>n. map_of t (inside source n) \<noteq> None) service_files" by (simp add: list_all_iff)
    moreover have "distinct service_files" by code_simp
    ultimately obtain us u where us: "mapS (publish_file source site) service_files t = (Inr us, u)"
      and u: "\<forall>q. map_of u q = (if \<exists>n \<in> set service_files. q = inside site n then map_of t (inside source (drop (Suc (length site)) q)) else map_of t q)"
      using put_service_files [of t source service_files site] apart by blast
    have "service_publish C P L enabled spool site source now (w, t) = (Inr (), (w, u))"
      using ok gate Pair True us by (simp add: service_publish_def)
    with p have eqs: "res = Inr ()" "w' = w" "t' = u" by auto
    have six: "\<forall>n \<in> set service_files. map_of u (inside site n) = map_of t (inside source n)" using u by auto
    then have "map_of u (inside site ''service-card.json'') = map_of t (inside source ''service-card.json'')"
      "map_of u (inside site ''service-card.attestation.json'') = map_of t (inside source ''service-card.attestation.json'')"
      by (simp_all add: service_files_def)
    moreover have "\<forall>q. q \<notin> inside site ` set service_files \<longrightarrow> map_of u q = map_of t q" using u by auto
    ultimately show ?thesis unfolding eqs sum.case using ok gate docs card six by (intro conjI) simp_all
  next
    case False
    have "service_publish C P L enabled spool site source now (w, t) = (res, (w', t')) \<Longrightarrow> \<exists>e. res = Inl e \<and> w' = w \<and> t' = t"
      using False Pair gate_require_Inl [of "''publisher''" w] gate_require_Inr [of "''publisher''" w "()" v]
      unfolding service_publish_def
      by (cases g; cases "check_service_documents C P L (below source t) now")
        (auto simp: bindS_def on_fst_def raiseS_if_def split: if_splits, metis)
    with p show ?thesis by auto
  qed
qed

lemma service_documents_all_or_nothing_witness:
  "\<exists>res. service_publish demo_crypto dated_pydantic plain_stdlib True ''/spool'' ''/site'' ''/spool/d'' demo_now
     (demo_env, [(''/spool/d/skill.md'', ''x'')]) = (res, (demo_env, [(''/spool/d/skill.md'', ''x'')]))"
proof -
  obtain res w' t' where r: "service_publish demo_crypto dated_pydantic plain_stdlib True ''/spool'' ''/site'' ''/spool/d'' demo_now
     (demo_env, [(''/spool/d/skill.md'', ''x'')]) = (res, (w', t'))" by (metis prod.collapse)
  have "inside ''/spool/d'' n \<noteq> inside ''/site'' m" for n m by (simp add: inside_def)
  from service_documents_all_or_nothing [OF this r] r
  show ?thesis by (cases res) (auto simp: service_files_def below_def starts_with_def)
qed

end
