(* ===== verification/Technocore_Client.thy ===== *)
theory Technocore_Client
  imports Observer
begin

text \<open>
  \<open>rosetta/technocore_client.py\<close>: the production client of the Technocore HTTP
  protocol, which validates every record it reads.  Its configuration is a
  record, its state the network and the high-water marks of the last read of
  each room.  A JSON boolean in an integer field is read as the integer that
  it equals in Python.
\<close>

section \<open>Configuration\<close>

definition fixed_origin :: "bool \<Rightarrow> string \<Rightarrow> string result" where
  "fixed_origin https_required s = bindE (urlparse s) (\<lambda>u.
     raise_if (u_scheme u \<notin> (if https_required then {''https''} else {''http'', ''https''}) \<or> u_netloc u = [])
       (ValueError ''invalid fixed origin'')
     (raise_if (\<not> no_credentials u \<or> \<not> bare_path u)
       (ValueError ''origin must not contain credentials or a path'')
     (raise_if (\<not> no_tail u) (ValueError ''origin must not contain a query or fragment'')
     (raise_if (u_scheme u = ''http'' \<and> \<not> host_in [''127.0.0.1'', ''localhost'', ''technocore-egress''] u)
       (ValueError ''plain HTTP is limited to the local egress boundary'')
     (Inr (rstrip_char CHR ''/'' s))))))"

record technocore_client =
  tc_fetch :: string
  tc_authority :: string
  tc_release :: string
  tc_max :: int

record 'n client_state =
  cs_net :: 'n
  cs_generations :: "(string \<times> int) list"
  cs_last :: "(string \<times> int) list"

definition make_client :: "string \<Rightarrow> string \<Rightarrow> string \<Rightarrow> int \<Rightarrow> technocore_client result" where
  "make_client fetch authority pinned max_bytes =
     bindE (fixed_origin False fetch) (\<lambda>f. bindE (fixed_origin True authority) (\<lambda>a.
     raise_if (pinned \<noteq> ''v0.14.5'') (ValueError ''production pilot requires reviewed Technocore v0.14.5'')
     (raise_if (max_bytes < 1024 \<or> 4194304 < max_bytes) (ValueError ''invalid response byte limit'')
     (Inr \<lparr>tc_fetch = f, tc_authority = a, tc_release = pinned, tc_max = max_bytes\<rparr>))))"

definition on_net :: "('n, 'a) op \<Rightarrow> ('n client_state, 'a) op" where
  "on_net f s = (case f (cs_net s) of (r, n) \<Rightarrow> (r, s\<lparr>cs_net := n\<rparr>))"

section \<open>Responses\<close>

definition bounded :: "technocore_client \<Rightarrow> http_response \<Rightarrow> bytes result" where
  "bounded c r =
     raise_if (is_redirect r) (TechnocoreRefusal (hr_status r) ''redirect_rejected'')
     (raise_if (tc_max c < int (length (whole_body r))) (TechnocoreRefusal 502 ''response_too_large'')
     (Inr (whole_body r)))"

definition rate_limited :: "http_response \<Rightarrow> unit result" where
  "rate_limited r = (if hr_status r \<noteq> 429 then Inr ()
     else let wait = (case int_of_text (header r ''retry-after'' ''1'') of Inl _ \<Rightarrow> 3 | Inr i \<Rightarrow> i) in
          Inl (RateLimited (max 1 (min wait 60))))"

definition response_json :: "technocore_client \<Rightarrow> http_response \<Rightarrow> (string \<times> pyval) list result" where
  "response_json c r = bindE (rate_limited r) (\<lambda>_. bindE (bounded c r) (\<lambda>body.
     raise_if (hr_status r \<noteq> 200) (TechnocoreRefusal (hr_status r) ''upstream_refusal'')
     (raise_if (before_semicolon (header r ''content-type'' []) \<noteq> ''application/json'')
       (TechnocoreRefusal 502 ''unexpected_content_type'')
     (case loads_bytes body of Inl _ \<Rightarrow> Inl (TechnocoreRefusal 502 ''invalid_json'')
      | Inr (PDict kvs) \<Rightarrow> Inr kvs
      | Inr _ \<Rightarrow> Inl (TechnocoreRefusal 502 ''invalid_json_shape'')))))"

section \<open>Reading a room\<close>

text \<open>\<open>isinstance(value, int)\<close>\<close>

definition as_int :: "pyval option \<Rightarrow> int option" where
  "as_int v = (case v of Some (PInt i) \<Rightarrow> Some i | Some (PBool b) \<Rightarrow> Some (if b then 1 else 0) | _ \<Rightarrow> None)"

text \<open>\<open>bool(value)\<close>; the empty text, list and dict and the zeros are false.\<close>

definition truth :: "stdlib \<Rightarrow> pyval \<Rightarrow> bool" where
  "truth L v = (case v of PNone \<Rightarrow> False | PBool b \<Rightarrow> b | PInt i \<Rightarrow> i \<noteq> 0 | PFloat t \<Rightarrow> \<not> sl_float_is L t 0
     | PStr s \<Rightarrow> s \<noteq> [] | PList vs \<Rightarrow> vs \<noteq> [] | PDict kvs \<Rightarrow> kvs \<noteq> [] | _ \<Rightarrow> True)"

definition read_record :: "crypto \<Rightarrow> stdlib \<Rightarrow> string \<Rightarrow> int \<Rightarrow> pyval \<Rightarrow> protocol_record result" where
  "read_record C L room previous item = (case item of
     PDict kvs \<Rightarrow>
       (case (as_int (map_of kvs ''seq''), map_of kvs ''from'', map_of kvs ''text'',
              as_int (Some (case map_of kvs ''nonce'' of None \<Rightarrow> PInt 0 | Some v \<Rightarrow> v))) of
          (Some seq, Some (PStr sender), Some (PStr msg), Some nonce) \<Rightarrow>
            raise_if (seq \<le> previous \<or> 4096 < length msg) (TechnocoreRefusal 502 ''invalid_room_record'')
            (let sig = (case map_of kvs ''sig'' of None \<Rightarrow> PStr [] | Some v \<Rightarrow> v) in
             if truth L sig then
               (case sig of
                  PStr s \<Rightarrow> raise_if (\<not> sig_text s \<or> \<not> did_text sender \<or> nonce < 1) (TechnocoreRefusal 502 ''invalid_record_signature'')
                    (bindE (signed_room_payload room nonce msg) (\<lambda>payload.
                     raise_if (\<not> verify_signature C sender payload s) (TechnocoreRefusal 502 ''invalid_record_signature'')
                     (Inr (make_record seq room sender nonce msg s))))
                | _ \<Rightarrow> Inl (TechnocoreRefusal 502 ''invalid_record_signature''))
             else (case sig of PStr s \<Rightarrow> Inr (make_record seq room sender nonce msg s)
                | _ \<Rightarrow> Inl (TechnocoreRefusal 502 ''invalid_room_record'')))
        | _ \<Rightarrow> Inl (TechnocoreRefusal 502 ''invalid_room_record''))
   | _ \<Rightarrow> Inl (TechnocoreRefusal 502 ''invalid_room_record''))"

fun read_records :: "crypto \<Rightarrow> stdlib \<Rightarrow> string \<Rightarrow> int \<Rightarrow> pyval list \<Rightarrow> protocol_record list result" where
  "read_records C L room previous [] = Inr []"
| "read_records C L room previous (item # items) =
     bindE (read_record C L room previous item) (\<lambda>r.
     bindE (read_records C L room (p_sequence r) items) (\<lambda>rs. Inr (r # rs)))"

definition room_view :: "string \<Rightarrow> int \<Rightarrow> (string \<times> pyval) list \<Rightarrow> (int \<times> int \<times> pyval list) result" where
  "room_view room since view =
     (case (map_of view ''messages'', as_int (map_of view ''generation''), as_int (map_of view ''last_seq'')) of
        (Some (PList items), Some generation, Some last_seq) \<Rightarrow>
          raise_if (map_of view ''room'' \<noteq> Some (PStr room) \<or> generation < 0 \<or> last_seq < since)
            (TechnocoreRefusal 502 ''invalid_room_view'') (Inr (generation, last_seq, items))
      | _ \<Rightarrow> Inl (TechnocoreRefusal 502 ''invalid_room_view''))"

definition read_request_of :: "string \<Rightarrow> int \<Rightarrow> int \<Rightarrow> http_request" where
  "read_request_of room since limit = \<lparr>hq_method = ''GET'', hq_target = ''/r/'' @ room,
     hq_params = [(''format'', ''json''), (''since'', str_int since), (''limit'', str_int limit)],
     hq_json = None, hq_body = None\<rparr>"

definition client_read_room ::
  "crypto \<Rightarrow> stdlib \<Rightarrow> 'n network \<Rightarrow> technocore_client \<Rightarrow> string \<Rightarrow> int \<Rightarrow> int \<Rightarrow> ('n client_state, protocol_record list) op" where
  "client_read_room C L N c room since limit =
     bindS (liftS (validate_room_name room)) (\<lambda>_.
     raiseS_if (since < 0 \<or> limit < 1 \<or> 200 < limit) (ValueError ''invalid bounded room cursor'')
     (bindS (on_net (fetch_whole N (read_request_of room since limit))) (\<lambda>r.
      bindS (liftS (bindE (response_json c r) (room_view room since))) (\<lambda>(generation, last_seq, items).
      bindS (putS (\<lambda>s. s\<lparr>cs_generations := dict_put room generation (cs_generations s),
                         cs_last := dict_put room last_seq (cs_last s)\<rparr>)) (\<lambda>_.
      liftS (read_records C L room since items))))))"

definition client_room_generation :: "string \<Rightarrow> ('n client_state, int option) op" where
  "client_room_generation room = bindS (liftS (validate_room_name room)) (\<lambda>r. getS (\<lambda>s. map_of (cs_generations s) r))"

definition client_room_last_sequence :: "string \<Rightarrow> ('n client_state, int option) op" where
  "client_room_last_sequence room = bindS (liftS (validate_room_name room)) (\<lambda>r. getS (\<lambda>s. map_of (cs_last s) r))"

definition client_reconcile ::
  "crypto \<Rightarrow> stdlib \<Rightarrow> 'n network \<Rightarrow> technocore_client \<Rightarrow> string \<Rightarrow> string \<Rightarrow> int \<Rightarrow> string \<Rightarrow>
    ('n client_state, protocol_record option) op" where
  "client_reconcile C L N c room did nonce msg =
     bindS (client_read_room C L N c room 0 200) (\<lambda>rs.
     let matches = filter (\<lambda>r. p_did r = did \<and> p_nonce r = nonce \<and> p_text r = msg) rs in
     raiseS_if (1 < length matches) (RuntimeError ''duplicate_remote_delivery'')
     (retS (case matches of [] \<Rightarrow> None | r # _ \<Rightarrow> Some r)))"

section \<open>Writing\<close>

definition post_request :: "string \<Rightarrow> (string \<times> pyval) list \<Rightarrow> http_request" where
  "post_request target body = \<lparr>hq_method = ''POST'', hq_target = target, hq_params = [(''format'', ''json'')],
     hq_json = Some (PDict body), hq_body = None\<rparr>"

text \<open>\<open>value == n\<close> for a JSON value and an integer.\<close>

definition equals_int :: "stdlib \<Rightarrow> pyval option \<Rightarrow> int \<Rightarrow> bool" where
  "equals_int L v n = (case v of Some (PFloat t) \<Rightarrow> sl_float_is L t n | _ \<Rightarrow> as_int v = Some n)"

definition posted_record ::
  "stdlib \<Rightarrow> string \<Rightarrow> string \<Rightarrow> int \<Rightarrow> string \<Rightarrow> string \<Rightarrow> (string \<times> pyval) list \<Rightarrow> protocol_record result" where
  "posted_record L room did nonce msg sig value = (case map_of value ''posted'' of
     Some (PDict posted) \<Rightarrow>
       (case as_int (map_of posted ''seq'') of
          Some seq \<Rightarrow>
            raise_if (map_of posted ''from'' \<noteq> Some (PStr did) \<or> \<not> equals_int L (map_of posted ''nonce'') nonce
                \<or> map_of posted ''text'' \<noteq> Some (PStr msg) \<or> map_of posted ''sig'' \<noteq> Some (PStr sig))
              (TechnocoreRefusal 502 ''posted_record_mismatch'')
            (Inr (make_record seq room did nonce msg sig))
        | None \<Rightarrow> Inl (TechnocoreRefusal 502 ''posted_record_mismatch''))
   | _ \<Rightarrow> Inl (TechnocoreRefusal 502 ''missing_posted_record''))"

definition signed_message_ok :: "crypto \<Rightarrow> string \<Rightarrow> string \<Rightarrow> int \<Rightarrow> string \<Rightarrow> string \<Rightarrow> bool result" where
  "signed_message_ok C room did nonce msg sig =
     (if \<not> did_text did \<or> nonce < 1 \<or> 4096 < length msg \<or> \<not> sig_text sig then Inr False
      else bindE (signed_room_payload room nonce msg) (\<lambda>payload. Inr (verify_signature C did payload sig)))"

definition client_post_signed ::
  "crypto \<Rightarrow> stdlib \<Rightarrow> 'n network \<Rightarrow> technocore_client \<Rightarrow> string \<Rightarrow> string \<Rightarrow> string \<Rightarrow> int \<Rightarrow> string \<Rightarrow> string \<Rightarrow>
    ('n client_state, protocol_record) op" where
  "client_post_signed C L N c actor room did nonce msg sig =
     bindS (liftS (validate_room_name room)) (\<lambda>_.
     bindS (liftS (signed_message_ok C room did nonce msg sig)) (\<lambda>ok.
     raiseS_if (\<not> ok) (ValueError ''invalid signed Technocore message'')
     (\<lambda>s. case on_net (fetch_whole N (post_request (''/r/'' @ room) [(''did'', PStr did), (''sig'', PStr sig),
            (''nonce'', PStr (str_int nonce)), (''text'', PStr msg)])) s of
        (Inr r, s') \<Rightarrow> (bindE (response_json c r) (posted_record L room did nonce msg sig), s')
      | (Inl e, s') \<Rightarrow>
          if \<not> is_http_error e then (Inl e, s')
          else (case client_reconcile C L N c room did nonce msg s' of
              (Inl _, s'') \<Rightarrow> (Inl (UncertainWrite ''write outcome could not be reconciled''), s'')
            | (Inr (Some r), s'') \<Rightarrow> (Inr (make_record (p_sequence r) room did nonce msg sig), s'')
            | (Inr None, s'') \<Rightarrow> (Inl (UncertainWrite ''write outcome remains uncertain''), s'')))))"

definition note_namespaces :: "string list" where
  "note_namespaces = [''room-owners'', ''room-allow'']"

definition client_post_note ::
  "crypto \<Rightarrow> 'n network \<Rightarrow> technocore_client \<Rightarrow> string \<Rightarrow> string \<Rightarrow> string \<Rightarrow> int \<Rightarrow> string \<Rightarrow> string \<Rightarrow> bool \<Rightarrow>
    ('n client_state, (string \<times> pyval) list) op" where
  "client_post_note C N c namespace key did nonce value sig if_absent =
     raiseS_if (namespace \<notin> set note_namespaces) (ValueError ''signed note namespace is not allowed'')
     (bindS (liftS (validate_room_name key)) (\<lambda>_.
      bindS (liftS (if \<not> did_text did \<or> nonce < 1 \<or> \<not> sig_text sig \<or> 8192 < length value then Inr False
        else bindE (signed_note_payload namespace key nonce value) (\<lambda>p. Inr (verify_signature C did p sig)))) (\<lambda>ok.
      raiseS_if (\<not> ok) (ValueError ''invalid signed Technocore note'')
      (bindS (tryS is_http_error
         (on_net (fetch_whole N (post_request (''/kv/'' @ namespace @ ''/'' @ key)
           ([(''did'', PStr did), (''sig'', PStr sig), (''nonce'', PStr (str_int nonce)), (''value'', PStr value)] @
            (if if_absent then [(''if_absent'', PBool True)] else [])))))
         (\<lambda>_. raiseS (UncertainWrite ''signed note outcome is uncertain''))) (\<lambda>r.
       liftS (response_json c r))))))"

text \<open>The text after the first blank line.\<close>

fun after_blank :: "string \<Rightarrow> string option" where
  "after_blank (a # b # s) = (if a = CHR 0x0A \<and> b = CHR 0x0A then Some s else after_blank (b # s))"
| "after_blank _ = None"

definition client_read_note ::
  "'n network \<Rightarrow> technocore_client \<Rightarrow> string \<Rightarrow> string \<Rightarrow> ('n client_state, string option) op" where
  "client_read_note N c namespace key =
     raiseS_if (namespace \<notin> set note_namespaces) (ValueError ''note namespace is not allowed'')
     (bindS (liftS (validate_room_name key)) (\<lambda>_.
      bindS (on_net (fetch_whole N \<lparr>hq_method = ''GET'', hq_target = ''/kv/'' @ namespace @ ''/'' @ key, hq_params = [],
        hq_json = None, hq_body = None\<rparr>)) (\<lambda>r.
      liftS (bindE (rate_limited r) (\<lambda>_. bindE (bounded c r) (\<lambda>body.
        if hr_status r = 404 then Inr None
        else raise_if (hr_status r \<noteq> 200) (TechnocoreRefusal (hr_status r) ''note_read_refused'')
          (raise_if (before_semicolon (header r ''content-type'' []) \<noteq> ''text/plain'')
            (TechnocoreRefusal 502 ''unexpected_content_type'')
          (case utf8_decode body of None \<Rightarrow> Inl (ValueError ''invalid utf-8'')
           | Some t \<Rightarrow> (case after_blank t of None \<Rightarrow> Inl (TechnocoreRefusal 502 ''invalid_note_view'')
               | Some v \<Rightarrow> Inr (Some (strip v)))))))))))"

definition client_capabilities ::
  "crypto \<Rightarrow> stdlib \<Rightarrow> 'n network \<Rightarrow> technocore_client \<Rightarrow> ('n client_state, (string \<times> pyval) list) op" where
  "client_capabilities C L N c =
     bindS (on_net (probe C L N (make_probe_client (tc_authority c) (tc_release c) (tc_max c)))) (\<lambda>x.
     raiseS_if (po_status x \<noteq> ''compatible'') (RuntimeError ''technocore_release_drift'')
     (retS [(''release'', PStr (tc_release c)),
        (''operations'', PList [PStr ''read_room'', PStr ''post_signed'', PStr ''wait_room'', PStr ''rooms'', PStr ''events'']),
        (''max_message_chars'', PInt 4096), (''authority'', PStr (tc_authority c)), (''protocol_digest'', PStr (po_digest x))]))"

text \<open>The client as a target: rooms exist by their first message, and there are no faults to inject.\<close>

definition client_ops :: "crypto \<Rightarrow> stdlib \<Rightarrow> 'n network \<Rightarrow> technocore_client \<Rightarrow> 'n client_state target_ops" where
  "client_ops C L N c = \<lparr>tg_release = tc_release c, tg_image_digest = ''sha256:'' @ replicate 64 CHR ''0'',
     tg_inject_rate_limit = (\<lambda>_ _. retS ()), tg_inject_uncertain = (\<lambda>_ _. retS ()),
     tg_capabilities = client_capabilities C L N c,
     tg_create_room = (\<lambda>room. bindS (liftS (validate_room_name room)) (\<lambda>_. retS ())),
     tg_read_room = client_read_room C L N c, tg_post_signed = client_post_signed C L N c,
     tg_reconcile = Some (client_reconcile C L N c)\<rparr>"

section \<open>What a read returns\<close>

definition record_valid :: "crypto \<Rightarrow> string \<Rightarrow> protocol_record \<Rightarrow> bool" where
  "record_valid C room r = (p_room r = room \<and> length (p_text r) \<le> 4096 \<and>
     (p_signature r \<noteq> [] \<longrightarrow> did_text (p_did r) \<and> 1 \<le> p_nonce r \<and> record_signed C r))"

lemma truth_str [simp]: "truth L (PStr s) = (s \<noteq> [])"
  by (simp add: truth_def)

lemma read_record_parts:
  assumes "read_record C L room previous item = Inr r"
  shows "\<exists>seq sender msg nonce s. previous < seq \<and> length msg \<le> 4096 \<and> r = make_record seq room sender nonce msg s
    \<and> (s \<noteq> [] \<longrightarrow> sig_text s \<and> did_text sender \<and> 1 \<le> nonce
        \<and> (\<exists>payload. signed_room_payload room nonce msg = Inr payload \<and> verify_signature C sender payload s))"
proof -
  obtain kvs where item: "item = PDict kvs" using assms by (cases item) (auto simp: read_record_def)
  let ?nonce = "as_int (Some (case map_of kvs ''nonce'' of None \<Rightarrow> PInt 0 | Some v \<Rightarrow> v))"
  let ?sig = "case map_of kvs ''sig'' of None \<Rightarrow> PStr [] | Some v \<Rightarrow> v"
  obtain seq sender msg nonce where f: "as_int (map_of kvs ''seq'') = Some seq" "map_of kvs ''from'' = Some (PStr sender)"
    "map_of kvs ''text'' = Some (PStr msg)" "?nonce = Some nonce"
    using assms unfolding item read_record_def
    by (auto simp del: raise_if_eq_Inr split: option.splits pyval.splits)
  have g: "previous < seq \<and> length msg \<le> 4096 \<and>
     (if truth L ?sig then
        (case ?sig of PStr s \<Rightarrow> raise_if (\<not> sig_text s \<or> \<not> did_text sender \<or> nonce < 1) (TechnocoreRefusal 502 ''invalid_record_signature'')
           (bindE (signed_room_payload room nonce msg) (\<lambda>payload.
            raise_if (\<not> verify_signature C sender payload s) (TechnocoreRefusal 502 ''invalid_record_signature'')
            (Inr (make_record seq room sender nonce msg s))))
         | _ \<Rightarrow> Inl (TechnocoreRefusal 502 ''invalid_record_signature''))
      else (case ?sig of PStr s \<Rightarrow> Inr (make_record seq room sender nonce msg s)
         | _ \<Rightarrow> Inl (TechnocoreRefusal 502 ''invalid_room_record''))) = Inr r"
    using assms unfolding item read_record_def pyval.case f option.case prod.case Let_def raise_if_eq_Inr by simp
  obtain s where s: "?sig = PStr s" using g by (cases ?sig) (auto split: if_splits)
  show ?thesis
    by (rule exI [of _ seq], rule exI [of _ sender], rule exI [of _ msg], rule exI [of _ nonce], rule exI [of _ s])
      (use g in \<open>cases "s = []"; auto simp: s\<close>)
qed

lemma read_record_valid:
  assumes "read_record C L room previous item = Inr r"
  shows "previous < p_sequence r \<and> record_valid C room r"
  using read_record_parts [OF assms] by (auto simp: record_valid_def make_record_def record_signed_def)

lemma read_records_valid:
  "read_records C L room previous items = Inr rs \<Longrightarrow>
   sorted_wrt (<) (previous # map p_sequence rs) \<and> list_all (record_valid C room) rs \<and> length rs = length items"
proof (induction items arbitrary: previous rs)
  case (Cons item items)
  then obtain r rs' where r: "read_record C L room previous item = Inr r" "rs = r # rs'"
    "read_records C L room (p_sequence r) items = Inr rs'" by auto
  from Cons.IH [OF r(3)] read_record_valid [OF r(1)] r(2) show ?case by auto
qed simp

lemma client_read_room_parts:
  assumes "client_read_room C L N c room since limit s = (Inr rs, s')"
  shows "room_name room \<and> 0 \<le> since \<and> 1 \<le> limit \<and> limit \<le> 200
    \<and> (\<exists>u generation last_seq items. fst (on_net (fetch_whole N (read_request_of room since limit)) s) = Inr u
        \<and> 0 \<le> generation \<and> since \<le> last_seq
        \<and> s' = (snd (on_net (fetch_whole N (read_request_of room since limit)) s))
            \<lparr>cs_generations := dict_put room generation (cs_generations s), cs_last := dict_put room last_seq (cs_last s)\<rparr>
        \<and> read_records C L room since items = Inr rs)"
proof -
  obtain x t where n: "on_net (fetch_whole N (read_request_of room since limit)) s = (x, t)"
    by (cases "on_net (fetch_whole N (read_request_of room since limit)) s")
  have keep: "cs_generations t = cs_generations s \<and> cs_last t = cs_last s"
    using n by (auto simp: on_net_def split: prod.splits)
  obtain u kvs generation last_seq items where u: "room_name room" "0 \<le> since" "1 \<le> limit" "limit \<le> 200" "x = Inr u"
    "response_json c u = Inr kvs" "room_view room since kvs = Inr (generation, last_seq, items)"
    "s' = t\<lparr>cs_generations := dict_put room generation (cs_generations t), cs_last := dict_put room last_seq (cs_last t)\<rparr>"
    "read_records C L room since items = Inr rs"
    using assms n by (auto simp: client_read_room_def validate_room_name_def not_less)
  have "0 \<le> generation \<and> since \<le> last_seq"
    using u(7) by (auto simp: room_view_def split: option.splits pyval.splits)
  then show ?thesis
    using u n keep by (intro conjI exI [of _ u] exI [of _ generation] exI [of _ last_seq] exI [of _ items]) simp_all
qed

text \<open>
  C18: A room read that returns has been validated: sequences rise strictly from the cursor, every record is of
  that room with at most 4096 characters, each signed record verifies under its DID with a positive nonce, and
  the generation and high-water mark of the room have been remembered.
\<close>

theorem client_read_validates:
  assumes "client_read_room C L N c room since limit s = (Inr rs, s')"
  shows "room_name room \<and> sorted_wrt (<) (since # map p_sequence rs)
    \<and> (\<forall>r \<in> set rs. p_room r = room \<and> length (p_text r) \<le> 4096 \<and>
         (p_signature r \<noteq> [] \<longrightarrow> did_text (p_did r) \<and> 1 \<le> p_nonce r \<and> record_signed C r))
    \<and> (\<exists>generation last_seq. map_of (cs_generations s') room = Some generation \<and> 0 \<le> generation
        \<and> map_of (cs_last s') room = Some last_seq \<and> since \<le> last_seq)"
proof -
  obtain t generation last_seq items where r: "room_name room" "0 \<le> generation" "since \<le> last_seq"
    "s' = t\<lparr>cs_generations := dict_put room generation (cs_generations s), cs_last := dict_put room last_seq (cs_last s)\<rparr>"
    "read_records C L room since items = Inr rs"
    using client_read_room_parts [OF assms] by blast
  from read_records_valid [OF r(5)] r show ?thesis
    by (simp add: list_all_iff record_valid_def map_of_dict_put)
qed

definition one_record_network :: "unit network" where
  "one_record_network q n = (Inr \<lparr>hr_status = 200, hr_headers = [(''content-type'', ''application/json'')],
     hr_chunks = [case canonical_json (PDict [(''room'', PStr ''lobby''), (''generation'', PInt 0), (''last_seq'', PInt 3),
        (''messages'', PList [PDict [(''seq'', PInt 3), (''from'', PStr ''guest''), (''text'', PStr ''hello'')]])])
        of Inl _ \<Rightarrow> [] | Inr b \<Rightarrow> b], hr_broken = False\<rparr>, n)"

definition demo_client :: technocore_client where
  "demo_client = \<lparr>tc_fetch = ''http://127.0.0.1'', tc_authority = ''https://technocore.chat'', tc_release = ''v0.14.5'', tc_max = 4096\<rparr>"

lemma client_read_validates_witness:
  "\<exists>rs s'. client_read_room demo_crypto plain_stdlib one_record_network demo_client ''lobby'' 2 100
      \<lparr>cs_net = (), cs_generations = [], cs_last = []\<rparr> = (Inr rs, s')
    \<and> sorted_wrt (<) (2 # map p_sequence rs) \<and> map_of (cs_last s') ''lobby'' \<noteq> None"
proof -
  let ?op = "client_read_room demo_crypto plain_stdlib one_record_network demo_client ''lobby'' 2 100
      \<lparr>cs_net = (), cs_generations = [], cs_last = []\<rparr>"
  have "succeeds (fst ?op)" by code_simp
  then obtain rs s' where e: "?op = (Inr rs, s')" by (cases ?op) (auto simp: succeeds_iff)
  from client_read_validates [OF e] e show ?thesis by auto
qed

section \<open>What a write does\<close>

lemma fetch_whole_log: "fetch_whole (logged N) q s = (x, t) \<Longrightarrow> snd t = snd s @ [q]"
proof -
  assume f: "fetch_whole (logged N) q s = (x, t)"
  obtain y u where y: "logged N q s = (y, u)" by (cases "logged N q s")
  have "t = u" using f y by (auto simp: fetch_whole_def bindS_def raiseS_if_def split: sum.splits if_splits)
  then show ?thesis using logged_log [OF y] by simp
qed

lemma on_net_log: "on_net (fetch_whole (logged N) q) s = (x, t) \<Longrightarrow> snd (cs_net t) = snd (cs_net s) @ [q]"
  by (auto simp: on_net_def dest: fetch_whole_log split: prod.splits)

lemma client_read_room_log:
  assumes "client_read_room C L (logged N) c room since limit s = (x, s')"
  shows "snd (cs_net s') = snd (cs_net s) \<or> snd (cs_net s') = snd (cs_net s) @ [read_request_of room since limit]"
proof -
  obtain y t where y: "on_net (fetch_whole (logged N) (read_request_of room since limit)) s = (y, t)"
    by (cases "on_net (fetch_whole (logged N) (read_request_of room since limit)) s")
  have "s' = s \<or> cs_net s' = cs_net t"
    using assms y by (auto simp: client_read_room_def bindS_def liftS_def raiseS_if_def split: sum.splits if_splits prod.splits)
  then show ?thesis using on_net_log [OF y] by auto
qed

lemma client_reconcile_log:
  assumes "client_reconcile C L (logged N) c room did nonce msg s = (x, s')"
  shows "snd (cs_net s') = snd (cs_net s) \<or> snd (cs_net s') = snd (cs_net s) @ [read_request_of room 0 200]"
proof -
  obtain y t where y: "client_read_room C L (logged N) c room 0 200 s = (y, t)"
    by (cases "client_read_room C L (logged N) c room 0 200 s")
  have "s' = t" using assms y by (auto simp: client_reconcile_def bindS_def raiseS_if_def Let_def split: sum.splits if_splits)
  then show ?thesis using client_read_room_log [OF y] by simp
qed

lemma client_reconcile_unique:
  assumes "client_reconcile C L N c room did nonce msg s = (Inr (Some r), s')"
  shows "\<exists>rs. client_read_room C L N c room 0 200 s = (Inr rs, s')
    \<and> filter (\<lambda>r. p_did r = did \<and> p_nonce r = nonce \<and> p_text r = msg) rs = [r]"
proof -
  obtain rs where rs: "client_read_room C L N c room 0 200 s = (Inr rs, s')"
    and m: "\<not> 1 < length (filter (\<lambda>r. p_did r = did \<and> p_nonce r = nonce \<and> p_text r = msg) rs)"
      "(case filter (\<lambda>r. p_did r = did \<and> p_nonce r = nonce \<and> p_text r = msg) rs of [] \<Rightarrow> None | r # _ \<Rightarrow> Some r) = Some r"
    using assms by (auto simp: client_reconcile_def Let_def)
  let ?m = "filter (\<lambda>r. p_did r = did \<and> p_nonce r = nonce \<and> p_text r = msg) rs"
  obtain ys where "?m = r # ys" using m(2) by (cases ?m) auto
  moreover have "ys = []" using m(1) calculation by auto
  ultimately show ?thesis using rs by auto
qed

definition message_post :: "string \<Rightarrow> string \<Rightarrow> int \<Rightarrow> string \<Rightarrow> string \<Rightarrow> http_request" where
  "message_post room did nonce msg sig = post_request (''/r/'' @ room) [(''did'', PStr did), (''sig'', PStr sig),
     (''nonce'', PStr (str_int nonce)), (''text'', PStr msg)]"

lemma posted_record_Inr:
  "posted_record L room did nonce msg sig v = Inr r \<Longrightarrow> \<exists>seq. r = make_record seq room did nonce msg sig"
  by (auto simp: posted_record_def split: option.splits pyval.splits if_splits)

text \<open>A checked message: what follows the checks of \<open>post_signed\<close>.\<close>

lemma client_post_checked:
  assumes "client_post_signed C L N c actor room did nonce msg sig s = (x, s')"
    and "\<not> (\<exists>e. x = Inl e \<and> s' = s \<and> is_value_error e)"
  shows "room_name room \<and> signed_message_ok C room did nonce msg sig = Inr True
    \<and> (\<exists>y t. on_net (fetch_whole N (message_post room did nonce msg sig)) s = (y, t)
      \<and> (case y of
           Inr r \<Rightarrow> x = bindE (response_json c r) (posted_record L room did nonce msg sig) \<and> s' = t
         | Inl e \<Rightarrow> if \<not> is_http_error e then x = Inl e \<and> s' = t
             else \<exists>z. client_reconcile C L N c room did nonce msg t = (z, s')
               \<and> (case z of Inr (Some r) \<Rightarrow> x = Inr (make_record (p_sequence r) room did nonce msg sig)
                  | _ \<Rightarrow> \<exists>m. x = Inl (UncertainWrite m))))"
proof -
  have n: "room_name room" using assms by (auto simp: client_post_signed_def validate_room_name_def raise_if_def split: if_splits)
  have swept: "is_value_error e" if "sweep_text 4096 msg = Inl e" for e
    using that by (auto simp: sweep_text_def Let_def raise_if_eq_Inl split: if_splits)
  have ve: "is_value_error e" if "signed_message_ok C room did nonce msg sig = Inl e" for e
    using that swept by (auto simp: signed_message_ok_def signed_room_payload_def bindE_eq_Inl raise_if_eq_Inl split: if_splits)
  have ok: "signed_message_ok C room did nonce msg sig = Inr True"
    using assms n ve by (cases "signed_message_ok C room did nonce msg sig")
      (auto simp: client_post_signed_def validate_room_name_def bindS_def liftS_def raiseS_if_def raise_if_def split: if_splits)
  obtain y t where y: "on_net (fetch_whole N (message_post room did nonce msg sig)) s = (y, t)"
    by (cases "on_net (fetch_whole N (message_post room did nonce msg sig)) s")
  obtain z u where z: "client_reconcile C L N c room did nonce msg t = (z, u)"
    by (cases "client_reconcile C L N c room did nonce msg t")
  show ?thesis using assms(1) n ok y z
    by (auto simp: client_post_signed_def validate_room_name_def message_post_def split: sum.splits if_splits option.splits)
qed

text \<open>The log and the result of a post, over a network that logs.\<close>

lemma client_post_sends:
  assumes "client_post_signed C L (logged N) c actor room did nonce msg sig s = (x, s')"
  shows "(\<exists>sent. snd (cs_net s') = snd (cs_net s) @ sent \<and>
      (sent = [] \<and> (\<exists>e. x = Inl e \<and> is_value_error e) \<or> signed_message_ok C room did nonce msg sig = Inr True
        \<and> (sent = [message_post room did nonce msg sig] \<or> sent = [message_post room did nonce msg sig, read_request_of room 0 200])))
    \<and> (\<forall>r. x = Inr r \<longrightarrow> (\<exists>seq. r = make_record seq room did nonce msg sig) \<and> record_signed C r \<and> did_text did \<and> 1 \<le> nonce)"
proof (cases "\<exists>e. x = Inl e \<and> s' = s \<and> is_value_error e")
  case True
  then show ?thesis by auto
next
  case False
  from client_post_checked [OF assms False] obtain y t where
    ok: "signed_message_ok C room did nonce msg sig = Inr True"
    and y: "on_net (fetch_whole (logged N) (message_post room did nonce msg sig)) s = (y, t)"
    and k: "case y of
           Inr r \<Rightarrow> x = bindE (response_json c r) (posted_record L room did nonce msg sig) \<and> s' = t
         | Inl e \<Rightarrow> if \<not> is_http_error e then x = Inl e \<and> s' = t
             else \<exists>z. client_reconcile C L (logged N) c room did nonce msg t = (z, s')
               \<and> (case z of Inr (Some r) \<Rightarrow> x = Inr (make_record (p_sequence r) room did nonce msg sig)
                  | _ \<Rightarrow> \<exists>m. x = Inl (UncertainWrite m))" by blast
  have sgd: "record_signed C (make_record seq room did nonce msg sig) \<and> did_text did \<and> 1 \<le> nonce" for seq
    using ok by (auto simp: signed_message_ok_def record_signed_def make_record_def split: if_splits)
  have sent: "snd (cs_net t) = snd (cs_net s) @ [message_post room did nonce msg sig]" by (rule on_net_log [OF y])
  have more: "snd (cs_net s') = snd (cs_net t) \<or> snd (cs_net s') = snd (cs_net t) @ [read_request_of room 0 200]"
  proof -
    have "s' = t \<or> (\<exists>z. client_reconcile C L (logged N) c room did nonce msg t = (z, s'))"
      using k by (cases y) (auto split: if_splits)
    then show ?thesis using client_reconcile_log [of C L N c room did nonce msg t] by auto
  qed
  have ret: "\<exists>seq. r = make_record seq room did nonce msg sig" if "x = Inr r" for r
  proof (cases y)
    case (Inl e)
    then have "\<exists>z. client_reconcile C L (logged N) c room did nonce msg t = (z, s')
        \<and> (case z of Inr (Some r) \<Rightarrow> x = Inr (make_record (p_sequence r) room did nonce msg sig)
          | _ \<Rightarrow> \<exists>m. x = Inl (UncertainWrite m))" using k that by (simp split: if_splits)
    then obtain z :: "protocol_record option result" where "case z of Inr (Some r) \<Rightarrow> x = Inr (make_record (p_sequence r) room did nonce msg sig)
          | _ \<Rightarrow> \<exists>m. x = Inl (UncertainWrite m)" by (elim exE conjE)
    then show ?thesis using that by (cases z) (auto split: option.splits)
  next
    case (Inr a)
    then have "bindE (response_json c a) (posted_record L room did nonce msg sig) = Inr r" using k that by simp
    then show ?thesis using posted_record_Inr [of L room did nonce msg sig _ r] by auto
  qed
  show ?thesis using sent more ret sgd ok by auto
qed

text \<open>The answer of a POST that shows the posted message under a sequence number.\<close>

definition echoes :: "stdlib \<Rightarrow> string \<Rightarrow> int \<Rightarrow> string \<Rightarrow> string \<Rightarrow> int \<Rightarrow> http_response \<Rightarrow> bool" where
  "echoes L did nonce msg sig seq a = (hr_status a = 200 \<and> (\<exists>kvs posted. loads_bytes (whole_body a) = Inr (PDict kvs)
     \<and> map_of kvs ''posted'' = Some (PDict posted) \<and> as_int (map_of posted ''seq'') = Some seq
     \<and> map_of posted ''from'' = Some (PStr did) \<and> map_of posted ''text'' = Some (PStr msg)
     \<and> map_of posted ''sig'' = Some (PStr sig)
     \<and> (case map_of posted ''nonce'' of Some (PInt n) \<Rightarrow> n = nonce | Some (PBool b) \<Rightarrow> nonce = (if b then 1 else 0)
        | Some (PFloat t) \<Rightarrow> sl_float_is L t nonce | _ \<Rightarrow> False)))"

lemma equals_int_cases: "equals_int L v n = (case v of Some (PInt i) \<Rightarrow> i = n | Some (PBool b) \<Rightarrow> n = (if b then 1 else 0)
    | Some (PFloat t) \<Rightarrow> sl_float_is L t n | _ \<Rightarrow> False)"
  by (auto simp: equals_int_def as_int_def split: option.split pyval.split)

lemma posted_record_iff:
  "posted_record L room did nonce msg sig kvs = Inr r \<longleftrightarrow> (\<exists>posted seq. map_of kvs ''posted'' = Some (PDict posted)
     \<and> as_int (map_of posted ''seq'') = Some seq \<and> map_of posted ''from'' = Some (PStr did) \<and> map_of posted ''text'' = Some (PStr msg)
     \<and> map_of posted ''sig'' = Some (PStr sig) \<and> equals_int L (map_of posted ''nonce'') nonce \<and> r = make_record seq room did nonce msg sig)"
proof (cases "\<exists>posted. map_of kvs ''posted'' = Some (PDict posted)")
  case True
  then obtain posted where p: "map_of kvs ''posted'' = Some (PDict posted)" by blast
  show ?thesis by (cases "as_int (map_of posted ''seq'')") (auto simp: posted_record_def p raise_if_def)
next
  case False
  then show ?thesis by (auto simp: posted_record_def split: option.splits pyval.splits)
qed

lemma posted_record_echo:
  assumes "response_json c a = Inr kvs"
  shows "posted_record L room did nonce msg sig kvs = Inr r \<longleftrightarrow>
    (\<exists>seq. r = make_record seq room did nonce msg sig \<and> echoes L did nonce msg sig seq a)"
proof -
  have "hr_status a = 200" "loads_bytes (whole_body a) = Inr (PDict kvs)"
    using assms by (auto simp: response_json_def bounded_def raise_if_eq_Inr split: sum.splits pyval.splits)
  then show ?thesis
    unfolding posted_record_iff echoes_def equals_int_cases by (simp only: sum.inject pyval.inject) blast
qed

lemma client_post_returned:
  assumes "client_post_signed C L N c actor room did nonce msg sig s = (Inr r, s')"
    and "fetch_whole N (message_post room did nonce msg sig) (cs_net s) = (answer, net)"
  shows "case answer of Inr a \<Rightarrow> echoes L did nonce msg sig (p_sequence r) a \<and> s' = s\<lparr>cs_net := net\<rparr>
     | Inl e \<Rightarrow> is_http_error e \<and> (\<exists>rs. client_read_room C L N c room 0 200 (s\<lparr>cs_net := net\<rparr>) = (Inr rs, s')
         \<and> map p_sequence (filter (\<lambda>q. p_did q = did \<and> p_nonce q = nonce \<and> p_text q = msg) rs) = [p_sequence r])"
proof -
  let ?t = "s\<lparr>cs_net := net\<rparr>"
  have n: "on_net (fetch_whole N (message_post room did nonce msg sig)) s = (answer, ?t)" using assms(2) by (simp add: on_net_def)
  from client_post_checked [OF assms(1)] n have k: "case answer of
           Inr a \<Rightarrow> Inr r = bindE (response_json c a) (posted_record L room did nonce msg sig) \<and> s' = ?t
         | Inl e \<Rightarrow> if \<not> is_http_error e then Inr r = (Inl e :: protocol_record result) \<and> s' = ?t
             else \<exists>z. client_reconcile C L N c room did nonce msg ?t = (z, s')
               \<and> (case z of Inr (Some q) \<Rightarrow> Inr r = (Inr (make_record (p_sequence q) room did nonce msg sig) :: protocol_record result)
                  | _ \<Rightarrow> \<exists>m. Inr r = (Inl (UncertainWrite m) :: protocol_record result))" by auto
  show ?thesis
  proof (cases answer)
    case (Inl e)
    with k have e: "is_http_error e" by (auto split: if_splits)
    with k Inl obtain z where z: "client_reconcile C L N c room did nonce msg ?t = (z, s')"
      and w: "case z of Inr (Some q) \<Rightarrow> Inr r = (Inr (make_record (p_sequence q) room did nonce msg sig) :: protocol_record result)
        | _ \<Rightarrow> \<exists>m. Inr r = (Inl (UncertainWrite m) :: protocol_record result)" by auto
    from w obtain q where q: "z = Inr (Some q)" "p_sequence r = p_sequence q"
      by (cases z) (auto simp: make_record_def split: option.splits)
    from client_reconcile_unique z q(1) obtain rs where "client_read_room C L N c room 0 200 ?t = (Inr rs, s')"
      "filter (\<lambda>r. p_did r = did \<and> p_nonce r = nonce \<and> p_text r = msg) rs = [q]" by blast
    then show ?thesis using Inl e q(2) by auto
  next
    case (Inr a)
    with k have "bindE (response_json c a) (posted_record L room did nonce msg sig) = Inr r" "s' = ?t" by auto
    moreover from this(1) obtain kvs where "response_json c a = Inr kvs" "posted_record L room did nonce msg sig kvs = Inr r" by auto
    ultimately show ?thesis using Inr posted_record_echo by (auto simp: make_record_def)
  qed
qed

lemma client_post_accepts:
  assumes "client_post_signed C L N c actor room did nonce msg sig s = (x, s')"
    and "fetch_whole N (message_post room did nonce msg sig) (cs_net s) = (Inr a, net)"
    and "room_name room" "signed_message_ok C room did nonce msg sig = Inr True" "response_json c a = Inr kvs"
    and "echoes L did nonce msg sig seq a"
  shows "x = Inr (make_record seq room did nonce msg sig)"
proof -
  have "posted_record L room did nonce msg sig kvs = Inr (make_record seq room did nonce msg sig)"
    using posted_record_echo [OF assms(5)] assms(6) by blast
  then show ?thesis using assms(1-5)
    by (auto simp: client_post_signed_def bindS_def liftS_def validate_room_name_def raise_if_def raiseS_if_def on_net_def message_post_def)
qed

definition demo_did :: string where "demo_did = ''did:key:z6MkmgafuU5XcTGi3Bc1MXs9ym8cwZnPUgi6UgE94wm7rsJ2''"

lemma demo_value: "b58_value 0 (drop 9 demo_did) = Inr 7025502017564502751730049126747399588499647034082563759771312825733638203682548587"
  by (simp add: demo_did_def b58_alphabet_def)

lemma demo_number: "from_bytes ([CHR 0xED, CHR 0x01] @ replicate 32 CHR ''k'') = 7025502017564502751730049126747399588499647034082563759771312825733638203682548587"
proof -
  have r: "replicate 32 CHR ''k'' = ''kkkkkkkkkkkkkkkkkkkkkkkkkkkkkkkk''" by code_simp
  show ?thesis unfolding r by (simp add: from_bytes_def code_def)
qed

lemma demo_key: "public_key_from_did demo_did = Inr (replicate 32 CHR ''k'')"
proof -
  have "to_bytes 7025502017564502751730049126747399588499647034082563759771312825733638203682548587 = [CHR 0xED, CHR 0x01] @ replicate 32 CHR ''k''"
    unfolding demo_number [symmetric] by (rule to_bytes_from_bytes) simp
  moreover have "starts_with did_prefix demo_did" "length did_prefix = 9" "leading CHR ''1'' (drop 9 demo_did) = 0"
    by (simp_all add: did_prefix_def starts_with_def demo_did_def leading_def)
  ultimately show ?thesis
    by (simp add: public_key_from_did_def b58decode_def demo_value ed25519_multicodec_def starts_with_def)
qed

lemma demo_did_text: "did_text demo_did" 
  by code_simp

definition demo_sig :: string where
  "demo_sig = base64url (take 64 (''lobby|1|hi'' @ replicate 64 CHR 0x05))"

lemma demo_signed: "signed_message_ok demo_crypto ''lobby'' demo_did 1 ''hi'' demo_sig = Inr True"
proof -
  have p: "signed_room_payload ''lobby'' 1 ''hi'' = Inr ''lobby|1|hi''" by code_simp
  have s: "sig_text demo_sig" "length demo_sig = 86" by code_simp+
  have l: "length (take 64 (''lobby|1|hi'' @ replicate 64 CHR 0x05)) = 64" by simp
  have v: "verify_signature demo_crypto demo_did ''lobby|1|hi'' demo_sig"
    using s(2) l by (simp add: verify_signature_def demo_sig_def base64url_roundtrip demo_key demo_crypto_def del: length_take)
  show ?thesis using demo_did_text p s v by (simp add: signed_message_ok_def)
qed

text \<open>A network that answers every request with the demonstration message under the number 7.\<close>

definition echo_answer :: http_response where
  "echo_answer = \<lparr>hr_status = 200, hr_headers = [(''content-type'', ''application/json'')],
     hr_chunks = [case canonical_json (PDict [(''posted'', PDict [(''seq'', PInt 7), (''from'', PStr demo_did), (''nonce'', PInt 1),
        (''text'', PStr ''hi''), (''sig'', PStr demo_sig)])]) of Inl _ \<Rightarrow> [] | Inr b \<Rightarrow> b], hr_broken = False\<rparr>"

definition echo_network :: "unit network" where
  "echo_network q n = (Inr echo_answer, n)"

text \<open>
  C19: Posting a signed message sends at most one POST, never repeated: over a network that logs its requests
  the call adds nothing, that POST, or that POST and one read that looks for the record after a transport
  error; nothing is sent unless the call fails on its arguments.  A record that is returned is the posted
  message, whose signature verifies, under the sequence number the network gave it: either the POST was
  answered and the answer echoes the sender, the text, the nonce and the signature under that number, or the
  POST ended in a transport error and the read after it shows exactly one record of that sender, nonce and
  text, under that number.  And an answer that echoes a well-signed message is accepted.
\<close>

theorem client_post_exact:
  assumes "client_post_signed C L (logged N) c actor room did nonce msg sig s = (x, s')"
    and "fetch_whole (logged N) (message_post room did nonce msg sig) (cs_net s) = (answer, net)"
  shows "(\<exists>sent. snd (cs_net s') = snd (cs_net s) @ sent \<and>
      (sent = [] \<and> (\<exists>e. x = Inl e \<and> is_value_error e) \<or> sent = [message_post room did nonce msg sig]
        \<or> sent = [message_post room did nonce msg sig, read_request_of room 0 200]))
    \<and> (\<forall>r. x = Inr r \<longrightarrow> r = make_record (p_sequence r) room did nonce msg sig \<and> record_signed C r \<and> did_text did \<and> 1 \<le> nonce
      \<and> (case answer of Inr a \<Rightarrow> echoes L did nonce msg sig (p_sequence r) a \<and> s' = s\<lparr>cs_net := net\<rparr>
         | Inl e \<Rightarrow> is_http_error e \<and> (\<exists>rs. client_read_room C L (logged N) c room 0 200 (s\<lparr>cs_net := net\<rparr>) = (Inr rs, s')
             \<and> map p_sequence (filter (\<lambda>q. p_did q = did \<and> p_nonce q = nonce \<and> p_text q = msg) rs) = [p_sequence r])))
    \<and> (\<forall>a kvs seq. answer = Inr a \<longrightarrow> room_name room \<longrightarrow> signed_message_ok C room did nonce msg sig = Inr True
      \<longrightarrow> response_json c a = Inr kvs \<longrightarrow> echoes L did nonce msg sig seq a
      \<longrightarrow> x = Inr (make_record seq room did nonce msg sig))"
proof -
  note sends = client_post_sends [OF assms(1)]
  have "r = make_record (p_sequence r) room did nonce msg sig" if "x = Inr r" for r
    using sends that by (auto simp: make_record_def)
  then show ?thesis using sends client_post_returned [OF _ assms(2)] client_post_accepts [OF assms(1)] assms by blast
qed

lemma client_post_exact_witness:
  "\<exists>s'. client_post_signed demo_crypto plain_stdlib (logged echo_network) demo_client ''a'' ''lobby'' demo_did 1 ''hi'' demo_sig
      \<lparr>cs_net = ((), []), cs_generations = [], cs_last = []\<rparr> = (Inr (make_record 7 ''lobby'' demo_did 1 ''hi'' demo_sig), s')
    \<and> snd (cs_net s') = [message_post ''lobby'' demo_did 1 ''hi'' demo_sig]"
proof -
  let ?s = "\<lparr>cs_net = ((), []), cs_generations = [], cs_last = []\<rparr> :: (unit \<times> http_request list) client_state"
  let ?q = "message_post ''lobby'' demo_did 1 ''hi'' demo_sig"
  obtain x s' where p: "client_post_signed demo_crypto plain_stdlib (logged echo_network) demo_client ''a'' ''lobby'' demo_did 1 ''hi'' demo_sig ?s
      = (x, s')" by fastforce
  have f: "fetch_whole (logged echo_network) ?q (cs_net ?s) = (Inr echo_answer, ((), [?q]))"
    by (simp add: fetch_whole_def logged_def echo_network_def echo_answer_def bindS_def raiseS_if_def)
  have "succeeds (response_json demo_client echo_answer) \<and> (case loads_bytes (whole_body echo_answer) of Inl _ \<Rightarrow> False | Inr v \<Rightarrow>
      v = PDict [(''posted'', PDict [(''from'', PStr demo_did), (''nonce'', PInt 1), (''seq'', PInt 7),
        (''sig'', PStr demo_sig), (''text'', PStr ''hi'')])])" by code_simp
  then obtain kvs where k: "response_json demo_client echo_answer = Inr kvs"
    and e: "echoes plain_stdlib demo_did 1 ''hi'' demo_sig 7 echo_answer"
    by (auto simp: succeeds_iff echoes_def as_int_def echo_answer_def split: sum.splits)
  have n: "room_name ''lobby''" by code_simp
  note whole = client_post_exact [OF p f]
  then have x: "x = Inr (make_record 7 ''lobby'' demo_did 1 ''hi'' demo_sig)" using n demo_signed k e by blast
  with whole have "s' = ?s\<lparr>cs_net := ((), [?q])\<rparr>" by auto
  then show ?thesis using p x by simp
qed

end
