(* ===== verification/Pilot.thy ===== *)
theory Pilot
  imports Config Publishing Technocore_Client
begin

text \<open>
  \<open>rosetta/pilot.py\<close>, first part: the state and the configuration of the pilot
  service, its documents on disk, and the approval of the engagement policy.
  The pilot works on the shared state of the workers beside a tree of files;
  the clock of the runtime, the clock of the state store and the names of
  temporary directories are functions of a counter that every use moves on.
  The public target is a record of operations, so that the service can be
  read against the HTTP client as well as against a fixture.
\<close>

section \<open>The public target\<close>

text \<open>
  The operations of \<open>TechnocoreHttpClient\<close> that the pilot uses beside those of a
  target; \<open>getattr(target, "room_generation", None)\<close> may find nothing.
\<close>

record 't pilot_target =
  tp_ops :: "'t target_ops"
  tp_generation :: "(string \<Rightarrow> ('t, int option) op) option"
  tp_last :: "(string \<Rightarrow> ('t, int option) op) option"
  tp_post_note :: "string \<Rightarrow> string \<Rightarrow> string \<Rightarrow> int \<Rightarrow> string \<Rightarrow> string \<Rightarrow> bool \<Rightarrow> ('t, (string \<times> pyval) list) op"
  tp_read_note :: "string \<Rightarrow> string \<Rightarrow> ('t, string option) op"

definition http_target :: "crypto \<Rightarrow> stdlib \<Rightarrow> 'n network \<Rightarrow> technocore_client \<Rightarrow> 'n client_state pilot_target" where
  "http_target C L N c = \<lparr>tp_ops = client_ops C L N c, tp_generation = Some client_room_generation,
     tp_last = Some client_room_last_sequence, tp_post_note = client_post_note C N c, tp_read_note = client_read_note N c\<rparr>"

text \<open>The observed generation of a room, and the high-water mark that engagement needs.\<close>

definition room_generation :: "'t pilot_target \<Rightarrow> string \<Rightarrow> ('t, int option) op" where
  "room_generation T room = (case tp_generation T of None \<Rightarrow> retS None | Some f \<Rightarrow> f room)"

definition high_water :: "'t pilot_target \<Rightarrow> string \<Rightarrow> ('t, int \<times> int) op" where
  "high_water T room = bindS (room_generation T room) (\<lambda>generation. case tp_last T of
     None \<Rightarrow> raiseS (RuntimeError ''engagement requires a room high-water mark'')
   | Some f \<Rightarrow> bindS (f room) (\<lambda>last_seq. case last_seq of
       None \<Rightarrow> raiseS (RuntimeError ''missing engagement room high-water mark'')
     | Some n \<Rightarrow> retS (n, int_or_zero generation)))"

section \<open>The runtime and its state\<close>

text \<open>
  \<open>pl_type_name\<close> is \<open>type(exc).__name__\<close>, which the values of \<open>exn\<close> do not
  always determine; \<open>pl_schemas\<close> are the two JSON schemas that pydantic prints,
  \<open>pl_implementation\<close> the digest of the engagement module's source.
\<close>

record ('x, 't) pilot_runtime =
  pl_config :: pilot_config
  pl_crypto :: crypto
  pl_pydantic :: pydantic
  pl_stdlib :: stdlib
  pl_adapters :: adapter_runtime
  pl_registry :: registry
  pl_target :: "'t pilot_target"
  pl_signer :: "sign_request \<Rightarrow> ('x, sign_response) op"
  pl_implementation :: string
  pl_schemas :: "bytes \<times> bytes"
  pl_clock :: "nat \<Rightarrow> datetime"
  pl_system :: "nat \<Rightarrow> datetime"
  pl_temporary :: "nat \<Rightarrow> string"
  pl_type_name :: "exn \<Rightarrow> string"

record ('x, 't) pilot_world =
  pw_env :: "('x, 't) env"
  pw_files :: tree
  pw_ticks :: nat
  pw_stderr :: "string list"

definition pilot_limits :: "pilot_config \<Rightarrow> gate_limits" where
  "pilot_limits c = \<lparr>gl_runs_per_day = ps_external (pc_service c), gl_budget_cents = ps_budget (pc_service c),
     gl_quarantine_after = 3\<rparr>"

text \<open>
  The client and the registry that the constructor makes of a configuration;
  the two environments that follow it are made once and kept in the record.
\<close>

definition pilot_parts :: "pydantic \<Rightarrow> pilot_config \<Rightarrow> pyval \<Rightarrow> (technocore_client \<times> registry) result" where
  "pilot_parts P c lock = (let t = pc_technocore c in
     bindE (make_client (pt_fetch t) (pt_authority t) ''v0.14.5'' (pt_max_bytes t)) (\<lambda>client.
     bindE (load_registry P lock) (\<lambda>reg. Inr (client, reg))))"

definition guarded_signer :: "(sign_request \<Rightarrow> ('x, sign_response) op) \<Rightarrow> ('x, 't) signer" where
  "guarded_signer raw = guarded_sign (\<lambda>r. in_signer (raw r))"

definition pilot_sign :: "('x, 't) pilot_runtime \<Rightarrow> ('x, 't) signer" where
  "pilot_sign R = guarded_signer (pl_signer R)"

section \<open>Methods of the parts\<close>

definition in_worker :: "(('x, 't) env, 'a) op \<Rightarrow> (('x, 't) pilot_world, 'a) op" where
  "in_worker f p = (case f (pw_env p) of (r, w) \<Rightarrow> (r, p\<lparr>pw_env := w\<rparr>))"

definition in_files :: "(tree, 'a) op \<Rightarrow> (('x, 't) pilot_world, 'a) op" where
  "in_files f p = (case f (pw_files p) of (r, t) \<Rightarrow> (r, p\<lparr>pw_files := t\<rparr>))"

definition in_both :: "(('x, 't) env \<times> tree, 'a) op \<Rightarrow> (('x, 't) pilot_world, 'a) op" where
  "in_both f p = (case f (pw_env p, pw_files p) of (r, (w, t)) \<Rightarrow> (r, p\<lparr>pw_env := w, pw_files := t\<rparr>))"

text \<open>A method of a gateway; nothing in the pilot reads the gateway's counter.\<close>

definition in_gateway :: "(('x, 't) env \<times> int, 'a) op \<Rightarrow> (('x, 't) pilot_world, 'a) op" where
  "in_gateway f p = (case f (pw_env p, 0) of (r, (w, _)) \<Rightarrow> (r, p\<lparr>pw_env := w\<rparr>))"

text \<open>A run on a target of its own: it shares the store, the kill switch and the signer.\<close>

definition in_private :: "(('x, local_target) env, 'a) op \<Rightarrow> (('x, 't) pilot_world, 'a) op" where
  "in_private f p = (let w = pw_env p in
     case f \<lparr>b_store = b_store w, b_kill = b_kill w, e_signer = e_signer w, e_target = new_local\<rparr> of
       (r, v) \<Rightarrow> (r, p\<lparr>pw_env := w\<lparr>b_store := b_store v, e_signer := e_signer v\<rparr>\<rparr>))"

definition next_tick :: "(nat \<Rightarrow> 'a) \<Rightarrow> (('x, 't) pilot_world, 'a) op" where
  "next_tick f p = (Inr (f (pw_ticks p)), p\<lparr>pw_ticks := Suc (pw_ticks p)\<rparr>)"

text \<open>\<open>now or self.clock()\<close>\<close>

definition current_time :: "('x, 't) pilot_runtime \<Rightarrow> datetime option \<Rightarrow> (('x, 't) pilot_world, datetime) op" where
  "current_time R now = (case now of Some t \<Rightarrow> retS t | None \<Rightarrow> next_tick (pl_clock R))"

definition in_target_ops :: "('t, 'a) op \<Rightarrow> (('x, 't) pilot_world, 'a) op" where
  "in_target_ops f = in_worker (in_target f)"

definition in_state :: "(state_store, 'a) op \<Rightarrow> (('x, 't) pilot_world, 'a) op" where
  "in_state f = in_worker (in_store f)"

section \<open>Files\<close>

text \<open>
  \<open>Path(text)\<close> of an absolute path, with an empty text for the root; a path with
  two leading slashes, which POSIX keeps apart, is taken as one with one slash.
\<close>

definition dir_path :: "string \<Rightarrow> string" where
  "dir_path s = concat (map (\<lambda>c. CHR ''/'' # c) (path_parts s))"

definition state_file :: "('x, 't) pilot_runtime \<Rightarrow> string \<Rightarrow> string" where
  "state_file R name = inside (dir_path (ps_state_dir (pc_service (pl_config R)))) name"

definition spool_dir :: "('x, 't) pilot_runtime \<Rightarrow> string" where
  "spool_dir R = dir_path (ps_spool_dir (pc_service (pl_config R)))"

definition static_root :: "('x, 't) pilot_runtime \<Rightarrow> string" where
  "static_root R = dir_path (ps_static_root (pc_service (pl_config R)))"

definition service_documents :: "('x, 't) pilot_runtime \<Rightarrow> string" where
  "service_documents R = inside (spool_dir R) ''service-documents''"

definition preview_path :: "('x, 't) pilot_runtime \<Rightarrow> string" where
  "preview_path R = state_file R ''activation-preview.json''"

definition activation_path :: "('x, 't) pilot_runtime \<Rightarrow> string" where
  "activation_path R = state_file R ''activation.json''"

definition engagement_preview_path :: "('x, 't) pilot_runtime \<Rightarrow> string" where
  "engagement_preview_path R = state_file R ''engagement-preview.json''"

definition engagement_activation_path :: "('x, 't) pilot_runtime \<Rightarrow> string" where
  "engagement_activation_path R = state_file R ''engagement-activation.json''"

text \<open>The value is printed before the temporary file replaces the old one, so a failure leaves the old one.\<close>

definition atomic_json :: "string \<Rightarrow> pyval \<Rightarrow> (tree, unit) op" where
  "atomic_json path v = bindS (liftS (canonical_json v)) (\<lambda>b. write_bytes path (b @ [CHR 0x0A]))"

definition read_file :: "string \<Rightarrow> (('x, 't) pilot_world, bytes) op" where
  "read_file path p = (read_bytes path (pw_files p), p)"

definition read_json :: "string \<Rightarrow> (('x, 't) pilot_world, pyval) op" where
  "read_json path = bindS (read_file path) (\<lambda>b. liftS (loads_bytes b))"

definition has_file :: "string \<Rightarrow> (('x, 't) pilot_world, bool) op" where
  "has_file path = getS (\<lambda>p. is_file path (pw_files p))"

definition digest_of :: "crypto \<Rightarrow> pyval \<Rightarrow> string result" where
  "digest_of C v = bindE (canonical_json v) (\<lambda>b. Inr (prefixed_digest C b))"

section \<open>Comparing JSON values\<close>

text \<open>
  \<open>v == e\<close> for a parsed value \<open>v\<close> and a value \<open>e\<close> without floats: numbers and
  booleans compare by value, dicts without regard to order.
\<close>

fun int_of_val :: "pyval \<Rightarrow> int option" where
  "int_of_val (PInt i) = Some i"
| "int_of_val (PBool b) = Some (if b then 1 else 0)"
| "int_of_val _ = None"

fun py_eq :: "stdlib \<Rightarrow> pyval \<Rightarrow> pyval \<Rightarrow> bool"
and py_eq_list :: "stdlib \<Rightarrow> pyval list \<Rightarrow> pyval list \<Rightarrow> bool"
and py_eq_items :: "stdlib \<Rightarrow> (string \<times> pyval) list \<Rightarrow> (string \<times> pyval) list \<Rightarrow> bool" where
  "py_eq L (PDict kvs) e = (case e of PDict evs \<Rightarrow> length kvs = length evs \<and> py_eq_items L kvs evs | _ \<Rightarrow> False)"
| "py_eq L (PList vs) e = (case e of PList es \<Rightarrow> py_eq_list L vs es | _ \<Rightarrow> False)"
| "py_eq L (PInt i) e = (int_of_val e = Some i)"
| "py_eq L (PBool b) e = (int_of_val e = Some (if b then 1 else 0))"
| "py_eq L (PFloat r) e = (case int_of_val e of Some i \<Rightarrow> sl_float_is L r i | None \<Rightarrow> False)"
| "py_eq L v e = (v = e)"
| "py_eq_list L [] es = (es = [])"
| "py_eq_list L (v # vs) es = (case es of [] \<Rightarrow> False | e # es' \<Rightarrow> py_eq L v e \<and> py_eq_list L vs es')"
| "py_eq_items L [] evs = True"
| "py_eq_items L ((k, v) # kvs) evs = ((case map_of evs k of None \<Rightarrow> False | Some e \<Rightarrow> py_eq L v e) \<and> py_eq_items L kvs evs)"

text \<open>\<open>d[k] == e\<close> for a key that is known to be there, and \<open>set(d) == names\<close>.\<close>

definition field_is :: "stdlib \<Rightarrow> (string \<times> pyval) list \<Rightarrow> string \<Rightarrow> pyval \<Rightarrow> bool" where
  "field_is L kvs k e = (case map_of kvs k of None \<Rightarrow> False | Some v \<Rightarrow> py_eq L v e)"

definition exact_keys :: "string list \<Rightarrow> (string \<times> pyval) list \<Rightarrow> bool" where
  "exact_keys names kvs = (set (map fst kvs) = set names)"

definition entries_of :: "pyval \<Rightarrow> (string \<times> pyval) list" where
  "entries_of v = (case v of PDict kvs \<Rightarrow> kvs | _ \<Rightarrow> [])"

section \<open>The card on disk\<close>

definition load_card ::
  "('x, 't) pilot_runtime \<Rightarrow> datetime \<Rightarrow> (('x, 't) pilot_world, service_card \<times> (string \<times> pyval) list) op" where
  "load_card R now =
     bindS (read_file (inside (service_documents R) ''service-card.json'')) (\<lambda>raw.
     bindS (liftS (parse_raw (parse_service_card (pl_pydantic R) (pl_stdlib R)) raw)) (\<lambda>crd.
     bindS (read_file (inside (service_documents R) ''service-card.attestation.json'')) (\<lambda>att.
     bindS (liftS (read_attestation att)) (\<lambda>attestation.
     bindS (liftS (verify_service_card (pl_crypto R) (sl_str (pl_stdlib R)) crd attestation now)) (\<lambda>ok.
     raiseS_if (\<not> ok) (RuntimeError ''service card is invalid or expired'')
     (raiseS_if (card_did crd \<noteq> pi_did (pc_identity (pl_config R))) (RuntimeError ''service card identity mismatch'')
     (retS (crd, attestation))))))))"

section \<open>The engagement policy\<close>

definition sample_opportunity :: "string \<Rightarrow> opportunity" where
  "sample_opportunity kind = \<lparr>op_kind = kind, op_room = ''lobby'', op_generation = 0, op_sequence = 123,
     op_author = ''did:key:example''\<rparr>"

definition engagement_preview :: "('x, 't) pilot_runtime \<Rightarrow> pyval result" where
  "engagement_preview R = (let g = pc_engagement (pl_config R); base_url = ps_base_url (pc_service (pl_config R)) in
     bindE (policy_digest (pl_crypto R) (pl_implementation R) (pg_rooms g) (pg_replies g) (pg_cooldown g) base_url
       (pg_proactive g) 7 4 4) (\<lambda>policy.
     bindE (mapE (\<lambda>i. proactive_text (int i) base_url) [0..<length proactive_templates]) (\<lambda>posts.
     bindE (reply_text (sample_opportunity ''mailbox_interop'') base_url) (\<lambda>mailbox_reply.
     bindE (reply_text (sample_opportunity ''upgrade_compat'') base_url) (\<lambda>upgrade_reply.
     Inr (PDict [(''schema'', PStr ''rosetta.engagement-preview.v1''),
       (''did'', PStr (pi_did (pc_identity (pl_config R)))),
       (''authority'', PStr (pt_authority (pc_technocore (pl_config R)))),
       (''policy_version'', PStr ''bounded-participation-v2''), (''policy_sha256'', PStr policy),
       (''rooms'', PList (map PStr (pg_rooms g))), (''max_replies_per_day'', PInt (pg_replies g)),
       (''max_replies_per_did_per_7_days'', PInt 1), (''room_cooldown_hours'', PInt (pg_cooldown g)),
       (''only_signed_questions'', PBool True), (''only_new_messages_after_activation'', PBool True),
       (''proactive_campaign'', PDict [(''enabled'', PBool (pg_proactive g)), (''duration_days'', PInt 7),
          (''max_posts_per_room_per_day'', PInt 4), (''min_interval_hours'', PInt 4),
          (''skip_after_recent_rosetta_reply'', PBool True), (''automatic_stop'', PBool True),
          (''sample_posts'', PList (map PStr posts))]),
       (''sample_reply_mailbox'', PStr mailbox_reply), (''sample_reply_upgrade'', PStr upgrade_reply)]))))))"

definition policy_sha :: "('x, 't) pilot_runtime \<Rightarrow> pyval result" where
  "policy_sha R = bindE (engagement_preview R) (\<lambda>v. get_key (entries_of v) ''policy_sha256'')"

definition engagement_ready :: "('x, 't) pilot_runtime \<Rightarrow> (('x, 't) pilot_world, unit) op" where
  "engagement_ready R = bindS (has_file (activation_path R)) (\<lambda>active.
     raiseS_if (\<not> pg_enabled (pc_engagement (pl_config R)) \<or> \<not> active) (RuntimeError ''engagement_requires_active_pilot'')
     (retS ()))"

definition prepare_engagement :: "('x, 't) pilot_runtime \<Rightarrow> (('x, 't) pilot_world, pyval \<times> string) op" where
  "prepare_engagement R =
     bindS (engagement_ready R) (\<lambda>_.
     bindS (next_tick (pl_clock R)) (\<lambda>now.
     bindS (load_card R now) (\<lambda>_.
     bindS (liftS (engagement_preview R)) (\<lambda>preview.
     bindS (liftS (digest_of (pl_crypto R) preview)) (\<lambda>digest.
     bindS (in_files (atomic_json (engagement_preview_path R) preview)) (\<lambda>_.
     retS (preview, digest)))))))"

definition engagement_activation_schema :: string where
  "engagement_activation_schema = ''rosetta.engagement-activation.v1''"

definition activation_keys :: "string list" where
  "activation_keys = [''schema'', ''preview_sha256'', ''activated_at'']"

definition activation_dict :: "string \<Rightarrow> string \<Rightarrow> pyval" where
  "activation_dict digest at = PDict [(''schema'', PStr engagement_activation_schema), (''preview_sha256'', PStr digest),
     (''activated_at'', PStr at)]"

text \<open>An activation of the same preview, found on disk.\<close>

definition previous_activation :: "string \<Rightarrow> pyval \<Rightarrow> pyval option" where
  "previous_activation digest v = (case v of PDict kvs \<Rightarrow>
       if exact_keys activation_keys kvs \<and> map_of kvs ''schema'' = Some (PStr engagement_activation_schema)
         \<and> map_of kvs ''preview_sha256'' = Some (PStr digest)
       then (case map_of kvs ''activated_at'' of Some (PStr at) \<Rightarrow> Some (activation_dict digest at) | _ \<Rightarrow> None)
       else None
     | _ \<Rightarrow> None)"

definition start_room :: "('x, 't) pilot_runtime \<Rightarrow> string \<Rightarrow> (('x, 't) pilot_world, unit) op" where
  "start_room R room =
     bindS (in_target_ops (tg_read_room (tp_ops (pl_target R)) room 0 100)) (\<lambda>_.
     bindS (in_target_ops (high_water (pl_target R) room)) (\<lambda>(last_seq, generation).
     in_state (set_engagement_checkpoint room last_seq generation)))"

definition fresh_activation :: "('x, 't) pilot_runtime \<Rightarrow> string \<Rightarrow> (('x, 't) pilot_world, pyval) op" where
  "fresh_activation R digest =
     bindS (next_tick (pl_clock R)) (\<lambda>now.
     bindS (load_card R now) (\<lambda>_.
     bindS (mapS (start_room R) (pg_rooms (pc_engagement (pl_config R)))) (\<lambda>_.
     bindS (next_tick (pl_clock R)) (\<lambda>at.
     bindS (liftS (to_utc at)) (\<lambda>at_utc.
     bindS (in_files (atomic_json (engagement_activation_path R) (activation_dict digest (iso_text at_utc)))) (\<lambda>_.
     retS (activation_dict digest (iso_text at_utc))))))))"

definition activate_engagement :: "('x, 't) pilot_runtime \<Rightarrow> string \<Rightarrow> (('x, 't) pilot_world, pyval) op" where
  "activate_engagement R approved =
     bindS (engagement_ready R) (\<lambda>_.
     bindS (read_json (engagement_preview_path R)) (\<lambda>stored.
     bindS (liftS (engagement_preview R)) (\<lambda>expected.
     bindS (liftS (digest_of (pl_crypto R) expected)) (\<lambda>digest.
     raiseS_if (\<not> py_eq (pl_stdlib R) stored expected \<or> approved \<noteq> digest)
       (RuntimeError ''engagement_approval_digest_mismatch'')
     (bindS (has_file (engagement_activation_path R)) (\<lambda>active.
      ifS active
        (bindS (read_json (engagement_activation_path R)) (\<lambda>previous. case previous_activation digest previous of
           Some v \<Rightarrow> retS v | None \<Rightarrow> fresh_activation R digest))
        (fresh_activation R digest)))))))"

text \<open>\<open>except (FileNotFoundError, KeyError, ValueError, TypeError, AttributeError)\<close>\<close>

fun is_activation_error :: "exn \<Rightarrow> bool" where
  "is_activation_error (OSError n) = (n = ''FileNotFoundError'')"
| "is_activation_error (KeyError _) = True"
| "is_activation_error (TypeError _) = True"
| "is_activation_error (AttributeError _) = True"
| "is_activation_error e = is_value_error e"

definition check_activation :: "('x, 't) pilot_runtime \<Rightarrow> pyval \<Rightarrow> (string \<times> pyval) list result" where
  "check_activation R raw = (case raw of
     PDict kvs \<Rightarrow>
       raise_if (\<not> exact_keys activation_keys kvs) (ValueError ''invalid engagement activation'')
       (raise_if (map_of kvs ''schema'' \<noteq> Some (PStr engagement_activation_schema)) (ValueError ''engagement policy changed'')
       (bindE (engagement_preview R) (\<lambda>preview. bindE (digest_of (pl_crypto R) preview) (\<lambda>digest.
        raise_if (map_of kvs ''preview_sha256'' \<noteq> Some (PStr digest)) (ValueError ''engagement policy changed'')
        (bindE (of_option (ValueError ''Invalid isoformat string'')
            (from_iso (text_of (sl_str (pl_stdlib R)) (map_of kvs ''activated_at'')))) (\<lambda>at.
         raise_if (naive at) (ValueError ''engagement activation timestamp is naive'') (Inr kvs)))))))
   | _ \<Rightarrow> Inl (ValueError ''invalid engagement activation''))"

definition engagement_activation :: "('x, 't) pilot_runtime \<Rightarrow> (('x, 't) pilot_world, (string \<times> pyval) list) op" where
  "engagement_activation R =
     raiseS_if (\<not> pg_enabled (pc_engagement (pl_config R))) (RuntimeError ''engagement_not_enabled'')
     (tryS is_activation_error
        (bindS (read_json (engagement_activation_path R)) (\<lambda>raw. liftS (check_activation R raw)))
        (\<lambda>_. raiseS (RuntimeError ''engagement_not_approved'')))"

end
