(* ===== verification/Pilot_Activation.thy ===== *)
theory Pilot_Activation
  imports Pilot
begin

text \<open>
  \<open>rosetta/pilot.py\<close>, second part: the preview of the three public writes that
  switch the service on, and its activation.  The preview is written to disk
  with the signed bytes; an operator approves its digest, and activation
  sends what the approved preview says or nothing.
\<close>

section \<open>The identity check\<close>

definition assert_identity :: "('x, 't) pilot_runtime \<Rightarrow> (('x, 't) pilot_world, unit) op" where
  "assert_identity R =
     bindS (in_worker (pilot_sign R (digest_request ServiceDocument ''pilot-identity-check''
       (''sha256:'' @ replicate 64 CHR ''0'')))) (\<lambda>resp.
     raiseS_if (sp_did resp \<noteq> pi_did (pc_identity (pl_config R)))
       (RuntimeError ''configured DID does not match isolated signer'') (retS ()))"

section \<open>The preview\<close>

definition note_request :: "string \<Rightarrow> string \<Rightarrow> string \<Rightarrow> string \<Rightarrow> sign_request" where
  "note_request scope namespace key value = \<lparr>sr_action = TechnocoreNote, sr_scope = scope, sr_nonce = None,
     sr_room = None, sr_text = None, sr_digest = None, sr_namespace = Some namespace, sr_key = Some key,
     sr_value = Some value\<rparr>"

text \<open>A signature by the card's identity with a nonce.\<close>

definition sign_as ::
  "('x, 't) pilot_runtime \<Rightarrow> string \<Rightarrow> string \<Rightarrow> sign_request \<Rightarrow> (('x, 't) pilot_world, sign_response \<times> int) op" where
  "sign_as R did failure r = bindS (in_worker (pilot_sign R r)) (\<lambda>resp. case sp_nonce resp of
     None \<Rightarrow> raiseS (RuntimeError failure)
   | Some n \<Rightarrow> raiseS_if (sp_did resp \<noteq> did) (RuntimeError failure) (retS (resp, n)))"

definition note_write_path :: "string \<Rightarrow> string \<Rightarrow> string" where
  "note_write_path namespace room = ''/kv/'' @ namespace @ ''/'' @ room @ ''?format=json''"

definition room_write_path :: "string \<Rightarrow> string" where
  "room_write_path room = ''/r/'' @ room @ ''?format=json''"

definition planned_write :: "string \<Rightarrow> string \<Rightarrow> (string \<times> pyval) list \<Rightarrow> pyval" where
  "planned_write purpose path body = PDict [(''purpose'', PStr purpose), (''method'', PStr ''POST''), (''path'', PStr path),
     (''body'', PDict body)]"

definition note_body :: "string \<Rightarrow> sign_response \<Rightarrow> int \<Rightarrow> (string \<times> pyval) list" where
  "note_body value resp nonce = [(''did'', PStr (sp_did resp)), (''sig'', PStr (sp_signature resp)),
     (''nonce'', PStr (str_int nonce)), (''value'', PStr value)]"

definition announcement_write :: "string \<Rightarrow> delivery_row \<Rightarrow> pyval" where
  "announcement_write room d = planned_write ''announce_service'' (room_write_path room)
     [(''did'', PStr (dl_did d)), (''sig'', PStr (dl_signature d)), (''nonce'', PStr (str_int (dl_nonce d))),
      (''text'', PStr (dl_text d))]"

text \<open>\<open>timedelta(hours=6)\<close> and \<open>timedelta(days=5)\<close> in seconds.\<close>

definition anchor_after :: int where "anchor_after = 21600"
definition liveness_after :: int where "liveness_after = 432000"

definition limits_dict :: "service_card \<Rightarrow> pyval" where
  "limits_dict c = PDict [(''per_did_per_day'', PInt (card_per_did c)), (''global_per_day'', PInt (card_global c))]"

definition automatic_behavior :: "('x, 't) pilot_runtime \<Rightarrow> service_card \<Rightarrow> pyval result" where
  "automatic_behavior R crd =
     bindE (if \<not> pg_enabled (pc_engagement (pl_config R)) then Inr []
            else bindE (policy_sha R) (\<lambda>policy. Inr [(''optional_contextual_replies'',
              PDict [(''requires_separate_approval'', PBool True), (''policy_sha256'', policy),
                (''rooms'', PList (map PStr (pg_rooms (pc_engagement (pl_config R)))))])])) (\<lambda>replies.
     Inr (PDict ([(''poll_rooms'', PList (map PStr (card_request_mailbox crd # pt_rooms (pc_technocore (pl_config R))))),
       (''accept_only'', PStr ''rosetta.request.v1''), (''max_requests_per_did_per_day'', PInt (card_per_did crd)),
       (''max_global_requests_per_day'', PInt (card_global crd)), (''maintain_service_room'', PStr (card_service_room crd)),
       (''restore_empty_service_room'', PBool True), (''single_message_anchor_after_seconds'', PInt anchor_after),
       (''liveness_after_seconds'', PInt liveness_after), (''max_presence_writes_per_poll'', PInt 1),
       (''cold_outreach'', PBool False), (''natural_language_replies'', PBool False), (''llm_verdicts'', PBool False)]
       @ replies)))"

text \<open>The announcement, signed and stored unless a delivery of this card is stored already.\<close>

definition announcement_key :: "pyval \<Rightarrow> (pyval \<Rightarrow> string) \<Rightarrow> string" where
  "announcement_key digest str = ''announcement:'' @ text_of str (Some digest)"

definition prepared_announcement ::
  "('x, 't) pilot_runtime \<Rightarrow> service_card \<Rightarrow> pyval \<Rightarrow> string \<Rightarrow> (('x, 't) pilot_world, delivery_row) op" where
  "prepared_announcement R crd digest msg =
     bindS (getS (\<lambda>p. delivery (announcement_key digest (sl_str (pl_stdlib R))) (b_store (pw_env p)))) (\<lambda>found.
     bindS (case found of
       Some d \<Rightarrow> retS ()
     | None \<Rightarrow>
         bindS (sign_as R (card_did crd) ''signer returned an invalid announcement''
           (message_request ''rosetta-discovery'' (card_service_room crd) msg)) (\<lambda>(signed, nonce).
         in_state (prepare_delivery (announcement_key digest (sl_str (pl_stdlib R))) ''rosetta-discovery''
           (card_service_room crd) (sp_did signed) nonce msg (sp_signature signed)))) (\<lambda>_.
     bindS (getS (\<lambda>p. delivery (announcement_key digest (sl_str (pl_stdlib R))) (b_store (pw_env p)))) (\<lambda>prepared.
     case prepared of None \<Rightarrow> raiseS (RuntimeError ''announcement preparation disappeared'') | Some d \<Rightarrow> retS d)))"

definition announcement_body :: "('x, 't) pilot_runtime \<Rightarrow> service_card \<Rightarrow> pyval \<Rightarrow> pyval" where
  "announcement_body R crd digest = PDict [(''schema'', PStr ''rosetta.service-announcement.v1''),
     (''did'', PStr (card_did crd)), (''request_mailbox'', PStr (card_request_mailbox crd)),
     (''service_card_url'', PStr (ps_base_url (pc_service (pl_config R)) @ ''/service-card.json'')),
     (''service_card_sha256'', digest)]"

definition activation_preview ::
  "('x, 't) pilot_runtime \<Rightarrow> service_card \<Rightarrow> pyval \<Rightarrow> pyval list \<Rightarrow> pyval \<Rightarrow> pyval" where
  "activation_preview R crd digest writes automatic = PDict [(''schema'', PStr ''rosetta.pilot-activation-preview.v2''),
     (''authority'', PStr (pt_authority (pc_technocore (pl_config R)))),
     (''public_base_url'', PStr (ps_base_url (pc_service (pl_config R)))), (''service_card_sha256'', digest),
     (''service_room'', PStr (card_service_room crd)), (''request_mailbox'', PStr (card_request_mailbox crd)),
     (''limits'', limits_dict crd), (''writes'', PList writes), (''automatic_behavior_after_activation'', automatic)]"

text \<open>The card's documents are written once the card is signed; a failure before that writes none.\<close>

definition write_service_documents ::
  "('x, 't) pilot_runtime \<Rightarrow> datetime \<Rightarrow> (('x, 't) pilot_world, service_card \<times> pyval) op" where
  "write_service_documents R now = (let c = pl_config R in
     bindS (in_worker (build_service_card (pl_crypto R) (pl_pydantic R) (pilot_sign R) (fst (pl_schemas R)) (snd (pl_schemas R))
       (pi_did (pc_identity c)) (pl_registry R) (ps_base_url (pc_service c)) ''v0.14.5'' now)) (\<lambda>(crd, attestation, files).
     bindS (in_files (putS (put_files (service_documents R) files))) (\<lambda>_. retS (crd, attestation))))"

definition prepare :: "('x, 't) pilot_runtime \<Rightarrow> datetime option \<Rightarrow> (('x, 't) pilot_world, pyval \<times> string) op" where
  "prepare R now =
     bindS (current_time R now) (\<lambda>current.
     bindS (assert_identity R) (\<lambda>_.
     bindS (write_service_documents R current) (\<lambda>(crd, attestation).
     raiseS_if (card_did crd \<noteq> pi_did (pc_identity (pl_config R))) (RuntimeError ''service card DID mismatch'')
     (bindS (sign_as R (card_did crd) ''signer returned an invalid ownership claim''
        (note_request ''service-room-claim'' ''room-owners'' (card_service_room crd) (card_did crd))) (\<lambda>(claim, claim_nonce).
      bindS (sign_as R (card_did crd) ''signer returned an invalid room allow-list''
        (note_request ''service-room-allow'' ''room-allow'' (card_service_room crd) (card_did crd))) (\<lambda>(allowed, allow_nonce).
      bindS (liftS (get_key (entries_of attestation) ''service_card_sha256'')) (\<lambda>digest.
      bindS (liftS (canonical_text (announcement_body R crd digest))) (\<lambda>msg.
      bindS (prepared_announcement R crd digest msg) (\<lambda>d.
      bindS (liftS (automatic_behavior R crd)) (\<lambda>automatic.
      let preview = activation_preview R crd digest
            [planned_write ''claim_service_room'' (note_write_path ''room-owners'' (card_service_room crd))
               (note_body (card_did crd) claim claim_nonce @ [(''if_absent'', PBool True)]),
             planned_write ''allow_service_identity'' (note_write_path ''room-allow'' (card_service_room crd))
               (note_body (card_did crd) allowed allow_nonce),
             announcement_write (card_service_room crd) d] automatic in
      bindS (liftS (digest_of (pl_crypto R) preview)) (\<lambda>preview_digest.
      bindS (in_files (atomic_json (preview_path R) preview)) (\<lambda>_.
      bindS (in_files (write_bytes (state_file R ''activation-preview.sha256'') (preview_digest @ [CHR 0x0A]))) (\<lambda>_.
      retS (preview, preview_digest))))))))))))))"

section \<open>Activation\<close>

definition load_prepared :: "('x, 't) pilot_runtime \<Rightarrow> (('x, 't) pilot_world, (string \<times> pyval) list \<times> string) op" where
  "load_prepared R = bindS (read_json (preview_path R)) (\<lambda>v. case v of
     PDict kvs \<Rightarrow>
       raiseS_if (map_of kvs ''schema'' \<noteq> Some (PStr ''rosetta.pilot-activation-preview.v2''))
         (ValueError ''invalid activation preview'')
       (bindS (liftS (digest_of (pl_crypto R) v)) (\<lambda>digest. retS (kvs, digest)))
   | _ \<Rightarrow> raiseS (ValueError ''invalid activation preview''))"

definition note_field :: "stdlib \<Rightarrow> (string \<times> pyval) list \<Rightarrow> string \<Rightarrow> string result" where
  "note_field L body k = bindE (get_key body k) (\<lambda>v. Inr (text_of (sl_str L) (Some v)))"

text \<open>
  A refused or uncertain note counts as written when the note reads back with
  the approved value; any failure of that read leaves the first error.
\<close>

fun is_note_failure :: "exn \<Rightarrow> bool" where
  "is_note_failure (TechnocoreRefusal _ _) = True"
| "is_note_failure (UncertainWrite _) = True"
| "is_note_failure _ = False"

definition confirm_note ::
  "('x, 't) pilot_runtime \<Rightarrow> string \<Rightarrow> string \<Rightarrow> string \<Rightarrow> exn \<Rightarrow> (('x, 't) pilot_world, unit) op" where
  "confirm_note R namespace key value e =
     bindS (tryS (\<lambda>_. True) (in_target_ops (tp_read_note (pl_target R) namespace key)) (\<lambda>_. raiseS e)) (\<lambda>current.
     raiseS_if (current \<noteq> Some value) e (retS ()))"

definition apply_note ::
  "('x, 't) pilot_runtime \<Rightarrow> string \<Rightarrow> string \<Rightarrow> (string \<times> pyval) list \<Rightarrow> bool \<Rightarrow> (('x, 't) pilot_world, unit) op" where
  "apply_note R namespace key body if_absent = (let L = pl_stdlib R in
     bindS (liftS (note_field L body ''did'')) (\<lambda>did.
     bindS (liftS (bindE (note_field L body ''nonce'') int_of_text)) (\<lambda>nonce.
     bindS (liftS (note_field L body ''value'')) (\<lambda>value.
     bindS (liftS (note_field L body ''sig'')) (\<lambda>sig.
     tryS is_note_failure
       (bindS (in_target_ops (tp_post_note (pl_target R) namespace key did nonce value sig if_absent)) (\<lambda>_. retS ()))
       (confirm_note R namespace key value))))))"

definition note_keys :: "bool \<Rightarrow> string list" where
  "note_keys if_absent = [''did'', ''sig'', ''nonce'', ''value''] @ (if if_absent then [''if_absent''] else [])"

definition nonce_ok :: "pyval option \<Rightarrow> bool result" where
  "nonce_ok v = (case v of Some (PStr s) \<Rightarrow>
       if str_isdigit s then bindE (int_of_text s) (\<lambda>n. Inr (1 \<le> n)) else Inr False
     | _ \<Rightarrow> Inr False)"

definition is_text :: "pyval option \<Rightarrow> bool" where
  "is_text v = (case v of Some (PStr _) \<Rightarrow> True | _ \<Rightarrow> False)"

definition validated_note_entry ::
  "stdlib \<Rightarrow> pyval \<Rightarrow> string \<Rightarrow> string \<Rightarrow> service_card \<Rightarrow> bool \<Rightarrow> (string \<times> pyval) list result" where
  "validated_note_entry L entry purpose namespace crd if_absent =
     (let bad = ValueError (''invalid '' @ purpose @ '' preview'') in
      case entry of
        PDict kvs \<Rightarrow>
          raise_if (\<not> exact_keys [''purpose'', ''method'', ''path'', ''body''] kvs) bad
          (raise_if (map_of kvs ''purpose'' \<noteq> Some (PStr purpose) \<or> map_of kvs ''method'' \<noteq> Some (PStr ''POST'')
             \<or> map_of kvs ''path'' \<noteq> Some (PStr (note_write_path namespace (card_service_room crd)))) bad
          (case map_of kvs ''body'' of
             Some (PDict body) \<Rightarrow>
               raise_if (\<not> exact_keys (note_keys if_absent) body \<or> map_of body ''did'' \<noteq> Some (PStr (card_did crd))
                 \<or> map_of body ''value'' \<noteq> Some (PStr (card_did crd))
                 \<or> (if_absent \<and> map_of body ''if_absent'' \<noteq> Some (PBool True)) \<or> \<not> is_text (map_of body ''sig'')) bad
               (bindE (nonce_ok (map_of body ''nonce'')) (\<lambda>ok. raise_if (\<not> ok) bad (Inr body)))
           | _ \<Rightarrow> Inl bad))
      | _ \<Rightarrow> Inl bad)"

definition preview_keys :: "string list" where
  "preview_keys = [''schema'', ''authority'', ''public_base_url'', ''service_card_sha256'', ''service_room'',
     ''request_mailbox'', ''limits'', ''writes'', ''automatic_behavior_after_activation'']"

definition same_metadata :: "('x, 't) pilot_runtime \<Rightarrow> service_card \<Rightarrow> pyval \<Rightarrow> pyval \<Rightarrow> (string \<times> pyval) list \<Rightarrow> bool" where
  "same_metadata R crd digest automatic preview = (let is = field_is (pl_stdlib R) preview in
     exact_keys preview_keys preview
     \<and> is ''authority'' (PStr (pt_authority (pc_technocore (pl_config R))))
     \<and> is ''public_base_url'' (PStr (ps_base_url (pc_service (pl_config R))))
     \<and> is ''service_card_sha256'' digest
     \<and> is ''service_room'' (PStr (card_service_room crd))
     \<and> is ''request_mailbox'' (PStr (card_request_mailbox crd))
     \<and> is ''limits'' (limits_dict crd)
     \<and> is ''automatic_behavior_after_activation'' automatic)"

text \<open>The three writes of a preview that agrees with the configuration, the card and the store.\<close>

definition checked_writes ::
  "('x, 't) pilot_runtime \<Rightarrow> service_card \<Rightarrow> (string \<times> pyval) list \<Rightarrow> (string \<times> pyval) list \<Rightarrow> state_store \<Rightarrow>
    ((string \<times> pyval) list \<times> (string \<times> pyval) list) result" where
  "checked_writes R crd attestation preview s = (case map_of preview ''writes'' of
     Some (PList [claim, allow, announced]) \<Rightarrow>
       bindE (automatic_behavior R crd) (\<lambda>automatic.
       bindE (get_key attestation ''service_card_sha256'') (\<lambda>digest.
       raise_if (\<not> same_metadata R crd digest automatic preview) (ValueError ''activation preview metadata changed'')
       (bindE (validated_note_entry (pl_stdlib R) claim ''claim_service_room'' ''room-owners'' crd True) (\<lambda>claim_body.
        bindE (validated_note_entry (pl_stdlib R) allow ''allow_service_identity'' ''room-allow'' crd False) (\<lambda>allow_body.
        let expected = (case delivery (announcement_key digest (sl_str (pl_stdlib R))) s of
              None \<Rightarrow> PNone | Some d \<Rightarrow> announcement_write (card_service_room crd) d) in
        raise_if (\<not> py_eq (pl_stdlib R) announced expected) (ValueError ''invalid announcement preview'')
        (Inr (claim_body, allow_body)))))))
   | _ \<Rightarrow> Inl (ValueError ''activation preview write set changed''))"

text \<open>The gateway of the card on disk; its attestation is read again.\<close>

definition pilot_gateway :: "('x, 't) pilot_runtime \<Rightarrow> service_card \<Rightarrow> (('x, 't) pilot_world, gateway) op" where
  "pilot_gateway R crd =
     bindS (read_file (inside (service_documents R) ''service-card.attestation.json'')) (\<lambda>att.
     bindS (liftS (read_attestation att)) (\<lambda>attestation.
     retS (make_gateway (pl_registry R) crd attestation (ps_base_url (pc_service (pl_config R)))
       (ps_queue (pc_service (pl_config R))))))"

definition announce_service ::
  "('x, 't) pilot_runtime \<Rightarrow> service_card \<Rightarrow> datetime \<Rightarrow> (('x, 't) pilot_world, protocol_record) op" where
  "announce_service R crd now =
     bindS (pilot_gateway R crd) (\<lambda>g.
     bindS (in_worker (announce (tp_ops (pl_target R)) (pilot_sign R) (sl_str (pl_stdlib R)) g)) (\<lambda>r.
     bindS (in_target_ops (room_generation (pl_target R) (card_service_room crd))) (\<lambda>generation.
     bindS (in_state (record_service_presence (card_service_room crd) now ''announcement'' generation)) (\<lambda>_. retS r))))"

definition send_approved ::
  "('x, 't) pilot_runtime \<Rightarrow> service_card \<Rightarrow> datetime \<Rightarrow> (string \<times> pyval) list \<Rightarrow> (string \<times> pyval) list \<Rightarrow>
    (('x, 't) pilot_world, protocol_record) op" where
  "send_approved R crd now claim_body allow_body =
     bindS (in_both (service_publish (pl_crypto R) (pl_pydantic R) (pl_stdlib R) True (spool_dir R) (static_root R)
       (service_documents R) now)) (\<lambda>_.
     bindS (apply_note R ''room-owners'' (card_service_room crd) claim_body True) (\<lambda>_.
     bindS (apply_note R ''room-allow'' (card_service_room crd) allow_body False) (\<lambda>_.
     announce_service R crd now)))"

text \<open>What follows the approval: the checks against the card and the store, the writes, and the record of it.\<close>

definition activate_approved ::
  "('x, 't) pilot_runtime \<Rightarrow> (string \<times> pyval) list \<Rightarrow> string \<Rightarrow> datetime \<Rightarrow> service_card \<Rightarrow> (string \<times> pyval) list \<Rightarrow>
    (('x, 't) pilot_world, pyval) op" where
  "activate_approved R preview digest now crd attestation =
     bindS (in_target_ops (tg_capabilities (tp_ops (pl_target R)))) (\<lambda>_.
     bindS (getS (\<lambda>p. b_store (pw_env p))) (\<lambda>s.
     bindS (liftS (checked_writes R crd attestation preview s)) (\<lambda>(claim_body, allow_body).
     bindS (send_approved R crd now claim_body allow_body) (\<lambda>r.
     let activated = PDict [(''schema'', PStr ''rosetta.pilot-activation.v1''), (''preview_sha256'', PStr digest),
           (''activated_at'', PDateTime now), (''service_room'', PStr (card_service_room crd)),
           (''request_mailbox'', PStr (card_request_mailbox crd)), (''announcement_sequence'', PInt (p_sequence r))] in
     bindS (in_files (atomic_json (activation_path R) activated)) (\<lambda>_. retS activated)))))"

definition activate :: "('x, 't) pilot_runtime \<Rightarrow> string \<Rightarrow> datetime option \<Rightarrow> (('x, 't) pilot_world, pyval) op" where
  "activate R approved now =
     raiseS_if (\<not> ps_enabled (pc_service (pl_config R))) (RuntimeError ''pilot_disabled'')
     (bindS (current_time R now) (\<lambda>current.
      bindS (assert_identity R) (\<lambda>_.
      bindS (load_prepared R) (\<lambda>(preview, digest).
      raiseS_if (approved \<noteq> digest) (RuntimeError ''activation approval digest mismatch'')
      (bindS (load_card R current) (\<lambda>(crd, attestation).
       activate_approved R preview digest current crd attestation))))))"

end
