(* ===== verification/Pilot_Poll.thy ===== *)
theory Pilot_Poll
  imports Pilot_Activation
begin

text \<open>
  \<open>rosetta/pilot.py\<close>, third part: one poll of the service (presence, recovery of
  pending jobs, discovery, requests, engagement), the health document, and the
  loop that keeps polling.
\<close>

section \<open>Running a job\<close>

text \<open>\<open>v[key]\<close> and \<open>v[0]\<close> of a parsed value\<close>

definition item_at :: "pyval \<Rightarrow> string \<Rightarrow> pyval result" where
  "item_at v k = (case v of PDict kvs \<Rightarrow> get_key kvs k | _ \<Rightarrow> Inl (TypeError ''subscript''))"

definition first_item :: "pyval \<Rightarrow> pyval result" where
  "first_item v = (case v of PList (x # _) \<Rightarrow> Inr x | PList [] \<Rightarrow> Inl (IndexError ''list index out of range'')
     | PStr (c # _) \<Rightarrow> Inr (PStr [c]) | PStr [] \<Rightarrow> Inl (IndexError ''string index out of range'')
     | PDict _ \<Rightarrow> Inl (KeyError ''0'') | _ \<Rightarrow> Inl (TypeError ''subscript''))"

definition outcome_of_value :: "pyval \<Rightarrow> outcome result" where
  "outcome_of_value v = (case v of PStr s \<Rightarrow>
       of_option (ValueError ''is not a valid Outcome'') (find (\<lambda>r. outcome_text r = s) [OPass, OFail, OSkip, OError])
     | _ \<Rightarrow> Inl (ValueError ''is not a valid Outcome''))"

definition matrix_outcome :: "pyval \<Rightarrow> outcome result" where
  "matrix_outcome v = bindE (item_at v ''cells'') (\<lambda>cells. bindE (first_item cells) (\<lambda>cell.
     bindE (item_at cell ''outcome'') outcome_of_value))"

definition job_bundle :: "('x, 't) pilot_runtime \<Rightarrow> string \<Rightarrow> string" where
  "job_bundle R job = inside (spool_dir R) (''jobs/'' @ job @ ''/bundle'')"

text \<open>The result that stands for a run that raised.\<close>

definition failed_run :: "('x, 't) pilot_runtime \<Rightarrow> service_request \<Rightarrow> exn \<Rightarrow> scenario_result" where
  "failed_run R q e = \<lparr>sn_producer = rq_producer q, sn_consumer = rq_consumer q, sn_outcome = OError,
     sn_reason = RInfrastructureFailure,
     sn_assertions = [\<lparr>ar_name = ''runner_completed'', ar_passed = False, ar_reason = RInfrastructureFailure,
       ar_detail = pl_type_name R e\<rparr>],
     sn_events = [\<lparr>ae_actor = ''rosetta-pilot'', ae_operation = ''service-run'', ae_status = ''error'',
       ae_detail = [(''error_type'', PStr (pl_type_name R e))]\<rparr>],
     sn_reproduction = [(''schema'', PStr ''rosetta.reproduction.v1''), (''scenario'', PStr (rq_scenario q)),
       (''producer'', PStr (rq_producer q)), (''consumer'', PStr (rq_consumer q)),
       (''fault'', PStr ''infrastructure-failure''), (''correlation_id'', PStr (rq_request_id q))]\<rparr>"

text \<open>The run itself goes to a private fixture, never to the public target.\<close>

definition diagnostic_run :: "('x, 't) pilot_runtime \<Rightarrow> service_request \<Rightarrow> (('x, 't) pilot_world, scenario_result) op" where
  "diagnostic_run R q = tryS (\<lambda>_. True)
     (in_private (run_roundtrip (pl_crypto R) (local_ops (pl_crypto R)) (pl_adapters R) (guarded_signer (pl_signer R))
        (pl_registry R) True False (rq_producer q) (rq_consumer q)))
     (\<lambda>e. retS (failed_run R q e))"

definition job_record :: "('x, 't) pilot_runtime \<Rightarrow> string \<Rightarrow> service_request \<Rightarrow> string \<Rightarrow> run_record result" where
  "job_record R requester q job =
     bindE (registry_digest (pl_crypto R) (pl_registry R)) (\<lambda>digest.
     bindE (to_utc (rq_expires_at q)) (\<lambda>expiry.
     Inr \<lparr>rr_run_id = take 32 (sha256_hex (pl_crypto R) (utf8 (requester @ ''|'' @ rq_request_id q @ ''|'' @ job))),
       rr_trigger = ''signed-service-request-local-diagnostic'', rr_protocol_release = ''v0.14.5'',
       rr_scenario = rq_scenario q, rr_registry_sha256 = digest, rr_images = [], rr_epoch = iso_text expiry,
       rr_dry_run = True\<rparr>))"

definition registry_versions :: "registry \<Rightarrow> (string \<times> string) list result" where
  "registry_versions reg = mapE (\<lambda>i. bindE (registry_require reg i) (\<lambda>m. Inr (i, am_source_revision m))) (registry_ids reg)"

text \<open>
  The bundle is built and verified in a directory of its own and moved onto its
  place; when a step raises, what was written in that directory stays.
\<close>

definition new_bundle ::
  "('x, 't) pilot_runtime \<Rightarrow> run_record \<Rightarrow> (string \<times> string) list \<Rightarrow> scenario_result \<Rightarrow> string \<Rightarrow> (('x, 't) pilot_world, string) op" where
  "new_bundle R run versions result job =
     bindS (next_tick (\<lambda>n. inside (spool_dir R) (''job-'' @ job @ ''-'' @ pl_temporary R n))) (\<lambda>work.
     bindS (in_both (build_bundle (pl_crypto R) (pilot_sign R) (inside work ''bundle'') run [result] versions)) (\<lambda>root.
     bindS (getS pw_files) (\<lambda>t.
     bindS (liftS (verify_bundle (pl_crypto R) (pl_pydantic R) (inside work ''bundle'') t)) (\<lambda>_.
     bindS (in_files (putS (move_tree (inside work ''bundle'') (job_bundle R job)))) (\<lambda>_. retS root)))))"

definition existing_bundle :: "('x, 't) pilot_runtime \<Rightarrow> string \<Rightarrow> tree \<Rightarrow> (string \<times> outcome) result" where
  "existing_bundle R final t =
     bindE (verify_bundle (pl_crypto R) (pl_pydantic R) final t) (\<lambda>root.
     bindE (bindE (read_bytes (inside final ''matrix.json'') t) loads_bytes) (\<lambda>matrix.
     bindE (matrix_outcome matrix) (\<lambda>oc. Inr (root, oc))))"

definition build_request_bundle ::
  "('x, 't) pilot_runtime \<Rightarrow> string \<Rightarrow> service_request \<Rightarrow> string \<Rightarrow> datetime \<Rightarrow>
    (('x, 't) pilot_world, string \<times> outcome \<times> string) op" where
  "build_request_bundle R requester q job now = (let final = job_bundle R job in
     bindS (getS pw_files) (\<lambda>t.
     ifS (path_exists final t)
       (bindS (liftS (existing_bundle R final t)) (\<lambda>(root, oc). retS (root, oc, final)))
       (bindS (in_worker (reserve_run (pilot_limits (pl_config R)) now 0)) (\<lambda>_.
        bindS (diagnostic_run R q) (\<lambda>result.
        bindS (liftS (job_record R requester q job)) (\<lambda>run.
        bindS (liftS (registry_versions (pl_registry R))) (\<lambda>versions.
        bindS (new_bundle R run versions result job) (\<lambda>root.
        retS (root, sn_outcome result, final)))))))))"

definition publish_report :: "('x, 't) pilot_runtime \<Rightarrow> string \<Rightarrow> string \<Rightarrow> (('x, 't) pilot_world, unit) op" where
  "publish_report R root bundle = (let reports = inside (static_root R) ''reports'';
       destination = inside reports (remove_prefix ''sha256:'' root) in
     bindS (getS pw_files) (\<lambda>t.
     ifS (path_exists destination t)
       (bindS (liftS (verify_bundle (pl_crypto R) (pl_pydantic R) destination t)) (\<lambda>again.
        raiseS_if (again \<noteq> root) (RuntimeError ''published report conflicts with recovered job'') (retS ())))
       (bindS (next_tick (pl_system R)) (\<lambda>now.
        bindS (in_both (static_publish (pl_crypto R) (pl_pydantic R) True (spool_dir R) reports now bundle)) (\<lambda>_. retS ())))))"

definition stored_ack ::
  "('x, 't) pilot_runtime \<Rightarrow> string \<Rightarrow> string \<Rightarrow> string \<Rightarrow> (('x, 't) pilot_world, acknowledgement) op" where
  "stored_ack R requester request_id failure =
     bindS (getS (\<lambda>p. request_status requester request_id (b_store (pw_env p)))) (\<lambda>status. case status of
       None \<Rightarrow> raiseS (RuntimeError failure)
     | Some (_, ack, _) \<Rightarrow> liftS (parse_text (parse_acknowledgement (pl_pydantic R)) ack))"

definition complete_job ::
  "('x, 't) pilot_runtime \<Rightarrow> gateway \<Rightarrow> string \<Rightarrow> service_request \<Rightarrow> string \<Rightarrow> outcome \<Rightarrow> (('x, 't) pilot_world, unit) op" where
  "complete_job R g requester q root oc =
     bindS (stored_ack R requester (rq_request_id q) ''service request state disappeared'') (\<lambda>ack.
     bindS (next_tick (pl_clock R)) (\<lambda>now.
     bindS (next_tick (pl_system R)) (\<lambda>written.
     bindS (in_worker (complete_request (pl_pydantic R) (tp_ops (pl_target R)) (pilot_sign R) g written requester q ack now root oc)) (\<lambda>_.
     retS ()))))"

definition record_runner :: "('x, 't) pilot_runtime \<Rightarrow> bool \<Rightarrow> (('x, 't) pilot_world, unit) op" where
  "record_runner R success = bindS (next_tick (pl_clock R)) (\<lambda>now.
     bindS (in_worker (gate_record (pilot_limits (pl_config R)) ''pilot_runner'' success now)) (\<lambda>_. retS ()))"

definition execute ::
  "('x, 't) pilot_runtime \<Rightarrow> gateway \<Rightarrow> string \<Rightarrow> service_request \<Rightarrow> string \<Rightarrow> datetime \<Rightarrow> (('x, 't) pilot_world, unit) op" where
  "execute R g requester q job now =
     bindS (in_state (mark_job requester (rq_request_id q) ''running'' now)) (\<lambda>_.
     tryS (\<lambda>_. True)
       (bindS (build_request_bundle R requester q job now) (\<lambda>(root, oc, bundle).
        bindS (publish_report R root bundle) (\<lambda>_.
        bindS (complete_job R g requester q root oc) (\<lambda>_.
        record_runner R True))))
       (\<lambda>e. bindS (next_tick (pl_clock R)) (\<lambda>failed_at.
          bindS (in_state (mark_job requester (rq_request_id q) ''failed'' failed_at)) (\<lambda>_.
          bindS (record_runner R False) (\<lambda>_. raiseS e)))))"

definition recover_job ::
  "('x, 't) pilot_runtime \<Rightarrow> gateway \<Rightarrow> datetime \<Rightarrow> string \<times> string \<times> string \<times> string \<Rightarrow> (('x, 't) pilot_world, unit) op" where
  "recover_job R g now = (\<lambda>(requester, request_id, request_json, _).
     bindS (liftS (parse_text (parse_service_request (pl_pydantic R)) request_json)) (\<lambda>q.
     bindS (stored_ack R requester request_id ''orphan service job'') (\<lambda>ack. case ak_job_id ack of
       None \<Rightarrow> raiseS (RuntimeError ''pending job has no job id'')
     | Some job \<Rightarrow> execute R g requester q job now)))"

definition recover :: "('x, 't) pilot_runtime \<Rightarrow> gateway \<Rightarrow> datetime \<Rightarrow> (('x, 't) pilot_world, unit) op" where
  "recover R g now = bindS (getS (\<lambda>p. pending_jobs (b_store (pw_env p)))) (\<lambda>jobs.
     bindS (mapS (recover_job R g now) jobs) (\<lambda>_. retS ()))"

section \<open>Presence\<close>

text \<open>\<open>int(t.timestamp())\<close>: rounded towards zero\<close>

definition unix_epoch :: int where "unix_epoch = 62135596800000000"

definition unix_seconds :: "datetime \<Rightarrow> int" where
  "unix_seconds t = (let us = instant t - unix_epoch in
     if us < 0 then - ((- us) div us_per_second) else us div us_per_second)"

text \<open>A single own record is refreshed sooner than several.\<close>

definition presence_threshold :: "nat \<Rightarrow> int" where
  "presence_threshold own = (if own = 1 then anchor_after else liveness_after)"

definition presence_kind :: "nat \<Rightarrow> string" where
  "presence_kind own = (if own = 1 then ''anchor'' else ''liveness'')"

definition send_presence ::
  "('x, 't) pilot_runtime \<Rightarrow> gateway \<Rightarrow> service_card \<Rightarrow> datetime \<Rightarrow> int option \<Rightarrow> int \<Rightarrow> string \<Rightarrow> (('x, 't) pilot_world, unit) op" where
  "send_presence R g crd now observed threshold kind =
     bindS (in_worker (announce_presence (tp_ops (pl_target R)) (pilot_sign R) (sl_str (pl_stdlib R)) g
       (int_or_zero observed) (unix_seconds now div threshold))) (\<lambda>_.
     in_state (record_service_presence (card_service_room crd) now kind observed))"

definition restore_presence ::
  "('x, 't) pilot_runtime \<Rightarrow> gateway \<Rightarrow> service_card \<Rightarrow> datetime \<Rightarrow> int option \<Rightarrow> (('x, 't) pilot_world, unit) op" where
  "restore_presence R g crd now observed =
     bindS (in_worker (restore_announcement (tp_ops (pl_target R)) (pilot_sign R) (sl_str (pl_stdlib R)) g
       (int_or_zero observed))) (\<lambda>_.
     in_state (record_service_presence (card_service_room crd) now ''recovery'' observed))"

text \<open>The refresh once the generation is known to be the stored one.\<close>

definition refresh_presence ::
  "('x, 't) pilot_runtime \<Rightarrow> gateway \<Rightarrow> service_card \<Rightarrow> datetime \<Rightarrow> int option \<Rightarrow> nat \<Rightarrow> datetime \<Rightarrow> (('x, 't) pilot_world, unit) op" where
  "refresh_presence R g crd now observed own last_sent =
     bindS (liftS (to_utc now)) (\<lambda>current.
     bindS (liftS (to_utc last_sent)) (\<lambda>previous.
     ifS (instant current - instant previous < presence_threshold own * us_per_second) (retS ())
       (send_presence R g crd now observed (presence_threshold own) (presence_kind own))))"

definition maintain_service_presence ::
  "('x, 't) pilot_runtime \<Rightarrow> gateway \<Rightarrow> service_card \<Rightarrow> datetime \<Rightarrow> (('x, 't) pilot_world, unit) op" where
  "maintain_service_presence R g crd now = (let room = card_service_room crd in
     bindS (in_target_ops (tg_read_room (tp_ops (pl_target R)) room 0 100)) (\<lambda>records.
     bindS (in_target_ops (room_generation (pl_target R) room)) (\<lambda>observed.
     let own = length (filter (\<lambda>r. p_did r = card_did crd \<and> record_signed (pl_crypto R) r) records) in
     bindS (in_state (service_presence room)) (\<lambda>presence.
     ifS (own = 0) (restore_presence R g crd now observed)
     (case presence of
        None \<Rightarrow> send_presence R g crd now observed anchor_after ''anchor''
      | Some (last_sent, last_kind, stored) \<Rightarrow>
          (case (stored, observed) of
             (None, Some n) \<Rightarrow>
               bindS (in_state (record_service_presence room last_sent last_kind observed)) (\<lambda>_.
               refresh_presence R g crd now observed own last_sent)
           | (Some m, Some n) \<Rightarrow>
               ifS (m \<noteq> n) (send_presence R g crd now observed anchor_after ''anchor'')
                 (refresh_presence R g crd now observed own last_sent)
           | _ \<Rightarrow> refresh_presence R g crd now observed own last_sent))))))"

section \<open>Reading rooms\<close>

definition read_generation_safe :: "('x, 't) pilot_runtime \<Rightarrow> string \<Rightarrow> (('x, 't) pilot_world, protocol_record list) op" where
  "read_generation_safe R room = (let read_room = tg_read_room (tp_ops (pl_target R)) in
     bindS (getS (\<lambda>p. room_checkpoint room (b_store (pw_env p)))) (\<lambda>(cursor, stored).
     bindS (in_target_ops (read_room room cursor 100)) (\<lambda>records.
     bindS (in_target_ops (room_generation (pl_target R) room)) (\<lambda>observed. case (observed, stored) of
       (None, _) \<Rightarrow> retS records
     | (Some n, Some m) \<Rightarrow>
         ifS (n \<noteq> m)
           (bindS (in_state (set_room_generation room n True)) (\<lambda>_. in_target_ops (read_room room 0 100)))
           (retS records)
     | (Some n, None) \<Rightarrow> bindS (in_state (set_room_generation room n False)) (\<lambda>_. retS records)))))"

section \<open>Discovery and requests\<close>

definition poll_query ::
  "('x, 't) pilot_runtime \<Rightarrow> gateway \<Rightarrow> datetime \<Rightarrow> string \<Rightarrow> protocol_record \<Rightarrow> (('x, 't) pilot_world, int) op" where
  "poll_query R g now room r =
     bindS (in_worker (handle_discovery (pl_crypto R) (pl_pydantic R) (tp_ops (pl_target R)) (pilot_sign R) g r now)) (\<lambda>offer.
     bindS (in_state (advance_room_cursor room (p_sequence r))) (\<lambda>_. retS (if offer = None then 0 else 1)))"

definition poll_discovery_room ::
  "('x, 't) pilot_runtime \<Rightarrow> gateway \<Rightarrow> datetime \<Rightarrow> string \<Rightarrow> (('x, 't) pilot_world, int) op" where
  "poll_discovery_room R g now room = bindS (read_generation_safe R room) (\<lambda>records.
     bindS (mapS (poll_query R g now room) records) (\<lambda>counts. retS (sum_list counts)))"

text \<open>The numbers of accepted and of rejected requests that a record adds.\<close>

definition poll_request ::
  "('x, 't) pilot_runtime \<Rightarrow> gateway \<Rightarrow> datetime \<Rightarrow> string \<Rightarrow> protocol_record \<Rightarrow> (('x, 't) pilot_world, int \<times> int) op" where
  "poll_request R g now room r =
     bindS (in_gateway (accept_request (pl_crypto R) (pl_pydantic R) (tp_ops (pl_target R)) (pilot_sign R) g r now)) (\<lambda>(request, ack, status).
     let other = (0, if status \<in> {''unsigned'', ''invalid''} then 0 else 1) in
     bindS (case (request, ack) of
         (Some q, Some a) \<Rightarrow>
           ifS (ak_status a = ''accepted'')
             (ifS (status \<in> {''accepted'', ''duplicate_pending''})
               (case ak_job_id a of
                  None \<Rightarrow> raiseS (RuntimeError ''accepted request has no job id'')
                | Some job \<Rightarrow> bindS (execute R g (p_did r) q job now) (\<lambda>_. retS (if status = ''accepted'' then 1 else 0, 0)))
               (retS (0, 0)))
             (retS other)
       | _ \<Rightarrow> retS other) (\<lambda>counts.
     bindS (in_state (advance_room_cursor room (p_sequence r))) (\<lambda>_. retS counts)))"

definition poll_mailbox ::
  "('x, 't) pilot_runtime \<Rightarrow> gateway \<Rightarrow> datetime \<Rightarrow> string \<Rightarrow> (('x, 't) pilot_world, int \<times> int) op" where
  "poll_mailbox R g now room = bindS (read_generation_safe R room) (\<lambda>records.
     bindS (mapS (poll_request R g now room) records) (\<lambda>counts.
     retS (sum_list (map fst counts), sum_list (map snd counts))))"

section \<open>Engagement\<close>

definition answer_opportunity ::
  "('x, 't) pilot_runtime \<Rightarrow> datetime \<Rightarrow> string \<Rightarrow> int \<Rightarrow> protocol_record \<Rightarrow> opportunity \<Rightarrow> (('x, 't) pilot_world, int) op" where
  "answer_opportunity R now room generation r x = (let c = pl_config R in
     bindS (in_state (reserve_engagement_reply room generation (p_sequence r) (p_did r) now
       (pg_replies (pc_engagement c)) (pg_cooldown (pc_engagement c)))) (\<lambda>decision.
     ifS (decision \<in> {''reserved'', ''existing''})
       (bindS (liftS (reply_text x (ps_base_url (pc_service c)))) (\<lambda>response.
        bindS (in_worker (send_text (tp_ops (pl_target R)) (pilot_sign R) (opportunity_key x) ''rosetta-engagement'' room response)) (\<lambda>_.
        retS (if decision = ''reserved'' then 1 else 0))))
       (retS 0)))"

definition engage_record ::
  "('x, 't) pilot_runtime \<Rightarrow> datetime \<Rightarrow> string \<Rightarrow> int \<Rightarrow> protocol_record \<Rightarrow> (('x, 't) pilot_world, int) op" where
  "engage_record R now room generation r =
     bindS (case classify (pl_crypto R) r (pi_did (pc_identity (pl_config R))) generation of
         None \<Rightarrow> retS 0 | Some x \<Rightarrow> answer_opportunity R now room generation r x) (\<lambda>sent.
     bindS (in_state (set_engagement_checkpoint room (p_sequence r) generation)) (\<lambda>_. retS sent))"

definition engage_room :: "('x, 't) pilot_runtime \<Rightarrow> datetime \<Rightarrow> string \<Rightarrow> (('x, 't) pilot_world, int) op" where
  "engage_room R now room =
     bindS (getS (\<lambda>p. engagement_checkpoint room (b_store (pw_env p)))) (\<lambda>stored. case stored of
       None \<Rightarrow> raiseS (RuntimeError ''engagement_cursor_not_initialized'')
     | Some (cursor, stored_generation) \<Rightarrow>
         bindS (in_target_ops (tg_read_room (tp_ops (pl_target R)) room cursor 100)) (\<lambda>records.
         bindS (in_target_ops (high_water (pl_target R) room)) (\<lambda>(last_seq, generation).
         ifS (generation \<noteq> stored_generation \<or> 100 < last_seq - cursor)
           (bindS (in_state (set_engagement_checkpoint room last_seq generation)) (\<lambda>_. retS 0))
           (bindS (mapS (engage_record R now room generation) records) (\<lambda>counts. retS (sum_list counts))))))"

definition poll_engagement :: "('x, 't) pilot_runtime \<Rightarrow> datetime \<Rightarrow> (('x, 't) pilot_world, int) op" where
  "poll_engagement R now =
     bindS (in_worker (gate_require ''public_writer'')) (\<lambda>_.
     bindS (mapS (engage_room R now) (pg_rooms (pc_engagement (pl_config R)))) (\<lambda>counts. retS (sum_list counts)))"

definition proactive_post ::
  "('x, 't) pilot_runtime \<Rightarrow> datetime \<Rightarrow> datetime \<Rightarrow> string \<Rightarrow> int \<Rightarrow> nat \<times> string \<Rightarrow> (('x, 't) pilot_world, int) op" where
  "proactive_post R current activated policy slot = (\<lambda>(i, room).
     bindS (liftS (proactive_delivery_key room policy (str_int slot))) (\<lambda>key.
     bindS (in_state (reserve_proactive_post key room current activated 7 4 4)) (\<lambda>decision.
     ifS (decision \<in> {''reserved'', ''existing''})
       (bindS (liftS (proactive_text (slot + int i) (ps_base_url (pc_service (pl_config R))))) (\<lambda>message.
        bindS (in_worker (send_text (tp_ops (pl_target R)) (pilot_sign R) key ''rosetta-engagement'' room message)) (\<lambda>_.
        retS (if decision = ''reserved'' then 1 else 0))))
       (retS 0))))"

text \<open>A slot is six hours of the campaign.\<close>

definition us_per_slot :: int where "us_per_slot = 21600000000"

definition poll_proactive ::
  "('x, 't) pilot_runtime \<Rightarrow> datetime \<Rightarrow> (string \<times> pyval) list \<Rightarrow> (('x, 't) pilot_world, int) op" where
  "poll_proactive R now activation =
     bindS (in_worker (gate_require ''public_writer'')) (\<lambda>_.
     bindS (liftS (bindE (get_key activation ''activated_at'') (\<lambda>v.
       of_option (ValueError ''Invalid isoformat string'') (from_iso (text_of (sl_str (pl_stdlib R)) (Some v)))))) (\<lambda>activated_at.
     raiseS_if (naive activated_at) (RuntimeError ''engagement activation timestamp is naive'')
     (bindS (liftS (to_utc now)) (\<lambda>current.
      bindS (liftS (to_utc activated_at)) (\<lambda>activated.
      let elapsed = instant current - instant activated in
      ifS (elapsed < 0) (retS 0)
      (bindS (liftS (policy_sha R)) (\<lambda>policy.
       bindS (mapS (proactive_post R current activated_at (text_of (sl_str (pl_stdlib R)) (Some policy)) (elapsed div us_per_slot))
         (List.enumerate 0 (pg_rooms (pc_engagement (pl_config R))))) (\<lambda>counts. retS (sum_list counts)))))))))"

section \<open>One poll\<close>

record poll_counts =
  ct_discovery :: int
  ct_requests :: int
  ct_rejected :: int
  ct_engagement :: "int option"
  ct_proactive :: "int option"

definition no_counts :: poll_counts where
  "no_counts = \<lparr>ct_discovery = 0, ct_requests = 0, ct_rejected = 0, ct_engagement = None, ct_proactive = None\<rparr>"

definition counts_dict :: "poll_counts \<Rightarrow> pyval" where
  "counts_dict c = PDict ([(''discovery'', PInt (ct_discovery c)), (''requests'', PInt (ct_requests c)),
     (''rejected'', PInt (ct_rejected c))] @
     (case ct_engagement c of None \<Rightarrow> [] | Some n \<Rightarrow> [(''engagement'', PInt n)]) @
     (case ct_proactive c of None \<Rightarrow> [] | Some n \<Rightarrow> [(''proactive'', PInt n)]))"

definition health_document ::
  "('x, 't) pilot_runtime \<Rightarrow> string \<Rightarrow> datetime \<Rightarrow> poll_counts \<Rightarrow> (string \<times> string) option \<Rightarrow> pyval" where
  "health_document R status checked_at counts failure =
     (let names = service_names (pl_crypto R) (pi_did (pc_identity (pl_config R))) in
      PDict ([(''schema'', PStr ''rosetta.pilot-health.v1''), (''status'', PStr status), (''checked_at'', PDateTime checked_at),
        (''public_writes_enabled'', PBool True), (''service_room'', PStr (fst names)), (''request_mailbox'', PStr (snd names)),
        (''counts'', counts_dict counts)] @
       (case failure of None \<Rightarrow> [] | Some (error_code, error_type) \<Rightarrow>
          [(''error_code'', PStr error_code), (''error_type'', PStr error_type)])))"

definition write_pilot_health ::
  "('x, 't) pilot_runtime \<Rightarrow> string \<Rightarrow> datetime \<Rightarrow> poll_counts \<Rightarrow> (string \<times> string) option \<Rightarrow> (('x, 't) pilot_world, unit) op" where
  "write_pilot_health R status checked_at counts failure =
     in_files (atomic_json (state_file R ''health.json'') (health_document R status checked_at counts failure))"

definition poll_campaign ::
  "('x, 't) pilot_runtime \<Rightarrow> datetime \<Rightarrow> (string \<times> pyval) list option \<Rightarrow> (('x, 't) pilot_world, int option \<times> int option) op" where
  "poll_campaign R now activation = (case activation of
     None \<Rightarrow> retS (None, None)
   | Some kvs \<Rightarrow>
       bindS (poll_engagement R now) (\<lambda>replies.
       ifS (pg_proactive (pc_engagement (pl_config R)))
         (bindS (poll_proactive R now kvs) (\<lambda>posts. retS (Some replies, Some posts)))
         (retS (Some replies, None))))"

definition poll_once :: "('x, 't) pilot_runtime \<Rightarrow> datetime option \<Rightarrow> (('x, 't) pilot_world, poll_counts) op" where
  "poll_once R now = (let c = pl_config R in
     bindS (has_file (activation_path R)) (\<lambda>active.
     raiseS_if (\<not> ps_enabled (pc_service c) \<or> \<not> active) (RuntimeError ''pilot_not_activated'')
     (bindS (has_file (engagement_activation_path R)) (\<lambda>approved.
      bindS (ifS (pg_enabled (pc_engagement c) \<and> approved)
        (bindS (engagement_activation R) (\<lambda>kvs. retS (Some kvs))) (retS None)) (\<lambda>activation.
      bindS (current_time R now) (\<lambda>current.
      bindS (load_card R current) (\<lambda>(crd, _).
      bindS (pilot_gateway R crd) (\<lambda>g.
      bindS (maintain_service_presence R g crd current) (\<lambda>_.
      bindS (recover R g current) (\<lambda>_.
      bindS (mapS (poll_discovery_room R g current) (pt_rooms (pc_technocore c))) (\<lambda>offers.
      bindS (poll_mailbox R g current (card_request_mailbox crd)) (\<lambda>(accepted, rejected).
      bindS (poll_campaign R current activation) (\<lambda>(replies, posts).
      let counts = \<lparr>ct_discovery = sum_list offers, ct_requests = accepted, ct_rejected = rejected,
            ct_engagement = replies, ct_proactive = posts\<rparr> in
      bindS (write_pilot_health R ''healthy'' current counts None) (\<lambda>_. retS counts))))))))))))))"

section \<open>The service loop\<close>

text \<open>\<open>json.dumps(..., sort_keys=True)\<close> of the runtime event\<close>

definition poll_failed_line :: "string \<Rightarrow> string" where
  "poll_failed_line error_type = ''{'' @ quote True ''error_type'' @ '': '' @ quote True error_type @ '', '' @
     quote True ''event'' @ '': '' @ quote True ''poll_failed'' @ '', '' @ quote True ''schema'' @ '': '' @
     quote True ''rosetta.pilot-runtime-event.v1'' @ ''}''"

definition record_poll_failure :: "('x, 't) pilot_runtime \<Rightarrow> exn \<Rightarrow> (('x, 't) pilot_world, unit) op" where
  "record_poll_failure R e =
     bindS (next_tick (pl_clock R)) (\<lambda>current.
     bindS (in_state (record_infrastructure_error ''pilot_poll'' current)) (\<lambda>_.
     bindS (write_pilot_health R ''degraded'' current no_counts (Some (''pilot_poll_failed'', pl_type_name R e))) (\<lambda>_.
     putS (\<lambda>p. p\<lparr>pw_stderr := pw_stderr p @ [poll_failed_line (pl_type_name R e)]\<rparr>))))"

text \<open>One turn of the loop; the flag says whether the capabilities have been confirmed.\<close>

definition serve_turn :: "('x, 't) pilot_runtime \<Rightarrow> bool \<Rightarrow> (('x, 't) pilot_world, bool) op" where
  "serve_turn R confirmed p =
     (case (if confirmed then (Inr (), p)
            else bindS (in_target_ops (tg_capabilities (tp_ops (pl_target R)))) (\<lambda>_. retS ()) p) of
        (Inl e, q) \<Rightarrow> bindS (record_poll_failure R e) (\<lambda>_. retS False) q
      | (Inr _, q) \<Rightarrow> (case poll_once R None q of
            (Inl e, u) \<Rightarrow> bindS (record_poll_failure R e) (\<lambda>_. retS True) u
          | (Inr _, u) \<Rightarrow> (Inr True, u)))"

text \<open>
  \<open>serve\<close>: a signal asks for a stop, which the loop sees when a turn has ended
  (while it waits, or at the head of the loop); \<open>n\<close> is the number of turns
  begun before that.  The waiting changes no state of this program.
\<close>

primrec serve :: "('x, 't) pilot_runtime \<Rightarrow> bool \<Rightarrow> nat \<Rightarrow> (('x, 't) pilot_world, unit) op" where
  "serve R confirmed 0 = retS ()"
| "serve R confirmed (Suc n) = bindS (serve_turn R confirmed) (\<lambda>now_confirmed. serve R now_confirmed n)"

datatype command = Prepare | Activate string | Prepare_Engagement | Activate_Engagement string | Once | Serve nat

text \<open>\<open>_run\<close>: what a command of the program prints\<close>

definition preview_dict :: "pyval \<times> string \<Rightarrow> pyval" where
  "preview_dict vd = PDict [(''preview_sha256'', PStr (snd vd)), (''preview'', fst vd)]"

definition run_command :: "('x, 't) pilot_runtime \<Rightarrow> command \<Rightarrow> (('x, 't) pilot_world, pyval) op" where
  "run_command R c = (case c of
     Prepare \<Rightarrow> bindS (prepare R None) (\<lambda>vd. retS (preview_dict vd))
   | Activate approved \<Rightarrow> activate R approved None
   | Prepare_Engagement \<Rightarrow> bindS (prepare_engagement R) (\<lambda>vd. retS (preview_dict vd))
   | Activate_Engagement approved \<Rightarrow> activate_engagement R approved
   | Once \<Rightarrow> bindS (poll_once R None) (\<lambda>counts. retS (counts_dict counts))
   | Serve n \<Rightarrow> bindS (serve R False n) (\<lambda>_. retS (PDict [(''status'', PStr ''stopped'')])))"

end
