(* ===== verification/Pilot_Safety.thy ===== *)
theory Pilot_Safety
  imports Pilot_Poll
begin

text \<open>
  The kill switch of the pilot service: while it is set nothing is signed and
  nothing is written to the public target, by any command.  The rules by which
  invariants of the workers' state pass through the pilot's methods are used
  by the theories on other invariants as well.
\<close>

section \<open>Methods that are refused\<close>

text \<open>\<open>refused I m\<close>: from a state with \<open>I\<close> the method raises and changes nothing.\<close>

definition refused :: "('s \<Rightarrow> bool) \<Rightarrow> ('s, 'a) op \<Rightarrow> bool" where
  "refused I m = (\<forall>s. I s \<longrightarrow> (\<exists>e. m s = (Inl e, s)))"

named_theorems refused_intros \<open>rules for refused methods\<close>

lemma refused_preserves: "refused I m \<Longrightarrow> preserves I m"
  unfolding refused_def preserves_def by (metis snd_conv)

lemma refused_raiseS [refused_intros]: "refused I (raiseS e)"
  by (simp add: refused_def raiseS_def)

lemma refused_bindS: "refused I m \<Longrightarrow> refused I (bindS m f)"
  unfolding refused_def bindS_def by fastforce

lemma refused_liftS [refused_intros]: "(\<And>a. refused I (f a)) \<Longrightarrow> refused I (bindS (liftS r) f)"
  unfolding refused_def bindS_def by (cases r) (auto simp: liftS_def)

lemma refused_option [refused_intros]:
  "refused I m \<Longrightarrow> (\<And>a. refused I (f a)) \<Longrightarrow> refused I (case x of None \<Rightarrow> m | Some a \<Rightarrow> f a)"
  by (cases x) simp_all

lemma refused_on_fst: "refused J m \<Longrightarrow> refused (\<lambda>wt. J (fst wt)) (on_fst m)"
  by (fastforce simp: refused_def on_fst_def)

section \<open>Invariants of the workers' part\<close>

definition on_env :: "(('x, 't) env \<Rightarrow> bool) \<Rightarrow> ('x, 't) pilot_world \<Rightarrow> bool" where
  "on_env J p = J (pw_env p)"

lemma preserves_in_worker: "preserves J f \<Longrightarrow> preserves (on_env J) (in_worker f)"
  unfolding preserves_def on_env_def in_worker_def by (auto split: prod.splits)

lemma preserves_in_both: "preserves (\<lambda>wt. J (fst wt)) f \<Longrightarrow> preserves (on_env J) (in_both f)"
  unfolding preserves_def on_env_def in_both_def by (auto split: prod.splits) (metis fst_conv snd_conv)

lemma preserves_in_gateway: "preserves (\<lambda>wn. J (fst wn)) f \<Longrightarrow> preserves (on_env J) (in_gateway f)"
  unfolding preserves_def on_env_def in_gateway_def by (auto split: prod.splits) (metis fst_conv snd_conv)

lemma preserves_on_env_other [preserves_intros]:
  "preserves (on_env J) (in_files m)"
  "preserves (on_env J) (next_tick f)"
  "preserves (on_env J) (read_file path)"
  "preserves (on_env J) (has_file path)"
  "preserves (on_env J) (putS (\<lambda>p. p\<lparr>pw_stderr := g p\<rparr>))"
  by (auto simp: preserves_def on_env_def in_files_def next_tick_def read_file_def has_file_def split: prod.splits)

lemma preserves_read_json [preserves_intros]: "preserves (on_env J) (read_json path)"
  unfolding read_json_def by (intro preserves_intros)

lemma preserves_current_time [preserves_intros]: "preserves (on_env J) (current_time R now)"
  unfolding current_time_def by (intro preserves_intros)

lemma preserves_load_card [preserves_intros]: "preserves (on_env J) (load_card R now)"
  unfolding load_card_def by (intro preserves_intros)

lemma preserves_pilot_gateway [preserves_intros]: "preserves (on_env J) (pilot_gateway R crd)"
  unfolding pilot_gateway_def by (intro preserves_intros)

lemma preserves_activation [preserves_intros]: "preserves (on_env J) (engagement_activation R)"
  unfolding engagement_activation_def by (intro preserves_intros)

lemma preserves_health [preserves_intros]: "preserves (on_env J) (write_pilot_health R status at counts failure)"
  unfolding write_pilot_health_def Let_def by (intro preserves_intros)

lemma preserves_ready [preserves_intros]: "preserves (on_env J) (engagement_ready R)"
  unfolding engagement_ready_def by (intro preserves_intros)

lemma preserves_load_prepared [preserves_intros]: "preserves (on_env J) (load_prepared R)"
proof -
  have "preserves (on_env J) (case v of PDict kvs \<Rightarrow>
       raiseS_if (map_of kvs ''schema'' \<noteq> Some (PStr ''rosetta.pilot-activation-preview.v2''))
         (ValueError ''invalid activation preview'')
       (bindS (liftS (digest_of (pl_crypto R) v)) (\<lambda>digest. retS (kvs, digest)))
   | _ \<Rightarrow> raiseS (ValueError ''invalid activation preview''))" for v
    by (cases v) (auto intro!: preserves_intros)
  then show ?thesis unfolding load_prepared_def by (intro preserves_bindS preserves_intros)
qed

lemma preserves_stored_ack [preserves_intros]: "preserves (on_env J) (stored_ack R requester i failure)"
  unfolding stored_ack_def by (intro preserves_intros)

section \<open>The kill switch\<close>

text \<open>Under the kill switch with the signer state \<open>x\<close> and a target that satisfies \<open>Q\<close>.\<close>

definition silent :: "'x \<Rightarrow> ('t \<Rightarrow> bool) \<Rightarrow> ('x, 't) env \<Rightarrow> bool" where
  "silent x Q w = (b_kill w \<and> e_signer w = x \<and> Q (e_target w))"

lemma refused_gate [refused_intros]: "refused (silent x Q) (gate_require c)"
  by (auto simp: refused_def silent_def gate_require_killed)

lemma refused_gate_bind [refused_intros]: "refused (silent x Q) (bindS (gate_require c) f)"
  by (rule refused_bindS) (rule refused_gate)

lemma refused_sign [refused_intros]: "refused (silent x Q) (guarded_signer raw r)"
  unfolding guarded_signer_def guarded_sign_def by (intro refused_intros)

lemma refused_send [refused_intros]:
  "refused (silent x Q) (send_text T sign key actor room msg)"
  "refused (silent x Q) (send_body T sign key actor room body)"
  unfolding send_body_def send_text_def by (intro refused_intros)+

lemma refused_gateway [refused_intros]:
  "refused (silent x Q) (announce T sign str g)"
  "refused (silent x Q) (restore_announcement T sign str g generation)"
  "refused (silent x Q) (announce_presence T sign str g generation slot)"
  "refused (silent x Q) (handle_discovery C P T sign g r now)"
  "refused (silent x Q) (reserve_run G now cents)"
  unfolding announce_def restore_announcement_def announce_presence_def handle_discovery_def reserve_run_def
  by (intro refused_intros)+

lemma refused_complete [refused_intros]: "refused (silent x Q) (complete_request P T sign g clock did q ack now root oc)"
  unfolding complete_request_def by (intro refused_intros refused_bindS [OF refused_send(2)])

lemma refused_in_pair [refused_intros]:
  "refused (\<lambda>wn. silent x Q (fst wn)) (accept_request C P T sign g r now)"
  "refused (\<lambda>wt. silent x Q (fst wt)) (static_publish C P enabled spool site now bundle)"
  unfolding accept_request_def static_publish_def by (intro refused_bindS refused_on_fst refused_gate)+

lemma refused_in_worker [refused_intros]: "refused J m \<Longrightarrow> refused (on_env J) (in_worker m)"
  by (fastforce simp: refused_def on_env_def in_worker_def)

lemma refused_in_gateway [refused_intros]: "refused (\<lambda>wn. J (fst wn)) m \<Longrightarrow> refused (on_env J) (in_gateway m)"
proof -
  assume m: "refused (\<lambda>wn. J (fst wn)) m"
  have "\<exists>e. in_gateway m p = (Inl e, p)" if "J (pw_env p)" for p
    using m [unfolded refused_def, rule_format, of "(pw_env p, 0)"] that by (auto simp: in_gateway_def)
  then show ?thesis by (simp add: refused_def on_env_def)
qed

lemma refused_in_both [refused_intros]: "refused (\<lambda>wt. J (fst wt)) m \<Longrightarrow> refused (on_env J) (in_both m)"
proof -
  assume m: "refused (\<lambda>wt. J (fst wt)) m"
  have "\<exists>e. in_both m p = (Inl e, p)" if "J (pw_env p)" for p
    using m [unfolded refused_def, rule_format, of "(pw_env p, pw_files p)"] that by (auto simp: in_both_def)
  then show ?thesis by (simp add: refused_def on_env_def)
qed

lemma closed_step [preserves_intros]: "refused I m \<Longrightarrow> preserves I (bindS m f)"
  by (rule refused_preserves) (rule refused_bindS)

lemma silent_in_state [preserves_intros]: "preserves (on_env (silent x Q)) (in_state f)"
  by (auto simp: preserves_def on_env_def in_state_def in_worker_def in_store_def silent_def split: prod.splits)

lemma silent_record_runner [preserves_intros]: "preserves (on_env (silent x Q)) (record_runner R success)"
  using silent_in_state unfolding record_runner_def gate_record_def in_state_def by (intro preserves_bindS preserves_intros)

lemma silent_in_target: "preserves Q m \<Longrightarrow> preserves (on_env (silent x Q)) (in_target_ops m)"
  unfolding preserves_def on_env_def in_target_ops_def in_worker_def in_target_def silent_def
  by (auto split: prod.splits)

lemma silent_identity: "refused (on_env (silent x Q)) (assert_identity R)"
  unfolding assert_identity_def pilot_sign_def by (intro refused_bindS refused_in_worker refused_sign)

lemma silent_commands [preserves_intros]:
  "preserves (on_env (silent x Q)) (prepare R now)"
  "preserves (on_env (silent x Q)) (activate R approved now)"
  "preserves (on_env (silent x Q)) (prepare_engagement R)"
  unfolding prepare_def activate_def prepare_engagement_def
  by (intro preserves_raiseS_if preserves_bindS [OF preserves_current_time] closed_step [OF silent_identity]
      preserves_bindS preserves_intros)+

lemma silent_presence [preserves_intros]:
  "preserves (on_env (silent x Q)) (send_presence R g crd now observed threshold kind)"
  "preserves (on_env (silent x Q)) (restore_presence R g crd now observed)"
  "preserves (on_env (silent x Q)) (refresh_presence R g crd now observed own last_sent)"
  unfolding refresh_presence_def send_presence_def restore_presence_def
  by (intro preserves_ifS preserves_basic closed_step preserves_bindS [OF preserves_basic(3)] refused_in_worker refused_gateway)+

lemma silent_execute [preserves_intros]: "preserves (on_env (silent x Q)) (execute R g requester q job now)"
proof -
  have "preserves (on_env (silent x Q)) (build_request_bundle R requester q job now)"
    unfolding build_request_bundle_def Let_def
    by (intro preserves_bindS [OF preserves_basic(4)] preserves_ifS closed_step refused_in_worker refused_gateway
        preserves_bindS [OF preserves_basic(3)] preserves_prod preserves_basic)
  moreover have "preserves (on_env (silent x Q)) (publish_report R root path)" for root path
    unfolding publish_report_def Let_def
    by (intro preserves_bindS [OF preserves_basic(4)] preserves_ifS preserves_bindS [OF preserves_on_env_other(2)]
        closed_step refused_in_both refused_in_pair preserves_bindS [OF preserves_basic(3)] preserves_raiseS_if preserves_basic)
  moreover have "preserves (on_env (silent x Q)) (complete_job R g requester q root oc)" for root oc
    unfolding complete_job_def
    by (intro preserves_bindS [OF preserves_stored_ack] preserves_bindS [OF preserves_on_env_other(2)]
        closed_step refused_in_worker refused_complete)
  ultimately show ?thesis unfolding execute_def
    by (intro preserves_bindS [OF silent_in_state] preserves_tryS preserves_bindS [OF preserves_on_env_other(2)]
        preserves_bindS [OF silent_record_runner] preserves_basic silent_record_runner preserves_bindS preserves_prod)
qed

lemma silent_recover [preserves_intros]: "preserves (on_env (silent x Q)) (recover R g now)"
proof -
  have "preserves (on_env (silent x Q)) (recover_job R g now j)" for j
    unfolding recover_job_def
    by (intro preserves_prod preserves_bindS [OF preserves_basic(3)] preserves_bindS [OF preserves_stored_ack]
        preserves_option preserves_basic silent_execute)
  then show ?thesis unfolding recover_def
    by (intro preserves_bindS [OF preserves_basic(4)] preserves_bindS preserves_mapS preserves_basic)
qed

lemma preserves_serve_turn:
  fixes I :: "('x, 't) pilot_world \<Rightarrow> bool"
  assumes capabilities: "preserves I (in_target_ops (tg_capabilities (tp_ops (pl_target R))))"
    and poll: "preserves I (poll_once R None)" and failure: "\<And>e. preserves I (record_poll_failure R e)"
  shows "preserves I (serve_turn R confirmed)"
proof (rule preservesI)
  fix p assume I: "I p"
  let ?m = "if confirmed then retS () else bindS (in_target_ops (tg_capabilities (tp_ops (pl_target R)))) (\<lambda>_. retS ())"
  obtain y q where y: "?m p = (y, q)" by fastforce
  obtain z u where z: "poll_once R None q = (z, u)" by fastforce
  have m: "preserves I ?m" by (intro preserves_if preserves_basic preserves_bindS capabilities)
  have q: "I q" using m y I by (rule preservesE)
  have u: "I u" using poll z q by (rule preservesE)
  have f: "preserves I (bindS (record_poll_failure R e) (\<lambda>_. retS b))" for e and b :: bool
    by (intro preserves_bindS failure preserves_basic)
  have "serve_turn R confirmed p = (case y of Inl e \<Rightarrow> bindS (record_poll_failure R e) (\<lambda>_. retS False) q
      | Inr _ \<Rightarrow> (case z of Inl e \<Rightarrow> bindS (record_poll_failure R e) (\<lambda>_. retS True) u | Inr _ \<Rightarrow> (Inr True, u)))"
    using y z by (cases confirmed) (auto simp: serve_turn_def retS_def split: sum.splits)
  then show "I (snd (serve_turn R confirmed p))"
    using preservesD [OF f q] preservesD [OF f u] u by (auto split: sum.splits)
qed

section \<open>Targets whose reads keep a property\<close>

locale reading_target =
  fixes T :: "'t pilot_target" and Q :: "'t \<Rightarrow> bool"
  assumes reads: "preserves Q (tg_read_room (tp_ops T) room since limit)"
    and generations: "tp_generation T = Some f \<Longrightarrow> preserves Q (f room)"
    and marks: "tp_last T = Some f \<Longrightarrow> preserves Q (f room)"
    and capabilities: "preserves Q (tg_capabilities (tp_ops T))"
begin

lemma keeps_generation: "preserves Q (room_generation T room)"
  unfolding room_generation_def by (intro preserves_option preserves_basic generations)

lemma keeps_high_water: "preserves Q (high_water T room)"
  unfolding high_water_def by (intro preserves_bindS [OF keeps_generation] preserves_option preserves_basic preserves_bindS [OF marks])

lemmas silent_reads = silent_in_target [OF reads] silent_in_target [OF keeps_generation]
  silent_in_target [OF keeps_high_water] silent_in_target [OF capabilities]

lemma silent_maintain:
  assumes "pl_target R = T"
  shows "preserves (on_env (silent x Q)) (maintain_service_presence R g crd now)"
  unfolding maintain_service_presence_def Let_def assms
  by (intro preserves_bindS [OF silent_reads(1)] preserves_bindS [OF silent_reads(2)] preserves_bindS [OF silent_in_state]
      preserves_ifS preserves_option preserves_prod silent_presence)

lemma silent_safe_read:
  assumes "pl_target R = T"
  shows "preserves (on_env (silent x Q)) (read_generation_safe R room)"
  unfolding read_generation_safe_def Let_def assms
  by (intro preserves_bindS [OF silent_reads(1)] preserves_bindS [OF silent_reads(2)] preserves_bindS [OF silent_in_state]
      preserves_bindS [OF preserves_basic(4)] preserves_ifS preserves_option preserves_prod preserves_basic silent_reads(1))

lemma silent_discovery:
  assumes "pl_target R = T"
  shows "preserves (on_env (silent x Q)) (poll_discovery_room R g now room)"
  unfolding poll_discovery_room_def poll_query_def
  by (intro preserves_bindS [OF silent_safe_read [OF assms]] preserves_bindS [OF preserves_mapS] preserves_basic
      closed_step refused_in_worker refused_gateway)

lemma silent_mailbox:
  assumes "pl_target R = T"
  shows "preserves (on_env (silent x Q)) (poll_mailbox R g now room)"
  unfolding poll_mailbox_def poll_request_def
  by (intro preserves_bindS [OF silent_safe_read [OF assms]] preserves_bindS [OF preserves_mapS] preserves_basic
      closed_step refused_in_gateway refused_in_pair)

lemma silent_campaign: "preserves (on_env (silent x Q)) (poll_campaign R now activation)"
proof -
  have "refused (on_env (silent x Q)) (poll_engagement R now)"
    unfolding poll_engagement_def by (intro refused_bindS refused_in_worker refused_gate)
  then show ?thesis unfolding poll_campaign_def by (intro preserves_option preserves_basic closed_step)
qed

lemma silent_poll [preserves_intros]:
  assumes "pl_target R = T"
  shows "preserves (on_env (silent x Q)) (poll_once R now)"
  unfolding poll_once_def Let_def
  by (intro preserves_bindS preserves_raiseS_if preserves_ifS preserves_prod preserves_mapS preserves_basic preserves_on_env_other
      preserves_activation preserves_current_time preserves_load_card preserves_pilot_gateway preserves_health
      silent_maintain [OF assms] silent_recover silent_discovery [OF assms] silent_mailbox [OF assms] silent_campaign)

lemma silent_engagement [preserves_intros]:
  assumes "pl_target R = T"
  shows "preserves (on_env (silent x Q)) (activate_engagement R approved)"
proof -
  have s: "preserves (on_env (silent x Q)) (start_room R room)" for room
    unfolding start_room_def assms
    by (intro preserves_bindS [OF silent_reads(1)] preserves_bindS [OF silent_reads(3)] preserves_prod silent_in_state)
  have "preserves (on_env (silent x Q)) (fresh_activation R digest)" for digest
    unfolding fresh_activation_def by (intro preserves_intros s)
  then show ?thesis unfolding activate_engagement_def by (intro preserves_intros)
qed

lemma silent_failure [preserves_intros]: "preserves (on_env (silent x Q)) (record_poll_failure R e)"
  unfolding record_poll_failure_def by (intro preserves_bindS [OF silent_in_state] preserves_intros)

lemma silent_turn:
  assumes "pl_target R = T"
  shows "preserves (on_env (silent x Q)) (serve_turn R confirmed)"
  using silent_reads(4) by (intro preserves_serve_turn silent_poll silent_failure assms) (simp add: assms)

lemma silent_command:
  assumes "pl_target R = T"
  shows "preserves (on_env (silent x Q)) (run_command R c)"
proof -
  have "preserves (on_env (silent x Q)) (serve R confirmed n)" for confirmed n
    by (induction n arbitrary: confirmed) (auto intro: preserves_basic preserves_bindS silent_turn [OF assms])
  then show ?thesis unfolding run_command_def
    by (cases c) (auto intro!: preserves_bindS preserves_basic silent_commands silent_engagement [OF assms] silent_poll [OF assms])
qed

end

section \<open>The HTTP client as such a target\<close>

text \<open>Since the requests \<open>log\<close> the client has sent nothing but GET requests.\<close>

definition only_gets :: "http_request list \<Rightarrow> ('n \<times> http_request list) client_state \<Rightarrow> bool" where
  "only_gets log s = (\<exists>sent. snd (cs_net s) = log @ sent \<and> list_all (\<lambda>q. hq_method q = ''GET'') sent)"

lemma only_gets_extend: "only_gets log s \<Longrightarrow> snd (cs_net t) = snd (cs_net s) @ sent \<Longrightarrow>
    list_all (\<lambda>q. hq_method q = ''GET'') sent \<Longrightarrow> only_gets log t"
  unfolding only_gets_def by fastforce

lemma only_gets_read:
  fixes N :: "'n network"
  shows "preserves (only_gets log) (client_read_room C L (logged N) c room since limit)"
proof (rule preservesI)
  fix s :: "('n \<times> http_request list) client_state" assume s: "only_gets log s"
  obtain x t where r: "client_read_room C L (logged N) c room since limit s = (x, t)" by fastforce
  from client_read_room_log [OF r] show "only_gets log (snd (client_read_room C L (logged N) c room since limit s))"
    using only_gets_extend [OF s, of t "[]"] only_gets_extend [OF s, of t "[read_request_of room since limit]"] r
    by (auto simp: read_request_of_def)
qed

lemma only_gets_capabilities:
  fixes N :: "'n network"
  shows "preserves (only_gets log) (client_capabilities C L (logged N) c)"
proof -
  let ?probe = "probe C L (logged N) (make_probe_client (tc_authority c) (tc_release c) (tc_max c))"
  have "preserves (only_gets log) (on_net ?probe)"
  proof (rule preservesI)
    fix s :: "('n \<times> http_request list) client_state" assume s: "only_gets log s"
    obtain x n where p: "?probe (cs_net s) = (x, n)" by (cases "?probe (cs_net s)")
    have "watched_only (snd (cs_net s)) (cs_net s)" by (auto simp: watched_only_def intro: exI [of _ "[]"])
    from preservesE [OF probe_watched p this] obtain paths where "snd n = snd (cs_net s) @ map get_request paths"
      by (auto simp: watched_only_def)
    then show "only_gets log (snd (on_net ?probe s))"
      using only_gets_extend [OF s, of "s\<lparr>cs_net := n\<rparr>" "map get_request paths"] p
      by (simp add: on_net_def list_all_iff get_request_def)
  qed
  then show ?thesis unfolding client_capabilities_def by (intro preserves_bindS preserves_raiseS_if preserves_basic)
qed

interpretation http: reading_target "http_target C L (logged N) c" "only_gets log" for C L and N :: "'n network" and c log
proof unfold_locales
  show "preserves (only_gets log) (tg_read_room (tp_ops (http_target C L (logged N) c)) room since limit)" for room since limit
    by (simp add: http_target_def client_ops_def only_gets_read)
  show "preserves (only_gets log) (tg_capabilities (tp_ops (http_target C L (logged N) c)))"
    by (simp add: http_target_def client_ops_def only_gets_capabilities)
qed (auto simp: http_target_def client_room_generation_def client_room_last_sequence_def intro!: preserves_bindS preserves_basic)

text \<open>
  C33: The kill switch silences the pilot: while it is set, no command of the service, including any number of
  turns of its loop, makes the signer produce anything, and over a network that logs its requests the public
  client sends nothing but GET requests; the switch stays set.
\<close>

theorem killed_pilot_is_silent:
  assumes "b_kill (pw_env p)" and "pl_target R = http_target C L (logged N) c" and "run_command R command p = (r, p')"
  shows "e_signer (pw_env p') = e_signer (pw_env p) \<and> b_kill (pw_env p')
    \<and> (\<exists>sent. snd (cs_net (e_target (pw_env p'))) = snd (cs_net (e_target (pw_env p))) @ sent
        \<and> list_all (\<lambda>q. hq_method q = ''GET'') sent)"
proof -
  let ?w = "pw_env p"
  have "on_env (silent (e_signer ?w) (only_gets (snd (cs_net (e_target ?w))))) p"
    using assms(1) by (simp add: on_env_def silent_def only_gets_def)
  from preservesE [OF http.silent_command [OF assms(2)] assms(3) this] show ?thesis
    by (simp add: on_env_def silent_def only_gets_def)
qed

section \<open>An instance for examples\<close>

definition demo_settings :: "bool \<Rightarrow> pilot_config" where
  "demo_settings enabled = \<lparr>
     pc_technocore = \<lparr>pt_authority = ''https://technocore.chat'', pt_fetch = ''http://technocore-egress:8082'',
       pt_rooms = [''lobby'', ''meta''], pt_timeout = 20, pt_max_bytes = 4096\<rparr>,
     pc_identity = \<lparr>pi_did = ''did:key:z6Mk'', pi_socket = ''/run/signer.sock''\<rparr>,
     pc_service = \<lparr>ps_enabled = enabled, ps_base_url = ''https://rosetta.example'', ps_state_dir = ''/state'', ps_spool_dir = ''/spool'',
       ps_static_root = ''/site'', ps_kill_file = ''/state/KILL_SWITCH'', ps_poll_seconds = 10, ps_per_did = 2, ps_external = 8,
       ps_queue = 16, ps_budget = 4000\<rparr>,
     pc_engagement = no_engagement\<rparr>"

definition demo_pilot_runtime :: "bool \<Rightarrow> 't pilot_target \<Rightarrow> (nonce_store, 't) pilot_runtime" where
  "demo_pilot_runtime enabled T = \<lparr>pl_config = demo_settings enabled, pl_crypto = demo_crypto, pl_pydantic = dated_pydantic,
     pl_stdlib = plain_stdlib, pl_adapters = demo_runtime, pl_registry = [demo_manifest ''raw-fetch''], pl_target = T,
     pl_signer = handle demo_crypto (identity.make [] []), pl_implementation = replicate 64 CHR ''0'', pl_schemas = ([], []),
     pl_clock = (\<lambda>_. demo_now), pl_system = (\<lambda>_. demo_now), pl_temporary = (\<lambda>n. dec_digits n), pl_type_name = (\<lambda>_. ''RuntimeError'')\<rparr>"

definition demo_pilot_world :: "bool \<Rightarrow> state_store \<Rightarrow> (nonce_store, (unit \<times> http_request list) client_state) pilot_world" where
  "demo_pilot_world killed s = \<lparr>pw_env = \<lparr>b_store = s, b_kill = killed, e_signer = empty_nonce_store,
     e_target = \<lparr>cs_net = ((), []), cs_generations = [], cs_last = []\<rparr>\<rparr>, pw_files = [(''/state/activation.json'', ''{}'')],
     pw_ticks = 0, pw_stderr = []\<rparr>"

lemma killed_pilot_is_silent_witness:
  "\<exists>r p'. run_command (demo_pilot_runtime True (http_target demo_crypto plain_stdlib (logged one_record_network) demo_client)) (Serve 3)
       (demo_pilot_world True empty_store) = (r, p')
     \<and> e_signer (pw_env p') = empty_nonce_store
     \<and> list_all (\<lambda>q. hq_method q = ''GET'') (snd (cs_net (e_target (pw_env p'))))"
proof -
  let ?T = "http_target demo_crypto plain_stdlib (logged one_record_network) demo_client"
  obtain r p' where run: "run_command (demo_pilot_runtime True ?T) (Serve 3) (demo_pilot_world True empty_store) = (r, p')" by fastforce
  have "b_kill (pw_env (demo_pilot_world True empty_store))" by (simp add: demo_pilot_world_def)
  from killed_pilot_is_silent [OF this _ run] run show ?thesis by (auto simp: demo_pilot_runtime_def demo_pilot_world_def)
qed

end
