(* ===== verification/Pilot_Texts.thy ===== *)
theory Pilot_Texts
  imports Pilot_Safety
begin

text \<open>
  The closed texts of engagement, as an invariant of the deliveries that the
  pilot stores: whatever records the public target returns, a delivery of the
  actor \<open>rosetta-engagement\<close> has one of the texts that
  \<open>rosetta/engagement.py\<close> admits.
\<close>

section \<open>Methods that leave the deliveries alone\<close>

definition same_deliveries :: "(state_store, 'a) op \<Rightarrow> bool" where
  "same_deliveries f = (\<forall>s. st_deliveries (snd (f s)) = st_deliveries s)"

lemma same_deliveries_iff: "same_deliveries f \<longleftrightarrow> (\<forall>D. preserves (\<lambda>s. st_deliveries s = D) f)"
  by (auto simp: same_deliveries_def preserves_def)

named_theorems deliveries_kept \<open>store methods that leave the deliveries alone\<close>

lemma kept_reserve [deliveries_kept]:
  "same_deliveries (reserve_discovery_offer did rid h now n)"
  "same_deliveries (reserve_request did rid h ack now l g json depth)"
  "same_deliveries (reserve_engagement_reply room generation sequence author now per_day hours)"
  "same_deliveries (reserve_proactive_post key room now at days per_day hours)"
  "same_deliveries (reserve_usage period kind amount limit)"
  unfolding same_deliveries_iff
  by (auto simp: preserves_def reserve_discovery_offer_def reserve_request_def reserve_engagement_reply_def reserve_proactive_post_def
      reserve_usage_def bindS_def liftS_def transactionS_def raiseS_if_def ifS_def putS_def retS_def insert_request_def insert_job_def bump_quotas_def Let_def
      split: sum.splits prod.splits option.splits if_splits)

lemma kept_jobs [deliveries_kept]:
  "same_deliveries (store_result clock did rid result)"
  "same_deliveries (mark_job did rid status now)"
  "same_deliveries (set_room_generation room n reset)"
  "same_deliveries (advance_room_cursor room n)"
  "same_deliveries (set_engagement_checkpoint room n generation)"
  "same_deliveries (service_presence room)"
  "same_deliveries (record_service_presence room at kind observed)"
  "same_deliveries (record_infrastructure_error category now)"
  "same_deliveries (register_bundle root path now)"
  "same_deliveries (record_component_result component success threshold now)"
  unfolding same_deliveries_def
  by (auto simp: store_result_def mark_job_def set_room_generation_def advance_room_cursor_def set_engagement_checkpoint_def
      service_presence_def record_service_presence_def record_infrastructure_error_def register_bundle_def record_component_result_def
      bindS_def liftS_def transactionS_def raiseS_if_def ifS_def putS_def retS_def Let_def
      split: sum.splits prod.splits option.splits if_splits)
section \<open>Deliveries with closed texts\<close>

definition texts :: "('w base_scheme) \<Rightarrow> bool" where
  "texts w = (\<forall>k d. st_deliveries (b_store w) k = Some d \<longrightarrow> dl_actor d = ''rosetta-engagement'' \<longrightarrow> valid_outbound_text (dl_text d))"

lemma texts_store: "same_deliveries f \<Longrightarrow> preserves texts (in_store f)"
  by (auto simp: preserves_def same_deliveries_def texts_def in_store_def split: prod.splits) (metis snd_conv)

lemma texts_gate: "preserves texts (gate_require c)"
  by (simp add: preserves_def gate_require_state)

lemma texts_in_target: "preserves texts (in_target f)"
  by (auto simp: preserves_def in_target_def texts_def split: prod.splits)

lemma texts_in_signer: "preserves texts (in_signer f)"
  by (auto simp: preserves_def in_signer_def texts_def split: prod.splits)

lemma texts_sign: "preserves texts (guarded_signer raw r)"
  unfolding guarded_signer_def guarded_sign_def by (intro preserves_bindS texts_gate texts_in_signer)

lemma texts_confirm: "preserves texts (in_store (confirm_delivery k n))"
  by (auto simp: preserves_def in_store_def confirm_delivery_def texts_def split: option.splits)

lemma texts_prepare:
  "actor \<noteq> ''rosetta-engagement'' \<or> valid_outbound_text msg \<Longrightarrow>
   preserves texts (in_store (prepare_delivery k actor room did n msg sig))"
  by (auto simp: preserves_def in_store_def prepare_delivery_def texts_def)

lemma texts_send:
  assumes "actor \<noteq> ''rosetta-engagement'' \<or> valid_outbound_text msg"
  shows "preserves texts (send_text T (guarded_signer raw) k actor room msg)"
  by (intro preserves_send_text texts_gate texts_sign texts_prepare [OF assms] texts_confirm texts_in_target)

lemma texts_send_body: "actor \<noteq> ''rosetta-engagement'' \<Longrightarrow> preserves texts (send_body T (guarded_signer raw) k actor room body)"
  unfolding send_body_def by (intro preserves_bindS preserves_basic texts_send) simp

section \<open>The gateway and the publishers\<close>

lemma preserves_on_fst: "preserves J f \<Longrightarrow> preserves (\<lambda>wn. J (fst wn)) (on_fst f)"
  by (auto simp: preserves_def on_fst_def split: prod.splits)

lemma preserves_on_snd: "preserves (\<lambda>wt. J (fst wt)) (on_snd f)"
  by (auto simp: preserves_def on_snd_def split: prod.splits)

lemma preserves_counter: "preserves (\<lambda>wn. J (fst wn)) (putS (\<lambda>(w, n). (w, g n)))"
  by (auto simp: preserves_def)

lemmas texts_rules = preserves_bindS preserves_ifS preserves_if preserves_raiseS_if preserves_option preserves_prod preserves_basic
  texts_gate texts_in_target texts_store [OF kept_reserve(1)] texts_store [OF kept_reserve(2)] texts_store [OF kept_reserve(5)]
  texts_store [OF kept_jobs(1)] texts_store [OF kept_jobs(9)] texts_store [OF kept_jobs(10)]

lemma texts_gateway:
  "preserves texts (announce T (guarded_signer raw) str g)"
  "preserves texts (restore_announcement T (guarded_signer raw) str g generation)"
  "preserves texts (announce_presence T (guarded_signer raw) str g generation slot)"
  "preserves texts (handle_discovery C P T (guarded_signer raw) g r now)"
  "preserves texts (complete_request P' T (guarded_signer raw) g clock did q ack now root oc)"
  unfolding announce_def restore_announcement_def announce_presence_def handle_discovery_def complete_request_def
  by (intro texts_rules texts_send_body; simp)+

lemma texts_accept: "preserves (\<lambda>wn. texts (fst wn)) (accept_request C P T (guarded_signer raw) g r now)"
proof -
  have "preserves texts (duplicate_answer P did q)" for did q
    by (auto simp: preserves_def duplicate_answer_def split: option.splits)
  then show ?thesis unfolding accept_request_def answer_request_def
    by (intro texts_rules preserves_on_fst preserves_counter texts_send_body; simp)
qed

lemma texts_publish:
  "preserves (\<lambda>wt. texts (fst wt)) (static_publish C P enabled spool site now path)"
  "preserves (\<lambda>wt. texts (fst wt)) (service_publish C P L enabled spool site source now)"
  "preserves (\<lambda>wt. texts (fst wt)) (build_bundle C (guarded_signer raw) d run results versions)"
  unfolding static_publish_def service_publish_def build_bundle_def Let_def
  by (intro texts_rules preserves_on_fst preserves_on_snd texts_sign)+

section \<open>A run on the private fixture\<close>

definition store_is :: "state_store \<Rightarrow> ('x, 't) env \<Rightarrow> bool" where
  "store_is s w = (b_store w = s)"

lemma store_is_basic:
  "preserves (store_is s) (in_target f)"
  "preserves (store_is s) (guarded_signer raw q)"
  "preserves (store_is s) (gate_require c)"
  by (auto simp: preserves_def store_is_def in_target_def guarded_signer_def guarded_sign_def in_signer_def bindS_def
      gate_require_def require_operational_def split: prod.splits sum.splits)

lemma preserves_with_adapter:
  "preserves (\<lambda>wa. J (fst wa)) f \<Longrightarrow> preserves J (with_adapter a f)"
  unfolding preserves_def with_adapter_def by (auto split: prod.splits sum.splits) (metis fst_conv snd_conv)+

lemma preserves_in_env: "preserves J f \<Longrightarrow> preserves (\<lambda>wa. J (fst wa)) (in_env f)"
  by (auto simp: preserves_def in_env_def split: prod.splits)

lemma preserves_on_adapter: "preserves (\<lambda>wa. J (fst wa)) (on_adapter f)"
  by (auto simp: preserves_def on_adapter_def)

lemmas run_rules = preserves_bindS preserves_ifS preserves_if preserves_option preserves_prod preserves_basic
  preserves_with_adapter preserves_in_env preserves_on_adapter store_is_basic

lemma store_adapter_post:
  fixes T :: "'t target_ops"
  shows "preserves (\<lambda>wa :: ('x, 't) env \<times> adapter. store_is s (fst wa)) (adapter_post T room msg resp n k)"
proof (induction k)
  case (Suc k)
  show ?case
  proof (rule preservesI)
    fix wa :: "('x, 't) env \<times> adapter" assume I: "store_is s (fst wa)"
    obtain w a where wa: "wa = (w, a)" by (cases wa)
    obtain x w' where p: "in_target (tg_post_signed T (adapter_id a) room (sp_did resp) n msg (sp_signature resp)) w = (x, w')"
      by fastforce
    have w': "store_is s w'" using preservesE [OF store_is_basic(1) p] I wa by simp
    have limited: "preserves (\<lambda>wa :: ('x, 't) env \<times> adapter. store_is s (fst wa)) (bindS (on_adapter f) (\<lambda>_. if b then raiseS e else adapter_post T room msg resp n k))"
      for f b and e by (intro run_rules Suc)
    have search: "preserves (\<lambda>wa :: ('x, 't) env \<times> adapter. store_is s (fst wa)) (bindS (in_env (in_target f)) (\<lambda>rs. case filter P rs of
        [r] \<Rightarrow> bindS (on_adapter g) (\<lambda>_. retS r) | _ \<Rightarrow> raiseS e))" for f :: "('t, protocol_record list) op" and P g e
    proof (intro run_rules)
      show "preserves (\<lambda>wa. store_is s (fst wa)) (case filter P rs of [r] \<Rightarrow> bindS (on_adapter g) (\<lambda>_. retS r) | _ \<Rightarrow> raiseS e)" for rs
        by (cases "filter P rs" rule: remdups_adj.cases) (auto intro!: run_rules)
    qed
    show "store_is s (fst (snd (adapter_post T room msg resp n (Suc k) wa)))"
      using p w' preservesD [OF limited, of "(w', a)"] preservesD [OF search, of "(w', a)"]
      by (auto simp: wa split: sum.splits exn.splits)
  qed
qed (simp add: preserves_def)

lemma store_run: "preserves (store_is s) (run_roundtrip C T A (guarded_signer raw) reg gated regression pid cid)"
proof -
  have post: "preserves (\<lambda>wa. store_is s (fst wa)) (adapter_post_signed T (guarded_signer raw) room msg)" for room msg
    unfolding adapter_post_signed_def by (intro run_rules store_adapter_post)
  have discover: "preserves (\<lambda>wa. store_is s (fst wa)) (adapter_discover T A)"
    and read: "preserves (\<lambda>wa. store_is s (fst wa)) (adapter_read_room T room)" for room
    unfolding adapter_discover_def adapter_read_room_def by (intro run_rules)+
  have other: "preserves (\<lambda>wa. store_is s (fst wa)) adapter_checkpoint"
    "preserves (\<lambda>wa. store_is s (fst wa)) (adapter_restore c)" "preserves (\<lambda>wa. store_is s (fst wa)) (confirm_once corr)" for c corr
    unfolding adapter_checkpoint_def adapter_restore_def by (intro run_rules | simp add: preserves_def confirm_once_def split: prod.splits)+
  show ?thesis unfolding run_roundtrip_def setup_roundtrip_def exchange_def restart_def Let_def
    by (intro run_rules post discover read other)
qed

section \<open>Texts that pass the last check\<close>

lemma reply_text_valid:
  assumes "reply_text x (''https://'' @ host) = Inr s" and "host_ok host" and "0 < op_sequence x" and "op_sequence x < 10 ^ 19"
  shows "valid_outbound_text s"
  using assms unfolding valid_outbound_text_def matches_contextual_iff reply_text_Inr by blast

lemma proactive_text_valid:
  assumes "proactive_text slot (''https://'' @ host) = Inr s" and "host_ok host"
  shows "valid_outbound_text s"
proof -
  have "\<exists>t \<in> set proactive_templates. s = fill_template t (card_url (''https://'' @ host))"
    unfolding proactive_text_iff [symmetric] using assms(1) by blast
  then show ?thesis using assms(2) unfolding valid_outbound_text_def list_ex_iff matches_template_iff by blast
qed

lemma classify_sequence: "classify C r did generation = Some x \<Longrightarrow> op_sequence x = p_sequence r"
  by (auto simp: classify_def Let_def split: if_splits)

lemma reserved_bindable:
  "reserve_engagement_reply room generation sequence author now per_day hours s = (Inr d, s') \<Longrightarrow> sequence < 10 ^ 19"
  by (auto simp: reserve_engagement_reply_def bindS_def liftS_def transactionS_def bindable_def sqlite_max_def
      split: sum.splits prod.splits if_splits)

section \<open>One poll\<close>

text \<open>A step whose results satisfy \<open>Q\<close>.\<close>

lemma preserves_bind_result:
  assumes "preserves I m" and "\<And>s a s'. m s = (Inr a, s') \<Longrightarrow> Q a" and "\<And>a. Q a \<Longrightarrow> preserves I (f a)"
  shows "preserves I (bindS m f)"
proof (rule preservesI)
  fix s assume s: "I s"
  obtain x t where m: "m s = (x, t)" by fastforce
  have t: "I t" using preservesE [OF assms(1) m s] .
  show "I (snd (bindS m f s))"
  proof (cases x)
    case (Inl e)
    then show ?thesis using m t by (simp add: bindS_def)
  next
    case (Inr a)
    then have "preserves I (f a)" using assms(2,3) m by blast
    from preservesD [OF this t] show ?thesis using m Inr by (simp add: bindS_def)
  qed
qed

lemma in_state_Inr: "in_state f p = (Inr a, q) \<Longrightarrow> \<exists>s s'. f s = (Inr a, s')"
  by (auto simp: in_state_def in_worker_def in_store_def split: prod.splits)

lemma in_target_Inr: "in_target_ops f p = (Inr a, q) \<Longrightarrow> \<exists>t t'. f t = (Inr a, t')"
  by (auto simp: in_target_ops_def in_worker_def in_target_def split: prod.splits)

lemma texts_in_state: "same_deliveries f \<Longrightarrow> preserves (on_env texts) (in_state f)"
  unfolding in_state_def by (intro preserves_in_worker texts_store)

lemma texts_in_target_ops: "preserves (on_env texts) (in_target_ops f)"
  unfolding in_target_ops_def by (intro preserves_in_worker texts_in_target)

lemma texts_private:
  fixes raw :: "sign_request \<Rightarrow> ('x, sign_response) op"
  shows "preserves (on_env (texts :: ('x, 't) env \<Rightarrow> bool)) (in_private (run_roundtrip C T A (guarded_signer raw) reg gated regression pid cid))"
proof (rule preservesI)
  fix p :: "('x, 't) pilot_world" assume I: "on_env texts p"
  let ?v = "\<lparr>b_store = b_store (pw_env p), b_kill = b_kill (pw_env p), e_signer = e_signer (pw_env p), e_target = new_local\<rparr>"
  obtain r v where run: "run_roundtrip C T A (guarded_signer raw) reg gated regression pid cid ?v = (r, v)" by fastforce
  have "store_is (b_store (pw_env p)) v" using preservesE [OF store_run run] by (simp add: store_is_def)
  then show "on_env texts (snd (in_private (run_roundtrip C T A (guarded_signer raw) reg gated regression pid cid) p))"
    using I run by (simp add: in_private_def Let_def on_env_def texts_def store_is_def)
qed

lemmas poll_rules = preserves_bindS preserves_ifS preserves_if preserves_raiseS_if preserves_option preserves_prod preserves_basic
  preserves_tryS preserves_mapS preserves_on_env_other preserves_read_json preserves_current_time preserves_load_card
  preserves_pilot_gateway preserves_activation preserves_health preserves_ready preserves_load_prepared preserves_stored_ack
  texts_in_target_ops texts_private texts_in_state [OF kept_jobs(2)] texts_in_state [OF kept_jobs(3)]
  texts_in_state [OF kept_jobs(4)] texts_in_state [OF kept_jobs(5)] texts_in_state [OF kept_jobs(6)]
  texts_in_state [OF kept_jobs(7)] texts_in_state [OF kept_jobs(8)] texts_in_state [OF kept_reserve(3)]
  texts_in_state [OF kept_reserve(4)]

lemma texts_reserve_run: "preserves texts (reserve_run G now cents)"
  unfolding reserve_run_def by (intro texts_rules)

lemma texts_record_runner: "preserves (on_env texts) (record_runner R success)"
  unfolding record_runner_def gate_record_def by (intro poll_rules preserves_in_worker texts_store [OF kept_jobs(10)])

lemma texts_presence:
  "preserves (on_env texts) (maintain_service_presence R g crd now)"
  unfolding maintain_service_presence_def refresh_presence_def restore_presence_def send_presence_def pilot_sign_def Let_def
  by (intro poll_rules preserves_in_worker texts_gateway)

lemma texts_execute: "preserves (on_env texts) (execute R g requester q job now)"
  unfolding execute_def build_request_bundle_def new_bundle_def diagnostic_run_def publish_report_def complete_job_def
    pilot_sign_def Let_def
  by (intro poll_rules preserves_in_worker preserves_in_both texts_gateway texts_publish texts_reserve_run texts_record_runner)

lemma texts_recover: "preserves (on_env texts) (recover R g now)"
  unfolding recover_def recover_job_def by (intro poll_rules texts_execute)

lemma texts_safe_read: "preserves (on_env texts) (read_generation_safe R room)"
  unfolding read_generation_safe_def Let_def by (intro poll_rules)

lemma texts_service:
  "preserves (on_env texts) (poll_discovery_room R g now room)"
  "preserves (on_env texts) (poll_mailbox R g now room)"
  unfolding poll_discovery_room_def poll_query_def poll_mailbox_def poll_request_def pilot_sign_def Let_def
  by (intro poll_rules texts_safe_read preserves_in_worker preserves_in_gateway texts_gateway texts_accept texts_execute)+

section \<open>Engagement\<close>

lemma preserves_lift_result: "(\<And>a. r = Inr a \<Longrightarrow> preserves I (f a)) \<Longrightarrow> preserves I (bindS (liftS r) f)"
  by (cases r) (auto simp: preserves_def bindS_def liftS_def)

text \<open>A target that numbers its records from 1, and a runtime with a plain HTTPS base URL.\<close>

locale numbered_target =
  fixes T :: "'t pilot_target"
  assumes numbered: "tg_read_room (tp_ops T) room since limit t = (Inr rs, t') \<Longrightarrow> list_all (\<lambda>r. 0 < p_sequence r) rs"
begin

lemma texts_answer:
  assumes "ps_base_url (pc_service (pl_config R)) = ''https://'' @ host" and "host_ok host"
    and "op_sequence x = p_sequence r" and "0 < p_sequence r"
  shows "preserves (on_env texts) (answer_opportunity R now room generation r x)"
proof -
  have send: "preserves (on_env texts) (bindS (liftS (reply_text x (''https://'' @ host))) (\<lambda>response.
      bindS (in_worker (send_text (tp_ops (pl_target R)) (guarded_signer (pl_signer R)) key ''rosetta-engagement'' room response)) f))"
    if "p_sequence r < 10 ^ 19" "\<And>a. preserves (on_env texts) (f a)" for key and f :: "protocol_record \<Rightarrow> (_, int) op"
    using that(2) by (intro preserves_lift_result preserves_bindS preserves_in_worker texts_send disjI2 reply_text_valid [OF _ assms(2)])
      (use assms(3,4) that(1) in auto)
  show ?thesis unfolding answer_opportunity_def Let_def pilot_sign_def assms(1)
  proof (rule preserves_bind_result [where Q = "\<lambda>_. p_sequence r < 10 ^ 19"])
    show "p_sequence r < 10 ^ 19" if "in_state (reserve_engagement_reply room generation (p_sequence r) (p_did r) now
      (pg_replies (pc_engagement (pl_config R))) (pg_cooldown (pc_engagement (pl_config R)))) s = (Inr a, s')" for s a s'
      using in_state_Inr [OF that] reserved_bindable by blast
  qed (intro preserves_ifS preserves_basic send texts_in_state kept_reserve(3); assumption)+
qed

lemma texts_engage_room:
  assumes "ps_base_url (pc_service (pl_config R)) = ''https://'' @ host" and "host_ok host" and "pl_target R = T"
  shows "preserves (on_env texts) (engage_room R now room)"
proof -
  have one: "preserves (on_env texts) (engage_record R now room generation r)" if "0 < p_sequence r" for generation r
    unfolding engage_record_def using that
    by (intro poll_rules texts_answer [OF assms(1,2)]) (auto dest: classify_sequence)
  have all: "preserves (on_env texts) (mapS (engage_record R now room generation) rs)" if "list_all (\<lambda>r. 0 < p_sequence r) rs"
    for generation rs
    by (rule preserves_mapS_all) (use that one in \<open>auto simp: list_all_iff\<close>)
  show ?thesis unfolding engage_room_def
  proof (intro preserves_bindS [OF preserves_basic(4)] preserves_option preserves_prod preserves_basic
      preserves_bind_result [where Q = "list_all (\<lambda>r. 0 < p_sequence r)"] texts_in_target_ops)
    fix cursor p rs p' assume "in_target_ops (tg_read_room (tp_ops (pl_target R)) room cursor 100) p = (Inr rs, p')"
    from in_target_Inr [OF this] obtain t t' where "tg_read_room (tp_ops T) room cursor 100 t = (Inr rs, t')"
      using assms(3) by auto
    then show "list_all (\<lambda>r. 0 < p_sequence r) rs" by (rule numbered)
  next
    fix cursor stored_generation :: int and rs :: "protocol_record list" assume "list_all (\<lambda>r. 0 < p_sequence r) rs"
    then show "preserves (on_env texts) (bindS (in_target_ops (high_water (pl_target R) room)) (\<lambda>(last_seq, generation).
         ifS (generation \<noteq> stored_generation \<or> 100 < last_seq - cursor)
           (bindS (in_state (set_engagement_checkpoint room last_seq generation)) (\<lambda>_. retS 0))
           (bindS (mapS (engage_record R now room generation) rs) (\<lambda>counts. retS (sum_list counts)))))"
      by (intro preserves_bindS texts_in_target_ops preserves_prod preserves_ifS texts_in_state kept_jobs preserves_basic all)
  qed
qed

lemma texts_proactive:
  assumes "ps_base_url (pc_service (pl_config R)) = ''https://'' @ host" and "host_ok host"
  shows "preserves (on_env texts) (poll_proactive R now activation)"
proof -
  have send: "preserves (on_env texts) (bindS (liftS (proactive_text n (''https://'' @ host))) (\<lambda>message.
      bindS (in_worker (send_text (tp_ops (pl_target R)) (guarded_signer (pl_signer R)) key ''rosetta-engagement'' room message)) f))"
    if "\<And>a. preserves (on_env texts) (f a)" for n key room and f :: "protocol_record \<Rightarrow> (_, int) op"
    using that by (intro preserves_lift_result preserves_bindS preserves_in_worker texts_send disjI2 proactive_text_valid [OF _ assms(2)])
  have "preserves (on_env texts) (proactive_post R current activated policy slot ir)" for current activated policy slot ir
    unfolding proactive_post_def pilot_sign_def assms(1) by (intro poll_rules send)
  then show ?thesis unfolding poll_proactive_def Let_def by (intro poll_rules preserves_in_worker texts_gate)
qed

lemma texts_poll:
  assumes "ps_base_url (pc_service (pl_config R)) = ''https://'' @ host" and "host_ok host" and "pl_target R = T"
  shows "preserves (on_env texts) (poll_once R now)"
proof -
  have "preserves (on_env texts) (poll_campaign R current activation)" for current activation
    unfolding poll_campaign_def poll_engagement_def
    by (intro poll_rules preserves_in_worker texts_gate texts_engage_room [OF assms] texts_proactive [OF assms(1,2)])
  then show ?thesis unfolding poll_once_def Let_def
    by (intro poll_rules texts_presence texts_recover texts_service)
qed

end

section \<open>All commands\<close>

lemma texts_prepare_command: "preserves (on_env texts) (prepare R now)"
proof -
  have sign: "preserves (on_env texts) (in_worker (pilot_sign R q))" for q
    unfolding pilot_sign_def by (intro preserves_in_worker texts_sign)
  have "preserves (on_env texts) (prepared_announcement R crd digest msg)" for crd digest msg
    unfolding prepared_announcement_def sign_as_def in_state_def
    by (intro poll_rules sign preserves_in_worker texts_prepare disjI1) simp
  moreover have "preserves texts (build_service_card C P (pilot_sign R) a b did reg base_url baseline at)"
    for C P a b did reg base_url baseline at
    unfolding build_service_card_def pilot_sign_def by (intro texts_rules texts_sign)
  ultimately show ?thesis
    unfolding prepare_def assert_identity_def write_service_documents_def sign_as_def Let_def
    by (intro poll_rules sign preserves_in_worker)
qed

lemma texts_activate: "preserves (on_env texts) (activate R approved now)"
  unfolding activate_def activate_approved_def assert_identity_def send_approved_def announce_service_def apply_note_def confirm_note_def pilot_sign_def Let_def
  by (intro poll_rules preserves_in_worker preserves_in_both texts_sign texts_publish texts_gateway)

lemma texts_engagement_commands:
  "preserves (on_env texts) (prepare_engagement R)"
  "preserves (on_env texts) (activate_engagement R approved)"
  unfolding prepare_engagement_def activate_engagement_def fresh_activation_def start_room_def
  by (intro poll_rules)+

lemma texts_failure: "preserves (on_env texts) (record_poll_failure R e)"
  unfolding record_poll_failure_def by (intro poll_rules)

context numbered_target
begin

lemma texts_command:
  assumes "ps_base_url (pc_service (pl_config R)) = ''https://'' @ host" and "host_ok host" and "pl_target R = T"
  shows "preserves (on_env texts) (run_command R c)"
proof -
  have "preserves (on_env texts) (serve R confirmed n)" for confirmed n
    by (induction n arbitrary: confirmed)
      (auto intro!: preserves_basic preserves_bindS preserves_serve_turn texts_poll [OF assms] texts_in_target_ops texts_failure)
  then show ?thesis unfolding run_command_def
    by (cases c) (auto intro!: preserves_bindS preserves_basic texts_prepare_command texts_activate texts_engagement_commands texts_poll [OF assms])
qed

end

lemma http_numbered:
  assumes "client_read_room C L N c room since limit t = (Inr rs, t')"
  shows "list_all (\<lambda>r. 0 < p_sequence r) rs"
proof -
  obtain items where r: "0 \<le> since" "read_records C L room since items = Inr rs"
    using client_read_room_parts [OF assms] by blast
  from read_records_valid [OF r(2)] r(1) show ?thesis by (auto simp: list_all_iff)
qed

interpretation http_texts: numbered_target "http_target C L N c" for C L and N :: "'n network" and c
  by unfold_locales (auto simp: http_target_def client_ops_def dest: http_numbered)

text \<open>
  C35: Engagement speaks only in closed texts: whatever the public rooms contain and whatever command runs, with
  the HTTP client as target and a plain HTTPS base URL, every delivery that the pilot stores, and hence every
  message that it may send, for the actor \<open>rosetta-engagement\<close> passes the check of outbound texts, provided that
  this held before.
\<close>

theorem engagement_texts_closed:
  assumes "ps_base_url (pc_service (pl_config R)) = ''https://'' @ host" and "host_ok host"
    and "pl_target R = http_target C L N c"
    and "\<And>k d. delivery k (b_store (pw_env p)) = Some d \<Longrightarrow> dl_actor d = ''rosetta-engagement'' \<Longrightarrow> valid_outbound_text (dl_text d)"
    and "run_command R command p = (r, p')"
    and "delivery k (b_store (pw_env p')) = Some d" and "dl_actor d = ''rosetta-engagement''"
  shows "valid_outbound_text (dl_text d)"
proof -
  have "on_env texts p" using assms(4) by (auto simp: on_env_def texts_def delivery_def)
  from preservesE [OF http_texts.texts_command [OF assms(1-3)] assms(5) this] assms(6,7) show ?thesis
    by (auto simp: on_env_def texts_def delivery_def)
qed

definition demo_reply :: delivery_row where
  "demo_reply = \<lparr>dl_actor = ''rosetta-engagement'', dl_room = ''lobby'', dl_did = ''did:key:z6Mk'', dl_nonce = 1,
     dl_text = fill_template (hd proactive_templates) (card_url ''https://rosetta.example''), dl_signature = [],
     dl_status = Prepared, dl_sequence = None\<rparr>"

lemma engagement_texts_closed_witness:
  "\<exists>r p'. run_command (demo_pilot_runtime False (http_target demo_crypto plain_stdlib one_record_network demo_client)) (Activate [])
       \<lparr>pw_env = \<lparr>b_store = empty_store\<lparr>st_deliveries := [''k'' \<mapsto> demo_reply]\<rparr>, b_kill = False, e_signer = empty_nonce_store,
          e_target = \<lparr>cs_net = (), cs_generations = [], cs_last = []\<rparr>\<rparr>, pw_files = [], pw_ticks = 0, pw_stderr = []\<rparr> = (r, p')
     \<and> delivery ''k'' (b_store (pw_env p')) = Some demo_reply \<and> valid_outbound_text (dl_text demo_reply)"
proof -
  let ?R = "demo_pilot_runtime False (http_target demo_crypto plain_stdlib one_record_network demo_client)"
  let ?p = "\<lparr>pw_env = \<lparr>b_store = empty_store\<lparr>st_deliveries := [''k'' \<mapsto> demo_reply]\<rparr>, b_kill = False, e_signer = empty_nonce_store,
          e_target = \<lparr>cs_net = (), cs_generations = [], cs_last = []\<rparr>\<rparr>, pw_files = [], pw_ticks = 0, pw_stderr = []\<rparr>"
  have h: "host_ok ''rosetta.example''" by code_simp
  have v: "valid_outbound_text (dl_text demo_reply)" by code_simp
  have run: "run_command ?R (Activate []) ?p = (Inl (RuntimeError ''pilot_disabled''), ?p)"
    by (simp add: run_command_def activate_def demo_pilot_runtime_def demo_settings_def raiseS_if_def raiseS_def)
  have "valid_outbound_text (dl_text demo_reply)"
    by (rule engagement_texts_closed [OF _ h _ _ run, where k = "''k''"])
      (auto simp: demo_pilot_runtime_def demo_settings_def delivery_def demo_reply_def v [unfolded demo_reply_def, simplified] split: if_splits)
  then show ?thesis using run by (simp add: delivery_def)
qed

end
