(* ===== verification/Printing.thy ===== *)
theory Printing
  imports Evidence
begin

text \<open>
  Values that canonical JSON prints, and what printing one line to a file leaves
  there: text without control characters, which reads back as the normal form of
  the value both as bytes and as text.
\<close>

section \<open>Printable values\<close>

definition printable :: "pyval \<Rightarrow> bool" where
  "printable v = (succeeds (reject_noncanonical_numbers v) \<and> succeeds (dumps False v))"

lemma plain_printable: "plain v \<Longrightarrow> printable v"
  using plain_dumps [of v False] plain_accepted(1) [of v] by (auto simp: printable_def succeeds_iff)

lemma datetime_printable: "\<not> naive t \<Longrightarrow> in_range (instant t) \<Longrightarrow> printable (PDateTime t)"
  by (auto simp: printable_def succeeds_iff to_utc_def raise_if_def bindE_def)

lemma printable_items:
  "list_all (\<lambda>(k, v). printable v) kvs \<Longrightarrow> reject_items kvs = Inr () \<and> list_all (\<lambda>(k, r). succeeds r) (dumps_items False kvs)"
proof (induction kvs)
  case (Cons kv kvs)
  then show ?case by (cases kv) (auto simp: printable_def succeeds_iff)
qed simp

lemma printable_dict: "list_all (\<lambda>(k, v). printable v) kvs \<Longrightarrow> \<exists>b. canonical_json (PDict kvs) = Inr b"
proof -
  assume p: "list_all (\<lambda>(k, v). printable v) kvs"
  have "\<exists>ts. mapE (item_text False) (sort_key fst (dumps_items False kvs)) = Inr ts"
    by (rule mapE_succeeds) (use printable_items [OF p] in \<open>auto simp: list_all_iff item_text_def succeeds_iff\<close>)
  then show ?thesis using printable_items [OF p] by (auto simp: canonical_json_Inr join_dict_def)
qed

section \<open>Printed text\<close>

definition no_controls :: "string \<Rightarrow> bool" where
  "no_controls s = list_all (\<lambda>c. 32 \<le> code c) s"

lemma no_controls_append [simp]: "no_controls (s @ t) \<longleftrightarrow> no_controls s \<and> no_controls t"
  by (simp add: no_controls_def)

lemma no_controls_Cons: "no_controls (c # s) \<longleftrightarrow> 32 \<le> code c \<and> no_controls s"
  by (simp add: no_controls_def)

lemma no_controls_digits: "no_controls (dec_digits n)"
  using dec_digits_digits [of n] by (auto simp: no_controls_def list_all_iff is_ascii_digit_def code_def)

lemma no_controls_pad: "no_controls (pad k n)"
proof (induction k arbitrary: n)
  case (Suc k)
  have "32 \<le> code (digit_char (n mod 10))" by (simp add: code_def of_digit_char)
  with Suc show ?case by (simp add: no_controls_Cons) (simp add: no_controls_def)
qed (simp add: no_controls_def)

lemma no_controls_escape: "no_controls (escape_char a c)"
proof -
  have "list_all no_controls (map (escape_u) [0..<256])" by code_simp
  then have "no_controls (escape_u (code c))" using code_less [of c] by (auto simp: list_all_iff)
  moreover have "list_all (\<lambda>d. 32 \<le> code d) [CHR 0x22, CHR 0x5C, CHR ''n'', CHR ''r'', CHR ''t'', CHR ''f'', CHR ''b'']"
    by code_simp
  ultimately show ?thesis by (simp add: escape_char_def no_controls_def)
qed

lemma no_controls_quote: "no_controls (quote a s)"
proof -
  have "no_controls (concat (map (escape_char a) s))"
    using no_controls_escape by (induction s) (auto simp: no_controls_def)
  moreover have "no_controls [CHR 0x22]" by code_simp
  ultimately show ?thesis unfolding quote_def no_controls_append by blast
qed

lemma no_controls_join: "list_all no_controls ts \<Longrightarrow> no_controls (join '','' ts)"
proof (induction ts rule: induct_list012)
  case (3 x y zs)
  have "no_controls '',''" by code_simp
  with 3 show ?case by (auto simp: no_controls_def)
qed (simp_all add: no_controls_def)

lemma no_controls_brackets: "no_controls ''[''" "no_controls '']''" "no_controls ''{''" "no_controls ''}''" "no_controls '':''"
  "no_controls ''-''" "no_controls ''null''" "no_controls ''true''" "no_controls ''false''"
  by code_simp+

lemma no_controls_int: "dumps_int i = Inr t \<Longrightarrow> no_controls t"
  using no_controls_digits no_controls_brackets(6) by (auto simp: dumps_int_def str_int_def no_controls_Cons split: if_splits)

lemma no_controls_list:
  "dumps_list a vs = Inr ts \<Longrightarrow> (\<And>v t. v \<in> set vs \<Longrightarrow> dumps a v = Inr t \<Longrightarrow> no_controls t) \<Longrightarrow> list_all no_controls ts"
proof (induction vs arbitrary: ts)
  case (Cons v vs)
  then obtain t ts' where "dumps a v = Inr t" "dumps_list a vs = Inr ts'" "ts = t # ts'" by auto
  moreover from this have "list_all no_controls ts'" by (intro Cons.IH Cons.prems(2)) auto
  ultimately show ?case using Cons.prems(2) by auto
qed simp

lemma no_controls_items:
  assumes "mapE (item_text a) kvs = Inr ts" "\<And>k t. (k, Inr t) \<in> set kvs \<Longrightarrow> no_controls t"
  shows "list_all no_controls ts"
  using assms
proof (induction kvs arbitrary: ts)
  case (Cons kv kvs)
  from Cons.prems(1) obtain u ts' where u: "item_text a kv = Inr u" "ts = u # ts'" "mapE (item_text a) kvs = Inr ts'" by auto
  then obtain t where t: "snd kv = Inr t" "ts = (quote a (fst kv) @ '':'' @ t) # ts'" "mapE (item_text a) kvs = Inr ts'"
    by (auto simp: item_text_def)
  then have "no_controls t" using Cons.prems(2) [of "fst kv" t] by (metis list.set_intros(1) prod.collapse)
  then have "no_controls (quote a (fst kv) @ '':'' @ t)" unfolding no_controls_append using no_controls_quote no_controls_brackets(5) by blast
  with t Cons.IH [OF t(3)] Cons.prems(2) show ?case by auto
qed simp

lemma wf_list_iff: "wf_list vs \<longleftrightarrow> (\<forall>v \<in> set vs. wf_json v)"
  by (induction vs) auto

lemma no_controls_dumps: "wf_json v \<Longrightarrow> dumps a v = Inr t \<Longrightarrow> no_controls t"
proof (induction v arbitrary: t)
  case (PList vs)
  then obtain ts where ts: "dumps_list a vs = Inr ts" "t = ''['' @ join '','' ts @ '']''" by (auto simp: join_list_def)
  have "list_all no_controls ts" using PList by (intro no_controls_list [OF ts(1)]) (auto simp: wf_list_iff)
  then show ?case unfolding ts(2) no_controls_append using no_controls_join no_controls_brackets by blast
next
  case (PDict kvs)
  then obtain ts where ts: "mapE (item_text a) (sort_key fst (dumps_items a kvs)) = Inr ts" "t = ''{'' @ join '','' ts @ ''}''"
    by (auto simp: join_dict_def)
  have "list_all no_controls ts"
  proof (rule no_controls_items [OF ts(1)])
    fix k u assume "(k, Inr u) \<in> set (sort_key fst (dumps_items a kvs))"
    then obtain v where v: "(k, v) \<in> set kvs" "dumps a v = Inr u" by (auto simp: dumps_items_map)
    then have "wf_json v" using PDict.prems(1) by (auto simp: wf_items_iff)
    from PDict.IH [OF v(1) _ this v(2)] show "no_controls u" by (auto simp: snds.simps)
  qed
  then show ?case unfolding ts(2) no_controls_append using no_controls_join no_controls_brackets by blast
qed (auto simp: no_controls_quote no_controls_int no_controls_brackets)

lemma printed_line_reads_back:
  assumes "wf_json v" "canonical_json v = Inr b" "map_of t p = Some (b @ [CHR 0x0A])"
  shows "\<exists>s. read_text p t = Inr s \<and> loads s = Inr (norm v)"
proof -
  from assms(2) obtain s where s: "dumps False v = Inr s" "b = utf8 s" by (auto simp: canonical_json_Inr)
  have "utf8 [CHR 0x0A] = [CHR 0x0A]" by code_simp
  then have b: "b @ [CHR 0x0A] = utf8 (s @ [CHR 0x0A])" unfolding s(2) by (simp add: utf8_def)
  have "code CHR 0x0D < 32" by code_simp
  then have "CHR 0x0D \<notin> set (s @ [CHR 0x0A])"
    using no_controls_dumps [OF assms(1) s(1)] by (auto simp: no_controls_def list_all_iff)
  then have "read_text p t = Inr (s @ [CHR 0x0A])"
    using assms(3) b by (simp add: read_text_def read_bytes_def universal_newlines_id)
  moreover have "list_all is_ws [CHR 0x0A]" by code_simp
  ultimately show ?thesis using loads_dumps_ws [OF assms(1) s(1)] by blast
qed

lemma norm_list_map: "norm_list vs = map norm vs"
  by (induction vs) auto

lemma map_of_norm: "map_of (norm_items kvs) k = map_option norm (map_of kvs k)"
  by (induction kvs) auto

lemma map_of_printed:
  "distinct (map fst kvs) \<Longrightarrow> map_of (sort_key fst (norm_items kvs)) k = map_option norm (map_of kvs k)"
proof -
  assume "distinct (map fst kvs)"
  then have "distinct (map fst (norm_items kvs))" by (simp add: norm_items_map comp_def case_prod_unfold)
  from map_of_sort [OF this] show ?thesis by (simp add: map_of_norm)
qed

lemma mapE_member: "mapE f xs = Inr ys \<Longrightarrow> x \<in> set xs \<Longrightarrow> \<exists>y. f x = Inr y"
  by (induction xs arbitrary: ys) auto

lemma sorted_sort_id_key: "sorted (map f xs) \<Longrightarrow> sort_key f xs = xs"
  by (induction xs) (auto simp: insort_is_Cons)

section \<open>Printing what was read\<close>

lemma reject_items_iff: "reject_items kvs = Inr () \<longleftrightarrow> (\<forall>(k, v) \<in> set kvs. reject_noncanonical_numbers v = Inr ())"
  by (induction kvs) auto

lemma reject_list_iff: "reject_list vs = Inr () \<longleftrightarrow> (\<forall>v \<in> set vs. reject_noncanonical_numbers v = Inr ())"
  by (induction vs) auto

lemma dumps_list_iff: "dumps_list a vs = Inr ts \<longleftrightarrow> list_all2 (\<lambda>v t. dumps a v = Inr t) vs ts"
proof (induction vs arbitrary: ts)
  case (Cons v vs)
  then show ?case by (cases ts) auto
qed auto

text \<open>A normal form prints as the value does.\<close>

definition prints_same :: "bool \<Rightarrow> pyval \<Rightarrow> bool" where
  "prints_same a v = (\<forall>t. dumps a v = Inr t \<longrightarrow> dumps a (norm v) = Inr t \<and> reject_noncanonical_numbers (norm v) = Inr ())"

lemma norm_prints: "wf_json v \<Longrightarrow> prints_same a v"
proof (induction v)
  case (PList vs)
  then have e: "\<forall>v \<in> set vs. prints_same a v" by (auto simp: wf_list_iff)
  have "dumps_list a (norm_list vs) = Inr ts \<and> reject_list (norm_list vs) = Inr ()" if "dumps_list a vs = Inr ts" for ts
    using that e unfolding dumps_list_iff norm_list_map reject_list_iff
  proof (induction rule: list_all2_induct)
    case (Cons v vs t ts)
    then show ?case by (auto simp: prints_same_def)
  qed simp
  then show ?case by (auto simp: prints_same_def join_list_def)
next
  case (PDict kvs)
  then have e: "\<forall>(k, v) \<in> set kvs. prints_same a v" by (fastforce simp: wf_items_iff)
  show ?case unfolding prints_same_def
  proof (intro allI impI)
    fix t assume t: "dumps a (PDict kvs) = Inr t"
    let ?s = "sort_key fst kvs"
    from t obtain ts where ts: "mapE (item_text a) (map (\<lambda>(k, v). (k, dumps a v)) ?s) = Inr ts" "t = ''{'' @ join '','' ts @ ''}''"
      by (auto simp: join_dict_def dumps_items_map sort_map_key)
    have each: "dumps a (norm v) = dumps a v \<and> reject_noncanonical_numbers (norm v) = Inr ()" if "(k, v) \<in> set kvs" for k v
    proof -
      have "(k, dumps a v) \<in> set (map (\<lambda>(k, v). (k, dumps a v)) ?s)" using that by force
      then obtain y where "item_text a (k, dumps a v) = Inr y" using mapE_member [OF ts(1)] by blast
      then obtain u where "dumps a v = Inr u" by (auto simp: item_text_def)
      then show ?thesis using e that by (auto simp: prints_same_def)
    qed
    have sorted: "sort_key fst (norm_items kvs) = map (\<lambda>(k, v). (k, norm v)) ?s" by (simp add: norm_items_map sort_map_key)
    have m: "map (\<lambda>(k, v). (k, dumps a v)) (map (\<lambda>(k, v). (k, norm v)) ?s) = map (\<lambda>(k, v). (k, dumps a v)) ?s"
      using each by auto
    have s: "sort_key fst (map (\<lambda>(k, v). (k, dumps a v)) ?s) = map (\<lambda>(k, v). (k, dumps a v)) ?s"
      by (rule sorted_sort_id_key) (simp add: case_prod_unfold comp_def)
    have "dumps a (norm (PDict kvs)) = Inr t"
      by (simp only: norm.simps sorted dumps.simps dumps_items_map join_dict_def m s ts bindE_simps)
    moreover have "reject_noncanonical_numbers (norm (PDict kvs)) = Inr ()"
      using each by (auto simp: reject_items_iff norm_items_map)
    ultimately show "dumps a (norm (PDict kvs)) = Inr t \<and> reject_noncanonical_numbers (norm (PDict kvs)) = Inr ()" ..
  qed
next
  case (PDateTime t)
  then show ?case by (auto simp: prints_same_def to_utc_Inr)
qed (auto simp: prints_same_def)

lemma canonical_norm: "wf_json v \<Longrightarrow> canonical_json v = Inr b \<Longrightarrow> canonical_json (norm v) = Inr b"
  using norm_prints [of v False] by (auto simp: canonical_json_Inr prints_same_def)

section \<open>Fields read back\<close>

text \<open>Dates are read to the second, as they were printed.\<close>

definition to_second :: "int \<Rightarrow> int" where
  "to_second w = w - w mod us_per_second"

lemma to_second_parts:
  "0 \<le> w \<Longrightarrow> to_second w div us_per_day = w div us_per_day \<and> to_second w mod us_per_day div us_per_second = w mod us_per_day div us_per_second
    \<and> 0 \<le> to_second w \<and> to_second w \<le> w"
proof -
  assume w: "0 \<le> w"
  have s: "0 < us_per_second" by (simp add: us_per_second_def)
  have d: "us_per_day = us_per_second * 86400" by (simp add: us_per_day_def us_per_second_def)
  have q: "to_second w div us_per_second = w div us_per_second" "to_second w mod us_per_second = 0"
    using s by (simp_all add: to_second_def minus_mod_eq_mult_div)
  have m: "x mod us_per_day div us_per_second = x div us_per_second mod 86400" for x :: int
    unfolding d using s by (simp add: zmod_zmult2_eq)
  have "to_second w div us_per_day = w div us_per_day" unfolding d using q by (simp add: zdiv_zmult2_eq)
  moreover have "0 \<le> to_second w" "to_second w \<le> w" using w s by (simp_all add: to_second_def zmod_le_nonneg_dividend)
  ultimately show ?thesis using q m by simp
qed

lemma iso_seconds_to_second: "0 \<le> w \<Longrightarrow> iso_seconds_z (utc_at (to_second w)) = iso_seconds_z (utc_at w)"
  using to_second_parts [of w] by (simp add: iso_seconds_z_def day_no_def second_no_def)

lemma in_range_to_second: "in_range w \<Longrightarrow> in_range (to_second w)"
  using to_second_parts [of w] by (auto simp: in_range_def)

definition reads_date :: "pydantic \<Rightarrow> datetime \<Rightarrow> bool" where
  "reads_date P t = (pyd_datetime P (PStr (iso_seconds_z t)) = Some (utc_at (to_second (instant t))))"

lemma literal_Inr: "literal xs v = Inr s \<longleftrightarrow> v = Some (PStr s) \<and> s \<in> set xs"
  by (auto simp: literal_def invalid_def split: option.splits pyval.splits)

lemma strict_str_Inr: "strict_str v = Inr s \<longleftrightarrow> v = Some (PStr s)"
  by (auto simp: strict_str_def invalid_def split: option.splits pyval.splits)

lemma immutable_sha: "crypto_ok C \<Longrightarrow> immutable_digest (prefixed_digest C b)"
  using sha256_hex_lower [of C b] by (simp add: immutable_digest_def prefixed_digest_def starts_with_def remove_prefix_def)

lemma line_parses_back:
  "wf_json v \<Longrightarrow> canonical_json v = Inr b \<Longrightarrow> f (norm v) = Inr x \<Longrightarrow> parse_raw f (b @ [CHR 0x0A]) = Inr x"
  by (simp add: parse_raw_def canonical_line_reads_back)

end
