(* ===== verification/Pilot_Behaviour.thy ===== *)
theory Pilot_Behaviour
  imports Pilot_Texts Printing
begin

text \<open>
  What the pilot service does: activation follows the approved preview, one
  poll adds at most one delivery for the presence of the service, and the
  service loop outlives every failure of a poll.
\<close>

section \<open>Approval\<close>

text \<open>What an unapproved activation may change: the signer's state and the clock, no file and nothing of the target.\<close>

definition untouched :: "('x, 't) pilot_world \<Rightarrow> ('x, 't) pilot_world \<Rightarrow> bool" where
  "untouched p q = (pw_files q = pw_files p \<and> e_target (pw_env q) = e_target (pw_env p) \<and> b_kill (pw_env q) = b_kill (pw_env p)
     \<and> b_store (pw_env q) = b_store (pw_env p))"

lemma untouched_steps:
  "preserves (untouched p) (current_time R now)"
  "preserves (untouched p) (assert_identity R)"
  by (auto simp: preserves_def untouched_def current_time_def next_tick_def assert_identity_def in_worker_def pilot_sign_def
      guarded_signer_def guarded_sign_def in_signer_def bindS_def raiseS_if_def gate_require_def require_operational_def
      split: option.splits prod.splits sum.splits)

lemma identity_open: "assert_identity R p = (Inr u, q) \<Longrightarrow> \<not> b_kill (pw_env p)"
  by (auto simp: assert_identity_def in_worker_def pilot_sign_def guarded_signer_def guarded_sign_def split: prod.splits)

lemma read_state [simp]: "snd (read_file path p) = p" "snd (read_json path p) = p"
  by (auto simp: read_file_def read_json_def bindS_def liftS_def split: sum.splits)

lemma reads_only:
  "(\<And>v. preserves (\<lambda>q. q = p) (f v)) \<Longrightarrow> preserves (\<lambda>q. q = p) (bindS (read_file path) f)"
  "(\<And>v. preserves (\<lambda>q. q = p) (g v)) \<Longrightarrow> preserves (\<lambda>q. q = p) (bindS (read_json path) g)"
  by (intro preserves_bindS; simp add: preserves_def)+

lemma load_prepared_Inr:
  assumes "load_prepared R p = (Inr (preview, digest), q)"
  shows "bindE (read_bytes (preview_path R) (pw_files p)) loads_bytes = Inr (PDict preview)
    \<and> digest_of (pl_crypto R) (PDict preview) = Inr digest"
proof -
  obtain v u where v: "read_json (preview_path R) p = (Inr v, u)"
    using assms by (auto simp: load_prepared_def bindS_def split: prod.splits sum.splits)
  have "bindE (read_bytes (preview_path R) (pw_files p)) loads_bytes = Inr v"
    using v by (auto simp: read_json_def read_file_def bindS_def liftS_def bindE_def split: sum.splits)
  then show ?thesis using assms v by (cases v) (auto simp: load_prepared_def raiseS_if_eq_Inr)
qed

lemma load_prepared_state: "snd (load_prepared R p) = p"
proof -
  have "preserves (\<lambda>q. q = p) (case v of PDict kvs \<Rightarrow>
       raiseS_if (map_of kvs ''schema'' \<noteq> Some (PStr ''rosetta.pilot-activation-preview.v2''))
         (ValueError ''invalid activation preview'')
       (bindS (liftS (digest_of (pl_crypto R) v)) (\<lambda>digest. retS (kvs, digest)))
   | _ \<Rightarrow> raiseS (ValueError ''invalid activation preview''))" for v
    by (cases v) (auto intro!: preserves_raiseS_if preserves_bindS preserves_basic)
  then have "preserves (\<lambda>q. q = p) (load_prepared R)" unfolding load_prepared_def by (intro reads_only)
  then show ?thesis by (simp add: preserves_def)
qed

lemma load_card_state: "snd (load_card R now p) = p"
proof -
  have "preserves (\<lambda>q. q = p) (load_card R now)"
    unfolding load_card_def by (intro reads_only preserves_bindS preserves_raiseS_if preserves_basic)
  then show ?thesis by (simp add: preserves_def)
qed

lemma load_card_did: "load_card R now p = (Inr (crd, attestation), q) \<Longrightarrow> card_did crd = pi_did (pc_identity (pl_config R))"
  by (auto simp: load_card_def raiseS_if_eq_Inr)

text \<open>Activation stops before its first effect, or it has an approved preview and a card of the configured identity.\<close>

definition after_identity ::
  "('x, 't) pilot_runtime \<Rightarrow> string \<Rightarrow> datetime \<Rightarrow> (('x, 't) pilot_world, pyval) op" where
  "after_identity R approved current =
      bindS (load_prepared R) (\<lambda>(preview, digest).
      raiseS_if (approved \<noteq> digest) (RuntimeError ''activation approval digest mismatch'')
      (bindS (load_card R current) (\<lambda>(crd, attestation).
       activate_approved R preview digest current crd attestation)))"

lemma after_identity_cases:
  assumes "after_identity R approved current p = (r, p')"
  obtains e where "p' = p" "r = Inl e"
  | preview crd attestation where "bindE (read_bytes (preview_path R) (pw_files p)) loads_bytes = Inr (PDict preview)"
      and "digest_of (pl_crypto R) (PDict preview) = Inr approved"
      and "card_did crd = pi_did (pc_identity (pl_config R))"
      and "activate_approved R preview approved current crd attestation p = (r, p')"
  using assms unfolding after_identity_def
proof (cases rule: bindS_cases)
  case (1 e)
  then show thesis using that(1) load_prepared_state [of R p] by simp
next
  case (2 pd q)
  obtain preview digest where pd: "pd = (preview, digest)" by (cases pd)
  have q: "q = p" using load_prepared_state [of R p] 2(1) by simp
  note stored = load_prepared_Inr [OF 2(1) [unfolded pd]]
  show thesis
  proof (cases "approved = digest")
    case False
    then show thesis using 2(2) pd q that(1) by (auto simp: raiseS_if_def raiseS_def)
  next
    case True
    from 2(2) have "bindS (load_card R current) (\<lambda>(crd, attestation).
        activate_approved R preview approved current crd attestation) p = (r, p')"
      using pd q True by (simp add: raiseS_if_def)
    then show thesis
    proof (cases rule: bindS_cases)
      case (1 e)
      then show thesis using that(1) load_card_state [of R current p] by simp
    next
      case (2 ca u)
      obtain crd attestation where ca: "ca = (crd, attestation)" by (cases ca)
      have "u = p" using load_card_state [of R current p] 2(1) by simp
      then show thesis using that(2) [of preview crd attestation] stored True 2 load_card_did [OF 2(1) [unfolded ca]] ca by simp
    qed
  qed
qed

lemma activation_cases:
  assumes "activate R approved now p = (r, p')"
  obtains e where "untouched p p'" "r = Inl e"
  | q preview current crd attestation where "ps_enabled (pc_service (pl_config R))" and "\<not> b_kill (pw_env p)" and "untouched p q"
      and "bindE (read_bytes (preview_path R) (pw_files p)) loads_bytes = Inr (PDict preview)"
      and "digest_of (pl_crypto R) (PDict preview) = Inr approved"
      and "card_did crd = pi_did (pc_identity (pl_config R))"
      and "activate_approved R preview approved current crd attestation q = (r, p')"
proof (cases "ps_enabled (pc_service (pl_config R))")
  case False
  then have "p' = p \<and> (\<exists>e. r = Inl e)" using assms by (auto simp: activate_def raiseS_if_def raiseS_def)
  then show thesis using that(1) by (auto simp: untouched_def)
next
  case True
  have start: "untouched p p" by (simp add: untouched_def)
  from assms True have "bindS (current_time R now) (\<lambda>current. bindS (assert_identity R) (\<lambda>_. after_identity R approved current)) p = (r, p')"
    by (simp add: activate_def raiseS_if_def after_identity_def)
  then show thesis
  proof (cases rule: bindS_cases)
    case (1 e)
    then show thesis using that(1) preservesE [OF untouched_steps(1) 1(1) start] by simp
  next
    case (2 current p1)
    have u1: "untouched p p1" using preservesE [OF untouched_steps(1) 2(1) start] .
    from 2(2) show thesis
    proof (cases rule: bindS_cases)
      case (1 e)
      then show thesis using that(1) preservesE [OF untouched_steps(2) 1(1) u1] by simp
    next
      case (2 u p2)
      have u2: "untouched p p2" using preservesE [OF untouched_steps(2) 2(1) u1] .
      have k: "\<not> b_kill (pw_env p)" using identity_open [OF 2(1)] u1 by (simp add: untouched_def)
      have files: "pw_files p2 = pw_files p" using u2 by (simp add: untouched_def)
      from 2(2) show thesis
      proof (cases rule: after_identity_cases)
        case (1 e)
        then show thesis using that(1) u2 by simp
      next
        case (2 preview crd attestation)
        show thesis by (rule that(2) [OF True k u2 2(1) [unfolded files] 2(2-4)])
      qed
    qed
  qed
qed
lemma py_eq_text: "py_eq L v (PStr s) \<longleftrightarrow> v = PStr s"
  by (cases v) auto

lemma field_is_text: "field_is L kvs k (PStr s) \<longleftrightarrow> map_of kvs k = Some (PStr s)"
  by (auto simp: field_is_def py_eq_text split: option.splits)

lemma validated_note_path:
  assumes "validated_note_entry L entry purpose namespace crd if_absent = Inr body"
  shows "map_of (entries_of entry) ''path'' = Some (PStr (note_write_path namespace (card_service_room crd)))
    \<and> map_of (entries_of entry) ''body'' = Some (PDict body) \<and> map_of body ''did'' = Some (PStr (card_did crd))
    \<and> map_of body ''value'' = Some (PStr (card_did crd))"
proof -
  obtain kvs where e: "entry = PDict kvs" using assms by (cases entry) (auto simp: validated_note_entry_def)
  from assms obtain v where v: "map_of kvs ''body'' = Some v" "map_of kvs ''path'' = Some (PStr (note_write_path namespace (card_service_room crd)))"
    unfolding validated_note_entry_def e by (cases "map_of kvs ''body''") (auto simp: Let_def raise_if_eq_Inr)
  with assms obtain b where b: "v = PDict b" unfolding validated_note_entry_def e by (cases v) (auto simp: Let_def raise_if_eq_Inr)
  from assms show ?thesis unfolding validated_note_entry_def e by (auto simp: Let_def raise_if_eq_Inr v b entries_of_def)
qed

lemma checked_writes_Inr:
  assumes "checked_writes R crd attestation preview s = Inr (claim_body, allow_body)"
  shows "\<exists>claim allow announced. map_of preview ''writes'' = Some (PList [claim, allow, announced])
    \<and> validated_note_entry (pl_stdlib R) claim ''claim_service_room'' ''room-owners'' crd True = Inr claim_body
    \<and> validated_note_entry (pl_stdlib R) allow ''allow_service_identity'' ''room-allow'' crd False = Inr allow_body
    \<and> map_of preview ''authority'' = Some (PStr (pt_authority (pc_technocore (pl_config R))))
    \<and> map_of preview ''public_base_url'' = Some (PStr (ps_base_url (pc_service (pl_config R))))
    \<and> map_of preview ''service_room'' = Some (PStr (card_service_room crd))"
proof -
  obtain v where v: "map_of preview ''writes'' = Some v" using assms by (cases "map_of preview ''writes''") (auto simp: checked_writes_def)
  then obtain vs where vs: "v = PList vs" using assms by (cases v) (auto simp: checked_writes_def)
  with v assms obtain claim allow announced where w: "vs = [claim, allow, announced]"
    by (auto simp: checked_writes_def split: list.splits)
  show ?thesis using assms v unfolding vs w
    by (auto simp: checked_writes_def Let_def raise_if_eq_Inr same_metadata_def field_is_text)
qed

text \<open>
  C34: Activation follows the approved preview or does nothing: a call either raises and leaves every file, the
  store and the public target as they were, or the service is enabled, the kill switch is off and the approved
  digest is the digest of the preview on disk; and a call that returns has taken its authority, its address
  and its service room from that preview, whose two notes name the configured identity and that room.
\<close>

theorem activation_follows_approval:
  assumes "activate R approved now p = (r, p')"
  shows "(pw_files p' = pw_files p \<and> b_store (pw_env p') = b_store (pw_env p) \<and> e_target (pw_env p') = e_target (pw_env p) \<and> (\<exists>e. r = Inl e))
    \<or> (ps_enabled (pc_service (pl_config R)) \<and> \<not> b_kill (pw_env p) \<and> (\<exists>preview.
         bindE (read_bytes (preview_path R) (pw_files p)) loads_bytes = Inr (PDict preview)
         \<and> digest_of (pl_crypto R) (PDict preview) = Inr approved
         \<and> (case r of Inl _ \<Rightarrow> True | Inr _ \<Rightarrow> \<exists>room claim allow announced.
              map_of preview ''authority'' = Some (PStr (pt_authority (pc_technocore (pl_config R))))
              \<and> map_of preview ''public_base_url'' = Some (PStr (ps_base_url (pc_service (pl_config R))))
              \<and> map_of preview ''service_room'' = Some (PStr room)
              \<and> map_of preview ''writes'' = Some (PList [claim, allow, announced])
              \<and> map_of (entries_of claim) ''path'' = Some (PStr (note_write_path ''room-owners'' room))
              \<and> map_of (entries_of allow) ''path'' = Some (PStr (note_write_path ''room-allow'' room))
              \<and> (\<forall>w \<in> {claim, allow}. \<exists>body. map_of (entries_of w) ''body'' = Some (PDict body)
                    \<and> map_of body ''did'' = Some (PStr (pi_did (pc_identity (pl_config R))))
                    \<and> map_of body ''value'' = Some (PStr (pi_did (pc_identity (pl_config R))))))))"
  using assms
proof (cases rule: activation_cases)
  case (1 e)
  then show ?thesis by (simp add: untouched_def)
next
  case (2 q preview current crd attestation)
  show ?thesis
  proof (cases r)
    case (Inl e)
    then show ?thesis using 2 by auto
  next
    case (Inr v)
    obtain s claim_body allow_body where "checked_writes R crd attestation preview s = Inr (claim_body, allow_body)"
      using 2(7) unfolding Inr activate_approved_def by auto
    from checked_writes_Inr [OF this] obtain claim allow announced where
      c: "map_of preview ''writes'' = Some (PList [claim, allow, announced])"
        "map_of preview ''authority'' = Some (PStr (pt_authority (pc_technocore (pl_config R))))"
        "map_of preview ''public_base_url'' = Some (PStr (ps_base_url (pc_service (pl_config R))))"
        "map_of preview ''service_room'' = Some (PStr (card_service_room crd))"
      and n: "validated_note_entry (pl_stdlib R) claim ''claim_service_room'' ''room-owners'' crd True = Inr claim_body"
        "validated_note_entry (pl_stdlib R) allow ''allow_service_identity'' ''room-allow'' crd False = Inr allow_body"
      by blast
    from validated_note_path [OF n(1)] validated_note_path [OF n(2)] c 2(6) 2(1,2,4,5) show ?thesis
      by (intro disjI2 conjI exI [of _ preview]) (auto simp: Inr)
  qed
qed

lemma activation_follows_approval_witness:
  "\<exists>e. activate (demo_pilot_runtime False (http_target demo_crypto plain_stdlib (logged one_record_network) demo_client)) [] None
       (demo_pilot_world False empty_store) = (Inl e, demo_pilot_world False empty_store)"
proof -
  let ?R = "demo_pilot_runtime False (http_target demo_crypto plain_stdlib (logged one_record_network) demo_client)"
  let ?p = "demo_pilot_world False empty_store"
  obtain r p' where run: "activate ?R [] None ?p = (r, p')" by fastforce
  then have "p' = ?p" by (auto simp: activate_def demo_pilot_runtime_def demo_settings_def raiseS_if_def raiseS_def)
  moreover have "\<not> ps_enabled (pc_service (pl_config ?R))" by (simp add: demo_pilot_runtime_def demo_settings_def)
  ultimately show ?thesis using activation_follows_approval [OF run] run by blast
qed

section \<open>Presence\<close>

definition deliveries :: "('x, 't) pilot_world \<Rightarrow> string \<Rightarrow> delivery_row option" where
  "deliveries p = st_deliveries (b_store (pw_env p))"

text \<open>Methods that change no delivery, and methods that change at most one.\<close>

definition changes_none :: "(('x, 't) pilot_world, 'a) op \<Rightarrow> bool" where
  "changes_none m = (\<forall>p. deliveries (snd (m p)) = deliveries p)"

definition changes_one :: "(('x, 't) pilot_world, 'a) op \<Rightarrow> bool" where
  "changes_one m = (\<forall>p. \<exists>key. \<forall>k. k \<noteq> key \<longrightarrow> deliveries (snd (m p)) k = deliveries p k)"

lemma changes_none_iff: "changes_none m \<longleftrightarrow> (\<forall>D. preserves (\<lambda>p. deliveries p = D) m)"
  by (auto simp: changes_none_def preserves_def)

lemma changes_none_one: "changes_none m \<Longrightarrow> changes_one m"
  by (simp add: changes_none_def changes_one_def)

lemma changes_none_basic:
  "changes_none (retS a)" "changes_none (liftS r)"
  "same_deliveries f \<Longrightarrow> changes_none (in_state f)" "changes_none (in_target_ops g)"
  by (auto simp: changes_none_def deliveries_def retS_def liftS_def in_state_def in_worker_def in_store_def same_deliveries_def
      in_target_ops_def in_target_def split: prod.splits) (metis snd_conv)

lemma changes_one_first: "changes_none m \<Longrightarrow> (\<And>a. changes_one (f a)) \<Longrightarrow> changes_one (bindS m f)"
  by (simp add: changes_none_def changes_one_def bindS_def split: prod.splits sum.splits) (metis snd_conv)

lemma changes_one_last: "changes_one m \<Longrightarrow> (\<And>a. changes_none (f a)) \<Longrightarrow> changes_one (bindS m f)"
  by (simp add: changes_none_def changes_one_def bindS_def split: prod.splits sum.splits) (metis snd_conv)

lemma changes_one_cases:
  "changes_one m \<Longrightarrow> changes_one n \<Longrightarrow> changes_one (ifS b m n)"
  "changes_one m \<Longrightarrow> (\<And>a. changes_one (f a)) \<Longrightarrow> changes_one (case x of None \<Rightarrow> m | Some a \<Rightarrow> f a)"
  "(\<And>a b. changes_one (g a b)) \<Longrightarrow> changes_one (case y of (a, b) \<Rightarrow> g a b)"
  by (simp_all add: ifS_def split: option.splits prod.splits)

definition only_key :: "string \<Rightarrow> (string \<Rightarrow> delivery_row option) \<Rightarrow> ('x, 't) env \<Rightarrow> bool" where
  "only_key key D w = (\<forall>k. k \<noteq> key \<longrightarrow> st_deliveries (b_store w) k = D k)"

lemma only_key_basic:
  "preserves (only_key key D) (gate_require c)"
  "preserves (only_key key D) (guarded_signer raw q)"
  "preserves (only_key key D) (in_store (prepare_delivery key actor room did n msg sig))"
  "preserves (only_key key D) (in_store (confirm_delivery key n))"
  "preserves (only_key key D) (in_target f)"
  by (auto simp: preserves_def only_key_def gate_require_def require_operational_def guarded_signer_def guarded_sign_def in_signer_def
      in_store_def prepare_delivery_def confirm_delivery_def in_target_def bindS_def split: prod.splits sum.splits option.splits)

lemma only_key_send: "preserves (only_key key D) (send_body T (guarded_signer raw) key actor room body)"
  unfolding send_body_def by (intro preserves_bindS preserves_basic preserves_send_text only_key_basic)

lemma in_worker_changes_one:
  fixes f :: "(('x, 't) env, 'a) op"
  assumes "\<And>w :: ('x, 't) env. \<exists>key. preserves (only_key key (st_deliveries (b_store w))) f"
  shows "changes_one (in_worker f)"
proof -
  have "\<exists>key. \<forall>k. k \<noteq> key \<longrightarrow> deliveries (snd (in_worker f p)) k = deliveries p k" for p
  proof -
    obtain key where "preserves (only_key key (st_deliveries (b_store (pw_env p)))) f" using assms by blast
    from preservesD [OF this, of "pw_env p"] show ?thesis
      by (intro exI [of _ key]) (auto simp: only_key_def deliveries_def in_worker_def split: prod.splits)
  qed
  then show ?thesis by (simp add: changes_one_def)
qed

lemma gateway_changes_one:
  "changes_one (in_worker (restore_announcement T (guarded_signer raw) str g generation))"
  "changes_one (in_worker (announce_presence T (guarded_signer raw) str g generation slot))"
proof -
  have key: "\<exists>key. preserves (only_key key D) (bindS (gate_require c) (\<lambda>_. raiseS_if b e (bindS (liftS (card_digest g)) (\<lambda>d. m d))))"
    if each: "\<And>d. card_digest g = Inr d \<Longrightarrow> \<exists>key. \<forall>D. preserves (only_key key D) (m d)" for D c b e and m :: "pyval \<Rightarrow> (('x, 't) env, protocol_record) op"
  proof (cases "card_digest g")
    case (Inl e)
    then show ?thesis by (intro exI preserves_bindS [OF only_key_basic(1)] preserves_raiseS_if preserves_lift_result) simp
  next
    case (Inr d)
    then obtain key where "\<forall>D. preserves (only_key key D) (m d)" using each by blast
    then show ?thesis using Inr
      by (intro exI [of _ key] preserves_bindS [OF only_key_basic(1)] preserves_raiseS_if preserves_lift_result) auto
  qed
  have sent: "\<exists>key. \<forall>D. preserves (only_key key D) (bindS (liftS r) (send_body T (guarded_signer raw) k actor room))"
    "\<exists>key. \<forall>D. preserves (only_key key D) (send_body T (guarded_signer raw) k actor room body)" for r k actor room body
    by (intro exI [of _ k] allI preserves_bindS preserves_basic only_key_send)+
  show "changes_one (in_worker (restore_announcement T (guarded_signer raw) str g generation))"
    "changes_one (in_worker (announce_presence T (guarded_signer raw) str g generation slot))"
    unfolding restore_announcement_def announce_presence_def by (intro in_worker_changes_one key sent)+
qed

lemma presence_changes_one: "changes_one (maintain_service_presence R g crd now)"
proof -
  have send: "changes_one (send_presence R g crd now observed threshold kind)"
    "changes_one (restore_presence R g crd now observed)" for observed threshold kind
    unfolding send_presence_def restore_presence_def pilot_sign_def
    by (intro changes_one_last gateway_changes_one changes_none_basic kept_jobs)+
  have refresh: "changes_one (refresh_presence R g crd now observed own last_sent)" for observed own last_sent
    unfolding refresh_presence_def
    by (intro changes_one_first changes_none_basic changes_one_cases send changes_none_one)
  show ?thesis unfolding maintain_service_presence_def Let_def
    by (intro changes_one_first changes_none_basic changes_one_cases kept_jobs send refresh)
qed

text \<open>
  C37: A poll writes at most once for the presence of the service, as the approved preview promises: maintaining
  the presence prepares or confirms at most one delivery and leaves all others alone, whatever the room
  contains, whatever generation it has and however the target and the signer behave.
\<close>

theorem presence_writes_at_most_one:
  assumes "maintain_service_presence R g crd now p = (r, p')"
  shows "\<exists>key. \<forall>k. k \<noteq> key \<longrightarrow> delivery k (b_store (pw_env p')) = delivery k (b_store (pw_env p))"
  using presence_changes_one [of R g crd now] assms unfolding changes_one_def deliveries_def delivery_def by (metis snd_conv)

lemma presence_writes_at_most_one_witness:
  "\<exists>r p' key. maintain_service_presence (demo_pilot_runtime True (http_target demo_crypto plain_stdlib (logged one_record_network) demo_client))
       demo_gateway (gw_card demo_gateway) demo_now (demo_pilot_world False empty_store) = (r, p')
     \<and> (\<forall>k. k \<noteq> key \<longrightarrow> delivery k (b_store (pw_env p')) = None)"
proof -
  let ?R = "demo_pilot_runtime True (http_target demo_crypto plain_stdlib (logged one_record_network) demo_client)"
  obtain r p' where run: "maintain_service_presence ?R demo_gateway (gw_card demo_gateway) demo_now (demo_pilot_world False empty_store) = (r, p')"
    by fastforce
  from presence_writes_at_most_one [OF run] run show ?thesis
    by (auto simp: demo_pilot_world_def delivery_def empty_store_def)
qed

section \<open>The service loop\<close>

text \<open>A clock whose readings can be printed.\<close>

definition good_clock :: "(nat \<Rightarrow> datetime) \<Rightarrow> bool" where
  "good_clock clk = (\<forall>n. \<not> naive (clk n) \<and> in_range (instant (clk n)))"

lemma degraded_health: "\<not> naive t \<Longrightarrow> in_range (instant t) \<Longrightarrow>
    \<exists>b. canonical_json (health_document R ''degraded'' t no_counts (Some (''pilot_poll_failed'', name))) = Inr b"
  unfolding health_document_def Let_def
  by (rule printable_dict) (simp add: counts_dict_def no_counts_def plain_printable datetime_printable)

text \<open>The health document on disk, with its status.\<close>

definition health_on_disk :: "('x, 't) pilot_runtime \<Rightarrow> ('x, 't) pilot_world \<Rightarrow> bool" where
  "health_on_disk R p = (\<exists>status at counts failure b.
     (status = ''healthy'' \<and> failure = None \<or> status = ''degraded'' \<and> failure \<noteq> None)
     \<and> canonical_json (health_document R status at counts failure) = Inr b
     \<and> map_of (pw_files p) (state_file R ''health.json'') = Some (b @ [CHR 0x0A]))"

lemma health_on_diskI:
  assumes "canonical_json (health_document R status at counts failure) = Inr b"
    and "status = ''healthy'' \<and> failure = None \<or> status = ''degraded'' \<and> failure \<noteq> None"
    and "map_of (pw_files p) (state_file R ''health.json'') = Some (b @ [CHR 0x0A])"
  shows "health_on_disk R p"
  using assms unfolding health_on_disk_def by blast

lemma failure_recorded:
  assumes "good_clock (pl_clock R)"
  shows "\<exists>p'. record_poll_failure R e p = (Inr (), p') \<and> health_on_disk R p'"
proof -
  let ?t = "pl_clock R (pw_ticks p)"
  have t: "\<not> naive ?t" "in_range (instant ?t)" using assms by (auto simp: good_clock_def)
  obtain b where b: "canonical_json (health_document R ''degraded'' ?t no_counts (Some (''pilot_poll_failed'', pl_type_name R e))) = Inr b"
    using degraded_health [OF t] by blast
  then show ?thesis using t
    by (auto simp: record_poll_failure_def next_tick_def in_state_def in_worker_def in_store_def record_infrastructure_error_def
        utc_iso_def to_utc_def write_pilot_health_def in_files_def atomic_json_def write_bytes_def bindS_def liftS_def
        map_of_dict_put intro!: health_on_diskI [OF b])
qed

lemma poll_recorded:
  assumes "poll_once R now p = (Inr counts, p')"
  shows "health_on_disk R p'"
proof -
  obtain current q where "write_pilot_health R ''healthy'' current counts None q = (Inr (), p')"
    using assms by (auto simp: poll_once_def Let_def raiseS_if_eq_Inr)
  then obtain b where c: "canonical_json (health_document R ''healthy'' current counts None) = Inr b"
    "map_of (pw_files p') (state_file R ''health.json'') = Some (b @ [CHR 0x0A])"
    by (auto simp: write_pilot_health_def in_files_def atomic_json_def write_bytes_def map_of_dict_put split: prod.splits)
  show ?thesis by (rule health_on_diskI [OF c(1) _ c(2)]) simp
qed

lemma turn_returns:
  assumes "good_clock (pl_clock R)"
  shows "\<exists>b p'. serve_turn R confirmed p = (Inr b, p') \<and> health_on_disk R p'"
proof -
  have failed: "\<exists>p'. bindS (record_poll_failure R e) (\<lambda>_. retS c) q = (Inr c, p') \<and> health_on_disk R p'" for e q and c :: bool
    using failure_recorded [OF assms, of e q] by (auto simp: bindS_def)
  show ?thesis unfolding serve_turn_def using failed poll_recorded [of R None]
    by (fastforce split: prod.splits sum.splits)
qed

text \<open>
  C36: The service survives its polls: with a clock whose readings are aware and inside the years 1 to 9999, the
  loop returns normally after any number of turns, whatever the public target and the signer do and whatever the
  files and the store hold; and after a turn the health document on disk says healthy or degraded.
\<close>

theorem service_survives_failures:
  assumes "good_clock (pl_clock R)"
  shows "\<exists>p'. serve R confirmed n p = (Inr (), p') \<and> (n = 0 \<or> health_on_disk R p')"
proof (induction n arbitrary: confirmed p)
  case (Suc n)
  obtain b q where t: "serve_turn R confirmed p = (Inr b, q)" "health_on_disk R q" using turn_returns [OF assms] by blast
  obtain p' where "serve R b n q = (Inr (), p')" "n = 0 \<or> health_on_disk R p'" using Suc by blast
  then show ?case using t by (cases n) (auto simp: bindS_def)
qed simp

lemma service_survives_failures_witness:
  "\<exists>p'. serve (demo_pilot_runtime True (http_target demo_crypto plain_stdlib (logged one_record_network) demo_client)) False 5
       (demo_pilot_world False empty_store) = (Inr (), p')"
proof -
  have "good_clock (pl_clock (demo_pilot_runtime True (http_target demo_crypto plain_stdlib (logged one_record_network) demo_client)))"
    by (simp add: good_clock_def demo_pilot_runtime_def demo_now_def in_range_def max_wall_def)
  from service_survives_failures [OF this] show ?thesis by blast
qed

end
