(* ===== verification/Evolution.thy ===== *)
theory Evolution
  imports Evidence
begin

text \<open>
  \<open>rosetta/evolution.py\<close>, first part: the closed models of a proposal (mutations,
  candidate, policy, gate results, evaluation, approval, attestation, lineage)
  with the checks of building them, the digests that name them, the paths a
  proposal may touch and the validation of a candidate against the policy.
  A time that overflows in its validator escapes pydantic as \<open>OverflowError\<close>,
  whatever the other fields hold, so that field is read first.
\<close>

section \<open>Fields\<close>

definition a_digest :: "pyval option \<Rightarrow> string result" where
  "a_digest v = bindE (strict_str v) (\<lambda>s. check (immutable_digest s) (Inr s))"

definition the_bool :: "stdlib \<Rightarrow> bool \<Rightarrow> pyval option \<Rightarrow> unit result" where
  "the_bool L b v = check (case v of Some (PBool c) \<Rightarrow> c = b | Some (PInt i) \<Rightarrow> i = (if b then 1 else 0)
     | Some (PFloat r) \<Rightarrow> sl_float_is L r (if b then 1 else 0) | _ \<Rightarrow> False) (Inr ())"

definition lax_bool :: "pydantic \<Rightarrow> pyval option \<Rightarrow> bool result" where
  "lax_bool P v = (case v of Some (PBool b) \<Rightarrow> Inr b
     | Some w \<Rightarrow> (case pyd_bool P w of None \<Rightarrow> invalid | Some b \<Rightarrow> Inr b) | None \<Rightarrow> invalid)"

definition aware_utc :: "pydantic \<Rightarrow> pyval option \<Rightarrow> datetime result" where
  "aware_utc P v = bindE (a_datetime P v) (\<lambda>t. check (\<not> naive t) (to_utc t))"

definition model_list :: "(pyval \<Rightarrow> 'a result) \<Rightarrow> pyval option \<Rightarrow> 'a list result" where
  "model_list parse v = (case v of Some (PList vs) \<Rightarrow> mapE parse vs | _ \<Rightarrow> invalid)"

text \<open>A text of 1 to \<open>n\<close> characters, stripped.\<close>

definition bounded_text :: "nat \<Rightarrow> pyval option \<Rightarrow> string result" where
  "bounded_text n v = bindE (strict_str v) (\<lambda>s. check (strip s \<noteq> [] \<and> length s \<le> n) (Inr (strip s)))"

section \<open>Mutations\<close>

record mutation =
  mu_path :: string
  mu_operation :: string
  mu_expected :: "string option"
  mu_content_base64 :: string

definition parse_mutation :: "pydantic \<Rightarrow> pyval \<Rightarrow> mutation result" where
  "parse_mutation P v = bindE (as_dict P v) (\<lambda>kvs. let f = map_of kvs in
     check (list_all (\<lambda>(k, _). k \<in> {''path'', ''operation'', ''expected_sha256'', ''content_base64''}) kvs)
     (bindE (strict_str (f ''path'')) (\<lambda>p. bindE (literal [''create'', ''replace''] (f ''operation'')) (\<lambda>oper.
      bindE (optional a_digest (f ''expected_sha256'')) (\<lambda>x. bindE (strict_str (f ''content_base64'')) (\<lambda>c.
      Inr \<lparr>mu_path = p, mu_operation = oper, mu_expected = x, mu_content_base64 = c\<rparr>))))))"

definition mutation_dict :: "mutation \<Rightarrow> pyval" where
  "mutation_dict m = PDict [(''path'', PStr (mu_path m)), (''operation'', PStr (mu_operation m)),
     (''expected_sha256'', opt_str (mu_expected m)), (''content_base64'', PStr (mu_content_base64 m))]"

text \<open>
  \<open>content\<close>: whatever the strict decoder accepts or skips, the text must be the
  standard encoding of the bytes it stands for.
\<close>

definition b64_standard :: "bytes \<Rightarrow> string" where
  "b64_standard d = map (\<lambda>c. if c = CHR ''-'' then CHR ''+'' else if c = CHR ''_'' then CHR ''/'' else c) (b64encode d)"

definition bad_content :: exn where
  "bad_content = ValueError ''mutation content must be canonical base64''"

definition mutation_content :: "mutation \<Rightarrow> bytes result" where
  "mutation_content m = (case a2b_base64 (mu_content_base64 m) 0 0 0 of
     Inl _ \<Rightarrow> Inl bad_content
   | Inr d \<Rightarrow> raise_if (b64_standard d \<noteq> mu_content_base64 m) bad_content (Inr d))"

section \<open>Candidates\<close>

record candidate =
  cn_trigger :: string
  cn_objective :: string
  cn_bundle_root :: string
  cn_registry :: string
  cn_source :: string
  cn_proposed_at :: datetime
  cn_mutations :: "mutation list"

definition candidate_fields :: "string list" where
  "candidate_fields = [''trigger'', ''objective'', ''parent_bundle_root'', ''parent_registry_sha256'', ''parent_source_sha256'',
     ''proposed_at'', ''mutations'']"

definition parse_candidate :: "pydantic \<Rightarrow> pyval \<Rightarrow> candidate result" where
  "parse_candidate P v = bindE (as_dict P v) (\<lambda>kvs. let f = map_of kvs in
     bindE (aware_utc P (f ''proposed_at'')) (\<lambda>t.
     check (closed_fields candidate_fields ''rosetta.evolution-candidate.v1'' True kvs)
     (bindE (literal [''protocol_release'', ''regression'', ''coverage_gap'', ''operator''] (f ''trigger'')) (\<lambda>tr.
      bindE (bounded_text 512 (f ''objective'')) (\<lambda>ob.
      bindE (a_digest (f ''parent_bundle_root'')) (\<lambda>b. bindE (a_digest (f ''parent_registry_sha256'')) (\<lambda>r.
      bindE (a_digest (f ''parent_source_sha256'')) (\<lambda>s.
      bindE (model_list (parse_mutation P) (f ''mutations'')) (\<lambda>ms.
      check (ms \<noteq> [] \<and> distinct (map mu_path ms))
      (Inr \<lparr>cn_trigger = tr, cn_objective = ob, cn_bundle_root = b, cn_registry = r, cn_source = s, cn_proposed_at = t,
        cn_mutations = ms\<rparr>))))))))))"

definition candidate_dict :: "candidate \<Rightarrow> pyval" where
  "candidate_dict c = PDict [(''schema'', PStr ''rosetta.evolution-candidate.v1''), (''trigger'', PStr (cn_trigger c)),
     (''objective'', PStr (cn_objective c)), (''parent_bundle_root'', PStr (cn_bundle_root c)),
     (''parent_registry_sha256'', PStr (cn_registry c)), (''parent_source_sha256'', PStr (cn_source c)),
     (''proposed_at'', PDateTime (cn_proposed_at c)), (''mutations'', PList (map mutation_dict (cn_mutations c)))]"

definition candidate_id :: "crypto \<Rightarrow> candidate \<Rightarrow> string result" where
  "candidate_id C c = bindE (canonical_json (candidate_dict c)) (\<lambda>b. Inr (sha256_hex C b))"

section \<open>Paths\<close>

definition safe_relative :: "string \<Rightarrow> string result" where
  "safe_relative p = raise_if (starts_with ''/'' p \<or> path_parts p = [] \<or> ''..'' \<in> set (path_parts p)
       \<or> CHR 0x5C \<in> set p \<or> normal_path p \<noteq> p) (ValueError ''unsafe mutation path'') (Inr p)"

definition is_path_or_child :: "string \<Rightarrow> string \<Rightarrow> bool" where
  "is_path_or_child p prefix = (let n = rstrip_char CHR ''/'' prefix in p = n \<or> starts_with (n @ ''/'') p)"

text \<open>\<open>_under\<close>: resolving a path that holds a null character raises.\<close>

definition under :: "string \<Rightarrow> string \<Rightarrow> string result" where
  "under root target = raise_if (CHR 0x00 \<in> set root \<or> CHR 0x00 \<in> set target) (ValueError ''embedded null byte'')
     (raise_if (target \<noteq> root \<and> \<not> within_dir root target) (ValueError ''path escapes approved evolution root'') (Inr target))"

section \<open>The policy\<close>

record evolution_policy =
  vp_image :: string
  vp_allowed :: "string list"
  vp_protected :: "string list"
  vp_operators :: "string list"
  vp_max_files :: int
  vp_max_bytes :: int
  vp_timeout :: int
  vp_gates :: "string list"

definition policy_fields :: "string list" where
  "policy_fields = [''enabled'', ''mode'', ''evaluator_image_digest'', ''allowed_prefixes'', ''protected_paths'',
     ''trusted_operator_dids'', ''max_files'', ''max_total_bytes'', ''evaluator_timeout_seconds'', ''required_gates'']"

definition fixed_gates :: "string list" where
  "fixed_gates = [''format'', ''lint'', ''types'', ''tests'', ''typescript'', ''secrets'']"

definition policy_paths :: "pyval option \<Rightarrow> string list result" where
  "policy_paths v = bindE (str_list v) (\<lambda>ps. check (ps \<noteq> [] \<and> distinct ps \<and> list_all (\<lambda>p. succeeds (safe_relative p)) ps) (Inr ps))"

definition positive_int :: "pyval option \<Rightarrow> int result" where
  "positive_int v = bindE (strict_int v) (\<lambda>i. check (1 \<le> i) (Inr i))"

definition parse_policy :: "pydantic \<Rightarrow> stdlib \<Rightarrow> pyval \<Rightarrow> evolution_policy result" where
  "parse_policy P L v = bindE (as_dict P v) (\<lambda>kvs. let f = map_of kvs in
     check (closed_fields policy_fields ''rosetta.evolution-policy.v1'' True kvs)
     (bindE (the_bool L True (f ''enabled'')) (\<lambda>_. bindE (literal [''propose_only''] (f ''mode'')) (\<lambda>_.
      bindE (a_digest (f ''evaluator_image_digest'')) (\<lambda>im.
      bindE (policy_paths (f ''allowed_prefixes'')) (\<lambda>al. bindE (policy_paths (f ''protected_paths'')) (\<lambda>pr.
      bindE (str_list (f ''trusted_operator_dids'')) (\<lambda>ops.
      check (distinct ops \<and> list_all (\<lambda>d. succeeds (public_key_from_did d)) ops)
      (bindE (positive_int (f ''max_files'')) (\<lambda>n. bindE (positive_int (f ''max_total_bytes'')) (\<lambda>bs.
      bindE (positive_int (f ''evaluator_timeout_seconds'')) (\<lambda>s.
      bindE (str_list (f ''required_gates'')) (\<lambda>gs. check (distinct gs \<and> set gs = set fixed_gates)
      (Inr \<lparr>vp_image = im, vp_allowed = al, vp_protected = pr, vp_operators = ops, vp_max_files = n, vp_max_bytes = bs,
        vp_timeout = s, vp_gates = gs\<rparr>))))))))))))))"

definition policy_dict :: "evolution_policy \<Rightarrow> pyval" where
  "policy_dict p = PDict [(''schema'', PStr ''rosetta.evolution-policy.v1''), (''enabled'', PBool True),
     (''mode'', PStr ''propose_only''), (''evaluator_image_digest'', PStr (vp_image p)),
     (''allowed_prefixes'', PList (map PStr (vp_allowed p))), (''protected_paths'', PList (map PStr (vp_protected p))),
     (''trusted_operator_dids'', PList (map PStr (vp_operators p))), (''max_files'', PInt (vp_max_files p)),
     (''max_total_bytes'', PInt (vp_max_bytes p)), (''evaluator_timeout_seconds'', PInt (vp_timeout p)),
     (''required_gates'', PList (map PStr (vp_gates p)))]"

definition evolution_policy_digest :: "crypto \<Rightarrow> evolution_policy \<Rightarrow> string result" where
  "evolution_policy_digest C p = bindE (canonical_json (policy_dict p)) (\<lambda>b. Inr (prefixed_digest C b))"

section \<open>The source tree\<close>

definition ignored_names :: "string list" where
  "ignored_names = [''.git'', ''.venv'', ''.mypy_cache'', ''.pytest_cache'', ''.ruff_cache'', ''.hypothesis'', ''.coverage'',
     ''artifacts'', ''local'', ''node_modules'', ''work'', ''__pycache__'']"

definition source_file :: "string \<Rightarrow> bool" where
  "source_file p = (list_all (\<lambda>c. c \<notin> set ignored_names) (split_on CHR ''/'' p)
     \<and> take 2 (split_on CHR ''/'' p) \<noteq> [''fixtures'', ''evolution''])"

definition source_tree_digest :: "crypto \<Rightarrow> string \<Rightarrow> tree \<Rightarrow> string result" where
  "source_tree_digest C root t = bindE (canonical_json (PList (map entry_dict
       (map (\<lambda>(p, b). (p, sha256_hex C b)) (filter (\<lambda>(p, _). source_file p) (sorted_files (below root t)))))))
     (\<lambda>b. Inr (prefixed_digest C b))"

section \<open>Validation of a candidate\<close>

datatype risk = TestOnly | Documentation | RuntimeCode

fun risk_text :: "risk \<Rightarrow> string" where
  "risk_text TestOnly = ''test_only''"
| "risk_text Documentation = ''documentation''"
| "risk_text RuntimeCode = ''runtime_code''"

definition risk_after :: "string \<Rightarrow> risk \<Rightarrow> risk" where
  "risk_after p r = (if starts_with ''docs/'' p \<and> r = TestOnly then Documentation
     else if \<not> (starts_with ''tests/generated/'' p \<or> starts_with ''fixtures/evolution/'' p \<or> starts_with ''docs/'' p)
       then RuntimeCode else r)"

definition check_mutation :: "evolution_policy \<Rightarrow> mutation \<Rightarrow> int \<times> risk \<Rightarrow> (int \<times> risk) result" where
  "check_mutation pol m = (\<lambda>(total, r).
     bindE (safe_relative (mu_path m)) (\<lambda>p.
     raise_if (\<not> list_ex (is_path_or_child p) (vp_allowed pol)) (ValueError (''mutation path is outside the evolution allowlist: '' @ p))
     (raise_if (list_ex (is_path_or_child p) (vp_protected pol)) (ValueError (''mutation path is protected from self-modification: '' @ p))
     (bindE (mutation_content m) (\<lambda>content.
      raise_if (CHR 0x00 \<in> set content) (ValueError ''binary mutation content is forbidden'')
      (raise_if (mu_operation m = ''create'' \<and> mu_expected m \<noteq> None) (ValueError ''create mutation cannot carry expected_sha256'')
      (raise_if (mu_operation m = ''replace'' \<and> mu_expected m = None) (ValueError ''replace mutation requires expected_sha256'')
      (Inr (total + int (length content), risk_after p r)))))))))"

fun check_mutations :: "evolution_policy \<Rightarrow> mutation list \<Rightarrow> int \<times> risk \<Rightarrow> (int \<times> risk) result" where
  "check_mutations pol [] acc = Inr acc"
| "check_mutations pol (m # ms) acc = bindE (check_mutation pol m acc) (check_mutations pol ms)"

definition validate_candidate :: "candidate \<Rightarrow> evolution_policy \<Rightarrow> risk result" where
  "validate_candidate c pol =
     raise_if (vp_max_files pol < int (length (cn_mutations c))) (ValueError ''candidate exceeds mutation file limit'')
     (bindE (check_mutations pol (cn_mutations c) (0, TestOnly)) (\<lambda>(total, r).
      raise_if (vp_max_bytes pol < total) (ValueError ''candidate exceeds total byte limit'') (Inr r)))"

section \<open>Gate results and evaluations\<close>

record gate_result =
  gr_name :: string
  gr_passed :: bool
  gr_exit_code :: int
  gr_output_sha256 :: string
  gr_output_tail :: string

definition parse_gate_result :: "pydantic \<Rightarrow> pyval \<Rightarrow> gate_result result" where
  "parse_gate_result P v = bindE (as_dict P v) (\<lambda>kvs. let f = map_of kvs in
     check (list_all (\<lambda>(k, _). k \<in> {''name'', ''passed'', ''exit_code'', ''output_sha256'', ''output_tail''}) kvs)
     (bindE (strict_str (f ''name'')) (\<lambda>n. bindE (lax_bool P (f ''passed'')) (\<lambda>b. bindE (strict_int (f ''exit_code'')) (\<lambda>i.
      bindE (a_digest (f ''output_sha256'')) (\<lambda>d. bindE (strict_str (f ''output_tail'')) (\<lambda>o'.
      Inr \<lparr>gr_name = n, gr_passed = b, gr_exit_code = i, gr_output_sha256 = d, gr_output_tail = o'\<rparr>)))))))"

definition gate_result_dict :: "gate_result \<Rightarrow> pyval" where
  "gate_result_dict g = PDict [(''name'', PStr (gr_name g)), (''passed'', PBool (gr_passed g)), (''exit_code'', PInt (gr_exit_code g)),
     (''output_sha256'', PStr (gr_output_sha256 g)), (''output_tail'', PStr (gr_output_tail g))]"

definition evaluation_states :: "string list" where
  "evaluation_states = [''awaiting_human_approval'', ''rejected'']"

definition risk_names :: "string list" where
  "risk_names = [''test_only'', ''documentation'', ''runtime_code'']"

text \<open>\<open>automatic_promotion\<close> is always \<open>False\<close>.\<close>

record evaluation =
  el_candidate_id :: string
  el_image :: string
  el_policy :: string
  el_passed :: bool
  el_gates :: "gate_result list"
  el_risk :: string
  el_state :: string

definition parse_evaluation :: "pydantic \<Rightarrow> stdlib \<Rightarrow> pyval \<Rightarrow> evaluation result" where
  "parse_evaluation P L v = bindE (as_dict P v) (\<lambda>kvs. let f = map_of kvs in
     check (closed_fields [''candidate_id'', ''evaluator_image_digest'', ''policy_sha256'', ''passed'', ''gates'', ''risk'',
              ''automatic_promotion'', ''state''] ''rosetta.evolution-evaluation.v1'' True kvs)
     (bindE (strict_str (f ''candidate_id'')) (\<lambda>i. bindE (a_digest (f ''evaluator_image_digest'')) (\<lambda>im.
      bindE (a_digest (f ''policy_sha256'')) (\<lambda>ph. bindE (lax_bool P (f ''passed'')) (\<lambda>b.
      bindE (model_list (parse_gate_result P) (f ''gates'')) (\<lambda>gs. bindE (literal risk_names (f ''risk'')) (\<lambda>r.
      bindE (case f ''automatic_promotion'' of None \<Rightarrow> Inr () | Some w \<Rightarrow> the_bool L False (Some w)) (\<lambda>_.
      bindE (literal evaluation_states (f ''state'')) (\<lambda>s.
      Inr \<lparr>el_candidate_id = i, el_image = im, el_policy = ph, el_passed = b, el_gates = gs, el_risk = r, el_state = s\<rparr>))))))))))"

definition evaluation_dict :: "evaluation \<Rightarrow> pyval" where
  "evaluation_dict e = PDict [(''schema'', PStr ''rosetta.evolution-evaluation.v1''), (''candidate_id'', PStr (el_candidate_id e)),
     (''evaluator_image_digest'', PStr (el_image e)), (''policy_sha256'', PStr (el_policy e)), (''passed'', PBool (el_passed e)),
     (''gates'', PList (map gate_result_dict (el_gates e))), (''risk'', PStr (el_risk e)), (''automatic_promotion'', PBool False),
     (''state'', PStr (el_state e))]"

section \<open>Lineage, attestation and approval\<close>

text \<open>\<open>automatic_promotion\<close> is always \<open>False\<close>, \<open>human_approval_required\<close> always \<open>True\<close>.\<close>

record lineage =
  ln_candidate_id :: string
  ln_bundle_root :: string
  ln_registry :: string
  ln_source :: string
  ln_policy :: string
  ln_risk :: string
  ln_state :: string

definition parse_lineage :: "pydantic \<Rightarrow> stdlib \<Rightarrow> pyval \<Rightarrow> lineage result" where
  "parse_lineage P L v = bindE (as_dict P v) (\<lambda>kvs. let f = map_of kvs in
     check (closed_fields [''candidate_id'', ''parent_bundle_root'', ''parent_registry_sha256'', ''parent_source_sha256'',
              ''policy_sha256'', ''risk'', ''state'', ''automatic_promotion'', ''human_approval_required'']
              ''rosetta.evolution-lineage.v1'' True kvs)
     (bindE (strict_str (f ''candidate_id'')) (\<lambda>i. bindE (strict_str (f ''parent_bundle_root'')) (\<lambda>b.
      bindE (strict_str (f ''parent_registry_sha256'')) (\<lambda>r. bindE (strict_str (f ''parent_source_sha256'')) (\<lambda>s.
      bindE (strict_str (f ''policy_sha256'')) (\<lambda>ph. bindE (literal risk_names (f ''risk'')) (\<lambda>k.
      bindE (literal evaluation_states (f ''state'')) (\<lambda>st. bindE (the_bool L False (f ''automatic_promotion'')) (\<lambda>_.
      bindE (the_bool L True (f ''human_approval_required'')) (\<lambda>_.
      Inr \<lparr>ln_candidate_id = i, ln_bundle_root = b, ln_registry = r, ln_source = s, ln_policy = ph, ln_risk = k, ln_state = st\<rparr>)))))))))))"

definition lineage_dict :: "lineage \<Rightarrow> pyval" where
  "lineage_dict l = PDict [(''schema'', PStr ''rosetta.evolution-lineage.v1''), (''candidate_id'', PStr (ln_candidate_id l)),
     (''parent_bundle_root'', PStr (ln_bundle_root l)), (''parent_registry_sha256'', PStr (ln_registry l)),
     (''parent_source_sha256'', PStr (ln_source l)), (''policy_sha256'', PStr (ln_policy l)), (''risk'', PStr (ln_risk l)),
     (''state'', PStr (ln_state l)), (''automatic_promotion'', PBool False), (''human_approval_required'', PBool True)]"

record evolution_attestation =
  ea_did :: string
  ea_root :: string
  ea_signature :: string

definition parse_evolution_attestation :: "pydantic \<Rightarrow> pyval \<Rightarrow> evolution_attestation result" where
  "parse_evolution_attestation P v = bindE (as_dict P v) (\<lambda>kvs. let f = map_of kvs in
     check (closed_fields [''domain'', ''did'', ''evolution_root'', ''signature''] ''rosetta.evolution-attestation.v1'' False kvs)
     (bindE (default_literal ''rosetta.evolution-proposal.v1'' (f ''domain'')) (\<lambda>_.
      bindE (strict_str (f ''did'')) (\<lambda>d. bindE (strict_str (f ''evolution_root'')) (\<lambda>r. bindE (strict_str (f ''signature'')) (\<lambda>s.
      Inr \<lparr>ea_did = d, ea_root = r, ea_signature = s\<rparr>))))))"

definition evolution_attestation_dict :: "evolution_attestation \<Rightarrow> pyval" where
  "evolution_attestation_dict a = PDict [(''schema'', PStr ''rosetta.evolution-attestation.v1''),
     (''domain'', PStr ''rosetta.evolution-proposal.v1''), (''did'', PStr (ea_did a)), (''evolution_root'', PStr (ea_root a)),
     (''signature'', PStr (ea_signature a))]"

record approval =
  ap_action :: string
  ap_candidate_id :: string
  ap_root :: string
  ap_approved_by :: string
  ap_approved_at :: datetime
  ap_operator :: string
  ap_signature :: string

definition parse_approval :: "pydantic \<Rightarrow> pyval \<Rightarrow> approval result" where
  "parse_approval P v = bindE (as_dict P v) (\<lambda>kvs. let f = map_of kvs in
     bindE (aware_utc P (f ''approved_at'')) (\<lambda>t.
     check (closed_fields [''action'', ''candidate_id'', ''evolution_root'', ''approved_by'', ''approved_at'', ''operator_did'',
              ''signature''] ''rosetta.evolution-approval.v1'' True kvs)
     (bindE (literal [''promote_candidate'', ''rollback_candidate''] (f ''action'')) (\<lambda>a.
      bindE (strict_str (f ''candidate_id'')) (\<lambda>i. bindE (a_digest (f ''evolution_root'')) (\<lambda>r.
      bindE (bounded_text 128 (f ''approved_by'')) (\<lambda>by'. bindE (strict_str (f ''operator_did'')) (\<lambda>d.
      bindE (strict_str (f ''signature'')) (\<lambda>s.
      Inr \<lparr>ap_action = a, ap_candidate_id = i, ap_root = r, ap_approved_by = by', ap_approved_at = t, ap_operator = d,
        ap_signature = s\<rparr>)))))))))"

definition approval_domain :: bytes where
  "approval_domain = ''rosetta.evolution-approval.v1'' @ [CHR 0x00]"

definition evolution_approval_payload :: "approval \<Rightarrow> bytes result" where
  "evolution_approval_payload a = bindE (canonical_json (PDict [(''schema'', PStr ''rosetta.evolution-approval.v1''),
       (''action'', PStr (ap_action a)), (''candidate_id'', PStr (ap_candidate_id a)), (''evolution_root'', PStr (ap_root a)),
       (''approved_by'', PStr (ap_approved_by a)), (''approved_at'', PDateTime (ap_approved_at a)),
       (''operator_did'', PStr (ap_operator a))])) (\<lambda>b. Inr (approval_domain @ b))"

definition verify_evolution_approval ::
  "crypto \<Rightarrow> approval \<Rightarrow> evolution_policy \<Rightarrow> string \<Rightarrow> string \<Rightarrow> string \<Rightarrow> unit result" where
  "verify_evolution_approval C a pol action ident root =
     raise_if (ap_action a \<noteq> action \<or> ap_candidate_id a \<noteq> ident \<or> ap_root a \<noteq> root)
       (ValueError ''approval does not authorize this exact evolution action'')
     (raise_if (ap_operator a \<notin> set (vp_operators pol)) (ValueError ''approval operator DID is not trusted by evolution policy'')
     (bindE (evolution_approval_payload a) (\<lambda>payload.
      raise_if (\<not> verify_signature C (ap_operator a) payload (ap_signature a)) (ValueError ''invalid evolution operator signature'')
      (Inr ()))))"

end
