(* ===== verification/Evolution_Pipeline.thy ===== *)
theory Evolution_Pipeline
  imports Evolution
begin

text \<open>
  \<open>rosetta/evolution.py\<close>, second part: the evaluator, \<open>EvolutionEngine\<close> (staging a
  candidate, packaging its evaluation, promoting and rolling back) and the
  verification of a package; then the commands of \<open>evolution_cli.py\<close>.  The engine
  works on the shared state of the workers beside a tree of files.  An evaluator
  reads the staged tree and changes nothing (the container mounts it read-only).
\<close>

section \<open>Directories\<close>

text \<open>The proper ancestors of a path; a file among them stops \<open>mkdir(parents=True)\<close>.\<close>

definition ancestors :: "string \<Rightarrow> string list" where
  "ancestors p = map (\<lambda>i. take i p) (filter (\<lambda>i. p ! i = CHR ''/'') [0..<length p])"

definition blocked :: "string \<Rightarrow> tree \<Rightarrow> bool" where
  "blocked p t = list_ex (\<lambda>a. is_file a t) (ancestors p)"

text \<open>\<open>p.parent.mkdir(parents=True, exist_ok=True)\<close>, then \<open>p.write_bytes(b)\<close>.\<close>

definition write_deep :: "string \<Rightarrow> bytes \<Rightarrow> (tree, unit) op" where
  "write_deep p b = bindS (getS (blocked p)) (\<lambda>stopped. raiseS_if stopped (OSError ''FileExistsError'')
     (bindS (getS (\<lambda>t. below p t \<noteq> [])) (\<lambda>dir. raiseS_if dir (OSError ''IsADirectoryError'') (write_bytes p b))))"

text \<open>\<open>d.mkdir(parents=True)\<close> for a path that is not there.\<close>

definition make_directory :: "string \<Rightarrow> (tree, unit) op" where
  "make_directory d = bindS (getS (blocked d)) (\<lambda>stopped. raiseS_if stopped (OSError ''FileExistsError'') (retS ()))"

definition remove_file :: "string \<Rightarrow> (tree, unit) op" where
  "remove_file p = putS (filter (\<lambda>(q, _). q \<noteq> p))"

section \<open>The evaluator\<close>

text \<open>What \<open>subprocess.run\<close> returned: exit status, standard output and standard error.\<close>

type_synonym completed = "int \<times> string \<times> string"

definition docker_command :: "string \<Rightarrow> string \<Rightarrow> string \<Rightarrow> string list" where
  "docker_command docker candidate_root im = [docker, ''run'', ''--rm'', ''--network=none'', ''--read-only'', ''--user=65532:65532'',
     ''--cap-drop=ALL'', ''--security-opt=no-new-privileges'', ''--memory=768m'', ''--cpus=1.0'', ''--pids-limit=128'',
     ''--tmpfs=/tmp:rw,noexec,nosuid,size=128m,uid=65532,gid=65532'',
     ''--tmpfs=/candidate/local:rw,noexec,nosuid,size=128m,uid=65532,gid=65532'', ''--mount'',
     ''type=bind,src='' @ candidate_root @ '',dst=/candidate,readonly'', im]"

definition iterated :: "pyval \<Rightarrow> pyval list result" where
  "iterated v = (case v of PList vs \<Rightarrow> Inr vs | PStr s \<Rightarrow> Inr (map (\<lambda>c. PStr [c]) s) | PDict kvs \<Rightarrow> Inr (map (PStr \<circ> fst) kvs)
     | _ \<Rightarrow> Inl (TypeError ''object is not iterable''))"

definition read_gates :: "pydantic \<Rightarrow> completed \<Rightarrow> gate_result list result" where
  "read_gates P = (\<lambda>(status, out, err). let lines = split_lines (strip out) in
     raise_if (status \<notin> {0, 1} \<or> lines = []) (RuntimeError ''evaluator infrastructure failure'')
     (bindE (loads (last lines)) (\<lambda>payload. case payload of PDict kvs \<Rightarrow>
        raise_if (map_of kvs ''schema'' \<noteq> Some (PStr ''rosetta.evolution-gates.v1'')) (RuntimeError ''evaluator returned an unknown result schema'')
        (bindE (of_option (KeyError ''gates'') (map_of kvs ''gates'')) (\<lambda>v.
         bindE (iterated v) (\<lambda>vs. bindE (mapE (parse_gate_result P) vs) (\<lambda>gs.
         raise_if ((status = 0) \<noteq> list_all gr_passed gs) (RuntimeError ''evaluator exit status disagrees with gate results'')
         (Inr gs)))))
      | _ \<Rightarrow> Inl (AttributeError ''get''))))"

text \<open>The Docker client, where one is installed, and what running it on the staged tree gives.\<close>

definition docker_evaluate ::
  "pydantic \<Rightarrow> string option \<Rightarrow> (string list \<Rightarrow> tree \<Rightarrow> completed result) \<Rightarrow> string \<Rightarrow> string \<Rightarrow> tree \<Rightarrow> gate_result list result" where
  "docker_evaluate P docker run im candidate_root t = (case docker of
     None \<Rightarrow> Inl (RuntimeError ''Docker CLI is unavailable'')
   | Some cmd \<Rightarrow> bindE (run (docker_command cmd candidate_root im) (below candidate_root t)) (read_gates P))"

definition docker_evaluator ::
  "pydantic \<Rightarrow> string option \<Rightarrow> (string list \<Rightarrow> tree \<Rightarrow> completed result) \<Rightarrow> string \<Rightarrow> (string \<Rightarrow> tree \<Rightarrow> gate_result list result) result" where
  "docker_evaluator P docker run im =
     raise_if (\<not> immutable_digest im) (ValueError ''evaluator image must be sha256:<64 lowercase hex>'') (Inr (docker_evaluate P docker run im))"

section \<open>Staging\<close>

record engine =
  en_root :: string
  en_registry :: registry
  en_policy :: evolution_policy
  en_crypto :: crypto
  en_pydantic :: pydantic
  en_stdlib :: stdlib
  en_evaluate :: "string \<Rightarrow> tree \<Rightarrow> gate_result list result"

type_synonym ('x, 't) site = "('x, 't) env \<times> tree"

definition copied_file :: "string \<Rightarrow> bool" where
  "copied_file p = list_all (\<lambda>c. c \<notin> set ignored_names) (split_on CHR ''/'' p)"

text \<open>\<open>shutil.copytree\<close> with \<open>_copy_ignore\<close>.\<close>

definition copy_sources :: "string \<Rightarrow> string \<Rightarrow> (tree, unit) op" where
  "copy_sources src dst = putS (\<lambda>t. put_files dst (filter (\<lambda>(p, _). copied_file p) (below src t)) t)"

text \<open>The check of one target: \<open>what\<close> is the wording of the two callers.\<close>

definition check_target :: "crypto \<Rightarrow> mutation \<Rightarrow> string \<Rightarrow> tree \<Rightarrow> bytes option result" where
  "check_target C m dest t =
     (if mu_operation m = ''create'' then raise_if (path_exists dest t) (ValueError (''create target exists: '' @ mu_path m)) (Inr None)
      else raise_if (\<not> is_file dest t) (ValueError (''replace target is not a file: '' @ mu_path m))
       (bindE (read_bytes dest t) (\<lambda>b.
        raise_if (Some (prefixed_digest C b) \<noteq> mu_expected m) (ValueError (''stale replace base: '' @ mu_path m)) (Inr (Some b)))))"

definition stage_mutation :: "crypto \<Rightarrow> string \<Rightarrow> mutation \<Rightarrow> (tree, unit) op" where
  "stage_mutation C candidate_root m =
     bindS (liftS (safe_relative (mu_path m))) (\<lambda>p.
     bindS (liftS (under candidate_root (inside candidate_root p))) (\<lambda>dest.
     bindS (liftS (mutation_content m)) (\<lambda>content.
     bindS (getS (check_target C m dest)) (\<lambda>r. bindS (liftS r) (\<lambda>_.
     write_deep dest content)))))"

definition stage :: "engine \<Rightarrow> candidate \<Rightarrow> string \<Rightarrow> (('x, 't) site, string \<times> string \<times> risk) op" where
  "stage E c workspace = (let C = en_crypto E in
     bindS (on_fst (gate_require ''evolution'')) (\<lambda>_.
     bindS (liftS (registry_digest C (en_registry E))) (\<lambda>reg.
     raiseS_if (cn_registry c \<noteq> reg) (ValueError ''candidate parent registry does not match current registry'')
     (bindS (getS (\<lambda>wt. source_tree_digest C (en_root E) (snd wt))) (\<lambda>r. bindS (liftS r) (\<lambda>src.
      raiseS_if (cn_source c \<noteq> src) (ValueError ''candidate parent source tree does not match current project'')
      (bindS (liftS (validate_candidate c (en_policy E))) (\<lambda>rk.
       bindS (liftS (candidate_id C c)) (\<lambda>ident.
       bindS (liftS (under (en_root E) workspace)) (\<lambda>ws.
       raiseS_if (ws = en_root E \<or> hd (path_parts (drop (length (en_root E) + 1) ws)) \<noteq> ''local'')
         (ValueError ''candidate workspace must be under the ignored local directory'')
       (bindS (liftS (under (en_root E) (inside ws ident))) (\<lambda>root.
        bindS (getS (\<lambda>wt. path_exists root (snd wt))) (\<lambda>there.
        raiseS_if there (ValueError ''candidate workspace already exists'')
        (let candidate_root = inside root ''candidate'' in
         bindS (on_snd (make_directory root)) (\<lambda>_.
         bindS (on_snd (copy_sources (en_root E) candidate_root)) (\<lambda>_.
         bindS (on_snd (mapS (stage_mutation C candidate_root) (cn_mutations c))) (\<lambda>_.
         retS (ident, candidate_root, rk))))))))))))))))))"

section \<open>Packaging\<close>

definition judge_gates :: "evolution_policy \<Rightarrow> gate_result list \<Rightarrow> bool result" where
  "judge_gates pol gs = (let names = map gr_name gs; missing = filter (\<lambda>n. n \<notin> set names) (vp_gates pol);
       extra = remdups (filter (\<lambda>n. n \<notin> set (vp_gates pol)) names) in
     raise_if (\<not> distinct names) (RuntimeError ''evaluator returned duplicate gate names'')
     (raise_if (missing \<noteq> []) (RuntimeError (''evaluator omitted required gates: '' @ join '', '' (sort missing)))
     (raise_if (extra \<noteq> []) (RuntimeError (''evaluator returned unexpected gates: '' @ join '', '' (sort extra)))
     (Inr (list_all (\<lambda>n. case find (\<lambda>g. gr_name g = n) gs of None \<Rightarrow> False | Some g \<Rightarrow> gr_passed g) (vp_gates pol))))))"

definition make_evaluation ::
  "crypto \<Rightarrow> evolution_policy \<Rightarrow> string \<Rightarrow> gate_result list \<Rightarrow> risk \<Rightarrow> bool \<Rightarrow> evaluation result" where
  "make_evaluation C pol ident gs rk passed = bindE (evolution_policy_digest C pol) (\<lambda>d.
     check (immutable_digest (vp_image pol) \<and> immutable_digest d)
     (Inr \<lparr>el_candidate_id = ident, el_image = vp_image pol, el_policy = d, el_passed = passed, el_gates = gs,
        el_risk = risk_text rk, el_state = (if passed then ''awaiting_human_approval'' else ''rejected'')\<rparr>))"

definition lineage_of :: "candidate \<Rightarrow> evaluation \<Rightarrow> lineage" where
  "lineage_of c e = \<lparr>ln_candidate_id = el_candidate_id e, ln_bundle_root = cn_bundle_root c, ln_registry = cn_registry c,
     ln_source = cn_source c, ln_policy = el_policy e, ln_risk = el_risk e, ln_state = el_state e\<rparr>"

definition write_change :: "string \<Rightarrow> mutation \<Rightarrow> (tree, unit) op" where
  "write_change output m = bindS (liftS (safe_relative (mu_path m))) (\<lambda>p. bindS (liftS (mutation_content m)) (\<lambda>content.
     write_deep (inside output (''changes/'' @ p)) content))"

definition package_entries :: "crypto \<Rightarrow> tree \<Rightarrow> (string \<times> string) list" where
  "package_entries C fs = map (\<lambda>(p, b). (p, sha256_hex C b))
     (filter (\<lambda>(p, _). path_name p \<notin> {''checksums.txt'', ''attestation.json''}) (sorted_files fs))"

definition package_root :: "crypto \<Rightarrow> (string \<times> string) list \<Rightarrow> string result" where
  "package_root C es = bindE (canonical_json (PList (map entry_dict (sort es)))) (\<lambda>b. Inr (prefixed_digest C b))"

definition write_package_files :: "crypto \<Rightarrow> string \<Rightarrow> candidate \<Rightarrow> evaluation \<Rightarrow> (tree, unit) op" where
  "write_package_files C output c e =
     bindS (getS (is_file output)) (\<lambda>file. raiseS_if file (OSError ''NotADirectoryError'')
     (bindS (getS (\<lambda>t. below output t \<noteq> [])) (\<lambda>full. raiseS_if full (ValueError ''evolution package destination must be empty'')
     (bindS (make_directory output) (\<lambda>_.
      bindS (write_line output ''candidate.json'' (candidate_dict c)) (\<lambda>_.
      bindS (write_line output ''evaluation.json'' (evaluation_dict e)) (\<lambda>_.
      bindS (write_line output ''lineage.json'' (lineage_dict (lineage_of c e))) (\<lambda>_.
      bindS (mapS (write_change output) (cn_mutations c)) (\<lambda>_. retS ())))))))))"

definition seal_package :: "crypto \<Rightarrow> ('x, 't) signer \<Rightarrow> string \<Rightarrow> string \<Rightarrow> (('x, 't) site, string) op" where
  "seal_package C sign output ident =
     bindS (getS (\<lambda>wt. package_entries C (below output (snd wt)))) (\<lambda>entries.
     bindS (on_snd (write_bytes (inside output ''checksums.txt'') (utf8 (checksum_text entries)))) (\<lambda>_.
     bindS (liftS (package_root C entries)) (\<lambda>root.
     bindS (on_fst (sign (digest_request EvolutionProposal ident root))) (\<lambda>signed.
     bindS (on_snd (write_line output ''attestation.json''
       (evolution_attestation_dict \<lparr>ea_did = sp_did signed, ea_root = root, ea_signature = sp_signature signed\<rparr>))) (\<lambda>_.
     retS root)))))"

definition evaluate_and_package ::
  "engine \<Rightarrow> candidate \<Rightarrow> string \<Rightarrow> string \<Rightarrow> ('x, 't) signer \<Rightarrow> (('x, 't) site, string \<times> evaluation) op" where
  "evaluate_and_package E c workspace output sign = (let C = en_crypto E in
     bindS (stage E c workspace) (\<lambda>(ident, candidate_root, rk).
     bindS (getS (\<lambda>wt. en_evaluate E candidate_root (snd wt))) (\<lambda>r. bindS (liftS r) (\<lambda>gs.
     bindS (liftS (judge_gates (en_policy E) gs)) (\<lambda>passed.
     bindS (liftS (make_evaluation C (en_policy E) ident gs rk passed)) (\<lambda>e.
     bindS (liftS (under (en_root E) output)) (\<lambda>out.
     bindS (on_snd (write_package_files C out c e)) (\<lambda>_.
     bindS (seal_package C sign out ident) (\<lambda>root.
     retS (root, e))))))))))"

section \<open>Verifying a package\<close>

definition check_package_line :: "crypto \<Rightarrow> tree \<Rightarrow> string \<Rightarrow> (string \<times> string) result" where
  "check_package_line C fs line = (case split_gap line of
     None \<Rightarrow> Inl (ValueError ''invalid evolution checksum line'')
   | Some (digest, raw) \<Rightarrow> bindE (safe_relative raw) (\<lambda>p.
       raise_if (\<not> lower_hex 64 digest) (ValueError ''invalid evolution checksum digest'')
       (raise_if (CHR 0x00 \<in> set p) (ValueError ''embedded null byte'')
       (case map_of fs p of None \<Rightarrow> Inl (ValueError (''evolution checksum mismatch: '' @ p))
        | Some b \<Rightarrow> raise_if (sha256_hex C b \<noteq> digest) (ValueError (''evolution checksum mismatch: '' @ p)) (Inr (p, digest))))))"

definition check_change :: "tree \<Rightarrow> mutation \<Rightarrow> unit result" where
  "check_change fs m = bindE (safe_relative (mu_path m)) (\<lambda>p. bindE (read_bytes (''changes/'' @ p) fs) (\<lambda>b.
     bindE (mutation_content m) (\<lambda>content. raise_if (b \<noteq> content) (ValueError (''evolution change content mismatch: '' @ mu_path m)) (Inr ()))))"

definition check_consistent :: "string \<Rightarrow> candidate \<Rightarrow> evaluation \<Rightarrow> lineage \<Rightarrow> unit result" where
  "check_consistent ident c e l =
     raise_if (el_candidate_id e \<noteq> ident) (ValueError ''candidate identity mismatch'')
     (raise_if (el_state e \<noteq> (if el_passed e then ''awaiting_human_approval'' else ''rejected'')) (ValueError ''evaluation result and state disagree'')
     (raise_if (l \<noteq> \<lparr>ln_candidate_id = ident, ln_bundle_root = cn_bundle_root c, ln_registry = cn_registry c, ln_source = cn_source c,
          ln_policy = el_policy e, ln_risk = el_risk e, ln_state = el_state e\<rparr>) (ValueError ''evolution lineage mismatch'')
     (Inr ())))"

definition verify_package_files :: "crypto \<Rightarrow> pydantic \<Rightarrow> stdlib \<Rightarrow> tree \<Rightarrow> string result" where
  "verify_package_files C P L fs =
     bindE (read_text ''checksums.txt'' fs) (\<lambda>sums.
     bindE (mapE (check_package_line C fs) (split_lines sums)) (\<lambda>expected.
     raise_if (\<not> distinct expected) (ValueError ''duplicate evolution checksum entry'')
     (let actual = package_entries C fs in
      raise_if (actual \<noteq> sort expected) (ValueError ''evolution package file set differs from checksums'')
      (bindE (package_root C actual) (\<lambda>root.
       bindE (bindE (read_bytes ''attestation.json'' fs) (parse_raw (parse_evolution_attestation P))) (\<lambda>att.
       raise_if (ea_root att \<noteq> root) (ValueError ''evolution root mismatch'')
       (bindE (evolution_proposal_payload root) (\<lambda>payload.
        raise_if (\<not> verify_signature C (ea_did att) payload (ea_signature att)) (ValueError ''invalid evolution proposal attestation'')
        (bindE (bindE (read_bytes ''candidate.json'' fs) (parse_raw (parse_candidate P))) (\<lambda>c.
         bindE (bindE (read_bytes ''evaluation.json'' fs) (parse_raw (parse_evaluation P L))) (\<lambda>e.
         bindE (bindE (read_bytes ''lineage.json'' fs) (parse_raw (parse_lineage P L))) (\<lambda>l.
         bindE (candidate_id C c) (\<lambda>ident.
         bindE (check_consistent ident c e l) (\<lambda>_.
         raise_if (sort (map fst (below ''changes'' fs)) \<noteq> sort (map mu_path (cn_mutations c)))
           (ValueError ''evolution package changes do not match candidate'')
         (bindE (mapE (check_change fs) (cn_mutations c)) (\<lambda>_.
          Inr root))))))))))))))))"

definition verify_evolution_package :: "crypto \<Rightarrow> pydantic \<Rightarrow> stdlib \<Rightarrow> string \<Rightarrow> tree \<Rightarrow> string result" where
  "verify_evolution_package C P L package t = verify_package_files C P L (below package t)"

section \<open>Promotion\<close>

text \<open>A mutation that passed the preflight: where it goes, the bytes to write, and the bytes there now.\<close>

record prepared =
  pp_mutation :: mutation
  pp_destination :: string
  pp_promoted :: bytes
  pp_previous :: "bytes option"

definition prepare_mutation :: "engine \<Rightarrow> string \<Rightarrow> mutation \<Rightarrow> tree \<Rightarrow> prepared result" where
  "prepare_mutation E package m t =
     bindE (safe_relative (mu_path m)) (\<lambda>p.
     bindE (under (en_root E) (inside (en_root E) p)) (\<lambda>dest.
     bindE (read_bytes (inside package (''changes/'' @ p)) t) (\<lambda>promoted.
     bindE (check_target (en_crypto E) m dest t) (\<lambda>previous.
     Inr \<lparr>pp_mutation = m, pp_destination = dest, pp_promoted = promoted, pp_previous = previous\<rparr>))))"

definition backup_path :: "string \<Rightarrow> string \<Rightarrow> string" where
  "backup_path rollback p = inside rollback (''files/'' @ p)"

definition write_backup :: "string \<Rightarrow> prepared \<Rightarrow> (tree, unit) op" where
  "write_backup rollback x = (case pp_previous x of None \<Rightarrow> retS ()
     | Some b \<Rightarrow> write_deep (backup_path rollback (mu_path (pp_mutation x))) b)"

definition promotion_item :: "crypto \<Rightarrow> prepared \<Rightarrow> pyval" where
  "promotion_item C x = PDict [(''path'', PStr (mu_path (pp_mutation x))), (''operation'', PStr (mu_operation (pp_mutation x))),
     (''promoted_sha256'', PStr (prefixed_digest C (pp_promoted x))),
     (''previous_sha256'', opt_str (map_option (prefixed_digest C) (pp_previous x)))]"

definition promotion_record :: "crypto \<Rightarrow> string \<Rightarrow> string \<Rightarrow> string \<Rightarrow> approval \<Rightarrow> prepared list \<Rightarrow> pyval" where
  "promotion_record C state ident root a xs = PDict [(''schema'', PStr ''rosetta.evolution-promotion.v1''), (''state'', PStr state),
     (''candidate_id'', PStr ident), (''evolution_root'', PStr root), (''approved_by'', PStr (ap_approved_by a)),
     (''approved_at'', PDateTime (ap_approved_at a)), (''files'', PList (map (promotion_item C) xs))]"

definition check_current :: "engine \<Rightarrow> candidate \<Rightarrow> evaluation \<Rightarrow> tree \<Rightarrow> unit result" where
  "check_current E c e t = (let C = en_crypto E in
     raise_if (\<not> el_passed e \<or> el_state e \<noteq> ''awaiting_human_approval'') (ValueError ''only a passing candidate can be promoted'')
     (raise_if (el_image e \<noteq> vp_image (en_policy E)) (ValueError ''candidate was not evaluated by the currently pinned evaluator'')
     (bindE (evolution_policy_digest C (en_policy E)) (\<lambda>pd.
      raise_if (el_policy e \<noteq> pd) (ValueError ''candidate was not evaluated under the current evolution policy'')
      (bindE (registry_digest C (en_registry E)) (\<lambda>rd.
       raise_if (cn_registry c \<noteq> rd) (ValueError ''candidate parent registry is no longer current'')
       (bindE (source_tree_digest C (en_root E) t) (\<lambda>sd.
        raise_if (cn_source c \<noteq> sd) (ValueError ''candidate parent source tree is no longer current'')
        (bindE (validate_candidate c (en_policy E)) (\<lambda>_. Inr ()))))))))))"

text \<open>Everything before the first write: the identity, the root, the approval, the record's directory and the targets.\<close>

definition preflight :: "engine \<Rightarrow> string \<Rightarrow> string \<Rightarrow> string \<Rightarrow> tree \<Rightarrow> (string \<times> string \<times> approval \<times> string \<times> prepared list) result" where
  "preflight E package approval_file rollback_root t = (let C = en_crypto E; P = en_pydantic E in
     bindE (verify_evolution_package C P (en_stdlib E) package t) (\<lambda>root.
     bindE (bindE (read_bytes approval_file t) (parse_raw (parse_approval P))) (\<lambda>a.
     bindE (bindE (read_bytes (inside package ''candidate.json'') t) (parse_raw (parse_candidate P))) (\<lambda>c.
     bindE (candidate_id C c) (\<lambda>ident.
     bindE (verify_evolution_approval C a (en_policy E) ''promote_candidate'' ident root) (\<lambda>_.
     bindE (bindE (read_bytes (inside package ''evaluation.json'') t) (parse_raw (parse_evaluation P (en_stdlib E)))) (\<lambda>e.
     bindE (check_current E c e t) (\<lambda>_.
     bindE (under (en_root E) (inside rollback_root ident)) (\<lambda>rollback.
     raise_if (path_exists rollback t) (ValueError ''rollback record already exists'')
     (bindE (mapE (\<lambda>m. prepare_mutation E package m t) (cn_mutations c)) (\<lambda>xs.
      Inr (ident, root, a, rollback, xs))))))))))))"

definition record_path :: "string \<Rightarrow> string" where
  "record_path rollback = inside rollback ''promotion.json''"

definition write_prepared :: "prepared \<Rightarrow> (tree, unit) op" where
  "write_prepared x = write_deep (pp_destination x) (pp_promoted x)"

definition apply_promotion :: "crypto \<Rightarrow> string \<Rightarrow> string \<Rightarrow> approval \<Rightarrow> string \<Rightarrow> prepared list \<Rightarrow> (tree, string) op" where
  "apply_promotion C ident root a rollback xs =
     bindS (make_directory rollback) (\<lambda>_.
     bindS (mapS (write_backup rollback) xs) (\<lambda>_.
     bindS (write_line rollback ''promotion.json'' (promotion_record C ''prepared'' ident root a xs)) (\<lambda>_.
     bindS (mapS write_prepared xs) (\<lambda>_.
     bindS (write_line rollback ''promotion.json'' (promotion_record C ''applied'' ident root a xs)) (\<lambda>_.
     retS (record_path rollback))))))"

definition promote :: "engine \<Rightarrow> string \<Rightarrow> string \<Rightarrow> string \<Rightarrow> (('x, 't) site, string) op" where
  "promote E package approval_file rollback_root =
     bindS (on_fst (gate_require ''evolution'')) (\<lambda>_.
     bindS (getS (\<lambda>wt. preflight E package approval_file rollback_root (snd wt))) (\<lambda>r.
     bindS (liftS r) (\<lambda>(ident, root, a, rollback, xs).
     on_snd (apply_promotion (en_crypto E) ident root a rollback xs))))"

section \<open>Rollback\<close>

text \<open>\<open>str(v)\<close> and \<open>v[k]\<close> of a parsed JSON value.\<close>

definition str_of :: "stdlib \<Rightarrow> pyval \<Rightarrow> string" where
  "str_of L v = (case v of PStr s \<Rightarrow> s | PNone \<Rightarrow> ''None'' | _ \<Rightarrow> sl_str L v)"

definition item_of :: "pyval \<Rightarrow> string \<Rightarrow> pyval result" where
  "item_of v k = (case v of PDict kvs \<Rightarrow> of_option (KeyError k) (map_of kvs k) | _ \<Rightarrow> Inl (TypeError ''indices must be integers''))"

definition parent_path :: "string \<Rightarrow> string" where
  "parent_path p = (case ancestors p of [] \<Rightarrow> [] | as \<Rightarrow> last as)"

definition drifted :: exn where
  "drifted = ValueError ''promoted file drifted before rollback''"

definition undo_create :: "crypto \<Rightarrow> pyval \<Rightarrow> string \<Rightarrow> (tree, unit) op" where
  "undo_create C item dest = bindS (getS (path_exists dest)) (\<lambda>there. ifS (\<not> there) (retS ())
     (bindS (getS (\<lambda>t. map_of t dest)) (\<lambda>now. case now of None \<Rightarrow> raiseS drifted
      | Some b \<Rightarrow> bindS (liftS (item_of item ''promoted_sha256'')) (\<lambda>d.
          raiseS_if (d \<noteq> PStr (prefixed_digest C b)) drifted (remove_file dest)))))"

definition undo_replace :: "crypto \<Rightarrow> pyval \<Rightarrow> string \<Rightarrow> string \<Rightarrow> (tree, unit) op" where
  "undo_replace C item backup dest =
     bindS (getS (read_bytes backup)) (\<lambda>r. bindS (liftS r) (\<lambda>previous.
     bindS (getS (\<lambda>t. map_of t dest)) (\<lambda>now. case now of None \<Rightarrow> raiseS drifted
      | Some b \<Rightarrow> bindS (liftS (item_of item ''promoted_sha256'')) (\<lambda>d.
          ifS (d = PStr (prefixed_digest C b)) (write_bytes dest previous)
          (bindS (liftS (item_of item ''previous_sha256'')) (\<lambda>q.
           raiseS_if (q \<noteq> PStr (prefixed_digest C b)) drifted (retS ())))))))"

definition undo_item :: "engine \<Rightarrow> string \<Rightarrow> pyval \<Rightarrow> (tree, unit) op" where
  "undo_item E rollback item =
     bindS (liftS (item_of item ''path'')) (\<lambda>pv.
     bindS (liftS (case pv of PStr s \<Rightarrow> safe_relative s | _ \<Rightarrow> Inl (TypeError ''argument should be a str''))) (\<lambda>p.
     bindS (liftS (under (en_root E) (inside (en_root E) p))) (\<lambda>dest.
     bindS (liftS (item_of item ''operation'')) (\<lambda>oper.
     ifS (oper = PStr ''create'') (undo_create (en_crypto E) item dest)
      (undo_replace (en_crypto E) item (backup_path rollback p) dest)))))"

definition check_rollback :: "engine \<Rightarrow> string \<Rightarrow> string \<Rightarrow> tree \<Rightarrow> (string \<times> pyval) list result" where
  "check_rollback E rpath approval_file t =
     bindE (read_text rpath t) (\<lambda>s. bindE (loads s) (\<lambda>v.
     bindE (bindE (read_bytes approval_file t) (parse_raw (parse_approval (en_pydantic E)))) (\<lambda>a.
     case v of PDict kvs \<Rightarrow>
       bindE (verify_evolution_approval (en_crypto E) a (en_policy E) ''rollback_candidate''
         (str_of (en_stdlib E) (get_field ''candidate_id'' kvs)) (str_of (en_stdlib E) (get_field ''evolution_root'' kvs))) (\<lambda>_. Inr kvs)
     | _ \<Rightarrow> Inl (AttributeError ''get''))))"

definition undo_promotion :: "engine \<Rightarrow> string \<Rightarrow> string \<Rightarrow> (tree, unit) op" where
  "undo_promotion E rpath approval_file =
     bindS (getS (check_rollback E rpath approval_file)) (\<lambda>r. bindS (liftS r) (\<lambda>kvs.
     bindS (liftS (bindE (of_option (KeyError ''files'') (map_of kvs ''files'')) iterated)) (\<lambda>items.
     bindS (mapS (undo_item E (parent_path rpath)) items) (\<lambda>_.
     bindS (liftS (canonical_json (PDict (dict_put ''state'' (PStr ''rolled_back'') kvs)))) (\<lambda>b.
     write_bytes rpath (b @ [CHR 0x0A]))))))"

definition roll_back :: "engine \<Rightarrow> string \<Rightarrow> string \<Rightarrow> (('x, 't) site, unit) op" where
  "roll_back E rpath approval_file =
     bindS (on_fst (gate_require ''evolution'')) (\<lambda>_. on_snd (undo_promotion E rpath approval_file))"

section \<open>The commands\<close>

definition inside_project :: "engine \<Rightarrow> string \<Rightarrow> string result" where
  "inside_project E p = raise_if (CHR 0x00 \<in> set p) (ValueError ''embedded null byte'')
     (raise_if (p \<noteq> en_root E \<and> \<not> within_dir (en_root E) p) (ValueError ''must remain under the Rosetta project directory'') (Inr p))"

text \<open>The signer process of the command works behind the gate.\<close>

definition evaluate_command ::
  "engine \<Rightarrow> gate_limits \<Rightarrow> ('x, 't) signer \<Rightarrow> datetime \<Rightarrow> string \<Rightarrow> string \<Rightarrow> string \<Rightarrow> (('x, 't) site, pyval) op" where
  "evaluate_command E G raw now candidate_path output workspace =
     bindS (getS (\<lambda>wt. bindE (inside_project E candidate_path) (\<lambda>p. bindE (read_bytes p (snd wt)) (parse_raw (parse_candidate (en_pydantic E))))))
       (\<lambda>r. bindS (liftS r) (\<lambda>c.
     tryS (\<lambda>_. True)
       (bindS (on_fst (reserve_run G now 0)) (\<lambda>_.
        bindS (liftS (inside_project E workspace)) (\<lambda>ws. bindS (liftS (inside_project E output)) (\<lambda>out.
        bindS (evaluate_and_package E c ws out (guarded_sign raw)) (\<lambda>(root, e).
        bindS (on_fst (gate_record G ''evolution'' True now)) (\<lambda>_.
        retS (PDict [(''schema'', PStr ''rosetta.evolution-cli-result.v1''), (''candidate_id'', PStr (el_candidate_id e)),
          (''evolution_root'', PStr root), (''passed'', PBool (el_passed e)), (''state'', PStr (el_state e)),
          (''project_mutated'', PBool False), (''automatic_promotion'', PBool False)])))))))
       (\<lambda>x. bindS (on_fst (gate_record G ''evolution'' False now)) (\<lambda>_. raiseS x))))"

definition verify_command :: "engine \<Rightarrow> string \<Rightarrow> (('x, 't) site, pyval) op" where
  "verify_command E package = bindS (liftS (inside_project E package)) (\<lambda>p.
     bindS (getS (\<lambda>wt. verify_evolution_package (en_crypto E) (en_pydantic E) (en_stdlib E) p (snd wt))) (\<lambda>r.
     bindS (liftS r) (\<lambda>root. retS (PDict [(''schema'', PStr ''rosetta.evolution-verification.v1''), (''evolution_root'', PStr root),
       (''verified'', PBool True)]))))"

definition promote_command :: "engine \<Rightarrow> string \<Rightarrow> string \<Rightarrow> string \<Rightarrow> (('x, 't) site, pyval) op" where
  "promote_command E package approval_file rollback_root = bindS (liftS (inside_project E package)) (\<lambda>p.
     bindS (liftS (inside_project E approval_file)) (\<lambda>a. bindS (liftS (inside_project E rollback_root)) (\<lambda>d.
     bindS (promote E p a d) (\<lambda>rpath. retS (PDict [(''schema'', PStr ''rosetta.evolution-promotion-result.v1''),
       (''promoted'', PBool True), (''rollback_record'', PStr rpath)])))))"

definition rollback_command :: "engine \<Rightarrow> string \<Rightarrow> string \<Rightarrow> (('x, 't) site, pyval) op" where
  "rollback_command E rpath approval_file = bindS (liftS (inside_project E rpath)) (\<lambda>p.
     bindS (liftS (inside_project E approval_file)) (\<lambda>a. bindS (roll_back E p a) (\<lambda>_.
     retS (PDict [(''schema'', PStr ''rosetta.evolution-rollback-result.v1''), (''rolled_back'', PBool True)]))))"

end
