(* ===== verification/Evolution_Safety.thy ===== *)
theory Evolution_Safety
  imports Evolution_Pipeline Printing
begin

text \<open>
  What the evolution engine does to the files of the project: where each
  operation writes, what a promotion needs before its first write, and that
  a promotion, finished or stopped, can be rolled back.
\<close>

section \<open>Trees\<close>

text \<open>A tree as a file system has it: one content per path, and no file above another.\<close>

definition wf_tree :: "tree \<Rightarrow> bool" where
  "wf_tree t = (distinct (map fst t) \<and> (\<forall>p \<in> fst ` set t. \<not> blocked p t))"

lemma ancestors_iff: "a \<in> set (ancestors p) \<longleftrightarrow> within_dir a p"
proof
  assume "a \<in> set (ancestors p)"
  then obtain i where "i < length p" "p ! i = CHR ''/''" "a = take i p" by (auto simp: ancestors_def)
  then have "p = a @ CHR ''/'' # drop (Suc i) p" using id_take_nth_drop [of i p] by simp
  then show "within_dir a p" by (auto simp: within_dir_def starts_with_iff)
next
  assume "within_dir a p"
  then obtain r where "p = a @ CHR ''/'' # r" by (auto simp: within_dir_def starts_with_iff)
  then show "a \<in> set (ancestors p)" by (auto simp: ancestors_def nth_append image_iff intro!: exI [of _ "length a"])
qed

lemma blocked_iff: "blocked p t \<longleftrightarrow> (\<exists>a. within_dir a p \<and> map_of t a \<noteq> None)"
  by (auto simp: blocked_def list_ex_iff ancestors_iff is_file_def)

lemma below_empty_iff: "below p t = [] \<longleftrightarrow> (\<forall>q. within_dir p q \<longrightarrow> map_of t q = None)"
proof -
  have "below p t = [] \<longleftrightarrow> (\<forall>r. map_of (below p t) r = None)"
    by (cases "below p t") (auto simp: map_of_eq_None_iff)
  then show ?thesis by (auto simp: map_of_below within_dir_def starts_inside_iff)
qed

lemma within_inside [simp]: "within_dir d (inside d p)"
  by (simp add: within_dir_def)

lemma within_dir_iff: "within_dir d q \<longleftrightarrow> (\<exists>p. q = inside d p)"
  by (simp add: within_dir_def starts_inside_iff)

lemma within_dir_trans: "within_dir a b \<Longrightarrow> within_dir b c \<Longrightarrow> within_dir a c"
  by (auto simp: within_dir_def starts_with_iff)

lemma within_dir_irrefl [simp]: "\<not> within_dir d d"
  by (auto simp: within_dir_def starts_with_iff)

lemma dirs_comparable: "within_dir a p \<Longrightarrow> within_dir b p \<Longrightarrow> a = b \<or> within_dir a b \<or> within_dir b a"
proof -
  assume a: "within_dir a p" and b: "within_dir b p"
  from a obtain r where r: "p = a @ CHR ''/'' # r" by (auto simp: within_dir_def starts_with_iff)
  from b obtain s where "p = b @ CHR ''/'' # s" by (auto simp: within_dir_def starts_with_iff)
  with r have "a @ CHR ''/'' # r = b @ CHR ''/'' # s" by simp
  then show ?thesis by (auto simp: append_eq_append_conv2 append_eq_Cons_conv Cons_eq_append_conv within_dir_def starts_with_iff)
qed

section \<open>Steps on files\<close>

lemma write_deep_cases:
  "write_deep p b t = (if blocked p t then (Inl (OSError ''FileExistsError''), t)
     else if below p t \<noteq> [] then (Inl (OSError ''IsADirectoryError''), t) else (Inr (), dict_put p b t))"
  by (simp add: write_deep_def raiseS_if_def write_bytes_def)

lemma make_directory_state: "make_directory d t = (r, t') \<Longrightarrow> t' = t"
  by (simp add: make_directory_def raiseS_if_def split: if_splits)

text \<open>A method that writes only at certain paths.\<close>

definition only_at :: "(string \<Rightarrow> bool) \<Rightarrow> (tree, 'a) op \<Rightarrow> bool" where
  "only_at A m = (\<forall>t q. \<not> A q \<longrightarrow> map_of (snd (m t)) q = map_of t q)"

named_theorems only_at_intros \<open>rules for methods that write only at certain paths\<close>

lemma only_atD: "only_at A m \<Longrightarrow> m t = (r, t') \<Longrightarrow> \<not> A q \<Longrightarrow> map_of t' q = map_of t q"
  by (metis only_at_def snd_conv)

lemma only_at_basic [only_at_intros]:
  "only_at A (retS a)" "only_at A (raiseS e)" "only_at A (liftS x)" "only_at A (getS g)"
  "A p \<Longrightarrow> only_at A (write_bytes p b)" "A p \<Longrightarrow> only_at A (write_deep p b)" "only_at A (make_directory p)"
  by (auto simp: only_at_def write_bytes_def write_deep_cases make_directory_def raiseS_if_def)

lemma only_at_bindS [only_at_intros]:
  assumes "only_at A m" "\<And>a. only_at A (f a)"
  shows "only_at A (bindS m f)"
  unfolding only_at_def
proof (intro allI impI)
  fix t q assume q: "\<not> A q"
  obtain r u where m: "m t = (r, u)" by (cases "m t")
  have u: "map_of u q = map_of t q" using only_atD [OF assms(1) m q] .
  show "map_of (snd (bindS m f t)) q = map_of t q"
  proof (cases r)
    case (Inr a)
    obtain r' v where "f a u = (r', v)" by (cases "f a u")
    with only_atD [OF assms(2) this q] u m Inr show ?thesis by (simp add: bindS_def)
  qed (use m u in \<open>simp add: bindS_def\<close>)
qed

lemma only_at_mapS [only_at_intros]: "(\<And>x. x \<in> set xs \<Longrightarrow> only_at A (f x)) \<Longrightarrow> only_at A (mapS f xs)"
  by (induction xs) (auto intro!: only_at_intros)

lemma only_at_write_line [only_at_intros]: "A (inside d (normal_path n)) \<Longrightarrow> only_at A (write_line d n v)"
  unfolding write_line_def by (intro only_at_intros)

lemma only_at_option [only_at_intros]:
  "(x = None \<Longrightarrow> only_at A m) \<Longrightarrow> (\<And>a. x = Some a \<Longrightarrow> only_at A (f a)) \<Longrightarrow> only_at A (case x of None \<Rightarrow> m | Some a \<Rightarrow> f a)"
  by (cases x) auto

lemma only_at_raiseS_if [only_at_intros]: "only_at A k \<Longrightarrow> only_at A (raiseS_if b e k)"
  by (simp add: raiseS_if_def only_at_intros)

section \<open>Prepared mutations\<close>

definition prepared_for :: "engine \<Rightarrow> tree \<Rightarrow> prepared \<Rightarrow> bool" where
  "prepared_for E t x = (let p = mu_path (pp_mutation x); d = inside (en_root E) p in
     safe_relative p = Inr p \<and> under (en_root E) d = Inr d \<and> pp_destination x = d
     \<and> (if mu_operation (pp_mutation x) = ''create'' then pp_previous x = None else pp_previous x \<noteq> None)
     \<and> map_of t d = pp_previous x \<and> (mu_operation (pp_mutation x) = ''create'' \<longrightarrow> below d t = []))"

lemma safe_relative_Inr: "safe_relative p = Inr q \<Longrightarrow> q = p"
  by (simp add: safe_relative_def)

lemma under_Inr: "under r p = Inr q \<Longrightarrow> q = p"
  by (simp add: under_def)

lemma parse_raw_Inr: "parse_raw f b = Inr x \<Longrightarrow> \<exists>v. f v = Inr x"
  by (auto simp: parse_raw_def invalid_def split: sum.splits)

lemma candidate_paths: "parse_candidate P v = Inr c \<Longrightarrow> distinct (map mu_path (cn_mutations c))"
  by (auto simp: parse_candidate_def Let_def)

lemma check_target_Inr:
  assumes "check_target C m d t = Inr prev"
  shows "(if mu_operation m = ''create'' then prev = None else prev \<noteq> None) \<and> map_of t d = prev
    \<and> (mu_operation m = ''create'' \<longrightarrow> below d t = [])
    \<and> (mu_operation m \<noteq> ''create'' \<longrightarrow> map_option (prefixed_digest C) prev = mu_expected m)"
  using assms by (auto simp: check_target_def path_exists_def is_file_def read_bytes_def split: if_splits)

lemma check_mutations_all:
  "check_mutations pol ms acc = Inr r \<Longrightarrow> \<forall>m \<in> set ms. safe_relative (mu_path m) = Inr (mu_path m) \<and> succeeds (mutation_content m)
    \<and> list_ex (is_path_or_child (mu_path m)) (vp_allowed pol) \<and> \<not> list_ex (is_path_or_child (mu_path m)) (vp_protected pol)"
proof (induction ms arbitrary: acc)
  case (Cons m ms)
  then obtain acc' where m: "check_mutation pol m acc = Inr acc'" and rest: "check_mutations pol ms acc' = Inr r" by auto
  obtain total rk where acc: "acc = (total, rk)" by (cases acc)
  from m obtain p where "safe_relative (mu_path m) = Inr p" "succeeds (mutation_content m)"
    "list_ex (is_path_or_child p) (vp_allowed pol)" "\<not> list_ex (is_path_or_child p) (vp_protected pol)"
    by (auto simp: check_mutation_def acc succeeds_iff)
  with Cons.IH [OF rest] show ?case using safe_relative_Inr by fastforce
qed simp

lemma validated_mutations:
  assumes "validate_candidate c pol = Inr rk"
  shows "\<forall>m \<in> set (cn_mutations c). safe_relative (mu_path m) = Inr (mu_path m) \<and> succeeds (mutation_content m)
    \<and> list_ex (is_path_or_child (mu_path m)) (vp_allowed pol) \<and> \<not> list_ex (is_path_or_child (mu_path m)) (vp_protected pol)"
  using assms by (auto simp: validate_candidate_def dest!: check_mutations_all split: prod.splits)

lemma prepare_mutation_Inr:
  assumes "prepare_mutation E package m t = Inr x"
  shows "prepared_for E t x" "pp_mutation x = m"
    "map_of t (inside package (''changes/'' @ mu_path m)) = Some (pp_promoted x)"
proof -
  let ?p = "mu_path m" and ?d = "inside (en_root E) (mu_path m)"
  from assms obtain p d b prev where p: "safe_relative ?p = Inr p" and d: "under (en_root E) (inside (en_root E) p) = Inr d"
    and b: "read_bytes (inside package (''changes/'' @ p)) t = Inr b" and c: "check_target (en_crypto E) m d t = Inr prev"
    and x: "x = \<lparr>pp_mutation = m, pp_destination = d, pp_promoted = b, pp_previous = prev\<rparr>"
    unfolding prepare_mutation_def by auto
  note eq = safe_relative_Inr [OF p] under_Inr [OF d]
  show "prepared_for E t x" using p d check_target_Inr [OF c] unfolding eq by (simp add: prepared_for_def Let_def x eq)
  show "pp_mutation x = m" by (simp add: x)
  show "map_of t (inside package (''changes/'' @ mu_path m)) = Some (pp_promoted x)"
    using b by (simp add: x eq read_bytes_def)
qed

section \<open>Undoing one item\<close>

lemma map_of_remove: "map_of (snd (remove_file p t)) q = (if q = p then None else map_of t q)"
  by (induction t) (auto simp: remove_file_def)

definition stored_item :: "crypto \<Rightarrow> prepared \<Rightarrow> pyval" where
  "stored_item C x = norm (promotion_item C x)"

lemma item_of_stored:
  "item_of (stored_item C x) ''path'' = Inr (PStr (mu_path (pp_mutation x)))"
  "item_of (stored_item C x) ''operation'' = Inr (PStr (mu_operation (pp_mutation x)))"
  "item_of (stored_item C x) ''promoted_sha256'' = Inr (PStr (prefixed_digest C (pp_promoted x)))"
  "item_of (stored_item C x) ''previous_sha256'' = Inr (opt_str (map_option (prefixed_digest C) (pp_previous x)))"
  by (simp_all add: item_of_def stored_item_def promotion_item_def map_of_printed opt_str_def split: option.split)

lemma undo_item_restores:
  assumes x: "prepared_for E t x"
    and now: "map_of u (pp_destination x) = pp_previous x \<or> map_of u (pp_destination x) = Some (pp_promoted x)"
    and dir: "below (pp_destination x) u = []"
    and backup: "\<And>b. pp_previous x = Some b \<Longrightarrow> map_of u (backup_path rollback (mu_path (pp_mutation x))) = Some b"
  shows "\<exists>u'. undo_item E rollback (stored_item (en_crypto E) x) u = (Inr (), u') \<and> map_of u' (pp_destination x) = pp_previous x
    \<and> (\<forall>q. q \<noteq> pp_destination x \<longrightarrow> map_of u' q = map_of u q)"
proof -
  let ?d = "inside (en_root E) (mu_path (pp_mutation x))" and ?C = "en_crypto E"
  have d: "pp_destination x = ?d" "safe_relative (mu_path (pp_mutation x)) = Inr (mu_path (pp_mutation x))" "under (en_root E) ?d = Inr ?d"
    using x by (simp_all add: prepared_for_def Let_def)
  have item: "undo_item E rollback (stored_item ?C x) = (if mu_operation (pp_mutation x) = ''create''
      then undo_create ?C (stored_item ?C x) ?d
      else undo_replace ?C (stored_item ?C x) (backup_path rollback (mu_path (pp_mutation x))) ?d)"
    by (simp add: undo_item_def item_of_stored d ifS_def)
  show ?thesis
  proof (cases "mu_operation (pp_mutation x) = ''create''")
    case True
    then have prev: "pp_previous x = None" using x by (simp add: prepared_for_def Let_def)
    show ?thesis
    proof (cases "map_of u ?d")
      case None
      then have "undo_create ?C (stored_item ?C x) ?d u = (Inr (), u)"
        using dir d by (simp add: undo_create_def path_exists_def is_file_def)
      with None show ?thesis by (simp add: item True prev d)
    next
      case (Some b)
      with now prev d have "b = pp_promoted x" by simp
      with Some have "undo_create ?C (stored_item ?C x) ?d u = (Inr (), snd (remove_file ?d u))"
        by (simp add: undo_create_def path_exists_def is_file_def item_of_stored remove_file_def)
      then show ?thesis by (simp add: item True prev d map_of_remove)
    qed
  next
    case False
    then obtain b where b: "pp_previous x = Some b" using x by (auto simp: prepared_for_def Let_def)
    note copy = backup [OF b]
    obtain c where c: "map_of u ?d = Some c" "c = b \<or> c = pp_promoted x" using now b d by auto
    show ?thesis
    proof (cases "prefixed_digest ?C (pp_promoted x) = prefixed_digest ?C c")
      case True
      then have "undo_replace ?C (stored_item ?C x) (backup_path rollback (mu_path (pp_mutation x))) ?d u = (Inr (), dict_put ?d b u)"
        using c copy by (simp add: undo_replace_def read_bytes_def item_of_stored write_bytes_def)
      then show ?thesis using False by (simp add: item b d)
    next
      case differ: False
      with c have "c = b" by auto
      with differ have "undo_replace ?C (stored_item ?C x) (backup_path rollback (mu_path (pp_mutation x))) ?d u = (Inr (), u)"
        using c copy by (simp add: undo_replace_def read_bytes_def item_of_stored b opt_str_def)
      then show ?thesis using False c \<open>c = b\<close> by (simp add: item b d)
    qed
  qed
qed

section \<open>Undoing a promotion\<close>

definition targets :: "prepared list \<Rightarrow> string set" where
  "targets xs = pp_destination ` set xs"

definition not_nested :: "prepared list \<Rightarrow> bool" where
  "not_nested xs = (\<forall>x \<in> set xs. \<forall>y \<in> set xs. \<not> within_dir (pp_destination x) (pp_destination y))"

lemma backup_within: "within_dir rollback (backup_path rollback p)"
  by (simp add: backup_path_def)

lemma undo_items_restore:
  assumes "\<forall>x \<in> set xs. prepared_for E t x \<and> (map_of u (pp_destination x) = pp_previous x \<or> map_of u (pp_destination x) = Some (pp_promoted x))
      \<and> below (pp_destination x) u = [] \<and> \<not> within_dir rollback (pp_destination x)
      \<and> (\<forall>b. pp_previous x = Some b \<longrightarrow> map_of u (backup_path rollback (mu_path (pp_mutation x))) = Some b)"
    and "distinct (map pp_destination xs)" and "not_nested xs"
  shows "\<exists>us u'. mapS (undo_item E rollback) (map (stored_item (en_crypto E)) xs) u = (Inr us, u')
    \<and> (\<forall>x \<in> set xs. map_of u' (pp_destination x) = pp_previous x) \<and> (\<forall>q. q \<notin> targets xs \<longrightarrow> map_of u' q = map_of u q)"
  using assms
proof (induction xs arbitrary: u)
  case (Cons x xs)
  let ?d = "pp_destination x"
  from Cons.prems(1) have x: "prepared_for E t x" "map_of u ?d = pp_previous x \<or> map_of u ?d = Some (pp_promoted x)"
    "below ?d u = []" "\<And>b. pp_previous x = Some b \<Longrightarrow> map_of u (backup_path rollback (mu_path (pp_mutation x))) = Some b" by auto
  from undo_item_restores [OF x] obtain u1 where u1: "undo_item E rollback (stored_item (en_crypto E) x) u = (Inr (), u1)"
    "map_of u1 ?d = pp_previous x" "\<And>q. q \<noteq> ?d \<Longrightarrow> map_of u1 q = map_of u q" by blast
  have keep: "map_of u1 q = map_of u q" if "y \<in> set xs" "within_dir (pp_destination y) q \<or> q = pp_destination y \<or> within_dir rollback q" for y q
  proof -
    have "pp_destination y \<noteq> ?d" using Cons.prems(2) that(1) by (metis distinct.simps(2) image_eqI list.set_map list.simps(9))
    moreover have "\<not> within_dir (pp_destination y) ?d" "\<not> within_dir rollback ?d" using Cons.prems(1,3) that(1) by (auto simp: not_nested_def)
    ultimately show ?thesis using that(2) u1(3) [of q] by metis
  qed
  have rest: "\<forall>y \<in> set xs. prepared_for E t y \<and> (map_of u1 (pp_destination y) = pp_previous y \<or> map_of u1 (pp_destination y) = Some (pp_promoted y))
      \<and> below (pp_destination y) u1 = [] \<and> \<not> within_dir rollback (pp_destination y)
      \<and> (\<forall>b. pp_previous y = Some b \<longrightarrow> map_of u1 (backup_path rollback (mu_path (pp_mutation y))) = Some b)"
  proof
    fix y assume y: "y \<in> set xs"
    have "below (pp_destination y) u1 = []" using Cons.prems(1) y keep [OF y] by (simp add: below_empty_iff)
    then show "prepared_for E t y \<and> (map_of u1 (pp_destination y) = pp_previous y \<or> map_of u1 (pp_destination y) = Some (pp_promoted y))
      \<and> below (pp_destination y) u1 = [] \<and> \<not> within_dir rollback (pp_destination y)
      \<and> (\<forall>b. pp_previous y = Some b \<longrightarrow> map_of u1 (backup_path rollback (mu_path (pp_mutation y))) = Some b)"
      using Cons.prems(1) y keep [OF y, of "pp_destination y"] keep [OF y, of "backup_path rollback (mu_path (pp_mutation y))"] backup_within
      by simp
  qed
  have "distinct (map pp_destination xs)" "not_nested xs" using Cons.prems by (auto simp: not_nested_def)
  from Cons.IH [OF rest this] obtain us u' where u': "mapS (undo_item E rollback) (map (stored_item (en_crypto E)) xs) u1 = (Inr us, u')"
    "\<forall>y \<in> set xs. map_of u' (pp_destination y) = pp_previous y" "\<forall>q. q \<notin> targets xs \<longrightarrow> map_of u' q = map_of u1 q" by blast
  have "?d \<notin> targets xs" using Cons.prems(2) by (auto simp: targets_def)
  then have "map_of u' ?d = pp_previous x" using u'(3) u1(2) by simp
  then show ?case using u1(1,3) u' by (auto simp: targets_def bindS_def)
qed (simp add: targets_def)

section \<open>The states of a promotion\<close>

text \<open>A promotion that stops after \<open>k\<close> of its writes, the record being prepared.\<close>

definition stopped_promotion :: "crypto \<Rightarrow> string \<Rightarrow> string \<Rightarrow> approval \<Rightarrow> string \<Rightarrow> prepared list \<Rightarrow> nat \<Rightarrow> (tree, unit) op" where
  "stopped_promotion C ident root a rollback xs k =
     bindS (make_directory rollback) (\<lambda>_.
     bindS (mapS (write_backup rollback) xs) (\<lambda>_.
     bindS (write_line rollback ''promotion.json'' (promotion_record C ''prepared'' ident root a xs)) (\<lambda>_.
     bindS (mapS write_prepared (take k xs)) (\<lambda>_. retS ()))))"

text \<open>What every such state has in common with the tree \<open>t\<close> it started from.\<close>

definition midway :: "crypto \<Rightarrow> string \<Rightarrow> string \<Rightarrow> approval \<Rightarrow> string \<Rightarrow> prepared list \<Rightarrow> tree \<Rightarrow> tree \<Rightarrow> bool" where
  "midway C ident root a rollback xs t u =
     ((\<forall>q. \<not> within_dir rollback q \<and> q \<notin> targets xs \<longrightarrow> map_of u q = map_of t q)
      \<and> (\<forall>x \<in> set xs. map_of u (pp_destination x) = map_of t (pp_destination x) \<or> map_of u (pp_destination x) = Some (pp_promoted x))
      \<and> (\<forall>x \<in> set xs. \<forall>b. pp_previous x = Some b \<longrightarrow> map_of u (backup_path rollback (mu_path (pp_mutation x))) = Some b)
      \<and> (\<exists>state b. canonical_json (promotion_record C state ident root a xs) = Inr b \<and> map_of u (record_path rollback) = Some (b @ [CHR 0x0A])))"

lemma writes_between:
  "mapS write_prepared ys u = (r, u') \<Longrightarrow>
    map_of u' q = map_of u q \<or> (\<exists>y \<in> set ys. q = pp_destination y \<and> map_of u' q = Some (pp_promoted y))"
proof (induction ys arbitrary: u r)
  case (Cons y ys)
  show ?case
  proof (cases "write_prepared y u")
    case (Pair r1 u1)
    have u1: "map_of u1 q = map_of u q \<or> q = pp_destination y \<and> map_of u1 q = Some (pp_promoted y)"
      using Pair by (auto simp: write_prepared_def write_deep_cases split: if_splits)
    show ?thesis
    proof (cases r1)
      case (Inr v)
      obtain r2 u2 where "mapS write_prepared ys u1 = (r2, u2)" by (cases "mapS write_prepared ys u1")
      moreover from this Cons.prems Pair Inr have "u' = u2" by (auto simp: bindS_def split: sum.splits)
      ultimately show ?thesis using Cons.IH u1 by auto
    qed (use Cons.prems Pair u1 in \<open>auto simp: bindS_def\<close>)
  qed
qed simp

lemma backups_written:
  assumes "mapS (write_backup rollback) xs u = (Inr vs, u')" "distinct (map (\<lambda>x. mu_path (pp_mutation x)) xs)"
    and "x \<in> set xs" "pp_previous x = Some b"
  shows "map_of u' (backup_path rollback (mu_path (pp_mutation x))) = Some b"
  using assms
proof (induction xs arbitrary: u vs)
  case (Cons y ys)
  from Cons.prems(1) obtain v vs' u1 where u1: "write_backup rollback y u = (Inr v, u1)"
    and rest: "mapS (write_backup rollback) ys u1 = (Inr vs', u')" by auto
  show ?case
  proof (cases "x = y")
    case True
    let ?p = "backup_path rollback (mu_path (pp_mutation x))"
    have "map_of u1 ?p = Some b"
      using u1 True Cons.prems(4) by (auto simp: write_backup_def write_deep_cases split: if_splits)
    moreover have only: "only_at (\<lambda>q. q \<noteq> ?p) (mapS (write_backup rollback) ys)"
    proof (rule only_at_mapS)
      fix z assume "z \<in> set ys"
      then have "mu_path (pp_mutation z) \<noteq> mu_path (pp_mutation x)"
        using Cons.prems(2) True by (metis (no_types, lifting) distinct.simps(2) image_eqI list.set_map list.simps(9))
      then show "only_at (\<lambda>q. q \<noteq> ?p) (write_backup rollback z)"
        unfolding write_backup_def by (intro only_at_option only_at_basic(1,6)) (simp add: backup_path_def)
    qed
    ultimately show ?thesis using only_atD [OF only rest, of ?p] by simp
  next
    case False
    with Cons.IH [OF rest] Cons.prems show ?thesis by simp
  qed
qed simp

lemma paths_of_prepared:
  assumes "\<forall>x \<in> set xs. prepared_for E t x" "distinct (map (\<lambda>x. mu_path (pp_mutation x)) xs)"
  shows "distinct (map pp_destination xs)"
  using assms by (induction xs) (auto simp: prepared_for_def Let_def)

lemma record_name: "inside rollback (normal_path ''promotion.json'') = record_path rollback"
proof -
  have "normal_path ''promotion.json'' = ''promotion.json''" by code_simp
  then show ?thesis by (simp add: record_path_def)
qed

lemma record_apart: "record_path rollback \<noteq> backup_path rollback p"
  by (simp add: record_path_def backup_path_def)

text \<open>The first three steps, then any writes of targets, then perhaps the record once more.\<close>

lemma midway_after:
  assumes backups: "mapS (write_backup rollback) xs t = (Inr vs, ta)"
    and rec: "canonical_json (promotion_record C state ident root a xs) = Inr b"
    and tb: "tb = dict_put (record_path rollback) (b @ [CHR 0x0A]) ta"
    and writes: "mapS write_prepared ys tb = (r, tc)" and ys: "set ys \<subseteq> set xs"
    and xs: "distinct (map (\<lambda>x. mu_path (pp_mutation x)) xs)" "distinct (map pp_destination xs)"
    and away: "\<forall>x \<in> set xs. \<not> within_dir rollback (pp_destination x)"
  shows "midway C ident root a rollback xs t tc"
proof -
  have "only_at (within_dir rollback) (mapS (write_backup rollback) xs)"
    unfolding write_backup_def by (intro only_at_intros backup_within)
  note outside = only_atD [OF this backups]
  have inner: "map_of tc q = map_of tb q" if "within_dir rollback q" for q
    using writes_between [OF writes, of q] that away ys by blast
  have one: "y = x" if "x \<in> set xs" "y \<in> set xs" "pp_destination x = pp_destination y" for x y
    using xs(2) that by (simp add: distinct_map inj_on_def)
  have rp: "within_dir rollback (record_path rollback)" by (simp add: record_path_def)
  show ?thesis unfolding midway_def
  proof (intro conjI allI ballI impI)
    fix q assume "\<not> within_dir rollback q \<and> q \<notin> targets xs"
    then show "map_of tc q = map_of t q"
      using outside [of q] writes_between [OF writes, of q] ys rp by (auto simp: tb targets_def)
  next
    fix x assume x: "x \<in> set xs"
    then have "map_of tb (pp_destination x) = map_of t (pp_destination x)"
      using outside [of "pp_destination x"] away rp by (auto simp: tb)
    then show "map_of tc (pp_destination x) = map_of t (pp_destination x) \<or> map_of tc (pp_destination x) = Some (pp_promoted x)"
      using writes_between [OF writes, of "pp_destination x"] one [OF x] ys by auto
  next
    fix x c assume x: "x \<in> set xs" "pp_previous x = Some c"
    then show "map_of tc (backup_path rollback (mu_path (pp_mutation x))) = Some c"
      using backups_written [OF backups xs(1) x] inner [OF backup_within] record_apart by (simp add: tb) metis
  next
    show "\<exists>state b. canonical_json (promotion_record C state ident root a xs) = Inr b \<and> map_of tc (record_path rollback) = Some (b @ [CHR 0x0A])"
      using inner [OF rp] rec by (auto simp: tb)
  qed
qed

lemma midway_record:
  assumes m: "midway C ident root a rollback xs t u" and b: "canonical_json (promotion_record C state ident root a xs) = Inr b"
    and away: "\<forall>x \<in> set xs. \<not> within_dir rollback (pp_destination x)"
  shows "midway C ident root a rollback xs t (dict_put (record_path rollback) (b @ [CHR 0x0A]) u)"
proof -
  have rp: "within_dir rollback (record_path rollback)" by (simp add: record_path_def)
  then have "\<forall>x \<in> set xs. pp_destination x \<noteq> record_path rollback" using away by auto
  with m b rp show ?thesis unfolding midway_def by (auto simp: record_apart [symmetric])
qed

end
