(* ===== verification/Evolution_Package.thy ===== *)
theory Evolution_Package
  imports Evolution_Safety
begin

text \<open>
  Packages: the documents of a package read back as what was written, the list of
  files that packaging leaves, and the verification of such a list.  The order of
  the checksum entries matters: the last section shows which file sets the verifier
  never accepts.
\<close>

section \<open>Documents read back\<close>

definition rounded :: "candidate \<Rightarrow> candidate" where
  "rounded c = c\<lparr>cn_proposed_at := utc_at (to_second (instant (cn_proposed_at c)))\<rparr>"

definition valid_mutation :: "mutation \<Rightarrow> bool" where
  "valid_mutation m = (mu_operation m \<in> {''create'', ''replace''} \<and> (\<forall>d. mu_expected m = Some d \<longrightarrow> immutable_digest d))"

definition valid_candidate :: "candidate \<Rightarrow> bool" where
  "valid_candidate c = (cn_trigger c \<in> {''protocol_release'', ''regression'', ''coverage_gap'', ''operator''}
     \<and> cn_objective c \<noteq> [] \<and> length (cn_objective c) \<le> 512 \<and> strip (cn_objective c) = cn_objective c
     \<and> immutable_digest (cn_bundle_root c) \<and> immutable_digest (cn_registry c) \<and> immutable_digest (cn_source c)
     \<and> (\<exists>w. in_range w \<and> cn_proposed_at c = utc_at w) \<and> cn_mutations c \<noteq> [] \<and> distinct (map mu_path (cn_mutations c))
     \<and> list_all valid_mutation (cn_mutations c))"

lemma a_digest_Inr: "a_digest v = Inr s \<longleftrightarrow> v = Some (PStr s) \<and> immutable_digest s"
  by (auto simp: a_digest_def strict_str_Inr)

lemma parse_mutation_valid: "parse_mutation P v = Inr m \<Longrightarrow> valid_mutation m"
proof -
  assume p: "parse_mutation P v = Inr m"
  have o: "\<forall>d. x = Some d \<longrightarrow> immutable_digest d" if "optional a_digest y = Inr x" for x y
    using that by (auto simp: optional_def a_digest_Inr split: option.splits pyval.splits)
  from p show ?thesis by (auto simp: parse_mutation_def Let_def valid_mutation_def literal_Inr dest: o)
qed

lemma aware_utc_Inr: "aware_utc P v = Inr t \<Longrightarrow> \<exists>w. in_range w \<and> t = utc_at w"
  by (auto simp: aware_utc_def to_utc_Inr)

lemma parse_candidate_valid: "parse_candidate P v = Inr c \<Longrightarrow> valid_candidate c"
proof -
  assume p: "parse_candidate P v = Inr c"
  have ms: "list_all valid_mutation ms" if "model_list (parse_mutation P) x = Inr ms" for ms x
    using that mapE_all [of "parse_mutation P" _ ms valid_mutation] parse_mutation_valid
    by (auto simp: model_list_def invalid_def split: option.splits pyval.splits)
  have le: "length s \<le> n \<Longrightarrow> length (strip s) \<le> n" for s n using length_strip [of s] by simp
  show ?thesis using p
    by (auto simp: parse_candidate_def Let_def valid_candidate_def literal_Inr a_digest_Inr bounded_text_def
        dest!: aware_utc_Inr dest: ms intro: le)
qed

lemma norm_opt_str [simp]: "norm (opt_str x) = opt_str x"
  by (simp add: opt_str_def split: option.split)

lemma optional_digest: "(\<And>d. x = Some d \<Longrightarrow> immutable_digest d) \<Longrightarrow> optional a_digest (Some (opt_str x)) = Inr x"
  by (cases x) (simp_all add: optional_def opt_str_def a_digest_def strict_str_def)

lemma mutation_reads_back: "valid_mutation m \<Longrightarrow> parse_mutation P (norm (mutation_dict m)) = Inr m"
  by (auto simp: valid_mutation_def parse_mutation_def mutation_dict_def as_dict_def literal_def strict_str_def optional_digest)

lemma mapE_reads_back:
  "list_all ok xs \<Longrightarrow> (\<And>x. ok x \<Longrightarrow> f (norm (g x)) = Inr x) \<Longrightarrow> mapE f (map (norm \<circ> g) xs) = Inr xs"
  by (induction xs) auto

lemma candidate_reads_back:
  assumes c: "valid_candidate c" and d: "reads_date P (cn_proposed_at c)"
  shows "parse_candidate P (norm (candidate_dict c)) = Inr (rounded c)"
proof -
  obtain w where w: "in_range w" "cn_proposed_at c = utc_at w" using c by (auto simp: valid_candidate_def)
  have t: "aware_utc P (Some (PStr (iso_seconds_z (utc_at w)))) = Inr (utc_at (to_second w))"
    using d w in_range_to_second [OF w(1)] by (simp add: aware_utc_def a_datetime_def reads_date_def to_utc_Inr)
  have ms: "mapE (parse_mutation P) (map (norm \<circ> mutation_dict) (cn_mutations c)) = Inr (cn_mutations c)"
    using c by (intro mapE_reads_back [where ok = valid_mutation] mutation_reads_back) (auto simp: valid_candidate_def)
  show ?thesis using c w t ms
    by (simp add: parse_candidate_def candidate_dict_def norm_list_map as_dict_def closed_fields_def schema_field_def candidate_fields_def
        literal_def strict_str_def a_digest_def bounded_text_def model_list_def valid_candidate_def rounded_def)
qed

lemma rounded_fields:
  "cn_mutations (rounded c) = cn_mutations c" "cn_bundle_root (rounded c) = cn_bundle_root c" "cn_registry (rounded c) = cn_registry c"
  "cn_source (rounded c) = cn_source c"
  by (simp_all add: rounded_def)

lemma rounded_id: "valid_candidate c \<Longrightarrow> candidate_id C (rounded c) = candidate_id C c"
proof -
  assume "valid_candidate c"
  then obtain w where w: "in_range w" "cn_proposed_at c = utc_at w" by (auto simp: valid_candidate_def)
  have "dumps False (PDateTime (utc_at (to_second w))) = dumps False (PDateTime (utc_at w))"
    using w(1) in_range_to_second [OF w(1)] iso_seconds_to_second [of w] by (simp add: to_utc_def in_range_def)
  then have "canonical_json (candidate_dict (rounded c)) = canonical_json (candidate_dict c)"
    using w by (simp add: canonical_json_def candidate_dict_def rounded_def del: dumps.simps(9))
  then show ?thesis by (simp add: candidate_id_def)
qed

definition valid_evaluation :: "evaluation \<Rightarrow> bool" where
  "valid_evaluation e = (immutable_digest (el_image e) \<and> immutable_digest (el_policy e)
     \<and> list_all (\<lambda>g. immutable_digest (gr_output_sha256 g)) (el_gates e) \<and> el_risk e \<in> set risk_names \<and> el_state e \<in> set evaluation_states)"

lemma gate_reads_back: "immutable_digest (gr_output_sha256 g) \<Longrightarrow> parse_gate_result P (norm (gate_result_dict g)) = Inr g"
  by (simp add: parse_gate_result_def gate_result_dict_def as_dict_def strict_str_def strict_int_def lax_bool_def a_digest_def)

lemma evaluation_reads_back:
  assumes "valid_evaluation e"
  shows "parse_evaluation P L (norm (evaluation_dict e)) = Inr e"
proof -
  have "mapE (parse_gate_result P) (map (norm \<circ> gate_result_dict) (el_gates e)) = Inr (el_gates e)"
    using assms by (intro mapE_reads_back [where ok = "\<lambda>g. immutable_digest (gr_output_sha256 g)"] gate_reads_back)
      (auto simp: valid_evaluation_def)
  then show ?thesis using assms
    by (simp add: parse_evaluation_def evaluation_dict_def norm_list_map as_dict_def closed_fields_def schema_field_def
        strict_str_def a_digest_def lax_bool_def model_list_def literal_def the_bool_def valid_evaluation_def)
qed

lemma lineage_reads_back:
  "ln_risk l \<in> set risk_names \<Longrightarrow> ln_state l \<in> set evaluation_states \<Longrightarrow> parse_lineage P L (norm (lineage_dict l)) = Inr l"
  by (simp add: parse_lineage_def lineage_dict_def as_dict_def closed_fields_def schema_field_def strict_str_def literal_def the_bool_def)

lemma proposal_reads_back: "parse_evolution_attestation P (norm (evolution_attestation_dict x)) = Inr x"
  by (simp add: parse_evolution_attestation_def evolution_attestation_dict_def as_dict_def closed_fields_def schema_field_def
      default_literal_def strict_str_def)

lemma documents_wf:
  "wf_json (candidate_dict c)" "wf_json (evaluation_dict e)" "wf_json (lineage_dict l)" "wf_json (evolution_attestation_dict x)"
  by (auto simp: candidate_dict_def evaluation_dict_def lineage_dict_def evolution_attestation_dict_def wf_list_iff mutation_dict_def
      gate_result_dict_def opt_str_def split: option.splits)

section \<open>The files that packaging writes\<close>

definition change_file :: "mutation \<Rightarrow> string \<times> bytes" where
  "change_file m = (''changes/'' @ mu_path m, (case mutation_content m of Inl _ \<Rightarrow> [] | Inr b \<Rightarrow> b))"

lemma changes_below:
  assumes "mapS (write_change d) ms t = (Inr us, u)" "distinct (map mu_path ms)" "\<forall>m \<in> set ms. ''changes/'' @ mu_path m \<notin> fst ` set (below d t)"
  shows "below d u = below d t @ map change_file ms \<and> (\<forall>m \<in> set ms. safe_relative (mu_path m) = Inr (mu_path m) \<and> succeeds (mutation_content m))"
  using assms
proof (induction ms arbitrary: t us)
  case (Cons m ms)
  from Cons.prems(1) obtain v t1 us' where one: "write_change d m t = (Inr v, t1)" and rest: "mapS (write_change d) ms t1 = (Inr us', u)"
    by auto
  from one obtain p b where p: "safe_relative (mu_path m) = Inr p" and b: "mutation_content m = Inr b"
    and t1: "write_deep (inside d (''changes/'' @ p)) b t = (Inr (), t1)"
    by (auto simp: write_change_def)
  have eq: "p = mu_path m" using safe_relative_Inr [OF p] .
  have t1: "below d t1 = below d t @ [change_file m]"
    using t1 Cons.prems(3) by (auto simp: write_deep_cases eq dict_put_new change_file_def b split: if_splits)
  have "''changes/'' @ mu_path n \<notin> fst ` set (below d t1)" if "n \<in> set ms" for n
    using Cons.prems(2,3) that unfolding t1 by (auto simp: change_file_def image_iff)
  with Cons.IH [OF rest] Cons.prems(2) t1 p b eq show ?case by auto
qed simp

definition package_files :: "bytes \<Rightarrow> bytes \<Rightarrow> bytes \<Rightarrow> mutation list \<Rightarrow> tree" where
  "package_files cb eb lb ms = [(''candidate.json'', cb @ [CHR 0x0A]), (''evaluation.json'', eb @ [CHR 0x0A]), (''lineage.json'', lb @ [CHR 0x0A])]
     @ map change_file ms"

lemma document_names: "normal_path ''candidate.json'' = ''candidate.json''" "normal_path ''evaluation.json'' = ''evaluation.json''"
  "normal_path ''lineage.json'' = ''lineage.json''"
  by code_simp+

lemma package_written:
  assumes w: "write_package_files C d c e t = (Inr (), u)" and ms: "distinct (map mu_path (cn_mutations c))"
  obtains cb eb lb where "canonical_json (candidate_dict c) = Inr cb" "canonical_json (evaluation_dict e) = Inr eb"
    "canonical_json (lineage_dict (lineage_of c e)) = Inr lb" "below d u = package_files cb eb lb (cn_mutations c)"
    "\<forall>m \<in> set (cn_mutations c). safe_relative (mu_path m) = Inr (mu_path m) \<and> succeeds (mutation_content m)"
proof -
  from w obtain t0 cb eb lb t1 us where t0: "below d t = []" "t0 = t"
    and b: "canonical_json (candidate_dict c) = Inr cb" "canonical_json (evaluation_dict e) = Inr eb" "canonical_json (lineage_dict (lineage_of c e)) = Inr lb"
    and t1: "t1 = dict_put (inside d ''lineage.json'') (lb @ [CHR 0x0A]) (dict_put (inside d ''evaluation.json'') (eb @ [CHR 0x0A])
      (dict_put (inside d ''candidate.json'') (cb @ [CHR 0x0A]) t0))"
    and m: "mapS (write_change d) (cn_mutations c) t1 = (Inr us, u)"
    unfolding write_package_files_def by (auto simp: write_line_Inr document_names dest!: make_directory_state)
  have below: "below d t1 = [(''candidate.json'', cb @ [CHR 0x0A]), (''evaluation.json'', eb @ [CHR 0x0A]), (''lineage.json'', lb @ [CHR 0x0A])]"
    by (simp add: t1 t0 dict_put_new)
  have "\<forall>m \<in> set (cn_mutations c). ''changes/'' @ mu_path m \<notin> fst ` set (below d t1)" by (simp add: below)
  from changes_below [OF m ms this] below b that show ?thesis by (simp add: package_files_def)
qed

section \<open>Orderly paths\<close>

text \<open>
  The writer lists the files part by part, the verifier sorts the lines as texts:
  paths on which the two orders agree, and without line breaks and null characters.
\<close>

definition orderly :: "string list \<Rightarrow> bool" where
  "orderly ps = (list_all (list_all (\<lambda>c. \<not> line_break c \<and> c \<noteq> CHR 0x00)) ps
     \<and> (\<forall>p \<in> set ps. \<forall>q \<in> set ps. split_on CHR ''/'' p \<le> split_on CHR ''/'' q \<longrightarrow> p \<le> q))"

lemma package_entries_bundle: "package_entries C fs = bundle_entries C fs"
  by (simp add: package_entries_def bundle_entries_def is_payload_def)

lemma package_root_bundle: "package_root C es = compute_bundle_root C es"
  by (simp add: package_root_def compute_bundle_root_def)

lemma entries_members: "(p, d) \<in> set (bundle_entries C fs) \<longleftrightarrow> is_payload p \<and> (\<exists>b. (p, b) \<in> set fs \<and> d = sha256_hex C b)"
  by (auto simp: bundle_entries_def sorted_files_def)

lemma entries_in_order:
  assumes d: "distinct (map fst fs)"
    and order: "\<And>x y. x \<in> fst ` set fs \<Longrightarrow> y \<in> fst ` set fs \<Longrightarrow> split_on CHR ''/'' x \<le> split_on CHR ''/'' y \<Longrightarrow> x \<le> y"
  shows "sorted (bundle_entries C fs)" "distinct (bundle_entries C fs)"
proof -
  let ?gs = "filter (\<lambda>(p, _). is_payload p) (sorted_files fs)"
  have set_eq: "set (sorted_files fs) = set fs" by (simp add: sorted_files_def)
  have "sorted (map (\<lambda>(p, _). split_on CHR ''/'' p) (sorted_files fs))" by (simp add: sorted_files_def)
  then have "sorted_wrt (\<lambda>x y. split_on CHR ''/'' (fst x) \<le> split_on CHR ''/'' (fst y)) (sorted_files fs)"
    by (simp add: sorted_map case_prod_unfold)
  then have "sorted_wrt (\<lambda>x y. fst x \<le> fst y) (sorted_files fs)"
    by (rule sorted_wrt_mono_rel [rotated]) (use set_eq in \<open>auto intro!: order\<close>)
  then have s: "sorted_wrt (\<lambda>x y. fst x \<le> fst y) ?gs" by (rule sorted_wrt_filter)
  have "distinct (map fst (sorted_files fs))" using d by (simp add: sorted_files_def distinct_map inj_on_def)
  then have dist: "distinct (map fst ?gs)" by (rule distinct_map_filter)
  show "sorted (bundle_entries C fs)" unfolding bundle_entries_def using key_order [OF dist s] .
  have "map fst (bundle_entries C fs) = map fst ?gs" by (auto simp: bundle_entries_def)
  with dist show "distinct (bundle_entries C fs)" by (metis distinct_map)
qed

lemma split_change: "split_on CHR ''/'' (''changes/'' @ p) = ''changes'' # split_on CHR ''/'' p"
  using split_on_append [of "CHR ''/''" "''changes''" p] by simp

lemma safe_change: "safe_relative p = Inr p \<Longrightarrow> safe_relative (''changes/'' @ p) = Inr (''changes/'' @ p)"
proof -
  assume p: "safe_relative p = Inr p"
  have parts: "path_parts (''changes/'' @ p) = ''changes'' # path_parts p" by (simp add: path_parts_def split_change del: append.simps)
  have "normal_path p = p" "path_parts p \<noteq> []" using p by (auto simp: safe_relative_def)
  moreover from this have "normal_path (''changes/'' @ p) = ''changes/'' @ p"
    unfolding normal_path_def parts join_nonempty by simp
  ultimately show ?thesis using p parts by (auto simp: safe_relative_def starts_with_def simp del: split_change)
qed

definition document_paths :: "string list" where
  "document_paths = [''candidate.json'', ''evaluation.json'', ''lineage.json'']"

lemma package_keys: "map fst (package_files cb eb lb ms) = document_paths @ map (\<lambda>m. ''changes/'' @ mu_path m) ms"
  by (simp add: package_files_def document_paths_def change_file_def)

lemma package_order:
  assumes o': "orderly (map mu_path ms)" and x: "x \<in> fst ` set (package_files cb eb lb ms)" "y \<in> fst ` set (package_files cb eb lb ms)"
    and le: "split_on CHR ''/'' x \<le> split_on CHR ''/'' y"
  shows "x \<le> y"
proof -
  have keys: "z \<in> set document_paths \<or> (\<exists>m \<in> set ms. z = ''changes/'' @ mu_path m)" if "z \<in> fst ` set (package_files cb eb lb ms)" for z
    using that package_keys [of cb eb lb ms] by (metis (no_types, lifting) Un_iff image_iff list.set_map set_append)
  have doc: "split_on CHR ''/'' z = [z]" if "z \<in> set document_paths" for z using that by (auto simp: document_paths_def)
  show ?thesis
  proof (cases "x \<in> set document_paths")
    case True
    then show ?thesis using keys [OF x(2)] le by (auto simp: doc split_change document_paths_def less_char_def simp del: append.simps)
      (auto simp: less_char_def)
  next
    case False
    then obtain m where m: "m \<in> set ms" "x = ''changes/'' @ mu_path m" using keys [OF x(1)] by blast
    show ?thesis
    proof (cases "y \<in> set document_paths")
      case True
      then show ?thesis using le unfolding m(2) doc [OF True] split_change
        by (auto simp: document_paths_def less_char_def)
    next
      case False
      then obtain n where n: "n \<in> set ms" "y = ''changes/'' @ mu_path n" using keys [OF x(2)] by blast
      with m le o' have "mu_path m \<le> mu_path n" unfolding m(2) n(2) split_change orderly_def by simp
      then show ?thesis unfolding m(2) n(2) by simp
    qed
  qed
qed

section \<open>Sealed packages verify\<close>

definition sealed_files :: "crypto \<Rightarrow> tree \<Rightarrow> bytes \<Rightarrow> tree" where
  "sealed_files C fs ab = fs @ [(''checksums.txt'', utf8 (checksum_text (package_entries C fs))), (''attestation.json'', ab @ [CHR 0x0A])]"

lemma outside_payload: "\<not> is_payload ''checksums.txt''" "\<not> is_payload ''attestation.json''"
  by code_simp+

lemma sealed_entries: "package_entries C (sealed_files C fs ab) = package_entries C fs"
  unfolding package_entries_bundle by (rule entries_skip) (simp add: sealed_files_def outside_payload)

lemma package_distinct: "distinct (map mu_path ms) \<Longrightarrow> distinct (map fst (package_files cb eb lb ms))"
  unfolding package_keys by (auto simp: document_paths_def distinct_map inj_on_def)

lemma package_line_ok:
  assumes ms: "distinct (map mu_path ms)" "orderly (map mu_path ms)" "\<forall>m \<in> set ms. safe_relative (mu_path m) = Inr (mu_path m)"
    and C: "crypto_ok C" and e: "(p, d) \<in> set (package_entries C (package_files cb eb lb ms))"
  shows "check_package_line C (sealed_files C (package_files cb eb lb ms) ab) (d @ ''  '' @ p) = Inr (p, d)"
    "list_all (\<lambda>c. \<not> line_break c) p"
proof -
  let ?fs = "package_files cb eb lb ms"
  from e obtain b where b: "(p, b) \<in> set ?fs" "d = sha256_hex C b" by (auto simp: package_entries_bundle entries_members)
  then have "p \<in> set (document_paths @ map (\<lambda>m. ''changes/'' @ mu_path m) ms)"
    using package_keys [of cb eb lb ms] by (metis fst_conv image_eqI list.set_map)
  then consider "p \<in> set document_paths" | m where "m \<in> set ms" "p = ''changes/'' @ mu_path m" by auto
  then have p: "safe_relative p = Inr p \<and> list_all (\<lambda>c. \<not> line_break c \<and> c \<noteq> CHR 0x00) p"
  proof cases
    case 1
    have "list_all (\<lambda>p. safe_relative p = Inr p \<and> list_all (\<lambda>c. \<not> line_break c \<and> c \<noteq> CHR 0x00) p) document_paths" by code_simp
    with 1 show ?thesis by (simp add: list_all_iff)
  next
    case 2
    have "list_all (\<lambda>c. \<not> line_break c \<and> c \<noteq> CHR 0x00) ''changes/''" by code_simp
    with 2 ms safe_change [of "mu_path m"] show ?thesis by (auto simp: orderly_def list_all_iff simp del: append.simps)
  qed
  have "map_of ?fs p = Some b" using b(1) package_distinct [OF ms(1)] by simp
  then have f: "map_of (sealed_files C ?fs ab) p = Some b" by (simp add: sealed_files_def)
  have "CHR 0x00 \<notin> set p" using p by (auto simp: list_all_iff)
  with p f b(2) C show "check_package_line C (sealed_files C ?fs ab) (d @ ''  '' @ p) = Inr (p, d)"
    using split_gap_append [OF hex_no_space(1), of C b p] sha256_hex_lower by (simp add: check_package_line_def)
  show "list_all (\<lambda>c. \<not> line_break c) p" using p by (auto simp: list_all_iff)
qed

lemma changes_of_package: "below ''changes'' (sealed_files C (package_files cb eb lb ms) ab) = map (\<lambda>m. (mu_path m, snd (change_file m))) ms"
proof -
  have split: "map change_file ms = map (\<lambda>(p, b). (inside ''changes'' p, b)) (map (\<lambda>m. (mu_path m, snd (change_file m))) ms)"
    by (simp add: change_file_def inside_def)
  have none: "below ''changes'' [(''candidate.json'', x), (''evaluation.json'', y), (''lineage.json'', z)] = []"
    "below ''changes'' [(''checksums.txt'', x), (''attestation.json'', y)] = []" for x y z
    by (simp_all add: below_Cons starts_with_def)
  show ?thesis unfolding sealed_files_def package_files_def below_append none split below_placed by simp
qed

lemma changes_check:
  assumes "distinct (map mu_path ms)" "\<forall>m \<in> set ms. safe_relative (mu_path m) = Inr (mu_path m) \<and> succeeds (mutation_content m)" "set ns \<subseteq> set ms"
  shows "\<exists>us. mapE (check_change (sealed_files C (package_files cb eb lb ms) ab)) ns = Inr us"
proof (rule mapE_succeeds)
  fix m assume "m \<in> set ns"
  with assms(3) have m: "m \<in> set ms" by blast
  with assms(2) obtain b where b: "mutation_content m = Inr b" by (auto simp: succeeds_iff)
  have "change_file m \<in> set (package_files cb eb lb ms)" using m by (simp add: package_files_def)
  then have "map_of (package_files cb eb lb ms) (''changes/'' @ mu_path m) = Some b"
    using package_distinct [OF assms(1)] b by (simp add: change_file_def)
  then have "map_of (sealed_files C (package_files cb eb lb ms) ab) (''changes/'' @ mu_path m) = Some b" by (simp add: sealed_files_def)
  with m assms(2) b show "\<exists>y. check_change (sealed_files C (package_files cb eb lb ms) ab) m = Inr y"
    by (simp add: check_change_def read_bytes_def del: append.simps)
qed

lemma sealed_package_verifies:
  assumes C: "crypto_ok C" and c: "valid_candidate c" "reads_date P (cn_proposed_at c)" "candidate_id C c = Inr ident"
    and e: "valid_evaluation e" "el_candidate_id e = ident" "el_state e = (if el_passed e then ''awaiting_human_approval'' else ''rejected'')"
    and lines: "canonical_json (candidate_dict c) = Inr cb" "canonical_json (evaluation_dict e) = Inr eb"
      "canonical_json (lineage_dict (lineage_of c e)) = Inr lb"
    and ms: "orderly (map mu_path (cn_mutations c))"
      "\<forall>m \<in> set (cn_mutations c). safe_relative (mu_path m) = Inr (mu_path m) \<and> succeeds (mutation_content m)"
    and root: "package_root C (package_entries C (package_files cb eb lb (cn_mutations c))) = Inr root"
    and att: "canonical_json (evolution_attestation_dict x) = Inr ab" "ea_root x = root"
      "evolution_proposal_payload root = Inr payload" "verify_signature C (ea_did x) payload (ea_signature x)"
  shows "verify_package_files C P L (sealed_files C (package_files cb eb lb (cn_mutations c)) ab) = Inr root"
proof -
  let ?ms = "cn_mutations c" let ?fs = "package_files cb eb lb ?ms" let ?gs = "sealed_files C ?fs ab" let ?es = "package_entries C ?fs"
  have d: "distinct (map mu_path ?ms)" using c(1) by (simp add: valid_candidate_def)
  have s: "\<forall>m \<in> set ?ms. safe_relative (mu_path m) = Inr (mu_path m)" using ms(2) by blast
  note line = package_line_ok [OF d ms(1) s C]
  have entries: "sorted ?es" "distinct ?es"
    unfolding package_entries_bundle using entries_in_order [OF package_distinct [OF d], of cb eb lb] package_order [OF ms(1)] by metis+
  have sums_text: "read_text ''checksums.txt'' ?gs = Inr (universal_newlines (checksum_text ?es))"
    by (simp add: read_text_def read_bytes_def sealed_files_def package_files_def map_of_append map_add_def change_file_def split: option.split)
      (use s in \<open>auto dest!: map_of_SomeD simp: change_file_def\<close>)
  have sums: "split_lines (universal_newlines (checksum_text ?es)) = map (\<lambda>(p, d). d @ ''  '' @ p) ?es"
  proof (rule sums_read_back)
    fix p d assume e: "(p, d) \<in> set ?es"
    then have "\<exists>b. d = sha256_hex C b" by (auto simp: package_entries_bundle entries_members)
    with line(2) [OF e] show "list_all (\<lambda>c. \<not> line_break c) p \<and> (\<exists>b. d = sha256_hex C b)" by blast
  qed
  have check: "mapE (check_package_line C ?gs) (map (\<lambda>(p, d). d @ ''  '' @ p) ?es) = Inr ?es"
    by (auto simp: mapE_Inr_iff list_all2_map1 list_all2_same intro: line(1) simp del: append.simps)
  have at: "map_of ?gs ''attestation.json'' = Some (ab @ [CHR 0x0A])" "map_of ?gs ''candidate.json'' = Some (cb @ [CHR 0x0A])"
    "map_of ?gs ''evaluation.json'' = Some (eb @ [CHR 0x0A])" "map_of ?gs ''lineage.json'' = Some (lb @ [CHR 0x0A])"
    by (auto simp: sealed_files_def package_files_def map_of_append map_add_def split: option.split)
      (auto dest!: map_of_SomeD simp: change_file_def)
  note docs = line_parses_back [where f = "parse_candidate P", OF documents_wf(1) lines(1) candidate_reads_back [OF c(1,2)]]
    line_parses_back [where f = "parse_evaluation P L", OF documents_wf(2) lines(2) evaluation_reads_back [OF e(1)]]
  have l: "ln_risk (lineage_of c e) \<in> set risk_names" "ln_state (lineage_of c e) \<in> set evaluation_states"
    using e(1) by (simp_all add: lineage_of_def valid_evaluation_def)
  note ln = line_parses_back [where f = "parse_lineage P L", OF documents_wf(3) lines(3) lineage_reads_back [OF l]]
  note pa = line_parses_back [where f = "parse_evolution_attestation P", OF documents_wf(4) att(1) proposal_reads_back]
  have id: "candidate_id C (rounded c) = Inr ident" using rounded_id [OF c(1)] c(3) by simp
  have con: "check_consistent ident (rounded c) e (lineage_of c e) = Inr ()"
    using e(2,3) by (simp add: check_consistent_def lineage_of_def rounded_fields)
  obtain us where us: "mapE (check_change ?gs) ?ms = Inr us" using changes_check [OF d ms(2), of ?ms] by blast
  have "map fst (below ''changes'' ?gs) = map mu_path ?ms" by (simp add: changes_of_package comp_def)
  then show ?thesis
    using entries root att us check
    by (simp add: verify_package_files_def sums_text sums sealed_entries read_bytes_def at docs ln pa id con rounded_fields
        sorted_sort_id Let_def)
qed

section \<open>Packages that are built\<close>

text \<open>The signature that a package needs, as the contract of the signer.\<close>

locale proposal_signer =
  fixes C :: crypto and sign :: "('x, 't) signer"
  assumes proposes: "crypto_ok C \<Longrightarrow> sign (digest_request EvolutionProposal scope root) w = (Inr resp, w') \<Longrightarrow>
      \<exists>payload. evolution_proposal_payload root = Inr payload \<and> verify_signature C (sp_did resp) payload (sp_signature resp)"

lemma keyed_signer_proposes:
  assumes C: "crypto_ok C" and h: "keyed_signer C key (digest_request EvolutionProposal scope root) w = (Inr resp, w')"
  shows "\<exists>payload. evolution_proposal_payload root = Inr payload \<and> verify_signature C (sp_did resp) payload (sp_signature resp)"
proof -
  from h obtain i s where i: "identity_of_private C key = Inr i"
    and s: "handle C i (digest_request EvolutionProposal scope root) (e_signer w) = (Inr resp, s)"
    by (auto simp: keyed_signer_def split: sum.splits dest: in_signer_Inr)
  from handle_signs [OF C i s] show ?thesis by (auto simp: payload_of_def digest_request_def)
qed

interpretation keyed_proposal: proposal_signer C "keyed_signer C key" for C key
  by unfold_locales (rule keyed_signer_proposes)

interpretation guarded_proposal: proposal_signer C "guarded_sign (keyed_signer C key)" for C key
  by unfold_locales (auto simp: guarded_sign_def dest: keyed_signer_proposes)

lemma stage_Inr:
  assumes "stage E c workspace s = (Inr (ident, candidate_root, rk), s')"
  shows "candidate_id (en_crypto E) c = Inr ident" "validate_candidate c (en_policy E) = Inr rk" "fst s' = fst s"
  using assms by (auto simp: stage_def Let_def)

lemma make_evaluation_valid:
  assumes "make_evaluation C pol ident gs rk passed = Inr e" "list_all (\<lambda>g. immutable_digest (gr_output_sha256 g)) gs"
  shows "valid_evaluation e" "el_candidate_id e = ident" "el_gates e = gs" "el_passed e = passed"
    "el_state e = (if el_passed e then ''awaiting_human_approval'' else ''rejected'')"
  using assms by (auto simp: make_evaluation_def valid_evaluation_def risk_names_def evaluation_states_def split: if_splits) (cases rk, auto)+

lemma attestation_name: "normal_path ''attestation.json'' = ''attestation.json''"
  by code_simp

lemma seal_package_Inr:
  assumes "seal_package C sign d ident (w, u) = (Inr root, (w', u'))"
  obtains resp ab where "package_root C (package_entries C (below d u)) = Inr root"
    "sign (digest_request EvolutionProposal ident root) w = (Inr resp, w')"
    "canonical_json (evolution_attestation_dict \<lparr>ea_did = sp_did resp, ea_root = root, ea_signature = sp_signature resp\<rparr>) = Inr ab"
    "u' = dict_put (inside d ''attestation.json'') (ab @ [CHR 0x0A])
       (dict_put (inside d ''checksums.txt'') (utf8 (checksum_text (package_entries C (below d u)))) u)"
  using assms by (auto simp: seal_package_def write_line_Inr attestation_name write_bytes_def)

context proposal_signer
begin

lemma built_package_verifies:
  assumes E: "crypto_ok C" "en_crypto E = C" and c: "valid_candidate c" "reads_date P (cn_proposed_at c)" "orderly (map mu_path (cn_mutations c))"
    and gates: "list_all (\<lambda>g. immutable_digest (gr_output_sha256 g)) (el_gates e)"
    and run: "evaluate_and_package E c workspace output sign (w, t) = (Inr (root, e), (w', t'))"
  shows "verify_evolution_package C P L output t' = Inr root"
proof -
  from run obtain ident candidate_root rk s gs passed out v u where st: "stage E c workspace (w, t) = (Inr (ident, candidate_root, rk), s)"
    and gs: "make_evaluation C (en_policy E) ident gs rk passed = Inr e" and o': "under (en_root E) output = Inr out"
    and files: "write_package_files C out c e (snd s) = (Inr v, u)" and seal: "seal_package C sign out ident (fst s, u) = (Inr root, (w', t'))"
    unfolding evaluate_and_package_def E(2) Let_def by (auto split: prod.splits)
  have out: "out = output" using under_Inr [OF o'] .
  have "el_gates e = gs" using gs by (auto simp: make_evaluation_def)
  with make_evaluation_valid [OF gs] gates have e: "valid_evaluation e" "el_candidate_id e = ident"
    "el_state e = (if el_passed e then ''awaiting_human_approval'' else ''rejected'')" by auto
  have id: "candidate_id C c = Inr ident" using stage_Inr(1) [OF st] E(2) by simp
  have d: "distinct (map mu_path (cn_mutations c))" using c(1) by (simp add: valid_candidate_def)
  from files have files: "write_package_files C out c e (snd s) = (Inr (), u)" by simp
  from package_written [OF files d] obtain cb eb lb
    where lines: "canonical_json (candidate_dict c) = Inr cb" "canonical_json (evaluation_dict e) = Inr eb"
      "canonical_json (lineage_dict (lineage_of c e)) = Inr lb"
    and u: "below out u = package_files cb eb lb (cn_mutations c)"
    and ms: "\<forall>m \<in> set (cn_mutations c). safe_relative (mu_path m) = Inr (mu_path m) \<and> succeeds (mutation_content m)" .
  from seal_package_Inr [OF seal] obtain resp ab where root: "package_root C (package_entries C (below out u)) = Inr root"
    and sign: "sign (digest_request EvolutionProposal ident root) (fst s) = (Inr resp, w')"
    and att: "canonical_json (evolution_attestation_dict \<lparr>ea_did = sp_did resp, ea_root = root, ea_signature = sp_signature resp\<rparr>) = Inr ab"
    and t': "t' = dict_put (inside out ''attestation.json'') (ab @ [CHR 0x0A])
       (dict_put (inside out ''checksums.txt'') (utf8 (checksum_text (package_entries C (below out u)))) u)" .
  obtain payload where payload: "evolution_proposal_payload root = Inr payload" "verify_signature C (sp_did resp) payload (sp_signature resp)"
    using proposes [OF E(1) sign] by blast
  have sealed: "below out t' = sealed_files C (package_files cb eb lb (cn_mutations c)) ab"
  proof -
    have "''checksums.txt'' \<notin> fst ` set (package_files cb eb lb (cn_mutations c))" "''attestation.json'' \<notin> fst ` set (package_files cb eb lb (cn_mutations c))"
      by (auto simp: package_files_def change_file_def)
    then show ?thesis unfolding t' by (simp add: u dict_put_new sealed_files_def)
  qed
  show ?thesis
    unfolding verify_evolution_package_def out [symmetric] sealed
    using sealed_package_verifies [OF E(1) c(1,2) id e lines c(3) ms root [unfolded u] att _ payload(1)] payload(2) by simp
qed

end

section \<open>Packaging returns\<close>

lemma blocked_inside:
  assumes "blocked (inside d p) t" "\<not> blocked d t" "\<not> is_file d t"
  shows "\<exists>q. within_dir q p \<and> q \<in> fst ` set (below d t)"
proof -
  from assms(1) obtain a where a: "within_dir a (inside d p)" "map_of t a \<noteq> None" by (auto simp: blocked_iff)
  have "a \<noteq> d" "\<not> within_dir a d" using assms(2,3) a(2) by (auto simp: blocked_iff is_file_def)
  with dirs_comparable [OF a(1), of d] have "within_dir d a" by auto
  then obtain q where q: "a = inside d q" by (auto simp: within_dir_iff)
  have "within_dir q p" using a(1) unfolding q by (auto simp: within_dir_def starts_with_iff inside_def)
  moreover have "q \<in> fst ` set (below d t)" using a(2) by (simp add: keys_below q map_of_eq_None_iff)
  ultimately show ?thesis by blast
qed

lemma below_inside: "below (inside d p) t \<noteq> [] \<Longrightarrow> \<exists>q. within_dir p q \<and> q \<in> fst ` set (below d t)"
proof -
  assume "below (inside d p) t \<noteq> []"
  then obtain q where q: "within_dir (inside d p) q" "map_of t q \<noteq> None" by (auto simp: below_empty_iff)
  then obtain r where r: "q = inside d (p @ CHR ''/'' # r)" by (auto simp: within_dir_def starts_with_iff inside_def)
  then have "p @ CHR ''/'' # r \<in> fst ` set (below d t)" using q(2) by (simp add: keys_below map_of_eq_None_iff)
  moreover have "within_dir p (p @ CHR ''/'' # r)" by (auto simp: within_dir_def starts_with_iff)
  ultimately show ?thesis by blast
qed

lemma within_changes: "within_dir (''changes/'' @ p) (''changes/'' @ q) \<longleftrightarrow> within_dir p q"
  by (auto simp: within_dir_def starts_with_iff)

definition flat :: "string list \<Rightarrow> bool" where
  "flat ps = (\<forall>p \<in> set ps. \<forall>q \<in> set ps. \<not> within_dir p q)"

definition open_directory :: "string \<Rightarrow> tree \<Rightarrow> bool" where
  "open_directory d t = (\<not> blocked d t \<and> \<not> is_file d t)"

lemma open_directory_put: "open_directory d t \<Longrightarrow> open_directory d (dict_put (inside d p) b t)"
proof -
  have "inside d p \<noteq> d" "\<not> within_dir (inside d p) d" by (auto simp: inside_def within_dir_def starts_with_iff)
  then show "open_directory d t \<Longrightarrow> open_directory d (dict_put (inside d p) b t)"
    by (auto simp: open_directory_def blocked_iff is_file_def)
qed

lemma changes_written:
  assumes "open_directory d t" "flat (map mu_path (prior @ ms))" "distinct (map mu_path (prior @ ms))"
    and "\<forall>m \<in> set ms. safe_relative (mu_path m) = Inr (mu_path m) \<and> succeeds (mutation_content m)"
    and "fst ` set (below d t) = set document_paths \<union> (\<lambda>m. ''changes/'' @ mu_path m) ` set prior"
  shows "\<exists>us u. mapS (write_change d) ms t = (Inr us, u)"
  using assms
proof (induction ms arbitrary: prior t)
  case (Cons m ms)
  let ?p = "''changes/'' @ mu_path m"
  obtain b where b: "mutation_content m = Inr b" using Cons.prems(4) by (auto simp: succeeds_iff)
  have docs: "\<not> within_dir x ?p" "\<not> within_dir ?p x" if "x \<in> set document_paths" for x
    using that by (auto simp: document_paths_def within_dir_def starts_with_iff)
  have apart: "\<not> within_dir (''changes/'' @ mu_path n) ?p" "\<not> within_dir ?p (''changes/'' @ mu_path n)" if "n \<in> set prior" for n
    using Cons.prems(2) that unfolding within_changes by (auto simp: flat_def)
  have "\<not> blocked (inside d ?p) t"
    using blocked_inside [of d ?p t] Cons.prems(1,5) docs apart by (auto simp: open_directory_def simp del: append.simps)
  moreover have "below (inside d ?p) t = []"
  proof (rule ccontr)
    assume "below (inside d ?p) t \<noteq> []"
    from below_inside [OF this] Cons.prems(5) docs(2) apart(2) show False by (auto simp del: append.simps)
  qed
  ultimately have one: "write_change d m t = (Inr (), dict_put (inside d ?p) b t)"
    using Cons.prems(4) b by (simp add: write_change_def write_deep_cases del: append.simps)
  have "fst ` set (below d (dict_put (inside d ?p) b t)) = set document_paths \<union> (\<lambda>m. ''changes/'' @ mu_path m) ` set (prior @ [m])"
    using Cons.prems(5) by (auto simp: keys_dict_put simp del: append.simps)
  with Cons.IH [of "dict_put (inside d ?p) b t" "prior @ [m]"] open_directory_put [OF Cons.prems(1)] Cons.prems(2-4)
  obtain us u where "mapS (write_change d) ms (dict_put (inside d ?p) b t) = (Inr us, u)" by auto
  with one show ?case by (auto simp: bindS_def)
qed simp

lemma evaluation_plain: "list_all (\<lambda>g. \<bar>gr_exit_code g\<bar> < 10 ^ 100) (el_gates e) \<Longrightarrow> plain (evaluation_dict e)"
  by (auto simp: evaluation_dict_def plain_list_iff gate_result_dict_def list_all_iff)

lemma package_files_return:
  assumes d: "open_directory d t" "below d t = []" and b: "canonical_json (candidate_dict c) = Inr cb" "plain (evaluation_dict e)"
    and ms: "\<forall>m \<in> set (cn_mutations c). safe_relative (mu_path m) = Inr (mu_path m) \<and> succeeds (mutation_content m)"
    and paths: "flat (map mu_path (cn_mutations c))" "distinct (map mu_path (cn_mutations c))"
  shows "\<exists>u. write_package_files C d c e t = (Inr (), u)"
proof -
  obtain eb where eb: "canonical_json (evaluation_dict e) = Inr eb" using plain_canonical [OF b(2)] by blast
  have "plain (lineage_dict (lineage_of c e))" by (simp add: lineage_dict_def)
  then obtain lb where lb: "canonical_json (lineage_dict (lineage_of c e)) = Inr lb" using plain_canonical by blast
  let ?t = "dict_put (inside d ''lineage.json'') (lb @ [CHR 0x0A]) (dict_put (inside d ''evaluation.json'') (eb @ [CHR 0x0A])
      (dict_put (inside d ''candidate.json'') (cb @ [CHR 0x0A]) t))"
  have "fst ` set (below d ?t) = set document_paths \<union> (\<lambda>m. ''changes/'' @ mu_path m) ` set []"
    using d(2) by (auto simp: keys_dict_put document_paths_def)
  with changes_written [of d ?t "[]" "cn_mutations c"] open_directory_put d(1) ms paths
  obtain us u where "mapS (write_change d) (cn_mutations c) ?t = (Inr us, u)" by auto
  moreover have "make_directory d t = (Inr (), t)" using d(1) by (simp add: make_directory_def open_directory_def)
  moreover have "write_line d ''lineage.json'' (lineage_dict (lineage_of c e)) (dict_put (inside d ''evaluation.json'') (eb @ [CHR 0x0A])
      (dict_put (inside d ''candidate.json'') (cb @ [CHR 0x0A]) t)) = (Inr (), ?t)"
    "write_line d ''evaluation.json'' (evaluation_dict e) (dict_put (inside d ''candidate.json'') (cb @ [CHR 0x0A]) t)
      = (Inr (), dict_put (inside d ''evaluation.json'') (eb @ [CHR 0x0A]) (dict_put (inside d ''candidate.json'') (cb @ [CHR 0x0A]) t))"
    "write_line d ''candidate.json'' (candidate_dict c) t = (Inr (), dict_put (inside d ''candidate.json'') (cb @ [CHR 0x0A]) t)"
    using b(1) eb lb by (simp_all add: write_line_Inr document_names)
  ultimately show ?thesis using d by (simp add: write_package_files_def open_directory_def bindS_pair)
qed

lemma seal_package_returns:
  fixes w :: "(nonce_store, 't) env"
  assumes C: "crypto_ok C" and i: "identity_of_private C key = Inr i" and opened: "\<not> b_kill w" "\<not> component_quarantined ''signer'' (b_store w)"
  shows "\<exists>root w' u'. seal_package C (guarded_sign (keyed_signer C key)) d ident (w, u) = (Inr root, (w', u'))"
proof -
  from root_returns [OF C] obtain root p where root: "compute_bundle_root C (package_entries C (below d u)) = Inr root"
    "artifact_payload root = Inr p" by blast
  then have "evolution_proposal_payload root = Inr (evolution_domain @ root)" by (simp add: evolution_proposal_payload_def)
  then have "\<exists>resp s'. handle C i (digest_request EvolutionProposal ident root) (e_signer w) = (Inr resp, s')"
    by (simp add: handle_def digest_request_def present_fields_def prepare_payload_def finish_signature_eq)
  then obtain resp s' where "handle C i (digest_request EvolutionProposal ident root) (e_signer w) = (Inr resp, s')" by blast
  then have sign: "guarded_sign (keyed_signer C key) (digest_request EvolutionProposal ident root) w = (Inr resp, w\<lparr>e_signer := s'\<rparr>)"
    using opened by (simp add: guarded_sign_def keyed_signer_def i in_signer_def)
  have "plain (evolution_attestation_dict \<lparr>ea_did = sp_did resp, ea_root = root, ea_signature = sp_signature resp\<rparr>)"
    by (simp add: evolution_attestation_dict_def)
  from plain_canonical [OF this] obtain line
    where line: "canonical_json (evolution_attestation_dict \<lparr>ea_did = sp_did resp, ea_root = root, ea_signature = sp_signature resp\<rparr>) = Inr line" ..
  show ?thesis
    unfolding seal_package_def by (simp add: package_root_bundle root sign line write_line_Inr write_bytes_def)
qed

section \<open>Properties\<close>

text \<open>
  C29: A staged candidate gets a package that verifies: once a parsed candidate is staged and the evaluator has
  answered every required gate, packaging into an empty directory returns, whatever the verdict, and the
  verifier accepts the package under the root that was signed.  The paths of the candidate must be free of line
  breaks, must not lie below one another, and must sort alike as texts and part by part.
\<close>

theorem staged_package_verifies:
  fixes w :: "(nonce_store, 't) env"
  assumes "crypto_ok (en_crypto E)" "identity_of_private (en_crypto E) key = Inr i"
    and "\<not> b_kill w" "\<not> component_quarantined ''signer'' (b_store w)"
    and "parse_candidate P v = Inr c" "reads_date P (cn_proposed_at c)" "orderly (map mu_path (cn_mutations c))" "flat (map mu_path (cn_mutations c))"
    and "stage E c workspace (w, t) = (Inr (ident, candidate_root, rk), (w, u))"
    and "en_evaluate E candidate_root u = Inr gs" "judge_gates (en_policy E) gs = Inr passed"
      "list_all (\<lambda>g. immutable_digest (gr_output_sha256 g) \<and> \<bar>gr_exit_code g\<bar> < 10 ^ 100) gs"
    and "immutable_digest (vp_image (en_policy E))" "plain (policy_dict (en_policy E))"
    and "under (en_root E) output = Inr output" "open_directory output u" "below output u = []"
  shows "\<exists>root e w' t'. evaluate_and_package E c workspace output (guarded_sign (keyed_signer (en_crypto E) key)) (w, t) = (Inr (root, e), (w', t'))
    \<and> el_passed e = passed \<and> verify_evolution_package (en_crypto E) P L output t' = Inr root"
proof -
  let ?C = "en_crypto E"
  obtain pd where "evolution_policy_digest ?C (en_policy E) = Inr pd" "immutable_digest pd"
    using plain_canonical [OF assms(14)] immutable_sha [OF assms(1)] by (auto simp: evolution_policy_digest_def)
  with assms(13) have "succeeds (make_evaluation ?C (en_policy E) ident gs rk passed)" by (simp add: make_evaluation_def)
  then obtain e where e: "make_evaluation ?C (en_policy E) ident gs rk passed = Inr e" by (auto simp: succeeds_iff)
  have gates: "el_gates e = gs" "el_passed e = passed" using make_evaluation_valid [OF e] assms(12) by (auto simp: list_all_iff)
  obtain cb where cb: "canonical_json (candidate_dict c) = Inr cb"
    using stage_Inr(1) [OF assms(9)] by (auto simp: candidate_id_def)
  have "plain (evaluation_dict e)" using evaluation_plain [of e] assms(12) gates by (auto simp: list_all_iff)
  moreover have "\<forall>m \<in> set (cn_mutations c). safe_relative (mu_path m) = Inr (mu_path m) \<and> succeeds (mutation_content m)"
    using validated_mutations [OF stage_Inr(2) [OF assms(9)]] by blast
  ultimately obtain x where x: "write_package_files ?C output c e u = (Inr (), x)"
    using package_files_return [OF assms(16,17) cb] assms(8) candidate_paths [OF assms(5)] by blast
  obtain root w' t' where seal: "seal_package ?C (guarded_sign (keyed_signer ?C key)) output ident (w, x) = (Inr root, (w', t'))"
    using seal_package_returns [OF assms(1-4)] by blast
  have run: "evaluate_and_package E c workspace output (guarded_sign (keyed_signer ?C key)) (w, t) = (Inr (root, e), (w', t'))"
    using assms(9-11,15) e x seal by (simp add: evaluate_and_package_def Let_def bindS_pair)
  have "list_all (\<lambda>g. immutable_digest (gr_output_sha256 g)) (el_gates e)" using assms(12) gates by (auto simp: list_all_iff)
  from guarded_proposal.built_package_verifies [OF assms(1) refl parse_candidate_valid [OF assms(5)] assms(6,7) this run] run gates(2)
  show ?thesis by blast
qed

text \<open>
  C30: The verifier refuses some packages that were built honestly: it compares the files, listed part by part, with the
  checksum lines sorted as texts, so a package with two sealed files that the two orders put differently, like
  \<open>docs/a/b.md\<close> and \<open>docs/a.md\<close>, never verifies, whatever its checksums, documents and signature are.
\<close>

theorem unordered_package_refused:
  assumes "p \<in> fst ` set fs" "q \<in> fst ` set fs" "path_name p \<notin> {''checksums.txt'', ''attestation.json''}"
    "path_name q \<notin> {''checksums.txt'', ''attestation.json''}"
    and "split_on CHR ''/'' p < split_on CHR ''/'' q" "q < p"
  shows "verify_package_files C P L fs \<noteq> Inr root"
proof
  assume "verify_package_files C P L fs = Inr root"
  then obtain expected where "package_entries C fs = sort expected" by (auto simp: verify_package_files_def Let_def)
  then have s: "sorted (bundle_entries C fs)" by (simp add: package_entries_bundle)
  let ?gs = "filter (\<lambda>(p, _). is_payload p) (sorted_files fs)"
  have "sorted (map (\<lambda>(p, _). split_on CHR ''/'' p) ?gs)"
    unfolding sorted_files_def by (rule sorted_filter) (simp add: case_prod_unfold)
  then have parts: "sorted_wrt (\<lambda>x y. split_on CHR ''/'' (fst x) \<le> split_on CHR ''/'' (fst y)) ?gs"
    by (simp add: sorted_map case_prod_unfold)
  have texts: "sorted_wrt (\<lambda>x y. fst x \<le> fst y) ?gs"
    using s unfolding bundle_entries_def sorted_map
    by (rule sorted_wrt_mono_rel [rotated]) (auto simp: less_eq_prod_def)
  obtain b d where b: "(p, b) \<in> set ?gs" "(q, d) \<in> set ?gs"
    using assms(1-4) by (auto simp: is_payload_def sorted_files_def)
  then obtain i j where i: "i < length ?gs" "?gs ! i = (p, b)" and j: "j < length ?gs" "?gs ! j = (q, d)" by (metis in_set_conv_nth)
  have "i \<noteq> j" using i j assms(6) by auto
  then consider "i < j" | "j < i" by linarith
  then show False
  proof cases
    case 1
    with sorted_wrt_nth_less [OF texts 1 j(1)] i j assms(6) show ?thesis by simp
  next
    case 2
    with sorted_wrt_nth_less [OF parts 2 i(1)] i j assms(5) show ?thesis by simp
  qed
qed

lemma unordered_package_refused_witness:
  "verify_package_files demo_crypto dated_pydantic plain_stdlib [(''changes/docs/a.md'', ''x''), (''changes/docs/a/b.md'', ''y'')] \<noteq> Inr ''r''"
proof (rule unordered_package_refused [where p = "''changes/docs/a/b.md''" and q = "''changes/docs/a.md''"])
  show "split_on CHR ''/'' ''changes/docs/a/b.md'' < split_on CHR ''/'' ''changes/docs/a.md''" by code_simp
  show "''changes/docs/a.md'' < ''changes/docs/a/b.md''" by code_simp
qed (simp_all add: path_name_def)

end
