(* ===== verification/Evolution_Promotion.thy ===== *)
theory Evolution_Promotion
  imports Evolution_Safety
begin

text \<open>
  Promotions: the states one can stop in and how a rollback leads back from
  every one of them, and what a promotion that changes a file has checked.
\<close>

section \<open>The states one can stop in\<close>

lemma midway_states:
  assumes fresh: "\<not> path_exists rollback t" and written: "is_file (record_path rollback) u"
    and xs: "distinct (map (\<lambda>x. mu_path (pp_mutation x)) xs)" "distinct (map pp_destination xs)"
    and away: "\<forall>x \<in> set xs. \<not> within_dir rollback (pp_destination x)"
  shows "apply_promotion C ident root a rollback xs t = (r, u) \<Longrightarrow> midway C ident root a rollback xs t u"
    and "stopped_promotion C ident root a rollback xs k t = (q, u) \<Longrightarrow> midway C ident root a rollback xs t u"
proof -
  have rp: "within_dir rollback (record_path rollback)" by (simp add: record_path_def)
  have none: "map_of t (record_path rollback) = None"
    using fresh rp by (auto simp: path_exists_def below_empty_iff)
  have backups: "only_at (\<lambda>q. q \<noteq> record_path rollback) (mapS (write_backup rollback) xs)"
    unfolding write_backup_def using record_apart by (intro only_at_intros) metis
  have start: "\<exists>vs ta b tb v. mapS (write_backup rollback) xs t = (Inr vs, ta)
      \<and> canonical_json (promotion_record C state ident root a xs) = Inr b
      \<and> tb = dict_put (record_path rollback) (b @ [CHR 0x0A]) ta \<and> f v tb = (r, u)"
    if run: "bindS (make_directory rollback) (\<lambda>_. bindS (mapS (write_backup rollback) xs) (\<lambda>_.
      bindS (write_line rollback ''promotion.json'' (promotion_record C state ident root a xs)) f)) t = (r, u)"
    for state and r :: "'r result" and f
    using run
  proof (rule bindS_cases)
    fix e assume "make_directory rollback t = (Inl e, u)"
    with none written show ?thesis by (auto dest!: make_directory_state simp: is_file_def)
  next
    fix x t0 assume "make_directory rollback t = (Inr x, t0)"
      and run: "bindS (mapS (write_backup rollback) xs) (\<lambda>_.
        bindS (write_line rollback ''promotion.json'' (promotion_record C state ident root a xs)) f) t0 = (r, u)"
    then have t0: "t0 = t" by (simp add: make_directory_state)
    from run [unfolded t0] show ?thesis
    proof (rule bindS_cases)
      fix e assume "mapS (write_backup rollback) xs t = (Inl e, u)"
      from only_atD [OF backups this, of "record_path rollback"] none written show ?thesis by (simp add: is_file_def)
    next
      fix vs ta assume b: "mapS (write_backup rollback) xs t = (Inr vs, ta)"
        and run: "bindS (write_line rollback ''promotion.json'' (promotion_record C state ident root a xs)) f ta = (r, u)"
      have ta: "map_of ta (record_path rollback) = None" using only_atD [OF backups b, of "record_path rollback"] none by simp
      from run show ?thesis
      proof (rule bindS_cases)
        fix e assume "write_line rollback ''promotion.json'' (promotion_record C state ident root a xs) ta = (Inl e, u)"
        then have "u = ta" by (auto simp: write_line_def bindS_liftS write_bytes_def split: sum.splits)
        with ta written show ?thesis by (simp add: is_file_def)
      next
        fix v tb assume "write_line rollback ''promotion.json'' (promotion_record C state ident root a xs) ta = (Inr v, tb)"
          and "f v tb = (r, u)"
        with b show ?thesis by (auto simp: write_line_Inr record_name)
      qed
    qed
  qed
  show "midway C ident root a rollback xs t u" if "stopped_promotion C ident root a rollback xs k t = (q, u)"
  proof -
    from start [OF that [unfolded stopped_promotion_def]] obtain vs ta b tb
      where b: "mapS (write_backup rollback) xs t = (Inr vs, ta)" "canonical_json (promotion_record C ''prepared'' ident root a xs) = Inr b"
        "tb = dict_put (record_path rollback) (b @ [CHR 0x0A]) ta"
        and run: "bindS (mapS write_prepared (take k xs)) (\<lambda>_. retS ()) tb = (q, u)" by blast
    from run obtain r where "mapS write_prepared (take k xs) tb = (r, u)" by (rule bindS_cases) auto
    from midway_after [OF b this set_take_subset xs away] show ?thesis .
  qed
  show "midway C ident root a rollback xs t u" if "apply_promotion C ident root a rollback xs t = (r, u)"
  proof -
    from start [OF that [unfolded apply_promotion_def]] obtain vs ta b tb
      where b: "mapS (write_backup rollback) xs t = (Inr vs, ta)" "canonical_json (promotion_record C ''prepared'' ident root a xs) = Inr b"
        "tb = dict_put (record_path rollback) (b @ [CHR 0x0A]) ta"
        and run: "bindS (mapS write_prepared xs) (\<lambda>_. bindS (write_line rollback ''promotion.json''
          (promotion_record C ''applied'' ident root a xs)) (\<lambda>_. retS (record_path rollback))) tb = (r, u)" by blast
    from run show ?thesis
    proof (rule bindS_cases)
      fix e assume "mapS write_prepared xs tb = (Inl e, u)"
      from midway_after [OF b this subset_refl xs away] show ?thesis .
    next
      fix us tc assume w: "mapS write_prepared xs tb = (Inr us, tc)" and run: "bindS (write_line rollback ''promotion.json''
          (promotion_record C ''applied'' ident root a xs)) (\<lambda>_. retS (record_path rollback)) tc = (r, u)"
      note m = midway_after [OF b w subset_refl xs away]
      from run show ?thesis
      proof (rule bindS_cases)
        fix e assume "write_line rollback ''promotion.json'' (promotion_record C ''applied'' ident root a xs) tc = (Inl e, u)"
        then have "u = tc" by (auto simp: write_line_def bindS_liftS write_bytes_def split: sum.splits)
        with m show ?thesis by simp
      next
        fix v td assume "write_line rollback ''promotion.json'' (promotion_record C ''applied'' ident root a xs) tc = (Inr v, td)"
          and "retS (record_path rollback) td = (r, u)"
        with midway_record [OF m _ away] show ?thesis by (auto simp: write_line_Inr record_name)
      qed
    qed
  qed
qed

section \<open>Rolling back\<close>

definition record_items :: "crypto \<Rightarrow> string \<Rightarrow> string \<Rightarrow> string \<Rightarrow> approval \<Rightarrow> prepared list \<Rightarrow> (string \<times> pyval) list" where
  "record_items C state ident root a xs = [(''schema'', PStr ''rosetta.evolution-promotion.v1''), (''state'', PStr state),
     (''candidate_id'', PStr ident), (''evolution_root'', PStr root), (''approved_by'', PStr (ap_approved_by a)),
     (''approved_at'', PDateTime (ap_approved_at a)), (''files'', PList (map (promotion_item C) xs))]"

lemma promotion_record_items: "promotion_record C state ident root a xs = PDict (record_items C state ident root a xs)"
  by (simp add: promotion_record_def record_items_def)

definition stored_record :: "crypto \<Rightarrow> string \<Rightarrow> string \<Rightarrow> string \<Rightarrow> approval \<Rightarrow> prepared list \<Rightarrow> (string \<times> pyval) list" where
  "stored_record C state ident root a xs = sort_key fst (norm_items (record_items C state ident root a xs))"

lemma stored_fields:
  "map_of (stored_record C state ident root a xs) ''candidate_id'' = Some (PStr ident)"
  "map_of (stored_record C state ident root a xs) ''evolution_root'' = Some (PStr root)"
  "map_of (stored_record C state ident root a xs) ''files'' = Some (PList (map (stored_item C) xs))"
proof -
  have d: "distinct (map fst (record_items C state ident root a xs))" by (simp add: record_items_def)
  show "map_of (stored_record C state ident root a xs) ''candidate_id'' = Some (PStr ident)"
    "map_of (stored_record C state ident root a xs) ''evolution_root'' = Some (PStr root)"
    unfolding stored_record_def map_of_printed [OF d] by (simp_all add: record_items_def)
  show "map_of (stored_record C state ident root a xs) ''files'' = Some (PList (map (stored_item C) xs))"
    unfolding stored_record_def map_of_printed [OF d]
    by (simp add: record_items_def norm_list_map stored_item_def comp_def)
qed

lemma item_plain: "plain (promotion_item C x)"
  by (simp add: promotion_item_def opt_str_def split: option.split)

lemma rolled_back_prints:
  "\<exists>b. canonical_json (PDict (dict_put ''state'' (PStr ''rolled_back'') (stored_record C state ident root a xs))) = Inr b"
proof (rule printable_dict)
  have "plain v" if "(k, v) \<in> set (stored_record C state ident root a xs)" for k v
  proof -
    from that obtain w where w: "(k, w) \<in> set (record_items C state ident root a xs)" "v = norm w"
      by (auto simp: stored_record_def norm_items_map)
    have "plain (norm (PList (map (promotion_item C) xs)))"
      by (rule plain_norm) (simp add: plain_list_iff item_plain)
    with w show ?thesis by (auto simp: record_items_def)
  qed
  then show "list_all (\<lambda>(k, v). printable v) (dict_put ''state'' (PStr ''rolled_back'') (stored_record C state ident root a xs))"
    by (auto simp: dict_put_def list_all_iff split: if_splits intro!: plain_printable)
qed

lemma check_rollback_passes:
  assumes "map_of v (record_path rollback) = Some (b @ [CHR 0x0A])" "canonical_json (promotion_record C state ident root a xs) = Inr b"
    and "map_of v q = Some ab" "parse_raw (parse_approval (en_pydantic E)) ab = Inr a2"
    and "verify_evolution_approval (en_crypto E) a2 (en_policy E) ''rollback_candidate'' ident root = Inr ()"
  shows "check_rollback E (record_path rollback) q v = Inr (stored_record C state ident root a xs)"
proof -
  have "wf_json (promotion_item C x)" for x by (simp add: promotion_item_def opt_str_def split: option.split)
  then have "wf_json (promotion_record C state ident root a xs)" by (simp add: promotion_record_def wf_list_iff)
  from printed_line_reads_back [OF this assms(2,1)]
  obtain s where s: "read_text (record_path rollback) v = Inr s" "loads s = Inr (norm (promotion_record C state ident root a xs))" by blast
  have "norm (promotion_record C state ident root a xs) = PDict (stored_record C state ident root a xs)"
    by (simp add: promotion_record_items stored_record_def)
  with s assms(3-5) show ?thesis
    by (simp add: check_rollback_def read_bytes_def get_field_def stored_fields str_of_def)
qed

lemma parent_of_record: "CHR ''/'' \<notin> set name \<Longrightarrow> parent_path (inside d name) = d"
proof -
  assume n: "CHR ''/'' \<notin> set name"
  let ?p = "inside d name"
  have len: "length ?p = length d + Suc (length name)" by (simp add: inside_def)
  have idx: "filter (\<lambda>i. ?p ! i = CHR ''/'') [0..<length ?p] = filter (\<lambda>i. ?p ! i = CHR ''/'') [0..<length d] @ [length d]"
  proof -
    have up: "[0..<length ?p] = [0..<length d] @ [length d] @ [Suc (length d)..<length ?p]"
      using upt_add_eq_append [of 0 "length d" "Suc (length name)"] upt_conv_Cons [of "length d" "length ?p"] by (simp add: len)
    have "\<not> ?p ! i = CHR ''/''" if "i \<in> set [Suc (length d)..<length ?p]" for i
    proof -
      from that have i: "length d < i" "i < length d + Suc (length name)" by (auto simp: len)
      then have "?p ! i = name ! (i - length d - 1)" by (simp add: inside_def nth_append nth_Cons')
      moreover have "i - length d - 1 < length name" using i by simp
      ultimately show ?thesis using n by (metis nth_mem)
    qed
    then have "filter (\<lambda>i. ?p ! i = CHR ''/'') [Suc (length d)..<length ?p] = []" by (simp add: filter_empty_conv)
    moreover have "?p ! length d = CHR ''/''" by (simp add: inside_def)
    ultimately show ?thesis unfolding up by simp
  qed
  then have "ancestors ?p \<noteq> []" "last (ancestors ?p) = take (length d) ?p" by (simp_all add: ancestors_def)
  then show ?thesis by (cases "ancestors ?p") (simp_all add: parent_path_def inside_def)
qed

text \<open>The record directory and the approval are away from the targets, and no target lies below another.\<close>

definition apart :: "string \<Rightarrow> string \<Rightarrow> prepared list \<Rightarrow> bool" where
  "apart rollback q xs = (not_nested xs \<and> \<not> within_dir rollback q \<and> (\<forall>x \<in> set xs. let d = pp_destination x in
     \<not> within_dir rollback d \<and> d \<noteq> rollback \<and> \<not> within_dir d rollback \<and> d \<noteq> q \<and> \<not> within_dir d q))"

lemma midway_below:
  assumes m: "midway C ident root a rollback xs t u" and x: "x \<in> set xs" "prepared_for E t x"
    and t: "wf_tree t" and away: "apart rollback q xs"
  shows "below (pp_destination x) (dict_put q ab u) = []"
  unfolding below_empty_iff
proof (intro allI impI)
  fix p assume p: "within_dir (pp_destination x) p"
  have "\<not> within_dir rollback p"
    using dirs_comparable [OF p] away x(1) by (auto simp: apart_def Let_def)
  moreover have "p \<notin> targets xs" "p \<noteq> q" using p away x(1) by (auto simp: apart_def not_nested_def targets_def Let_def)
  ultimately have u: "map_of (dict_put q ab u) p = map_of t p" using m by (simp add: midway_def)
  show "map_of (dict_put q ab u) p = None"
  proof (cases "pp_previous x")
    case None
    then have "below (pp_destination x) t = []" using x(2) by (auto simp: prepared_for_def Let_def split: if_splits)
    with p u show ?thesis by (simp add: below_empty_iff)
  next
    case (Some b)
    then have "map_of t (pp_destination x) \<noteq> None" using x(2) by (simp add: prepared_for_def Let_def)
    with p have "blocked p t" by (auto simp: blocked_iff)
    with t have "p \<notin> fst ` set t" by (auto simp: wf_tree_def)
    then show ?thesis using u by (simp add: map_of_eq_None_iff)
  qed
qed

lemma midway_rolls_back:
  assumes m: "midway (en_crypto E) ident root a rollback xs t u"
    and xs: "\<forall>x \<in> set xs. prepared_for E t x" "distinct (map pp_destination xs)" and t: "wf_tree t" and away: "apart rollback q xs"
    and approval: "parse_raw (parse_approval (en_pydantic E)) ab = Inr a2"
      "verify_evolution_approval (en_crypto E) a2 (en_policy E) ''rollback_candidate'' ident root = Inr ()"
  shows "\<exists>v. undo_promotion E (record_path rollback) q (dict_put q ab u) = (Inr (), v)
    \<and> (\<forall>p. \<not> within_dir rollback p \<and> p \<noteq> q \<longrightarrow> map_of v p = map_of t p)"
proof -
  let ?u = "dict_put q ab u" and ?C = "en_crypto E"
  have rp: "within_dir rollback (record_path rollback)" by (simp add: record_path_def)
  have q: "\<not> within_dir rollback q" using away by (simp add: apart_def)
  obtain state b where b: "canonical_json (promotion_record ?C state ident root a xs) = Inr b" "map_of u (record_path rollback) = Some (b @ [CHR 0x0A])"
    using m by (auto simp: midway_def)
  have "map_of ?u (record_path rollback) = Some (b @ [CHR 0x0A])" using b(2) rp q by auto
  from check_rollback_passes [OF this b(1) _ approval, of q]
  have check: "check_rollback E (record_path rollback) q ?u = Inr (stored_record ?C state ident root a xs)" by simp
  have "\<forall>x \<in> set xs. prepared_for E t x \<and> (map_of ?u (pp_destination x) = pp_previous x \<or> map_of ?u (pp_destination x) = Some (pp_promoted x))
      \<and> below (pp_destination x) ?u = [] \<and> \<not> within_dir rollback (pp_destination x)
      \<and> (\<forall>b. pp_previous x = Some b \<longrightarrow> map_of ?u (backup_path rollback (mu_path (pp_mutation x))) = Some b)"
  proof
    fix x assume x: "x \<in> set xs"
    then have d: "map_of t (pp_destination x) = pp_previous x" using xs(1) by (auto simp: prepared_for_def Let_def)
    have "\<not> within_dir rollback (pp_destination x)" "pp_destination x \<noteq> q" using x away by (auto simp: apart_def Let_def)
    moreover have "q \<noteq> backup_path rollback (mu_path (pp_mutation x))" using q backup_within by metis
    ultimately show "prepared_for E t x \<and> (map_of ?u (pp_destination x) = pp_previous x \<or> map_of ?u (pp_destination x) = Some (pp_promoted x))
      \<and> below (pp_destination x) ?u = [] \<and> \<not> within_dir rollback (pp_destination x)
      \<and> (\<forall>b. pp_previous x = Some b \<longrightarrow> map_of ?u (backup_path rollback (mu_path (pp_mutation x))) = Some b)"
      using m x xs(1) d midway_below [OF m x _ t away, of E ab] by (auto simp: midway_def)
  qed
  moreover have "not_nested xs" using away by (simp add: apart_def)
  ultimately obtain us v where v: "mapS (undo_item E rollback) (map (stored_item ?C) xs) ?u = (Inr us, v)"
    "\<forall>x \<in> set xs. map_of v (pp_destination x) = pp_previous x" "\<forall>p. p \<notin> targets xs \<longrightarrow> map_of v p = map_of ?u p"
    using undo_items_restore [OF _ xs(2)] by blast
  obtain c where c: "canonical_json (PDict (dict_put ''state'' (PStr ''rolled_back'') (stored_record ?C state ident root a xs))) = Inr c"
    using rolled_back_prints by blast
  have parent: "parent_path (record_path rollback) = rollback" unfolding record_path_def by (rule parent_of_record) simp
  have "undo_promotion E (record_path rollback) q ?u = (Inr (), dict_put (record_path rollback) (c @ [CHR 0x0A]) v)"
    using v(1) by (simp add: undo_promotion_def check stored_fields iterated_def parent c write_bytes_def bindS_def)
  moreover have "map_of (dict_put (record_path rollback) (c @ [CHR 0x0A]) v) p = map_of t p" if p: "\<not> within_dir rollback p" "p \<noteq> q" for p
  proof (cases "p \<in> targets xs")
    case True
    then obtain x where "x \<in> set xs" "p = pp_destination x" by (auto simp: targets_def)
    then show ?thesis using v(2) xs(1) p(1) rp by (auto simp: prepared_for_def Let_def)
  next
    case False
    then show ?thesis using v(3) m p rp by (auto simp: midway_def)
  qed
  ultimately show ?thesis by blast
qed

section \<open>What the preflight has checked\<close>

lemma preflight_Inr:
  assumes "preflight E package approval_file rollback_root t = Inr (ident, root, a, rollback, xs)"
  obtains ab cb eb c e where
    "verify_evolution_package (en_crypto E) (en_pydantic E) (en_stdlib E) package t = Inr root"
    "map_of t approval_file = Some ab" "parse_raw (parse_approval (en_pydantic E)) ab = Inr a"
    "map_of t (inside package ''candidate.json'') = Some cb" "parse_raw (parse_candidate (en_pydantic E)) cb = Inr c"
    "candidate_id (en_crypto E) c = Inr ident"
    "verify_evolution_approval (en_crypto E) a (en_policy E) ''promote_candidate'' ident root = Inr ()"
    "map_of t (inside package ''evaluation.json'') = Some eb" "parse_raw (parse_evaluation (en_pydantic E) (en_stdlib E)) eb = Inr e"
    "check_current E c e t = Inr ()" "rollback = inside rollback_root ident" "\<not> path_exists rollback t"
    "mapE (\<lambda>m. prepare_mutation E package m t) (cn_mutations c) = Inr xs"
  using assms by (auto simp: preflight_def Let_def read_bytes_def dest: under_Inr)

lemma mapE_prepared:
  "mapE (\<lambda>m. prepare_mutation E package m t) ms = Inr xs \<Longrightarrow> map pp_mutation xs = ms \<and> (\<forall>x \<in> set xs. prepared_for E t x
    \<and> map_of t (inside package (''changes/'' @ mu_path (pp_mutation x))) = Some (pp_promoted x))"
proof (induction ms arbitrary: xs)
  case (Cons m ms)
  then obtain y ys where y: "prepare_mutation E package m t = Inr y" "xs = y # ys" "mapE (\<lambda>m. prepare_mutation E package m t) ms = Inr ys"
    by auto
  from prepare_mutation_Inr [OF y(1)] Cons.IH [OF y(3)] y(2) show ?case by auto
qed simp

lemma preflight_targets:
  assumes "preflight E package approval_file rollback_root t = Inr (ident, root, a, rollback, xs)"
  shows "\<forall>x \<in> set xs. prepared_for E t x" "distinct (map (\<lambda>x. mu_path (pp_mutation x)) xs)" "distinct (map pp_destination xs)"
    "\<not> path_exists rollback t"
proof -
  from assms obtain cb c where c: "parse_raw (parse_candidate (en_pydantic E)) cb = Inr c"
    and xs: "mapE (\<lambda>m. prepare_mutation E package m t) (cn_mutations c) = Inr xs" and r: "\<not> path_exists rollback t"
    by (rule preflight_Inr)
  show "\<not> path_exists rollback t" by (rule r)
  show p: "\<forall>x \<in> set xs. prepared_for E t x" using mapE_prepared [OF xs] by blast
  have "distinct (map mu_path (map pp_mutation xs))" using parse_raw_Inr [OF c] candidate_paths mapE_prepared [OF xs] by metis
  then show d: "distinct (map (\<lambda>x. mu_path (pp_mutation x)) xs)" by (simp add: comp_def)
  show "distinct (map pp_destination xs)" using paths_of_prepared [OF p d] .
qed

section \<open>What a promotion writes\<close>

text \<open>A method after which a path holds what it held before, or something allowed there.\<close>

definition changes_only :: "(string \<Rightarrow> bytes option \<Rightarrow> bool) \<Rightarrow> (tree, 'a) op \<Rightarrow> bool" where
  "changes_only A m = (\<forall>t q. map_of (snd (m t)) q = map_of t q \<or> A q (map_of (snd (m t)) q))"

lemma changes_onlyD: "changes_only A m \<Longrightarrow> m t = (r, t') \<Longrightarrow> map_of t' q = map_of t q \<or> A q (map_of t' q)"
  by (metis changes_only_def snd_conv)

lemma changes_only_at: "only_at P m \<Longrightarrow> (\<And>q v. P q \<Longrightarrow> A q v) \<Longrightarrow> changes_only A m"
  by (auto simp: only_at_def changes_only_def)

lemma changes_only_bindS: "changes_only A m \<Longrightarrow> (\<And>a. changes_only A (f a)) \<Longrightarrow> changes_only A (bindS m f)"
  unfolding changes_only_def
proof (intro allI)
  fix t q
  assume m: "\<forall>t q. map_of (snd (m t)) q = map_of t q \<or> A q (map_of (snd (m t)) q)"
    and f: "\<And>a. \<forall>t q. map_of (snd (f a t)) q = map_of t q \<or> A q (map_of (snd (f a t)) q)"
  obtain r u where u: "m t = (r, u)" by (cases "m t")
  with m have "map_of u q = map_of t q \<or> A q (map_of u q)" by (metis snd_conv)
  then show "map_of (snd (bindS m f t)) q = map_of t q \<or> A q (map_of (snd (bindS m f t)) q)"
    using u f by (cases r) (auto simp: bindS_def, metis+)
qed

lemma apply_writes:
  assumes "apply_promotion C ident root a rollback xs t = (r, u)"
  shows "map_of u q = map_of t q \<or> within_dir rollback q \<or> (\<exists>x \<in> set xs. q = pp_destination x \<and> map_of u q = Some (pp_promoted x))"
proof -
  let ?A = "\<lambda>q v. within_dir rollback q \<or> (\<exists>x \<in> set xs. q = pp_destination x \<and> v = Some (pp_promoted x))"
  have rp: "within_dir rollback (inside rollback (normal_path ''promotion.json''))" by simp
  have "only_at (within_dir rollback) (mapS (write_backup rollback) xs)"
    unfolding write_backup_def by (intro only_at_intros) (rule backup_within)
  then have backups: "changes_only ?A (mapS (write_backup rollback) xs)" by (rule changes_only_at) simp
  have line: "changes_only ?A (write_line rollback ''promotion.json'' v)" for v
    by (rule changes_only_at [OF only_at_write_line [where A = "within_dir rollback", OF rp]]) simp
  have dir: "changes_only ?A (make_directory rollback)"
    unfolding changes_only_def using make_directory_state by (metis prod.collapse)
  have writes: "changes_only ?A (mapS write_prepared xs)"
    unfolding changes_only_def using writes_between [of xs] by (metis prod.collapse)
  have ret: "changes_only ?A (retS v)" for v :: string
    by (simp add: changes_only_def)
  have "changes_only ?A (apply_promotion C ident root a rollback xs)"
    unfolding apply_promotion_def by (intro changes_only_bindS dir backups line writes ret)
  from changes_onlyD [OF this assms, of q] show ?thesis .
qed

lemma verified_changes:
  assumes "verify_evolution_package C P L package t = Inr root"
    and "map_of t (inside package ''candidate.json'') = Some cb" "parse_raw (parse_candidate P) cb = Inr c" "m \<in> set (cn_mutations c)"
  shows "\<exists>b. mutation_content m = Inr b \<and> map_of t (inside package (''changes/'' @ mu_path m)) = Some b"
proof -
  let ?fs = "below package t"
  from assms(1-3) have "\<exists>us. mapE (check_change ?fs) (cn_mutations c) = Inr us"
    by (auto simp: verify_evolution_package_def verify_package_files_def Let_def read_bytes_def map_of_below)
  then obtain v where "check_change ?fs m = Inr v" using assms(4) mapE_member by metis
  then show ?thesis using safe_relative_Inr
    by (auto simp: check_change_def read_bytes_def map_of_below dest!: safe_relative_Inr)
qed

definition authorised_promotion :: "engine \<Rightarrow> string \<Rightarrow> string \<Rightarrow> tree \<Rightarrow> string \<Rightarrow> candidate \<Rightarrow> bool" where
  "authorised_promotion E package approval_file t ident c = (let C = en_crypto E; P = en_pydantic E; L = en_stdlib E in
     \<exists>root ab a payload cb eb e. verify_evolution_package C P L package t = Inr root
     \<and> map_of t (inside package ''candidate.json'') = Some cb \<and> parse_raw (parse_candidate P) cb = Inr c \<and> candidate_id C c = Inr ident
     \<and> map_of t approval_file = Some ab \<and> parse_raw (parse_approval P) ab = Inr a
     \<and> ap_action a = ''promote_candidate'' \<and> ap_candidate_id a = ident \<and> ap_root a = root \<and> ap_operator a \<in> set (vp_operators (en_policy E))
     \<and> evolution_approval_payload a = Inr payload \<and> verify_signature C (ap_operator a) payload (ap_signature a)
     \<and> map_of t (inside package ''evaluation.json'') = Some eb \<and> parse_raw (parse_evaluation P L) eb = Inr e
     \<and> el_passed e \<and> el_image e = vp_image (en_policy E) \<and> evolution_policy_digest C (en_policy E) = Inr (el_policy e)
     \<and> registry_digest C (en_registry E) = Inr (cn_registry c) \<and> source_tree_digest C (en_root E) t = Inr (cn_source c))"

lemma preflight_authorised:
  assumes "preflight E package approval_file rollback_root t = Inr (ident, root, a, rollback, xs)"
  shows "\<exists>c. authorised_promotion E package approval_file t ident c \<and> rollback = inside rollback_root ident
    \<and> (\<forall>x \<in> set xs. \<exists>m \<in> set (cn_mutations c). pp_destination x = inside (en_root E) (mu_path m) \<and> mutation_content m = Inr (pp_promoted x)
      \<and> list_ex (is_path_or_child (mu_path m)) (vp_allowed (en_policy E)) \<and> \<not> list_ex (is_path_or_child (mu_path m)) (vp_protected (en_policy E)))"
  using assms
proof (rule preflight_Inr)
  fix ab cb eb c e
  assume v: "verify_evolution_package (en_crypto E) (en_pydantic E) (en_stdlib E) package t = Inr root"
    and a: "map_of t approval_file = Some ab" "parse_raw (parse_approval (en_pydantic E)) ab = Inr a"
    and c: "map_of t (inside package ''candidate.json'') = Some cb" "parse_raw (parse_candidate (en_pydantic E)) cb = Inr c"
      "candidate_id (en_crypto E) c = Inr ident"
    and ok: "verify_evolution_approval (en_crypto E) a (en_policy E) ''promote_candidate'' ident root = Inr ()"
    and e: "map_of t (inside package ''evaluation.json'') = Some eb" "parse_raw (parse_evaluation (en_pydantic E) (en_stdlib E)) eb = Inr e"
    and now: "check_current E c e t = Inr ()" and rb: "rollback = inside rollback_root ident"
    and xs: "mapE (\<lambda>m. prepare_mutation E package m t) (cn_mutations c) = Inr xs"
  from ok obtain payload where "ap_action a = ''promote_candidate''" "ap_candidate_id a = ident" "ap_root a = root"
    "ap_operator a \<in> set (vp_operators (en_policy E))" "evolution_approval_payload a = Inr payload"
    "verify_signature (en_crypto E) (ap_operator a) payload (ap_signature a)" by (auto simp: verify_evolution_approval_def)
  moreover from now obtain rk where "el_passed e" "el_image e = vp_image (en_policy E)" "evolution_policy_digest (en_crypto E) (en_policy E) = Inr (el_policy e)"
    "registry_digest (en_crypto E) (en_registry E) = Inr (cn_registry c)" "source_tree_digest (en_crypto E) (en_root E) t = Inr (cn_source c)"
    and rk: "validate_candidate c (en_policy E) = Inr rk" by (auto simp: check_current_def Let_def)
  ultimately have "authorised_promotion E package approval_file t ident c"
    unfolding authorised_promotion_def Let_def using v a c e by blast
  moreover have "\<exists>m \<in> set (cn_mutations c). pp_destination x = inside (en_root E) (mu_path m) \<and> mutation_content m = Inr (pp_promoted x)
      \<and> list_ex (is_path_or_child (mu_path m)) (vp_allowed (en_policy E)) \<and> \<not> list_ex (is_path_or_child (mu_path m)) (vp_protected (en_policy E))"
    if x: "x \<in> set xs" for x
  proof -
    have m: "pp_mutation x \<in> set (cn_mutations c)" using mapE_prepared [OF xs] x by (metis image_eqI list.set_map)
    have p: "prepared_for E t x" "map_of t (inside package (''changes/'' @ mu_path (pp_mutation x))) = Some (pp_promoted x)"
      using mapE_prepared [OF xs] x by blast+
    from verified_changes [OF v c(1,2) m] p(2) have "mutation_content (pp_mutation x) = Inr (pp_promoted x)" by auto
    with m p(1) validated_mutations [OF rk] show ?thesis by (auto simp: prepared_for_def Let_def)
  qed
  ultimately show ?thesis using rb by blast
qed

section \<open>Properties\<close>

text \<open>
  C4: A promotion is reversible, even an interrupted one: from the tree of every promotion that got as far
  as its recovery record, whether it finished, failed or was stopped after any number of its
  writes, an approved rollback returns and gives every file outside the record's directory the content it had
  before the promotion, created files being removed.
\<close>

theorem promotion_reversible:
  assumes "preflight E package approval_file rollback_root t = Inr (ident, root, a, rollback, xs)"
    and "u = snd (apply_promotion (en_crypto E) ident root a rollback xs t)
      \<or> u = snd (stopped_promotion (en_crypto E) ident root a rollback xs k t)"
    and "is_file (record_path rollback) u" "wf_tree t" "apart rollback q xs"
    and "parse_raw (parse_approval (en_pydantic E)) ab = Inr a2"
      "verify_evolution_approval (en_crypto E) a2 (en_policy E) ''rollback_candidate'' ident root = Inr ()"
    and "\<not> b_kill w" "\<not> component_quarantined ''evolution'' (b_store w)"
  shows "\<exists>v. roll_back E (record_path rollback) q (w, dict_put q ab u) = (Inr (), (w, v))
    \<and> (\<forall>p. \<not> within_dir rollback p \<and> p \<noteq> q \<longrightarrow> map_of v p = map_of t p)"
proof -
  note pre = preflight_targets [OF assms(1)]
  have away: "\<forall>x \<in> set xs. \<not> within_dir rollback (pp_destination x)" using assms(5) by (auto simp: apart_def Let_def)
  have "midway (en_crypto E) ident root a rollback xs t u"
    using midway_states [OF pre(4) assms(3) pre(2,3) away] assms(2) by (metis prod.collapse)
  from midway_rolls_back [OF this pre(1,3) assms(4-7)] show ?thesis
    using assms(8,9) by (auto simp: roll_back_def bindS_def on_fst_def on_snd_def gate_require_open)
qed

text \<open>
  C3: Every change that a promotion makes is authorised: a run that leaves a path with other content has found
  a package that verifies, an approval of exactly this candidate and root signed by an operator whom the policy trusts,
  an evaluation that passed under the current policy and image, and the current registry and source tree; the path
  is in the recovery directory of the candidate or is the place of one of its mutations, allowed and not protected,
  and then holds that mutation's content.  Nothing but files changes.
\<close>

theorem promotion_authorised:
  assumes "promote E package approval_file rollback_root (w, t) = (r, (w', t'))"
  shows "w' = w \<and> (map_of t' q = map_of t q \<or> (\<exists>ident c. authorised_promotion E package approval_file t ident c
    \<and> (within_dir (inside rollback_root ident) q \<or> (\<exists>m \<in> set (cn_mutations c). q = inside (en_root E) (mu_path m)
        \<and> list_ex (is_path_or_child (mu_path m)) (vp_allowed (en_policy E)) \<and> \<not> list_ex (is_path_or_child (mu_path m)) (vp_protected (en_policy E))
        \<and> (\<exists>b. mutation_content m = Inr b \<and> map_of t' q = Some b)))))"
proof -
  have gate: "snd (on_fst (gate_require ''evolution'') (w, t)) = (w, t)"
    using gate_require_state [of "''evolution''" w] by (auto simp: on_fst_def split: prod.splits)
  consider "(w', t') = (w, t)" | ident root a rollback xs
    where "w' = w" "preflight E package approval_file rollback_root t = Inr (ident, root, a, rollback, xs)"
      "apply_promotion (en_crypto E) ident root a rollback xs t = (r, t')"
    using assms gate by (auto simp: promote_def bindS_def on_snd_def getS_def liftS_def split: prod.splits sum.splits)
  then show ?thesis
  proof cases
    case 2
    obtain c where c: "authorised_promotion E package approval_file t ident c" "rollback = inside rollback_root ident"
      "\<forall>x \<in> set xs. \<exists>m \<in> set (cn_mutations c). pp_destination x = inside (en_root E) (mu_path m) \<and> mutation_content m = Inr (pp_promoted x)
        \<and> list_ex (is_path_or_child (mu_path m)) (vp_allowed (en_policy E)) \<and> \<not> list_ex (is_path_or_child (mu_path m)) (vp_protected (en_policy E))"
      using preflight_authorised [OF 2(2)] by blast
    from apply_writes [OF 2(3), of q] c 2(1) show ?thesis by metis
  qed simp
qed

end
