(* ===== verification/Evolution_Example.thy ===== *)
theory Evolution_Example
  imports Evolution_Package Evolution_Promotion
begin

text \<open>
  A project with one proposal: an engine, its policy and a candidate that creates a document,
  taken through staging, packaging, promotion and rollback.
\<close>

definition demo_mutation :: mutation where
  "demo_mutation = \<lparr>mu_path = ''docs/b.md'', mu_operation = ''create'', mu_expected = None, mu_content_base64 = ''eA==''\<rparr>"

definition demo_operator :: string where
  "demo_operator = (case identity_of_private demo_crypto ''op'' of Inl _ \<Rightarrow> [] | Inr i \<Rightarrow> id_did i)"

definition demo_rules :: evolution_policy where
  "demo_rules = \<lparr>vp_image = ''sha256:'' @ replicate 64 CHR ''a'', vp_allowed = [''docs''], vp_protected = [''config''],
     vp_operators = [demo_operator], vp_max_files = 4, vp_max_bytes = 4096, vp_timeout = 30, vp_gates = fixed_gates\<rparr>"

definition the_text_of :: "string result \<Rightarrow> string" where
  "the_text_of r = (case r of Inl _ \<Rightarrow> [] | Inr s \<Rightarrow> s)"

definition demo_candidate :: candidate where
  "demo_candidate = \<lparr>cn_trigger = ''regression'', cn_objective = ''o'', cn_bundle_root = ''sha256:'' @ replicate 64 CHR ''b'',
     cn_registry = the_text_of (registry_digest demo_crypto []), cn_source = the_text_of (source_tree_digest demo_crypto ''/p'' []),
     cn_proposed_at = utc_at 63900003600000000, cn_mutations = [demo_mutation]\<rparr>"

definition demo_gates :: "gate_result list" where
  "demo_gates = map (\<lambda>n. \<lparr>gr_name = n, gr_passed = True, gr_exit_code = 0, gr_output_sha256 = ''sha256:'' @ replicate 64 CHR ''c'',
     gr_output_tail = []\<rparr>) fixed_gates"

definition demo_engine :: engine where
  "demo_engine = \<lparr>en_root = ''/p'', en_registry = [], en_policy = demo_rules, en_crypto = demo_crypto, en_pydantic = dated_pydantic,
     en_stdlib = plain_stdlib, en_evaluate = (\<lambda>_ _. Inr demo_gates)\<rparr>"

lemma demo_digests:
  "registry_digest demo_crypto [] = Inr (cn_registry demo_candidate)" "source_tree_digest demo_crypto ''/p'' [] = Inr (cn_source demo_candidate)"
  "immutable_digest (cn_registry demo_candidate)" "immutable_digest (cn_source demo_candidate)"
proof -
  have "plain (PDict [(''schema'', PStr ''rosetta.adapter-registry.v1''), (''adapters'', PList (map manifest_dict []))])" by simp
  from plain_canonical [OF this] obtain r where r: "registry_digest demo_crypto [] = Inr (prefixed_digest demo_crypto r)"
    by (auto simp: registry_digest_def prefixed_digest_def)
  have "plain (PList (map entry_dict []))" by simp
  from plain_canonical [OF this] obtain s where s: "source_tree_digest demo_crypto ''/p'' [] = Inr (prefixed_digest demo_crypto s)"
    by (auto simp: source_tree_digest_def sorted_files_def)
  show "registry_digest demo_crypto [] = Inr (cn_registry demo_candidate)" "source_tree_digest demo_crypto ''/p'' [] = Inr (cn_source demo_candidate)"
    "immutable_digest (cn_registry demo_candidate)" "immutable_digest (cn_source demo_candidate)"
    using r s immutable_sha [OF demo_crypto_ok] by (simp_all add: demo_candidate_def the_text_of_def)
qed

lemma demo_valid: "valid_candidate demo_candidate"
proof -
  have "strip ''o'' = ''o''" "immutable_digest (''sha256:'' @ replicate 64 CHR ''b'')" by code_simp+
  moreover have "valid_mutation demo_mutation" by (simp add: valid_mutation_def demo_mutation_def)
  moreover have "in_range 63900003600000000" by (simp add: in_range_def max_wall_def)
  ultimately show ?thesis using demo_digests(3,4) by (auto simp: valid_candidate_def demo_candidate_def)
qed

lemma demo_date: "reads_date dated_pydantic (cn_proposed_at demo_candidate)" "rounded demo_candidate = demo_candidate"
  by (simp_all add: reads_date_def dated_pydantic_def demo_candidate_def to_second_def us_per_second_def rounded_def)

lemma demo_paths: "orderly (map mu_path (cn_mutations demo_candidate))" "flat (map mu_path (cn_mutations demo_candidate))"
proof -
  have "list_all (\<lambda>c. \<not> line_break c \<and> c \<noteq> CHR 0x00) ''docs/b.md''" by code_simp
  then show "orderly (map mu_path (cn_mutations demo_candidate))" "flat (map mu_path (cn_mutations demo_candidate))"
    by (simp_all add: orderly_def flat_def demo_candidate_def demo_mutation_def)
qed

lemma demo_content: "mutation_content demo_mutation = Inr ''x''" "safe_relative ''docs/b.md'' = Inr ''docs/b.md''"
  by code_simp+

lemma demo_validated: "validate_candidate demo_candidate demo_rules = Inr Documentation"
proof -
  have "is_path_or_child ''docs/b.md'' ''docs''" "\<not> is_path_or_child ''docs/b.md'' ''config''" "risk_after ''docs/b.md'' TestOnly = Documentation" by code_simp+
  then show ?thesis using demo_content
    by (simp add: validate_candidate_def demo_candidate_def check_mutation_def demo_rules_def) (simp add: demo_mutation_def)
qed

lemma demo_ident: "\<exists>cb. canonical_json (candidate_dict demo_candidate) = Inr cb \<and> candidate_id demo_crypto demo_candidate = Inr (sha256_hex demo_crypto cb)"
proof -
  have "\<not> naive (utc_at 63900003600000000)" "in_range (instant (utc_at 63900003600000000))" by (simp_all add: in_range_def max_wall_def)
  then have "printable (PDateTime (cn_proposed_at demo_candidate))" by (intro datetime_printable) (simp_all add: demo_candidate_def)
  then have "\<exists>cb. canonical_json (candidate_dict demo_candidate) = Inr cb" unfolding candidate_dict_def
    by (intro printable_dict) (simp add: plain_printable plain_list_iff mutation_dict_def opt_str_def split: option.split)
  then show ?thesis by (auto simp: candidate_id_def)
qed

definition demo_workspace :: "string \<Rightarrow> string" where
  "demo_workspace ident = inside (inside ''/p/local/ws'' ident) ''candidate''"

lemma hex_plain: "crypto_ok C \<Longrightarrow> CHR 0x00 \<notin> set (sha256_hex C b)" "crypto_ok C \<Longrightarrow> CHR ''/'' \<notin> set (sha256_hex C b)"
proof -
  have "\<not> is_lower_hex (CHR 0x00)" "\<not> is_lower_hex (CHR ''/'')" by code_simp+
  then show "crypto_ok C \<Longrightarrow> CHR 0x00 \<notin> set (sha256_hex C b)" "crypto_ok C \<Longrightarrow> CHR ''/'' \<notin> set (sha256_hex C b)"
    using sha256_hex_lower [of C b] unfolding lower_hex_def list_all_iff by metis+
qed

lemma demo_fields:
  "en_root demo_engine = ''/p''" "en_registry demo_engine = []" "en_policy demo_engine = demo_rules" "en_crypto demo_engine = demo_crypto"
  "en_pydantic demo_engine = dated_pydantic" "en_stdlib demo_engine = plain_stdlib" "en_evaluate demo_engine d t = Inr demo_gates"
  "cn_mutations demo_candidate = [demo_mutation]" "mu_path demo_mutation = ''docs/b.md''" "mu_operation demo_mutation = ''create''"
  by (simp_all add: demo_engine_def demo_candidate_def demo_mutation_def)

lemma demo_under: "CHR 0x00 \<notin> set r \<Longrightarrow> CHR 0x00 \<notin> set p \<Longrightarrow> under r (inside r p) = Inr (inside r p)"
  by (auto simp: under_def inside_def within_dir_def starts_with_iff)

lemma demo_staged:
  assumes "candidate_id demo_crypto demo_candidate = Inr (sha256_hex demo_crypto cb)"
  defines "ident \<equiv> sha256_hex demo_crypto cb"
  shows "stage demo_engine demo_candidate ''/p/local/ws'' (demo_env, [])
    = (Inr (ident, demo_workspace ident, Documentation), (demo_env, [(inside (demo_workspace ident) ''docs/b.md'', ''x'')]))"
proof -
  note plain = hex_plain [OF demo_crypto_ok, of cb]
  have gate: "on_fst (gate_require ''evolution'') (demo_env, []) = (Inr (), (demo_env, []))"
    by (simp add: on_fst_def gate_require_open demo_env_def component_quarantined_def empty_store_def)
  have local: "under ''/p'' ''/p/local/ws'' = Inr ''/p/local/ws''" "hd (path_parts (drop (length ''/p'' + 1) ''/p/local/ws'')) = ''local''"
    by code_simp+
  have ident: "under ''/p'' (inside ''/p/local/ws'' ident) = Inr (inside ''/p/local/ws'' ident)"
    using plain by (auto simp: under_def inside_def within_dir_def starts_with_iff ident_def)
  have dest: "under (demo_workspace ident) (inside (demo_workspace ident) ''docs/b.md'') = Inr (inside (demo_workspace ident) ''docs/b.md'')"
    using plain by (intro demo_under) (auto simp: demo_workspace_def inside_def ident_def)
  have change: "stage_mutation demo_crypto (demo_workspace ident) demo_mutation [] = (Inr (), [(inside (demo_workspace ident) ''docs/b.md'', ''x'')])"
    using demo_content dest
    by (simp add: stage_mutation_def demo_mutation_def check_target_def path_exists_def is_file_def write_deep_cases blocked_iff dict_put_def)
  have steps: "\<not> path_exists (inside ''/p/local/ws'' ident) []"
    "mapS (stage_mutation demo_crypto (demo_workspace ident)) [demo_mutation] [] = (Inr [()], [(inside (demo_workspace ident) ''docs/b.md'', ''x'')])"
    by (simp_all add: path_exists_def is_file_def bindS_def change)
  have dir: "on_snd (make_directory d) (demo_env, []) = (Inr (), (demo_env, []))" "on_snd (copy_sources s d) (demo_env, []) = (Inr (), (demo_env, []))" for s d
    by (simp_all add: on_snd_def make_directory_def blocked_iff copy_sources_def put_files_def)
  show ?thesis unfolding stage_def Let_def demo_fields
    using gate local ident demo_digests(1,2) demo_validated assms(1)
    by (simp add: bindS_pair steps(1) dir steps(2) ident_def [symmetric] demo_workspace_def [symmetric] del: mapS.simps)
qed

section \<open>The witnesses\<close>

text \<open>What packaging needs of the example: the verdict, the policy and the place of the package.\<close>

lemma demo_gates_facts:
  "judge_gates demo_rules demo_gates = Inr True"
  "list_all (\<lambda>g. immutable_digest (gr_output_sha256 g) \<and> \<bar>gr_exit_code g\<bar> < 10 ^ 100) demo_gates"
  "immutable_digest (vp_image demo_rules)" "plain (policy_dict demo_rules)"
proof -
  have d: "immutable_digest (''sha256:'' @ replicate 64 CHR ''c'')" "immutable_digest (''sha256:'' @ replicate 64 CHR ''a'')" by code_simp+
  show "judge_gates demo_rules demo_gates = Inr True"
    by (simp add: judge_gates_def demo_rules_def demo_gates_def fixed_gates_def Let_def comp_def)
  show "list_all (\<lambda>g. immutable_digest (gr_output_sha256 g) \<and> \<bar>gr_exit_code g\<bar> < 10 ^ 100) demo_gates"
    unfolding demo_gates_def list_all_iff using d(1) by auto
  show "immutable_digest (vp_image demo_rules)" unfolding demo_rules_def using d(2) by simp
  show "plain (policy_dict demo_rules)" by (auto simp: policy_dict_def plain_list_iff demo_rules_def)
qed

lemma demo_place:
  fixes cb :: bytes
  assumes "crypto_ok C"
  defines "u \<equiv> [(inside (demo_workspace (sha256_hex C cb)) ''docs/b.md'', ''x'')]"
  shows "under ''/p'' ''/p/artifacts/x'' = Inr ''/p/artifacts/x''" "open_directory ''/p/artifacts/x'' u" "below ''/p/artifacts/x'' u = []"
proof -
  show "under ''/p'' ''/p/artifacts/x'' = Inr ''/p/artifacts/x''" by code_simp
  have w: "inside (demo_workspace i) p = ''/p/local/ws/'' @ i @ ''/candidate/'' @ p" for i p by (simp add: demo_workspace_def inside_def)
  show "open_directory ''/p/artifacts/x'' u" "below ''/p/artifacts/x'' u = []"
    unfolding u_def w by (auto simp: open_directory_def blocked_iff below_empty_iff is_file_def within_dir_def starts_with_iff)
qed

lemma staged_package_verifies_witness:
  "\<exists>cb root e w' t'. evaluate_and_package demo_engine demo_candidate ''/p/local/ws'' ''/p/artifacts/x''
       (guarded_sign (keyed_signer demo_crypto [])) (demo_env, []) = (Inr (root, e), (w', t'))
     \<and> candidate_id demo_crypto demo_candidate = Inr (sha256_hex demo_crypto cb) \<and> el_passed e
     \<and> verify_evolution_package demo_crypto dated_pydantic plain_stdlib ''/p/artifacts/x'' t' = Inr root"
proof -
  obtain cb where cb: "candidate_id demo_crypto demo_candidate = Inr (sha256_hex demo_crypto cb)" using demo_ident by blast
  have "\<exists>i. identity_of_private demo_crypto [] = Inr i"
    by (simp add: identity_of_private_def did_from_public_key_def demo_crypto_def)
  then obtain i where i: "identity_of_private demo_crypto [] = Inr i" ..
  have opened: "\<not> b_kill demo_env" "\<not> component_quarantined ''signer'' (b_store demo_env)"
    by (simp_all add: demo_env_def component_quarantined_def empty_store_def)
  have parsed: "parse_candidate dated_pydantic (norm (candidate_dict demo_candidate)) = Inr demo_candidate"
    using candidate_reads_back [OF demo_valid demo_date(1)] demo_date(2) by simp
  note place = demo_place(1) [OF demo_crypto_ok] demo_place(2,3) [OF demo_crypto_ok, of cb]
  from staged_package_verifies [where E = demo_engine, unfolded demo_fields(1-7), OF demo_crypto_ok i opened parsed demo_date(1) demo_paths
      demo_staged [OF cb] refl demo_gates_facts(1-4) place]
  show ?thesis using cb by (metis (full_types))
qed

text \<open>What an operator hands in for an action on a candidate.\<close>

lemma demo_approval:
  assumes "action \<in> {''promote_candidate'', ''rollback_candidate''}" "immutable_digest root"
  shows "\<exists>ab a. parse_raw (parse_approval dated_pydantic) ab = Inr a
    \<and> verify_evolution_approval demo_crypto a demo_rules action ident root = Inr ()
    \<and> ap_approved_at a = utc_at 63900003600000000 \<and> ap_approved_by a = ''al''"
proof -
  have "\<exists>i. identity_of_private demo_crypto ''op'' = Inr i"
    by (simp add: identity_of_private_def did_from_public_key_def demo_crypto_def)
  then obtain i where i: "identity_of_private demo_crypto ''op'' = Inr i" ..
  then have oper: "demo_operator = id_did i" by (simp add: demo_operator_def)
  define a0 where "a0 sig = \<lparr>ap_action = action, ap_candidate_id = ident, ap_root = root, ap_approved_by = ''al'',
    ap_approved_at = utc_at 63900003600000000, ap_operator = id_did i, ap_signature = sig\<rparr>" for sig
  have "printable (PDateTime (utc_at 63900003600000000))"
    by (intro datetime_printable) (simp_all add: in_range_def max_wall_def)
  then have "\<exists>b. canonical_json (PDict [(''schema'', PStr ''rosetta.evolution-approval.v1''), (''action'', PStr action),
      (''candidate_id'', PStr ident), (''evolution_root'', PStr root), (''approved_by'', PStr ''al''),
      (''approved_at'', PDateTime (utc_at 63900003600000000)), (''operator_did'', PStr (id_did i))]) = Inr b"
    by (intro printable_dict) (simp add: plain_printable)
  then obtain payload where p: "\<And>sig. evolution_approval_payload (a0 sig) = Inr payload"
    by (auto simp: evolution_approval_payload_def a0_def)
  define a where "a = a0 (identity_sign demo_crypto i payload)"
  have ok: "verify_evolution_approval demo_crypto a demo_rules action ident root = Inr ()"
    using identity_verifies [OF demo_crypto_ok i, of payload] p
    by (simp add: verify_evolution_approval_def a_def) (simp add: a0_def demo_rules_def oper)
  let ?v = "PDict [(''action'', PStr action), (''candidate_id'', PStr ident), (''evolution_root'', PStr root),
      (''approved_by'', PStr ''al''), (''approved_at'', PStr ''now''), (''operator_did'', PStr (id_did i)),
      (''signature'', PStr (ap_signature a)), (''schema'', PStr ''rosetta.evolution-approval.v1'')]"
  have v: "plain ?v" by simp
  obtain b where b: "canonical_json ?v = Inr b" using plain_canonical [OF v] ..
  have "in_range 63900003600000000" by (simp add: in_range_def max_wall_def)
  then have "aware_utc dated_pydantic w = Inr (utc_at 63900003600000000)" if "w = Some (PStr ''now'')" for w
    using that by (simp add: aware_utc_def a_datetime_def dated_pydantic_def to_utc_def)
  moreover have "strip ''al'' = ''al''" by code_simp
  ultimately have "parse_approval dated_pydantic (norm ?v) = Inr a" using assms
    by (auto simp: parse_approval_def as_dict_def closed_fields_def schema_field_def literal_def strict_str_def a_digest_def
        bounded_text_def a_def a0_def)
  from line_parses_back [where f = "parse_approval dated_pydantic", OF plain_wf(1) [OF v] b this] ok
  moreover have "ap_approved_at a = utc_at 63900003600000000" "ap_approved_by a = ''al''" by (simp_all add: a_def a0_def)
  ultimately show ?thesis by blast
qed

text \<open>The project once the package and an approval are in place.\<close>

definition demo_tree :: "tree \<Rightarrow> bytes \<Rightarrow> tree" where
  "demo_tree fs ab = map (\<lambda>(p, b). (inside ''/p/artifacts/x'' p, b)) fs @ [(''/p/local/ok.json'', ab)]"

lemma wf_tree_keys: "wf_tree t \<longleftrightarrow> distinct (map fst t) \<and> list_all (\<lambda>p. list_all (\<lambda>a. a \<notin> set (map fst t)) (ancestors p)) (map fst t)"
  by (auto simp: wf_tree_def blocked_def is_file_def list_all_iff list_ex_iff map_of_eq_None_iff)

lemma demo_tree_facts:
  assumes fs: "map fst fs = document_paths @ [''changes/docs/b.md'', ''checksums.txt'', ''attestation.json'']"
  shows "below ''/p/artifacts/x'' (demo_tree fs ab) = fs" "map_of (demo_tree fs ab) ''/p/local/ok.json'' = Some ab"
    "map_of (demo_tree fs ab) (inside ''/p/artifacts/x'' q) = map_of fs q"
    "wf_tree (demo_tree fs ab)" "source_tree_digest demo_crypto ''/p'' (demo_tree fs ab) = source_tree_digest demo_crypto ''/p'' []"
    "\<not> blocked ''/p/docs/b.md'' (demo_tree fs ab)" "below ''/p/docs/b.md'' (demo_tree fs ab) = []" "map_of (demo_tree fs ab) ''/p/docs/b.md'' = None"
proof -
  let ?t = "demo_tree fs ab"
  let ?k = "map (inside ''/p/artifacts/x'') (document_paths @ [''changes/docs/b.md'', ''checksums.txt'', ''attestation.json'']) @ [''/p/local/ok.json'']"
  have k: "map fst ?t = ?k" unfolding fs [symmetric] demo_tree_def by (simp add: case_prod_unfold comp_def)
  have "\<not> within_dir ''/p/artifacts/x'' ''/p/local/ok.json''" by code_simp
  then show "below ''/p/artifacts/x'' ?t = fs" by (simp add: demo_tree_def below_Cons within_dir_def)
  have "distinct ?k \<and> list_all (\<lambda>p. list_all (\<lambda>a. a \<notin> set ?k) (ancestors p)) ?k" by code_simp
  then show w: "wf_tree ?t" unfolding wf_tree_keys k .
  show "map_of ?t ''/p/local/ok.json'' = Some ab"
    by (auto simp: demo_tree_def map_of_append map_add_def inside_def dest!: map_of_SomeD split: option.splits)
  show "map_of ?t (inside ''/p/artifacts/x'' q) = map_of fs q"
    by (induction fs) (auto simp: demo_tree_def inside_def)
  have none: "x \<notin> set ?k \<Longrightarrow> map_of ?t x = None" for x using k by (metis map_of_eq_None_iff list.set_map)
  have "''/p/docs/b.md'' \<notin> set ?k" by code_simp
  then show "map_of ?t ''/p/docs/b.md'' = None" by (rule none)
  have "list_all (\<lambda>a. a \<notin> set ?k) (ancestors ''/p/docs/b.md'')" by code_simp
  then show "\<not> blocked ''/p/docs/b.md'' ?t" using none by (auto simp: blocked_def list_ex_iff list_all_iff is_file_def)
  have "list_all (\<lambda>a. \<not> within_dir ''/p/docs/b.md'' a) ?k" by code_simp
  then show "below ''/p/docs/b.md'' ?t = []" using none unfolding below_empty_iff list_all_iff by metis
  have "list_all (\<lambda>a. \<not> within_dir ''/p'' a \<or> \<not> source_file (drop 3 a)) ?k" by code_simp
  then have k2: "\<not> within_dir ''/p'' a \<or> \<not> source_file (drop 3 a)" if "a \<in> set ?k" for a using that unfolding list_all_iff by blast
  have "\<not> source_file p" if "(p, b) \<in> set (below ''/p'' ?t)" for p b
  proof -
    have "p \<in> fst ` set (below ''/p'' ?t)" using that by force
    then have "inside ''/p'' p \<in> set (map fst ?t)" by (simp add: keys_below)
    then have "inside ''/p'' p \<in> set ?k" unfolding k .
    moreover have "drop 3 (inside ''/p'' p) = p" by (simp add: inside_def)
    ultimately show ?thesis using k2 [of "inside ''/p'' p"] within_inside by metis
  qed
  then have "filter (\<lambda>(p, _). source_file p) (sorted_files (below ''/p'' ?t)) = []"
    by (auto simp: filter_empty_conv sorted_files_def)
  then show "source_tree_digest demo_crypto ''/p'' ?t = source_tree_digest demo_crypto ''/p'' []"
    by (simp add: source_tree_digest_def sorted_files_def)
qed

lemma demo_package:
  "\<exists>fs root e. map fst fs = document_paths @ [''changes/docs/b.md'', ''checksums.txt'', ''attestation.json'']
     \<and> verify_package_files demo_crypto dated_pydantic plain_stdlib fs = Inr root \<and> immutable_digest root
     \<and> (\<exists>b. map_of fs ''candidate.json'' = Some b \<and> parse_raw (parse_candidate dated_pydantic) b = Inr demo_candidate)
     \<and> (\<exists>b. map_of fs ''evaluation.json'' = Some b \<and> parse_raw (parse_evaluation dated_pydantic plain_stdlib) b = Inr e)
     \<and> map_of fs ''changes/docs/b.md'' = Some ''x''
     \<and> el_passed e \<and> el_state e = ''awaiting_human_approval'' \<and> el_image e = vp_image demo_rules
     \<and> evolution_policy_digest demo_crypto demo_rules = Inr (el_policy e)"
proof -
  let ?C = demo_crypto and ?P = dated_pydantic and ?L = plain_stdlib
  obtain cb where cb: "canonical_json (candidate_dict demo_candidate) = Inr cb" "candidate_id ?C demo_candidate = Inr (sha256_hex ?C cb)"
    using demo_ident by blast
  let ?ident = "sha256_hex ?C cb"
  obtain pd where pd: "evolution_policy_digest ?C demo_rules = Inr pd" "immutable_digest pd"
    using plain_canonical [OF demo_gates_facts(4)] immutable_sha [OF demo_crypto_ok] by (auto simp: evolution_policy_digest_def)
  define e where "e = \<lparr>el_candidate_id = ?ident, el_image = vp_image demo_rules, el_policy = pd, el_passed = True, el_gates = demo_gates,
    el_risk = ''documentation'', el_state = ''awaiting_human_approval''\<rparr>"
  have e: "valid_evaluation e" using demo_gates_facts(2,3) pd
    by (auto simp: valid_evaluation_def e_def risk_names_def evaluation_states_def list_all_iff)
  have ef: "el_candidate_id e = ?ident" "el_passed e" "el_state e = ''awaiting_human_approval''" "el_image e = vp_image demo_rules" "el_policy e = pd"
    by (simp_all add: e_def)
  have "plain (evaluation_dict e)" using evaluation_plain [of e] demo_gates_facts(2) by (auto simp: e_def list_all_iff)
  then obtain eb where eb: "canonical_json (evaluation_dict e) = Inr eb" using plain_canonical by blast
  have "plain (lineage_dict (lineage_of demo_candidate e))" by (simp add: lineage_dict_def)
  then obtain lb where lb: "canonical_json (lineage_dict (lineage_of demo_candidate e)) = Inr lb" using plain_canonical by blast
  let ?fs = "package_files cb eb lb (cn_mutations demo_candidate)"
  from root_returns [OF demo_crypto_ok] obtain root p where root: "compute_bundle_root ?C (package_entries ?C ?fs) = Inr root"
    "artifact_payload root = Inr p" by blast
  then have imm: "immutable_digest root" and payload: "evolution_proposal_payload root = Inr (evolution_domain @ root)"
    by (auto simp: evolution_proposal_payload_def compute_bundle_root_def immutable_sha [OF demo_crypto_ok])
  have "\<exists>i. identity_of_private ?C [] = Inr i"
    by (simp add: identity_of_private_def did_from_public_key_def demo_crypto_def)
  then obtain i where i: "identity_of_private ?C [] = Inr i" ..
  define x where "x = \<lparr>ea_did = id_did i, ea_root = root, ea_signature = identity_sign ?C i (evolution_domain @ root)\<rparr>"
  have "plain (evolution_attestation_dict x)" by (simp add: evolution_attestation_dict_def)
  then obtain ab where ab: "canonical_json (evolution_attestation_dict x) = Inr ab" using plain_canonical by blast
  have sig: "ea_root x = root" "verify_signature ?C (ea_did x) (evolution_domain @ root) (ea_signature x)"
    using identity_verifies [OF demo_crypto_ok i] by (simp_all add: x_def)
  have ms: "\<forall>m \<in> set (cn_mutations demo_candidate). safe_relative (mu_path m) = Inr (mu_path m) \<and> succeeds (mutation_content m)"
    using demo_content by (simp add: demo_fields)
  have st: "el_state e = (if el_passed e then ''awaiting_human_approval'' else ''rejected'')" using ef by simp
  let ?gs = "sealed_files ?C ?fs ab"
  have v: "verify_package_files ?C ?P ?L ?gs = Inr root"
    using sealed_package_verifies [OF demo_crypto_ok demo_valid demo_date(1) cb(2) e ef(1) st cb(1) eb lb demo_paths(1) ms
        root(1) [folded package_root_bundle] ab sig(1) payload sig(2)] .
  have files: "?fs = [(''candidate.json'', cb @ [CHR 0x0A]), (''evaluation.json'', eb @ [CHR 0x0A]), (''lineage.json'', lb @ [CHR 0x0A]),
      (''changes/docs/b.md'', ''x'')]" using demo_content(1) by (simp add: package_files_def demo_fields change_file_def)
  have keys: "map fst ?gs = document_paths @ [''changes/docs/b.md'', ''checksums.txt'', ''attestation.json'']"
    by (simp add: sealed_files_def files document_paths_def)
  have at: "map_of ?gs ''candidate.json'' = Some (cb @ [CHR 0x0A])" "map_of ?gs ''evaluation.json'' = Some (eb @ [CHR 0x0A])"
    "map_of ?gs ''changes/docs/b.md'' = Some ''x''" by (simp_all add: sealed_files_def files)
  have reads: "parse_raw (parse_candidate ?P) (cb @ [CHR 0x0A]) = Inr demo_candidate"
    "parse_raw (parse_evaluation ?P ?L) (eb @ [CHR 0x0A]) = Inr e"
    using line_parses_back [where f = "parse_candidate ?P", OF documents_wf(1) cb(1) candidate_reads_back [OF demo_valid demo_date(1)]]
      line_parses_back [where f = "parse_evaluation ?P ?L", OF documents_wf(2) eb evaluation_reads_back [OF e]] demo_date(2) by simp_all
  show ?thesis using keys v imm at reads ef(2-5) pd(1) by metis
qed

lemma demo_tree_keys:
  assumes fs: "map fst fs = document_paths @ [''changes/docs/b.md'', ''checksums.txt'', ''attestation.json'']"
  shows "map fst (demo_tree fs ab) = map (inside ''/p/artifacts/x'') (document_paths @ [''changes/docs/b.md'', ''checksums.txt'',
    ''attestation.json'']) @ [''/p/local/ok.json'']"
  unfolding fs [symmetric] demo_tree_def by (simp add: case_prod_unfold comp_def)

definition demo_prepared :: prepared where
  "demo_prepared = \<lparr>pp_mutation = demo_mutation, pp_destination = ''/p/docs/b.md'', pp_promoted = ''x'', pp_previous = None\<rparr>"

lemma demo_applied:
  assumes "ap_approved_at a = utc_at 63900003600000000" "\<not> blocked rb t" "\<not> blocked ''/p/docs/b.md'' t" "below ''/p/docs/b.md'' t = []"
    and rec: "\<not> within_dir (record_path rb) ''/p/docs/b.md''" "\<not> within_dir ''/p/docs/b.md'' (record_path rb)"
    and "record_path rb \<noteq> ''/p/docs/b.md''"
  shows "is_file (record_path rb) (snd (apply_promotion C ident root a rb [demo_prepared] t))"
    "map_of (snd (apply_promotion C ident root a rb [demo_prepared] t)) ''/p/docs/b.md'' = Some ''x''"
proof -
  have "printable (PDateTime (ap_approved_at a))" unfolding assms(1) by (intro datetime_printable) (simp_all add: in_range_def max_wall_def)
  then have "\<exists>b. canonical_json (promotion_record C state ident root a [demo_prepared]) = Inr b" for state
    unfolding promotion_record_def by (intro printable_dict) (simp add: plain_printable plain_list_iff item_plain)
  then obtain b where b: "\<And>state. canonical_json (promotion_record C state ident root a [demo_prepared]) = Inr (b state)" by metis
  let ?u = "\<lambda>s. dict_put (record_path rb) (b s @ [CHR 0x0A])"
  have line: "write_line rb ''promotion.json'' (promotion_record C s ident root a [demo_prepared]) t = (Inr (), ?u s t)" for s t
    by (simp add: write_line_Inr record_name b)
  have "\<not> blocked ''/p/docs/b.md'' (?u s t)" "below ''/p/docs/b.md'' (?u s t) = []" for s
    using assms(3,4) rec by (auto simp: blocked_iff below_empty_iff)
  then have "write_prepared demo_prepared (?u s t) = (Inr (), dict_put ''/p/docs/b.md'' ''x'' (?u s t))" for s
    by (simp add: write_prepared_def demo_prepared_def write_deep_cases)
  moreover have "write_backup rb demo_prepared = retS ()" by (simp add: write_backup_def demo_prepared_def)
  moreover have "make_directory rb t = (Inr (), t)" using assms(2) by (simp add: make_directory_def)
  ultimately have run: "snd (apply_promotion C ident root a rb [demo_prepared] t) = ?u ''applied'' (dict_put ''/p/docs/b.md'' ''x'' (?u ''prepared'' t))"
    using line by (simp add: apply_promotion_def bindS_pair)
  show "is_file (record_path rb) (snd (apply_promotion C ident root a rb [demo_prepared] t))"
    unfolding run by (simp add: is_file_def)
  have "record_path rb \<noteq> ''/p/docs/b.md''" by (rule assms(7))
  then show "map_of (snd (apply_promotion C ident root a rb [demo_prepared] t)) ''/p/docs/b.md'' = Some ''x''"
    unfolding run by simp
qed

lemma demo_preflight:
  "\<exists>t ident root a rollback ab a2.
     preflight demo_engine ''/p/artifacts/x'' ''/p/local/ok.json'' ''/p/local/rb'' t = Inr (ident, root, a, rollback, [demo_prepared])
     \<and> wf_tree t \<and> apart rollback ''/p/local/undo.json'' [demo_prepared]
     \<and> parse_raw (parse_approval dated_pydantic) ab = Inr a2
     \<and> verify_evolution_approval demo_crypto a2 demo_rules ''rollback_candidate'' ident root = Inr ()
     \<and> is_file (record_path rollback) (snd (apply_promotion demo_crypto ident root a rollback [demo_prepared] t))
     \<and> map_of t ''/p/docs/b.md'' = None
     \<and> map_of (snd (apply_promotion demo_crypto ident root a rollback [demo_prepared] t)) ''/p/docs/b.md'' = Some ''x''"
proof -
  let ?C = demo_crypto and ?pkg = "''/p/artifacts/x''"
  obtain cb where id: "candidate_id ?C demo_candidate = Inr (sha256_hex ?C cb)" using demo_ident by blast
  let ?ident = "sha256_hex ?C cb" let ?rb = "inside ''/p/local/rb'' ?ident"
  obtain fs root e c' e' where fs: "map fst fs = document_paths @ [''changes/docs/b.md'', ''checksums.txt'', ''attestation.json'']"
    and v: "verify_package_files ?C dated_pydantic plain_stdlib fs = Inr root" "immutable_digest root"
    and c: "map_of fs ''candidate.json'' = Some c'" "parse_raw (parse_candidate dated_pydantic) c' = Inr demo_candidate"
    and e: "map_of fs ''evaluation.json'' = Some e'" "parse_raw (parse_evaluation dated_pydantic plain_stdlib) e' = Inr e"
    and x: "map_of fs ''changes/docs/b.md'' = Some ''x''"
    and ef: "el_passed e" "el_state e = ''awaiting_human_approval''" "el_image e = vp_image demo_rules"
      "evolution_policy_digest ?C demo_rules = Inr (el_policy e)"
    using demo_package by blast
  have acts: "''promote_candidate'' \<in> {''promote_candidate'', ''rollback_candidate''}" "''rollback_candidate'' \<in> {''promote_candidate'', ''rollback_candidate''}"
    by simp_all
  obtain ok a where ok: "parse_raw (parse_approval dated_pydantic) ok = Inr a"
    "verify_evolution_approval ?C a demo_rules ''promote_candidate'' ?ident root = Inr ()"
    "ap_approved_at a = utc_at 63900003600000000" "ap_approved_by a = ''al''"
    using demo_approval [OF acts(1) v(2), of ?ident] by blast
  obtain ab a2 where ab: "parse_raw (parse_approval dated_pydantic) ab = Inr a2"
    "verify_evolution_approval ?C a2 demo_rules ''rollback_candidate'' ?ident root = Inr ()"
    using demo_approval [OF acts(2) v(2), of ?ident] by blast
  let ?t = "demo_tree fs ok"
  note tree = demo_tree_facts [OF fs, of ok]
  have out: "\<not> starts_with ''/p/local/rb/'' q" if "q \<in> set (map fst ?t)" for q
  proof -
    have "list_all (\<lambda>a. \<not> starts_with ''/p/local/rb/'' a) (map (inside ?pkg) (document_paths @ [''changes/docs/b.md'', ''checksums.txt'',
      ''attestation.json'']) @ [''/p/local/ok.json''])" by code_simp
    then show ?thesis using that unfolding demo_tree_keys [OF fs] list_all_iff by blast
  qed
  have none: "map_of ?t q = None" if "within_dir ?rb q \<or> q = ?rb" for q
  proof -
    have "starts_with ''/p/local/rb/'' q" using that by (auto simp: within_dir_def inside_def starts_with_iff)
    then have "q \<notin> set (map fst ?t)" using out by blast
    then show ?thesis by (simp add: map_of_eq_None_iff)
  qed
  have gone: "\<not> path_exists ?rb ?t" using none by (simp add: path_exists_def is_file_def below_empty_iff)
  have up: "\<not> blocked ?rb ?t"
  proof
    assume "blocked ?rb ?t"
    then obtain q where "within_dir q ?rb" "q \<in> set (map fst ?t)" by (auto simp: blocked_iff map_of_eq_None_iff)
    then show False unfolding demo_tree_keys [OF fs] by (auto simp: within_dir_def inside_def starts_with_iff document_paths_def)
  qed
  have rb: "under ''/p'' ?rb = Inr ?rb" "apart ?rb ''/p/local/undo.json'' [demo_prepared]"
    using hex_plain(1) [OF demo_crypto_ok, of cb]
    by (auto simp: under_def inside_def within_dir_def starts_with_iff apart_def not_nested_def demo_prepared_def Let_def)
  have target: "under ''/p'' (inside ''/p'' ''docs/b.md'') = Inr ''/p/docs/b.md''" by code_simp
  have current: "check_current demo_engine demo_candidate e ?t = Inr ()"
    using ef demo_digests(1,2) tree(5) demo_validated by (simp add: check_current_def Let_def demo_fields)
  have prep: "prepare_mutation demo_engine ?pkg demo_mutation ?t = Inr demo_prepared"
    using demo_content(2) target x tree(3) [of "''changes/docs/b.md''"] tree(7,8)
    by (simp add: prepare_mutation_def demo_fields read_bytes_def check_target_def path_exists_def is_file_def demo_prepared_def)
  have "preflight demo_engine ?pkg ''/p/local/ok.json'' ''/p/local/rb'' ?t = Inr (?ident, root, a, ?rb, [demo_prepared])"
    using v(1) ok c e id current gone rb(1) prep tree(1-3)
    by (simp add: preflight_def Let_def demo_fields verify_evolution_package_def read_bytes_def)
  moreover have "record_path ?rb \<noteq> ''/p/docs/b.md''" "\<not> within_dir (record_path ?rb) ''/p/docs/b.md''"
    "\<not> within_dir ''/p/docs/b.md'' (record_path ?rb)" by (auto simp: record_path_def inside_def within_dir_def starts_with_iff)
  note demo_applied [OF ok(3) up tree(6,7) this(2,3,1)]
  ultimately show ?thesis using tree(4,8) rb(2) ab by blast
qed

lemma promotion_reversible_witness:
  "\<exists>t ident root a rollback u ab. preflight demo_engine ''/p/artifacts/x'' ''/p/local/ok.json'' ''/p/local/rb'' t = Inr (ident, root, a, rollback, [demo_prepared])
     \<and> u = snd (apply_promotion demo_crypto ident root a rollback [demo_prepared] t) \<and> is_file (record_path rollback) u
     \<and> (\<exists>v. roll_back demo_engine (record_path rollback) ''/p/local/undo.json'' (demo_env, dict_put ''/p/local/undo.json'' ab u) = (Inr (), (demo_env, v))
       \<and> (\<forall>p. \<not> within_dir rollback p \<and> p \<noteq> ''/p/local/undo.json'' \<longrightarrow> map_of v p = map_of t p))"
proof -
  from demo_preflight obtain t ident root a rollback ab a2
    where pre: "preflight demo_engine ''/p/artifacts/x'' ''/p/local/ok.json'' ''/p/local/rb'' t = Inr (ident, root, a, rollback, [demo_prepared])"
    and t: "wf_tree t" "apart rollback ''/p/local/undo.json'' [demo_prepared]"
    and ab: "parse_raw (parse_approval dated_pydantic) ab = Inr a2"
      "verify_evolution_approval demo_crypto a2 demo_rules ''rollback_candidate'' ident root = Inr ()"
    and rec: "is_file (record_path rollback) (snd (apply_promotion demo_crypto ident root a rollback [demo_prepared] t))" by blast
  have gate: "\<not> b_kill demo_env" "\<not> component_quarantined ''evolution'' (b_store demo_env)"
    by (simp_all add: demo_env_def component_quarantined_def empty_store_def)
  from promotion_reversible [where E = demo_engine, unfolded demo_fields(3-5), OF pre disjI1 [OF refl] rec t ab gate] pre rec
  show ?thesis by blast
qed

lemma promotion_authorised_witness:
  "\<exists>t r t' ident c. promote demo_engine ''/p/artifacts/x'' ''/p/local/ok.json'' ''/p/local/rb'' (demo_env, t) = (r, (demo_env, t'))
     \<and> map_of t ''/p/docs/b.md'' = None \<and> map_of t' ''/p/docs/b.md'' = Some ''x''
     \<and> authorised_promotion demo_engine ''/p/artifacts/x'' ''/p/local/ok.json'' t ident c"
proof -
  from demo_preflight obtain t ident root a rollback
    where pre: "preflight demo_engine ''/p/artifacts/x'' ''/p/local/ok.json'' ''/p/local/rb'' t = Inr (ident, root, a, rollback, [demo_prepared])"
    and q: "map_of t ''/p/docs/b.md'' = None"
      "map_of (snd (apply_promotion demo_crypto ident root a rollback [demo_prepared] t)) ''/p/docs/b.md'' = Some ''x''" by blast
  obtain r t' where run: "apply_promotion demo_crypto ident root a rollback [demo_prepared] t = (r, t')" by (cases "apply_promotion demo_crypto ident root a rollback [demo_prepared] t")
  have gate: "on_fst (gate_require ''evolution'') (demo_env, t) = (Inr (), (demo_env, t))"
    by (simp add: on_fst_def gate_require_open demo_env_def component_quarantined_def empty_store_def)
  have p: "promote demo_engine ''/p/artifacts/x'' ''/p/local/ok.json'' ''/p/local/rb'' (demo_env, t) = (r, (demo_env, t'))"
    using pre run by (simp add: promote_def bindS_pair(1) [where m = "on_fst (gate_require ''evolution'')", OF gate] on_snd_def demo_fields)
  have x: "map_of t' ''/p/docs/b.md'' = Some ''x''" using q(2) run by simp
  then have "map_of t' ''/p/docs/b.md'' \<noteq> map_of t ''/p/docs/b.md''" using q(1) by simp
  with promotion_authorised [OF p, of "''/p/docs/b.md''"]
  have "\<exists>ident c. authorised_promotion demo_engine ''/p/artifacts/x'' ''/p/local/ok.json'' t ident c" by blast
  with p q(1) x show ?thesis by blast
qed

end
