(* ===== verification/Probe.thy ===== *)
theory Probe
  imports Pilot_Safety Evolution_Pipeline
begin

text \<open>
  \<open>rosetta/public_pilot_probe.py\<close>: a synthetic peer that plays one request through the
  public service.  \<open>prepare\<close> signs the request and returns a preview, an operator
  approves its digest, \<open>activate\<close> sends the one signed record and \<open>verify\<close>
  reads the answers back and checks the published report.  One network serves the web
  client (whole URLs) and the Technocore client (paths of the fixed origin).
\<close>

section \<open>The probe\<close>

text \<open>\<open>qp_text\<close> is \<open>Response.text\<close> of \<open>httpx\<close>, which decodes with the charset of the header.\<close>

record 'n public_probe =
  qp_crypto :: crypto
  qp_pydantic :: pydantic
  qp_stdlib :: stdlib
  qp_network :: "'n network"
  qp_text :: "http_response \<Rightarrow> string"

text \<open>The network, the files, and the nonce table in the directory of the peer.\<close>

record 'n probe_world =
  qw_net :: 'n
  qw_files :: tree
  qw_nonces :: nonce_store

definition on_web :: "('n, 'a) op \<Rightarrow> ('n probe_world, 'a) op" where
  "on_web m p = (case m (qw_net p) of (r, n) \<Rightarrow> (r, p\<lparr>qw_net := n\<rparr>))"

definition on_disk :: "(tree, 'a) op \<Rightarrow> ('n probe_world, 'a) op" where
  "on_disk m p = (case m (qw_files p) of (r, t) \<Rightarrow> (r, p\<lparr>qw_files := t\<rparr>))"

definition on_nonces :: "(nonce_store, 'a) op \<Rightarrow> ('n probe_world, 'a) op" where
  "on_nonces m p = (case m (qw_nonces p) of (r, s) \<Rightarrow> (r, p\<lparr>qw_nonces := s\<rparr>))"

definition technocore_origin :: string where
  "technocore_origin = ''https://technocore.chat''"

definition synthetic_peer_id :: string where
  "synthetic_peer_id = ''synthetic-public-pilot-peer-v1''"

text \<open>A new \<open>TechnocoreHttpClient\<close> for one use.\<close>

definition with_client :: "(technocore_client \<Rightarrow> ('n client_state, 'a) op) \<Rightarrow> ('n probe_world, 'a) op" where
  "with_client f = bindS (liftS (make_client technocore_origin technocore_origin ''v0.14.5'' 1048576)) (\<lambda>c p.
     case f c \<lparr>cs_net = qw_net p, cs_generations = [], cs_last = []\<rparr> of (r, s) \<Rightarrow> (r, p\<lparr>qw_net := cs_net s\<rparr>))"

section \<open>The public card\<close>

definition probe_json :: "'n public_probe \<Rightarrow> string \<Rightarrow> ('n probe_world, (string \<times> pyval) list) op" where
  "probe_json Q target =
     bindS (on_web (fetch_whole (qp_network Q) (get_request target))) (\<lambda>r.
     raiseS_if (is_redirect r \<or> hr_status r \<noteq> 200) (RuntimeError ''public_probe_unexpected_status'')
     (raiseS_if (1048576 < length (whole_body r)) (RuntimeError ''public_probe_response_too_large'')
     (case loads_bytes (whole_body r) of Inl _ \<Rightarrow> raiseS (RuntimeError ''public_probe_invalid_json'')
      | Inr (PDict kvs) \<Rightarrow> retS kvs
      | Inr _ \<Rightarrow> raiseS (RuntimeError ''public_probe_invalid_json_shape''))))"

definition card_origin :: "string \<Rightarrow> string result" where
  "card_origin target = bindE (urlparse target) (\<lambda>u.
     raise_if (u_scheme u \<noteq> ''https'' \<or> u_netloc u = [] \<or> u_path u \<noteq> ''/service-card.json'' \<or> \<not> no_tail u \<or> \<not> no_credentials u)
       (ValueError ''probe requires an exact HTTPS service-card URL'') (Inr (u_scheme u @ ''://'' @ u_netloc u)))"

definition check_public_card ::
  "'n public_probe \<Rightarrow> string \<Rightarrow> (string \<times> pyval) list \<Rightarrow> (string \<times> pyval) list \<Rightarrow> datetime \<Rightarrow> service_card result" where
  "check_public_card Q origin card_raw attestation now =
     bindE (parse_service_card (qp_pydantic Q) (qp_stdlib Q) (PDict card_raw)) (\<lambda>crd.
     bindE (verify_service_card (qp_crypto Q) (sl_str (qp_stdlib Q)) crd attestation now) (\<lambda>ok.
     raise_if (\<not> ok) (RuntimeError ''public_probe_invalid_service_card'')
     (raise_if (card_status crd \<noteq> ''available'' \<or> card_protocol_baseline crd \<noteq> ''v0.14.5'') (RuntimeError ''public_probe_service_unavailable'')
     (raise_if (card_schema_url crd \<noteq> origin @ ''/schemas/rosetta-request-v1.json'') (RuntimeError ''public_probe_request_schema_origin_mismatch'')
     (raise_if (rstrip_char CHR ''/'' (card_report_base_url crd) \<noteq> origin @ ''/reports'') (RuntimeError ''public_probe_report_origin_mismatch'')
     (Inr crd))))))"

definition load_public_card ::
  "'n public_probe \<Rightarrow> string \<Rightarrow> datetime \<Rightarrow> ('n probe_world, service_card \<times> (string \<times> pyval) list \<times> string) op" where
  "load_public_card Q target now =
     bindS (liftS (card_origin target)) (\<lambda>origin.
     bindS (probe_json Q target) (\<lambda>card_raw.
     bindS (probe_json Q (origin @ ''/service-card.attestation.json'')) (\<lambda>attestation.
     bindS (liftS (check_public_card Q origin card_raw attestation now)) (\<lambda>crd. retS (crd, attestation, origin)))))"

section \<open>The preview\<close>

definition probe_reply_room :: "crypto \<Rightarrow> string \<Rightarrow> string" where
  "probe_reply_room C did = ''mb-rosetta-probe-'' @ did_fingerprint C did"

definition probe_request_id :: "crypto \<Rightarrow> string \<Rightarrow> string \<Rightarrow> datetime \<Rightarrow> string" where
  "probe_request_id C did sha expires_at = take 32 (sha256_hex C (utf8
     (''rosetta.public-pilot-probe.v1|'' @ did @ ''|'' @ sha @ ''|'' @ iso_text expires_at)))"

definition probe_request :: "'n public_probe \<Rightarrow> string \<Rightarrow> string \<Rightarrow> datetime \<Rightarrow> service_request result" where
  "probe_request Q did sha expires_at = parse_service_request (qp_pydantic Q) (PDict
     [(''schema'', PStr ''rosetta.request.v1''), (''request_id'', PStr (probe_request_id (qp_crypto Q) did sha expires_at)),
      (''scenario'', PStr ''signed-mailbox-roundtrip-v1''), (''producer'', PStr ''python-http''), (''consumer'', PStr ''official-mcp''),
      (''target_profile'', PStr ''current''), (''reply_room'', PStr (probe_reply_room (qp_crypto Q) did)),
      (''expires_at'', PDateTime expires_at)])"

definition expected_outputs :: pyval where
  "expected_outputs = PDict [(''signed_acknowledgements'', PInt 1), (''signed_results'', PInt 1), (''content_addressed_reports'', PInt 1)]"

definition probe_preview :: "string \<Rightarrow> pyval \<Rightarrow> service_card \<Rightarrow> string \<Rightarrow> string \<Rightarrow> service_request \<Rightarrow> string \<Rightarrow> string \<Rightarrow> int \<Rightarrow> pyval" where
  "probe_preview target sha crd did reply_room request msg sig nonce = PDict
     [(''schema'', PStr ''rosetta.public-pilot-probe-preview.v1''), (''technocore_origin'', PStr technocore_origin),
      (''service_card_url'', PStr target), (''service_card_sha256'', sha), (''service_did'', PStr (card_did crd)),
      (''request_mailbox'', PStr (card_request_mailbox crd)), (''peer_did'', PStr did), (''reply_room'', PStr reply_room),
      (''request'', service_request_dict request),
      (''write'', PDict [(''method'', PStr ''POST''), (''path'', PStr (room_write_path (card_request_mailbox crd))),
         (''body'', PDict [(''did'', PStr did), (''sig'', PStr sig), (''nonce'', PStr (str_int nonce)), (''text'', PStr msg)])]),
      (''expected_automatic_outputs'', expected_outputs)]"

definition probe_prepare :: "'n public_probe \<Rightarrow> string \<Rightarrow> datetime \<Rightarrow> ('n probe_world, pyval \<times> string) op" where
  "probe_prepare Q target now = (let C = qp_crypto Q in
     bindS (liftS (to_utc now)) (\<lambda>current.
     bindS (load_public_card Q target current) (\<lambda>(crd, attestation, _).
     bindS (liftS (synthetic_identity C synthetic_peer_id)) (\<lambda>peer.
     bindS (liftS (shift current 1800000000)) (\<lambda>expires_at.
     bindS (liftS (get_key attestation ''service_card_sha256'')) (\<lambda>sha.
     bindS (liftS (probe_request Q (id_did peer) (text_of (sl_str (qp_stdlib Q)) (Some sha)) expires_at)) (\<lambda>request.
     bindS (liftS (canonical_text (service_request_dict request))) (\<lambda>msg.
     bindS (on_nonces (handle C peer (message_request ''public-pilot-probe'' (card_request_mailbox crd) msg))) (\<lambda>signed.
     case sp_nonce signed of None \<Rightarrow> raiseS (RuntimeError ''public probe signer omitted nonce'')
     | Some nonce \<Rightarrow>
       let preview = probe_preview target sha crd (id_did peer) (probe_reply_room C (id_did peer)) request msg (sp_signature signed) nonce in
       bindS (liftS (digest_of C preview)) (\<lambda>digest. retS (preview, digest)))))))))))"

section \<open>The approved preview\<close>

definition probe_fields :: "string list" where
  "probe_fields = [''schema'', ''technocore_origin'', ''service_card_url'', ''service_card_sha256'', ''service_did'', ''request_mailbox'',
     ''peer_did'', ''reply_room'', ''request'', ''write'', ''expected_automatic_outputs'']"

definition in_scope :: "'n public_probe \<Rightarrow> identity \<Rightarrow> (string \<times> pyval) list \<Rightarrow> service_request \<Rightarrow> bool" where
  "in_scope Q peer preview request = (let f = map_of preview; room = probe_reply_room (qp_crypto Q) (id_did peer) in
     is_text (f ''service_card_url'') \<and> is_text (f ''service_did'') \<and> is_text (f ''request_mailbox'')
     \<and> f ''peer_did'' = Some (PStr (id_did peer)) \<and> f ''reply_room'' = Some (PStr room) \<and> rq_reply_room request = room
     \<and> rq_scenario request = ''signed-mailbox-roundtrip-v1'' \<and> rq_producer request = ''python-http''
     \<and> rq_consumer request = ''official-mcp'' \<and> rq_target_profile request = ''current''
     \<and> field_is (qp_stdlib Q) preview ''expected_automatic_outputs'' expected_outputs
     \<and> (case f ''service_card_sha256'' of Some (PStr d) \<Rightarrow> immutable_digest d | _ \<Rightarrow> False))"

definition signed_bytes_ok :: "'n public_probe \<Rightarrow> string \<Rightarrow> string \<Rightarrow> service_request \<Rightarrow> (string \<times> pyval) list \<Rightarrow> (string \<times> pyval) list \<Rightarrow> bool result" where
  "signed_bytes_ok Q did room request write body =
     (if map_of write ''method'' \<noteq> Some (PStr ''POST'') \<or> map_of write ''path'' \<noteq> Some (PStr (room_write_path room))
         \<or> map_of body ''did'' \<noteq> Some (PStr did) then Inr False
      else bindE (canonical_text (service_request_dict request)) (\<lambda>msg.
        if map_of body ''text'' \<noteq> Some (PStr msg) then Inr False
        else (case map_of body ''nonce'' of
            Some (PStr n) \<Rightarrow> if \<not> str_isdigit n then Inr False
              else bindE (int_of_text n) (\<lambda>nonce. bindE (signed_room_payload room nonce msg) (\<lambda>payload.
                Inr (verify_signature (qp_crypto Q) did payload (text_of (sl_str (qp_stdlib Q)) (map_of body ''sig'')))))
          | _ \<Rightarrow> Inr False)))"

definition text_value :: "pyval option \<Rightarrow> string" where
  "text_value v = (case v of Some (PStr s) \<Rightarrow> s | _ \<Rightarrow> [])"

definition probe_write :: "(string \<times> pyval) list \<Rightarrow> ((string \<times> pyval) list \<times> (string \<times> pyval) list) result" where
  "probe_write preview = (case map_of preview ''write'' of
     Some (PDict write) \<Rightarrow> raise_if (\<not> exact_keys [''method'', ''path'', ''body''] write) (ValueError ''invalid public pilot probe write'')
       (case map_of write ''body'' of
          Some (PDict body) \<Rightarrow> raise_if (\<not> exact_keys [''did'', ''sig'', ''nonce'', ''text''] body) (ValueError ''invalid public pilot probe body'')
            (Inr (write, body))
        | _ \<Rightarrow> Inl (ValueError ''invalid public pilot probe body''))
   | _ \<Rightarrow> Inl (ValueError ''invalid public pilot probe write''))"

definition check_preview :: "'n public_probe \<Rightarrow> (string \<times> pyval) list \<Rightarrow> (service_request \<times> (string \<times> pyval) list) result" where
  "check_preview Q preview = (let f = map_of preview in
     raise_if (\<not> exact_keys probe_fields preview \<or> f ''technocore_origin'' \<noteq> Some (PStr technocore_origin))
       (ValueError ''public pilot probe preview fields changed'')
     (bindE (bindE (get_key preview ''request'') (parse_service_request (qp_pydantic Q))) (\<lambda>request.
      bindE (synthetic_identity (qp_crypto Q) synthetic_peer_id) (\<lambda>peer.
      raise_if (\<not> in_scope Q peer preview request) (ValueError ''public pilot probe scope changed'')
      (bindE (probe_write preview) (\<lambda>(write, body).
       bindE (signed_bytes_ok Q (id_did peer) (text_value (f ''request_mailbox'')) request write body) (\<lambda>ok.
       raise_if (\<not> ok) (ValueError ''public pilot probe signed bytes changed'') (Inr (request, body)))))))))"

definition validated_preview ::
  "'n public_probe \<Rightarrow> string \<Rightarrow> string \<Rightarrow> tree \<Rightarrow> ((string \<times> pyval) list \<times> service_request \<times> (string \<times> pyval) list) result" where
  "validated_preview Q path approved t =
     bindE (read_bytes path t) (\<lambda>raw. bindE (loads_bytes raw) (\<lambda>v. case v of
       PDict preview \<Rightarrow>
         raise_if (map_of preview ''schema'' \<noteq> Some (PStr ''rosetta.public-pilot-probe-preview.v1'')) (ValueError ''invalid public pilot probe preview'')
         (raise_if (\<not> immutable_digest approved) (RuntimeError ''public pilot probe approval digest mismatch'')
         (bindE (digest_of (qp_crypto Q) v) (\<lambda>digest.
          raise_if (digest \<noteq> approved) (RuntimeError ''public pilot probe approval digest mismatch'')
          (bindE (check_preview Q preview) (\<lambda>(request, body). Inr (preview, request, body))))))
     | _ \<Rightarrow> Inl (ValueError ''invalid public pilot probe preview'')))"

section \<open>Activation\<close>

text \<open>The card must still be the one of the preview; then the record is sent.\<close>

definition post_approved ::
  "'n public_probe \<Rightarrow> (string \<times> pyval) list \<Rightarrow> service_request \<Rightarrow> (string \<times> pyval) list \<Rightarrow> service_card \<times> (string \<times> pyval) list \<times> string \<Rightarrow>
    ('n probe_world, pyval) op" where
  "post_approved Q preview request body = (\<lambda>(crd, attestation, _).
     raiseS_if (map_of preview ''service_did'' \<noteq> Some (PStr (card_did crd))
         \<or> map_of preview ''request_mailbox'' \<noteq> Some (PStr (card_request_mailbox crd))
         \<or> map_of attestation ''service_card_sha256'' \<noteq> map_of preview ''service_card_sha256'')
       (RuntimeError ''public pilot probe service metadata changed'')
     (bindS (with_client (\<lambda>c. bindS (client_capabilities (qp_crypto Q) (qp_stdlib Q) (qp_network Q) c) (\<lambda>_.
        bindS (liftS (int_of_text (text_value (map_of body ''nonce'')))) (\<lambda>nonce.
        client_post_signed (qp_crypto Q) (qp_stdlib Q) (qp_network Q) c ''public-pilot-probe'' (card_request_mailbox crd)
          (text_value (map_of body ''did'')) nonce (text_value (map_of body ''text''))
          (text_of (sl_str (qp_stdlib Q)) (map_of body ''sig'')))))) (\<lambda>r.
      retS (PDict [(''schema'', PStr ''rosetta.public-pilot-probe-activation.v1''), (''request_id'', PStr (rq_request_id request)),
        (''peer_did'', get_field ''peer_did'' preview), (''reply_room'', PStr (rq_reply_room request)),
        (''request_sequence'', PInt (p_sequence r))]))))"

definition probe_activate :: "'n public_probe \<Rightarrow> string \<Rightarrow> string \<Rightarrow> datetime \<Rightarrow> ('n probe_world, pyval) op" where
  "probe_activate Q path approved now =
     bindS (liftS (to_utc now)) (\<lambda>current.
     bindS (getS (\<lambda>p. validated_preview Q path approved (qw_files p))) (\<lambda>v. bindS (liftS v) (\<lambda>(preview, request, body).
     bindS (liftS (validate_expiry (rq_expires_at request) current 24)) (\<lambda>_.
     bindS (load_public_card Q (text_value (map_of preview ''service_card_url'')) current) (post_approved Q preview request body)))))"

section \<open>Verification\<close>

definition report_char :: "char \<Rightarrow> bool" where
  "report_char c = (is_ascii_digit c \<or> (97 \<le> code c \<and> code c \<le> 122) \<or> c \<in> {CHR ''.'', CHR ''_'', CHR ''-''})"

definition report_file :: "string \<Rightarrow> string list \<Rightarrow> string \<Rightarrow> bool" where
  "report_file directory suffixes p = (starts_with directory p \<and> (let n = drop (length directory) p in
     list_ex (\<lambda>s. ends_with s n \<and> length s < length n \<and> list_all report_char (take (length n - length s) n)) suffixes))"

definition report_path :: "string \<Rightarrow> bool" where
  "report_path p = (p \<in> {''run.json'', ''matrix.json'', ''summary.md''} \<or> report_file ''evidence/'' [''.json''] p
     \<or> report_file ''reproduce/'' [''.json'', ''.txt''] p)"

text \<open>\<open>line.count("  ")\<close>\<close>

fun count_gaps :: "string \<Rightarrow> nat" where
  "count_gaps (a # b # s) = (if a = CHR '' '' \<and> b = CHR '' '' then Suc (count_gaps s) else count_gaps (b # s))"
| "count_gaps _ = 0"

definition manifest_path :: "string \<Rightarrow> string result" where
  "manifest_path line = (let bad = RuntimeError ''public_probe_invalid_checksum_manifest'' in
     raise_if (count_gaps line \<noteq> 1) bad
     (case split_gap line of None \<Rightarrow> Inl bad
      | Some (digest, p) \<Rightarrow> raise_if (\<not> lower_hex 64 digest \<or> \<not> report_path p) bad (Inr p)))"

definition fetch_report_file :: "'n public_probe \<Rightarrow> string \<Rightarrow> string \<Rightarrow> ('n probe_world, string \<times> bytes) op" where
  "fetch_report_file Q prefix p = bindS (on_web (fetch_whole (qp_network Q) (get_request (prefix @ p)))) (\<lambda>r.
     raiseS_if (hr_status r \<noteq> 200 \<or> 1048576 < length (whole_body r)) (RuntimeError ''public_probe_report_file_unavailable'')
     (retS (p, whole_body r)))"

text \<open>The temporary directory of the report is the list of its files.\<close>

definition verify_report :: "'n public_probe \<Rightarrow> service_result \<Rightarrow> string \<Rightarrow> ('n probe_world, string) op" where
  "verify_report Q res origin =
     (let prefix = origin @ ''/reports/'' @ remove_prefix ''sha256:'' (re_bundle_root res) @ ''/'' in
     raiseS_if (re_report_url res \<noteq> prefix) (RuntimeError ''public_probe_result_url_mismatch'')
     (bindS (on_web (fetch_whole (qp_network Q) (get_request (prefix @ ''checksums.txt'')))) (\<lambda>r.
      raiseS_if (hr_status r \<noteq> 200 \<or> 64000 < length (whole_body r)) (RuntimeError ''public_probe_checksums_unavailable'')
      (bindS (liftS (mapE manifest_path (split_lines (qp_text Q r)))) (\<lambda>paths.
       raiseS_if (paths = [] \<or> \<not> distinct paths) (RuntimeError ''public_probe_invalid_checksum_manifest'')
       (bindS (mapS (fetch_report_file Q prefix) (paths @ [''attestation.json''])) (\<lambda>files.
        liftS (verify_files (qp_crypto Q) (qp_pydantic Q) ((''checksums.txt'', whole_body r) # files)))))))))"

text \<open>The last acknowledgement and the last result of the request that the service signed.\<close>

definition read_answer ::
  "'n public_probe \<Rightarrow> string \<Rightarrow> string \<Rightarrow> protocol_record \<Rightarrow> (int \<times> acknowledgement) option \<times> (int \<times> service_result) option \<Rightarrow>
    ((int \<times> acknowledgement) option \<times> (int \<times> service_result) option) result" where
  "read_answer Q did ident r = (\<lambda>(ack, res).
     if p_did r \<noteq> did \<or> \<not> record_signed (qp_crypto Q) r then Inr (ack, res)
     else (case loads (p_text r) of
         Inr (PDict kvs) \<Rightarrow>
           if map_of kvs ''request_id'' \<noteq> Some (PStr ident) then Inr (ack, res)
           else if map_of kvs ''schema'' = Some (PStr ''rosetta.ack.v1'') then
             bindE (parse_acknowledgement (qp_pydantic Q) (PDict kvs)) (\<lambda>a. Inr (Some (p_sequence r, a), res))
           else if map_of kvs ''schema'' = Some (PStr ''rosetta.result.v1'') then
             bindE (parse_service_result (qp_pydantic Q) (PDict kvs)) (\<lambda>x. Inr (ack, Some (p_sequence r, x)))
           else Inr (ack, res)
       | _ \<Rightarrow> Inr (ack, res)))"

fun read_answers ::
  "'n public_probe \<Rightarrow> string \<Rightarrow> string \<Rightarrow> protocol_record list \<Rightarrow> (int \<times> acknowledgement) option \<times> (int \<times> service_result) option \<Rightarrow>
    ((int \<times> acknowledgement) option \<times> (int \<times> service_result) option) result" where
  "read_answers Q did ident [] acc = Inr acc"
| "read_answers Q did ident (r # rs) acc = bindE (read_answer Q did ident r acc) (read_answers Q did ident rs)"

definition probe_verdict :: "(string \<times> pyval) list \<Rightarrow> service_request \<Rightarrow> service_card \<Rightarrow> int \<Rightarrow> int \<Rightarrow> string \<Rightarrow> service_result \<Rightarrow> datetime \<Rightarrow> pyval" where
  "probe_verdict preview request crd ack_sequence result_sequence root res now = PDict
     [(''schema'', PStr ''rosetta.public-pilot-probe-verification.v1''), (''request_id'', PStr (rq_request_id request)),
      (''peer_did'', get_field ''peer_did'' preview), (''service_did'', PStr (card_did crd)),
      (''acknowledgement_sequence'', PInt ack_sequence), (''result_sequence'', PInt result_sequence), (''bundle_root'', PStr root),
      (''outcome'', PStr (outcome_text (re_outcome res))), (''verified_at'', PDateTime now)]"

definition probe_verify :: "'n public_probe \<Rightarrow> string \<Rightarrow> string \<Rightarrow> datetime \<Rightarrow> ('n probe_world, pyval option) op" where
  "probe_verify Q path approved now =
     bindS (liftS (to_utc now)) (\<lambda>current.
     bindS (getS (\<lambda>p. validated_preview Q path approved (qw_files p))) (\<lambda>v. bindS (liftS v) (\<lambda>(preview, request, _).
     bindS (load_public_card Q (text_value (map_of preview ''service_card_url'')) current) (\<lambda>(crd, attestation, origin).
     raiseS_if (map_of preview ''service_did'' \<noteq> Some (PStr (card_did crd))
         \<or> map_of attestation ''service_card_sha256'' \<noteq> map_of preview ''service_card_sha256'')
       (RuntimeError ''public pilot probe service metadata changed'')
     (bindS (with_client (\<lambda>c. bindS (client_capabilities (qp_crypto Q) (qp_stdlib Q) (qp_network Q) c) (\<lambda>_.
        client_read_room (qp_crypto Q) (qp_stdlib Q) (qp_network Q) c (rq_reply_room request) 0 200))) (\<lambda>rs.
      bindS (liftS (read_answers Q (card_did crd) (rq_request_id request) rs (None, None))) (\<lambda>answers. case answers of
        (Some (ack_sequence, ack), Some (result_sequence, res)) \<Rightarrow>
          raiseS_if (ak_status ack \<noteq> ''accepted'' \<or> ak_job_id ack = None \<or> ak_job_id ack \<noteq> Some (re_job_id res)
              \<or> outcome_text (re_outcome res) \<noteq> ''pass'')
            (RuntimeError ''public_probe_unsuccessful_service_result'')
          (bindS (verify_report Q res origin) (\<lambda>root.
           retS (Some (probe_verdict preview request crd ack_sequence result_sequence root res current))))
      | _ \<Rightarrow> retS None)))))))"

section \<open>The commands\<close>

text \<open>\<open>_write_json\<close>: the directories are made before the value is printed.\<close>

definition write_json :: "string \<Rightarrow> pyval \<Rightarrow> (tree, unit) op" where
  "write_json path v = bindS (getS (blocked path)) (\<lambda>stopped. raiseS_if stopped (OSError ''FileExistsError'')
     (bindS (liftS (canonical_json v)) (\<lambda>b. write_deep path (b @ [CHR 0x0A]))))"

definition probe_prepare_command :: "'n public_probe \<Rightarrow> string \<Rightarrow> string \<Rightarrow> datetime \<Rightarrow> ('n probe_world, pyval) op" where
  "probe_prepare_command Q target path now = bindS (probe_prepare Q target now) (\<lambda>(preview, digest).
     bindS (on_disk (write_json path preview)) (\<lambda>_. retS (PDict [(''preview'', PStr path), (''digest'', PStr digest)])))"

definition probe_verify_command :: "'n public_probe \<Rightarrow> string \<Rightarrow> string \<Rightarrow> string \<Rightarrow> datetime \<Rightarrow> ('n probe_world, pyval) op" where
  "probe_verify_command Q path approved output now = bindS (probe_verify Q path approved now) (\<lambda>v. case v of
     None \<Rightarrow> retS (PDict [(''status'', PStr ''pending'')])
   | Some x \<Rightarrow> bindS (on_disk (write_json output x)) (\<lambda>_. retS x))"

end
