(* ===== verification/Probe_Safety.thy ===== *)
theory Probe_Safety
  imports Probe Printing
begin

text \<open>
  What the probe sends and what it concludes: before the approved record only reads leave it,
  the record that it sends is the one of the approved preview, and its verdict rests on
  records that the service signed and on a report that verifies.
\<close>

section \<open>What the probe sends\<close>

definition web_gets :: "http_request list \<Rightarrow> tree \<Rightarrow> nonce_store \<Rightarrow> ('n \<times> http_request list) probe_world \<Rightarrow> bool" where
  "web_gets log t s p = (qw_files p = t \<and> qw_nonces p = s
     \<and> (\<exists>sent. snd (qw_net p) = log @ sent \<and> list_all (\<lambda>q. hq_method q = ''GET'') sent))"

lemma gets_web:
  fixes N :: "'n network"
  assumes "qp_network Q = logged N"
  shows "preserves (web_gets log t s) (on_web (fetch_whole (qp_network Q) (get_request target)))"
proof (rule preservesI)
  fix p :: "('n \<times> http_request list) probe_world" assume p: "web_gets log t s p"
  obtain r n where r: "fetch_whole (logged N) (get_request target) (qw_net p) = (r, n)" by (cases "fetch_whole (logged N) (get_request target) (qw_net p)")
  from fetch_whole_log [OF r] p show "web_gets log t s (snd (on_web (fetch_whole (qp_network Q) (get_request target)) p))"
    using r by (auto simp: web_gets_def on_web_def assms get_request_def)
qed

lemma gets_json:
  assumes "qp_network Q = logged N"
  shows "preserves (web_gets log t s) (probe_json Q target)"
proof -
  have body: "preserves (web_gets log t s) (case loads_bytes (whole_body r) of Inl _ \<Rightarrow> raiseS (RuntimeError ''public_probe_invalid_json'')
      | Inr (PDict kvs) \<Rightarrow> retS kvs | Inr _ \<Rightarrow> raiseS (RuntimeError ''public_probe_invalid_json_shape''))" for r
    by (auto simp: preserves_def split: sum.split pyval.split)
  show ?thesis unfolding probe_json_def by (intro preserves_bindS preserves_raiseS_if gets_web [OF assms] body)
qed

lemma gets_card:
  assumes "qp_network Q = logged N"
  shows "preserves (web_gets log t s) (load_public_card Q target now)"
  unfolding load_public_card_def by (intro preserves_bindS preserves_basic gets_json [OF assms])

lemma gets_client:
  fixes f :: "technocore_client \<Rightarrow> (('n \<times> http_request list) client_state, 'a) op"
  assumes "\<And>c log. preserves (only_gets log) (f c)"
  shows "preserves (web_gets log t s) (with_client f)"
  unfolding with_client_def
proof (rule preserves_bindS)
  show "preserves (web_gets log t s) (liftS (make_client technocore_origin technocore_origin ''v0.14.5'' 1048576))"
    by (rule preserves_basic)
  show "preserves (web_gets log t s) (\<lambda>p. case f c \<lparr>cs_net = qw_net p, cs_generations = [], cs_last = []\<rparr> of (r, s) \<Rightarrow> (r, p\<lparr>qw_net := cs_net s\<rparr>))" for c
  proof (rule preservesI)
    fix p :: "('n \<times> http_request list) probe_world" assume p: "web_gets log t s p"
    let ?s = "\<lparr>cs_net = qw_net p, cs_generations = [], cs_last = []\<rparr>"
    obtain r u where r: "f c ?s = (r, u)" by (cases "f c ?s")
    have "only_gets (snd (qw_net p)) ?s" by (simp add: only_gets_def)
    from preservesE [OF assms r this] have "only_gets (snd (qw_net p)) u" .
    then show "web_gets log t s (snd (case f c ?s of (r, s) \<Rightarrow> (r, p\<lparr>qw_net := cs_net s\<rparr>)))"
      using p r by (auto simp: web_gets_def only_gets_def)
  qed
qed

lemma bindS_preserved:
  assumes "bindS m f s = (x, u)" "preserves I m" "I s"
  obtains e where "x = Inl e" "I u" | a s' where "m s = (Inr a, s')" "I s'" "f a s' = (x, u)"
  using assms(1)
proof (rule bindS_cases)
  fix e assume m: "m s = (Inl e, u)" "x = Inl e"
  from that(1) [OF m(2) preservesE [OF assms(2) m(1) assms(3)]] show thesis .
next
  fix a s' assume m: "m s = (Inr a, s')" "f a s' = (x, u)"
  from that(2) [OF m(1) preservesE [OF assms(2) m(1) assms(3)] m(2)] show thesis .
qed

definition approved_post :: "'n public_probe \<Rightarrow> (string \<times> pyval) list \<Rightarrow> service_request \<Rightarrow> (string \<times> pyval) list \<Rightarrow> http_request \<Rightarrow> bool" where
  "approved_post Q preview request body q = (\<exists>peer room msg n nonce payload sig. synthetic_identity (qp_crypto Q) synthetic_peer_id = Inr peer
     \<and> map_of preview ''request_mailbox'' = Some (PStr room) \<and> canonical_text (service_request_dict request) = Inr msg
     \<and> map_of body ''did'' = Some (PStr (id_did peer)) \<and> map_of body ''text'' = Some (PStr msg)
     \<and> map_of body ''nonce'' = Some (PStr n) \<and> int_of_text n = Inr nonce \<and> text_of (sl_str (qp_stdlib Q)) (map_of body ''sig'') = sig
     \<and> signed_room_payload room nonce msg = Inr payload \<and> verify_signature (qp_crypto Q) (id_did peer) payload sig
     \<and> q = message_post room (id_did peer) nonce msg sig)"

lemma validated_preview_Inr:
  assumes "validated_preview Q path approved t = Inr (preview, request, body)"
  shows "digest_of (qp_crypto Q) (PDict preview) = Inr approved" "check_preview Q preview = Inr (request, body)"
proof -
  from assms obtain raw v where "read_bytes path t = Inr raw" "loads_bytes raw = Inr v" and v: "(case v of
       PDict preview \<Rightarrow>
         raise_if (map_of preview ''schema'' \<noteq> Some (PStr ''rosetta.public-pilot-probe-preview.v1'')) (ValueError ''invalid public pilot probe preview'')
         (raise_if (\<not> immutable_digest approved) (RuntimeError ''public pilot probe approval digest mismatch'')
         (bindE (digest_of (qp_crypto Q) v) (\<lambda>digest.
          raise_if (digest \<noteq> approved) (RuntimeError ''public pilot probe approval digest mismatch'')
          (bindE (check_preview Q preview) (\<lambda>(request, body). Inr (preview, request, body))))))
     | _ \<Rightarrow> Inl (ValueError ''invalid public pilot probe preview'')) = Inr (preview, request, body)"
    unfolding validated_preview_def bindE_eq_Inr by blast
  from v show "digest_of (qp_crypto Q) (PDict preview) = Inr approved" "check_preview Q preview = Inr (request, body)"
    by (cases v; auto)+
qed

lemma check_preview_Inr:
  assumes "check_preview Q preview = Inr (request, body)"
  obtains peer room msg n nonce where "synthetic_identity (qp_crypto Q) synthetic_peer_id = Inr peer"
    "map_of preview ''request_mailbox'' = Some (PStr room)" "map_of body ''did'' = Some (PStr (id_did peer))"
    "map_of body ''text'' = Some (PStr msg)" "map_of body ''nonce'' = Some (PStr n)" "int_of_text n = Inr nonce"
    "approved_post Q preview request body (message_post room (id_did peer) nonce msg (text_of (sl_str (qp_stdlib Q)) (map_of body ''sig'')))"
proof -
  from assms obtain peer wr where p: "synthetic_identity (qp_crypto Q) synthetic_peer_id = Inr peer"
    and s: "in_scope Q peer preview request"
    and ok: "signed_bytes_ok Q (id_did peer) (text_value (map_of preview ''request_mailbox'')) request wr body = Inr True"
    by (auto simp: check_preview_def Let_def)
  from s obtain room where r: "map_of preview ''request_mailbox'' = Some (PStr room)"
    by (auto simp: in_scope_def Let_def is_text_def split: option.splits pyval.splits)
  from ok obtain msg n nonce payload where m: "canonical_text (service_request_dict request) = Inr msg" "map_of body ''text'' = Some (PStr msg)"
    "map_of body ''did'' = Some (PStr (id_did peer))" "map_of body ''nonce'' = Some (PStr n)" "int_of_text n = Inr nonce"
    "signed_room_payload room nonce msg = Inr payload"
    "verify_signature (qp_crypto Q) (id_did peer) payload (text_of (sl_str (qp_stdlib Q)) (map_of body ''sig''))"
    by (auto simp: signed_bytes_ok_def r text_value_def split: if_splits option.splits pyval.splits)
  from that [OF p r m(3,2,4,5)] show thesis unfolding approved_post_def using p r m by blast
qed

lemma posting:
  fixes N :: "'n network"
  assumes run: "with_client (\<lambda>c. bindS (client_capabilities C L (logged N) c) (\<lambda>_. client_post_signed C L (logged N) c actor room did nonce msg sig)) p = (x, p')"
  shows "qw_files p' = qw_files p \<and> qw_nonces p' = qw_nonces p \<and> (\<exists>sent. snd (qw_net p') = snd (qw_net p) @ sent
    \<and> (let writes = filter (\<lambda>q. hq_method q \<noteq> ''GET'') sent in writes = [] \<and> (\<exists>e. x = Inl e) \<or> writes = [message_post room did nonce msg sig]))"
proof -
  let ?f = "\<lambda>c. bindS (client_capabilities C L (logged N) c) (\<lambda>_. client_post_signed C L (logged N) c actor room did nonce msg sig)"
  have "make_client technocore_origin technocore_origin ''v0.14.5'' 1048576 = Inr \<lparr>tc_fetch = technocore_origin, tc_authority = technocore_origin,
      tc_release = ''v0.14.5'', tc_max = 1048576\<rparr>" by code_simp
  then obtain c s' where s': "?f c \<lparr>cs_net = qw_net p, cs_generations = [], cs_last = []\<rparr> = (x, s')" and p': "p' = p\<lparr>qw_net := cs_net s'\<rparr>"
    using run by (auto simp: with_client_def split: prod.splits)
  let ?s = "\<lparr>cs_net = qw_net p, cs_generations = [], cs_last = []\<rparr>"
  have g: "only_gets (snd (qw_net p)) ?s" by (simp add: only_gets_def)
  from s' have "\<exists>sent. snd (cs_net s') = snd (qw_net p) @ sent
    \<and> (let writes = filter (\<lambda>q. hq_method q \<noteq> ''GET'') sent in writes = [] \<and> (\<exists>e. x = Inl e) \<or> writes = [message_post room did nonce msg sig])"
  proof (rule bindS_preserved [OF _ only_gets_capabilities g])
    fix e assume "x = Inl e" "only_gets (snd (qw_net p)) s'"
    then show ?thesis by (auto simp: only_gets_def Let_def filter_empty_conv list_all_iff)
  next
    fix a u assume u: "only_gets (snd (qw_net p)) u" and "client_post_signed C L (logged N) c actor room did nonce msg sig u = (x, s')"
    from client_post_sends [OF this(2)] obtain rest where r: "snd (cs_net s') = snd (cs_net u) @ rest"
      "rest = [] \<and> (\<exists>e. x = Inl e) \<or> rest = [message_post room did nonce msg sig] \<or> rest = [message_post room did nonce msg sig, read_request_of room 0 200]"
      by blast
    from u obtain gets where gs: "snd (cs_net u) = snd (qw_net p) @ gets" "filter (\<lambda>q. hq_method q \<noteq> ''GET'') gets = []"
      by (auto simp: only_gets_def filter_empty_conv list_all_iff)
    have "hq_method (message_post room did nonce msg sig) = ''POST''" "hq_method (read_request_of room 0 200) = ''GET''"
      by (simp_all add: message_post_def post_request_def read_request_of_def)
    then have "(let writes = filter (\<lambda>q. hq_method q \<noteq> ''GET'') (gets @ rest) in writes = [] \<and> (\<exists>e. x = Inl e) \<or> writes = [message_post room did nonce msg sig])"
      using r(2) gs(2) by (auto simp: Let_def)
    then show ?thesis using r(1) gs(1) by (intro exI [of _ "gets @ rest"]) simp
  qed
  then show ?thesis by (simp add: p')
qed

lemma check_preview_shape:
  assumes "check_preview Q preview = Inr (request, body)"
  shows "\<exists>(peer :: identity) room msg n nonce. map_of preview ''request_mailbox'' = Some (PStr room) \<and> map_of body ''did'' = Some (PStr (id_did peer))
    \<and> map_of body ''text'' = Some (PStr msg) \<and> map_of body ''nonce'' = Some (PStr n) \<and> int_of_text n = Inr nonce
    \<and> approved_post Q preview request body (message_post room (id_did peer) nonce msg (text_of (sl_str (qp_stdlib Q)) (map_of body ''sig'')))"
  by (rule check_preview_Inr [OF assms]) (rule exI, rule exI, rule exI, rule exI, rule exI, intro conjI, assumption+)

lemma activation_sends:
  fixes N :: "'n network"
  assumes Q: "qp_network Q = logged N" and v: "validated_preview Q path approved (qw_files p) = Inr (preview, request, body)"
    and run: "probe_activate Q path approved now p = (x, p')"
  shows "qw_files p' = qw_files p \<and> qw_nonces p' = qw_nonces p \<and> (\<exists>sent. snd (qw_net p') = snd (qw_net p) @ sent
    \<and> (let writes = filter (\<lambda>q. hq_method q \<noteq> ''GET'') sent in writes = [] \<and> (\<exists>e. x = Inl e) \<or> (\<exists>q. writes = [q] \<and> approved_post Q preview request body q)))"
proof -
  let ?G = "web_gets (snd (qw_net p)) (qw_files p) (qw_nonces p)"
  let ?goal = "qw_files p' = qw_files p \<and> qw_nonces p' = qw_nonces p \<and> (\<exists>sent. snd (qw_net p') = snd (qw_net p) @ sent
    \<and> (let writes = filter (\<lambda>q. hq_method q \<noteq> ''GET'') sent in writes = [] \<and> (\<exists>e. x = Inl e) \<or> (\<exists>q. writes = [q] \<and> approved_post Q preview request body q)))"
  have start: "?G p" by (simp add: web_gets_def)
  have quiet: ?goal if "x = Inl e" "?G p'" for e
    using that by (auto simp: web_gets_def Let_def filter_empty_conv list_all_iff)
  from check_preview_shape [OF validated_preview_Inr(2) [OF v]] obtain peer :: identity and room msg n nonce
    where f: "map_of preview ''request_mailbox'' = Some (PStr room)" "map_of body ''did'' = Some (PStr (id_did peer))"
      "map_of body ''text'' = Some (PStr msg)" "map_of body ''nonce'' = Some (PStr n)" "int_of_text n = Inr nonce"
    and q: "approved_post Q preview request body (message_post room (id_did peer) nonce msg (text_of (sl_str (qp_stdlib Q)) (map_of body ''sig'')))"
    by blast
  let ?sig = "text_of (sl_str (qp_stdlib Q)) (map_of body ''sig'')"
  have post: ?goal if g: "?G s" and post: "with_client (\<lambda>c. bindS (client_capabilities (qp_crypto Q) (qp_stdlib Q) (logged N) c) (\<lambda>_.
      client_post_signed (qp_crypto Q) (qp_stdlib Q) (logged N) c ''public-pilot-probe'' room (id_did peer) nonce msg ?sig)) s = (y, p')"
    and y: "(\<exists>r. y = Inr r) \<or> (\<exists>e. x = Inl e)" for s y
  proof -
    from posting [OF post] obtain sent where s: "qw_files p' = qw_files s" "qw_nonces p' = qw_nonces s" "snd (qw_net p') = snd (qw_net s) @ sent"
      "let writes = filter (\<lambda>q. hq_method q \<noteq> ''GET'') sent in writes = [] \<and> (\<exists>e. y = Inl e) \<or> writes = [message_post room (id_did peer) nonce msg ?sig]"
      by blast
    from g obtain gets where gs: "qw_files s = qw_files p" "qw_nonces s = qw_nonces p" "snd (qw_net s) = snd (qw_net p) @ gets"
      "filter (\<lambda>q. hq_method q \<noteq> ''GET'') gets = []" by (auto simp: web_gets_def filter_empty_conv list_all_iff)
    then have "snd (qw_net p') = snd (qw_net p) @ (gets @ sent)
      \<and> (let writes = filter (\<lambda>q. hq_method q \<noteq> ''GET'') (gets @ sent) in writes = [] \<and> (\<exists>e. x = Inl e) \<or> (\<exists>q. writes = [q] \<and> approved_post Q preview request body q))"
      using s q y by (auto simp: Let_def)
    then show ?thesis using s(1,2) gs(1,2) by (intro conjI exI [of _ "gets @ sent"]) simp_all
  qed
  show ?thesis
  proof (cases "\<exists>e. x = Inl e \<and> p' = p")
    case True
    with quiet start show ?thesis by blast
  next
    case False
    with run obtain current where "bindS (load_public_card Q (text_value (map_of preview ''service_card_url'')) current)
        (post_approved Q preview request body) p = (x, p')"
      by (auto simp: probe_activate_def v bindS_liftS split: sum.splits)
    then show ?thesis
    proof (rule bindS_preserved [OF _ gets_card [OF Q] start])
      fix e assume "x = Inl e" "?G p'"
      then show ?thesis by (rule quiet)
    next
      fix a s assume g: "?G s" and run: "post_approved Q preview request body a s = (x, p')"
      obtain crd attestation origin where a: "a = (crd, attestation, origin)" by (cases a)
      show ?thesis
      proof (cases "x = Inl (RuntimeError ''public pilot probe service metadata changed'') \<and> p' = s")
        case True
        with g quiet show ?thesis by blast
      next
        case False
        let ?w = "with_client (\<lambda>c. bindS (client_capabilities (qp_crypto Q) (qp_stdlib Q) (logged N) c) (\<lambda>_.
          client_post_signed (qp_crypto Q) (qp_stdlib Q) (logged N) c ''public-pilot-probe'' room (id_did peer) nonce msg ?sig))"
        from False run f(1) have "card_request_mailbox crd = room" by (auto simp: post_approved_def a raiseS_if_def split: if_splits)
        with False run obtain h where "bindS ?w (\<lambda>r. retS (h r)) s = (x, p')"
          by (auto simp: post_approved_def a raiseS_if_def f text_value_def Q split: if_splits)
        then show ?thesis
        proof (rule bindS_cases)
          fix e assume "?w s = (Inl e, p')" "x = Inl e"
          with post [OF g] show ?thesis by blast
        next
          fix r u assume "?w s = (Inr r, u)" "retS (h r) u = (x, p')"
          with post [OF g] show ?thesis by simp
        qed
      qed
    qed
  qed
qed

section \<open>What a verdict rests on\<close>

text \<open>A record that the service signed in the reply room, and that answers the request.\<close>

definition answers :: "'n public_probe \<Rightarrow> service_card \<Rightarrow> service_request \<Rightarrow> string \<Rightarrow> protocol_record \<Rightarrow> pyval \<Rightarrow> bool" where
  "answers Q crd request schema r v = (record_signed (qp_crypto Q) r \<and> p_did r = card_did crd \<and> p_room r = rq_reply_room request
     \<and> (\<exists>kvs. loads (p_text r) = Inr v \<and> v = PDict kvs \<and> map_of kvs ''request_id'' = Some (PStr (rq_request_id request))
       \<and> map_of kvs ''schema'' = Some (PStr schema)))"

lemma read_answers_found:
  assumes "read_answers Q (card_did crd) (rq_request_id request) rs acc = Inr (ack, res)" "\<forall>r \<in> set rs. p_room r = rq_reply_room request"
  shows "(ack = fst acc \<or> (\<exists>r v a. r \<in> set rs \<and> ack = Some (p_sequence r, a) \<and> answers Q crd request ''rosetta.ack.v1'' r v
      \<and> parse_acknowledgement (qp_pydantic Q) v = Inr a))
    \<and> (res = snd acc \<or> (\<exists>r v x. r \<in> set rs \<and> res = Some (p_sequence r, x) \<and> answers Q crd request ''rosetta.result.v1'' r v
      \<and> parse_service_result (qp_pydantic Q) v = Inr x))"
  using assms
proof (induction rs arbitrary: acc)
  case (Cons r rs)
  from Cons.prems(1) obtain acc' where one: "read_answer Q (card_did crd) (rq_request_id request) r acc = Inr acc'"
    and rest: "read_answers Q (card_did crd) (rq_request_id request) rs acc' = Inr (ack, res)" by auto
  obtain a b where acc: "acc = (a, b)" by (cases acc)
  have room: "p_room r = rq_reply_room request" using Cons.prems(2) by simp
  have step: "(fst acc' = a \<or> (\<exists>v x. fst acc' = Some (p_sequence r, x) \<and> answers Q crd request ''rosetta.ack.v1'' r v
      \<and> parse_acknowledgement (qp_pydantic Q) v = Inr x))
    \<and> (snd acc' = b \<or> (\<exists>v x. snd acc' = Some (p_sequence r, x) \<and> answers Q crd request ''rosetta.result.v1'' r v
      \<and> parse_service_result (qp_pydantic Q) v = Inr x))"
  proof (cases "loads (p_text r)")
    case (Inr v)
    show ?thesis
    proof (cases v)
      case (PDict kvs)
      with one acc Inr room show ?thesis by (auto simp: read_answer_def answers_def split: if_splits)
    qed (use one acc Inr in \<open>auto simp: read_answer_def split: if_splits\<close>)
  qed (use one acc in \<open>auto simp: read_answer_def split: if_splits\<close>)
  have "(ack = fst acc' \<or> (\<exists>r v a. r \<in> set rs \<and> ack = Some (p_sequence r, a) \<and> answers Q crd request ''rosetta.ack.v1'' r v
      \<and> parse_acknowledgement (qp_pydantic Q) v = Inr a))
    \<and> (res = snd acc' \<or> (\<exists>r v x. r \<in> set rs \<and> res = Some (p_sequence r, x) \<and> answers Q crd request ''rosetta.result.v1'' r v
      \<and> parse_service_result (qp_pydantic Q) v = Inr x))" using Cons.IH [OF rest] Cons.prems(2) by simp
  with step acc show ?case by (simp, blast)
qed simp

lemma fetched_names: "mapS (fetch_report_file Q prefix) ps p = (Inr fs, p') \<Longrightarrow> map fst fs = ps"
  by (induction ps arbitrary: fs p) (auto simp: fetch_report_file_def)

lemma manifest_path_Inr: "manifest_path line = Inr p \<Longrightarrow> report_path p"
  by (auto simp: manifest_path_def Let_def split: option.splits)

definition report_tree :: "tree \<Rightarrow> bool" where
  "report_tree fs = (distinct (map fst fs) \<and> (\<forall>p \<in> fst ` set fs. report_path p \<or> p \<in> {''checksums.txt'', ''attestation.json''}))"

lemma verify_report_Inr:
  assumes "verify_report Q res origin p = (Inr root, p')"
  shows "\<exists>fs. verify_files (qp_crypto Q) (qp_pydantic Q) fs = Inr root \<and> report_tree fs
    \<and> re_report_url res = origin @ ''/reports/'' @ remove_prefix ''sha256:'' (re_bundle_root res) @ ''/''"
proof -
  let ?prefix = "origin @ ''/reports/'' @ remove_prefix ''sha256:'' (re_bundle_root res) @ ''/''"
  from assms obtain b lines paths files s s' where u: "re_report_url res = ?prefix" and paths: "mapE manifest_path lines = Inr paths" "distinct paths"
    and files: "mapS (fetch_report_file Q ?prefix) (paths @ [''attestation.json'']) s = (Inr files, s')"
    and v: "verify_files (qp_crypto Q) (qp_pydantic Q) ((''checksums.txt'', b) # files) = Inr root"
    unfolding verify_report_def Let_def by (auto simp del: mapS.simps)
  have ok: "list_all report_path paths" using mapE_all [OF paths(1) manifest_path_Inr] .
  have "\<not> report_path ''checksums.txt''" "\<not> report_path ''attestation.json''" by code_simp+
  then have "report_tree ((''checksums.txt'', b) # files)"
    using ok paths(2) fetched_names [OF files] by (auto simp: report_tree_def list_all_iff image_iff simp flip: set_map list.set_map)
  with u v show ?thesis by blast
qed

lemma with_client_read:
  assumes "with_client (\<lambda>c. bindS (client_capabilities C L N c) (\<lambda>_. client_read_room C L N c room 0 200)) p = (Inr rs, p')"
  shows "\<forall>r \<in> set rs. p_room r = room"
proof -
  let ?f = "\<lambda>c. bindS (client_capabilities C L N c) (\<lambda>_. client_read_room C L N c room 0 200)"
    and ?s = "\<lparr>cs_net = qw_net p, cs_generations = [], cs_last = []\<rparr>"
  from assms obtain c where "(case ?f c ?s of (r, s) \<Rightarrow> (r, p\<lparr>qw_net := cs_net s\<rparr>)) = (Inr rs, p')"
    by (auto simp: with_client_def)
  then obtain u where "?f c ?s = (Inr rs, u)" by (cases "?f c ?s") auto
  then obtain s s' where "client_read_room C L N c room 0 200 s = (Inr rs, s')" by auto
  from client_read_room_parts [OF this] have "\<exists>items. read_records C L room 0 items = Inr rs" by auto
  then have "list_all (record_valid C room) rs" using read_records_valid by blast
  then show ?thesis by (auto simp: list_all_iff record_valid_def)
qed

text \<open>What a verdict rests on: the preview with the approved digest; an acknowledgement and a
result of its request, signed by the service of the preview in the reply room, accepted and
passed for one job; a report of the permitted files that verifies as a bundle.\<close>

definition verdict_rests :: "'n public_probe \<Rightarrow> string \<Rightarrow> string \<Rightarrow> tree \<Rightarrow> pyval \<Rightarrow> bool" where
  "verdict_rests Q path approved t v = (\<exists>preview request body crd r1 v1 ack r2 v2 res root fs origin current.
     validated_preview Q path approved t = Inr (preview, request, body) \<and> digest_of (qp_crypto Q) (PDict preview) = Inr approved
     \<and> map_of preview ''service_did'' = Some (PStr (card_did crd))
     \<and> answers Q crd request ''rosetta.ack.v1'' r1 v1 \<and> parse_acknowledgement (qp_pydantic Q) v1 = Inr ack
     \<and> answers Q crd request ''rosetta.result.v1'' r2 v2 \<and> parse_service_result (qp_pydantic Q) v2 = Inr res
     \<and> ak_status ack = ''accepted'' \<and> ak_job_id ack = Some (re_job_id res) \<and> outcome_text (re_outcome res) = ''pass''
     \<and> verify_files (qp_crypto Q) (qp_pydantic Q) fs = Inr root \<and> report_tree fs
     \<and> re_report_url res = origin @ ''/reports/'' @ remove_prefix ''sha256:'' (re_bundle_root res) @ ''/''
     \<and> v = probe_verdict preview request crd (p_sequence r1) (p_sequence r2) root res current)"

lemma verdict_parts:
  assumes run: "probe_verify Q path approved now p = (Inr (Some v), p')"
  shows "verdict_rests Q path approved (qw_files p) v"
proof -
  from run obtain current preview request body crd attestation origin rs s s' found
    where pv: "validated_preview Q path approved (qw_files p) = Inr (preview, request, body)"
    and did: "map_of preview ''service_did'' = Some (PStr (card_did crd))"
    and rs: "with_client (\<lambda>c. bindS (client_capabilities (qp_crypto Q) (qp_stdlib Q) (qp_network Q) c) (\<lambda>_.
        client_read_room (qp_crypto Q) (qp_stdlib Q) (qp_network Q) c (rq_reply_room request) 0 200)) s = (Inr rs, s')"
    and found: "read_answers Q (card_did crd) (rq_request_id request) rs (None, None) = Inr found"
    and last: "(case found of
        (Some (ack_sequence, ack), Some (result_sequence, res)) \<Rightarrow>
          raiseS_if (ak_status ack \<noteq> ''accepted'' \<or> ak_job_id ack = None \<or> ak_job_id ack \<noteq> Some (re_job_id res)
              \<or> outcome_text (re_outcome res) \<noteq> ''pass'')
            (RuntimeError ''public_probe_unsuccessful_service_result'')
          (bindS (verify_report Q res origin) (\<lambda>root.
           retS (Some (probe_verdict preview request crd ack_sequence result_sequence root res current))))
      | _ \<Rightarrow> retS None) s' = (Inr (Some v), p')"
    unfolding probe_verify_def by auto
  from last obtain n1 ack n2 res where ans: "found = (Some (n1, ack), Some (n2, res))"
    by (cases "fst found"; cases "snd found"; cases found) auto
  with last obtain root where ok: "ak_status ack = ''accepted''" "ak_job_id ack = Some (re_job_id res)" "outcome_text (re_outcome res) = ''pass''"
    and rep: "verify_report Q res origin s' = (Inr root, p')"
    and v: "v = probe_verdict preview request crd n1 n2 root res current" by auto
  have room: "\<forall>r \<in> set rs. p_room r = rq_reply_room request" using with_client_read [OF rs] .
  from read_answers_found [OF found [unfolded ans] room] obtain r1 v1 r2 v2 where "n1 = p_sequence r1" "answers Q crd request ''rosetta.ack.v1'' r1 v1"
    "parse_acknowledgement (qp_pydantic Q) v1 = Inr ack" "n2 = p_sequence r2" "answers Q crd request ''rosetta.result.v1'' r2 v2"
    "parse_service_result (qp_pydantic Q) v2 = Inr res" by auto
  with verify_report_Inr [OF rep] pv did ok v validated_preview_Inr(1) [OF pv] show ?thesis unfolding verdict_rests_def by blast
qed

section \<open>A verification only reads\<close>

lemma gets_report:
  fixes N :: "'n network"
  assumes "qp_network Q = logged N"
  shows "preserves (web_gets log t s) (verify_report Q res origin)"
proof -
  have one: "preserves (web_gets log t s) (fetch_report_file Q prefix path)" for prefix path
    unfolding fetch_report_file_def by (intro preserves_bindS gets_web [OF assms] preserves_raiseS_if preserves_basic)
  show ?thesis unfolding verify_report_def Let_def
    by (intro preserves_bindS preserves_raiseS_if gets_web [OF assms] preserves_mapS preserves_basic one)
qed

lemma gets_answers:
  fixes N :: "'n network"
  assumes "qp_network Q = logged N"
  shows "preserves (web_gets log t s) (with_client (\<lambda>c. bindS (client_capabilities (qp_crypto Q) (qp_stdlib Q) (qp_network Q) c) (\<lambda>_.
      client_read_room (qp_crypto Q) (qp_stdlib Q) (qp_network Q) c room 0 200)))"
  by (intro gets_client) (simp only: assms, intro preserves_bindS only_gets_capabilities only_gets_read)

lemma gets_verify:
  fixes N :: "'n network"
  assumes Q: "qp_network Q = logged N"
  shows "preserves (web_gets log t s) (probe_verify Q path approved now)"
  unfolding probe_verify_def
  by (intro preserves_bindS preserves_basic preserves_prod preserves_raiseS_if preserves_option gets_card [OF Q] gets_answers [OF Q] gets_report [OF Q])

section \<open>Properties\<close>

text \<open>C38: Activation writes no file and spends no nonce, and beside reads it sends nothing but
the record of the approved preview: either it sends no write and ends in an error, or the
preview at the path validates, its digest is the approved one, and the one write is the
message of that preview, with its room, its text and its signature.\<close>

theorem probe_sends_approved_record:
  fixes N :: "'n network" and Q :: "('n \<times> http_request list) public_probe"
  shows "case probe_activate (Q\<lparr>qp_network := logged N\<rparr>) path approved now p of (x, p') \<Rightarrow>
    qw_files p' = qw_files p \<and> qw_nonces p' = qw_nonces p \<and> (\<exists>sent. snd (qw_net p') = snd (qw_net p) @ sent
    \<and> (let writes = filter (\<lambda>q. hq_method q \<noteq> ''GET'') sent in (writes = [] \<and> (\<exists>e. x = Inl e))
       \<or> (\<exists>preview request body q. validated_preview (Q\<lparr>qp_network := logged N\<rparr>) path approved (qw_files p) = Inr (preview, request, body)
          \<and> digest_of (qp_crypto Q) (PDict preview) = Inr approved
          \<and> approved_post (Q\<lparr>qp_network := logged N\<rparr>) preview request body q \<and> writes = [q])))"
proof -
  let ?Q = "Q\<lparr>qp_network := logged N\<rparr>"
  obtain x p' where run: "probe_activate ?Q path approved now p = (x, p')" by (cases "probe_activate ?Q path approved now p")
  show ?thesis
  proof (cases "validated_preview ?Q path approved (qw_files p)")
    case (Inl e)
    then have "p' = p \<and> (\<exists>e. x = Inl e)" using run by (cases "to_utc now") (auto simp: probe_activate_def bindS_liftS)
    then show ?thesis using run by (auto intro!: exI [of _ "[]"])
  next
    case (Inr t)
    then obtain preview request body where v: "validated_preview ?Q path approved (qw_files p) = Inr (preview, request, body)" by (cases t) auto
    have d: "digest_of (qp_crypto Q) (PDict preview) = Inr approved" using validated_preview_Inr(1) [OF v] by simp
    have "qp_network ?Q = logged N" by simp
    from activation_sends [OF this v run] show ?thesis using run v d by (simp add: Let_def) blast
  qed
qed

text \<open>C39: A verification sends nothing but reads and changes no file and no nonce, whatever it
ends in, and a verdict that it returns rests on the approved preview, on the signed answers
of the service and on a report that verifies; without a verdict and without an error the
preview was the approved one.\<close>

theorem probe_verdict_sound:
  fixes N :: "'n network" and Q :: "('n \<times> http_request list) public_probe"
  shows "case probe_verify (Q\<lparr>qp_network := logged N\<rparr>) path approved now p of (x, p') \<Rightarrow>
    qw_files p' = qw_files p \<and> qw_nonces p' = qw_nonces p
    \<and> (\<exists>sent. snd (qw_net p') = snd (qw_net p) @ sent \<and> list_all (\<lambda>q. hq_method q = ''GET'') sent)
    \<and> (case x of Inl _ \<Rightarrow> True
       | Inr None \<Rightarrow> (\<exists>preview request body. validated_preview (Q\<lparr>qp_network := logged N\<rparr>) path approved (qw_files p) = Inr (preview, request, body))
       | Inr (Some v) \<Rightarrow> verdict_rests (Q\<lparr>qp_network := logged N\<rparr>) path approved (qw_files p) v)"
proof -
  let ?Q = "Q\<lparr>qp_network := logged N\<rparr>"
  obtain x p' where run: "probe_verify ?Q path approved now p = (x, p')" by (cases "probe_verify ?Q path approved now p")
  have "qp_network ?Q = logged N" "web_gets (snd (qw_net p)) (qw_files p) (qw_nonces p) p" by (simp_all add: web_gets_def)
  from preservesE [OF gets_verify [OF this(1)] run this(2)] have reads: "web_gets (snd (qw_net p)) (qw_files p) (qw_nonces p) p'" .
  have pending: "\<exists>preview request body. validated_preview ?Q path approved (qw_files p) = Inr (preview, request, body)" if "x = Inr r" for r
    using run that by (auto simp: probe_verify_def)
  have found: "verdict_rests ?Q path approved (qw_files p) v" if "x = Inr (Some v)" for v
    using verdict_parts [OF run [unfolded that]] .
  from reads pending found run show ?thesis by (auto simp: web_gets_def split: sum.split option.split)
qed

end
