(* ===== verification/Fixture_Http.thy ===== *)
theory Fixture_Http
  imports Pilot
begin

text \<open>
  \<open>rosetta/target_service.py\<close> and \<open>rosetta/http_target.py\<close>: the HTTP service around the
  in-memory fixture of \<open>Local_Protocol\<close>, and the client of that service.  The service works on
  the path and the body of a request; what \<open>httpx\<close> puts on the wire for a request of the
  client is the record \<open>wire\<close>, and \<open>fixture_network\<close> joins both ends.
\<close>

section \<open>Percent encoding\<close>

definition unreserved :: "char \<Rightarrow> bool" where
  "unreserved c = (ascii_alpha c \<or> is_ascii_digit c \<or> c \<in> {CHR ''_'', CHR ''.'', CHR ''-'', CHR ''~''})"

definition upper_hex :: "nat \<Rightarrow> char" where
  "upper_hex n = (if n < 10 then char_of (48 + n) else char_of (55 + n))"

definition quote_byte :: "char \<Rightarrow> string" where
  "quote_byte c = (if unreserved c then [c] else [CHR ''%'', upper_hex (code c div 16), upper_hex (code c mod 16)])"

text \<open>\<open>quote(s, safe='')\<close>\<close>

definition quote_segment :: "string \<Rightarrow> string" where
  "quote_segment s = concat (map quote_byte (utf8 s))"

text \<open>\<open>unquote(s)\<close>: the bytes of the text with its escapes resolved, as text where they are
Latin-1, else whatever the library makes of them.\<close>

fun percent_bytes :: "string \<Rightarrow> bytes" where
  "percent_bytes [] = []"
| "percent_bytes (c # s) = (case s of
     a # b # r \<Rightarrow> (case (if c = CHR ''%'' then hex_byte a b else None) of
         Some d \<Rightarrow> d # percent_bytes r | None \<Rightarrow> utf8_char c @ percent_bytes s)
   | _ \<Rightarrow> utf8_char c @ percent_bytes s)"

definition unquote_text :: "stdlib \<Rightarrow> string \<Rightarrow> string" where
  "unquote_text L s = (case utf8_decode (percent_bytes s) of Some t \<Rightarrow> t | None \<Rightarrow> sl_unescape L s)"

definition remove_suffix :: "string \<Rightarrow> string \<Rightarrow> string" where
  "remove_suffix p s = (if p \<noteq> [] \<and> ends_with p s then take (length s - length p) s else s)"

text \<open>\<open>parse_qs(query)\<close> drops the parts without a value.\<close>

definition parse_qs_filled :: "(string \<Rightarrow> string) \<Rightarrow> string \<Rightarrow> (string \<times> string list) list" where
  "parse_qs_filled unescape q = group_pairs (map (\<lambda>p. case partition_at CHR ''='' p of (k, _, v) \<Rightarrow> (unquote unescape k, unquote unescape v))
     (filter (\<lambda>p. snd (snd (partition_at CHR ''='' p)) \<noteq> []) (split_on CHR ''&'' q)))"

section \<open>The service\<close>

text \<open>\<open>fs_int\<close> is \<open>int()\<close> of a float literal.\<close>

record fixture_service =
  fs_crypto :: crypto
  fs_stdlib :: stdlib
  fs_int :: "string \<Rightarrow> int result"

definition record_dict :: "protocol_record \<Rightarrow> (string \<times> pyval) list" where
  "record_dict r = [(''sequence'', PInt (p_sequence r)), (''room'', PStr (p_room r)), (''did'', PStr (p_did r)),
     (''nonce'', PInt (p_nonce r)), (''text'', PStr (p_text r)), (''signature'', PStr (p_signature r))]"

text \<open>A body of a 204 is not transferred.\<close>

definition fixture_send :: "int \<Rightarrow> (string \<times> pyval) list \<Rightarrow> (string \<times> string) list \<Rightarrow> http_response result" where
  "fixture_send status body headers = bindE (dumps True (PDict body)) (\<lambda>t. let b = utf8 t in
     Inr \<lparr>hr_status = status, hr_headers = [(''content-type'', ''application/json''), (''content-length'', str_int (int (length b)))] @ headers,
       hr_chunks = (if status = 204 then [] else [b]), hr_broken = False\<rparr>)"

definition fixture_body :: "string option \<Rightarrow> bytes \<Rightarrow> (string \<times> pyval) list result" where
  "fixture_body content_length body =
     bindE (int_of_text (case content_length of None \<Rightarrow> ''0'' | Some s \<Rightarrow> s)) (\<lambda>n.
     raise_if (n < 1 \<or> 16384 < n) (ValueError ''invalid body length'')
     (bindE (loads_bytes (take (nat n) body)) (\<lambda>v. case v of
        PDict kvs \<Rightarrow> Inr kvs | _ \<Rightarrow> Inl (ValueError ''body must be an object''))))"

definition py_int :: "(string \<Rightarrow> int result) \<Rightarrow> pyval \<Rightarrow> int result" where
  "py_int of_float v = (case v of PInt i \<Rightarrow> Inr i | PBool b \<Rightarrow> Inr (if b then 1 else 0) | PStr s \<Rightarrow> int_of_text s
     | PFloat t \<Rightarrow> of_float t | _ \<Rightarrow> Inl (TypeError ''int() argument must be a string or a number''))"

definition query_int :: "(string \<times> string list) list \<Rightarrow> string \<Rightarrow> string \<Rightarrow> int result" where
  "query_int query k dflt = int_of_text (case map_of query k of Some (v # _) \<Rightarrow> v | _ \<Rightarrow> dflt)"

definition fixture_get :: "fixture_service \<Rightarrow> string \<Rightarrow> (local_target, http_response) op" where
  "fixture_get E path = bindS (liftS (urlparse path)) (\<lambda>u.
     if u_path u = ''/health'' then liftS (fixture_send 200 [(''release'', PStr ''v0.7.0''), (''status'', PStr ''ok'')] [])
     else if u_path u = ''/capabilities'' then bindS local_capabilities (\<lambda>c. liftS (fixture_send 200 c []))
     else if starts_with ''/rooms/'' (u_path u) then
       (let room = unquote_text (fs_stdlib E) (remove_prefix ''/rooms/'' (u_path u));
            query = parse_qs_filled (unquote_text (fs_stdlib E)) (u_query u) in
        bindS (liftS (query_int query ''since'' ''0'')) (\<lambda>since.
        bindS (liftS (query_int query ''limit'' ''100'')) (\<lambda>limit.
        bindS (local_read_room room since limit) (\<lambda>rs.
        liftS (fixture_send 200 [(''records'', PList (map (\<lambda>r. PDict (record_dict r)) rs))] [])))))
     else liftS (fixture_send 404 [(''error'', PStr ''not_found'')] []))"

definition body_text :: "fixture_service \<Rightarrow> (string \<times> pyval) list \<Rightarrow> string \<Rightarrow> string" where
  "body_text E kvs k = text_of (sl_str (fs_stdlib E)) (map_of kvs k)"

text \<open>The signed write with the two failures that have a status of their own.\<close>

definition fixture_post_signed :: "fixture_service \<Rightarrow> string \<Rightarrow> (string \<times> pyval) list \<Rightarrow> (local_target, http_response) op" where
  "fixture_post_signed E room kvs =
     raiseS_if (\<not> exact_keys [''actor'', ''did'', ''nonce'', ''text'', ''signature''] kvs) (ValueError ''unknown signed-write fields'')
     (bindS (liftS (py_int (fs_int E) (get_field ''nonce'' kvs))) (\<lambda>nonce t.
        case local_post_signed (fs_crypto E) (body_text E kvs ''actor'') room (body_text E kvs ''did'') nonce
            (body_text E kvs ''text'') (body_text E kvs ''signature'') t of
          (Inr r, t') \<Rightarrow> (fixture_send 201 (record_dict r) [], t')
        | (Inl (RateLimited k), t') \<Rightarrow> (fixture_send 429 [(''error'', PStr ''rate_limited'')] [(''retry-after'', str_int k)], t')
        | (Inl (UncertainWrite _), t') \<Rightarrow> (fixture_send 599 [(''error'', PStr ''uncertain_write''), (''committed'', PBool True)] [], t')
        | (Inl e, t') \<Rightarrow> (Inl e, t')))"

definition fixture_inject :: "fixture_service \<Rightarrow> string \<Rightarrow> (string \<times> pyval) list \<Rightarrow> (local_target, unit) op" where
  "fixture_inject E path kvs = (if ends_with ''rate-limit'' path
     then local_inject_rate_limit (body_text E kvs ''actor'') (body_text E kvs ''room'')
     else local_inject_uncertain (body_text E kvs ''actor'') (body_text E kvs ''room''))"

fun is_bad_request :: "exn \<Rightarrow> bool" where
  "is_bad_request (TypeError _) = True"
| "is_bad_request e = is_value_error e"

text \<open>\<open>do_POST\<close>: the routes, in a block that answers a bad request with a 400.\<close>

definition fixture_route :: "fixture_service \<Rightarrow> string \<Rightarrow> (string \<times> pyval) list \<Rightarrow> (local_target, http_response) op" where
  "fixture_route E path kvs =
     (if path = ''/_fixture/rooms'' \<and> exact_keys [''room''] kvs then
        bindS (local_create_room (body_text E kvs ''room'')) (\<lambda>_. liftS (fixture_send 201 [(''created'', PBool True)] []))
      else if path \<in> {''/_fixture/rate-limit'', ''/_fixture/uncertain-write''} \<and> exact_keys [''actor'', ''room''] kvs then
        bindS (fixture_inject E path kvs) (\<lambda>_. liftS (fixture_send 204 [] []))
      else if starts_with ''/rooms/'' path \<and> ends_with ''/signed'' path then
        fixture_post_signed E (unquote_text (fs_stdlib E) (remove_suffix ''/signed'' (remove_prefix ''/rooms/'' path))) kvs
      else liftS (fixture_send 404 [(''error'', PStr ''not_found'')] []))"

definition fixture_post :: "fixture_service \<Rightarrow> string \<Rightarrow> string option \<Rightarrow> bytes \<Rightarrow> (local_target, http_response) op" where
  "fixture_post E path content_length body = tryS is_bad_request
     (bindS (liftS (fixture_body content_length body)) (fixture_route E path))
     (\<lambda>_. liftS (fixture_send 400 [(''error'', PStr ''invalid_request'')] []))"

section \<open>The client\<close>

record http_fixture =
  hf_base :: string
  hf_image :: string

text \<open>\<open>ProtocolRecord(**item)\<close>: a record whose fields hold whatever the item held.\<close>

record raw_record =
  rr_sequence :: pyval
  rr_room :: pyval
  rr_did :: pyval
  rr_nonce :: pyval
  rr_text :: pyval
  rr_signature :: pyval
  rr_upstream :: pyval

definition record_fields :: "string list" where
  "record_fields = [''sequence'', ''room'', ''did'', ''nonce'', ''text'', ''signature'']"

definition raw_record_from :: "pyval \<Rightarrow> raw_record result" where
  "raw_record_from v = (case v of
     PDict kvs \<Rightarrow> raise_if (\<not> set (map fst kvs) \<subseteq> set (''upstream_verified'' # record_fields) \<or> \<not> set record_fields \<subseteq> set (map fst kvs))
       (TypeError ''ProtocolRecord() arguments'')
       (Inr \<lparr>rr_sequence = get_field ''sequence'' kvs, rr_room = get_field ''room'' kvs, rr_did = get_field ''did'' kvs,
          rr_nonce = get_field ''nonce'' kvs, rr_text = get_field ''text'' kvs, rr_signature = get_field ''signature'' kvs,
          rr_upstream = (case map_of kvs ''upstream_verified'' of None \<Rightarrow> PBool False | Some u \<Rightarrow> u)\<rparr>)
   | _ \<Rightarrow> Inl (TypeError ''argument after ** must be a mapping''))"

definition raise_for_status :: "http_response \<Rightarrow> http_response result" where
  "raise_for_status r = raise_if (hr_status r < 200 \<or> 299 < hr_status r) (HttpError ''HTTPStatusError'') (Inr r)"

definition fixture_request :: "string \<Rightarrow> string \<Rightarrow> (string \<times> string) list \<Rightarrow> pyval option \<Rightarrow> http_request" where
  "fixture_request verb target params json = \<lparr>hq_method = verb, hq_target = target, hq_params = params, hq_json = json, hq_body = None\<rparr>"

definition checked_fetch :: "'n network \<Rightarrow> http_request \<Rightarrow> ('n, http_response) op" where
  "checked_fetch N q = bindS (fetch_whole N q) (\<lambda>r. liftS (raise_for_status r))"

definition local_only_hosts :: "string list" where
  "local_only_hosts = [''127.0.0.1'', ''localhost'', ''technocore-local'']"

definition new_http_fixture :: "stdlib \<Rightarrow> 'n network \<Rightarrow> string \<Rightarrow> string \<Rightarrow> ('n, http_fixture) op" where
  "new_http_fixture L N base digest =
     bindS (liftS (urlparse base)) (\<lambda>u.
     raiseS_if (u_scheme u \<noteq> ''http'' \<or> \<not> host_in local_only_hosts u) (ValueError ''container fixture must use an approved local-only HTTP origin'')
     (raiseS_if (\<not> bare_path u \<or> \<not> no_tail u \<or> \<not> no_credentials u) (ValueError ''target must be a fixed origin'')
     (raiseS_if (\<not> starts_with ''sha256:'' digest \<or> length digest \<noteq> 71) (ValueError ''target image must be an immutable sha256 digest'')
     (bindS (checked_fetch N (fixture_request ''GET'' ''/health'' [] None)) (\<lambda>r.
      bindS (liftS (loads_bytes (whole_body r))) (\<lambda>v.
      raiseS_if (\<not> py_eq L v (PDict [(''release'', PStr ''v0.7.0''), (''status'', PStr ''ok'')])) (ValueError ''unexpected local target identity'')
      (retS \<lparr>hf_base = rstrip_char CHR ''/'' base, hf_image = digest\<rparr>)))))))"

definition post_fixture :: "'n network \<Rightarrow> string \<Rightarrow> (string \<times> pyval) list \<Rightarrow> ('n, unit) op" where
  "post_fixture N path body = bindS (checked_fetch N (fixture_request ''POST'' path [] (Some (PDict body)))) (\<lambda>_. retS ())"

definition http_inject_rate_limit :: "'n network \<Rightarrow> string \<Rightarrow> string \<Rightarrow> ('n, unit) op" where
  "http_inject_rate_limit N actor room = post_fixture N ''/_fixture/rate-limit'' [(''actor'', PStr actor), (''room'', PStr room)]"

definition http_inject_uncertain :: "'n network \<Rightarrow> string \<Rightarrow> string \<Rightarrow> ('n, unit) op" where
  "http_inject_uncertain N actor room = post_fixture N ''/_fixture/uncertain-write'' [(''actor'', PStr actor), (''room'', PStr room)]"

definition http_capabilities :: "'n network \<Rightarrow> ('n, (string \<times> pyval) list) op" where
  "http_capabilities N = bindS (checked_fetch N (fixture_request ''GET'' ''/capabilities'' [] None)) (\<lambda>r.
     bindS (liftS (loads_bytes (whole_body r))) (\<lambda>v. case v of
       PDict kvs \<Rightarrow> retS kvs | _ \<Rightarrow> raiseS (ValueError ''invalid capability response'')))"

definition http_create_room :: "'n network \<Rightarrow> string \<Rightarrow> ('n, unit) op" where
  "http_create_room N room = post_fixture N ''/_fixture/rooms'' [(''room'', PStr room)]"

definition http_read_room :: "'n network \<Rightarrow> string \<Rightarrow> int \<Rightarrow> int \<Rightarrow> ('n, raw_record list) op" where
  "http_read_room N room since limit =
     bindS (checked_fetch N (fixture_request ''GET'' (''/rooms/'' @ quote_segment room) [(''since'', str_int since), (''limit'', str_int limit)] None)) (\<lambda>r.
     bindS (liftS (loads_bytes (whole_body r))) (\<lambda>v. case v of
       PDict kvs \<Rightarrow> (case map_of kvs ''records'' of
           Some (PList items) \<Rightarrow> liftS (mapE raw_record_from items)
         | _ \<Rightarrow> raiseS (ValueError ''invalid record response''))
     | _ \<Rightarrow> raiseS (AttributeError ''get'')))"

definition http_post_signed ::
  "'n network \<Rightarrow> string \<Rightarrow> string \<Rightarrow> string \<Rightarrow> int \<Rightarrow> string \<Rightarrow> string \<Rightarrow> ('n, raw_record) op" where
  "http_post_signed N actor room did nonce msg sig =
     bindS (fetch_whole N (fixture_request ''POST'' (''/rooms/'' @ quote_segment room @ ''/signed'') [] (Some (PDict
       [(''actor'', PStr actor), (''did'', PStr did), (''nonce'', PInt nonce), (''text'', PStr msg), (''signature'', PStr sig)])))) (\<lambda>r.
     if hr_status r = 429 then bindS (liftS (int_of_text (header r ''retry-after'' ''1''))) (\<lambda>k. raiseS (RateLimited k))
     else raiseS_if (hr_status r = 599) (UncertainWrite ''container target committed before simulated disconnect'')
       (bindS (liftS (raise_for_status r)) (\<lambda>_. bindS (liftS (loads_bytes (whole_body r))) (\<lambda>v. liftS (raw_record_from v)))))"

section \<open>Both ends\<close>

text \<open>
  What \<open>httpx\<close> sends: the request line of a path with its parameters, which need not be the
  path it was given (it removes the segments \<open>.\<close> and \<open>..\<close>), and the encoded \<open>json=\<close> body.  An exception that leaves the handler of the service closes the connection
  without an answer.
\<close>

record wire =
  wr_path :: "string \<Rightarrow> (string \<times> string) list \<Rightarrow> string"
  wr_json :: "pyval \<Rightarrow> bytes"

definition fixture_network :: "fixture_service \<Rightarrow> wire \<Rightarrow> local_target network" where
  "fixture_network E W q t =
     (let path = wr_path W (hq_target q) (hq_params q); body = (case hq_json q of None \<Rightarrow> [] | Some v \<Rightarrow> wr_json W v) in
      case (if hq_method q = ''GET'' then fixture_get E path else fixture_post E path (Some (str_int (int (length body)))) body) t of
        (Inl _, t') \<Rightarrow> (Inl (HttpError ''RemoteProtocolError''), t')
      | (Inr r, t') \<Rightarrow> (Inr r, t'))"

end
