(* ===== verification/Fixture_Refinement.thy ===== *)
theory Fixture_Refinement
  imports Fixture_Http Printing
begin

text \<open>
  The HTTP client over the HTTP service is the in-memory fixture: every sequence of calls gives
  the same answers and leaves the same rooms, errors being seen as what the transport makes of
  them.
\<close>

section \<open>Percent encoding is undone\<close>

lemma every_char: "list_all P (map char_of [0..<256]) \<Longrightarrow> P c"
proof -
  assume p: "list_all P (map char_of [0..<256])"
  have "code c \<in> set [0..<256]" unfolding set_upt using code_less [of c] by simp
  then have "char_of (code c) \<in> set (map char_of [0..<256])" unfolding list.set_map by (rule imageI)
  with p have "P (char_of (code c))" unfolding list_all_iff by blast
  then show "P c" by simp
qed

lemma unreserved_char: "unreserved c \<Longrightarrow> code c < 128 \<and> c \<noteq> CHR ''%''"
proof -
  have "list_all (\<lambda>c. unreserved c \<longrightarrow> code c < 128 \<and> c \<noteq> CHR ''%'') (map char_of [0..<256])" by code_simp
  from every_char [OF this] show "unreserved c \<Longrightarrow> code c < 128 \<and> c \<noteq> CHR ''%''" by blast
qed

lemma hex_byte_upper: "hex_byte (upper_hex (code c div 16)) (upper_hex (code c mod 16)) = Some c"
proof -
  have "list_all (\<lambda>c. hex_byte (upper_hex (code c div 16)) (upper_hex (code c mod 16)) = Some c) (map char_of [0..<256])" by code_simp
  from every_char [OF this] show ?thesis .
qed

lemma percent_bytes_other: "c \<noteq> CHR ''%'' \<Longrightarrow> percent_bytes (c # t) = utf8_char c @ percent_bytes t"
  by (auto split: list.split)

lemma percent_bytes_quote: "percent_bytes (quote_byte c @ t) = c # percent_bytes t"
proof (cases "unreserved c")
  case True
  then show ?thesis using unreserved_char [OF True]
    by (simp add: quote_byte_def percent_bytes_other utf8_char_def del: percent_bytes.simps)
qed (simp add: quote_byte_def hex_byte_upper)

lemma percent_bytes_segment: "percent_bytes (quote_segment s) = utf8 s"
proof -
  have "percent_bytes (concat (map quote_byte bs)) = bs" for bs
    by (induction bs) (auto simp: percent_bytes_quote)
  then show ?thesis by (simp add: quote_segment_def)
qed

lemma unquote_segment: "unquote_text L (quote_segment s) = s"
  by (simp add: unquote_text_def percent_bytes_segment)

text \<open>A text with every escape complete.\<close>

fun escaped :: "string \<Rightarrow> bool" where
  "escaped [] = True"
| "escaped (c # s) = (if c = CHR ''%'' then (case s of a # b # r \<Rightarrow> hex_byte a b \<noteq> None \<and> escaped r | _ \<Rightarrow> False)
     else (unreserved c \<or> c = CHR ''/'') \<and> escaped s)"

lemma escaped_quote: "escaped (quote_byte c @ t) = escaped t"
proof (cases "unreserved c")
  case True
  then show ?thesis using unreserved_char [OF True] by (simp add: quote_byte_def)
qed (simp add: quote_byte_def hex_byte_upper)

lemma escaped_segment: "escaped (quote_segment s @ t) = escaped t"
proof -
  have "escaped (concat (map quote_byte bs) @ t) = escaped t" for bs by (induction bs) (auto simp: escaped_quote)
  then show ?thesis by (simp add: quote_segment_def)
qed

definition segment_char :: "char \<Rightarrow> bool" where
  "segment_char c = (unreserved c \<or> c = CHR ''%'')"

lemma segment_chars: "list_all segment_char (quote_segment s)"
proof -
  have hex: "unreserved (upper_hex n)" if "n < 16" for n
  proof -
    have "list_all (\<lambda>n. unreserved (upper_hex n)) [0..<16]" by code_simp
    then show ?thesis using that by (simp add: list_all_iff)
  qed
  have "list_all segment_char (quote_byte c)" for c
    using code_less [of c] by (auto simp: quote_byte_def segment_char_def hex less_mult_imp_div_less)
  then have "list_all segment_char (concat (map quote_byte bs))" for bs by (induction bs) auto
  then show ?thesis by (simp add: quote_segment_def)
qed

text \<open>
  A path that \<open>httpx\<close> leaves on the wire as it is: every escape is complete, no segment is one of the dot
  segments (which it takes for steps of a relative path and removes), and it is far below the length of a URL
  that \<open>httpx\<close> and of a request line that \<open>http.server\<close> refuses (65536).
\<close>

definition kept_path :: "string \<Rightarrow> bool" where
  "kept_path p = (escaped p \<and> length p \<le> 16384 \<and> (\<forall>x \<in> set (split_on CHR ''/'' p). x \<notin> {''.'', ''..''}))"

text \<open>The rooms that have a path of their own.\<close>

definition room_fits :: "string \<Rightarrow> bool" where
  "room_fits room = (room \<notin> {''.'', ''..''} \<and> length (quote_segment room) \<le> 8192)"

lemma dot_segment: "quote_segment room \<in> {''.'', ''..''} \<longleftrightarrow> room \<in> {''.'', ''..''}"
proof -
  have q: "quote_segment ''.'' = ''.''" "quote_segment ''..'' = ''..''" by code_simp+
  have "room = room'" if "quote_segment room = quote_segment room'" for room'
    using that unquote_segment [of undefined] by metis
  then show ?thesis using q by (metis insert_iff singletonD)
qed

lemma segment_split:
  "split_on CHR ''/'' (quote_segment room) = [quote_segment room]"
  "split_on CHR ''/'' (quote_segment room @ CHR ''/'' # t) = quote_segment room # split_on CHR ''/'' t"
proof -
  have "\<not> segment_char CHR ''/''" by code_simp
  then have "CHR ''/'' \<notin> set (quote_segment room)" using segment_chars [of room] by (auto simp: list_all_iff)
  then show "split_on CHR ''/'' (quote_segment room) = [quote_segment room]"
    "split_on CHR ''/'' (quote_segment room @ CHR ''/'' # t) = quote_segment room # split_on CHR ''/'' t"
    by (rule split_on_none split_on_append)+
qed

lemma kept_rooms:
  assumes "room_fits room" and t: "t = [] \<or> t = ''/signed''"
  shows "kept_path (''/rooms/'' @ quote_segment room @ t)"
proof -
  have u: "unreserved CHR ''r''" "unreserved CHR ''o''" "unreserved CHR ''m''" "unreserved CHR ''s''" by code_simp+
  have "escaped t" using t by (elim disjE) (simp, hypsubst, code_simp)
  then have e: "escaped (''/rooms/'' @ quote_segment room @ t)" using u by (simp add: escaped_segment)
  have c: "CHR ''/'' \<notin> set ''rooms''" "CHR ''/'' \<notin> set ''signed''" by simp_all
  have "split_on CHR ''/'' (''/rooms/'' @ x) = [] # ''rooms'' # split_on CHR ''/'' x" for x
    using split_on_append [OF c(1), of x] split_on_append [of "CHR ''/''" "[]" "''rooms/'' @ x"] by simp
  moreover have "split_on CHR ''/'' (quote_segment room @ t) \<in> {[quote_segment room], [quote_segment room, ''signed'']}"
    using t segment_split [of room] split_on_none [OF c(2)] by auto
  ultimately have "set (split_on CHR ''/'' (''/rooms/'' @ quote_segment room @ t)) \<subseteq> {[], ''rooms'', quote_segment room, ''signed''}"
    by auto
  moreover have "quote_segment room \<notin> {''.'', ''..''}" using assms(1) unfolding dot_segment by (simp add: room_fits_def)
  ultimately have "\<forall>x \<in> set (split_on CHR ''/'' (''/rooms/'' @ quote_segment room @ t)). x \<notin> {''.'', ''..''}" by fastforce
  moreover have "length (''/rooms/'' @ quote_segment room @ t) \<le> 16384" using assms by (auto simp: room_fits_def)
  ultimately show ?thesis using e by (simp add: kept_path_def)
qed

section \<open>Numbers and request lines\<close>

lemma int_of_str_int:
  assumes "\<bar>i\<bar> < 10 ^ 100" shows "int_of_text (str_int i) = Inr i"
proof -
  define n where "n = nat \<bar>i\<bar>"
  have n: "n < 10 ^ 100" using assms by (simp add: n_def nat_less_iff)
  have s: "str_int i = (if i < 0 then [CHR ''-''] else []) @ dec_digits n" by (simp add: str_int_def n_def)
  have digits: "list_all is_ascii_digit (dec_digits n)" using dec_digits_digits [of n] by (simp add: list_all_iff)
  have len: "length (dec_digits n) \<le> 4300" using length_dec_digits [OF n] by simp
  have "\<not> is_space c" if "is_ascii_digit c \<or> c = CHR ''-''" for c
  proof -
    have "list_all (\<lambda>c. is_ascii_digit c \<or> c = CHR ''-'' \<longrightarrow> \<not> is_space c) (map char_of [0..<256])" by code_simp
    from every_char [OF this] that show ?thesis by blast
  qed
  moreover have "hd (str_int i) \<in> set (str_int i)" "last (str_int i) \<in> set (str_int i)" by (simp_all add: s)
  moreover have "\<forall>c \<in> set (str_int i). is_ascii_digit c \<or> c = CHR ''-''" using digits by (auto simp: s list_all_iff)
  ultimately have strip: "strip (str_int i) = str_int i" by (intro strip_id) (auto simp: s)
  have nondigit: "\<not> is_ascii_digit (CHR ''_'')" "\<not> is_ascii_digit (CHR ''-'')" "\<not> is_ascii_digit (CHR ''+'')" by code_simp+
  then have "CHR ''_'' \<notin> set (dec_digits n)" using digits by (auto simp: list_all_iff)
  then have split: "split_on CHR ''_'' (dec_digits n) = [dec_digits n]" by (rule split_on_none)
  have h: "hd (dec_digits n) \<noteq> CHR ''-''" "hd (dec_digits n) \<noteq> CHR ''+''"
    using nondigit(2,3) hd_in_set [OF dec_digits_nonempty [of n]] digits unfolding list_all_iff by metis+
  have f: "filter is_ascii_digit (dec_digits n) = dec_digits n" using digits by (simp add: filter_id_conv list_all_iff)
  show ?thesis unfolding int_of_text_def Let_def strip using digits len h split f by (auto simp: s n_def)
qed

lemma str_int_chars: "list_all unreserved (str_int i)"
proof -
  have "unreserved c" if "is_ascii_digit c \<or> c = CHR ''-''" for c using that by (auto simp: unreserved_def)
  then show ?thesis using dec_digits_digits by (auto simp: str_int_def list_all_iff)
qed

definition line_char :: "char \<Rightarrow> bool" where
  "line_char c = (segment_char c \<or> c \<in> {CHR ''/'', CHR ''='', CHR ''&''})"

lemma line_chars:
  assumes "line_char c"
  shows "c \<notin> {CHR '':'', CHR ''?'', CHR ''#'', CHR '';'', CHR 0x09, CHR 0x0A, CHR 0x0D, CHR ''+''} \<and> 32 < code c"
proof -
  have "list_all (\<lambda>c. line_char c \<longrightarrow> c \<notin> {CHR '':'', CHR ''?'', CHR ''#'', CHR '';'', CHR 0x09, CHR 0x0A, CHR 0x0D, CHR ''+''} \<and> 32 < code c)
      (map char_of [0..<256])" by code_simp
  from every_char [OF this] assms show ?thesis by blast
qed

lemma urlparse_line:
  assumes p: "list_all line_char p" "starts_with ''/'' p" "\<not> starts_with ''//'' p" and q: "list_all line_char q"
  shows "urlparse (p @ CHR ''?'' # q) = Inr \<lparr>u_scheme = [], u_netloc = [], u_path = p, u_query = q, u_fragment = []\<rparr>"
proof -
  let ?s = "p @ CHR ''?'' # q"
  from p(2) obtain r where r: "p = CHR ''/'' # r" by (auto simp: starts_with_iff)
  have chars: "\<forall>c \<in> set p \<union> set q. c \<notin> {CHR '':'', CHR ''?'', CHR ''#'', CHR '';'', CHR 0x09, CHR 0x0A, CHR 0x0D} \<and> 32 < code c"
    using p(1) q line_chars by (auto simp: list_all_iff)
  have "\<not> code CHR ''/'' \<le> 32" "CHR ''?'' \<noteq> CHR '':''" by code_simp+
  then have clean: "clean_url ?s = ?s" using chars by (auto simp: clean_url_def r filter_id_conv)
  have a: "partition_at CHR '':'' ?s = (?s, False, [])" "partition_at CHR ''#'' ?s = (?s, False, [])" "partition_at CHR ''?'' ?s = (p, True, q)"
    by (rule partition_at_none partition_at_append; use chars in auto)+
  have "\<not> starts_with ''//'' ?s" using p(3) by (cases r) (auto simp: starts_with_def r)
  then have split: "urlsplit ?s = Inr \<lparr>u_scheme = [], u_netloc = [], u_path = p, u_query = q, u_fragment = []\<rparr>"
    by (simp add: urlsplit_def Let_def split_scheme_def clean a split_netloc_def netloc_ok_def)
  have "strip_params p = p"
  proof -
    obtain x f y where x: "partition_at CHR ''/'' (rev p) = (x, f, y)" by (cases "partition_at CHR ''/'' (rev p)") auto
    from partition_at_cases [OF x] have f: "f" "rev p = x @ CHR ''/'' # y" by (auto simp: r split: if_splits)
    then have "p = rev y @ CHR ''/'' # rev x" by (metis append.assoc append_Cons append_Nil rev.simps(2) rev_append rev_rev_ident)
    moreover from this have "CHR '';'' \<notin> set (rev x)" using chars by (metis UnCI in_set_conv_decomp insertCI set_append list.set_intros(2) Un_iff)
    ultimately show ?thesis using x f(1) by (simp add: strip_params_def rpartition_at_def partition_at_none)
  qed
  then show ?thesis by (simp add: urlparse_def split param_schemes_def)
qed

section \<open>The wire\<close>

text \<open>
  What \<open>httpx\<close> documents: the parameters follow the path after a question mark, a path that
  \<open>kept_path\<close> describes is not changed, and the body of a flat dict decodes to a dict with its entries.
\<close>

definition flat_body :: "(string \<times> pyval) list \<Rightarrow> bool" where
  "flat_body kvs = (distinct (map fst kvs) \<and> list_all (\<lambda>(_, v). case v of PStr _ \<Rightarrow> True | PInt i \<Rightarrow> \<bar>i\<bar> < 10 ^ 100 | _ \<Rightarrow> False) kvs)"

definition query_line :: "(string \<times> string) list \<Rightarrow> string" where
  "query_line ps = join ''&'' (map (\<lambda>(k, v). k @ ''='' @ v) ps)"

definition wire_ok :: "wire \<Rightarrow> bool" where
  "wire_ok W = ((\<forall>p. kept_path p \<longrightarrow> wr_path W p [] = p)
     \<and> (\<forall>p ps. kept_path p \<longrightarrow> ps \<noteq> [] \<longrightarrow> list_all (\<lambda>(k, v). list_all unreserved k \<and> list_all unreserved v) ps \<longrightarrow>
          wr_path W p ps = p @ ''?'' @ query_line ps)
     \<and> (\<forall>kvs. flat_body kvs \<longrightarrow> (\<exists>kvs'. loads_bytes (wr_json W (PDict kvs)) = Inr (PDict kvs') \<and> map_of kvs' = map_of kvs)))"

lemma exact_keys_map: "map_of kvs = map_of kvs' \<Longrightarrow> exact_keys names kvs = exact_keys names kvs'"
  unfolding exact_keys_def by (metis dom_map_of_conv_image_fst set_map)

lemma fixture_body_reads:
  assumes "wire_ok W" "flat_body kvs" "length (wr_json W (PDict kvs)) \<le> 16384"
  shows "\<exists>kvs'. fixture_body (Some (str_int (int (length (wr_json W (PDict kvs)))))) (wr_json W (PDict kvs)) = Inr kvs' \<and> map_of kvs' = map_of kvs"
proof -
  let ?b = "wr_json W (PDict kvs)"
  from assms(1,2) obtain kvs' where k: "loads_bytes ?b = Inr (PDict kvs')" "map_of kvs' = map_of kvs" by (auto simp: wire_ok_def)
  have "loads_bytes [] = Inl (ValueError ''Expecting value'')" by code_simp
  then have "?b \<noteq> []" using k(1) by auto
  moreover have "\<bar>int (length ?b)\<bar> < 10 ^ 100"
  proof -
    have "int (length ?b) \<le> 16384" using assms(3) by simp
    also have "\<dots> < 10 ^ 100" by simp
    finally show ?thesis by simp
  qed
  ultimately show ?thesis using k assms(3) by (auto simp: fixture_body_def int_of_str_int)
qed

section \<open>Answers\<close>

lemma fixture_send_plain:
  assumes "plain (PDict body)"
  shows "\<exists>r. fixture_send status body headers = Inr r \<and> hr_status r = status \<and> \<not> hr_broken r
    \<and> (\<forall>k. k \<notin> {''content-type'', ''content-length''} \<longrightarrow> map_of (hr_headers r) k = map_of headers k)
    \<and> (status \<noteq> 204 \<longrightarrow> loads_bytes (whole_body r) = Inr (norm (PDict body)))"
proof -
  from plain_dumps [OF assms] obtain t where t: "dumps True (PDict body) = Inr t" by blast
  from loads_dumps [OF plain_wf(1) [OF assms] t] show ?thesis
    by (simp add: fixture_send_def t Let_def whole_body_def loads_bytes_def del: dumps.simps norm.simps)
qed

definition raw_record_of :: "protocol_record \<Rightarrow> raw_record" where
  "raw_record_of r = \<lparr>rr_sequence = PInt (p_sequence r), rr_room = PStr (p_room r), rr_did = PStr (p_did r), rr_nonce = PInt (p_nonce r),
     rr_text = PStr (p_text r), rr_signature = PStr (p_signature r), rr_upstream = PBool (p_upstream r)\<rparr>"

definition sendable :: "protocol_record \<Rightarrow> bool" where
  "sendable r = (\<bar>p_sequence r\<bar> < 10 ^ 100 \<and> \<bar>p_nonce r\<bar> < 10 ^ 100 \<and> \<not> p_upstream r)"

lemma plain_record: "sendable r \<Longrightarrow> plain (PDict (record_dict r))"
  by (simp add: record_dict_def sendable_def)

lemma raw_record_reads: "\<not> p_upstream r \<Longrightarrow> raw_record_from (norm (PDict (record_dict r))) = Inr (raw_record_of r)"
proof -
  assume u: "\<not> p_upstream r"
  let ?s = "sort_key fst (norm_items (record_dict r))"
  have k: "set (map fst ?s) = set record_fields" by (auto simp: record_dict_def record_fields_def)
  have d: "distinct (map fst (record_dict r))" by (simp add: record_dict_def)
  have m: "map_of ?s x = map_option norm (map_of (record_dict r) x)" for x using map_of_printed [OF d] .
  show ?thesis using u unfolding raw_record_from_def norm.simps pyval.case k
    by (simp add: m get_field_def record_dict_def raw_record_of_def) (auto simp: record_fields_def)
qed

section \<open>One request\<close>

lemma fetch_reply: "N q t = (Inr r, t') \<Longrightarrow> \<not> hr_broken r \<Longrightarrow> fetch_whole N q t = (Inr r, t')"
  by (simp add: fetch_whole_def bindS_pair)

lemma fetch_failure: "N q t = (Inl e, t') \<Longrightarrow> fetch_whole N q t = (Inl e, t')"
  by (simp add: fetch_whole_def bindS_pair)

text \<open>A post whose body fits reaches its route with the entries that were sent.\<close>

lemma posted:
  assumes W: "wire_ok W" "flat_body kvs" "length (wr_json W (PDict kvs)) \<le> 16384" and p: "kept_path p"
  shows "\<exists>kvs'. map_of kvs' = map_of kvs \<and> fixture_network E W (fixture_request ''POST'' p [] (Some (PDict kvs))) t
    = (case fixture_route E p kvs' t of (Inr r, t') \<Rightarrow> (Inr r, t')
       | (Inl e, t') \<Rightarrow> if is_bad_request e then (case fixture_send 400 [(''error'', PStr ''invalid_request'')] [] of
           Inr r \<Rightarrow> (Inr r, t') | Inl _ \<Rightarrow> (Inl (HttpError ''RemoteProtocolError''), t'))
         else (Inl (HttpError ''RemoteProtocolError''), t'))"
proof -
  from fixture_body_reads [OF W] obtain kvs' where k: "map_of kvs' = map_of kvs"
    "fixture_body (Some (str_int (int (length (wr_json W (PDict kvs)))))) (wr_json W (PDict kvs)) = Inr kvs'" by blast
  have "wr_path W p [] = p" using W(1) p by (simp add: wire_ok_def)
  with k show ?thesis
    by (auto simp: fixture_network_def fixture_request_def fixture_post_def tryS_def bindS_liftS split: prod.split sum.split intro!: exI [of _ kvs'])
qed

text \<open>The answer to a refused request.\<close>

lemma refused_reply:
  obtains r where "fixture_send 400 [(''error'', PStr ''invalid_request'')] [] = Inr r" "hr_status r = 400" "\<not> hr_broken r"
proof -
  have "plain (PDict [(''error'', PStr ''invalid_request'')])" by simp
  from fixture_send_plain [OF this] that show thesis by blast
qed

lemma plain_reply:
  assumes "plain (PDict body)"
  obtains r where "fixture_send status body headers = Inr r" "hr_status r = status" "\<not> hr_broken r"
    "\<forall>k. k \<notin> {''content-type'', ''content-length''} \<longrightarrow> map_of (hr_headers r) k = map_of headers k"
    "status \<noteq> 204 \<Longrightarrow> loads_bytes (whole_body r) = Inr (norm (PDict body))"
  using fixture_send_plain [OF assms, of status headers] by blast

lemma body_text_of: "map_of kvs' = map_of kvs \<Longrightarrow> map_of kvs k = Some (PStr s) \<Longrightarrow> body_text E kvs' k = s"
  by (simp add: body_text_def text_of_def)

lemma fixture_post_done:
  assumes W: "wire_ok W" "flat_body kvs" "length (wr_json W (PDict kvs)) \<le> 16384" and p: "kept_path p"
    and ok: "\<And>kvs'. map_of kvs' = map_of kvs \<Longrightarrow> fixture_route E p kvs' t = (case m t of (Inl e, t') \<Rightarrow> (Inl e, t') | (Inr u, t') \<Rightarrow> (fixture_send s b [], t'))"
    and s: "plain (PDict b)" "200 \<le> s" "s \<le> 299" and e: "\<And>e. fst (m t) = Inl e \<Longrightarrow> is_bad_request e"
  shows "post_fixture (fixture_network E W) p kvs t = (case m t of (Inl e, t') \<Rightarrow> (Inl (HttpError ''HTTPStatusError''), t') | (Inr u, t') \<Rightarrow> (Inr (), t'))"
proof -
  let ?N = "fixture_network E W" and ?q = "fixture_request ''POST'' p [] (Some (PDict kvs))"
  from posted [OF W p] obtain kvs' where k: "map_of kvs' = map_of kvs" and q: "?N ?q t
    = (case fixture_route E p kvs' t of (Inr r, t') \<Rightarrow> (Inr r, t')
       | (Inl e, t') \<Rightarrow> if is_bad_request e then (case fixture_send 400 [(''error'', PStr ''invalid_request'')] [] of
           Inr r \<Rightarrow> (Inr r, t') | Inl _ \<Rightarrow> (Inl (HttpError ''RemoteProtocolError''), t'))
         else (Inl (HttpError ''RemoteProtocolError''), t'))" by blast
  obtain r where r: "fixture_send s b [] = Inr r" "hr_status r = s" "\<not> hr_broken r" using plain_reply [OF s(1)] by blast
  obtain r' where r': "fixture_send 400 [(''error'', PStr ''invalid_request'')] [] = Inr r'" "hr_status r' = 400" "\<not> hr_broken r'"
    using refused_reply by blast
  obtain x t' where m: "m t = (x, t')" by (cases "m t")
  show ?thesis
  proof (cases x)
    case (Inl err)
    with m e have "is_bad_request err" by simp
    with q ok [OF k] m Inl r' have "?N ?q t = (Inr r', t')" by simp
    from fetch_reply [where N = ?N, OF this r'(3)] show ?thesis
      by (simp add: post_fixture_def checked_fetch_def bindS_def m Inl raise_for_status_def r')
  next
    case (Inr u)
    with q ok [OF k] m r have "?N ?q t = (Inr r, t')" by simp
    from fetch_reply [where N = ?N, OF this r(3)] show ?thesis
      using s by (simp add: post_fixture_def checked_fetch_def bindS_def m Inr raise_for_status_def r)
  qed
qed

section \<open>The calls\<close>

lemma http_create_refines:
  assumes W: "wire_ok W" "length (wr_json W (PDict [(''room'', PStr room)])) \<le> 16384"
  shows "http_create_room (fixture_network E W) room t
    = (case local_create_room room t of (Inl e, t') \<Rightarrow> (Inl (HttpError ''HTTPStatusError''), t') | (Inr u, t') \<Rightarrow> (Inr (), t'))"
  unfolding http_create_room_def
proof (rule fixture_post_done [OF W(1) _ W(2)])
  show "flat_body [(''room'', PStr room)]" by (simp add: flat_body_def)
  show "kept_path ''/_fixture/rooms''" by code_simp
  show "plain (PDict [(''created'', PBool True)])" "200 \<le> (201::int)" "201 \<le> (299::int)" by simp_all
  show "fst (local_create_room room t) = Inl e \<Longrightarrow> is_bad_request e" for e
    by (auto simp: local_create_room_def raiseS_if_def split: if_splits)
  fix kvs' assume k: "map_of kvs' = map_of [(''room'', PStr room)]"
  have x: "exact_keys [''room''] kvs'" unfolding exact_keys_map [OF k] by (simp add: exact_keys_def)
  have b: "body_text E kvs' ''room'' = room" by (rule body_text_of [OF k]) simp
  show "fixture_route E ''/_fixture/rooms'' kvs' t = (case local_create_room room t of (Inl e, t') \<Rightarrow> (Inl e, t')
      | (Inr u, t') \<Rightarrow> (fixture_send 201 [(''created'', PBool True)] [], t'))"
    by (simp add: fixture_route_def x b bindS_def split: prod.split sum.split)
qed

lemma http_inject_refines:
  assumes W: "wire_ok W" "length (wr_json W (PDict [(''actor'', PStr actor), (''room'', PStr room)])) \<le> 16384"
  shows "http_inject_rate_limit (fixture_network E W) actor room t = local_inject_rate_limit actor room t" (is "?limit")
    and "http_inject_uncertain (fixture_network E W) actor room t = local_inject_uncertain actor room t" (is "?lose")
proof -
  let ?kvs = "[(''actor'', PStr actor), (''room'', PStr room)]"
  have flat: "flat_body ?kvs" by (simp add: flat_body_def)
  have esc: "kept_path ''/_fixture/rate-limit''" "kept_path ''/_fixture/uncertain-write''" by code_simp+
  have paths: "''/_fixture/rate-limit'' \<noteq> ''/_fixture/rooms''" "''/_fixture/uncertain-write'' \<noteq> ''/_fixture/rooms''"
    "ends_with ''rate-limit'' ''/_fixture/rate-limit''" "\<not> ends_with ''rate-limit'' ''/_fixture/uncertain-write''" by code_simp+
  have plain: "plain (PDict [])" "200 \<le> (204::int)" "204 \<le> (299::int)" by simp_all
  have k: "exact_keys [''actor'', ''room''] kvs'" "body_text E kvs' ''actor'' = actor" "body_text E kvs' ''room'' = room"
    if "map_of kvs' = map_of ?kvs" for kvs'
  proof -
    show "exact_keys [''actor'', ''room''] kvs'" unfolding exact_keys_map [OF that] by (simp add: exact_keys_def)
    show "body_text E kvs' ''actor'' = actor" "body_text E kvs' ''room'' = room" by (rule body_text_of [OF that]; simp)+
  qed
  have "post_fixture (fixture_network E W) ''/_fixture/rate-limit'' ?kvs t
      = (case local_inject_rate_limit actor room t of (Inl e, t') \<Rightarrow> (Inl (HttpError ''HTTPStatusError''), t') | (Inr u, t') \<Rightarrow> (Inr (), t'))"
    by (rule fixture_post_done [where s = 204 and b = "[]", OF W(1) flat W(2) esc(1) _ plain])
      (simp_all add: fixture_route_def k paths fixture_inject_def local_inject_rate_limit_def bindS_putS)
  then show ?limit by (simp add: http_inject_rate_limit_def local_inject_rate_limit_def)
  have "post_fixture (fixture_network E W) ''/_fixture/uncertain-write'' ?kvs t
      = (case local_inject_uncertain actor room t of (Inl e, t') \<Rightarrow> (Inl (HttpError ''HTTPStatusError''), t') | (Inr u, t') \<Rightarrow> (Inr (), t'))"
    by (rule fixture_post_done [where s = 204 and b = "[]", OF W(1) flat W(2) esc(2) _ plain])
      (simp_all add: fixture_route_def k paths fixture_inject_def local_inject_uncertain_def bindS_putS)
  then show ?lose by (simp add: http_inject_uncertain_def local_inject_uncertain_def)
qed

lemma rooms_line: "list_all line_char (''/rooms/'' @ quote_segment room)"
proof -
  have "list_all line_char ''/rooms/''" by code_simp
  moreover have "list_all line_char (quote_segment room)"
    by (rule list.pred_mono_strong [OF segment_chars]) (simp add: line_char_def)
  ultimately show ?thesis by simp
qed

text \<open>The query of a read, as it is sent and as the service reads it.\<close>

definition since_limit :: "int \<Rightarrow> int \<Rightarrow> (string \<times> string) list" where
  "since_limit since limit = [(''since'', str_int since), (''limit'', str_int limit)]"

lemma unreserved_plain: "unreserved c \<Longrightarrow> c \<notin> {CHR ''+'', CHR ''%'', CHR ''&'', CHR ''=''} \<and> line_char c"
proof -
  have "list_all (\<lambda>c. unreserved c \<longrightarrow> c \<notin> {CHR ''+'', CHR ''%'', CHR ''&'', CHR ''=''} \<and> line_char c) (map char_of [0..<256])" by code_simp
  from every_char [OF this] show "unreserved c \<Longrightarrow> c \<notin> {CHR ''+'', CHR ''%'', CHR ''&'', CHR ''=''} \<and> line_char c" by blast
qed

lemma unquote_plain: "list_all unreserved s \<Longrightarrow> unquote f s = s"
proof -
  assume s: "list_all unreserved s"
  then have c: "\<forall>c \<in> set s. c \<noteq> CHR ''+'' \<and> c \<noteq> CHR ''%''" using unreserved_plain by (auto simp: list_all_iff)
  then have "map (\<lambda>c. if c = CHR ''+'' then CHR '' '' else c) s = s" by (simp add: map_idI)
  moreover have "CHR ''%'' \<notin> set s" using c by blast
  ultimately show ?thesis by (simp add: unquote_def)
qed

lemma since_limit_line: "list_all line_char (query_line (since_limit since limit))"
proof -
  have "list_all line_char ''since=''" "list_all line_char ''&limit=''" by code_simp+
  moreover have "list_all line_char (str_int i)" for i
    by (rule list.pred_mono_strong [OF str_int_chars]) (use unreserved_plain in blast)
  ultimately show ?thesis by (simp add: query_line_def since_limit_def)
qed

lemma since_limit_parsed: "parse_qs_filled f (query_line (since_limit since limit)) = [(''since'', [str_int since]), (''limit'', [str_int limit])]"
proof -
  have no: "CHR ''&'' \<notin> set (str_int i)" for i using str_int_chars [of i] unreserved_plain by (auto simp: list_all_iff)
  have ne: "str_int i \<noteq> []" for i by (simp add: str_int_def)
  have keys: "list_all unreserved ''since''" "list_all unreserved ''limit''" by code_simp+
  have amp: "CHR ''&'' \<notin> set (''since='' @ str_int since)" "CHR ''&'' \<notin> set (''limit='' @ str_int limit)" using no by simp_all
  have "query_line (since_limit since limit) = (''since='' @ str_int since) @ CHR ''&'' # (''limit='' @ str_int limit)"
    by (simp add: query_line_def since_limit_def)
  then have "split_on CHR ''&'' (query_line (since_limit since limit)) = [''since='' @ str_int since, ''limit='' @ str_int limit]"
    using split_on_append [OF amp(1), of "''limit='' @ str_int limit"] split_on_none [OF amp(2)] by (simp only:)
  then show ?thesis
    using unquote_plain [OF keys(1)] unquote_plain [OF keys(2)] unquote_plain [OF str_int_chars]
    by (simp add: parse_qs_filled_def ne group_pairs_def dict_put_def)
qed

lemma http_read_refines:
  assumes W: "wire_ok W" and room: "room_fits room" and small: "\<bar>since\<bar> < 10 ^ 100" "\<bar>limit\<bar> < 10 ^ 100" and log: "\<forall>r \<in> set (local_log t room). sendable r"
  shows "http_read_room (fixture_network E W) room since limit t
    = (case local_read_room room since limit t of (Inl e, t') \<Rightarrow> (Inl (HttpError ''RemoteProtocolError''), t')
       | (Inr rs, t') \<Rightarrow> (Inr (map raw_record_of rs), t'))"
proof -
  let ?N = "fixture_network E W" and ?p = "''/rooms/'' @ quote_segment room"
  let ?q = "fixture_request ''GET'' ?p [(''since'', str_int since), (''limit'', str_int limit)] None"
  have "kept_path ?p" using kept_rooms [OF room, of "[]"] by simp
  moreover have "list_all unreserved ''since''" "list_all unreserved ''limit''" by code_simp+
  ultimately have path: "wr_path W ?p (since_limit since limit) = ?p @ CHR ''?'' # query_line (since_limit since limit)"
    using W str_int_chars unfolding wire_ok_def by (simp add: since_limit_def)
  have url: "urlparse (?p @ CHR ''?'' # query_line (since_limit since limit))
      = Inr \<lparr>u_scheme = [], u_netloc = [], u_path = ?p, u_query = query_line (since_limit since limit), u_fragment = []\<rparr>"
    by (rule urlparse_line [OF rooms_line _ _ since_limit_line]) (simp_all add: starts_with_def)
  have route: "?p \<noteq> ''/health''" "?p \<noteq> ''/capabilities''" "starts_with ''/rooms/'' ?p" "remove_prefix ''/rooms/'' ?p = quote_segment room"
    by (simp_all add: starts_with_def remove_prefix_def)
  have ints: "int_of_text (str_int since) = Inr since" "int_of_text (str_int limit) = Inr limit"
    by (rule int_of_str_int, rule small)+
  obtain x t' where l: "local_read_room room since limit t = (x, t')" by (cases "local_read_room room since limit t")
  have get: "fixture_get E (?p @ CHR ''?'' # query_line (since_limit since limit)) t
      = (case x of Inl e \<Rightarrow> (Inl e, t') | Inr rs \<Rightarrow> (fixture_send 200 [(''records'', PList (map (\<lambda>r. PDict (record_dict r)) rs))] [], t'))"
    unfolding fixture_get_def url using route
    by (simp add: bindS_liftS Let_def unquote_segment since_limit_parsed query_int_def ints bindS_def l split: sum.split)
  show ?thesis
  proof (cases x)
    case (Inl e)
    have "?N ?q t = (Inl (HttpError ''RemoteProtocolError''), t')"
      using get Inl path by (simp add: fixture_network_def fixture_request_def since_limit_def)
    from fetch_failure [where N = ?N, OF this] show ?thesis
      by (simp add: http_read_room_def checked_fetch_def bindS_def l Inl)
  next
    case (Inr rs)
    then have rs: "\<forall>r \<in> set rs. sendable r"
      using l log by (auto simp: local_read_room_def raiseS_if_def split: if_splits dest!: in_set_takeD)
    then have "plain_list (map (\<lambda>r. PDict (record_dict r)) rs)"
      unfolding plain_list_iff using plain_record by (auto simp del: plain.simps)
    then have "plain (PDict [(''records'', PList (map (\<lambda>r. PDict (record_dict r)) rs))])" by simp
    from plain_reply [OF this, of 200 "[]"] obtain r where r: "fixture_send 200 [(''records'', PList (map (\<lambda>r. PDict (record_dict r)) rs))] [] = Inr r"
      "hr_status r = 200" "\<not> hr_broken r" "loads_bytes (whole_body r) = Inr (norm (PDict [(''records'', PList (map (\<lambda>r. PDict (record_dict r)) rs))]))"
      by auto
    have items: "mapE raw_record_from (map (\<lambda>r. norm (PDict (record_dict r))) rs) = Inr (map raw_record_of rs)"
      using rs by (induction rs) (simp_all add: raw_record_reads sendable_def del: norm.simps)
    have "?N ?q t = (Inr r, t')"
      using get Inr path r(1) by (simp add: fixture_network_def fixture_request_def since_limit_def)
    from fetch_reply [where N = ?N, OF this r(3)] show ?thesis
      using r items by (simp add: http_read_room_def checked_fetch_def bindS_def raise_for_status_def norm_list_map comp_def l Inr)
  qed
qed

lemma local_post_errors:
  assumes "local_post_signed C actor room did nonce msg sig t = (Inl e, t')"
  shows "e = RateLimited 1 \<or> (\<exists>s. e = UncertainWrite s) \<or> (\<exists>s. e = ValueError s)"
  using assms by (auto simp: local_post_signed_def local_store_def Let_def signed_room_payload_def sweep_text_def
      raise_if_eq_Inl bindE_eq_Inl split: if_splits sum.splits option.splits)

lemma local_post_record:
  assumes "local_post_signed C actor room did nonce msg sig t = (Inr r, t')"
  shows "r \<in> set (local_log t room) \<or> r = make_record (lt_next t) room did nonce msg sig"
  using assms by (auto simp: local_post_signed_def local_store_def Let_def dest: find_Some_in split: if_splits sum.splits option.splits)

definition post_body :: "string \<Rightarrow> string \<Rightarrow> int \<Rightarrow> string \<Rightarrow> string \<Rightarrow> (string \<times> pyval) list" where
  "post_body actor did nonce msg sig =
     [(''actor'', PStr actor), (''did'', PStr did), (''nonce'', PInt nonce), (''text'', PStr msg), (''signature'', PStr sig)]"

text \<open>What the client makes of an error of the fixture.\<close>

definition post_error :: "exn \<Rightarrow> exn" where
  "post_error e = (case e of RateLimited k \<Rightarrow> RateLimited k
     | UncertainWrite _ \<Rightarrow> UncertainWrite ''container target committed before simulated disconnect''
     | _ \<Rightarrow> HttpError ''HTTPStatusError'')"

lemma signed_path:
  fixes room :: string
  assumes "room_fits room"
  defines "p \<equiv> ''/rooms/'' @ quote_segment room @ ''/signed''"
  shows "kept_path p" "p \<noteq> ''/_fixture/rooms''" "p \<notin> {''/_fixture/rate-limit'', ''/_fixture/uncertain-write''}"
    "starts_with ''/rooms/'' p" "ends_with ''/signed'' p" "remove_suffix ''/signed'' (remove_prefix ''/rooms/'' p) = quote_segment room"
proof -
  show "kept_path p" unfolding p_def by (rule kept_rooms [OF assms(1)]) simp
  show "p \<noteq> ''/_fixture/rooms''" "p \<notin> {''/_fixture/rate-limit'', ''/_fixture/uncertain-write''}" "starts_with ''/rooms/'' p"
    "ends_with ''/signed'' p" "remove_suffix ''/signed'' (remove_prefix ''/rooms/'' p) = quote_segment room"
    by (simp_all add: p_def starts_with_def ends_with_def remove_prefix_def remove_suffix_def)
qed

lemma http_post_refines:
  assumes W: "wire_ok W" "length (wr_json W (PDict (post_body actor did nonce msg sig))) \<le> 16384" and small: "\<bar>nonce\<bar> < 10 ^ 100"
    and room: "room_fits room" and log: "\<forall>r \<in> set (local_log t room). sendable r" and nxt: "\<bar>lt_next t\<bar> < 10 ^ 100"
  shows "http_post_signed (fixture_network E W) actor room did nonce msg sig t
    = (case local_post_signed (fs_crypto E) actor room did nonce msg sig t of (Inl e, t') \<Rightarrow> (Inl (post_error e), t')
       | (Inr r, t') \<Rightarrow> (Inr (raw_record_of r), t'))"
proof -
  let ?N = "fixture_network E W" and ?p = "''/rooms/'' @ quote_segment room @ ''/signed''" and ?kvs = "post_body actor did nonce msg sig"
  let ?q = "fixture_request ''POST'' ?p [] (Some (PDict ?kvs))"
  have flat: "flat_body ?kvs" using small by (simp add: flat_body_def post_body_def)
  from posted [OF W(1) flat W(2) signed_path(1) [OF room]] obtain kvs' where k: "map_of kvs' = map_of ?kvs"
    and q: "?N ?q t = (case fixture_route E ?p kvs' t of (Inr r, t') \<Rightarrow> (Inr r, t')
       | (Inl e, t') \<Rightarrow> if is_bad_request e then (case fixture_send 400 [(''error'', PStr ''invalid_request'')] [] of
           Inr r \<Rightarrow> (Inr r, t') | Inl _ \<Rightarrow> (Inl (HttpError ''RemoteProtocolError''), t'))
         else (Inl (HttpError ''RemoteProtocolError''), t'))" by blast
  have keys: "exact_keys [''actor'', ''did'', ''nonce'', ''text'', ''signature''] kvs'"
    unfolding exact_keys_map [OF k] by (simp add: exact_keys_def post_body_def)
  have texts: "body_text E kvs' ''actor'' = actor" "body_text E kvs' ''did'' = did" "body_text E kvs' ''text'' = msg" "body_text E kvs' ''signature'' = sig"
    by (rule body_text_of [OF k]; simp add: post_body_def)+
  have nonce: "get_field ''nonce'' kvs' = PInt nonce" unfolding get_field_def k by (simp add: post_body_def)
  obtain x t' where l: "local_post_signed (fs_crypto E) actor room did nonce msg sig t = (x, t')"
    by (cases "local_post_signed (fs_crypto E) actor room did nonce msg sig t")
  have route: "fixture_route E ?p kvs' t = (case x of
          Inr r \<Rightarrow> (fixture_send 201 (record_dict r) [], t')
        | Inl (RateLimited k) \<Rightarrow> (fixture_send 429 [(''error'', PStr ''rate_limited'')] [(''retry-after'', str_int k)], t')
        | Inl (UncertainWrite _) \<Rightarrow> (fixture_send 599 [(''error'', PStr ''uncertain_write''), (''committed'', PBool True)] [], t')
        | Inl e \<Rightarrow> (Inl e, t'))"
    using signed_path [OF room] keys
    by (simp add: fixture_route_def fixture_post_signed_def unquote_segment raiseS_if_def texts nonce py_int_def bindS_liftS l split: sum.split exn.split)
  have client: "http_post_signed ?N actor room did nonce msg sig t = (let (y, u) = fetch_whole ?N ?q t in case y of Inl e \<Rightarrow> (Inl e, u)
      | Inr r \<Rightarrow> if hr_status r = 429 then (bindE (int_of_text (header r ''retry-after'' ''1'')) (\<lambda>k. Inl (RateLimited k)), u)
        else if hr_status r = 599 then (Inl (UncertainWrite ''container target committed before simulated disconnect''), u)
        else (bindE (raise_for_status r) (\<lambda>_. bindE (loads_bytes (whole_body r)) raw_record_from), u))"
    by (auto simp: http_post_signed_def post_body_def bindS_def bindE_def raiseS_if_def split: prod.split sum.split)
  have reply: "http_post_signed ?N actor room did nonce msg sig t = (if hr_status r = 429 then (bindE (int_of_text (header r ''retry-after'' ''1'')) (\<lambda>k. Inl (RateLimited k)), t')
        else if hr_status r = 599 then (Inl (UncertainWrite ''container target committed before simulated disconnect''), t')
        else (bindE (raise_for_status r) (\<lambda>_. bindE (loads_bytes (whole_body r)) raw_record_from), t'))"
    if "?N ?q t = (Inr r, t')" "\<not> hr_broken r" for r
    unfolding client fetch_reply [where N = ?N, OF that] by simp
  show ?thesis
  proof (cases x)
    case (Inr r)
    with local_post_record [OF l [unfolded Inr]] log nxt small have s: "sendable r" by (auto simp: sendable_def make_record_def)
    from plain_reply [OF plain_record [OF s], of 201 "[]"] obtain h where h: "fixture_send 201 (record_dict r) [] = Inr h" "hr_status h = 201"
      "\<not> hr_broken h" "loads_bytes (whole_body h) = Inr (norm (PDict (record_dict r)))" by auto
    then have "?N ?q t = (Inr h, t')" using q route Inr by simp
    from reply [OF this h(3)] show ?thesis
      using h s by (simp add: raise_for_status_def raw_record_reads sendable_def l Inr del: norm.simps)
  next
    case (Inl e)
    from local_post_errors [OF l [unfolded Inl]] consider "e = RateLimited 1" | s where "e = UncertainWrite s" | s where "e = ValueError s" by blast
    then show ?thesis
    proof cases
      case 1
      have "plain (PDict [(''error'', PStr ''rate_limited'')])" by simp
      from plain_reply [OF this, of 429 "[(''retry-after'', str_int 1)]"] obtain h where
        h: "fixture_send 429 [(''error'', PStr ''rate_limited'')] [(''retry-after'', str_int 1)] = Inr h" "hr_status h = 429" "\<not> hr_broken h"
          and hs: "\<forall>k. k \<notin> {''content-type'', ''content-length''} \<longrightarrow> map_of (hr_headers h) k = map_of [(''retry-after'', str_int 1)] k"
        by blast
      from hs have "map_of (hr_headers h) ''retry-after'' = Some (str_int 1)" by simp
      note h = h this
      have "?N ?q t = (Inr h, t')" using q route Inl 1 h(1) by simp
      from reply [OF this h(3)] show ?thesis using h by (simp add: header_def int_of_str_int l Inl 1 post_error_def)
    next
      case 2
      have "plain (PDict [(''error'', PStr ''uncertain_write''), (''committed'', PBool True)])" by simp
      from plain_reply [OF this, of 599 "[]"] obtain h where
        h: "fixture_send 599 [(''error'', PStr ''uncertain_write''), (''committed'', PBool True)] [] = Inr h" "hr_status h = 599" "\<not> hr_broken h" by auto
      then have "?N ?q t = (Inr h, t')" using q route Inl 2 by simp
      from reply [OF this h(3)] show ?thesis using h by (simp add: l Inl 2 post_error_def)
    next
      case 3
      obtain h where h: "fixture_send 400 [(''error'', PStr ''invalid_request'')] [] = Inr h" "hr_status h = 400" "\<not> hr_broken h"
        using refused_reply by blast
      then have "?N ?q t = (Inr h, t')" using q route Inl 3 by simp
      from reply [OF this h(3)] show ?thesis using h by (simp add: raise_for_status_def l Inl 3 post_error_def)
    qed
  qed
qed

section \<open>Sequences of calls\<close>

datatype fixture_call = LimitOnce string string | LoseOnce string string | CreateRoom string | ReadRoom string int int
  | PostSigned string string string int string string

datatype fixture_answer = Done | Records "raw_record list" | Posted raw_record

definition answered :: "('a \<Rightarrow> 'b) \<Rightarrow> ('t, 'a) op \<Rightarrow> ('t, 'b) op" where
  "answered f m = bindS m (\<lambda>a. retS (f a))"

fun call_local :: "crypto \<Rightarrow> fixture_call \<Rightarrow> (local_target, fixture_answer) op" where
  "call_local C (LimitOnce actor room) = answered (\<lambda>_. Done) (local_inject_rate_limit actor room)"
| "call_local C (LoseOnce actor room) = answered (\<lambda>_. Done) (local_inject_uncertain actor room)"
| "call_local C (CreateRoom room) = answered (\<lambda>_. Done) (local_create_room room)"
| "call_local C (ReadRoom room since limit) = answered (\<lambda>rs. Records (map raw_record_of rs)) (local_read_room room since limit)"
| "call_local C (PostSigned actor room did nonce msg sig) =
     answered (\<lambda>r. Posted (raw_record_of r)) (local_post_signed C actor room did nonce msg sig)"

fun call_http :: "'n network \<Rightarrow> fixture_call \<Rightarrow> ('n, fixture_answer) op" where
  "call_http N (LimitOnce actor room) = answered (\<lambda>_. Done) (http_inject_rate_limit N actor room)"
| "call_http N (LoseOnce actor room) = answered (\<lambda>_. Done) (http_inject_uncertain N actor room)"
| "call_http N (CreateRoom room) = answered (\<lambda>_. Done) (http_create_room N room)"
| "call_http N (ReadRoom room since limit) = answered Records (http_read_room N room since limit)"
| "call_http N (PostSigned actor room did nonce msg sig) = answered Posted (http_post_signed N actor room did nonce msg sig)"

text \<open>What a caller sees of an error of the fixture through the transport.\<close>

fun seen_error :: "fixture_call \<Rightarrow> exn \<Rightarrow> exn" where
  "seen_error (ReadRoom _ _ _) e = HttpError ''RemoteProtocolError''"
| "seen_error (PostSigned _ _ _ _ _ _) e = post_error e"
| "seen_error _ e = HttpError ''HTTPStatusError''"

definition seen_over_http :: "fixture_call \<Rightarrow> fixture_answer result \<Rightarrow> fixture_answer result" where
  "seen_over_http c x = (case x of Inl e \<Rightarrow> Inl (seen_error c e) | Inr a \<Rightarrow> Inr a)"

text \<open>
  The service takes bodies of at most 16384 bytes, and \<open>int\<close> texts of at most 4300 digits; a room that
  stands in a path is none of the dot segments.
\<close>

fun call_fits :: "wire \<Rightarrow> fixture_call \<Rightarrow> bool" where
  "call_fits W (LimitOnce actor room) = (length (wr_json W (PDict [(''actor'', PStr actor), (''room'', PStr room)])) \<le> 16384)"
| "call_fits W (LoseOnce actor room) = (length (wr_json W (PDict [(''actor'', PStr actor), (''room'', PStr room)])) \<le> 16384)"
| "call_fits W (CreateRoom room) = (length (wr_json W (PDict [(''room'', PStr room)])) \<le> 16384)"
| "call_fits W (ReadRoom room since limit) = (room_fits room \<and> \<bar>since\<bar> < 10 ^ 100 \<and> \<bar>limit\<bar> < 10 ^ 100)"
| "call_fits W (PostSigned actor room did nonce msg sig) =
     (room_fits room \<and> \<bar>nonce\<bar> < 10 ^ 100 \<and> length (wr_json W (PDict (post_body actor did nonce msg sig))) \<le> 16384)"

definition local_fits :: "nat \<Rightarrow> local_target \<Rightarrow> bool" where
  "local_fits n t = (0 \<le> lt_next t \<and> lt_next t + int n < 10 ^ 100 \<and> (\<forall>room. \<forall>r \<in> set (local_log t room). sendable r))"

fun run_calls :: "('c \<Rightarrow> ('t, 'a) op) \<Rightarrow> 'c list \<Rightarrow> 't \<Rightarrow> 'a result list \<times> 't" where
  "run_calls f [] t = ([], t)"
| "run_calls f (c # cs) t = (case f c t of (x, t') \<Rightarrow> (case run_calls f cs t' of (xs, u) \<Rightarrow> (x # xs, u)))"

lemma call_refines:
  assumes W: "wire_ok W" and c: "call_fits W c" and t: "local_fits n t"
  shows "call_http (fixture_network E W) c t = (case call_local (fs_crypto E) c t of (x, t') \<Rightarrow> (seen_over_http c x, t'))"
proof -
  have "\<bar>lt_next t\<bar> < 10 ^ 100" using t unfolding local_fits_def by linarith
  moreover have "\<forall>r \<in> set (local_log t room). sendable r" for room using t unfolding local_fits_def by blast
  ultimately have t: "\<bar>lt_next t\<bar> < 10 ^ 100" "\<forall>r \<in> set (local_log t room). sendable r" for room by blast+
  show ?thesis
  proof (cases c)
    case (PostSigned actor room did nonce msg sig)
    with c have "room_fits room" "\<bar>nonce\<bar> < 10 ^ 100" "length (wr_json W (PDict (post_body actor did nonce msg sig))) \<le> 16384" by auto
    from http_post_refines [OF W this(3,2,1) t(2,1)] show ?thesis
      by (simp add: PostSigned answered_def bindS_def seen_over_http_def split: prod.split sum.split)
  next
    case (ReadRoom room since limit)
    with c have "room_fits room" "\<bar>since\<bar> < 10 ^ 100" "\<bar>limit\<bar> < 10 ^ 100" by auto
    from http_read_refines [OF W this t(2)] show ?thesis
      by (simp add: ReadRoom answered_def bindS_def seen_over_http_def split: prod.split sum.split)
  qed (use c http_inject_refines [OF W] http_create_refines [OF W] in
      \<open>simp_all add: answered_def bindS_def seen_over_http_def local_inject_rate_limit_def local_inject_uncertain_def split: prod.split sum.split\<close>)
qed

lemma local_log_injected: "local_log (t\<lparr>lt_rate := x\<rparr>) = local_log t" "local_log (t\<lparr>lt_uncertain := x\<rparr>) = local_log t"
  by (simp_all add: fun_eq_iff local_log_def)

lemma call_keeps_fits:
  assumes t: "local_fits (Suc n) t" and c: "call_fits W c" and run: "call_local C c t = (x, t')"
  shows "local_fits n t'"
proof (cases c)
  case (PostSigned actor room did nonce msg sig)
  with c have nonce: "\<bar>nonce\<bar> < 10 ^ 100" by simp
  from run PostSigned obtain y where y: "local_post_signed C actor room did nonce msg sig t = (y, t')"
    by (auto simp: answered_def bindS_def split: prod.splits sum.splits)
  have "(local_log t' = local_log t \<and> lt_next t' = lt_next t) \<or> (lt_next t' = lt_next t + 1
      \<and> local_log t' = (local_log t)(room := local_log t room @ [make_record (lt_next t) room did nonce msg sig]))"
    using local_post_cases [OF y] local_store_cases [of actor room did nonce msg sig "set_default room t" y t'] by auto
  moreover have "sendable (make_record (lt_next t) room did nonce msg sig)"
    using t nonce by (auto simp: sendable_def make_record_def local_fits_def)
  ultimately show ?thesis using t by (auto simp: local_fits_def split: if_splits)
qed (use run t in \<open>auto simp: answered_def bindS_def local_inject_rate_limit_def local_inject_uncertain_def local_create_room_def
      local_read_room_def raiseS_if_def local_fits_def local_log_injected split: if_splits\<close>)

section \<open>Properties\<close>

text \<open>C40: Over any sequence of calls that fit the wire (bodies of at most 16384 bytes, and no room
read or written whose name is a dot segment, which \<open>httpx\<close> takes out of the path, or is longer than 8192
bytes escaped), the HTTP client connected to the HTTP service answers as the in-memory fixture does: the rooms, sequence numbers and faults of the
fixture develop in the same way, every record and list of records is the same, and an error is
the error that the transport makes of it (a rate limit and an uncertain write are recognised,
any other refusal of a write is an HTTP status error, one of a read a closed connection).\<close>

theorem http_fixture_refines_local:
  assumes "wire_ok W" and "list_all (call_fits W) cs" and "local_fits (length cs) t"
  shows "run_calls (call_http (fixture_network E W)) cs t
    = (case run_calls (call_local (fs_crypto E)) cs t of (xs, t') \<Rightarrow> (map2 seen_over_http cs xs, t'))"
  using assms(2,3)
proof (induction cs arbitrary: t)
  case (Cons c cs)
  then have c: "call_fits W c" and cs: "list_all (call_fits W) cs" and t: "local_fits (Suc (length cs)) t" by simp_all
  obtain x t' where x: "call_local (fs_crypto E) c t = (x, t')" by (cases "call_local (fs_crypto E) c t")
  from Cons.IH [OF cs call_keeps_fits [OF t c x]] call_refines [OF assms(1) c t, of E] show ?case
    by (simp add: x split: prod.splits)
qed simp

text \<open>A wire that writes sorted JSON.\<close>

definition demo_wire :: wire where
  "demo_wire = \<lparr>wr_path = (\<lambda>p ps. if ps = [] then p else p @ ''?'' @ query_line ps),
     wr_json = (\<lambda>v. case dumps True v of Inl _ \<Rightarrow> [] | Inr s \<Rightarrow> utf8 s)\<rparr>"

lemma demo_wire_ok: "wire_ok demo_wire"
proof -
  have "\<exists>kvs'. loads_bytes (wr_json demo_wire (PDict kvs)) = Inr (PDict kvs') \<and> map_of kvs' = map_of kvs" if flat: "flat_body kvs" for kvs
  proof -
    have d: "distinct (map fst kvs)" and vs: "\<forall>v \<in> snd ` set kvs. plain v \<and> norm v = v"
      using flat by (auto simp: flat_body_def list_all_iff split: pyval.splits)
    then have p: "plain (PDict kvs)" by (simp add: plain_items_iff)
    from plain_dumps [OF p] obtain s where s: "dumps True (PDict kvs) = Inr s" by blast
    have "map_option norm (map_of kvs k) = map_of kvs k" for k
      using vs by (cases "map_of kvs k") (auto dest!: map_of_SomeD)
    then have "map_of (sort_key fst (norm_items kvs)) = map_of kvs" using map_of_printed [OF d] by (simp add: fun_eq_iff)
    moreover have "loads_bytes (wr_json demo_wire (PDict kvs)) = Inr (norm (PDict kvs))"
      using loads_dumps [OF plain_wf(1) [OF p] s] s by (simp add: demo_wire_def loads_bytes_def del: dumps.simps norm.simps)
    ultimately show ?thesis by simp
  qed
  then show ?thesis unfolding wire_ok_def by (simp add: demo_wire_def)
qed

lemma http_fixture_refines_local_witness:
  "\<exists>E t. run_calls (call_http (fixture_network E demo_wire)) [CreateRoom ''mb-a'', ReadRoom ''mb-a'' 0 10, ReadRoom ''mb-a'' 0 0] new_local
    = ([Inr Done, Inr (Records []), Inl (HttpError ''RemoteProtocolError'')], t)"
proof -
  let ?cs = "[CreateRoom ''mb-a'', ReadRoom ''mb-a'' 0 10, ReadRoom ''mb-a'' 0 0]" and ?E = "\<lparr>fs_crypto = demo_crypto, fs_stdlib = plain_stdlib, fs_int = (\<lambda>_. Inr 0)\<rparr>"
  have "wr_json demo_wire (PDict [(''room'', PStr ''mb-a'')]) = utf8 ([CHR 0x7B, CHR 0x22] @ ''room'' @ [CHR 0x22, CHR '':'', CHR 0x22] @ ''mb-a'' @ [CHR 0x22, CHR 0x7D])"
    by code_simp
  moreover have "room_fits ''mb-a''" by code_simp
  ultimately have "list_all (call_fits demo_wire) ?cs" by (simp add: utf8_def utf8_char_def)
  moreover have "local_fits (length ?cs) new_local" by (simp add: local_fits_def new_local_def local_log_def)
  ultimately have "run_calls (call_http (fixture_network ?E demo_wire)) ?cs new_local
    = (case run_calls (call_local (fs_crypto ?E)) ?cs new_local of (xs, t') \<Rightarrow> (map2 seen_over_http ?cs xs, t'))"
    by (rule http_fixture_refines_local [OF demo_wire_ok])
  moreover have "fst (run_calls (call_local (fs_crypto ?E)) ?cs new_local) = [Inr Done, Inr (Records []), Inl (ValueError ''limit outside bounded range'')]"
    by (simp add: answered_def bindS_def local_create_room_def local_read_room_def raiseS_if_def new_local_def set_default_def local_log_def dict_put_def)
  ultimately show ?thesis by (cases "run_calls (call_local (fs_crypto ?E)) ?cs new_local") (auto simp: seen_over_http_def)
qed

end
