(* ===== verification/Runners.thy ===== *)
theory Runners
  imports Operations
begin

text \<open>
  \<open>rosetta/runners.py\<close>: the arguments of the container runtime for an adapter, their check,
  and the supervisor that compiles the command of a registered adapter behind the gate.
\<close>

section \<open>The policy\<close>

text \<open>\<open>rp_cpus\<close> is the printed form of the float \<open>cpu_quota\<close>.\<close>

record runner_policy =
  rp_user :: string
  rp_memory_mb :: int
  rp_cpus :: string
  rp_pids :: int
  rp_timeout :: int
  rp_network :: string

definition default_runner_policy :: runner_policy where
  "default_runner_policy = \<lparr>rp_user = ''65532:65532'', rp_memory_mb = 256, rp_cpus = ''0.5'', rp_pids = 64, rp_timeout = 120,
     rp_network = ''rosetta-target-only''\<rparr>"

definition docker_arguments :: "runner_policy \<Rightarrow> adapter_manifest \<Rightarrow> string list" where
  "docker_arguments pol m = [''run'', ''--rm'', ''--read-only'', ''--user'', rp_user pol, ''--cap-drop=ALL'',
     ''--security-opt=no-new-privileges'', ''--memory='' @ str_int (rp_memory_mb pol) @ ''m'', ''--cpus='' @ rp_cpus pol,
     ''--pids-limit='' @ str_int (rp_pids pol), ''--tmpfs=/tmp:rw,noexec,nosuid,size=16m'', ''--network='' @ rp_network pol, am_image_digest m]"

definition required_flags :: "string list" where
  "required_flags = [''--read-only'', ''--cap-drop=ALL'', ''--security-opt=no-new-privileges'']"

definition forbidden_flags :: "string list" where
  "forbidden_flags = [''--privileged'', ''/var/run/docker.sock'', ''--network=host'', ''-v '', ''--mount'']"

definition validate_arguments :: "string list \<Rightarrow> unit result" where
  "validate_arguments args = (let joined = join '' '' args in
     raise_if (list_ex (\<lambda>f. \<not> contains f joined) required_flags) (ValueError ''runner isolation flag missing'')
     (raise_if (list_ex (\<lambda>f. contains f joined) forbidden_flags) (ValueError ''forbidden runner authority'') (Inr ())))"

section \<open>The supervisor\<close>

record supervisor =
  sv_registry :: registry
  sv_policy :: runner_policy
  sv_gated :: bool

definition new_supervisor :: "registry \<Rightarrow> runner_policy option \<Rightarrow> bool \<Rightarrow> bool \<Rightarrow> supervisor result" where
  "new_supervisor reg pol gated allow_ungated_fixture =
     raise_if (\<not> gated \<and> \<not> allow_ungated_fixture) (ValueError ''operational gate required outside explicit fixture validation'')
     (Inr \<lparr>sv_registry = reg, sv_policy = (case pol of None \<Rightarrow> default_runner_policy | Some p \<Rightarrow> p), sv_gated = gated\<rparr>)"

definition runner_spec :: "string \<Rightarrow> adapter_manifest \<Rightarrow> runner_policy \<Rightarrow> pyval" where
  "runner_spec adapter_id m pol = PDict [(''adapter_id'', PStr adapter_id), (''image'', PStr (am_image_digest m)),
     (''command'', PList (map PStr (docker_arguments pol m))), (''host_mounts'', PList []), (''secrets'', PList []),
     (''network'', PStr (rp_network pol)), (''ephemeral'', PBool True)]"

definition compile_runner :: "supervisor \<Rightarrow> string \<Rightarrow> ('w base_scheme, pyval) op" where
  "compile_runner V adapter_id =
     bindS (ifS (sv_gated V) (gate_require ''runner'') (retS ())) (\<lambda>_.
     bindS (liftS (registry_require (sv_registry V) adapter_id)) (\<lambda>m.
     bindS (liftS (validate_arguments (docker_arguments (sv_policy V) m))) (\<lambda>_.
     retS (runner_spec adapter_id m (sv_policy V)))))"

section \<open>What a compiled command is\<close>

lemma starts_with_rec:
  "starts_with [] s" "\<not> starts_with (a # p) []" "starts_with (a # p) (c # s) \<longleftrightarrow> a = c \<and> starts_with p s"
  by (auto simp: starts_with_def)

lemma contains_suffix: "hd p \<notin> set s \<Longrightarrow> p \<noteq> [] \<Longrightarrow> \<not> contains p s"
proof (induction s)
  case (Cons c s)
  then show ?case by (cases p) (auto simp: starts_with_def)
qed simp

lemma pinned_image:
  assumes "immutable_digest d"
  shows "\<exists>h. d = ''sha256:'' @ h \<and> CHR ''-'' \<notin> set h \<and> CHR ''/'' \<notin> set h"
proof -
  from assms have pre: "starts_with ''sha256:'' d" and hex: "lower_hex 64 (remove_prefix ''sha256:'' d)" by (simp_all add: immutable_digest_def)
  from pre obtain h where d: "d = ''sha256:'' @ h" unfolding starts_with_iff by blast
  from hex have h: "lower_hex 64 h" unfolding d remove_prefix_append .
  have "\<not> is_lower_hex (CHR ''-'')" "\<not> is_lower_hex (CHR ''/'')" by code_simp+
  with h have "CHR ''-'' \<notin> set h \<and> CHR ''/'' \<notin> set h" unfolding lower_hex_def list_all_iff by blast
  with d show ?thesis by blast
qed

text \<open>The default arguments of a pinned image pass their own check.\<close>

lemma default_arguments_pass:
  assumes "valid_manifest m"
  shows "validate_arguments (docker_arguments default_runner_policy m) = Inr ()"
proof -
  from assms pinned_image obtain h where h: "am_image_digest m = ''sha256:'' @ h" "CHR ''-'' \<notin> set h" "CHR ''/'' \<notin> set h"
    by (auto simp: valid_manifest_def)
  have nums: "str_int 256 = ''256''" "str_int 64 = ''64''" by code_simp+
  have no: "\<not> contains f h" if "f \<in> set forbidden_flags" for f
    using that h by (intro contains_suffix) (auto simp: forbidden_flags_def)
  then have "\<forall>f \<in> set forbidden_flags. \<not> contains f (join '' '' (docker_arguments default_runner_policy m))"
    unfolding docker_arguments_def h(1) default_runner_policy_def
    by (simp add: nums forbidden_flags_def starts_with_rec)
  moreover have "\<forall>f \<in> set required_flags. contains f (join '' '' (docker_arguments default_runner_policy m))"
    unfolding docker_arguments_def h(1) default_runner_policy_def
    by (simp add: nums required_flags_def starts_with_rec)
  ultimately show ?thesis by (auto simp: validate_arguments_def Let_def list_ex_iff)
qed

section \<open>Isolation\<close>

text \<open>The supervisor compiles a command only for a registered adapter and behind the open
gate; the command names the pinned image, has every isolation flag and no forbidden authority,
whatever the policy; and the default policy compiles one for every pinned adapter.\<close>

theorem compiled_runner_isolated:
  assumes "list_all valid_manifest (sv_registry V)"
  shows "(\<forall>v w'. compile_runner V adapter_id w = (Inr v, w') \<longrightarrow> w' = w
      \<and> (sv_gated V \<longrightarrow> \<not> b_kill w \<and> \<not> component_quarantined ''runner'' (b_store w))
      \<and> (\<exists>m \<in> set (sv_registry V). am_id m = adapter_id \<and> v = runner_spec adapter_id m (sv_policy V)
        \<and> (let line = join '' '' (docker_arguments (sv_policy V) m) in
           list_all (\<lambda>f. contains f line) required_flags \<and> list_all (\<lambda>f. \<not> contains f line) forbidden_flags)))
    \<and> (sv_policy V = default_runner_policy \<longrightarrow> sv_gated V \<longrightarrow> \<not> b_kill w \<longrightarrow> \<not> component_quarantined ''runner'' (b_store w) \<longrightarrow>
      (\<forall>m. registry_require (sv_registry V) adapter_id = Inr m \<longrightarrow>
        compile_runner V adapter_id w = (Inr (runner_spec adapter_id m default_runner_policy), w)))"
proof (intro conjI allI impI)
  fix v w' assume run: "compile_runner V adapter_id w = (Inr v, w')"
  then obtain m where m: "registry_require (sv_registry V) adapter_id = Inr m" "validate_arguments (docker_arguments (sv_policy V) m) = Inr ()"
    "v = runner_spec adapter_id m (sv_policy V)" and gate: "ifS (sv_gated V) (gate_require ''runner'') (retS ()) w = (Inr (), w')"
    by (auto simp: compile_runner_def)
  from gate show "w' = w" by (auto simp: ifS_def split: if_splits)
  show "\<not> b_kill w" "\<not> component_quarantined ''runner'' (b_store w)" if "sv_gated V" using gate that by (auto simp: ifS_def)
  show "\<exists>m \<in> set (sv_registry V). am_id m = adapter_id \<and> v = runner_spec adapter_id m (sv_policy V)
        \<and> (let line = join '' '' (docker_arguments (sv_policy V) m) in
           list_all (\<lambda>f. contains f line) required_flags \<and> list_all (\<lambda>f. \<not> contains f line) forbidden_flags)"
    using m registry_require_Inr [OF m(1)] by (auto simp: validate_arguments_def Let_def list_ex_iff list_all_iff)
next
  fix m assume "sv_policy V = default_runner_policy" "sv_gated V" "\<not> b_kill w" "\<not> component_quarantined ''runner'' (b_store w)"
    and m: "registry_require (sv_registry V) adapter_id = Inr m"
  moreover from m assms have "valid_manifest m" using registry_require_Inr [OF m] by (auto simp: list_all_iff)
  ultimately show "compile_runner V adapter_id w = (Inr (runner_spec adapter_id m default_runner_policy), w)"
    using default_arguments_pass by (simp add: compile_runner_def ifS_def bindS_pair)
qed

definition pinned_manifest :: adapter_manifest where
  "pinned_manifest = \<lparr>am_id = ''raw-fetch'', am_runtime = ''python'', am_source_repository = ''repo'', am_source_revision_kind = ''git_commit'',
     am_source_revision = replicate 40 CHR ''a'', am_wrapper_revision = None, am_dependency_lock = replicate 64 CHR ''b'', am_image = ''image'',
     am_image_digest = ''sha256:'' @ replicate 64 CHR ''c'', am_transport = ''http'', am_capabilities = [''read'']\<rparr>"

lemma compiled_runner_isolated_witness:
  "\<exists>V. new_supervisor [pinned_manifest] None True False = Inr V
     \<and> compile_runner V ''raw-fetch'' \<lparr>b_store = empty_store, b_kill = False\<rparr>
       = (Inr (runner_spec ''raw-fetch'' pinned_manifest default_runner_policy), \<lparr>b_store = empty_store, b_kill = False\<rparr>)"
proof -
  let ?V = "\<lparr>sv_registry = [pinned_manifest], sv_policy = default_runner_policy, sv_gated = True\<rparr>" and ?w = "\<lparr>b_store = empty_store, b_kill = False\<rparr>"
  have "valid_manifest pinned_manifest" by code_simp
  then have v: "list_all valid_manifest (sv_registry ?V)" by simp
  have "compile_runner ?V ''raw-fetch'' ?w = (Inr (runner_spec ''raw-fetch'' pinned_manifest default_runner_policy), ?w)"
    by (rule compiled_runner_isolated [OF v, THEN conjunct2, rule_format])
      (simp_all add: component_quarantined_def empty_store_def registry_require_def, simp add: pinned_manifest_def)
  moreover have "new_supervisor [pinned_manifest] None True False = Inr ?V" by (simp add: new_supervisor_def)
  ultimately show ?thesis by blast
qed

end
