(* ===== verification/Spec2Isabelle.thy ===== *)
theory Spec2Isabelle
  imports Messenger_Faults Observer Pilot_Behaviour Evolution_Example Probe_Safety Fixture_Refinement Runners
begin

text \<open>
  A verification development for the Rosetta interoperability lab, the Python
  program under \<open>src/src/rosetta\<close> and \<open>src/src/rosetta_signer\<close>.

  \<^bold>\<open>The program.\<close>  Rosetta is an agent of the Technocore network.  It holds an
  Ed25519 identity in a networkless signer process, reads public rooms through an
  egress proxy, answers discovery queries and service requests with signed
  records, runs a conformance scenario between pairs of adapters and keeps its
  state in one SQLite file.  A record that arrives in a room goes through the
  client (\<open>technocore_client.py\<close>: sequence numbers, signatures), the request
  service (\<open>service.py\<close>: parsing, quotas, deduplication), the runner
  (\<open>scenario.py\<close> over \<open>adapters.py\<close>), the messenger (\<open>delivery.py\<close>: at most one
  stored body per delivery key), the signer (\<open>rosetta_signer\<close>: one fresh nonce per
  signature) and leaves through the write policy of \<open>pilot_egress.py\<close>.  The
  pilot (\<open>pilot.py\<close>) is the command that runs this loop against the public
  network: it prepares an activation for approval, writes the approved records,
  polls and serves; its configuration comes from \<open>config.py\<close> and
  \<open>pilot_config.py\<close>, and what it reports leaves as signed bundles
  (\<open>evidence.py\<close>, \<open>publishing.py\<close>).  The kill switch, the quarantine and the budgets of \<open>operations.py\<close> are asked
  before every one of these steps.

  \<^bold>\<open>Conventions.\<close>  A Python exception is a value of \<open>exn\<close>; a function that may
  raise returns \<open>exn + 'a\<close>, a method that may raise and change state returns the
  result beside the new state, which keeps the changes made before the raise
  (\<open>Prelude\<close>).  A class is a \<open>record\<close>, an enum a \<open>datatype\<close>, a Python integer an
  \<open>int\<close>, a \<open>str\<close> or \<open>bytes\<close> value a \<open>string\<close>.  Text is bounded to Latin-1: the
  predicates of \<open>str\<close> that depend on Unicode tables are written out for the 256
  characters of \<open>char\<close>.  A datetime counts microseconds and carries an offset
  (\<open>Py_Time\<close>), and \<open>now\<close> is always an argument.  A table of SQLite is a list of
  rows in insertion order; a transaction that raises leaves the tables unchanged.
  A JSON boolean in an integer field is read as Python reads it, an integer.

  \<^bold>\<open>Parameters.\<close>  What is not in the repository is an argument of the definitions
  that use it, with its documented behaviour as a named hypothesis of the
  theorems that need it: \<open>crypto\<close> (SHA-256 and Ed25519; \<open>crypto_ok\<close>: a signature
  verifies under its key), \<open>pydantic\<close> (the lenient conversion of a field to a
  date or an integer), the network of \<open>Http\<close> (an arbitrary transition function),
  the remote runtimes behind the adapters (\<open>adapter_runtime\<close>), the JSON schemas of
  the service documents, the float operations of \<open>json\<close>, the decoding of
  \<open>Response.text\<close> in the public probe (\<open>qp_text\<close>), what the HTTP client of the fixture puts
  on the wire (\<open>wire\<close>, with \<open>wire_ok\<close>: a path without the segments \<open>.\<close> and \<open>..\<close> is kept,
  any other may be changed, as \<open>httpx\<close> does) and the clock readings of
  a loop (a list, one entry per turn).

  \<^bold>\<open>Theories.\<close>
  \<^item> \<open>Prelude\<close>, \<open>Py_Text\<close>, \<open>Py_Time\<close>, \<open>Json\<close>, \<open>Json_Facts\<close>, \<open>Url\<close>, \<open>Http\<close>: exceptions and
    their monads, \<open>str\<close> methods, dates with \<open>isoformat\<close>, \<open>json.dumps\<close> and
    \<open>json.loads\<close>, \<open>urllib.parse\<close>, and the HTTP client with the log of what it sent.
    \<open>Http\<close> also holds \<open>adapter_errors.py\<close>.
  \<^item> \<open>Canonical\<close>, \<open>Did\<close>, \<open>Signer\<close>: the package \<open>rosetta_signer\<close>.  The sweep of a text,
    canonical JSON, the signed byte strings, base58 and base64url, did:key, the
    nonce table, \<open>SignerProtocol.handle\<close> and one connection of the socket service.
  \<^item> \<open>Contracts\<close>: \<open>contracts.py\<close>, every pydantic model with the checks of building it.
  \<^item> \<open>State_Store\<close>, \<open>State_Facts\<close>, \<open>Store_Policy\<close>: \<open>persistence.py\<close>; the methods, what
    they keep (\<open>wf_store\<close>), and the store as a transition system with the quotas
    and distances as invariants of its reachable states.
  \<^item> \<open>Operations\<close>: \<open>operations.py\<close>, \<open>registry.py\<close>, \<open>scheduler.py\<close>, \<open>observability.py\<close>.
  \<^item> \<open>Local_Protocol\<close>, \<open>Adapters\<close>, \<open>Scenario\<close>: the in-memory Technocore room server,
    the adapters over it and the scenario roundtrip.
  \<^item> \<open>Delivery\<close>, \<open>Messenger\<close>, \<open>Messenger_Faults\<close>: \<open>delivery.py\<close> and \<open>signer_client.py\<close>.  The locale
    \<open>technocore_target\<close> (in \<open>Local_Protocol\<close>) states what a room server promises,
    \<open>message_signer\<close> what the signer promises, \<open>messenger\<close> joins them; the local
    room server and \<open>handle\<close> of \<open>Signer\<close> interpret all three, and so does the room server
    behind a script of faults (\<open>faulty_target\<close>: rate limits, refusals, uncertain writes,
    lost requests and answers, lost reads).  \<open>counter_lanes\<close>
    (in \<open>Signer\<close>) is the contract of the nonce table and of the handler.
  \<^item> \<open>Technocore_Client\<close>, \<open>Egress\<close>, \<open>Observer\<close>: the HTTP client, the two egress proxies
    (\<open>egress.py\<close>, \<open>pilot_egress.py\<close>) and \<open>observer.py\<close>.
  \<^item> \<open>Engagement\<close>, \<open>Service\<close>: \<open>engagement.py\<close> and \<open>service.py\<close>.
  \<^item> \<open>Config\<close>: \<open>config.py\<close> and \<open>pilot_config.py\<close>, every check of loading a document.
  \<^item> \<open>Files\<close>, \<open>Evidence\<close>, \<open>Publishing\<close>: directory trees as values, the evidence
    bundle with its Merkle root and its verification, the two publishers.  The
    locale \<open>artifact_signer\<close> is what a bundle asks of its signer; the in-process
    key and the key behind the operational gate interpret it.
  \<^item> \<open>Pilot\<close>, \<open>Pilot_Activation\<close>, \<open>Pilot_Poll\<close>: \<open>pilot.py\<close> in the order of its
    methods.  \<open>pilot_world\<close> joins the states of the parts it drives (worker, gate,
    files, private directory, network, clock); a part's method runs in it through
    the lifts \<open>in_worker\<close>, \<open>in_files\<close>, \<open>in_gateway\<close> and their siblings, so the parts
    are the definitions of their own theories.  \<open>Pilot\<close> holds the preview and
    activation of engagement, \<open>Pilot_Activation\<close> the approved activation of the
    service records, \<open>Pilot_Poll\<close> presence, polling, health and the loop.
  \<^item> \<open>Pilot_Safety\<close>, \<open>Pilot_Texts\<close>, \<open>Pilot_Behaviour\<close>: what the pilot keeps and does.
    The locales \<open>reading_target\<close> and \<open>numbered_target\<close> state what the pilot asks of
    a room target (reads send no write; a read keeps the sequence numbers); the
    HTTP target of the source interprets both.
  \<^item> \<open>Evolution\<close>, \<open>Evolution_Pipeline\<close>: \<open>evolution.py\<close> and \<open>evolution_cli.py\<close>.  A proposal to
    change the project is a candidate with mutations of files; the engine stages it
    in a copy, has the copy evaluated, seals a signed package, and, on the approval of
    an operator, promotes it into the project and can roll it back.  \<open>site\<close> is the
    state of an engine: the worker beside a tree of files.
  \<^item> \<open>Evolution_Safety\<close>, \<open>Evolution_Promotion\<close>, \<open>Evolution_Package\<close>, \<open>Evolution_Example\<close>:
    what a promotion writes and how it is undone, which packages verify, and a
    worked example.  The locale \<open>proposal_signer\<close> is what a package asks of its
    signer; the in-process key and the key behind the gate interpret it.
    \<open>Printing\<close> holds what printed documents share when they are read back.
  \<^item> \<open>Probe\<close>, \<open>Probe_Safety\<close>: \<open>public_pilot_probe.py\<close>, the synthetic peer that plays one
    approved request through the public service and checks the published answer, and
    what it sends and concludes.
  \<^item> \<open>Fixture_Http\<close>, \<open>Fixture_Refinement\<close>: \<open>target_service.py\<close> and \<open>http_target.py\<close>, the HTTP
    service around the in-memory fixture and its client, joined by \<open>fixture_network\<close>, and the
    proof that a client at the far end of the wire sees the fixture itself.
  \<^item> \<open>Runners\<close>: \<open>runners.py\<close>, the isolated container command of a registered adapter.

  \<^bold>\<open>What the lemmas show.\<close>  \<open>Json_Facts\<close>, \<open>Did\<close>, \<open>Canonical\<close>: encodings read back and are
  injective, so a signature names one record.  \<open>Signer\<close>: nonces of a lane rise,
  a response verifies over the requested payload, payloads of different
  purposes differ.  \<open>Store_Policy\<close>: invariants of every reachable store.
  \<open>Messenger_Faults\<close>: over any sequence of sends, faults of the target and posts of
  strangers, a confirmed delivery stands in its room exactly once.  \<open>Scenario\<close>: a fixture run ends and its verdict is exact.
  \<open>Service\<close>: every stored request is run once, every repetition is answered from
  the store.  \<open>Egress\<close>, \<open>Observer\<close>, \<open>Technocore_Client\<close>: what leaves the process
  over the network, and what is accepted from it.  \<open>Evidence\<close>, \<open>Publishing\<close>: a built
  bundle verifies, its root fixes its files, a publication is all or nothing.
  The evolution theories: every file that a promotion changes was approved, allowed
  and tested, an approved rollback restores the project from every state that a
  promotion can stop in, and the package of a staged candidate verifies.
  \<open>Probe_Safety\<close>: the public probe writes nothing but the record of the approved preview,
  and its verdict rests on signed answers and on a report that verifies.
  \<open>Fixture_Refinement\<close>: any sequence of calls over HTTP, for rooms whose names are
  no dot segments, answers as the in-memory fixture.
  \<open>Runners\<close>: a compiled command names a pinned image, keeps every isolation flag and has
  no forbidden authority.
  \<open>Config\<close>: what every loaded configuration satisfies.  The pilot theories: no
  write under the kill switch, only closed engagement texts, an activation that
  follows its approved preview, at most one presence write a poll, and a service
  loop that outlives a failing poll.

  \<^bold>\<open>Bounds and fuel.\<close>  \<open>loads\<close> reads with fuel \<open>2 * length s + 2\<close>, enough because
  every call of the reader consumes a character or descends once per value
  (\<open>canonical_json_reads_back\<close> holds without a bound on the value).  The messenger
  makes two attempts, as its source does.  The service loop \<open>serve n\<close> takes the
  number of turns begun before the stop event is set: the loop of the source
  ends only then, so every finite run is \<open>serve n\<close> for one \<open>n\<close>, and
  \<open>service_survives_failures\<close> shows that it returns for each.  Everything else
  terminates by structural recursion.

  \<^bold>\<open>Not modelled.\<close>  Locking and disk errors of SQLite, failures of the file system, the event loops and the
  sleeps, the metrics file, the argument parsers; symbolic links and empty
  directories in the trees of \<open>evolution.py\<close> (a tree lists files only, so the empty directory
  \<open>local\<close> of a stage and the directories that a removal empties are not there); the failures of
  \<open>json.loads\<close> that are no \<open>JSONDecodeError\<close> (an integer of more than 4300 digits, nesting beyond
  the recursion limit), which the readers here treat as texts that do not parse;
  the socket server of \<open>target_service.py\<close>; \<open>cli.py\<close>, which wires these parts into one demonstration run, and the scripts under
  \<open>tools/\<close>; the adapter harnesses in other runtimes; vendored code, the site and
  the deployment units.
\<close>

end
